(* ===== verification/Prelude.thy ===== *)
theory Prelude
  imports Main "HOL-Library.AList" "HOL-Library.List_Lexorder" "HOL-Library.Char_ord"
    "HOL-Library.Multiset"
begin

text \<open>
  Shared vocabulary of the development.

  \<^item> JavaScript strings are \<^typ>\<open>string\<close>: a character stands for one UTF-16 code unit
    below 256, which covers every identifier, digest and key the modelled code accepts. The
    order of \<open>List_Lexorder\<close> and \<open>Char_ord\<close> is the order of the JavaScript operator
    \<open><\<close> on strings.
  \<^item> A JavaScript \<open>Map\<close> is an association list in insertion order. \<open>AList.update\<close> keeps the
    position of a present key and appends an absent one, which is what \<open>Map.set\<close> does.
    A \<open>Set\<close> is a list without repetitions in insertion order.
  \<^item> A thrown error is the left summand of a sum; \<open>res_bind\<close> sequences computations that may
    throw and \<open>res_fold\<close> is a \<open>for\<close> loop whose body may throw.
  \<^item> \<open>Array.prototype.sort\<close> with a comparator on a key is stable, hence it is
    \<^const>\<open>sort_key\<close>.
\<close>

named_theorems js_simps \<open>unfolding rules of the JavaScript vocabulary\<close>

subsection \<open>Numbers and identifiers\<close>

definition max_safe_integer :: int where
  "max_safe_integer = 9007199254740991"

definition is_safe_integer :: "int \<Rightarrow> bool" where
  "is_safe_integer n \<longleftrightarrow> - max_safe_integer \<le> n \<and> n \<le> max_safe_integer"

definition is_lower :: "char \<Rightarrow> bool" where
  "is_lower c \<longleftrightarrow> CHR ''a'' \<le> c \<and> c \<le> CHR ''z''"

definition is_upper :: "char \<Rightarrow> bool" where
  "is_upper c \<longleftrightarrow> CHR ''A'' \<le> c \<and> c \<le> CHR ''Z''"

definition is_digit :: "char \<Rightarrow> bool" where
  "is_digit c \<longleftrightarrow> CHR ''0'' \<le> c \<and> c \<le> CHR ''9''"

definition is_alnum :: "char \<Rightarrow> bool" where
  "is_alnum c \<longleftrightarrow> is_lower c \<or> is_upper c \<or> is_digit c"

text \<open>The identifier test \<open>/^[A-Za-z0-9][A-Za-z0-9._:-]*$/\<close> with a length bound of 128.\<close>

definition bounded_id :: "string \<Rightarrow> bool" where
  "bounded_id s \<longleftrightarrow> 0 < length s \<and> length s \<le> 128 \<and>
     (case s of [] \<Rightarrow> False
      | c # cs \<Rightarrow> is_alnum c \<and> (\<forall>d \<in> set cs. is_alnum d \<or> d \<in> set ''._:-''))"

text \<open>The separator \<open>\u0000\<close> and keys joined with it.\<close>

definition nul :: char where
  "nul = CHR 0x00"

fun nul_join :: "string list \<Rightarrow> string" where
  "nul_join [] = []"
| "nul_join [s] = s"
| "nul_join (s # t # ss) = s @ nul # nul_join (t # ss)"

definition nul_free :: "string \<Rightarrow> bool" where
  "nul_free s \<longleftrightarrow> nul \<notin> set s"

lemma nul_free_split:
  assumes "nul_free a" "nul_free b" "a @ nul # x = b @ nul # y"
  shows "a = b" "x = y"
proof -
  have a: "takeWhile (\<lambda>c. c \<noteq> nul) (a @ nul # x) = a"
    using assms(1) by (simp add: nul_free_def takeWhile_tail) (metis takeWhile_eq_all_conv)
  have b: "takeWhile (\<lambda>c. c \<noteq> nul) (b @ nul # y) = b"
    using assms(2) by (simp add: nul_free_def takeWhile_tail) (metis takeWhile_eq_all_conv)
  show "a = b" using a b assms(3) by simp
  then show "x = y" using assms(3) by simp
qed

lemma nul_join_Cons_Cons: "nul_join (s # t # ss) = s @ nul # nul_join (t # ss)"
  by simp

lemma bounded_id_nul_free: "bounded_id s \<Longrightarrow> nul_free s"
  by (cases s)
     (auto simp: bounded_id_def nul_free_def nul_def is_alnum_def is_lower_def is_upper_def
        is_digit_def less_eq_char_def)

subsection \<open>Results of computations that may throw\<close>

fun res_bind :: "'e + 'a \<Rightarrow> ('a \<Rightarrow> 'e + 'b) \<Rightarrow> 'e + 'b" where
  "res_bind (Inl e) f = Inl e"
| "res_bind (Inr a) f = f a"

fun res_fold :: "('a \<Rightarrow> 's \<Rightarrow> 'e + 's) \<Rightarrow> 'a list \<Rightarrow> 's \<Rightarrow> 'e + 's" where
  "res_fold f [] s = Inr s"
| "res_fold f (x # xs) s = res_bind (f x s) (res_fold f xs)"

definition guard_that :: "bool \<Rightarrow> 'e \<Rightarrow> 'e + unit" where
  "guard_that b e = (if b then Inr () else Inl e)"

lemma res_bind_Inr [simp]: "res_bind r f = Inr b \<longleftrightarrow> (\<exists>a. r = Inr a \<and> f a = Inr b)"
  by (cases r) auto

lemma res_bind_Inl: "res_bind r f = Inl e \<longleftrightarrow> r = Inl e \<or> (\<exists>a. r = Inr a \<and> f a = Inl e)"
  by (cases r) auto

lemma guard_that_Inr [simp]: "guard_that b e = Inr u \<longleftrightarrow> b"
  by (simp add: guard_that_def)

lemma guard_that_Inl [simp]: "guard_that b e = Inl e' \<longleftrightarrow> \<not> b \<and> e' = e"
  by (auto simp: guard_that_def)

text \<open>A loop invariant: it holds at the start and every iteration that does not throw keeps it.\<close>

lemma res_fold_invariant:
  assumes "res_fold f xs s = Inr t" and "P s"
    and "\<And>x s t. x \<in> set xs \<Longrightarrow> P s \<Longrightarrow> f x s = Inr t \<Longrightarrow> P t"
  shows "P t"
  using assms
proof (induction xs arbitrary: s)
  case Nil
  then show ?case by simp
next
  case (Cons x xs)
  from Cons.prems(1) obtain u where u: "f x s = Inr u" "res_fold f xs u = Inr t"
    by auto
  show ?case
  proof (rule Cons.IH)
    show "res_fold f xs u = Inr t" by (rule u(2))
    show "P u" using Cons.prems(2,3) u(1) by force
  qed (use Cons.prems(3) in auto)
qed

text \<open>What one iteration establishes and the later ones keep holds after the loop.\<close>

lemma res_fold_establishes:
  assumes "res_fold f xs s = Inr t" and "x \<in> set xs"
    and "\<And>s t. f x s = Inr t \<Longrightarrow> Q t"
    and "\<And>y s t. y \<in> set xs \<Longrightarrow> Q s \<Longrightarrow> f y s = Inr t \<Longrightarrow> Q t"
  shows "Q t"
  using assms
proof (induction xs arbitrary: s)
  case Nil
  then show ?case by simp
next
  case (Cons y ys)
  from Cons.prems(1) obtain u where u: "f y s = Inr u" "res_fold f ys u = Inr t"
    by auto
  show ?case
  proof (cases "y = x")
    case True
    with u(1) Cons.prems(3) have "Q u" by blast
    with u(2) show ?thesis
      by (rule res_fold_invariant) (use Cons.prems(4) in auto)
  next
    case False
    with Cons.prems(2) have "x \<in> set ys" by simp
    then show ?thesis
    proof (rule Cons.IH [OF u(2)])
      show "Q t'" if "f x s' = Inr t'" for s' t'
        using that by (rule Cons.prems(3))
      show "Q t'" if "z \<in> set ys" "Q s'" "f z s' = Inr t'" for z s' t'
        using that by (intro Cons.prems(4) [of z s' t']) simp_all
    qed
  qed
qed

lemma res_fold_append:
  "res_fold f (xs @ ys) s = res_bind (res_fold f xs s) (res_fold f ys)"
proof (induction xs arbitrary: s)
  case (Cons x xs)
  show ?case by (cases "f x s") (simp_all add: Cons.IH)
qed simp

subsection \<open>Maps and sets in insertion order\<close>

type_synonym ('k, 'v) js_map = "('k \<times> 'v) list"

definition set_add :: "'a \<Rightarrow> 'a list \<Rightarrow> 'a list" where
  "set_add x xs = (if x \<in> set xs then xs else xs @ [x])"

lemma set_set_add [simp]: "set (set_add x xs) = insert x (set xs)"
  by (auto simp: set_add_def)

lemma distinct_set_add [simp]: "distinct (set_add x xs) = distinct xs"
  by (auto simp: set_add_def)

definition map_get_or :: "('k, 'v) js_map \<Rightarrow> 'k \<Rightarrow> 'v \<Rightarrow> 'v" where
  "map_get_or m k d = (case map_of m k of None \<Rightarrow> d | Some v \<Rightarrow> v)"

lemma map_of_update [simp]: "map_of (AList.update k v m) = (map_of m)(k \<mapsto> v)"
  by (rule update_conv')

lemma map_of_delete [simp]: "map_of (AList.delete k m) = (map_of m)(k := None)"
  by (rule delete_conv')

lemma map_get_or_Nil [simp]: "map_get_or [] k d = d"
  by (simp add: map_get_or_def)

lemma map_get_or_update [simp]:
  "map_get_or (AList.update k v m) j d = (if j = k then v else map_get_or m j d)"
  by (simp add: map_get_or_def)

lemma keys_update [simp]: "fst ` set (AList.update k v m) = insert k (fst ` set m)"
  using dom_update [of k v m] by (simp add: dom_map_of_conv_image_fst)

lemma distinct_keys_update [simp]:
  "distinct (map fst m) \<Longrightarrow> distinct (map fst (AList.update k v m))"
  by (rule distinct_update)

lemma distinct_keys_delete [simp]:
  "distinct (map fst m) \<Longrightarrow> distinct (map fst (AList.delete k m))"
  by (rule distinct_delete)

lemma update_absent: "k \<notin> fst ` set m \<Longrightarrow> AList.update k v m = m @ [(k, v)]"
  by (induction m) auto

lemma length_update:
  "length (AList.update k v m) = (if k \<in> fst ` set m then length m else Suc (length m))"
  by (induction m) auto

lemma length_delete_le: "length (AList.delete k m) \<le> length m"
  by (rule length_delete_le)

subsection \<open>Sorting\<close>

lemma sort_key_perm_unique:
  assumes "mset xs = mset ys" "inj_on f (set xs)"
  shows "sort_key f xs = sort_key f ys"
  using assms by (intro sort_key_inj_key_eq) auto

end
