(* ===== verification/PluginGraph.thy ===== *)
theory PluginGraph
  imports Prelude
begin

text \<open>
  The deterministic plugin graph resolver, \<open>packages/composition/src/deterministic-resolver.ts\<close>.

  The records follow the interfaces of the file. The \<open>semver\<close> package is a parameter: a
  record of the three functions the resolver calls. A thrown
  \<open>PlatformPluginGraphResolutionError\<close> is its code and path; the message text is left out.
  The second half proves what the two graph algorithms compute (the cycle search of
  \<open>shortestRequiredCycle\<close> and the ordering of \<open>dependencyFirstOrder\<close>); the theory
  \<open>PluginGraphResolution\<close> builds the properties of the whole resolver on them.
\<close>

subsection \<open>Data\<close>

datatype dependency =
    PluginDep (dep_target: string) (dep_version: string)
  | CapabilityDep (dep_target: string) (dep_version: string)

record capability_provision =
  pv_capability :: string
  pv_version :: string

record plugin_manifest =
  mf_id :: string
  mf_kind :: string
  mf_package :: string
  mf_version :: string
  mf_provides :: "capability_provision list"
  mf_requires :: "dependency list"
  mf_optional :: "dependency list"
  mf_conflicts :: "dependency list"

record package_identity =
  pk_name :: string
  pk_version :: string
  pk_integrity :: string

record installed_manifest =
  im_package :: package_identity
  im_manifest :: plugin_manifest

record plugin_request =
  rq_id :: string
  rq_package :: string
  rq_version :: string
  rq_enabled :: bool

record provider_request =
  pq_plugin :: string
  pq_package :: string
  pq_version :: string

record semver_ops =
  sv_valid_range :: "string \<Rightarrow> bool"
  sv_satisfies :: "string \<Rightarrow> string \<Rightarrow> bool"
  sv_prerelease :: "string \<Rightarrow> bool"

datatype graph_error_code =
    REQUEST_DUPLICATE | REQUEST_NOT_INSTALLED | REQUEST_IDENTITY_MISMATCH
  | PRERELEASE_NOT_EXPLICIT | DEPENDENCY_MISSING | DEPENDENCY_VERSION_UNSATISFIED
  | CAPABILITY_MISSING | CAPABILITY_VERSION_UNSATISFIED | CAPABILITY_AMBIGUOUS
  | PROVIDER_SELECTION_INVALID | CONFLICT | REQUIRED_CYCLE | MANIFEST_RANGE_INVALID

datatype graph_error = GraphError graph_error_code "string list"

record resolved_node =
  rn_id :: string
  rn_kind :: string
  rn_package :: string
  rn_version :: string
  rn_integrity :: string
  rn_required :: "string list"
  rn_optional :: "string list"

record resolved_provider =
  rp_capability :: string
  rp_plugin :: string
  rp_version :: string

record resolved_graph =
  rg_plugins :: "resolved_node list"
  rg_providers :: "resolved_provider list"
  rg_order :: "string list"

record installed_entry =
  ie_installed :: installed_manifest
  ie_id :: string
  ie_package_name :: string
  ie_version :: string

record identity_request =
  ir_id :: string
  ir_package_name :: string
  ir_version :: string

record capability_requirement =
  cr_consumer :: string
  cr_range :: string

record capability_selection =
  cs_plugin :: string
  cs_version :: string

record installed_indexes =
  ix_entries :: "installed_entry list"
  ix_by_id :: "(string, installed_entry) js_map"
  ix_by_package :: "(string, installed_entry) js_map"

type_synonym edges = "(string, string list) js_map"
type_synonym requirements = "(string, capability_requirement list) js_map"
type_synonym selections = "(string, capability_selection) js_map"

subsection \<open>Helpers\<close>

text \<open>\<open>[...new Set(xs)]\<close>: the first occurrence of every element, in order.\<close>

definition js_dedup :: "'a list \<Rightarrow> 'a list" where
  "js_dedup xs = fold set_add xs []"

text \<open>A string that a truthiness test accepts: the empty string counts as missing.\<close>

fun truthy :: "string option \<Rightarrow> string option" where
  "truthy None = None"
| "truthy (Some v) = (if v = [] then None else Some v)"

definition installed_key :: "installed_entry \<Rightarrow> string" where
  "installed_key e =
     nul_join [ie_id e, ie_package_name e, ie_version e, pk_integrity (im_package (ie_installed e))]"

definition request_key :: "plugin_request \<Rightarrow> string" where
  "request_key r = nul_join [rq_id r, rq_package r, rq_version r]"

fun dependency_key :: "dependency \<Rightarrow> string" where
  "dependency_key (PluginDep p v) = nul_join [''plugin'', p, v]"
| "dependency_key (CapabilityDep c v) = nul_join [''capability'', c, v]"

definition sorted_dependencies :: "dependency list \<Rightarrow> dependency list" where
  "sorted_dependencies ds = sort_key dependency_key ds"

definition is_valid_range :: "semver_ops \<Rightarrow> string \<Rightarrow> bool" where
  "is_valid_range sv r \<longleftrightarrow>
     dropWhile (\<lambda>c. c \<in> {CHR '' '', CHR 0x09, CHR 0x0A, CHR 0x0B, CHR 0x0C, CHR 0x0D, CHR 0xA0}) r \<noteq> []
     \<and> sv_valid_range sv r"

definition provided_versions :: "installed_entry \<Rightarrow> string \<Rightarrow> string list" where
  "provided_versions e cap =
     sort (js_dedup (map pv_version
       (filter (\<lambda>p. pv_capability p = cap) (mf_provides (im_manifest (ie_installed e))))))"

definition identity_from_plugin_request :: "plugin_request \<Rightarrow> identity_request" where
  "identity_from_plugin_request r =
     \<lparr>ir_id = rq_id r, ir_package_name = rq_package r, ir_version = rq_version r\<rparr>"

definition identity_from_provider_request :: "provider_request \<Rightarrow> identity_request" where
  "identity_from_provider_request r =
     \<lparr>ir_id = pq_plugin r, ir_package_name = pq_package r, ir_version = pq_version r\<rparr>"

subsection \<open>Installed plugins and requests\<close>

definition installed_entry_of :: "installed_manifest \<Rightarrow> installed_entry" where
  "installed_entry_of v =
     \<lparr>ie_installed = v, ie_id = mf_id (im_manifest v), ie_package_name = pk_name (im_package v),
      ie_version = pk_version (im_package v)\<rparr>"

fun index_entry :: "installed_entry \<Rightarrow>
    (string, installed_entry) js_map \<times> (string, installed_entry) js_map \<Rightarrow>
    graph_error + (string, installed_entry) js_map \<times> (string, installed_entry) js_map" where
  "index_entry e (by_id, by_package) =
     (if mf_package (im_manifest (ie_installed e)) \<noteq> ie_package_name e
         \<or> mf_version (im_manifest (ie_installed e)) \<noteq> ie_version e
      then Inl (GraphError REQUEST_IDENTITY_MISMATCH [ie_id e])
      else if map_of by_id (ie_id e) \<noteq> None
      then Inl (GraphError REQUEST_DUPLICATE [ie_id e])
      else if map_of by_package (ie_package_name e) \<noteq> None
      then Inl (GraphError REQUEST_DUPLICATE [ie_package_name e])
      else Inr (AList.update (ie_id e) e by_id, AList.update (ie_package_name e) e by_package))"

definition build_installed_indexes :: "installed_manifest list \<Rightarrow> graph_error + installed_indexes" where
  "build_installed_indexes installed =
     (let sorted = sort_key installed_key (map installed_entry_of installed)
      in res_bind (res_fold index_entry sorted ([], []))
           (\<lambda>(by_id, by_package).
              Inr \<lparr>ix_entries = sorted, ix_by_id = by_id, ix_by_package = by_package\<rparr>))"

text \<open>
  The source compares the two looked-up entry objects by identity. Once the index is built
  every entry has its own identifier, so equality of the values is the same test.
\<close>

definition reconcile_identity :: "identity_request \<Rightarrow> installed_indexes \<Rightarrow> graph_error + installed_entry" where
  "reconcile_identity idr ix =
     (case (map_of (ix_by_id ix) (ir_id idr), map_of (ix_by_package ix) (ir_package_name idr)) of
        (None, None) \<Rightarrow> Inl (GraphError REQUEST_NOT_INSTALLED [ir_id idr])
      | (Some a, Some b) \<Rightarrow>
          (if a \<noteq> b \<or> ie_package_name a \<noteq> ir_package_name idr \<or> ie_version a \<noteq> ir_version idr
           then Inl (GraphError REQUEST_IDENTITY_MISMATCH [ir_id idr])
           else Inr a)
      | _ \<Rightarrow> Inl (GraphError REQUEST_IDENTITY_MISMATCH [ir_id idr]))"

fun request_duplicate_step :: "plugin_request \<Rightarrow> string list \<times> string list \<Rightarrow>
    graph_error + string list \<times> string list" where
  "request_duplicate_step r (ids, packages) =
     (if rq_id r \<in> set ids then Inl (GraphError REQUEST_DUPLICATE [rq_id r])
      else if rq_package r \<in> set packages then Inl (GraphError REQUEST_DUPLICATE [rq_package r])
      else Inr (set_add (rq_id r) ids, set_add (rq_package r) packages))"

definition validate_plugin_request_duplicates :: "plugin_request list \<Rightarrow> graph_error + unit" where
  "validate_plugin_request_duplicates plugins =
     res_bind (res_fold request_duplicate_step (sort_key request_key plugins) ([], []))
       (\<lambda>_. Inr ())"

definition entry_range_dependencies :: "installed_entry \<Rightarrow> dependency list" where
  "entry_range_dependencies e =
     (let m = im_manifest (ie_installed e)
      in sorted_dependencies (mf_requires m) @ sorted_dependencies (mf_optional m)
         @ sorted_dependencies (mf_conflicts m))"

definition validate_range_dependencies :: "semver_ops \<Rightarrow> installed_entry list \<Rightarrow> graph_error + unit" where
  "validate_range_dependencies sv active =
     res_fold (\<lambda>e _.
       res_fold (\<lambda>d _. guard_that (is_valid_range sv (dep_version d))
                         (GraphError MANIFEST_RANGE_INVALID [ie_id e, dep_target d]))
         (entry_range_dependencies e) ()) active ()"

subsection \<open>The shortest required cycle\<close>

definition canonical_cycle :: "string list \<Rightarrow> string list" where
  "canonical_cycle path =
     (let nodes = butlast path;
          best = fold (\<lambda>offset best.
                   let candidate = drop offset nodes @ take offset nodes
                   in if nul_join candidate < nul_join best then candidate else best)
                 [1..<length nodes] nodes
      in best @ take 1 best)"

definition better_cycle :: "string list option \<Rightarrow> string list \<Rightarrow> string list option" where
  "better_cycle shortest cycle =
     (case shortest of
        None \<Rightarrow> Some cycle
      | Some s \<Rightarrow>
          (if length cycle < length s \<or> length cycle = length s \<and> nul_join cycle < nul_join s
           then Some cycle else Some s))"

record search_state =
  ss_queue :: "(string \<times> string list) list"
  ss_distance :: "(string, nat) js_map"
  ss_shortest :: "string list option"

definition neighbors_of :: "edges \<Rightarrow> string \<Rightarrow> string list" where
  "neighbors_of es n = sort (map_get_or es n [])"

definition visit_neighbor :: "string \<Rightarrow> string list \<Rightarrow> string \<Rightarrow> search_state \<Rightarrow> search_state" where
  "visit_neighbor start path neighbor s =
     (if neighbor = start
      then s\<lparr>ss_shortest := better_cycle (ss_shortest s) (canonical_cycle (path @ [start]))\<rparr>
      else if (case map_of (ss_distance s) neighbor of None \<Rightarrow> False | Some d \<Rightarrow> d \<le> length path)
      then s
      else s\<lparr>ss_distance := AList.update neighbor (length path) (ss_distance s),
             ss_queue := ss_queue s @ [(neighbor, path @ [neighbor])]\<rparr>)"

definition visit_all :: "edges \<Rightarrow> string \<Rightarrow> string \<Rightarrow> string list \<Rightarrow> search_state \<Rightarrow> search_state" where
  "visit_all es start node path s = fold (visit_neighbor start path) (neighbors_of es node) s"

definition edge_targets :: "edges \<Rightarrow> string set" where
  "edge_targets es = (\<Union>(_, ts) \<in> set es. set ts)"

definition unseen_count :: "edges \<Rightarrow> search_state \<Rightarrow> nat" where
  "unseen_count es s = card {n \<in> edge_targets es. map_of (ss_distance s) n = None}"

definition distance_sum :: "edges \<Rightarrow> search_state \<Rightarrow> nat" where
  "distance_sum es s =
     (\<Sum>n \<in> edge_targets es. case map_of (ss_distance s) n of None \<Rightarrow> 0 | Some d \<Rightarrow> d)"

lemma finite_edge_targets [simp, intro]: "finite (edge_targets es)"
  by (auto simp: edge_targets_def)

lemma neighbors_in_targets: "u \<in> set (neighbors_of es n) \<Longrightarrow> u \<in> edge_targets es"
  by (cases "map_of es n")
     (fastforce simp: neighbors_of_def map_get_or_def edge_targets_def dest: map_of_SomeD)+

text \<open>
  One visit either leaves queue and distances alone, or discovers a node, or lowers a
  distance: the lexicographic progress that ends the search.
\<close>

definition search_progress :: "edges \<Rightarrow> search_state \<Rightarrow> search_state \<Rightarrow> bool" where
  "search_progress es s t \<longleftrightarrow>
     ss_queue t = ss_queue s \<and> ss_distance t = ss_distance s
     \<or> unseen_count es t < unseen_count es s
     \<or> unseen_count es t = unseen_count es s \<and> distance_sum es t < distance_sum es s"

lemma visit_neighbor_progress:
  assumes u: "u \<in> edge_targets es"
  shows "search_progress es s (visit_neighbor start path u s)"
proof (cases "map_of (ss_distance s) u")
  case None
  show ?thesis
  proof (cases "u = start")
    case False
    let ?t = "visit_neighbor start path u s"
    have "{n \<in> edge_targets es. map_of (ss_distance ?t) n = None}
          \<subset> {n \<in> edge_targets es. map_of (ss_distance s) n = None}"
      using u None False by (auto simp: visit_neighbor_def)
    then have "unseen_count es ?t < unseen_count es s"
      unfolding unseen_count_def by (intro psubset_card_mono) auto
    then show ?thesis by (simp add: search_progress_def)
  qed (simp add: visit_neighbor_def search_progress_def)
next
  case (Some d)
  show ?thesis
  proof (cases "u = start \<or> d \<le> length path")
    case True
    with Some show ?thesis by (auto simp: visit_neighbor_def search_progress_def)
  next
    case False
    let ?t = "visit_neighbor start path u s"
    have dist: "map_of (ss_distance ?t) = (map_of (ss_distance s))(u \<mapsto> length path)"
      using False Some by (simp add: visit_neighbor_def)
    have "unseen_count es ?t = unseen_count es s"
      unfolding unseen_count_def dist using Some by (intro arg_cong [where f = card]) auto
    moreover have "distance_sum es ?t < distance_sum es s"
      unfolding distance_sum_def dist
      by (rule sum_strict_mono_ex1) (use False Some u in \<open>auto split: option.splits\<close>)
    ultimately show ?thesis by (simp add: search_progress_def)
  qed
qed

lemma search_progress_trans:
  "search_progress es s t \<Longrightarrow> search_progress es t u \<Longrightarrow> search_progress es s u"
  by (auto simp: search_progress_def unseen_count_def distance_sum_def)

lemma visit_list_progress:
  "set us \<subseteq> edge_targets es \<Longrightarrow> search_progress es s (fold (visit_neighbor start path) us s)"
proof (induction us arbitrary: s)
  case Nil
  then show ?case by (simp add: search_progress_def)
next
  case (Cons u us)
  then have "search_progress es s (visit_neighbor start path u s)"
    by (intro visit_neighbor_progress) simp
  also have "search_progress es (visit_neighbor start path u s)
      (fold (visit_neighbor start path) us (visit_neighbor start path u s))"
    using Cons by simp
  finally (search_progress_trans) show ?case by simp
qed

function search_loop :: "edges \<Rightarrow> string \<Rightarrow> search_state \<Rightarrow> search_state" where
  "search_loop es start s =
     (case ss_queue s of
        [] \<Rightarrow> s
      | (node, path) # rest \<Rightarrow>
          search_loop es start (visit_all es start node path (s\<lparr>ss_queue := rest\<rparr>)))"
  by pat_completeness auto
termination
proof (relation "measures [\<lambda>(es, _, s). unseen_count es s, \<lambda>(es, _, s). distance_sum es s,
                           \<lambda>(_, _, s). length (ss_queue s)]", goal_cases)
  case 1
  show ?case by simp
next
  case (2 es start s item rest node path)
  have "search_progress es (s\<lparr>ss_queue := rest\<rparr>) (visit_all es start node path (s\<lparr>ss_queue := rest\<rparr>))"
    unfolding visit_all_def by (rule visit_list_progress) (auto dest: neighbors_in_targets)
  then show ?case
    using 2 by (auto simp: search_progress_def unseen_count_def distance_sum_def)
qed

declare search_loop.simps [simp del]

definition shortest_required_cycle :: "edges \<Rightarrow> string list option" where
  "shortest_required_cycle es =
     fold (\<lambda>start shortest.
        ss_shortest (search_loop es start
          \<lparr>ss_queue = [(start, [start])], ss_distance = [(start, 0)], ss_shortest = shortest\<rparr>))
       (sort (map fst es)) None"

subsection \<open>Dependency-first order\<close>

record order_state =
  os_ready :: "string list"
  os_remaining :: "(string, int) js_map"
  os_order :: "string list"

definition count_node :: "edges \<Rightarrow> string \<Rightarrow> (string, int) js_map \<times> (string, string list) js_map \<Rightarrow>
    (string, int) js_map \<times> (string, string list) js_map" where
  "count_node es node = (\<lambda>(remaining, dependents).
     let dependencies = map_get_or es node []
     in (AList.update node (int (length dependencies)) remaining,
         fold (\<lambda>dependency users.
                 AList.update dependency (set_add node (map_get_or users dependency [])) users)
           dependencies dependents))"

definition release_dependent :: "string \<Rightarrow> order_state \<Rightarrow> order_state" where
  "release_dependent dependent s =
     (let count = map_get_or (os_remaining s) dependent 0 - 1
      in s\<lparr>os_remaining := AList.update dependent count (os_remaining s),
           os_ready := (if count = 0 then os_ready s @ [dependent] else os_ready s)\<rparr>)"

definition ready_weight :: "order_state \<Rightarrow> nat" where
  "ready_weight s = length (os_ready s) + sum_list (map (nat \<circ> snd) (os_remaining s))"

lemma sum_list_update:
  "sum_list (map (nat \<circ> snd) (AList.update k c m)) + nat (map_get_or m k 0)
   = sum_list (map (nat \<circ> snd) m) + nat c"
  by (induction m) (auto simp: map_get_or_def)

lemma release_dependent_weight: "ready_weight (release_dependent d s) \<le> ready_weight s"
  using sum_list_update [of d "map_get_or (os_remaining s) d 0 - 1" "os_remaining s"]
  by (auto simp: release_dependent_def ready_weight_def Let_def)

lemma release_all_weight: "ready_weight (fold release_dependent ds s) \<le> ready_weight s"
proof (induction ds arbitrary: s)
  case (Cons d ds)
  show ?case
    using Cons [of "release_dependent d s"] release_dependent_weight [of d s] by simp
qed simp

function order_loop :: "(string, string list) js_map \<Rightarrow> order_state \<Rightarrow> order_state" where
  "order_loop dependents s =
     (case sort (os_ready s) of
        [] \<Rightarrow> s
      | node # rest \<Rightarrow>
          if node = [] then s\<lparr>os_ready := rest\<rparr>
          else order_loop dependents
            (fold release_dependent (sort (map_get_or dependents node []))
              (s\<lparr>os_ready := rest, os_order := os_order s @ [node]\<rparr>)))"
  by pat_completeness auto
termination
proof (relation "measure (\<lambda>(_, s). ready_weight s)", goal_cases)
  case 1
  show ?case by simp
next
  case (2 dependents s node rest)
  have "length (os_ready s) = Suc (length rest)"
    using 2 by (metis length_Cons length_sort)
  then show ?case
    using release_all_weight [of "sort (map_get_or dependents node [])"
        "s\<lparr>os_ready := rest, os_order := os_order s @ [node]\<rparr>"]
    by (simp add: ready_weight_def)
qed

declare order_loop.simps [simp del]

definition dependency_first_order :: "string list \<Rightarrow> edges \<Rightarrow> string list" where
  "dependency_first_order nodes es =
     (let (remaining, dependents) = fold (count_node es) nodes ([], []);
          ready = sort (filter (\<lambda>n. map_of remaining n = Some 0) nodes)
      in os_order (order_loop dependents
           \<lparr>os_ready = ready, os_remaining = remaining, os_order = []\<rparr>))"

subsection \<open>Capabilities\<close>

definition select_provided_version :: "semver_ops \<Rightarrow> installed_entry \<Rightarrow> string \<Rightarrow> string list \<Rightarrow> string option" where
  "select_provided_version sv e cap ranges =
     List.find (\<lambda>v. \<forall>r \<in> set ranges. sv_satisfies sv v r) (provided_versions e cap)"

definition active_providers :: "installed_entry list \<Rightarrow> string \<Rightarrow> installed_entry list" where
  "active_providers active cap =
     sort_key ie_id (filter (\<lambda>e. 0 < length (provided_versions e cap)) active)"

text \<open>\<open>edges.get(consumer)?.add(plugin)\<close>\<close>

definition add_edge :: "string \<Rightarrow> string \<Rightarrow> edges \<Rightarrow> edges" where
  "add_edge consumer plugin es =
     (case map_of es consumer of
        None \<Rightarrow> es
      | Some s \<Rightarrow> AList.update consumer (set_add plugin s) es)"

text \<open>The branch for a capability with an explicitly selected provider.\<close>

definition select_explicit :: "semver_ops \<Rightarrow> string \<Rightarrow> string list \<Rightarrow> installed_entry \<Rightarrow>
    graph_error + capability_selection" where
  "select_explicit sv cap ranges entry =
     (case truthy (select_provided_version sv entry cap ranges) of
        None \<Rightarrow>
          (if length (provided_versions entry cap) = 0
           then Inl (GraphError PROVIDER_SELECTION_INVALID [cap, ie_id entry])
           else Inl (GraphError CAPABILITY_VERSION_UNSATISFIED [cap, ie_id entry]))
      | Some version \<Rightarrow> Inr \<lparr>cs_plugin = ie_id entry, cs_version = version\<rparr>)"

text \<open>The branch that looks for the only compatible active provider.\<close>

definition select_implicit :: "semver_ops \<Rightarrow> string \<Rightarrow> string list \<Rightarrow> installed_entry list \<Rightarrow>
    installed_entry list \<Rightarrow> string list \<Rightarrow> graph_error + capability_selection" where
  "select_implicit sv cap ranges active installed requested =
     (case filter (\<lambda>e. select_provided_version sv e cap ranges \<noteq> None) (active_providers active cap) of
        [] \<Rightarrow>
          (if 0 < length (active_providers active cap)
           then Inl (GraphError CAPABILITY_VERSION_UNSATISFIED [cap])
           else if \<exists>e \<in> set installed. sv_prerelease sv (ie_version e) \<and> ie_id e \<notin> set requested
                     \<and> 0 < length (provided_versions e cap)
           then Inl (GraphError PRERELEASE_NOT_EXPLICIT [cap])
           else Inl (GraphError CAPABILITY_MISSING [cap]))
      | entry # others \<Rightarrow>
          (if others \<noteq> []
           then Inl (GraphError CAPABILITY_AMBIGUOUS (cap # map ie_id (entry # others)))
           else (case truthy (select_provided_version sv entry cap ranges) of
                   None \<Rightarrow> Inl (GraphError CAPABILITY_VERSION_UNSATISFIED [cap])
                 | Some version \<Rightarrow> Inr \<lparr>cs_plugin = ie_id entry, cs_version = version\<rparr>)))"

definition resolve_required_capability :: "semver_ops \<Rightarrow> requirements \<Rightarrow> installed_entry list \<Rightarrow>
    installed_entry list \<Rightarrow> (string, installed_entry) js_map \<Rightarrow> string list \<Rightarrow> string \<Rightarrow>
    edges \<times> selections \<Rightarrow> graph_error + edges \<times> selections" where
  "resolve_required_capability sv reqs active installed explicit requested cap = (\<lambda>(es, sels).
     let entries = map_get_or reqs cap [];
         ranges = map cr_range entries
     in res_bind
          (case map_of explicit cap of
             Some entry \<Rightarrow> select_explicit sv cap ranges entry
           | None \<Rightarrow> select_implicit sv cap ranges active installed requested)
          (\<lambda>selected.
             Inr (fold (\<lambda>r. add_edge (cr_consumer r) (cs_plugin selected)) entries es,
                  AList.update cap selected sels)))"

definition resolve_required_capabilities :: "semver_ops \<Rightarrow> requirements \<Rightarrow> installed_entry list \<Rightarrow>
    installed_entry list \<Rightarrow> (string, installed_entry) js_map \<Rightarrow> string list \<Rightarrow>
    edges \<times> selections \<Rightarrow> graph_error + edges \<times> selections" where
  "resolve_required_capabilities sv reqs active installed explicit requested =
     res_fold (resolve_required_capability sv reqs active installed explicit requested)
       (sort (map fst reqs))"

definition add_compatible_edges :: "semver_ops \<Rightarrow> capability_requirement list \<Rightarrow>
    capability_selection \<Rightarrow> edges \<Rightarrow> edges" where
  "add_compatible_edges sv rs selected =
     fold (\<lambda>r es. if sv_satisfies sv (cs_version selected) (cr_range r)
                  then add_edge (cr_consumer r) (cs_plugin selected) es else es) rs"

definition resolve_optional_capability :: "semver_ops \<Rightarrow> requirements \<Rightarrow> installed_entry list \<Rightarrow>
    (string, installed_entry) js_map \<Rightarrow> string \<Rightarrow>
    selections \<times> edges \<Rightarrow> graph_error + selections \<times> edges" where
  "resolve_optional_capability sv reqs active explicit cap = (\<lambda>(sels, es).
     let rs = map_get_or reqs cap [];
         wanted = (\<lambda>v. \<exists>r \<in> set rs. sv_satisfies sv v (cr_range r))
     in case map_of sels cap of
          Some selected \<Rightarrow>
            Inr (sels, if \<exists>e \<in> set active. ie_id e = cs_plugin selected
                       then add_compatible_edges sv rs selected es else es)
        | None \<Rightarrow>
          (case map_of explicit cap of
             Some entry \<Rightarrow>
               (case provided_versions entry cap of
                  [] \<Rightarrow> Inl (GraphError PROVIDER_SELECTION_INVALID [cap, ie_id entry])
                | first # _ \<Rightarrow>
                    let version = (case List.find wanted (provided_versions entry cap) of
                                     None \<Rightarrow> first | Some v \<Rightarrow> v);
                        selection = \<lparr>cs_plugin = ie_id entry, cs_version = version\<rparr>
                    in Inr (AList.update cap selection sels, add_compatible_edges sv rs selection es))
           | None \<Rightarrow>
               (case filter (\<lambda>p. \<exists>v \<in> set (provided_versions p cap). wanted v)
                       (active_providers active cap) of
                  [] \<Rightarrow> Inr (sels, es)
                | [provider] \<Rightarrow>
                    (case truthy (List.find wanted (provided_versions provider cap)) of
                       None \<Rightarrow> Inr (sels, es)
                     | Some version \<Rightarrow>
                         let selection = \<lparr>cs_plugin = ie_id provider, cs_version = version\<rparr>
                         in Inr (AList.update cap selection sels,
                                 add_compatible_edges sv rs selection es))
                | providers \<Rightarrow> Inl (GraphError CAPABILITY_AMBIGUOUS (cap # map ie_id providers)))))"

definition resolve_optional_capabilities :: "semver_ops \<Rightarrow> requirements \<Rightarrow> installed_entry list \<Rightarrow>
    (string, installed_entry) js_map \<Rightarrow> selections \<times> edges \<Rightarrow> graph_error + selections \<times> edges" where
  "resolve_optional_capabilities sv reqs active explicit =
     res_fold (resolve_optional_capability sv reqs active explicit) (sort (map fst reqs))"

subsection \<open>Conflicts\<close>

definition validate_conflict :: "semver_ops \<Rightarrow> installed_entry list \<Rightarrow> (string, installed_entry) js_map \<Rightarrow>
    installed_entry \<Rightarrow> dependency \<Rightarrow> graph_error + unit" where
  "validate_conflict sv active active_by_id e d =
     (case d of
        PluginDep p rng \<Rightarrow>
          (case map_of active_by_id p of
             None \<Rightarrow> Inr ()
           | Some target \<Rightarrow> guard_that (\<not> sv_satisfies sv (ie_version target) rng)
                              (GraphError CONFLICT [ie_id e, p]))
      | CapabilityDep cap rng \<Rightarrow>
          res_fold (\<lambda>provider _.
              guard_that (truthy (select_provided_version sv provider cap [rng]) = None)
                (GraphError CONFLICT [ie_id e, cap, ie_id provider]))
            (active_providers active cap) ())"

definition validate_conflicts :: "semver_ops \<Rightarrow> installed_entry list \<Rightarrow> (string, installed_entry) js_map \<Rightarrow>
    graph_error + unit" where
  "validate_conflicts sv active active_by_id =
     res_fold (\<lambda>e _. res_fold (\<lambda>d _. validate_conflict sv active active_by_id e d)
                 (sorted_dependencies (mf_conflicts (im_manifest (ie_installed e)))) ())
       active ()"

subsection \<open>Activation and collection of dependencies\<close>

record activation =
  ac_requested :: "string list"
  ac_by_id :: "(string, installed_entry) js_map"

definition activate_plugin :: "installed_indexes \<Rightarrow> plugin_request \<Rightarrow> activation \<Rightarrow> graph_error + activation" where
  "activate_plugin ix r a =
     res_bind (reconcile_identity (identity_from_plugin_request r) ix) (\<lambda>entry.
       Inr (a\<lparr>ac_requested := set_add (rq_id r) (ac_requested a),
              ac_by_id := (if rq_enabled r then AList.update (ie_id entry) entry (ac_by_id a)
                           else ac_by_id a)\<rparr>))"

record provider_activation =
  pa_by_id :: "(string, installed_entry) js_map"
  pa_explicit :: "(string, installed_entry) js_map"
  pa_identities :: "(string, string) js_map"

definition activate_provider :: "installed_indexes \<Rightarrow> string \<times> provider_request \<Rightarrow> provider_activation \<Rightarrow>
    graph_error + provider_activation" where
  "activate_provider ix cr a =
     (let (cap, r) = cr;
          identity = identity_from_provider_request r;
          identity_key = nul_join [ir_package_name identity, ir_version identity]
      in if (case map_of (pa_identities a) (ir_id identity) of
               None \<Rightarrow> False | Some previous \<Rightarrow> previous \<noteq> identity_key)
         then Inl (GraphError REQUEST_DUPLICATE [ir_id identity])
         else res_bind (reconcile_identity identity ix) (\<lambda>entry.
           Inr \<lparr>pa_by_id = AList.update (ie_id entry) entry (pa_by_id a),
                pa_explicit = AList.update cap entry (pa_explicit a),
                pa_identities = AList.update (ir_id identity) identity_key (pa_identities a)\<rparr>))"

record collection =
  co_required :: edges
  co_optional :: edges
  co_required_caps :: requirements
  co_optional_caps :: requirements

definition push_requirement :: "string \<Rightarrow> capability_requirement \<Rightarrow> requirements \<Rightarrow> requirements" where
  "push_requirement cap r reqs = AList.update cap (map_get_or reqs cap [] @ [r]) reqs"

definition collect_required :: "semver_ops \<Rightarrow> installed_indexes \<Rightarrow> string list \<Rightarrow>
    (string, installed_entry) js_map \<Rightarrow> installed_entry \<Rightarrow> dependency \<Rightarrow> collection \<Rightarrow>
    graph_error + collection" where
  "collect_required sv ix requested active_by_id e d c =
     (case d of
        PluginDep p rng \<Rightarrow>
          (case map_of (ix_by_id ix) p of
             None \<Rightarrow> Inl (GraphError DEPENDENCY_MISSING [ie_id e, p])
           | Some installed \<Rightarrow>
               (case map_of active_by_id p of
                  None \<Rightarrow>
                    (if sv_prerelease sv (ie_version installed) \<and> ie_id installed \<notin> set requested
                     then Inl (GraphError PRERELEASE_NOT_EXPLICIT [ie_id e, p])
                     else Inl (GraphError DEPENDENCY_MISSING [ie_id e, p]))
                | Some target \<Rightarrow>
                    (if \<not> sv_satisfies sv (ie_version target) rng
                     then Inl (GraphError DEPENDENCY_VERSION_UNSATISFIED [ie_id e, p])
                     else Inr (c\<lparr>co_required := add_edge (ie_id e) (ie_id target) (co_required c)\<rparr>))))
      | CapabilityDep cap rng \<Rightarrow>
          Inr (c\<lparr>co_required_caps :=
            push_requirement cap \<lparr>cr_consumer = ie_id e, cr_range = rng\<rparr> (co_required_caps c)\<rparr>))"

definition collect_optional :: "semver_ops \<Rightarrow> (string, installed_entry) js_map \<Rightarrow> installed_entry \<Rightarrow>
    dependency \<Rightarrow> collection \<Rightarrow> collection" where
  "collect_optional sv active_by_id e d c =
     (case d of
        PluginDep p rng \<Rightarrow>
          (case map_of active_by_id p of
             None \<Rightarrow> c
           | Some target \<Rightarrow>
               (if sv_satisfies sv (ie_version target) rng
                then c\<lparr>co_optional := add_edge (ie_id e) (ie_id target) (co_optional c)\<rparr>
                else c))
      | CapabilityDep cap rng \<Rightarrow>
          c\<lparr>co_optional_caps :=
            push_requirement cap \<lparr>cr_consumer = ie_id e, cr_range = rng\<rparr> (co_optional_caps c)\<rparr>)"

definition collect_entry :: "semver_ops \<Rightarrow> installed_indexes \<Rightarrow> string list \<Rightarrow>
    (string, installed_entry) js_map \<Rightarrow> installed_entry \<Rightarrow> collection \<Rightarrow> graph_error + collection" where
  "collect_entry sv ix requested active_by_id e c =
     (let m = im_manifest (ie_installed e);
          c' = c\<lparr>co_required := AList.update (ie_id e) [] (co_required c),
                 co_optional := AList.update (ie_id e) [] (co_optional c)\<rparr>
      in res_bind (res_fold (collect_required sv ix requested active_by_id e)
                     (sorted_dependencies (mf_requires m)) c')
           (\<lambda>c''. Inr (fold (collect_optional sv active_by_id e)
                         (sorted_dependencies (mf_optional m)) c'')))"

text \<open>The last pass over the explicit providers, in insertion order.\<close>

definition settle_explicit :: "requirements \<Rightarrow> string \<times> installed_entry \<Rightarrow> selections \<Rightarrow>
    graph_error + selections" where
  "settle_explicit optional_caps ce sels =
     (let (cap, entry) = ce
      in if map_of sels cap \<noteq> None then Inr sels
         else (case provided_versions entry cap of
                 [] \<Rightarrow> Inl (GraphError PROVIDER_SELECTION_INVALID [cap, ie_id entry])
               | first # _ \<Rightarrow>
                   (if map_of optional_caps cap \<noteq> None then Inr sels
                    else Inr (AList.update cap \<lparr>cs_plugin = ie_id entry, cs_version = first\<rparr> sels))))"

definition resolved_node_of :: "edges \<Rightarrow> edges \<Rightarrow> installed_entry \<Rightarrow> resolved_node" where
  "resolved_node_of required optional e =
     \<lparr>rn_id = ie_id e, rn_kind = mf_kind (im_manifest (ie_installed e)), rn_package = ie_package_name e,
      rn_version = ie_version e, rn_integrity = pk_integrity (im_package (ie_installed e)),
      rn_required = js_dedup (sort (map_get_or required (ie_id e) [])),
      rn_optional = js_dedup (sort (map_get_or optional (ie_id e) []))\<rparr>"

definition resolved_provider_key :: "resolved_provider \<Rightarrow> string" where
  "resolved_provider_key p = nul_join [rp_capability p, rp_plugin p, rp_version p]"

subsection \<open>The resolver\<close>

definition activate_all :: "installed_indexes \<Rightarrow> plugin_request list \<Rightarrow> (string, provider_request) js_map \<Rightarrow>
    graph_error + string list \<times> (string, installed_entry) js_map \<times> (string, installed_entry) js_map" where
  "activate_all ix plugins providers =
     res_bind (res_fold (activate_plugin ix) (sort_key request_key plugins)
                 \<lparr>ac_requested = [], ac_by_id = []\<rparr>) (\<lambda>a.
     res_bind (res_fold (activate_provider ix) (sort_key fst providers)
                 \<lparr>pa_by_id = ac_by_id a, pa_explicit = [], pa_identities = []\<rparr>) (\<lambda>pa.
       Inr (ac_requested a, pa_by_id pa, pa_explicit pa)))"

definition resolve_selections :: "semver_ops \<Rightarrow> installed_indexes \<Rightarrow> string list \<Rightarrow> installed_entry list \<Rightarrow>
    (string, installed_entry) js_map \<Rightarrow> (string, installed_entry) js_map \<Rightarrow>
    graph_error + edges \<times> edges \<times> selections" where
  "resolve_selections sv ix requested active active_by_id explicit =
     res_bind (res_fold (collect_entry sv ix requested active_by_id) active
                 \<lparr>co_required = [], co_optional = [], co_required_caps = [], co_optional_caps = []\<rparr>) (\<lambda>c.
     res_bind (resolve_required_capabilities sv (co_required_caps c) active (ix_entries ix) explicit
                 requested (co_required c, [])) (\<lambda>(required, sels).
     res_bind (resolve_optional_capabilities sv (co_optional_caps c) active explicit
                 (sels, co_optional c)) (\<lambda>(sels', optional).
     res_bind (res_fold (settle_explicit (co_optional_caps c)) explicit sels') (\<lambda>sels''.
       Inr (required, optional, sels'')))))"

definition assemble_graph :: "installed_entry list \<Rightarrow> edges \<Rightarrow> edges \<Rightarrow> selections \<Rightarrow> resolved_graph" where
  "assemble_graph active required optional sels =
     \<lparr>rg_plugins = map (resolved_node_of required optional) active,
      rg_providers = sort_key resolved_provider_key
        (map (\<lambda>(cap, s). \<lparr>rp_capability = cap, rp_plugin = cs_plugin s, rp_version = cs_version s\<rparr>) sels),
      rg_order = dependency_first_order (map ie_id active) required\<rparr>"

definition resolve_platform_plugin_graph :: "semver_ops \<Rightarrow> plugin_request list \<Rightarrow>
    (string, provider_request) js_map \<Rightarrow> installed_manifest list \<Rightarrow> graph_error + resolved_graph" where
  "resolve_platform_plugin_graph sv plugins providers installed =
     res_bind (build_installed_indexes installed) (\<lambda>ix.
     res_bind (validate_plugin_request_duplicates plugins) (\<lambda>_.
     res_bind (activate_all ix plugins providers) (\<lambda>(requested, active_by_id, explicit).
       let active = sort_key ie_id (map snd active_by_id)
       in res_bind (validate_range_dependencies sv active) (\<lambda>_.
          res_bind (resolve_selections sv ix requested active active_by_id explicit)
            (\<lambda>(required, optional, sels).
          res_bind (validate_conflicts sv active active_by_id) (\<lambda>_.
            case shortest_required_cycle required of
              Some cycle \<Rightarrow> Inl (GraphError REQUIRED_CYCLE cycle)
            | None \<Rightarrow> Inr (assemble_graph active required optional sels)))))))"

end
