(* ===== verification/PluginGraphOrder.thy ===== *)
theory PluginGraphOrder
  imports PluginGraph
begin

text \<open>
  Correctness of \<open>dependencyFirstOrder\<close> of the resolver: the loop over ready plugins
  enumerates the nodes so that every node comes after all nodes it depends on, and on an
  acyclic graph it enumerates all of them.
\<close>

definition deps_of :: "edges \<Rightarrow> string \<Rightarrow> string set" where
  "deps_of es n = set (map_get_or es n [])"

definition edge_rel :: "edges \<Rightarrow> (string \<times> string) set" where
  "edge_rel es = {(n, d). d \<in> deps_of es n}"

text \<open>The graphs the resolver builds: keyed by the active identifiers, closed, without repetitions.\<close>

definition graph_over :: "string list \<Rightarrow> edges \<Rightarrow> bool" where
  "graph_over nodes es \<longleftrightarrow> distinct nodes \<and> [] \<notin> set nodes \<and>
     (\<forall>n \<in> set nodes. distinct (map_get_or es n []) \<and> deps_of es n \<subseteq> set nodes)"

lemma graph_overD:
  assumes "graph_over nodes es"
  shows "distinct nodes" "[] \<notin> set nodes"
    "n \<in> set nodes \<Longrightarrow> distinct (map_get_or es n [])"
    "n \<in> set nodes \<Longrightarrow> deps_of es n \<subseteq> set nodes"
  using assms by (auto simp: graph_over_def)

lemma finite_deps [simp, intro]: "finite (deps_of es n)"
  by (simp add: deps_of_def)

subsection \<open>Counting\<close>

lemma count_node_apply:
  "count_node es node (remaining, dependents) =
     (AList.update node (int (length (map_get_or es node []))) remaining,
      fold (\<lambda>d users. AList.update d (set_add node (map_get_or users d [])) users)
        (map_get_or es node []) dependents)"
  by (simp add: count_node_def Let_def)

lemma count_nodes_remaining:
  "map_of (fst (fold (count_node es) ns (rem, users))) n =
     (if n \<in> set ns then Some (int (length (map_get_or es n []))) else map_of rem n)"
  by (induction ns arbitrary: rem users) (auto simp: count_node_apply)

lemma record_users:
  "set (map_get_or (fold (\<lambda>d users. AList.update d (set_add node (map_get_or users d [])) users) ds users) d [])
   = set (map_get_or users d []) \<union> (if d \<in> set ds then {node} else {})"
  by (induction ds arbitrary: users) auto

lemma record_users_distinct:
  "(\<And>d. distinct (map_get_or users d [])) \<Longrightarrow>
   distinct (map_get_or (fold (\<lambda>d users. AList.update d (set_add node (map_get_or users d [])) users) ds users) d [])"
proof (induction ds arbitrary: users)
  case (Cons e ds)
  have "distinct (map_get_or (AList.update e (set_add node (map_get_or users e [])) users) d [])" for d
    using Cons.prems [of d] Cons.prems [of e] by simp
  then show ?case using Cons.IH by simp
qed simp

lemma count_nodes_users:
  "set (map_get_or (snd (fold (count_node es) ns (rem, users))) d [])
   = set (map_get_or users d []) \<union> {n \<in> set ns. d \<in> deps_of es n}"
proof (induction ns arbitrary: rem users)
  case (Cons n ns)
  show ?case
    by (simp add: count_node_apply Cons record_users deps_of_def) auto
qed simp

lemma count_nodes_users_distinct:
  "(\<And>d. distinct (map_get_or users d [])) \<Longrightarrow>
   distinct (map_get_or (snd (fold (count_node es) ns (rem, users))) d [])"
proof (induction ns arbitrary: rem users)
  case (Cons n ns)
  show ?case
    using Cons record_users_distinct [OF Cons.prems] by (simp add: count_node_apply)
qed simp

subsection \<open>The loop invariant\<close>

definition after_deps :: "edges \<Rightarrow> string list \<Rightarrow> bool" where
  "after_deps es xs \<longleftrightarrow> (\<forall>ys x zs. xs = ys @ x # zs \<longrightarrow> deps_of es x \<subseteq> set ys)"

lemma after_deps_Nil [simp]: "after_deps es []"
  by (simp add: after_deps_def)

lemma after_deps_snoc: "after_deps es xs \<Longrightarrow> deps_of es x \<subseteq> set xs \<Longrightarrow> after_deps es (xs @ [x])"
  unfolding after_deps_def
proof (intro allI impI)
  fix ys y zs
  assume xs: "\<forall>ys x zs. xs = ys @ x # zs \<longrightarrow> deps_of es x \<subseteq> set ys"
    and x: "deps_of es x \<subseteq> set xs" and eq: "xs @ [x] = ys @ y # zs"
  show "deps_of es y \<subseteq> set ys"
  proof (cases zs rule: rev_cases)
    case Nil
    with eq x show ?thesis by simp
  next
    case (snoc us u)
    with eq have "xs = ys @ y # us" by simp
    with xs show ?thesis by blast
  qed
qed

definition order_inv :: "string list \<Rightarrow> edges \<Rightarrow> order_state \<Rightarrow> bool" where
  "order_inv nodes es s \<longleftrightarrow>
     distinct (os_order s @ os_ready s) \<and> set (os_order s @ os_ready s) \<subseteq> set nodes \<and>
     (\<forall>n \<in> set nodes. map_of (os_remaining s) n = Some (int (card (deps_of es n - set (os_order s))))) \<and>
     (\<forall>n \<in> set nodes. n \<in> set (os_order s @ os_ready s) \<longleftrightarrow> deps_of es n \<subseteq> set (os_order s)) \<and>
     after_deps es (os_order s)"

text \<open>What processing the dependents of one node does to the counters and the ready list.\<close>

lemma release_all_effect:
  assumes "distinct ds" "\<forall>d \<in> set ds. \<exists>c. map_of (os_remaining s) d = Some c"
  shows "os_order (fold release_dependent ds s) = os_order s \<and>
         os_ready (fold release_dependent ds s) =
           os_ready s @ filter (\<lambda>d. map_of (os_remaining s) d = Some 1) ds \<and>
         map_of (os_remaining (fold release_dependent ds s)) =
           (\<lambda>n. if n \<in> set ds then map_option (\<lambda>c. c - 1) (map_of (os_remaining s) n)
                else map_of (os_remaining s) n)"
  using assms
proof (induction ds arbitrary: s)
  case (Cons d ds)
  let ?t = "release_dependent d s"
  obtain c where c: "map_of (os_remaining s) d = Some c" using Cons.prems by auto
  have t: "os_order ?t = os_order s"
    "os_ready ?t = os_ready s @ (if c = 1 then [d] else [])"
    "map_of (os_remaining ?t) = (map_of (os_remaining s))(d \<mapsto> c - 1)"
    using c by (auto simp: release_dependent_def map_get_or_def Let_def)
  have dom: "\<forall>e \<in> set ds. \<exists>c. map_of (os_remaining ?t) e = Some c"
    using Cons.prems(2) unfolding t(3) by auto
  have same: "filter (\<lambda>e. map_of (os_remaining ?t) e = Some 1) ds =
        filter (\<lambda>e. map_of (os_remaining s) e = Some 1) ds"
    using Cons.prems(1) unfolding t(3) by (intro filter_cong) auto
  show ?case
    using Cons.IH [OF _ dom] Cons.prems(1) t c same by (auto simp: fun_eq_iff)
qed (simp add: fun_eq_iff)

lemma order_inv_step:
  assumes graph: "graph_over nodes es" and inv: "order_inv nodes es s"
    and ready: "sort (os_ready s) = x # rest"
    and users: "distinct ds" "set ds = {n \<in> set nodes. x \<in> deps_of es n}"
  shows "order_inv nodes es
    (fold release_dependent ds (s\<lparr>os_ready := rest, os_order := os_order s @ [x]\<rparr>))"
proof -
  let ?s = "s\<lparr>os_ready := rest, os_order := os_order s @ [x]\<rparr>"
  let ?t = "fold release_dependent ds ?s"
  have ready_set: "set (os_ready s) = insert x (set rest)"
    using ready by (metis set_sort list.simps(15))
  have ready_dist: "distinct (x # rest)" if "distinct (os_ready s)"
    using ready that by (metis distinct_sort)
  from inv have dist: "distinct (os_order s @ os_ready s)"
    and sub: "set (os_order s @ os_ready s) \<subseteq> set nodes"
    and count: "\<And>n. n \<in> set nodes \<Longrightarrow> map_of (os_remaining s) n = Some (int (card (deps_of es n - set (os_order s))))"
    and mem: "\<And>n. n \<in> set nodes \<Longrightarrow> n \<in> set (os_order s @ os_ready s) \<longleftrightarrow> deps_of es n \<subseteq> set (os_order s)"
    and ordered: "after_deps es (os_order s)"
    unfolding order_inv_def by auto
  have x: "x \<in> set nodes" "x \<notin> set (os_order s)" "x \<notin> set rest" "deps_of es x \<subseteq> set (os_order s)"
    using ready_set dist sub mem [of x] ready_dist by auto
  have dom: "\<forall>d \<in> set ds. \<exists>c. map_of (os_remaining ?s) d = Some c"
    using users(2) count by auto
  have card_drop: "card (deps_of es n - set (os_order s)) = Suc (card (deps_of es n - insert x (set (os_order s))))"
    if "n \<in> set ds" for n
  proof -
    have "x \<in> deps_of es n - set (os_order s)" using that users(2) x(2) by auto
    moreover have "deps_of es n - insert x (set (os_order s)) = deps_of es n - set (os_order s) - {x}" by auto
    ultimately show ?thesis using card_Suc_Diff1 [of "deps_of es n - set (os_order s)" x] by simp
  qed
  have card_same: "deps_of es n - insert x (set (os_order s)) = deps_of es n - set (os_order s)"
    if "n \<in> set nodes" "n \<notin> set ds" for n
    using that users(2) by auto
  have eff: "os_order ?t = os_order s @ [x]"
    "os_ready ?t = rest @ filter (\<lambda>d. map_of (os_remaining s) d = Some 1) ds"
    "map_of (os_remaining ?t) n = (if n \<in> set ds then map_option (\<lambda>c. c - 1) (map_of (os_remaining s) n)
       else map_of (os_remaining s) n)" for n
    using release_all_effect [OF users(1) dom] by (auto simp: fun_eq_iff)
  have order_t: "os_order ?t = os_order s @ [x]" using eff(1) by simp
  have pushed: "set (filter (\<lambda>d. map_of (os_remaining s) d = Some 1) ds)
      = {n \<in> set ds. deps_of es n \<subseteq> insert x (set (os_order s))}"
  proof -
    have "map_of (os_remaining s) n = Some 1 \<longleftrightarrow> deps_of es n \<subseteq> insert x (set (os_order s))"
      if "n \<in> set ds" for n
    proof -
      have "map_of (os_remaining s) n = Some (1 + int (card (deps_of es n - insert x (set (os_order s)))))"
        using count [of n] card_drop [OF that] that users(2) by simp
      then show ?thesis by (auto simp: card_eq_0_iff)
    qed
    then show ?thesis by auto
  qed
  have fresh: "n \<notin> set (os_order s @ os_ready s)" if "n \<in> set ds" for n
    using that users(2) x(2) mem [of n] by auto
  have ready_t: "set (os_ready ?t) = set rest \<union> {n \<in> set ds. deps_of es n \<subseteq> insert x (set (os_order s))}"
    using eff(2) pushed by simp
  have "distinct (os_order ?t @ os_ready ?t)"
    using dist ready_set ready_dist x fresh users(1) eff(2) order_t by auto
  moreover have "set (os_order ?t @ os_ready ?t) \<subseteq> set nodes"
    using sub ready_set x(1) users(2) order_t ready_t by auto
  moreover have "map_of (os_remaining ?t) n = Some (int (card (deps_of es n - set (os_order ?t))))"
    if "n \<in> set nodes" for n
    using eff(3) [of n] count [OF that] card_drop [of n] card_same [OF that] order_t by auto
  moreover have "n \<in> set (os_order ?t @ os_ready ?t) \<longleftrightarrow> deps_of es n \<subseteq> set (os_order ?t)"
    if n: "n \<in> set nodes" for n
  proof (cases "n \<in> set ds")
    case True
    then show ?thesis using fresh [OF True] ready_set order_t ready_t by auto
  next
    case False
    then have "x \<notin> deps_of es n" using n users(2) by auto
    then have "deps_of es n \<subseteq> set (os_order ?t) \<longleftrightarrow> deps_of es n \<subseteq> set (os_order s)"
      using order_t by auto
    then show ?thesis using mem [OF n] False ready_set order_t ready_t by auto
  qed
  moreover have "after_deps es (os_order ?t)"
    using ordered x(4) order_t by (simp add: after_deps_snoc)
  ultimately show ?thesis unfolding order_inv_def by blast
qed

lemma order_loop_inv:
  assumes "graph_over nodes es" "order_inv nodes es s"
    and "\<forall>x. distinct (map_get_or dependents x [])"
    and "\<forall>x. set (map_get_or dependents x []) = {n \<in> set nodes. x \<in> deps_of es n}"
  shows "order_inv nodes es (order_loop dependents s) \<and> os_ready (order_loop dependents s) = []"
  using assms
proof (induction dependents s rule: order_loop.induct)
  case (1 dependents s)
  show ?case
  proof (cases "sort (os_ready s)")
    case Nil
    then have "os_ready s = []" by (metis length_0_conv length_sort)
    then show ?thesis using "1.prems" Nil by (simp add: order_loop.simps [of dependents s])
  next
    case (Cons x rest)
    have "x \<in> set (os_ready s)" using Cons by (metis list.set_intros(1) set_sort)
    then have x: "x \<noteq> []"
      using "1.prems"(1,2) by (auto simp: order_inv_def graph_over_def)
    let ?t = "fold release_dependent (sort (map_get_or dependents x []))
                (s\<lparr>os_ready := rest, os_order := os_order s @ [x]\<rparr>)"
    have "order_inv nodes es ?t"
      by (rule order_inv_step [OF "1.prems"(1,2) Cons]) (use "1.prems"(3,4) in simp_all)
    then have "order_inv nodes es (order_loop dependents ?t) \<and> os_ready (order_loop dependents ?t) = []"
      using "1.IH" [OF Cons x] "1.prems" by blast
    then show ?thesis using Cons x by (simp add: order_loop.simps [of dependents s])
  qed
qed

subsection \<open>The order\<close>

text \<open>
  \<^const>\<open>dependency_first_order\<close> only lists nodes, each once, each after its dependencies;
  a node whose dependencies are all listed is listed.
\<close>

lemma dependency_first_order_partial:
  assumes graph: "graph_over nodes es"
  defines "order \<equiv> dependency_first_order nodes es"
  shows "distinct order" "set order \<subseteq> set nodes" "after_deps es order"
    "n \<in> set nodes \<Longrightarrow> n \<in> set order \<longleftrightarrow> deps_of es n \<subseteq> set order"
proof -
  obtain rem users where counted: "fold (count_node es) nodes ([], []) = (rem, users)"
    by (metis prod.exhaust)
  have rem: "map_of rem n = Some (int (card (deps_of es n)))" if "n \<in> set nodes" for n
    using count_nodes_remaining [of es nodes "[]" "[]" n] that graph_overD(3) [OF graph that]
    by (simp add: counted deps_of_def distinct_card)
  have users: "\<forall>x. distinct (map_get_or users x [])"
    "\<forall>x. set (map_get_or users x []) = {n \<in> set nodes. x \<in> deps_of es n}"
    using count_nodes_users_distinct [of "[]" es nodes "[]"] count_nodes_users [of es nodes "[]" "[]"]
    by (auto simp: counted map_get_or_def)
  let ?s = "\<lparr>os_ready = sort (filter (\<lambda>n. map_of rem n = Some 0) nodes), os_remaining = rem, os_order = []\<rparr>"
  have "order_inv nodes es ?s"
    using graph_overD(1) [OF graph] rem by (auto simp: order_inv_def)
  with graph have "order_inv nodes es (order_loop users ?s) \<and> os_ready (order_loop users ?s) = []"
    by (rule order_loop_inv) (use users in auto)
  moreover have "order = os_order (order_loop users ?s)"
    by (simp add: order_def dependency_first_order_def counted)
  ultimately show "distinct order" "set order \<subseteq> set nodes" "after_deps es order"
    "n \<in> set nodes \<Longrightarrow> n \<in> set order \<longleftrightarrow> deps_of es n \<subseteq> set order"
    by (auto simp: order_inv_def)
qed

lemma finite_edge_rel_on: "finite {(n, d). n \<in> set nodes \<and> d \<in> deps_of es n}"
proof -
  have "{(n, d). n \<in> set nodes \<and> d \<in> deps_of es n} \<subseteq> set nodes \<times> (\<Union>n \<in> set nodes. deps_of es n)"
    by auto
  then show ?thesis by (rule finite_subset) auto
qed

lemma dependency_first_order_complete:
  assumes graph: "graph_over nodes es" and acyclic: "acyclic (edge_rel es)"
  shows "set (dependency_first_order nodes es) = set nodes"
proof -
  let ?r = "{(n, d). n \<in> set nodes \<and> d \<in> deps_of es n}"
  have "acyclic ?r" by (rule acyclic_subset [OF acyclic]) (auto simp: edge_rel_def)
  then have wf: "wf (?r\<inverse>)" by (intro finite_acyclic_wf_converse finite_edge_rel_on)
  have "n \<in> set nodes \<longrightarrow> n \<in> set (dependency_first_order nodes es)" for n
  proof (induction n rule: wf_induct_rule [OF wf])
    case (1 n)
    show ?case
    proof
      assume n: "n \<in> set nodes"
      have "deps_of es n \<subseteq> set (dependency_first_order nodes es)"
        using 1 n graph_overD(4) [OF graph n] by auto
      then show "n \<in> set (dependency_first_order nodes es)"
        using dependency_first_order_partial(4) [OF graph n] by simp
    qed
  qed
  then show ?thesis using dependency_first_order_partial(2) [OF graph] by auto
qed

end
