(* ===== verification/PluginGraphSearch.thy ===== *)
theory PluginGraphSearch
  imports PluginGraphOrder
begin

text \<open>
  Correctness of \<open>shortestRequiredCycle\<close>: the search from every plugin finds a cycle of the
  required edges exactly when there is one, and the cycle it reports is a shortest one.
\<close>

definition requires :: "edges \<Rightarrow> string \<Rightarrow> string \<Rightarrow> bool" where
  "requires es x y \<longleftrightarrow> y \<in> deps_of es x"

text \<open>A cycle as the resolver reports it: the first plugin is repeated at the end.\<close>

definition required_cycle :: "edges \<Rightarrow> string list \<Rightarrow> bool" where
  "required_cycle es c \<longleftrightarrow> 2 \<le> length c \<and> hd c = last c \<and> successively (requires es) c"

definition at_most :: "nat \<Rightarrow> string list option \<Rightarrow> bool" where
  "at_most k shortest \<longleftrightarrow> (\<exists>c. shortest = Some c \<and> length c \<le> k)"

lemma set_neighbors_of [simp]: "set (neighbors_of es n) = deps_of es n"
  by (simp add: neighbors_of_def deps_of_def)

subsection \<open>Rotating a cycle\<close>

lemma required_cycle_snoc:
  "required_cycle es (ns @ [x]) \<longleftrightarrow> ns \<noteq> [] \<and> hd ns = x \<and> successively (requires es) (ns @ [x])"
  by (cases ns) (auto simp: required_cycle_def Suc_le_eq)

lemma required_cycle_rotate:
  assumes "required_cycle es ((as @ bs) @ [hd (as @ bs)])" "bs \<noteq> []"
  shows "required_cycle es ((bs @ as) @ [hd (bs @ as)])"
proof (cases "as = []")
  case False
  have "successively (requires es) ((as @ bs) @ [hd (as @ bs)])"
    using assms(1) unfolding required_cycle_snoc by blast
  then have "successively (requires es) ((bs @ as) @ [hd (bs @ as)])"
    using False assms(2) by (auto simp: successively_append_iff)
  then show ?thesis using False assms(2) unfolding required_cycle_snoc by simp
qed (use assms in simp)

lemma best_rotation:
  assumes "set offsets \<subseteq> {..<length nodes}" "\<exists>k < length nodes. best = drop k nodes @ take k nodes"
  shows "\<exists>k < length nodes.
    fold (\<lambda>offset best. let candidate = drop offset nodes @ take offset nodes
            in if nul_join candidate < nul_join best then candidate else best) offsets best
    = drop k nodes @ take k nodes"
  using assms
proof (induction offsets arbitrary: best)
  case (Cons offset offsets)
  show ?case
    unfolding fold.simps comp_def
    by (rule Cons.IH) (use Cons.prems in \<open>auto simp: Let_def\<close>)
qed simp

lemma canonical_cycle_rotation:
  assumes "nodes \<noteq> []"
  obtains as bs where "nodes = as @ bs" "bs \<noteq> []"
    "canonical_cycle (nodes @ [x]) = (bs @ as) @ [hd (bs @ as)]"
proof -
  obtain k where k: "k < length nodes"
    "fold (\<lambda>offset best. let candidate = drop offset nodes @ take offset nodes
            in if nul_join candidate < nul_join best then candidate else best) [1..<length nodes] nodes
     = drop k nodes @ take k nodes"
  proof -
    have "set [1..<length nodes] \<subseteq> {..<length nodes}" "\<exists>k < length nodes. nodes = drop k nodes @ take k nodes"
      using assms by (auto intro!: exI [of _ 0])
    from best_rotation [OF this] that show thesis by blast
  qed
  show ?thesis
  proof (rule that [of "take k nodes" "drop k nodes"])
    show "canonical_cycle (nodes @ [x]) = (drop k nodes @ take k nodes) @ [hd (drop k nodes @ take k nodes)]"
      using k assms by (simp add: canonical_cycle_def take_Suc hd_append split: list.split)
  qed (use k in simp_all)
qed

lemma canonical_cycle_required:
  assumes "required_cycle es (nodes @ [x])"
  shows "required_cycle es (canonical_cycle (nodes @ [x]))"
    and "length (canonical_cycle (nodes @ [x])) = Suc (length nodes)"
proof -
  have nodes: "nodes \<noteq> []" "hd nodes = x" using assms by (auto simp: required_cycle_snoc)
  obtain as bs where split: "nodes = as @ bs" "bs \<noteq> []"
    "canonical_cycle (nodes @ [x]) = (bs @ as) @ [hd (bs @ as)]"
    using canonical_cycle_rotation [OF nodes(1)] by blast
  have "required_cycle es ((as @ bs) @ [hd (as @ bs)])" using assms nodes split(1) by simp
  then show "required_cycle es (canonical_cycle (nodes @ [x]))"
    using required_cycle_rotate [OF _ split(2)] split(3) by simp
  show "length (canonical_cycle (nodes @ [x])) = Suc (length nodes)"
    using split by simp
qed

subsection \<open>The search from one plugin\<close>

lemma better_cycle_at_most: "at_most k sh \<Longrightarrow> at_most k (better_cycle sh c)"
  by (auto simp: at_most_def better_cycle_def)

lemma better_cycle_new: "at_most (length c) (better_cycle sh c)"
  by (auto simp: at_most_def better_cycle_def split: option.split)

lemma better_cycle_cases: "better_cycle sh c = sh \<or> better_cycle sh c = Some c"
  by (auto simp: better_cycle_def split: option.split)

definition path_from :: "edges \<Rightarrow> string \<Rightarrow> string \<Rightarrow> string list \<Rightarrow> bool" where
  "path_from es start v p \<longleftrightarrow> p \<noteq> [] \<and> hd p = start \<and> last p = v \<and> successively (requires es) p"

lemma path_from_extend:
  "path_from es start v p \<Longrightarrow> u \<in> deps_of es v \<Longrightarrow> path_from es start u (p @ [u])"
  by (auto simp: path_from_def successively_append_iff requires_def)

text \<open>How a visit of some neighbors along a path relates the state before and after.\<close>

definition visited :: "string list \<Rightarrow> string set \<Rightarrow> search_state \<Rightarrow> search_state \<Rightarrow> bool" where
  "visited p us s t \<longleftrightarrow>
     (\<forall>v d. map_of (ss_distance s) v = Some d \<longrightarrow> (\<exists>d' \<le> d. map_of (ss_distance t) v = Some d')) \<and>
     (\<forall>k. at_most k (ss_shortest s) \<longrightarrow> at_most k (ss_shortest t)) \<and>
     set (ss_queue s) \<subseteq> set (ss_queue t) \<and>
     set (ss_queue t) \<subseteq> set (ss_queue s) \<union> {(u, p @ [u]) | u. u \<in> us} \<and>
     (\<forall>v. map_of (ss_distance t) v \<noteq> map_of (ss_distance s) v \<longrightarrow>
        (v, p @ [v]) \<in> set (ss_queue t) \<and> map_of (ss_distance t) v = Some (length p))"

lemma visited_refl: "visited p us s s"
  by (simp add: visited_def)

lemma visited_trans:
  "visited p us s t \<Longrightarrow> visited p vs t u \<Longrightarrow> visited p (us \<union> vs) s u"
proof -
  assume st: "visited p us s t" and tu: "visited p vs t u"
  have dist: "\<exists>d' \<le> d. map_of (ss_distance u) v = Some d'" if "map_of (ss_distance s) v = Some d" for v d
    using that st tu unfolding visited_def by (meson le_trans)
  have short: "at_most k (ss_shortest u)" if "at_most k (ss_shortest s)" for k
    using that st tu unfolding visited_def by blast
  have sub: "set (ss_queue s) \<subseteq> set (ss_queue u)"
    using st tu unfolding visited_def by blast
  have new: "set (ss_queue u) \<subseteq> set (ss_queue s) \<union> {(w, p @ [w]) | w. w \<in> us \<union> vs}"
    using st tu unfolding visited_def by blast
  have changed: "(v, p @ [v]) \<in> set (ss_queue u) \<and> map_of (ss_distance u) v = Some (length p)"
    if v: "map_of (ss_distance u) v \<noteq> map_of (ss_distance s) v" for v
  proof (cases "map_of (ss_distance u) v = map_of (ss_distance t) v")
    case True
    with v st have "(v, p @ [v]) \<in> set (ss_queue t)" "map_of (ss_distance t) v = Some (length p)"
      unfolding visited_def by auto
    then show ?thesis using True tu unfolding visited_def by auto
  next
    case False
    then show ?thesis using tu unfolding visited_def by blast
  qed
  show ?thesis unfolding visited_def using dist short sub new changed by blast
qed

lemma visit_neighbor_visited: "visited p {u} s (visit_neighbor start p u s)"
proof (cases "u = start")
  case True
  then show ?thesis by (auto simp: visited_def visit_neighbor_def better_cycle_at_most)
next
  case False
  then show ?thesis
    by (cases "map_of (ss_distance s) u") (auto simp: visited_def visit_neighbor_def)
qed

lemma visit_list_visited: "visited p (set us) s (fold (visit_neighbor start p) us s)"
proof (induction us arbitrary: s)
  case (Cons u us)
  show ?case
    using visited_trans [OF visit_neighbor_visited Cons.IH] by simp
qed (simp add: visited_refl)

lemma visit_list_reaches:
  assumes "u \<in> set us"
  shows "if u = start then at_most (length (canonical_cycle (p @ [start])))
           (ss_shortest (fold (visit_neighbor start p) us s))
         else \<exists>d \<le> length p. map_of (ss_distance (fold (visit_neighbor start p) us s)) u = Some d"
  using assms
proof (induction us arbitrary: s)
  case (Cons w us)
  let ?t = "visit_neighbor start p w s"
  have later: "visited p (set us) ?t (fold (visit_neighbor start p) us ?t)"
    by (rule visit_list_visited)
  show ?case
  proof (cases "w = u")
    case True
    show ?thesis
    proof (cases "u = start")
      case u: True
      then have "at_most (length (canonical_cycle (p @ [start]))) (ss_shortest ?t)"
        using True by (simp add: visit_neighbor_def better_cycle_new)
      then show ?thesis using later u by (simp add: visited_def)
    next
      case False
      then have "\<exists>d \<le> length p. map_of (ss_distance ?t) u = Some d"
        using True by (cases "map_of (ss_distance s) u") (auto simp: visit_neighbor_def)
      then show ?thesis using later False unfolding visited_def by simp (meson le_trans)
    qed
  next
    case False
    then show ?thesis using Cons by simp
  qed
qed simp

lemma visit_list_sound:
  assumes "path_from es start v p" "set us \<subseteq> deps_of es v"
    and "\<forall>c. ss_shortest s = Some c \<longrightarrow> required_cycle es c"
  shows "\<forall>c. ss_shortest (fold (visit_neighbor start p) us s) = Some c \<longrightarrow> required_cycle es c"
  using assms(2,3)
proof (induction us arbitrary: s)
  case (Cons u us)
  have "required_cycle es (canonical_cycle (p @ [start]))" if "u = start"
    using that assms(1) Cons.prems(1) path_from_extend [OF assms(1), of u]
    by (intro canonical_cycle_required) (auto simp: required_cycle_snoc path_from_def)
  then have "\<forall>c. ss_shortest (visit_neighbor start p u s) = Some c \<longrightarrow> required_cycle es c"
    using Cons.prems(2) better_cycle_cases [of "ss_shortest s" "canonical_cycle (p @ [start])"]
    by (auto simp: visit_neighbor_def)
  then show ?case using Cons by simp
qed simp

text \<open>
  The invariant of the search: queued paths are paths, the best cycle is a cycle, and every
  node with a distance is either still queued or has handed its distance on.
\<close>

definition handed_on :: "edges \<Rightarrow> string \<Rightarrow> search_state \<Rightarrow> string \<Rightarrow> nat \<Rightarrow> bool" where
  "handed_on es start s v d \<longleftrightarrow> (\<forall>u \<in> deps_of es v.
     if u = start then at_most (d + 2) (ss_shortest s)
     else \<exists>d' \<le> Suc d. map_of (ss_distance s) u = Some d')"

definition search_inv :: "edges \<Rightarrow> string \<Rightarrow> search_state \<Rightarrow> bool" where
  "search_inv es start s \<longleftrightarrow>
     (\<forall>(v, p) \<in> set (ss_queue s). path_from es start v p) \<and>
     (\<forall>c. ss_shortest s = Some c \<longrightarrow> required_cycle es c) \<and>
     (\<exists>d. map_of (ss_distance s) start = Some d \<and> d = 0) \<and>
     (\<forall>v d. map_of (ss_distance s) v = Some d \<longrightarrow>
        (\<exists>p. (v, p) \<in> set (ss_queue s) \<and> length p \<le> Suc d) \<or> handed_on es start s v d)"

lemma handed_onD:
  "handed_on es start s v d \<Longrightarrow> u \<in> deps_of es v \<Longrightarrow> u \<noteq> start \<Longrightarrow>
     \<exists>d' \<le> Suc d. map_of (ss_distance s) u = Some d'"
  "handed_on es start s v d \<Longrightarrow> start \<in> deps_of es v \<Longrightarrow> at_most (d + 2) (ss_shortest s)"
  by (auto simp: handed_on_def)

lemma handed_on_mono:
  assumes "visited p us s t" "handed_on es start s v d"
  shows "handed_on es start t v d"
  unfolding handed_on_def
proof
  fix u assume u: "u \<in> deps_of es v"
  show "if u = start then at_most (d + 2) (ss_shortest t)
        else \<exists>d' \<le> Suc d. map_of (ss_distance t) u = Some d'"
  proof (cases "u = start")
    case True
    then have "at_most (d + 2) (ss_shortest s)"
      using bspec [OF assms(2) [unfolded handed_on_def] u] by simp
    with True assms(1) show ?thesis unfolding visited_def by simp
  next
    case False
    then obtain d' where d': "d' \<le> Suc d" "map_of (ss_distance s) u = Some d'"
      using bspec [OF assms(2) [unfolded handed_on_def] u] by auto
    then obtain d'' where "d'' \<le> d'" "map_of (ss_distance t) u = Some d''"
      using assms(1) unfolding visited_def by blast
    then show ?thesis using d' False by auto
  qed
qed

lemma search_inv_step:
  assumes inv: "search_inv es start s" and queue: "ss_queue s = (v, p) # rest"
  shows "search_inv es start (visit_all es start v p (s\<lparr>ss_queue := rest\<rparr>))"
proof -
  let ?s = "s\<lparr>ss_queue := rest\<rparr>" and ?t = "visit_all es start v p (s\<lparr>ss_queue := rest\<rparr>)"
  have path: "path_from es start v p" using inv queue by (auto simp: search_inv_def)
  have len: "length (canonical_cycle (p @ [start])) = Suc (length p)" if "start \<in> deps_of es v"
    using that path path_from_extend [OF path that]
    by (intro canonical_cycle_required(2) [of es]) (auto simp: required_cycle_snoc path_from_def)
  have vis: "visited p (deps_of es v) ?s ?t"
    using visit_list_visited [of p "neighbors_of es v" ?s start] by (simp add: visit_all_def)
  have reach: "if u = start then at_most (Suc (length p)) (ss_shortest ?t)
      else \<exists>d \<le> length p. map_of (ss_distance ?t) u = Some d" if "u \<in> deps_of es v" for u
    using visit_list_reaches [of u "neighbors_of es v" start p ?s] that len
    by (auto simp: visit_all_def)
  have keep: "map_of (ss_distance ?t) start = Some 0"
  proof -
    from inv have "map_of (ss_distance ?s) start = Some 0" by (auto simp: search_inv_def)
    with vis show ?thesis unfolding visited_def by (metis le_zero_eq)
  qed
  have paths: "\<forall>(w, q) \<in> set (ss_queue ?t). path_from es start w q"
    using vis inv queue path_from_extend [OF path] by (fastforce simp: visited_def search_inv_def)
  have cycles: "\<forall>c. ss_shortest ?t = Some c \<longrightarrow> required_cycle es c"
    unfolding visit_all_def
    by (rule visit_list_sound [OF path]) (use inv in \<open>simp_all add: search_inv_def\<close>)
  have "(\<exists>q. (w, q) \<in> set (ss_queue ?t) \<and> length q \<le> Suc d) \<or> handed_on es start ?t w d"
    if w: "map_of (ss_distance ?t) w = Some d" for w d
  proof (cases "map_of (ss_distance ?s) w = Some d")
    case False
    then have "map_of (ss_distance ?t) w \<noteq> map_of (ss_distance ?s) w" using w by metis
    then have "(w, p @ [w]) \<in> set (ss_queue ?t) \<and> map_of (ss_distance ?t) w = Some (length p)"
      using vis unfolding visited_def by blast
    then have "(w, p @ [w]) \<in> set (ss_queue ?t)" "d = length p" using w by auto
    then show ?thesis by auto
  next
    case True
    with inv have "(\<exists>q. (w, q) \<in> set (ss_queue s) \<and> length q \<le> Suc d) \<or> handed_on es start s w d"
      by (simp add: search_inv_def)
    then consider (popped) "w = v" "length p \<le> Suc d"
      | (queued) q where "(w, q) \<in> set rest" "length q \<le> Suc d"
      | (handed) "handed_on es start ?s w d"
    proof -
      have "handed_on es start ?s w d = handed_on es start s w d" by (simp add: handed_on_def)
      then show thesis
        using that queue \<open>(\<exists>q. (w, q) \<in> set (ss_queue s) \<and> length q \<le> Suc d) \<or> handed_on es start s w d\<close>
        by auto
    qed
    then show ?thesis
    proof cases
      case popped
      have "handed_on es start ?t w d"
        unfolding handed_on_def
      proof
        fix u assume "u \<in> deps_of es w"
        with reach [of u] popped show "if u = start then at_most (d + 2) (ss_shortest ?t)
            else \<exists>d' \<le> Suc d. map_of (ss_distance ?t) u = Some d'"
          by (auto simp: at_most_def split: if_splits intro: le_trans)
      qed
      then show ?thesis by blast
    next
      case queued
      then show ?thesis using vis unfolding visited_def by auto
    next
      case handed
      then show ?thesis using handed_on_mono [OF vis] by blast
    qed
  qed
  then show ?thesis using paths cycles keep unfolding search_inv_def by blast
qed

lemma search_loop_inv:
  "search_inv es start s \<Longrightarrow>
   search_inv es start (search_loop es start s) \<and> ss_queue (search_loop es start s) = []"
proof (induction es start s rule: search_loop.induct)
  case (1 es start s)
  show ?case
  proof (cases "ss_queue s")
    case Nil
    then show ?thesis using "1.prems" by (simp add: search_loop.simps [of es start s])
  next
    case (Cons item rest)
    obtain v p where item: "item = (v, p)" by (cases item)
    show ?thesis
      using "1.IH" [OF Cons item [symmetric]] search_inv_step [OF "1.prems", of v p rest] Cons item
      by (simp add: search_loop.simps [of es start s])
  qed
qed

lemma search_loop_shortest_mono:
  "at_most k (ss_shortest s) \<Longrightarrow> at_most k (ss_shortest (search_loop es start s))"
proof (induction es start s rule: search_loop.induct)
  case (1 es start s)
  show ?case
  proof (cases "ss_queue s")
    case Nil
    then show ?thesis using "1.prems" by (simp add: search_loop.simps [of es start s])
  next
    case (Cons item rest)
    obtain v p where item: "item = (v, p)" by (cases item)
    have "at_most k (ss_shortest (visit_all es start v p (s\<lparr>ss_queue := rest\<rparr>)))"
      using visit_list_visited [of p "neighbors_of es v" "s\<lparr>ss_queue := rest\<rparr>" start] "1.prems"
      by (simp add: visit_all_def visited_def)
    then show ?thesis
      using "1.IH" [OF Cons item [symmetric]] Cons item by (simp add: search_loop.simps [of es start s])
  qed
qed

text \<open>When the queue is empty, a walk that avoids the start bounds the distance of its end.\<close>

lemma distance_bounded:
  assumes inv: "search_inv es start s" "ss_queue s = []"
    and walk: "successively (requires es) (start # mid)" "start \<notin> set mid"
  shows "\<exists>d \<le> length mid. map_of (ss_distance s) (last (start # mid)) = Some d"
  using walk
proof (induction mid rule: rev_induct)
  case Nil
  then show ?case using inv by (auto simp: search_inv_def)
next
  case (snoc u mid)
  then have edge: "u \<in> deps_of es (last (start # mid))" "u \<noteq> start"
    by (auto simp: successively_append_iff requires_def simp flip: append_Cons split: if_splits)
  from snoc obtain d where d: "d \<le> length mid" "map_of (ss_distance s) (last (start # mid)) = Some d"
    by (auto simp: successively_append_iff simp flip: append_Cons)
  then have "handed_on es start s (last (start # mid)) d"
    using inv unfolding search_inv_def by fastforce
  then obtain d' where "d' \<le> Suc d" "map_of (ss_distance s) u = Some d'"
    using handed_onD(1) edge by blast
  then show ?case using d(1) by auto
qed

lemma search_finds:
  assumes inv: "search_inv es start s" "ss_queue s = []"
    and walk: "successively (requires es) (start # mid @ [start])" "start \<notin> set mid"
  shows "at_most (length mid + 2) (ss_shortest s)"
proof -
  have "successively (requires es) (start # mid)" "start \<in> deps_of es (last (start # mid))"
    using walk(1) by (auto simp: successively_append_iff requires_def simp flip: append_Cons)
  with distance_bounded [OF inv _ walk(2)] obtain d where
    "d \<le> length mid" "map_of (ss_distance s) (last (start # mid)) = Some d" by blast
  moreover from this have "handed_on es start s (last (start # mid)) d"
    using inv unfolding search_inv_def by fastforce
  ultimately show ?thesis
    using handed_onD(2) [OF _ \<open>start \<in> deps_of es (last (start # mid))\<close>] by (fastforce simp: at_most_def)
qed

subsection \<open>All starts\<close>

definition search_from :: "edges \<Rightarrow> string \<Rightarrow> string list option \<Rightarrow> string list option" where
  "search_from es start shortest = ss_shortest (search_loop es start
     \<lparr>ss_queue = [(start, [start])], ss_distance = [(start, 0)], ss_shortest = shortest\<rparr>)"

lemma shortest_required_cycle_alt:
  "shortest_required_cycle es = fold (search_from es) (sort (map fst es)) None"
  by (simp add: shortest_required_cycle_def search_from_def [abs_def])

lemma search_inv_start:
  assumes "\<forall>c. shortest = Some c \<longrightarrow> required_cycle es c"
  shows "search_inv es start
    \<lparr>ss_queue = [(start, [start])], ss_distance = [(start, 0)], ss_shortest = shortest\<rparr>"
  using assms by (auto simp: search_inv_def path_from_def)

lemma search_from_sound:
  assumes "\<forall>c. shortest = Some c \<longrightarrow> required_cycle es c"
  shows "\<forall>c. search_from es start shortest = Some c \<longrightarrow> required_cycle es c"
  using search_loop_inv [OF search_inv_start [OF assms]] by (auto simp: search_from_def search_inv_def)

lemma search_from_mono: "at_most k shortest \<Longrightarrow> at_most k (search_from es start shortest)"
  unfolding search_from_def by (rule search_loop_shortest_mono) simp

lemma search_from_finds:
  assumes "\<forall>c. shortest = Some c \<longrightarrow> required_cycle es c"
    and "successively (requires es) (start # mid @ [start])" "start \<notin> set mid"
  shows "at_most (length mid + 2) (search_from es start shortest)"
  unfolding search_from_def
  using search_loop_inv [OF search_inv_start [OF assms(1)]] search_finds [OF _ _ assms(2,3)] by blast

lemma search_all_sound:
  "\<forall>c. shortest = Some c \<longrightarrow> required_cycle es c \<Longrightarrow>
   \<forall>c. fold (search_from es) starts shortest = Some c \<longrightarrow> required_cycle es c"
proof (induction starts arbitrary: shortest)
  case (Cons x starts)
  show ?case using Cons.IH [OF search_from_sound [OF Cons.prems]] by simp
qed simp

lemma search_all_mono: "at_most k shortest \<Longrightarrow> at_most k (fold (search_from es) starts shortest)"
  by (induction starts arbitrary: shortest) (simp_all add: search_from_mono)

lemma search_all_finds:
  assumes "start \<in> set starts" "\<forall>c. shortest = Some c \<longrightarrow> required_cycle es c"
    and "successively (requires es) (start # mid @ [start])" "start \<notin> set mid"
  shows "at_most (length mid + 2) (fold (search_from es) starts shortest)"
  using assms(1,2)
proof (induction starts arbitrary: shortest)
  case (Cons x starts)
  show ?case
  proof (cases "x = start")
    case True
    then show ?thesis
      using search_all_mono [OF search_from_finds [OF Cons.prems(2) assms(3,4)]] by simp
  next
    case False
    then show ?thesis using Cons.IH [OF _ search_from_sound [OF Cons.prems(2)]] Cons.prems(1) by simp
  qed
qed simp

lemma required_cycle_first_return:
  assumes "required_cycle es c"
  obtains mid where "successively (requires es) (hd c # mid @ [hd c])" "hd c \<notin> set mid"
    "length mid + 2 \<le> length c"
proof -
  obtain x xs where c: "c = x # xs" "xs \<noteq> []" "last xs = x"
    using assms by (cases c) (auto simp: required_cycle_def split: if_splits)
  then have "x \<in> set xs" by (metis last_in_set)
  then obtain mid rest where split: "xs = mid @ x # rest" "x \<notin> set mid"
    by (metis split_list_first)
  have "successively (requires es) ((x # mid @ [x]) @ rest)"
    using assms c split by (simp add: required_cycle_def)
  then have "successively (requires es) (x # mid @ [x])" by (simp only: successively_append_iff)
  then show ?thesis using that [of mid] c split by simp
qed

lemma shortest_required_cycle_sound:
  "shortest_required_cycle es = Some c \<Longrightarrow> required_cycle es c"
  using search_all_sound [of None es "sort (map fst es)"] by (simp add: shortest_required_cycle_alt)

lemma shortest_required_cycle_at_most:
  assumes "required_cycle es c"
  shows "at_most (length c) (shortest_required_cycle es)"
proof -
  obtain mid where mid: "successively (requires es) (hd c # mid @ [hd c])" "hd c \<notin> set mid"
    "length mid + 2 \<le> length c"
    using required_cycle_first_return [OF assms] by blast
  have "requires es (hd c) (hd (mid @ [hd c]))"
    using mid(1) by (cases mid) simp_all
  then have "hd c \<in> set (sort (map fst es))"
    by (cases "map_of es (hd c)")
       (auto simp: requires_def deps_of_def map_get_or_def dest!: map_of_SomeD
         intro: image_eqI [of _ _ "(hd c, _)"])
  from search_all_finds [OF this _ mid(1,2), of None] mid(3) show ?thesis
    by (auto simp: shortest_required_cycle_alt at_most_def)
qed

lemma trancl_walk:
  assumes "(x, y) \<in> (edge_rel es)\<^sup>+"
  shows "\<exists>mid. successively (requires es) (x # mid @ [y])"
  using assms
proof (induction rule: trancl_induct)
  case (base y)
  then show ?case by (intro exI [of _ "[]"]) (simp add: requires_def edge_rel_def)
next
  case (step y z)
  then obtain mid where "successively (requires es) (x # mid @ [y])" by blast
  then have "successively (requires es) ((x # mid @ [y]) @ [z])"
    using step(2) by (simp only: successively_append_iff) (simp add: requires_def edge_rel_def)
  then show ?case by (intro exI [of _ "mid @ [y]"]) simp
qed

lemma no_cycle_acyclic:
  assumes "shortest_required_cycle es = None"
  shows "acyclic (edge_rel es)"
proof (rule acyclicI, rule allI, rule notI)
  fix x assume "(x, x) \<in> (edge_rel es)\<^sup>+"
  then obtain mid where "successively (requires es) (x # mid @ [x])" using trancl_walk by blast
  then have "required_cycle es (x # mid @ [x])" by (simp add: required_cycle_def)
  then show False using shortest_required_cycle_at_most assms by (fastforce simp: at_most_def)
qed

end
