(* ===== verification/PluginGraphResolution.thy ===== *)
theory PluginGraphResolution
  imports PluginGraphSearch
begin

text \<open>
  What \<open>resolvePlatformPluginGraph\<close> promises about a graph it returns: the active plugins and
  where they come from, the edges and selections behind every required dependency, the absence
  of declared conflicts, the registration order, and independence of the order of its inputs.
\<close>

subsection \<open>Well-formed installed manifests\<close>

text \<open>
  What \<open>PluginManifestSchema\<close> guarantees of every loaded manifest and the resolver relies on:
  identifiers are non-empty and free of \<open>\u0000\<close>, provided versions are non-empty.
\<close>

definition well_formed_installed :: "installed_manifest \<Rightarrow> bool" where
  "well_formed_installed m \<longleftrightarrow> mf_id (im_manifest m) \<noteq> [] \<and> nul_free (mf_id (im_manifest m)) \<and>
     (\<forall>p \<in> set (mf_provides (im_manifest m)). pv_version p \<noteq> [])"

lemma res_fold_split:
  assumes "res_fold f xs s = Inr t" "x \<in> set xs"
  obtains ys zs u v where "xs = ys @ x # zs" "res_fold f ys s = Inr u" "f x u = Inr v"
    "res_fold f zs v = Inr t"
proof -
  obtain ys zs where split: "xs = ys @ x # zs" using assms(2) by (metis split_list)
  then obtain u v where "res_fold f ys s = Inr u" "f x u = Inr v" "res_fold f zs v = Inr t"
    using assms(1) by (auto simp: res_fold_append)
  with split show ?thesis by (rule that)
qed

lemma res_fold_unit: "res_fold f xs () = Inr () \<longleftrightarrow> (\<forall>x \<in> set xs. f x () = Inr ())"
proof (induction xs)
  case (Cons x xs)
  then show ?case by (cases "f x ()") auto
qed simp

subsection \<open>The index of installed plugins\<close>

definition keyed :: "(installed_entry \<Rightarrow> string) \<Rightarrow> (string, installed_entry) js_map \<Rightarrow> bool" where
  "keyed k m \<longleftrightarrow> distinct (map fst m) \<and> (\<forall>(i, e) \<in> set m. i = k e)"

lemma keyed_Nil [simp]: "keyed k []"
  by (simp add: keyed_def)

lemma set_update_subset: "set (AList.update i e m) \<subseteq> insert (i, e) (set m)"
  by (induction m) auto

lemma keyed_update: "keyed k m \<Longrightarrow> keyed k (AList.update (k e) e m)"
  unfolding keyed_def using set_update_subset [of "k e" e m] by auto

definition vals :: "(string, installed_entry) js_map \<Rightarrow> installed_entry set" where
  "vals m = snd ` set m"

lemma vals_Nil [simp]: "vals [] = {}"
  by (simp add: vals_def)

lemma vals_update_subset: "vals (AList.update i e m) \<subseteq> insert e (vals m)"
  using set_update_subset [of i e m] by (auto simp: vals_def)

lemma set_map_snd [simp]: "set (map snd m) = vals m"
  by (simp add: vals_def)

lemma keyed_map_of: "keyed k m \<Longrightarrow> map_of m i = Some e \<longleftrightarrow> e \<in> vals m \<and> k e = i"
  by (auto simp: keyed_def vals_def image_iff map_of_eq_Some_iff dest: map_of_SomeD) force+

lemma keyed_keys: "keyed k m \<Longrightarrow> map (k \<circ> snd) m = map fst m"
  by (auto simp: keyed_def)

lemma keyed_entries:
  assumes "keyed k m"
  shows "distinct (map k (map snd m))" "k ` vals m = fst ` set m"
proof -
  have "distinct (map (k \<circ> snd) m)"
    unfolding keyed_keys [OF assms] using assms by (simp add: keyed_def)
  then show "distinct (map k (map snd m))" by simp
  show "k ` vals m = fst ` set m"
    using arg_cong [where f = set, OF keyed_keys [OF assms]] by (simp add: image_image vals_def)
qed

lemma vals_update_new:
  assumes "i \<notin> fst ` set m"
  shows "vals (AList.update i e m) = insert e (vals m)"
proof -
  have "AList.update i e m = m @ [(i, e)]" using assms by (induction m) auto
  then show ?thesis by (auto simp: vals_def)
qed

lemma index_entry_Inr:
  "index_entry e (m, p) = Inr (m', p') \<longleftrightarrow>
     mf_package (im_manifest (ie_installed e)) = ie_package_name e \<and>
     mf_version (im_manifest (ie_installed e)) = ie_version e \<and>
     map_of m (ie_id e) = None \<and> map_of p (ie_package_name e) = None \<and>
     m' = AList.update (ie_id e) e m \<and> p' = AList.update (ie_package_name e) e p"
  by auto

lemma index_entries:
  assumes "res_fold index_entry es (m, p) = Inr (m', p')" "keyed ie_id m"
  shows "keyed ie_id m' \<and> vals m' = vals m \<union> set es \<and>
    distinct (map ie_id es) \<and> ie_id ` set es \<inter> fst ` set m = {}"
  using assms
proof (induction es arbitrary: m p)
  case (Cons e es)
  from Cons.prems(1) obtain mp where "index_entry e (m, p) = Inr mp"
    "res_fold index_entry es mp = Inr (m', p')"
    unfolding res_fold.simps res_bind_Inr by blast
  then obtain m1 p1 where step: "index_entry e (m, p) = Inr (m1, p1)"
    "res_fold index_entry es (m1, p1) = Inr (m', p')"
    by (cases mp) simp
  then have m1: "m1 = AList.update (ie_id e) e m" and new: "ie_id e \<notin> fst ` set m"
    unfolding index_entry_Inr by (auto simp: map_of_eq_None_iff)
  then have "vals m1 = insert e (vals m)" using vals_update_new m1 by simp
  then show ?case
    using Cons.IH [OF step(2)] keyed_update [OF Cons.prems(2), of e] m1 new by auto
qed simp

lemma build_index:
  assumes "build_installed_indexes installed = Inr ix"
  shows "keyed ie_id (ix_by_id ix)" "vals (ix_by_id ix) = installed_entry_of ` set installed"
    "ix_entries ix = sort_key installed_key (map installed_entry_of installed)"
    "distinct (map ie_id (ix_entries ix))"
proof -
  obtain m p where ix: "res_fold index_entry (sort_key installed_key (map installed_entry_of installed)) ([], []) = Inr (m, p)"
    "ix = \<lparr>ix_entries = sort_key installed_key (map installed_entry_of installed), ix_by_id = m, ix_by_package = p\<rparr>"
    using assms by (auto simp: build_installed_indexes_def Let_def)
  show "keyed ie_id (ix_by_id ix)" "vals (ix_by_id ix) = installed_entry_of ` set installed"
    "ix_entries ix = sort_key installed_key (map installed_entry_of installed)"
    "distinct (map ie_id (ix_entries ix))"
    using index_entries [OF ix(1)] ix(2) by auto
qed

lemma reconcile_identity_Inr:
  assumes "reconcile_identity idr ix = Inr e"
  shows "map_of (ix_by_id ix) (ir_id idr) = Some e"
    "ie_version e = ir_version idr" "ie_package_name e = ir_package_name idr"
  using assms by (auto simp: reconcile_identity_def split: option.splits if_splits)

subsection \<open>Activation\<close>

text \<open>
  The active map holds installed entries under their own identifiers, so activating an entry
  twice changes nothing and an entry once active stays active.
\<close>

definition active_map :: "installed_indexes \<Rightarrow> (string, installed_entry) js_map \<Rightarrow> bool" where
  "active_map ix m \<longleftrightarrow> keyed ie_id (ix_by_id ix) \<and> keyed ie_id m \<and> vals m \<subseteq> vals (ix_by_id ix)"

lemma keyed_unique: "keyed k m \<Longrightarrow> e \<in> vals m \<Longrightarrow> e' \<in> vals m \<Longrightarrow> k e = k e' \<Longrightarrow> e = e'"
  by (metis keyed_map_of option.inject)

lemma vals_update_same: "map_of m i = Some e \<Longrightarrow> vals (AList.update i e m) = vals m"
  by (induction m) (auto simp: vals_def split: if_splits)

lemma active_map_update:
  assumes "active_map ix m" "e \<in> vals (ix_by_id ix)"
  shows "active_map ix (AList.update (ie_id e) e m)" "vals (AList.update (ie_id e) e m) = insert e (vals m)"
proof -
  show vals: "vals (AList.update (ie_id e) e m) = insert e (vals m)"
  proof (cases "map_of m (ie_id e)")
    case None
    then show ?thesis by (intro vals_update_new) (simp add: map_of_eq_None_iff)
  next
    case (Some e')
    then have "e' \<in> vals m" "ie_id e' = ie_id e" using assms(1) by (auto simp: active_map_def keyed_map_of)
    moreover from this have "e' = e"
      using assms keyed_unique by (fastforce simp: active_map_def)
    ultimately show ?thesis using Some by (auto simp: vals_update_same)
  qed
  show "active_map ix (AList.update (ie_id e) e m)"
    using assms vals keyed_update by (auto simp: active_map_def)
qed

definition plugin_requested :: "plugin_request \<Rightarrow> installed_entry \<Rightarrow> bool" where
  "plugin_requested r e \<longleftrightarrow> rq_id r = ie_id e \<and> rq_version r = ie_version e \<and> rq_package r = ie_package_name e"

definition provider_requested :: "provider_request \<Rightarrow> installed_entry \<Rightarrow> bool" where
  "provider_requested r e \<longleftrightarrow> pq_plugin r = ie_id e \<and> pq_version r = ie_version e \<and> pq_package r = ie_package_name e"

lemma activate_plugin_Inr:
  assumes "activate_plugin ix r a = Inr b" "active_map ix (ac_by_id a)"
  shows "active_map ix (ac_by_id b) \<and> set (ac_requested b) = insert (rq_id r) (set (ac_requested a)) \<and>
    (\<exists>e. plugin_requested r e \<and> vals (ac_by_id b) = vals (ac_by_id a) \<union> (if rq_enabled r then {e} else {}))"
proof -
  from assms(1) obtain e where e: "reconcile_identity (identity_from_plugin_request r) ix = Inr e"
    and b: "b = a\<lparr>ac_requested := set_add (rq_id r) (ac_requested a),
      ac_by_id := (if rq_enabled r then AList.update (ie_id e) e (ac_by_id a) else ac_by_id a)\<rparr>"
    unfolding activate_plugin_def res_bind_Inr sum.inject by blast
  have "e \<in> vals (ix_by_id ix)" "plugin_requested r e"
    using reconcile_identity_Inr [OF e] assms(2)
    by (auto simp: active_map_def keyed_map_of identity_from_plugin_request_def plugin_requested_def)
  then show ?thesis
    using active_map_update [OF assms(2)] assms(2) b by (cases "rq_enabled r") auto
qed

lemma activate_plugins:
  assumes "res_fold (activate_plugin ix) rs a = Inr b" "active_map ix (ac_by_id a)"
  shows "active_map ix (ac_by_id b) \<and> set (ac_requested b) = set (ac_requested a) \<union> rq_id ` set rs \<and>
    vals (ac_by_id a) \<subseteq> vals (ac_by_id b) \<and>
    (\<forall>e \<in> vals (ac_by_id b). e \<in> vals (ac_by_id a) \<or> (\<exists>r \<in> set rs. rq_enabled r \<and> plugin_requested r e)) \<and>
    (\<forall>r \<in> set rs. rq_enabled r \<longrightarrow> (\<exists>e \<in> vals (ac_by_id b). plugin_requested r e))"
  using assms
proof (induction rs arbitrary: a)
  case (Cons r rs)
  from Cons.prems(1) obtain c where ac: "activate_plugin ix r a = Inr c"
    and c: "res_fold (activate_plugin ix) rs c = Inr b"
    by auto
  from activate_plugin_Inr [OF ac Cons.prems(2)] obtain e where step:
    "active_map ix (ac_by_id c)" "set (ac_requested c) = insert (rq_id r) (set (ac_requested a))"
    "plugin_requested r e" "vals (ac_by_id c) = vals (ac_by_id a) \<union> (if rq_enabled r then {e} else {})"
    by blast
  show ?case using Cons.IH [OF c step(1)] step(2-4) by (auto split: if_splits)
qed simp

lemma activate_provider_Inr:
  assumes "activate_provider ix (cap, r) a = Inr b" "active_map ix (pa_by_id a)"
  shows "\<exists>e. active_map ix (pa_by_id b) \<and> provider_requested r e \<and>
    vals (pa_by_id b) = insert e (vals (pa_by_id a)) \<and> pa_explicit b = AList.update cap e (pa_explicit a)"
proof -
  from assms(1) obtain e where e: "reconcile_identity (identity_from_provider_request r) ix = Inr e"
    and b: "pa_by_id b = AList.update (ie_id e) e (pa_by_id a)" "pa_explicit b = AList.update cap e (pa_explicit a)"
    by (auto simp: activate_provider_def Let_def split: if_splits)
  have "e \<in> vals (ix_by_id ix)" "provider_requested r e"
    using reconcile_identity_Inr [OF e] assms(2)
    by (auto simp: active_map_def keyed_map_of identity_from_provider_request_def provider_requested_def)
  then show ?thesis using active_map_update [OF assms(2)] b by auto
qed

lemma activate_providers:
  assumes "res_fold (activate_provider ix) ps a = Inr b" "active_map ix (pa_by_id a)"
    "distinct (map fst (pa_explicit a))"
  shows "active_map ix (pa_by_id b) \<and> vals (pa_by_id a) \<subseteq> vals (pa_by_id b) \<and>
    (\<forall>e \<in> vals (pa_by_id b). e \<in> vals (pa_by_id a) \<or> (\<exists>(c, r) \<in> set ps. provider_requested r e)) \<and>
    (\<forall>(c, r) \<in> set ps. \<exists>e \<in> vals (pa_by_id b). provider_requested r e) \<and>
    distinct (map fst (pa_explicit b)) \<and>
    (\<forall>c e. map_of (pa_explicit b) c = Some e \<longrightarrow> map_of (pa_explicit a) c = Some e \<or>
       e \<in> vals (pa_by_id b) \<and> (\<exists>r. (c, r) \<in> set ps \<and> provider_requested r e))"
  using assms
proof (induction ps arbitrary: a)
  case (Cons p ps)
  obtain cap r where p: "p = (cap, r)" by (cases p)
  from Cons.prems(1) obtain c where ac: "activate_provider ix (cap, r) a = Inr c"
    and c: "res_fold (activate_provider ix) ps c = Inr b"
    unfolding p by auto
  from activate_provider_Inr [OF ac Cons.prems(2)] obtain e where step:
    "active_map ix (pa_by_id c)" "provider_requested r e" "vals (pa_by_id c) = insert e (vals (pa_by_id a))"
    "pa_explicit c = AList.update cap e (pa_explicit a)"
    by blast
  have keys: "distinct (map fst (pa_explicit c))" using Cons.prems(3) step(4) by simp
  note IH = Cons.IH [OF c step(1) keys]
  have "e \<in> vals (pa_by_id b)" using IH step(3) by blast
  moreover have "map_of (pa_explicit a) k = Some f \<or>
      f \<in> vals (pa_by_id b) \<and> (\<exists>r. (k, r) \<in> set (p # ps) \<and> provider_requested r f)"
    if "map_of (pa_explicit b) k = Some f" for k f
  proof -
    have "map_of (pa_explicit c) k = Some f \<or>
        f \<in> vals (pa_by_id b) \<and> (\<exists>r. (k, r) \<in> set ps \<and> provider_requested r f)"
      using IH that by blast
    then show ?thesis
      using step(2,4) p \<open>e \<in> vals (pa_by_id b)\<close> by (cases "k = cap") auto
  qed
  ultimately show ?case using IH step(2,3) p by auto
qed simp

lemma activate_providers_keys:
  "res_fold (activate_provider ix) ps a = Inr b \<Longrightarrow>
   fst ` set (pa_explicit b) = fst ` set (pa_explicit a) \<union> fst ` set ps"
proof (induction ps arbitrary: a)
  case (Cons p ps)
  obtain cap r where p: "p = (cap, r)" by (cases p)
  from Cons.prems obtain c where ac: "activate_provider ix (cap, r) a = Inr c"
    and c: "res_fold (activate_provider ix) ps c = Inr b"
    unfolding p by auto
  obtain e where "pa_explicit c = AList.update cap e (pa_explicit a)"
    using ac by (auto simp: activate_provider_def Let_def split: if_splits)
  then show ?case using Cons.IH [OF c] p by simp
qed simp

text \<open>What the two activation loops compute together.\<close>

lemma activate_all_Inr:
  assumes "activate_all ix plugins providers = Inr (requested, by_id, explicit)" "keyed ie_id (ix_by_id ix)"
  shows "active_map ix by_id" "distinct (map fst explicit)" "set requested = rq_id ` set plugins"
    "e \<in> vals by_id \<Longrightarrow> (\<exists>r \<in> set plugins. rq_enabled r \<and> plugin_requested r e) \<or>
       (\<exists>(c, r) \<in> set providers. provider_requested r e)"
    "r \<in> set plugins \<Longrightarrow> rq_enabled r \<Longrightarrow> \<exists>e \<in> vals by_id. plugin_requested r e"
    "(c, q) \<in> set providers \<Longrightarrow> \<exists>e \<in> vals by_id. provider_requested q e"
    "map_of explicit c = Some e \<Longrightarrow> e \<in> vals by_id \<and> (\<exists>q. (c, q) \<in> set providers \<and> provider_requested q e)"
    "(c, q) \<in> set providers \<Longrightarrow> map_of explicit c \<noteq> None"
proof -
  from assms(1) obtain a pa where
    a: "res_fold (activate_plugin ix) (sort_key request_key plugins) \<lparr>ac_requested = [], ac_by_id = []\<rparr> = Inr a"
    and pa: "res_fold (activate_provider ix) (sort_key fst providers)
               \<lparr>pa_by_id = ac_by_id a, pa_explicit = [], pa_identities = []\<rparr> = Inr pa"
    and out: "requested = ac_requested a" "by_id = pa_by_id pa" "explicit = pa_explicit pa"
    by (auto simp: activate_all_def)
  have "active_map ix []" using assms(2) by (simp add: active_map_def)
  then have A: "active_map ix (ac_by_id a)" "set (ac_requested a) = rq_id ` set plugins"
    "\<forall>e \<in> vals (ac_by_id a). \<exists>r \<in> set plugins. rq_enabled r \<and> plugin_requested r e"
    "\<forall>r \<in> set plugins. rq_enabled r \<longrightarrow> (\<exists>e \<in> vals (ac_by_id a). plugin_requested r e)"
    using activate_plugins [OF a] by auto
  then have B: "active_map ix by_id" "vals (ac_by_id a) \<subseteq> vals by_id"
    "\<forall>e \<in> vals by_id. e \<in> vals (ac_by_id a) \<or> (\<exists>(c, r) \<in> set providers. provider_requested r e)"
    "\<forall>(c, r) \<in> set providers. \<exists>e \<in> vals by_id. provider_requested r e"
    "distinct (map fst explicit)"
    "\<forall>c e. map_of explicit c = Some e \<longrightarrow>
       e \<in> vals by_id \<and> (\<exists>r. (c, r) \<in> set providers \<and> provider_requested r e)"
    using activate_providers [OF pa] out by auto
  show "active_map ix by_id" "distinct (map fst explicit)" by (rule B)+
  show "set requested = rq_id ` set plugins" using A out by simp
  show "e \<in> vals by_id \<Longrightarrow> (\<exists>r \<in> set plugins. rq_enabled r \<and> plugin_requested r e) \<or>
       (\<exists>(c, r) \<in> set providers. provider_requested r e)" using A B by blast
  show "r \<in> set plugins \<Longrightarrow> rq_enabled r \<Longrightarrow> \<exists>e \<in> vals by_id. plugin_requested r e" using A B by blast
  show "(c, q) \<in> set providers \<Longrightarrow> \<exists>e \<in> vals by_id. provider_requested q e" using B by blast
  show "map_of explicit c = Some e \<Longrightarrow> e \<in> vals by_id \<and> (\<exists>q. (c, q) \<in> set providers \<and> provider_requested q e)"
    using B by blast
  show "(c, q) \<in> set providers \<Longrightarrow> map_of explicit c \<noteq> None"
    using activate_providers_keys [OF pa] out unfolding map_of_eq_None_iff by (force simp: image_iff)
qed

end
