(* ===== verification/PluginGraphSelection.thy ===== *)
theory PluginGraphSelection
  imports PluginGraphResolution
begin

text \<open>
  The passes of the resolver that build the edges and choose the capability providers: what each
  loop establishes for every dependency it meets, and what the later loops keep of it.
\<close>

subsection \<open>Edges\<close>

text \<open>Edges only ever grow, between the keys they were created with.\<close>

definition edges_within :: "string set \<Rightarrow> edges \<Rightarrow> bool" where
  "edges_within ids es \<longleftrightarrow> (\<forall>n. distinct (map_get_or es n []) \<and> deps_of es n \<subseteq> ids)"

definition edges_grow :: "edges \<Rightarrow> edges \<Rightarrow> bool" where
  "edges_grow es fs \<longleftrightarrow> (\<forall>n. (map_of es n = None \<longleftrightarrow> map_of fs n = None) \<and> deps_of es n \<subseteq> deps_of fs n)"

lemma edges_grow_refl [simp]: "edges_grow es es"
  by (simp add: edges_grow_def)

lemma edges_grow_trans: "edges_grow es fs \<Longrightarrow> edges_grow fs gs \<Longrightarrow> edges_grow es gs"
  unfolding edges_grow_def by (meson order_trans)

lemma map_get_or_add_edge:
  "map_get_or (add_edge c p es) n [] =
     (if n = c \<and> map_of es c \<noteq> None then set_add p (map_get_or es n []) else map_get_or es n [])"
  by (auto simp: add_edge_def map_get_or_def split: option.splits)

lemma add_edge_keys: "map_of (add_edge c p es) n = None \<longleftrightarrow> map_of es n = None"
  by (auto simp: add_edge_def split: option.splits)

lemma deps_of_add_edge:
  "deps_of (add_edge c p es) n = deps_of es n \<union> (if n = c \<and> map_of es c \<noteq> None then {p} else {})"
  by (auto simp: deps_of_def map_get_or_add_edge)

lemma add_edge_grow: "edges_grow es (add_edge c p es)"
  by (simp add: edges_grow_def deps_of_add_edge add_edge_keys)

lemma add_edge_within: "edges_within ids es \<Longrightarrow> p \<in> ids \<Longrightarrow> edges_within ids (add_edge c p es)"
  by (auto simp: edges_within_def deps_of_add_edge map_get_or_add_edge)

lemma add_edge_other: "n \<noteq> c \<Longrightarrow> map_of (add_edge c p es) n = map_of es n"
  by (auto simp: add_edge_def split: option.splits)

text \<open>The loop that adds one edge for every consumer of a selected provider.\<close>

definition add_edges :: "string \<Rightarrow> capability_requirement list \<Rightarrow> edges \<Rightarrow> edges" where
  "add_edges p rs es = fold (\<lambda>r. add_edge (cr_consumer r) p) rs es"

lemma add_edges_grow: "edges_grow es (add_edges p rs es)"
  unfolding add_edges_def
proof (induction rs arbitrary: es)
  case (Cons r rs)
  show ?case using edges_grow_trans [OF add_edge_grow Cons] by simp
qed simp

lemma add_edges_within: "edges_within ids es \<Longrightarrow> p \<in> ids \<Longrightarrow> edges_within ids (add_edges p rs es)"
  unfolding add_edges_def by (induction rs arbitrary: es) (auto simp: add_edge_within)

lemma add_edges_adds:
  "r \<in> set rs \<Longrightarrow> map_of es (cr_consumer r) \<noteq> None \<Longrightarrow> p \<in> deps_of (add_edges p rs es) (cr_consumer r)"
proof (induction rs arbitrary: es)
  case (Cons q rs)
  show ?case
  proof (cases "r = q")
    case True
    then have "p \<in> deps_of (add_edge (cr_consumer q) p es) (cr_consumer r)"
      using Cons.prems(2) by (simp add: deps_of_add_edge)
    then show ?thesis
      using add_edges_grow [of "add_edge (cr_consumer q) p es" p rs]
      by (auto simp: edges_grow_def add_edges_def)
  next
    case False
    then have "r \<in> set rs" using Cons.prems(1) by simp
    then show ?thesis
      using Cons.IH [of "add_edge (cr_consumer q) p es"] Cons.prems(2)
      by (simp add: add_edges_def add_edge_keys del: not_None_eq)
  qed
qed simp

subsection \<open>Collecting the dependencies of the active plugins\<close>

definition reqs_grow :: "requirements \<Rightarrow> requirements \<Rightarrow> bool" where
  "reqs_grow rs ss \<longleftrightarrow> (\<forall>cap. set (map_get_or rs cap []) \<subseteq> set (map_get_or ss cap []))"

lemma reqs_grow_refl [simp]: "reqs_grow rs rs"
  by (simp add: reqs_grow_def)

lemma reqs_grow_trans: "reqs_grow rs ss \<Longrightarrow> reqs_grow ss ts \<Longrightarrow> reqs_grow rs ts"
  unfolding reqs_grow_def by fast

lemma push_requirement_get:
  "set (map_get_or (push_requirement cap r reqs) c []) =
     set (map_get_or reqs c []) \<union> (if c = cap then {r} else {})"
  by (auto simp: push_requirement_def)

text \<open>What holds of the collection between two dependencies of the same plugin.\<close>

definition collected :: "string set \<Rightarrow> collection \<Rightarrow> bool" where
  "collected ids c \<longleftrightarrow> edges_within ids (co_required c) \<and> edges_within ids (co_optional c) \<and> distinct (map fst (co_required_caps c)) \<and>
     distinct (map fst (co_required c)) \<and>
     (\<forall>cap. \<forall>r \<in> set (map_get_or (co_required_caps c) cap []). map_of (co_required c) (cr_consumer r) \<noteq> None)"

text \<open>Progress of the collection: nothing recorded for a plugin other than \<open>n\<close> is lost.\<close>

definition collects :: "string \<Rightarrow> collection \<Rightarrow> collection \<Rightarrow> bool" where
  "collects n c d \<longleftrightarrow> reqs_grow (co_required_caps c) (co_required_caps d) \<and>
     (\<forall>m. m \<noteq> n \<longrightarrow> map_of (co_required d) m = map_of (co_required c) m)"

lemma collects_trans: "collects n c d \<Longrightarrow> collects n d e \<Longrightarrow> collects n c e"
  unfolding collects_def using reqs_grow_trans by auto

text \<open>A required dependency of a plugin that has been dealt with.\<close>

definition dependency_met :: "semver_ops \<Rightarrow> (string, installed_entry) js_map \<Rightarrow> string \<Rightarrow> dependency \<Rightarrow>
    collection \<Rightarrow> bool" where
  "dependency_met sv by_id n d c \<longleftrightarrow>
     (case d of
        PluginDep p rng \<Rightarrow> (\<exists>t. map_of by_id p = Some t \<and> sv_satisfies sv (ie_version t) rng \<and>
                                ie_id t \<in> deps_of (co_required c) n)
      | CapabilityDep cap rng \<Rightarrow>
          \<lparr>cr_consumer = n, cr_range = rng\<rparr> \<in> set (map_get_or (co_required_caps c) cap []))"

lemma collect_required_step:
  assumes "collect_required sv ix requested by_id e d c = Inr c'" "map_of (co_required c) (ie_id e) \<noteq> None"
  shows "dependency_met sv by_id (ie_id e) d c' \<and> collects (ie_id e) c c' \<and>
    edges_grow (co_required c) (co_required c') \<and>
    (collected ids c \<and> ie_id ` vals by_id \<subseteq> ids \<longrightarrow> collected ids c')"
proof (cases d)
  case (PluginDep p rng)
  with assms(1) obtain t where t: "map_of by_id p = Some t" "sv_satisfies sv (ie_version t) rng"
    and c': "c' = c\<lparr>co_required := add_edge (ie_id e) (ie_id t) (co_required c)\<rparr>"
    by (auto simp: collect_required_def split: option.splits if_splits)
  have "t \<in> vals by_id" using t(1) by (force simp: vals_def dest: map_of_SomeD)
  moreover have "distinct (map fst (co_required c)) \<Longrightarrow> distinct (map fst (co_required c'))"
    by (auto simp: c' add_edge_def split: option.splits)
  ultimately show ?thesis
    using t assms(2) PluginDep
    by (auto simp: c' dependency_met_def deps_of_add_edge collects_def add_edge_other add_edge_grow
        collected_def add_edge_keys intro!: add_edge_within)
next
  case (CapabilityDep cap rng)
  with assms(1) have c': "c' = c\<lparr>co_required_caps :=
      push_requirement cap \<lparr>cr_consumer = ie_id e, cr_range = rng\<rparr> (co_required_caps c)\<rparr>"
    by (simp add: collect_required_def)
  then show ?thesis
    using assms(2) CapabilityDep
    by (auto simp: dependency_met_def collects_def reqs_grow_def collected_def push_requirement_get
        split: if_splits) (auto simp: push_requirement_def)
qed

lemma collect_optional_keeps:
  "co_required (collect_optional sv by_id e d c) = co_required c \<and>
   co_required_caps (collect_optional sv by_id e d c) = co_required_caps c \<and>
   (collected ids c \<and> ie_id ` vals by_id \<subseteq> ids \<longrightarrow> collected ids (collect_optional sv by_id e d c))"
  by (auto simp: collect_optional_def collected_def vals_def image_subset_iff
      split: dependency.split option.split dest!: map_of_SomeD intro!: add_edge_within)

lemma collect_optionals_keep:
  "co_required (fold (collect_optional sv by_id e) ds c) = co_required c \<and>
   co_required_caps (fold (collect_optional sv by_id e) ds c) = co_required_caps c \<and>
   (collected ids c \<and> ie_id ` vals by_id \<subseteq> ids \<longrightarrow> collected ids (fold (collect_optional sv by_id e) ds c))"
proof (induction ds arbitrary: c)
  case (Cons d ds)
  show ?case using Cons [of "collect_optional sv by_id e d c"] collect_optional_keeps [of sv by_id e d c ids] by auto
qed simp

lemma dependency_met_mono:
  "dependency_met sv by_id n d c \<Longrightarrow> reqs_grow (co_required_caps c) (co_required_caps c') \<Longrightarrow>
   deps_of (co_required c) n \<subseteq> deps_of (co_required c') n \<Longrightarrow> dependency_met sv by_id n d c'"
  by (auto simp: dependency_met_def reqs_grow_def split: dependency.splits)

lemma collect_requireds:
  assumes "res_fold (collect_required sv ix requested by_id e) ds c = Inr c'"
    "map_of (co_required c) (ie_id e) \<noteq> None"
  shows "(\<forall>d \<in> set ds. dependency_met sv by_id (ie_id e) d c') \<and> collects (ie_id e) c c' \<and>
    edges_grow (co_required c) (co_required c') \<and>
    (collected ids c \<and> ie_id ` vals by_id \<subseteq> ids \<longrightarrow> collected ids c')"
  using assms
proof (induction ds arbitrary: c)
  case (Cons d ds)
  from Cons.prems(1) obtain b where b: "collect_required sv ix requested by_id e d c = Inr b"
    "res_fold (collect_required sv ix requested by_id e) ds b = Inr c'"
    by auto
  note step = collect_required_step [OF b(1) Cons.prems(2), of ids]
  then have "map_of (co_required b) (ie_id e) \<noteq> None" using Cons.prems(2) by (auto simp: edges_grow_def)
  note IH = Cons.IH [OF b(2) this]
  have "dependency_met sv by_id (ie_id e) d c'"
    by (rule dependency_met_mono [of _ _ _ _ b])
      (use step IH in \<open>simp_all add: collects_def edges_grow_def\<close>)
  moreover have "collects (ie_id e) c c'" using step IH collects_trans by blast
  moreover have "edges_grow (co_required c) (co_required c')" using step IH edges_grow_trans by blast
  ultimately show ?case using step IH by simp
qed (simp add: collects_def)

lemma collect_entry_step:
  assumes "collect_entry sv ix requested by_id e c = Inr c'"
  shows "(\<forall>d \<in> set (mf_requires (im_manifest (ie_installed e))). dependency_met sv by_id (ie_id e) d c') \<and>
    collects (ie_id e) c c' \<and> map_of (co_required c') (ie_id e) \<noteq> None \<and>
    (collected ids c \<and> ie_id ` vals by_id \<subseteq> ids \<longrightarrow> collected ids c')"
proof -
  let ?m = "im_manifest (ie_installed e)"
  let ?c = "c\<lparr>co_required := AList.update (ie_id e) [] (co_required c),
                 co_optional := AList.update (ie_id e) [] (co_optional c)\<rparr>"
  obtain b where b: "res_fold (collect_required sv ix requested by_id e)
      (sorted_dependencies (mf_requires ?m)) ?c = Inr b"
    and c': "c' = fold (collect_optional sv by_id e) (sorted_dependencies (mf_optional ?m)) b"
    using assms unfolding collect_entry_def by (auto simp: Let_def)
  have start: "map_of (co_required ?c) (ie_id e) \<noteq> None" by simp
  have reset: "collected ids c \<longrightarrow> collected ids ?c"
    by (auto simp: collected_def edges_within_def deps_of_def)
  note deps = collect_requireds [OF b start, of ids]
  note opt = collect_optionals_keep [of sv by_id e "sorted_dependencies (mf_optional ?m)" b ids, folded c']
  have met: "dependency_met sv by_id (ie_id e) d c' \<longleftrightarrow> dependency_met sv by_id (ie_id e) d b" for d
    using opt by (auto simp: dependency_met_def split: dependency.split)
  have "collects (ie_id e) ?c c'" using deps opt by (simp add: collects_def)
  then have "collects (ie_id e) c c'" by (simp add: collects_def)
  moreover have "map_of (co_required b) (ie_id e) \<noteq> None"
    using deps start by (simp only: edges_grow_def) blast
  moreover have "\<forall>d \<in> set (mf_requires ?m). dependency_met sv by_id (ie_id e) d c'"
    using deps met by (simp add: sorted_dependencies_def)
  moreover have "collected ids c \<and> ie_id ` vals by_id \<subseteq> ids \<longrightarrow> collected ids c'"
    using deps opt reset by blast
  ultimately show ?thesis using opt by simp
qed

lemma collect_entries:
  assumes "res_fold (collect_entry sv ix requested by_id) es c = Inr c'" "distinct (map ie_id es)"
    "collected ids c" "ie_id ` vals by_id \<subseteq> ids"
  shows "collected ids c' \<and> reqs_grow (co_required_caps c) (co_required_caps c') \<and>
    (\<forall>n. n \<notin> ie_id ` set es \<longrightarrow> map_of (co_required c') n = map_of (co_required c) n) \<and>
    (\<forall>e \<in> set es. map_of (co_required c') (ie_id e) \<noteq> None \<and>
       (\<forall>d \<in> set (mf_requires (im_manifest (ie_installed e))). dependency_met sv by_id (ie_id e) d c'))"
  using assms
proof (induction es arbitrary: c)
  case (Cons e es)
  from Cons.prems(1) obtain b where b: "collect_entry sv ix requested by_id e c = Inr b"
    "res_fold (collect_entry sv ix requested by_id) es b = Inr c'"
    by auto
  note step = collect_entry_step [OF b(1), of ids]
  have new: "distinct (map ie_id es)" "ie_id e \<notin> ie_id ` set es" using Cons.prems(2) by auto
  have "collected ids b" using step Cons.prems(3,4) by blast
  note IH = Cons.IH [OF b(2) new(1) this Cons.prems(4)]
  have same: "map_of (co_required c') (ie_id e) = map_of (co_required b) (ie_id e)"
    using IH new(2) by blast
  have "dependency_met sv by_id (ie_id e) d c'" if "d \<in> set (mf_requires (im_manifest (ie_installed e)))" for d
    by (rule dependency_met_mono [of _ _ _ _ b])
      (use step IH that same in \<open>auto simp: deps_of_def map_get_or_def\<close>)
  moreover have "reqs_grow (co_required_caps c) (co_required_caps c')"
    using step IH reqs_grow_trans by (simp only: collects_def) blast
  moreover have "map_of (co_required c') n = map_of (co_required c) n" if "n \<notin> ie_id ` set (e # es)" for n
    using step IH that by (simp add: collects_def)
  ultimately show ?case using IH step same by simp
qed simp

subsection \<open>Choosing the provider of a required capability\<close>

text \<open>
  A selection that serves the requirements \<open>rs\<close> of a capability: its plugin is active and
  provides a version that every range accepts; it is the requested provider if there is one, and
  otherwise the only active plugin that could serve.
\<close>

definition serves :: "semver_ops \<Rightarrow> installed_entry set \<Rightarrow> (string, installed_entry) js_map \<Rightarrow> string \<Rightarrow>
    capability_requirement list \<Rightarrow> capability_selection \<Rightarrow> bool" where
  "serves sv active explicit cap rs s \<longleftrightarrow>
     (\<exists>e \<in> active. ie_id e = cs_plugin s \<and> cs_version s \<in> set (provided_versions e cap)) \<and>
     (\<forall>r \<in> set rs. sv_satisfies sv (cs_version s) (cr_range r)) \<and>
     (case map_of explicit cap of
        Some e \<Rightarrow> cs_plugin s = ie_id e
      | None \<Rightarrow> \<forall>e \<in> active. (\<exists>v \<in> set (provided_versions e cap). \<forall>r \<in> set rs. sv_satisfies sv v (cr_range r))
                 \<longrightarrow> ie_id e = cs_plugin s)"

lemma truthy_Some [simp]: "truthy x = Some v \<longleftrightarrow> x = Some v \<and> v \<noteq> []"
  by (cases x) auto

lemma select_provided_version_Some:
  "select_provided_version sv e cap ranges = Some v \<Longrightarrow>
   v \<in> set (provided_versions e cap) \<and> (\<forall>r \<in> set ranges. sv_satisfies sv v r)"
  by (auto simp: select_provided_version_def find_Some_iff)

lemma select_provided_version_None:
  "select_provided_version sv e cap ranges = None \<longleftrightarrow>
   \<not> (\<exists>v \<in> set (provided_versions e cap). \<forall>r \<in> set ranges. sv_satisfies sv v r)"
  by (auto simp: select_provided_version_def find_None_iff)

lemma select_explicit_Inr:
  assumes "select_explicit sv cap ranges e = Inr s"
  shows "cs_plugin s = ie_id e \<and> select_provided_version sv e cap ranges = Some (cs_version s)"
  using assms by (auto simp: select_explicit_def split: option.splits if_splits)

lemma select_implicit_Inr:
  assumes "select_implicit sv cap ranges active installed requested = Inr s"
  shows "\<exists>e \<in> set active. cs_plugin s = ie_id e \<and>
    select_provided_version sv e cap ranges = Some (cs_version s) \<and>
    (\<forall>f \<in> set active. select_provided_version sv f cap ranges \<noteq> None \<longrightarrow> f = e)"
proof -
  let ?ok = "\<lambda>e. select_provided_version sv e cap ranges \<noteq> None"
  from assms obtain e where e: "filter ?ok (active_providers active cap) = [e]"
    and s: "select_provided_version sv e cap ranges = Some (cs_version s)" "cs_plugin s = ie_id e"
    by (auto simp: select_implicit_def split: list.splits if_splits option.splits)
  have "f \<in> set (filter ?ok (active_providers active cap)) \<longleftrightarrow> f \<in> set active \<and> ?ok f" for f
    by (auto simp: active_providers_def select_provided_version_def find_Some_iff)
  with e have "f \<in> set active \<and> ?ok f \<longleftrightarrow> f = e" for f
    by (metis empty_iff insert_iff list.set(1) list.set(2))
  then show ?thesis using s by blast
qed

lemma resolve_required_capability_step:
  assumes "resolve_required_capability sv reqs active installed explicit requested cap (es, sels) = Inr (es', sels')"
    and explicit: "\<And>e. map_of explicit cap = Some e \<Longrightarrow> e \<in> set active"
  obtains s where "sels' = AList.update cap s sels" "es' = add_edges (cs_plugin s) (map_get_or reqs cap []) es"
    "serves sv (set active) explicit cap (map_get_or reqs cap []) s"
proof -
  let ?rs = "map_get_or reqs cap []"
  from assms(1) obtain s where choice: "(case map_of explicit cap of
        Some entry \<Rightarrow> select_explicit sv cap (map cr_range ?rs) entry
      | None \<Rightarrow> select_implicit sv cap (map cr_range ?rs) active installed requested) = Inr s"
    and out: "sels' = AList.update cap s sels" "es' = add_edges (cs_plugin s) ?rs es"
    by (auto simp: resolve_required_capability_def Let_def add_edges_def)
  have "serves sv (set active) explicit cap ?rs s"
  proof (cases "map_of explicit cap")
    case (Some e)
    then have "select_explicit sv cap (map cr_range ?rs) e = Inr s" using choice by simp
    note sel = select_explicit_Inr [OF this]
    from sel have e: "cs_plugin s = ie_id e" by blast
    have "cs_version s \<in> set (provided_versions e cap)" "\<forall>r \<in> set ?rs. sv_satisfies sv (cs_version s) (cr_range r)"
      using select_provided_version_Some [of sv e cap "map cr_range ?rs" "cs_version s"] sel by auto
    note e = e this
    then show ?thesis using Some explicit [OF Some] by (auto simp: serves_def)
  next
    case None
    then have "select_implicit sv cap (map cr_range ?rs) active installed requested = Inr s" using choice by simp
    from select_implicit_Inr [OF this] obtain e where e: "e \<in> set active" "cs_plugin s = ie_id e"
      and sel: "select_provided_version sv e cap (map cr_range ?rs) = Some (cs_version s)"
      and only: "\<forall>f \<in> set active. select_provided_version sv f cap (map cr_range ?rs) \<noteq> None \<longrightarrow> f = e"
      by blast
    have "cs_version s \<in> set (provided_versions e cap)" "\<forall>r \<in> set ?rs. sv_satisfies sv (cs_version s) (cr_range r)"
      using select_provided_version_Some [OF sel] by auto
    note e = e this
    have "\<forall>f \<in> set active. (\<exists>v \<in> set (provided_versions f cap). \<forall>r \<in> set ?rs. sv_satisfies sv v (cr_range r))
            \<longrightarrow> ie_id f = cs_plugin s"
      using only e(2) unfolding select_provided_version_None by auto
    then show ?thesis using None e by (auto simp: serves_def)
  qed
  with out show ?thesis by (rule that)
qed

lemma resolve_required_loop:
  assumes "res_fold (resolve_required_capability sv reqs active installed explicit requested) caps (es, sels)
      = Inr (es', sels')" "distinct caps"
    and explicit: "\<forall>c e. map_of explicit c = Some e \<longrightarrow> e \<in> set active"
    and consumers: "\<forall>c. \<forall>r \<in> set (map_get_or reqs c []). map_of es (cr_consumer r) \<noteq> None"
  shows "edges_grow es es' \<and> (edges_within ids es \<and> ie_id ` set active \<subseteq> ids \<longrightarrow> edges_within ids es') \<and>
    (\<forall>c. c \<notin> set caps \<longrightarrow> map_of sels' c = map_of sels c) \<and>
    (\<forall>c \<in> set caps. \<exists>s. map_of sels' c = Some s \<and> serves sv (set active) explicit c (map_get_or reqs c []) s \<and>
       (\<forall>r \<in> set (map_get_or reqs c []). cs_plugin s \<in> deps_of es' (cr_consumer r)))"
  using assms(1,2) consumers
proof (induction caps arbitrary: es sels)
  case (Cons cap caps)
  obtain es1 sels1 where one: "resolve_required_capability sv reqs active installed explicit requested cap (es, sels)
      = Inr (es1, sels1)"
    "res_fold (resolve_required_capability sv reqs active installed explicit requested) caps (es1, sels1)
      = Inr (es', sels')"
    using Cons.prems(1) by auto
  obtain s where s: "sels1 = AList.update cap s sels" "es1 = add_edges (cs_plugin s) (map_get_or reqs cap []) es"
    "serves sv (set active) explicit cap (map_get_or reqs cap []) s"
    by (rule resolve_required_capability_step [OF one(1) explicit [rule_format, of cap]])
  have grow: "edges_grow es es1" unfolding s(2) by (rule add_edges_grow)
  have "\<forall>c. \<forall>r \<in> set (map_get_or reqs c []). map_of es1 (cr_consumer r) \<noteq> None"
    using grow Cons.prems(3) by (simp only: edges_grow_def)
  note consumers1 = this
  have "distinct caps" "cap \<notin> set caps" using Cons.prems(2) by auto
  note IH = Cons.IH [OF one(2) this(1) consumers1]
  have here: "cs_plugin s \<in> deps_of es' (cr_consumer r)" if "r \<in> set (map_get_or reqs cap [])" for r
    using add_edges_adds [OF that, of es] Cons.prems(3) that IH by (simp only: edges_grow_def s(2)) blast
  have "cs_plugin s \<in> ie_id ` set active" using s(3) by (force simp: serves_def)
  then have "edges_within ids es \<and> ie_id ` set active \<subseteq> ids \<longrightarrow> edges_within ids es1"
    unfolding s(2) using add_edges_within by blast
  moreover have "edges_grow es es'" using grow IH edges_grow_trans by blast
  moreover have "map_of sels' cap = Some s" using IH \<open>cap \<notin> set caps\<close> s(1) by simp
  moreover have "map_of sels' c = map_of sels c" if "c \<notin> set (cap # caps)" for c
    using IH that s(1) by simp
  ultimately show ?case using IH here s(3) by simp
qed simp

subsection \<open>Optional capabilities and the remaining explicit providers\<close>

text \<open>Every selection names an active plugin and a version of the capability it provides.\<close>

definition selections_ok :: "installed_entry set \<Rightarrow> selections \<Rightarrow> bool" where
  "selections_ok active sels \<longleftrightarrow> distinct (map fst sels) \<and>
     (\<forall>c s. map_of sels c = Some s \<longrightarrow>
        (\<exists>e \<in> active. ie_id e = cs_plugin s \<and> cs_version s \<in> set (provided_versions e c)))"

definition sels_grow :: "selections \<Rightarrow> selections \<Rightarrow> bool" where
  "sels_grow ss ts \<longleftrightarrow> (\<forall>c s. map_of ss c = Some s \<longrightarrow> map_of ts c = Some s)"

lemma sels_grow_refl [simp]: "sels_grow ss ss"
  by (simp add: sels_grow_def)

lemma sels_grow_trans: "sels_grow ss ts \<Longrightarrow> sels_grow ts us \<Longrightarrow> sels_grow ss us"
  by (simp add: sels_grow_def)

lemma selections_ok_update:
  "selections_ok active sels \<Longrightarrow> e \<in> active \<Longrightarrow> v \<in> set (provided_versions e c) \<Longrightarrow>
   selections_ok active (AList.update c \<lparr>cs_plugin = ie_id e, cs_version = v\<rparr> sels)"
  by (auto simp: selections_ok_def)

lemma sels_grow_update: "map_of ss c = None \<Longrightarrow> sels_grow ss (AList.update c s ss)"
  by (auto simp: sels_grow_def)

lemma add_compatible_edges_within:
  "edges_within ids es \<Longrightarrow> cs_plugin s \<in> ids \<Longrightarrow> edges_within ids (add_compatible_edges sv rs s es)"
  unfolding add_compatible_edges_def by (induction rs arbitrary: es) (auto simp: add_edge_within)

lemma resolve_required_selections_ok:
  assumes "res_fold (resolve_required_capability sv reqs active installed explicit requested) caps (es, sels)
      = Inr (es', sels')" "selections_ok (set active) sels"
    and explicit: "\<forall>c e. map_of explicit c = Some e \<longrightarrow> e \<in> set active"
  shows "selections_ok (set active) sels'"
  using assms(1,2)
proof (induction caps arbitrary: es sels)
  case (Cons cap caps)
  obtain es1 sels1 where one: "resolve_required_capability sv reqs active installed explicit requested cap (es, sels)
      = Inr (es1, sels1)"
    "res_fold (resolve_required_capability sv reqs active installed explicit requested) caps (es1, sels1)
      = Inr (es', sels')"
    using Cons.prems(1) by auto
  obtain s where s: "sels1 = AList.update cap s sels" "serves sv (set active) explicit cap (map_get_or reqs cap []) s"
    by (rule resolve_required_capability_step [OF one(1) explicit [rule_format, of cap]])
  then have "selections_ok (set active) sels1" using Cons.prems(2) by (auto simp: selections_ok_def serves_def)
  then show ?case by (rule Cons.IH [OF one(2)])
qed simp

lemma resolve_optional_step:
  assumes "resolve_optional_capability sv reqs active explicit cap (sels, es) = Inr (sels', es')"
    and explicit: "\<And>e. map_of explicit cap = Some e \<Longrightarrow> e \<in> set active"
    and ok: "selections_ok (set active) sels" and within: "edges_within ids es" "ie_id ` set active \<subseteq> ids"
  shows "selections_ok (set active) sels' \<and> sels_grow sels sels' \<and> edges_within ids es'"
proof (cases "map_of sels cap")
  case (Some s)
  then show ?thesis
    using assms
    by (auto simp: resolve_optional_capability_def Let_def intro!: add_compatible_edges_within)
      (metis image_eqI subsetD)
next
  case None
  let ?rs = "map_get_or reqs cap []"
  have finish: ?thesis if "e \<in> set active" "v \<in> set (provided_versions e cap)"
    "sels' = AList.update cap \<lparr>cs_plugin = ie_id e, cs_version = v\<rparr> sels"
    "es' = add_compatible_edges sv ?rs \<lparr>cs_plugin = ie_id e, cs_version = v\<rparr> es" for e v
    using that within by (auto intro!: selections_ok_update ok sels_grow_update None add_compatible_edges_within)
  show ?thesis
  proof (cases "map_of explicit cap")
    case (Some e)
    obtain first rest where vs: "provided_versions e cap = first # rest"
      using assms(1) None Some by (auto simp: resolve_optional_capability_def Let_def split: list.splits)
    let ?wanted = "\<lambda>v. \<exists>r \<in> set ?rs. sv_satisfies sv v (cr_range r)"
    let ?v = "case List.find ?wanted (first # rest) of None \<Rightarrow> first | Some v \<Rightarrow> v"
    have "?v \<in> set (provided_versions e cap)"
      unfolding vs by (auto split: option.split simp: find_Some_iff)
    moreover have "sels' = AList.update cap \<lparr>cs_plugin = ie_id e, cs_version = ?v\<rparr> sels"
      "es' = add_compatible_edges sv ?rs \<lparr>cs_plugin = ie_id e, cs_version = ?v\<rparr> es"
      using assms(1) None Some vs by (simp_all add: resolve_optional_capability_def Let_def)
    ultimately show ?thesis using finish explicit [OF Some] by blast
  next
    case no_explicit: None
    let ?wanted = "\<lambda>v. \<exists>r \<in> set ?rs. sv_satisfies sv v (cr_range r)"
    let ?ps = "filter (\<lambda>p. \<exists>v \<in> set (provided_versions p cap). ?wanted v) (active_providers active cap)"
    show ?thesis
    proof (cases ?ps)
      case Nil
      then show ?thesis
        using assms(1) None no_explicit ok within by (simp add: resolve_optional_capability_def Let_def)
    next
      case (Cons e others)
      have "e \<in> set ?ps" unfolding Cons by simp
      then have e: "e \<in> set active" by (simp add: active_providers_def)
      have "others = []"
        using assms(1) None no_explicit Cons
        by (cases others) (simp_all add: resolve_optional_capability_def Let_def)
      show ?thesis
      proof (cases "truthy (List.find ?wanted (provided_versions e cap))")
        case None
        then show ?thesis
          using assms(1) \<open>map_of sels cap = None\<close> no_explicit Cons \<open>others = []\<close> ok within
          by (simp add: resolve_optional_capability_def Let_def)
      next
        case (Some v)
        then have "v \<in> set (provided_versions e cap)" by (auto simp: find_Some_iff)
        then show ?thesis
          using assms(1) None no_explicit Cons \<open>others = []\<close> Some
          by (intro finish [OF e]) (auto simp: resolve_optional_capability_def Let_def)
      qed
    qed
  qed
qed

lemma resolve_optional_loop:
  assumes "res_fold (resolve_optional_capability sv reqs active explicit) caps (sels, es) = Inr (sels', es')"
    and explicit: "\<forall>c e. map_of explicit c = Some e \<longrightarrow> e \<in> set active"
    and "selections_ok (set active) sels" "edges_within ids es" and ids: "ie_id ` set active \<subseteq> ids"
  shows "selections_ok (set active) sels' \<and> sels_grow sels sels' \<and> edges_within ids es'"
  using assms(1,3,4)
proof (induction caps arbitrary: sels es)
  case (Cons cap caps)
  obtain sels1 es1 where one: "resolve_optional_capability sv reqs active explicit cap (sels, es) = Inr (sels1, es1)"
    "res_fold (resolve_optional_capability sv reqs active explicit) caps (sels1, es1) = Inr (sels', es')"
    using Cons.prems(1) by auto
  note step = resolve_optional_step [OF one(1) explicit [rule_format, of cap] Cons.prems(2,3) ids]
  show ?case using step Cons.IH [OF one(2)] sels_grow_trans by blast
qed simp

lemma settle_explicit_loop:
  assumes "res_fold (settle_explicit caps) xs sels = Inr sels'" "snd ` set xs \<subseteq> active" "selections_ok active sels"
  shows "selections_ok active sels' \<and> sels_grow sels sels'"
  using assms
proof (induction xs arbitrary: sels)
  case (Cons x xs)
  obtain c e where x: "x = (c, e)" by (cases x)
  obtain sels1 where one: "settle_explicit caps (c, e) sels = Inr sels1" "res_fold (settle_explicit caps) xs sels1 = Inr sels'"
    using Cons.prems(1) x by auto
  have "selections_ok active sels1 \<and> sels_grow sels sels1"
    using one(1) Cons.prems(2,3) x selections_ok_update [of active sels e _ c] sels_grow_update [of sels c]
    by (auto simp: settle_explicit_def Let_def split: if_splits list.splits)
  then show ?case using Cons.IH [OF one(2)] Cons.prems(2) sels_grow_trans by auto
qed simp

end
