(* ===== verification/PluginGraphProperties.thy ===== *)
theory PluginGraphProperties
  imports PluginGraphSelection
begin

text \<open>
  The properties of \<open>resolvePlatformPluginGraph\<close>, over the lemmas of the theories below it. The
  first section takes a successful run apart; every property is a few steps from there.
\<close>

subsection \<open>A successful run\<close>

text \<open>The intermediate values of a run that returns \<open>g\<close>, and what the passes establish of them.\<close>

definition resolution :: "semver_ops \<Rightarrow> plugin_request list \<Rightarrow> (string, provider_request) js_map \<Rightarrow>
    installed_manifest list \<Rightarrow> resolved_graph \<Rightarrow> installed_entry set \<Rightarrow> installed_entry list \<Rightarrow>
    (string, installed_entry) js_map \<Rightarrow> (string, installed_entry) js_map \<Rightarrow> edges \<Rightarrow> edges \<Rightarrow> selections \<Rightarrow> bool" where
  "resolution sv plugins providers installed g entries active by_id explicit required optional sels \<longleftrightarrow>
     g = assemble_graph active required optional sels \<and>
     entries = installed_entry_of ` set installed \<and> inj_on ie_id entries \<and>
     set active = vals by_id \<and> vals by_id \<subseteq> entries \<and> keyed ie_id by_id \<and>
     distinct (map ie_id active) \<and> sorted (map ie_id active) \<and>
     (\<forall>e \<in> set active. (\<exists>r \<in> set plugins. rq_enabled r \<and> plugin_requested r e) \<or>
        (\<exists>(c, q) \<in> set providers. provider_requested q e)) \<and>
     (\<forall>r \<in> set plugins. rq_enabled r \<longrightarrow> (\<exists>e \<in> set active. plugin_requested r e)) \<and>
     (\<forall>(c, q) \<in> set providers. \<exists>e \<in> set active. provider_requested q e) \<and>
     (\<forall>c e. map_of explicit c = Some e \<longrightarrow> (\<exists>q. (c, q) \<in> set providers \<and> provider_requested q e)) \<and>
     (\<forall>(c, q) \<in> set providers. map_of explicit c \<noteq> None) \<and>
     edges_within (ie_id ` set active) required \<and> edges_within (ie_id ` set active) optional \<and>
     selections_ok (set active) sels \<and> shortest_required_cycle required = None \<and>
     validate_conflicts sv active by_id = Inr ()"

definition met :: "semver_ops \<Rightarrow> installed_entry list \<Rightarrow> (string, installed_entry) js_map \<Rightarrow>
    (string, installed_entry) js_map \<Rightarrow> edges \<Rightarrow> selections \<Rightarrow> installed_entry \<Rightarrow> dependency \<Rightarrow> bool" where
  "met sv active by_id explicit required sels e d \<longleftrightarrow>
     (case d of
        PluginDep p rng \<Rightarrow> (\<exists>t. map_of by_id p = Some t \<and> sv_satisfies sv (ie_version t) rng \<and>
                                ie_id t \<in> deps_of required (ie_id e))
      | CapabilityDep cap rng \<Rightarrow> (\<exists>s rs. map_of sels cap = Some s \<and> serves sv (set active) explicit cap rs s \<and>
          \<lparr>cr_consumer = ie_id e, cr_range = rng\<rparr> \<in> set rs \<and> cs_plugin s \<in> deps_of required (ie_id e)))"

lemma resolve_selections_Inr:
  assumes "resolve_selections sv ix requested active by_id explicit = Inr (required, optional, sels)"
    and active: "set active = vals by_id" "distinct (map ie_id active)"
    and explicit: "distinct (map fst explicit)" "\<forall>c e. map_of explicit c = Some e \<longrightarrow> e \<in> set active"
  shows "edges_within (ie_id ` set active) required" "edges_within (ie_id ` set active) optional"
    "selections_ok (set active) sels"
    "e \<in> set active \<Longrightarrow> d \<in> set (mf_requires (im_manifest (ie_installed e))) \<Longrightarrow>
       met sv active by_id explicit required sels e d"
proof -
  let ?ids = "ie_id ` set active"
  from assms(1) obtain c sels1 sels2 where
    c: "res_fold (collect_entry sv ix requested by_id) active
          \<lparr>co_required = [], co_optional = [], co_required_caps = [], co_optional_caps = []\<rparr> = Inr c"
    and req: "resolve_required_capabilities sv (co_required_caps c) active (ix_entries ix) explicit requested
          (co_required c, []) = Inr (required, sels1)"
    and opt: "resolve_optional_capabilities sv (co_optional_caps c) active explicit (sels1, co_optional c)
          = Inr (sels2, optional)"
    and rest: "res_fold (settle_explicit (co_optional_caps c)) explicit sels2 = Inr sels"
    by (auto simp: resolve_selections_def)
  have start: "collected ?ids \<lparr>co_required = [], co_optional = [], co_required_caps = [], co_optional_caps = []\<rparr>"
    by (simp add: collected_def edges_within_def deps_of_def)
  note C = collect_entries [OF c active(2) start, unfolded active(1), OF subset_refl]
  have coll: "collected ?ids c" using C active(1) by simp
  have consumers: "\<forall>cap. \<forall>r \<in> set (map_get_or (co_required_caps c) cap []).
      map_of (co_required c) (cr_consumer r) \<noteq> None"
    using coll unfolding collected_def by blast
  have caps: "distinct (sort (map fst (co_required_caps c)))" using coll by (simp add: collected_def)
  note R = resolve_required_loop [OF req [unfolded resolve_required_capabilities_def] caps explicit(2) consumers, where ids = ?ids]
  show within: "edges_within ?ids required" using R coll by (simp add: collected_def)
  have "selections_ok (set active) sels1"
    by (rule resolve_required_selections_ok [OF req [unfolded resolve_required_capabilities_def] _ explicit(2)])
      (simp add: selections_ok_def)
  note O = resolve_optional_loop [OF opt [unfolded resolve_optional_capabilities_def] explicit(2) this, where ids = ?ids]
  have O: "selections_ok (set active) sels2 \<and> sels_grow sels1 sels2 \<and> edges_within ?ids optional"
    using O coll by (simp add: collected_def)
  then show "edges_within ?ids optional" by blast
  have "snd ` set explicit \<subseteq> set active"
    using explicit map_of_is_SomeI [of explicit] by auto
  with O have S: "selections_ok (set active) sels \<and> sels_grow sels2 sels"
    using settle_explicit_loop [OF rest] by blast
  then show "selections_ok (set active) sels" by blast
  assume e: "e \<in> set active" and d: "d \<in> set (mf_requires (im_manifest (ie_installed e)))"
  have dep: "dependency_met sv by_id (ie_id e) d c" using C e d active(1) by blast
  show "met sv active by_id explicit required sels e d"
  proof (cases d)
    case (PluginDep p rng)
    then show ?thesis using dep R by (auto simp: dependency_met_def met_def edges_grow_def)
  next
    case (CapabilityDep cap rng)
    let ?r = "\<lparr>cr_consumer = ie_id e, cr_range = rng\<rparr>"
    let ?rs = "map_get_or (co_required_caps c) cap []"
    have r: "?r \<in> set ?rs" using dep CapabilityDep by (simp add: dependency_met_def)
    then have "cap \<in> set (sort (map fst (co_required_caps c)))"
      by (cases "map_of (co_required_caps c) cap")
        (auto simp: map_get_or_def dest!: map_of_SomeD intro: rev_image_eqI)
    then obtain s where s: "map_of sels1 cap = Some s" "serves sv (set active) explicit cap ?rs s"
      "\<forall>r \<in> set ?rs. cs_plugin s \<in> deps_of required (cr_consumer r)"
      using R by blast
    have "map_of sels cap = Some s" using s(1) O S by (simp add: sels_grow_def)
    moreover have "cs_plugin s \<in> deps_of required (ie_id e)" using s(3) r by fastforce
    ultimately show ?thesis using s(2) r CapabilityDep by (auto simp: met_def)
  qed
qed

lemma resolve_Inr:
  assumes "resolve_platform_plugin_graph sv plugins providers installed = Inr g"
  obtains entries active by_id explicit required optional sels where
    "resolution sv plugins providers installed g entries active by_id explicit required optional sels"
    "\<forall>e \<in> set active. \<forall>d \<in> set (mf_requires (im_manifest (ie_installed e))).
       met sv active by_id explicit required sels e d"
proof -
  from assms obtain ix requested by_id explicit required optional sels where
    ix: "build_installed_indexes installed = Inr ix"
    and act: "activate_all ix plugins providers = Inr (requested, by_id, explicit)"
    and sel: "resolve_selections sv ix requested (sort_key ie_id (map snd by_id)) by_id explicit
        = Inr (required, optional, sels)"
    and con: "validate_conflicts sv (sort_key ie_id (map snd by_id)) by_id = Inr ()"
    and cyc: "shortest_required_cycle required = None"
    and g: "g = assemble_graph (sort_key ie_id (map snd by_id)) required optional sels"
    by (auto simp: resolve_platform_plugin_graph_def Let_def split: option.splits)
  let ?active = "sort_key ie_id (map snd by_id)"
  note B = build_index [OF ix]
  note A = activate_all_Inr [OF act B(1)]
  have ids: "keyed ie_id by_id" "vals by_id \<subseteq> vals (ix_by_id ix)" using A(1) by (auto simp: active_map_def)
  have set_active: "set ?active = vals by_id" by (simp only: set_sort set_map_snd)
  have "mset (map ie_id ?active) = mset (map ie_id (map snd by_id))"
    by (simp only: mset_map mset_sort)
  then have dist: "distinct (map ie_id ?active)"
    using keyed_entries(1) [OF ids(1)] mset_eq_imp_distinct_iff by blast
  have inj: "inj_on ie_id (vals (ix_by_id ix))" using keyed_unique [OF B(1)] by (auto intro: inj_onI)
  have ex: "\<forall>c e. map_of explicit c = Some e \<longrightarrow> e \<in> set ?active"
    unfolding set_active using A(7) by blast
  note S = resolve_selections_Inr [OF sel set_active dist A(2) ex]
  have entries: "vals (ix_by_id ix) = installed_entry_of ` set installed" using B(2) .
  have "resolution sv plugins providers installed g (installed_entry_of ` set installed)
      ?active by_id explicit required optional sels"
    unfolding resolution_def
  proof (intro conjI)
    show "\<forall>e \<in> set ?active. (\<exists>r \<in> set plugins. rq_enabled r \<and> plugin_requested r e) \<or>
        (\<exists>(c, q) \<in> set providers. provider_requested q e)" unfolding set_active using A(4) by blast
    show "\<forall>r \<in> set plugins. rq_enabled r \<longrightarrow> (\<exists>e \<in> set ?active. plugin_requested r e)"
      unfolding set_active using A(5) by blast
    show "\<forall>(c, q) \<in> set providers. \<exists>e \<in> set ?active. provider_requested q e"
      unfolding set_active using A(6) by blast
    show "\<forall>c e. map_of explicit c = Some e \<longrightarrow> (\<exists>q. (c, q) \<in> set providers \<and> provider_requested q e)"
      using A(7) by blast
    show "\<forall>(c, q) \<in> set providers. map_of explicit c \<noteq> None" using A(8) by blast
    show "inj_on ie_id (installed_entry_of ` set installed)" using inj entries by simp
    show "vals by_id \<subseteq> installed_entry_of ` set installed" using ids(2) entries by simp
    show "sorted (map ie_id ?active)" by simp
  qed (rule g set_active ids(1) dist S(1-3) cyc con refl)+
  moreover have "\<forall>e \<in> set ?active. \<forall>d \<in> set (mf_requires (im_manifest (ie_installed e))).
       met sv ?active by_id explicit required sels e d"
    using S(4) by blast
  ultimately show ?thesis by (rule that)
qed

subsection \<open>Reading the returned graph\<close>

lemmas resolutionD = resolution_def [THEN iffD1]

lemma in_dedup: "set (js_dedup xs) = set xs"
proof -
  have "set (fold set_add xs ys) = set ys \<union> set xs" for ys
    by (induction xs arbitrary: ys) auto
  then show ?thesis by (simp add: js_dedup_def)
qed

lemma rn_required_deps: "set (rn_required (resolved_node_of required optional e)) = deps_of required (ie_id e)"
  by (simp add: resolved_node_of_def in_dedup deps_of_def)

lemma rn_optional_deps: "set (rn_optional (resolved_node_of required optional e)) = deps_of optional (ie_id e)"
  by (simp add: resolved_node_of_def in_dedup deps_of_def)

lemma node_fields [simp]:
  "rn_id (resolved_node_of r o' e) = ie_id e" "rn_version (resolved_node_of r o' e) = ie_version e"
  "rn_package (resolved_node_of r o' e) = ie_package_name e" "rn_kind (resolved_node_of r o' e) = mf_kind (im_manifest (ie_installed e))"
  "rn_integrity (resolved_node_of r o' e) = pk_integrity (im_package (ie_installed e))"
  by (simp_all add: resolved_node_of_def)

lemma assemble_fields [simp]:
  "rg_plugins (assemble_graph active required optional sels) = map (resolved_node_of required optional) active"
  "rg_order (assemble_graph active required optional sels) = dependency_first_order (map ie_id active) required"
  by (simp_all add: assemble_graph_def)

lemma entry_fields [simp]:
  "ie_id (installed_entry_of m) = mf_id (im_manifest m)" "ie_installed (installed_entry_of m) = m"
  "ie_version (installed_entry_of m) = pk_version (im_package m)"
  "ie_package_name (installed_entry_of m) = pk_name (im_package m)"
  by (simp_all add: installed_entry_of_def)

text \<open>The entry behind an active node and an installed manifest with its identifier.\<close>

lemma node_entry:
  assumes "resolution sv plugins providers installed g entries active by_id explicit required optional sels"
    "p \<in> set (rg_plugins g)" "m \<in> set installed" "mf_id (im_manifest m) = rn_id p"
  shows "p = resolved_node_of required optional (installed_entry_of m)" "installed_entry_of m \<in> set active"
proof -
  have r: "g = assemble_graph active required optional sels" "inj_on ie_id (installed_entry_of ` set installed)"
    "set active \<subseteq> installed_entry_of ` set installed"
    using assms(1) by (auto simp: resolution_def)
  obtain e where e: "e \<in> set active" "p = resolved_node_of required optional e" using assms(2) r(1) by auto
  then have "e = installed_entry_of m"
    using inj_onD [OF r(2), of e "installed_entry_of m"] assms(3,4) r(3) by auto
  then show "p = resolved_node_of required optional (installed_entry_of m)" "installed_entry_of m \<in> set active"
    using e by auto
qed

lemma active_entry:
  assumes "resolution sv plugins providers installed g entries active by_id explicit required optional sels"
  shows "map_of by_id i = Some e \<longleftrightarrow> e \<in> set active \<and> ie_id e = i"
    "e \<in> set active \<Longrightarrow> \<exists>m \<in> set installed. e = installed_entry_of m"
    "e \<in> set active \<Longrightarrow> resolved_node_of required optional e \<in> set (rg_plugins g)"
  using assms by (auto simp: resolution_def keyed_map_of)

lemma provider_of_selection:
  assumes "resolution sv plugins providers installed g entries active by_id explicit required optional sels"
    "map_of sels cap = Some s"
  shows "\<lparr>rp_capability = cap, rp_plugin = cs_plugin s, rp_version = cs_version s\<rparr> \<in> set (rg_providers g)"
proof -
  have "(cap, s) \<in> set sels" using assms(2) by (rule map_of_SomeD)
  then show ?thesis using assms(1) by (force simp: resolution_def assemble_graph_def)
qed

subsection \<open>The activated plugins\<close>

text \<open>Resolution activates exactly the enabled requested plugins and the plugins selected as
  capability providers, each once and in the order of their identifiers; every node carries the
  package name, version and integrity of its installed manifest, at the exact version requested.\<close>

theorem active_plugins_exact:
  assumes "resolve_platform_plugin_graph sv plugins providers installed = Inr g"
  shows "set (map rn_id (rg_plugins g)) =
      {rq_id r |r. r \<in> set plugins \<and> rq_enabled r} \<union> {pq_plugin q |c q. (c, q) \<in> set providers} \<and>
    sorted (map rn_id (rg_plugins g)) \<and> distinct (map rn_id (rg_plugins g)) \<and>
    (\<forall>p \<in> set (rg_plugins g). \<exists>m \<in> set installed. rn_id p = mf_id (im_manifest m) \<and>
       rn_kind p = mf_kind (im_manifest m) \<and> rn_package p = pk_name (im_package m) \<and>
       rn_version p = pk_version (im_package m) \<and> rn_integrity p = pk_integrity (im_package m)) \<and>
    (\<forall>r \<in> set plugins. rq_enabled r \<longrightarrow> (\<exists>p \<in> set (rg_plugins g).
       rn_id p = rq_id r \<and> rn_version p = rq_version r \<and> rn_package p = rq_package r)) \<and>
    (\<forall>(c, q) \<in> set providers. \<exists>p \<in> set (rg_plugins g).
       rn_id p = pq_plugin q \<and> rn_version p = pq_version q \<and> rn_package p = pq_package q)"
proof -
  from assms obtain entries active by_id explicit required optional sels where
    res: "resolution sv plugins providers installed g entries active by_id explicit required optional sels"
    by (rule resolve_Inr)
  then have r: "g = assemble_graph active required optional sels" "distinct (map ie_id active)"
    "sorted (map ie_id active)"
    "\<forall>e \<in> set active. (\<exists>r \<in> set plugins. rq_enabled r \<and> plugin_requested r e) \<or>
        (\<exists>(c, q) \<in> set providers. provider_requested q e)"
    "\<forall>r \<in> set plugins. rq_enabled r \<longrightarrow> (\<exists>e \<in> set active. plugin_requested r e)"
    "\<forall>(c, q) \<in> set providers. \<exists>e \<in> set active. provider_requested q e"
    unfolding resolution_def by blast+
  have ids: "map rn_id (rg_plugins g) = map ie_id active" by (simp add: r(1) comp_def)
  have "set (map rn_id (rg_plugins g)) =
      {rq_id r |r. r \<in> set plugins \<and> rq_enabled r} \<union> {pq_plugin q |c q. (c, q) \<in> set providers}"
  proof (intro equalityI subsetI)
    fix i assume "i \<in> set (map rn_id (rg_plugins g))"
    then obtain e where "e \<in> set active" "i = ie_id e" unfolding ids by auto
    then show "i \<in> {rq_id r |r. r \<in> set plugins \<and> rq_enabled r} \<union> {pq_plugin q |c q. (c, q) \<in> set providers}"
      using r(4) by (fastforce simp: plugin_requested_def provider_requested_def)
  next
    fix i assume "i \<in> {rq_id r |r. r \<in> set plugins \<and> rq_enabled r} \<union> {pq_plugin q |c q. (c, q) \<in> set providers}"
    then show "i \<in> set (map rn_id (rg_plugins g))"
      unfolding ids using r(5,6) by (fastforce simp: plugin_requested_def provider_requested_def)
  qed
  moreover have "\<exists>m \<in> set installed. rn_id p = mf_id (im_manifest m) \<and>
       rn_kind p = mf_kind (im_manifest m) \<and> rn_package p = pk_name (im_package m) \<and>
       rn_version p = pk_version (im_package m) \<and> rn_integrity p = pk_integrity (im_package m)"
    if "p \<in> set (rg_plugins g)" for p
    using that active_entry(2) [OF res] by (force simp: r(1))
  moreover have "\<forall>r \<in> set plugins. rq_enabled r \<longrightarrow> (\<exists>p \<in> set (rg_plugins g).
       rn_id p = rq_id r \<and> rn_version p = rq_version r \<and> rn_package p = rq_package r)"
    using r(5) by (force simp: r(1) plugin_requested_def)
  moreover have "\<forall>(c, q) \<in> set providers. \<exists>p \<in> set (rg_plugins g).
       rn_id p = pq_plugin q \<and> rn_version p = pq_version q \<and> rn_package p = pq_package q"
    using r(6) by (force simp: r(1) provider_requested_def)
  ultimately show ?thesis using r(2,3) unfolding ids by blast
qed

subsection \<open>Dependencies and capabilities\<close>

text \<open>Every plugin dependency that an active plugin requires is met by an active plugin whose
  version the declared range accepts, and it is an edge of the returned graph.\<close>

theorem required_plugin_dependencies_met:
  assumes "resolve_platform_plugin_graph sv plugins providers installed = Inr g"
    and "p \<in> set (rg_plugins g)" "m \<in> set installed" "mf_id (im_manifest m) = rn_id p"
    and "PluginDep target rng \<in> set (mf_requires (im_manifest m))"
  shows "\<exists>t \<in> set (rg_plugins g). rn_id t = target \<and> sv_satisfies sv (rn_version t) rng \<and>
    target \<in> set (rn_required p)"
proof -
  from assms(1) obtain entries active by_id explicit required optional sels where
    res: "resolution sv plugins providers installed g entries active by_id explicit required optional sels"
    and met: "\<forall>e \<in> set active. \<forall>d \<in> set (mf_requires (im_manifest (ie_installed e))).
       met sv active by_id explicit required sels e d"
    by (rule resolve_Inr)
  note node = node_entry [OF res assms(2-4)]
  from met node(2) assms(5) have "met sv active by_id explicit required sels (installed_entry_of m) (PluginDep target rng)"
    by auto
  then obtain t where
    t: "t \<in> set active" "ie_id t = target" "sv_satisfies sv (ie_version t) rng"
      "target \<in> deps_of required (mf_id (im_manifest m))"
    by (auto simp: met_def active_entry(1) [OF res])
  show ?thesis
    by (rule bexI [OF _ active_entry(3) [OF res t(1)]]) (use t node in \<open>simp add: rn_required_deps\<close>)
qed

text \<open>C16: Every capability that an active plugin requires is served by exactly one selected
  provider: an active plugin that declares the selected version, which the consumer's range
  accepts; it is an edge of the graph, and it is the requested provider when one is requested.\<close>

theorem required_capabilities_served:
  assumes "resolve_platform_plugin_graph sv plugins providers installed = Inr g"
    and "p \<in> set (rg_plugins g)" "m \<in> set installed" "mf_id (im_manifest m) = rn_id p"
    and "CapabilityDep cap rng \<in> set (mf_requires (im_manifest m))"
    and "distinct (map fst providers)"
  shows "\<exists>v \<in> set (rg_providers g). rp_capability v = cap \<and> sv_satisfies sv (rp_version v) rng \<and>
    rp_plugin v \<in> set (rn_required p) \<and>
    (\<exists>n \<in> set installed. mf_id (im_manifest n) = rp_plugin v \<and> rp_plugin v \<in> set (map rn_id (rg_plugins g)) \<and>
       (\<exists>d \<in> set (mf_provides (im_manifest n)). pv_capability d = cap \<and> pv_version d = rp_version v)) \<and>
    (\<forall>q. (cap, q) \<in> set providers \<longrightarrow> rp_plugin v = pq_plugin q) \<and>
    (\<forall>w \<in> set (rg_providers g). rp_capability w = cap \<longrightarrow> w = v)"
proof -
  from assms(1) obtain entries active by_id explicit required optional sels where
    res: "resolution sv plugins providers installed g entries active by_id explicit required optional sels"
    and met: "\<forall>e \<in> set active. \<forall>d \<in> set (mf_requires (im_manifest (ie_installed e))).
       met sv active by_id explicit required sels e d"
    by (rule resolve_Inr)
  note node = node_entry [OF res assms(2-4)]
  from met node(2) assms(5) have "met sv active by_id explicit required sels (installed_entry_of m) (CapabilityDep cap rng)"
    by auto
  then obtain s rs where
    s: "map_of sels cap = Some s" "serves sv (set active) explicit cap rs s"
      "\<lparr>cr_consumer = mf_id (im_manifest m), cr_range = rng\<rparr> \<in> set rs"
      "cs_plugin s \<in> deps_of required (mf_id (im_manifest m))"
    by (auto simp: met_def)
  from s(2) obtain e where e: "e \<in> set active" "ie_id e = cs_plugin s"
    "cs_version s \<in> set (provided_versions e cap)"
    by (auto simp: serves_def)
  then obtain n where n: "n \<in> set installed" "e = installed_entry_of n" using active_entry(2) [OF res] by blast
  have provides: "\<exists>d \<in> set (mf_provides (im_manifest n)). pv_capability d = cap \<and> pv_version d = cs_version s"
    using e(3) n(2) by (auto simp: provided_versions_def in_dedup)
  have explicit: "cs_plugin s = pq_plugin q" if "(cap, q) \<in> set providers" for q
  proof -
    have ex: "\<forall>(c, q) \<in> set providers. map_of explicit c \<noteq> None"
      "\<forall>c e. map_of explicit c = Some e \<longrightarrow> (\<exists>q. (c, q) \<in> set providers \<and> provider_requested q e)"
      using res unfolding resolution_def by blast+
    with that obtain f q' where f: "map_of explicit cap = Some f" "(cap, q') \<in> set providers" "provider_requested q' f"
      by fast
    moreover have "q' = q" using f(2) that assms(6) by (metis map_of_is_SomeI option.inject)
    ultimately show ?thesis using s(2) by (simp add: serves_def provider_requested_def)
  qed
  let ?v = "\<lparr>rp_capability = cap, rp_plugin = cs_plugin s, rp_version = cs_version s\<rparr>"
  have unique: "w = ?v" if "w \<in> set (rg_providers g)" "rp_capability w = cap" for w
  proof -
    have "g = assemble_graph active required optional sels" "distinct (map fst sels)"
      using res by (auto simp: resolution_def selections_ok_def)
    with that obtain s' where "(cap, s') \<in> set sels"
      "w = \<lparr>rp_capability = cap, rp_plugin = cs_plugin s', rp_version = cs_version s'\<rparr>"
      by (auto simp: assemble_graph_def)
    moreover from this have "s' = s"
      using s(1) \<open>distinct (map fst sels)\<close> by (metis map_of_is_SomeI option.inject)
    ultimately show ?thesis by simp
  qed
  have active: "cs_plugin s \<in> set (map rn_id (rg_plugins g))"
    using active_entry(3) [OF res e(1)] e(2) by force
  have "sv_satisfies sv (cs_version s) rng" using s(2,3) by (force simp: serves_def)
  then show ?thesis
    using s(4) node provides n e(2) explicit unique active
    by (intro bexI [OF _ provider_of_selection [OF res s(1)]]) (auto simp: rn_required_deps)
qed

subsection \<open>Conflicts\<close>

lemma validate_conflicts_Inr:
  assumes "validate_conflicts sv active by_id = Inr ()" "e \<in> set active"
    "d \<in> set (mf_conflicts (im_manifest (ie_installed e)))"
  shows "validate_conflict sv active by_id e d = Inr ()"
  using assms by (auto simp: validate_conflicts_def res_fold_unit sorted_dependencies_def)

text \<open>No two active plugins are in a declared conflict: a plugin conflict of an active manifest
  names no active plugin at a version in its range, and a capability conflict names no capability
  that an active plugin provides at a version in its range.\<close>

theorem no_active_conflict:
  assumes "resolve_platform_plugin_graph sv plugins providers installed = Inr g"
    and "p \<in> set (rg_plugins g)" "m \<in> set installed" "mf_id (im_manifest m) = rn_id p"
    and "d \<in> set (mf_conflicts (im_manifest m))"
    and "t \<in> set (rg_plugins g)" "n \<in> set installed" "mf_id (im_manifest n) = rn_id t"
    and "well_formed_installed n"
  shows "case d of
      PluginDep target rng \<Rightarrow> \<not> (rn_id t = target \<and> sv_satisfies sv (rn_version t) rng)
    | CapabilityDep cap rng \<Rightarrow> \<forall>v \<in> set (mf_provides (im_manifest n)).
        \<not> (pv_capability v = cap \<and> sv_satisfies sv (pv_version v) rng)"
proof -
  from assms(1) obtain entries active by_id explicit required optional sels where
    res: "resolution sv plugins providers installed g entries active by_id explicit required optional sels"
    by (rule resolve_Inr)
  note node = node_entry [OF res assms(2-4)]
  note other = node_entry [OF res assms(6-8)]
  have "validate_conflicts sv active by_id = Inr ()" using res by (simp add: resolution_def)
  from validate_conflicts_Inr [OF this node(2), of d] assms(5)
  have ok: "validate_conflict sv active by_id (installed_entry_of m) d = Inr ()" by simp
  show ?thesis
  proof (cases d)
    case (PluginDep target rng)
    have "map_of by_id (ie_id (installed_entry_of n)) = Some (installed_entry_of n)"
      using active_entry(1) [OF res] other(2) by blast
    then show ?thesis
      using ok other(1) PluginDep by (auto simp: validate_conflict_def split: option.splits)
  next
    case (CapabilityDep cap rng)
    have no: "\<not> sv_satisfies sv (pv_version v) rng"
      if v: "v \<in> set (mf_provides (im_manifest n))" "pv_capability v = cap" for v
    proof
      assume "sv_satisfies sv (pv_version v) rng"
      moreover have "pv_version v \<in> set (provided_versions (installed_entry_of n) cap)"
        using v by (force simp: provided_versions_def in_dedup)
      ultimately have "select_provided_version sv (installed_entry_of n) cap [rng] \<noteq> None"
        unfolding select_provided_version_None by auto
      then obtain w where w: "select_provided_version sv (installed_entry_of n) cap [rng] = Some w" by blast
      then have "w \<in> set (provided_versions (installed_entry_of n) cap)"
        by (auto dest: select_provided_version_Some)
      moreover have "w \<noteq> []"
        using assms(9) calculation by (auto simp: provided_versions_def in_dedup well_formed_installed_def)
      ultimately have "w \<noteq> []" "installed_entry_of n \<in> set (active_providers active cap)"
        using other(2) by (auto simp: active_providers_def)
      then show False
        using ok w CapabilityDep by (auto simp: validate_conflict_def res_fold_unit)
    qed
    then show ?thesis using CapabilityDep by auto
  qed
qed

subsection \<open>The registration order\<close>

lemma resolution_graph_over:
  assumes "resolution sv plugins providers installed g entries active by_id explicit required optional sels"
    "\<forall>m \<in> set installed. well_formed_installed m"
  shows "graph_over (map ie_id active) required"
proof -
  have "distinct (map ie_id active)" "edges_within (ie_id ` set active) required"
    using assms(1) by (auto simp: resolution_def)
  moreover have "[] \<notin> set (map ie_id active)"
    using active_entry(2) [OF assms(1)] assms(2) by (force simp: well_formed_installed_def)
  ultimately show ?thesis by (simp add: graph_over_def edges_within_def)
qed

text \<open>C15: The registration order of a resolved graph lists every active plugin exactly once, each
  after all the plugins it requires, and the graph is closed: edges and providers only name active
  plugins.\<close>

theorem registration_order:
  assumes "resolve_platform_plugin_graph sv plugins providers installed = Inr g"
    and "\<forall>m \<in> set installed. well_formed_installed m"
  shows "distinct (rg_order g) \<and> set (rg_order g) = rn_id ` set (rg_plugins g) \<and>
    (\<forall>p \<in> set (rg_plugins g). \<forall>before after. rg_order g = before @ rn_id p # after \<longrightarrow>
       set (rn_required p) \<subseteq> set before) \<and>
    (\<forall>p \<in> set (rg_plugins g). set (rn_required p) \<union> set (rn_optional p) \<subseteq> set (rg_order g)) \<and>
    rp_plugin ` set (rg_providers g) \<subseteq> set (rg_order g)"
proof -
  from assms(1) obtain entries active by_id explicit required optional sels where
    res: "resolution sv plugins providers installed g entries active by_id explicit required optional sels"
    by (rule resolve_Inr)
  have r: "g = assemble_graph active required optional sels" "shortest_required_cycle required = None"
    "edges_within (ie_id ` set active) required" "edges_within (ie_id ` set active) optional"
    "selections_ok (set active) sels"
    using res unfolding resolution_def by blast+
  note graph = resolution_graph_over [OF res assms(2)]
  note part = dependency_first_order_partial [OF graph]
  have all: "set (rg_order g) = ie_id ` set active"
    using dependency_first_order_complete [OF graph no_cycle_acyclic [OF r(2)]] r(1) by simp
  have before: "set (rn_required p) \<subseteq> set before"
    if "p \<in> set (rg_plugins g)" "rg_order g = before @ rn_id p # after" for p before after
  proof -
    obtain e where "p = resolved_node_of required optional e" using \<open>p \<in> _\<close> r(1) by auto
    then show ?thesis using part(3) that(2) by (simp add: r(1) after_deps_def rn_required_deps)
  qed
  have "rp_plugin ` set (rg_providers g) \<subseteq> ie_id ` set active"
  proof
    fix i assume "i \<in> rp_plugin ` set (rg_providers g)"
    then obtain c s where "(c, s) \<in> set sels" "i = cs_plugin s"
      by (auto simp: r(1) assemble_graph_def)
    then have "map_of sels c = Some s" using r(5) by (simp add: selections_ok_def)
    then show "i \<in> ie_id ` set active" using r(5) \<open>i = cs_plugin s\<close> by (force simp: selections_ok_def)
  qed
  moreover have "set (rn_required p) \<union> set (rn_optional p) \<subseteq> ie_id ` set active"
    if "p \<in> set (rg_plugins g)" for p
  proof -
    obtain e where "p = resolved_node_of required optional e" using \<open>p \<in> _\<close> r(1) by auto
    then show ?thesis using r(3,4) by (simp add: rn_required_deps rn_optional_deps edges_within_def)
  qed
  moreover have "ie_id ` set active = rn_id ` set (rg_plugins g)" by (simp add: r(1) image_image)
  ultimately show ?thesis using part(1) all before by (simp add: r(1))
qed

subsection \<open>Determinism\<close>

lemma nul_join_first:
  "nul_free a \<Longrightarrow> nul_free b \<Longrightarrow> nul_join (a # s # ss) = nul_join (b # t # tt) \<Longrightarrow> a = b"
  unfolding nul_join_Cons_Cons by (rule nul_free_split(1))

lemma request_duplicate_ids:
  "res_fold request_duplicate_step rs (ids, packages) = Inr out \<Longrightarrow>
   distinct (map rq_id rs) \<and> rq_id ` set rs \<inter> set ids = {}"
proof (induction rs arbitrary: ids packages)
  case (Cons r rs)
  then have "rq_id r \<notin> set ids"
    "res_fold request_duplicate_step rs (set_add (rq_id r) ids, set_add (rq_package r) packages) = Inr out"
    by (auto split: if_splits)
  then show ?case using Cons.IH by fastforce
qed simp

lemma activate_plugin_known:
  "res_fold (activate_plugin ix) rs a = Inr b \<Longrightarrow> r \<in> set rs \<Longrightarrow> map_of (ix_by_id ix) (rq_id r) \<noteq> None"
  by (erule res_fold_split)
    (auto simp: activate_plugin_def identity_from_plugin_request_def dest!: reconcile_identity_Inr(1))

lemma distinct_map_inj: "distinct (map f xs) \<Longrightarrow> inj_on f (set xs)"
  by (simp add: distinct_map)

lemma resolver_sees_sorted_inputs:
  assumes "sort_key request_key plugins' = sort_key request_key plugins"
    "sort_key fst providers' = sort_key fst providers"
    "sort_key installed_key (map installed_entry_of installed') = sort_key installed_key (map installed_entry_of installed)"
  shows "resolve_platform_plugin_graph sv plugins' providers' installed' =
    resolve_platform_plugin_graph sv plugins providers installed"
  using assms
  by (simp add: resolve_platform_plugin_graph_def build_installed_indexes_def Let_def
      validate_plugin_request_duplicates_def activate_all_def)

text \<open>The resolved graph does not depend on the order in which the requested plugins, the
  provider selections and the installed manifests are given.\<close>

theorem input_order_irrelevant:
  assumes "resolve_platform_plugin_graph sv plugins providers installed = Inr g"
    and "\<forall>m \<in> set installed. well_formed_installed m"
    and "distinct (map fst providers)"
    and "mset plugins' = mset plugins" "mset providers' = mset providers" "mset installed' = mset installed"
  shows "resolve_platform_plugin_graph sv plugins' providers' installed' = Inr g"
proof -
  from assms(1) obtain ix a ids packages where
    ix: "build_installed_indexes installed = Inr ix"
    and dup: "res_fold request_duplicate_step (sort_key request_key plugins) ([], []) = Inr (ids, packages)"
    and act: "res_fold (activate_plugin ix) (sort_key request_key plugins) \<lparr>ac_requested = [], ac_by_id = []\<rparr> = Inr a"
    by (auto simp: resolve_platform_plugin_graph_def validate_plugin_request_duplicates_def
        activate_all_def Let_def)
  note B = build_index [OF ix]
  have inj: "inj_on ie_id (installed_entry_of ` set installed)"
    using keyed_unique [OF B(1)] unfolding B(2) by (auto intro: inj_onI)
  have same_id: "ie_id x = ie_id y"
    if "x \<in> installed_entry_of ` set installed" "y \<in> installed_entry_of ` set installed"
      "installed_key x = installed_key y" for x y
  proof -
    have "nul_free (ie_id x)" "nul_free (ie_id y)" using that(1,2) assms(2) by (auto simp: well_formed_installed_def)
    then show ?thesis using that(3) unfolding installed_key_def by (rule nul_join_first)
  qed
  have inj_installed: "inj_on installed_key (set (map installed_entry_of installed))"
    unfolding set_map by (rule inj_onI) (rule inj_onD [OF inj same_id])
  have nul_plugins: "nul_free (rq_id r)" if "r \<in> set plugins" for r
  proof -
    have "map_of (ix_by_id ix) (rq_id r) \<noteq> None"
      using activate_plugin_known [OF act] that by simp
    then obtain e where "map_of (ix_by_id ix) (rq_id r) = Some e" by blast
    then have "e \<in> installed_entry_of ` set installed" "ie_id e = rq_id r"
      unfolding keyed_map_of [OF B(1)] B(2) by blast+
    then show ?thesis using assms(2) by (auto simp: well_formed_installed_def)
  qed
  have "distinct (map rq_id (sort_key request_key plugins))" using request_duplicate_ids [OF dup] by simp
  from distinct_map_inj [OF this] have "inj_on rq_id (set plugins)" by simp
  moreover have "rq_id x = rq_id y" if "x \<in> set plugins" "y \<in> set plugins" "request_key x = request_key y" for x y
    using that(3) unfolding request_key_def by (rule nul_join_first [OF nul_plugins [OF that(1)] nul_plugins [OF that(2)]])
  ultimately have inj_plugins: "inj_on request_key (set plugins)"
    unfolding inj_on_def by blast
  have "sort_key request_key plugins' = sort_key request_key plugins"
    by (rule sort_key_perm_unique) (use assms(4) inj_plugins mset_eq_setD in \<open>fastforce+\<close>)
  moreover have "sort_key fst providers' = sort_key fst providers"
    by (rule sort_key_perm_unique)
      (use assms(5) distinct_map_inj [OF assms(3)] mset_eq_setD in \<open>fastforce+\<close>)
  moreover have "sort_key installed_key (map installed_entry_of installed') =
      sort_key installed_key (map installed_entry_of installed)"
  proof (rule sort_key_perm_unique)
    show "mset (map installed_entry_of installed') = mset (map installed_entry_of installed)"
      using assms(6) by simp
    then show "inj_on installed_key (set (map installed_entry_of installed'))"
      using inj_installed mset_eq_setD by fastforce
  qed
  ultimately show ?thesis using resolver_sees_sorted_inputs assms(1) by metis
qed

subsection \<open>The cycle search\<close>

text \<open>C28: The search for a required cycle is exact: it returns a cycle of required edges, no required
  cycle is shorter than the returned one, and it returns none only if there is none.\<close>

theorem shortest_required_cycle_exact:
  "case shortest_required_cycle es of
     None \<Rightarrow> \<not> (\<exists>c. required_cycle es c)
   | Some c \<Rightarrow> required_cycle es c \<and> (\<forall>d. required_cycle es d \<longrightarrow> length c \<le> length d)"
  using shortest_required_cycle_sound shortest_required_cycle_at_most
  by (fastforce simp: at_most_def split: option.splits)

end
