(* ===== verification/PluginGraphExamples.thy ===== *)
theory PluginGraphExamples
  imports PluginGraphProperties
begin

text \<open>
  The properties of the resolver at a concrete input: a plugin that requires another one and a
  capability, the provider of the capability selected explicitly.
\<close>

definition sample_semver :: semver_ops where
  "sample_semver = \<lparr>sv_valid_range = (\<lambda>r. True), sv_satisfies = (\<lambda>v r. v = r), sv_prerelease = (\<lambda>v. False)\<rparr>"

definition sample_manifest :: "string \<Rightarrow> capability_provision list \<Rightarrow> dependency list \<Rightarrow> dependency list \<Rightarrow>
    installed_manifest" where
  "sample_manifest i provs reqs confs =
     \<lparr>im_package = \<lparr>pk_name = ''@k/'' @ i, pk_version = ''1'', pk_integrity = ''sha''\<rparr>,
      im_manifest = \<lparr>mf_id = i, mf_kind = ''feature'', mf_package = ''@k/'' @ i, mf_version = ''1'',
        mf_provides = provs, mf_requires = reqs, mf_optional = [], mf_conflicts = confs\<rparr>\<rparr>"

definition sample_installed :: "installed_manifest list" where
  "sample_installed =
     [sample_manifest ''a'' [] [PluginDep ''b'' ''1'', CapabilityDep ''c'' ''1''] [CapabilityDep ''c'' ''2''],
      sample_manifest ''b'' [] [] [],
      sample_manifest ''p'' [\<lparr>pv_capability = ''c'', pv_version = ''1''\<rparr>] [] []]"

definition sample_plugins :: "plugin_request list" where
  "sample_plugins =
     [\<lparr>rq_id = ''a'', rq_package = ''@k/a'', rq_version = ''1'', rq_enabled = True\<rparr>,
      \<lparr>rq_id = ''b'', rq_package = ''@k/b'', rq_version = ''1'', rq_enabled = True\<rparr>]"

definition sample_providers :: "(string, provider_request) js_map" where
  "sample_providers = [(''c'', \<lparr>pq_plugin = ''p'', pq_package = ''@k/p'', pq_version = ''1''\<rparr>)]"

definition sample_node :: "string \<Rightarrow> string list \<Rightarrow> resolved_node" where
  "sample_node i required = \<lparr>rn_id = i, rn_kind = ''feature'', rn_package = ''@k/'' @ i, rn_version = ''1'',
     rn_integrity = ''sha'', rn_required = required, rn_optional = []\<rparr>"

definition sample_graph :: resolved_graph where
  "sample_graph = \<lparr>rg_plugins = [sample_node ''a'' [''b'', ''p''], sample_node ''b'' [], sample_node ''p'' []],
     rg_providers = [\<lparr>rp_capability = ''c'', rp_plugin = ''p'', rp_version = ''1''\<rparr>],
     rg_order = [''b'', ''p'', ''a'']\<rparr>"

lemma sample_resolves:
  "resolve_platform_plugin_graph sample_semver sample_plugins sample_providers sample_installed = Inr sample_graph"
  by code_simp

lemma sample_well_formed: "\<forall>m \<in> set sample_installed. well_formed_installed m"
  by code_simp

lemmas sample_defs = sample_graph_def sample_node_def sample_installed_def sample_manifest_def
  sample_plugins_def sample_providers_def sample_semver_def

lemma active_plugins_exact_witness:
  "set (map rn_id (rg_plugins sample_graph)) =
     {rq_id r |r. r \<in> set sample_plugins \<and> rq_enabled r} \<union> {pq_plugin q |c q. (c, q) \<in> set sample_providers}"
  using active_plugins_exact [OF sample_resolves] by blast

lemma required_plugin_dependencies_met_witness:
  "\<exists>t \<in> set (rg_plugins sample_graph). rn_id t = ''b'' \<and> sv_satisfies sample_semver (rn_version t) ''1'' \<and>
     ''b'' \<in> set (rn_required (sample_node ''a'' [''b'', ''p'']))"
  by (rule required_plugin_dependencies_met [OF sample_resolves, where m = "hd sample_installed"])
    (simp_all add: sample_defs)

lemma required_capabilities_served_witness:
  "\<exists>v \<in> set (rg_providers sample_graph). rp_capability v = ''c'' \<and> sv_satisfies sample_semver (rp_version v) ''1''"
proof -
  have "sample_node ''a'' [''b'', ''p''] \<in> set (rg_plugins sample_graph)" "hd sample_installed \<in> set sample_installed"
    "mf_id (im_manifest (hd sample_installed)) = rn_id (sample_node ''a'' [''b'', ''p''])"
    "CapabilityDep ''c'' ''1'' \<in> set (mf_requires (im_manifest (hd sample_installed)))"
    "distinct (map fst sample_providers)"
    by (simp_all add: sample_defs)
  from required_capabilities_served [OF sample_resolves this] show ?thesis by blast
qed

lemma no_active_conflict_witness:
  "\<not> sv_satisfies sample_semver (pv_version (hd (mf_provides (im_manifest (sample_installed ! 2))))) ''2''"
proof -
  have "sample_node ''a'' [''b'', ''p''] \<in> set (rg_plugins sample_graph)" "hd sample_installed \<in> set sample_installed"
    "mf_id (im_manifest (hd sample_installed)) = rn_id (sample_node ''a'' [''b'', ''p''])"
    "CapabilityDep ''c'' ''2'' \<in> set (mf_conflicts (im_manifest (hd sample_installed)))"
    "sample_node ''p'' [] \<in> set (rg_plugins sample_graph)" "sample_installed ! 2 \<in> set sample_installed"
    "mf_id (im_manifest (sample_installed ! 2)) = rn_id (sample_node ''p'' [])"
    "well_formed_installed (sample_installed ! 2)"
    using sample_well_formed by (simp_all add: sample_defs)
  from no_active_conflict [OF sample_resolves this] show ?thesis by (simp add: sample_defs)
qed

lemma registration_order_witness:
  "distinct (rg_order sample_graph) \<and> set (rg_order sample_graph) = rn_id ` set (rg_plugins sample_graph)"
  using registration_order [OF sample_resolves sample_well_formed] by blast

lemma input_order_irrelevant_witness:
  "resolve_platform_plugin_graph sample_semver (rev sample_plugins) (rev sample_providers) (rev sample_installed)
     = Inr sample_graph"
proof -
  have "distinct (map fst sample_providers)" by (simp add: sample_defs)
  from input_order_irrelevant [OF sample_resolves sample_well_formed this]
  show ?thesis by simp
qed

lemma shortest_required_cycle_exact_witness:
  "shortest_required_cycle [(''a'', [''b'']), (''b'', [''a''])] = Some [''a'', ''b'', ''a''] \<and>
   required_cycle [(''a'', [''b'']), (''b'', [''a''])] [''a'', ''b'', ''a'']"
proof -
  have run: "shortest_required_cycle [(''a'', [''b'']), (''b'', [''a''])] = Some [''a'', ''b'', ''a'']"
    by code_simp
  then show ?thesis
    using shortest_required_cycle_exact [of "[(''a'', [''b'']), (''b'', [''a''])]"] by simp
qed

end
