(* ===== verification/CanonicalJson.thy ===== *)
theory CanonicalJson
  imports Prelude "HOL-Library.Word"
begin

text \<open>
  JavaScript data and canonical JSON: \<open>packages/contracts/src/canonical-json.ts\<close>.

  An object graph is a list of objects, a reference is an index into it, so sharing and circular
  references are values like any other. \<open>assertJsonValue\<close> walks the graph with the set of its
  ancestors; \<open>read_json\<close> returns with the verdict the tree that \<open>sortValue\<close> walks afterwards.
  Numbers are integers or non-finite. The path in the message of a \<open>TypeError\<close> is left out.
\<close>

subsection \<open>Object graphs and JSON trees\<close>

datatype js_number = Finite int | NonFinite

datatype js_value = JsUndefined | JsFunction | JsNull | JsBool bool | JsNumber js_number | JsString string | JsRef nat

text \<open>The properties of a plain object: enumerable data properties, or accessors and hidden ones.\<close>

datatype js_property = DataProperty js_value | OtherProperty

datatype js_key = StringKey string | SymbolKey

datatype js_object =
    JsArray (elements: "js_value option list") (extra_keys: bool)
  | JsObject (plain: bool) (properties: "(js_key \<times> js_property) list")

type_synonym js_data = "js_object list \<times> js_value"

datatype json = JNull | JBool bool | JNum int | JStr string | JArr "json list" | JObj "(string \<times> json) list"

datatype json_error =
    NonFiniteNumber | UnsupportedType | CircularReference | UnsupportedArrayProperty | ArrayHole
  | NonPlainObject | SymbolProperty | NotADataProperty

text \<open>Sequential reading of a list whose items may fail.\<close>

fun res_map :: "('a \<Rightarrow> 'e + 'b) \<Rightarrow> 'a list \<Rightarrow> 'e + 'b list" where
  "res_map f [] = Inr []"
| "res_map f (x # xs) = res_bind (f x) (\<lambda>y. res_bind (res_map f xs) (\<lambda>ys. Inr (y # ys)))"

lemma res_map_cong [fundef_cong]:
  "xs = ys \<Longrightarrow> (\<And>x. x \<in> set ys \<Longrightarrow> f x = g x) \<Longrightarrow> res_map f xs = res_map g ys"
proof (induction ys arbitrary: xs)
  case (Cons y ys)
  then have "res_map f ys = res_map g ys" by simp
  then show ?case using Cons.prems by simp
qed simp

lemma res_map_Inr: "res_map f xs = Inr ys \<longleftrightarrow> list_all2 (\<lambda>x y. f x = Inr y) xs ys"
  by (induction xs arbitrary: ys) (auto simp: list_all2_Cons1)

subsection \<open>\<open>assertJsonValue\<close>\<close>

function read_json :: "js_object list \<Rightarrow> nat list \<Rightarrow> js_value \<Rightarrow> json_error + json" where
  "read_json h ancestors v =
     (case v of
        JsNull \<Rightarrow> Inr JNull
      | JsString s \<Rightarrow> Inr (JStr s)
      | JsBool b \<Rightarrow> Inr (JBool b)
      | JsNumber (Finite n) \<Rightarrow> Inr (JNum n)
      | JsNumber NonFinite \<Rightarrow> Inl NonFiniteNumber
      | JsUndefined \<Rightarrow> Inl UnsupportedType
      | JsFunction \<Rightarrow> Inl UnsupportedType
      | JsRef a \<Rightarrow>
          if a \<in> set ancestors \<or> \<not> a < length h then Inl CircularReference
          else (case h ! a of
              JsArray items extra \<Rightarrow>
                if extra then Inl UnsupportedArrayProperty
                else res_bind (res_map (\<lambda>item. case item of
                         None \<Rightarrow> Inl ArrayHole
                       | Some w \<Rightarrow> read_json h (a # ancestors) w) items) (\<lambda>ts. Inr (JArr ts))
            | JsObject is_plain props \<Rightarrow>
                if \<not> is_plain then Inl NonPlainObject
                else res_bind (res_map (\<lambda>(k, p). case k of
                         SymbolKey \<Rightarrow> Inl SymbolProperty
                       | StringKey name \<Rightarrow> (case p of
                           OtherProperty \<Rightarrow> Inl NotADataProperty
                         | DataProperty w \<Rightarrow>
                             res_bind (read_json h (a # ancestors) w) (\<lambda>t. Inr (name, t)))) props)
                       (\<lambda>ts. Inr (JObj ts))))"
  by pat_completeness auto
termination
proof (relation "measure (\<lambda>(h, ancestors, _). card ({..< length h} - set ancestors))", goal_cases)
  case 1
  show ?case by simp
next
  case (2 h ancestors v a items extra item w)
  have "{..< length h} - set (a # ancestors) \<subset> {..< length h} - set ancestors" using 2 by auto
  then show ?case by (auto intro: psubset_card_mono)
next
  case (3 h ancestors v a is_plain props k p name w)
  have "{..< length h} - set (a # ancestors) \<subset> {..< length h} - set ancestors" using 3 by auto
  then show ?case by (auto intro: psubset_card_mono)
qed

declare read_json.simps [simp del]

subsection \<open>\<open>sortValue\<close> and \<open>JSON.stringify\<close>\<close>

text \<open>
  Own keys that are array indices come first and in numeric order in every JavaScript object,
  whatever the order of insertion; the other keys follow in the order of insertion.
\<close>

definition digits_value :: "string \<Rightarrow> int" where
  "digits_value s = fold (\<lambda>c n. 10 * n + (of_char c - 48)) s 0"

definition is_array_index :: "string \<Rightarrow> bool" where
  "is_array_index s \<longleftrightarrow> s \<noteq> [] \<and> (\<forall>c \<in> set s. is_digit c) \<and> (hd s \<noteq> CHR ''0'' \<or> s = ''0'') \<and>
     digits_value s < 4294967295"

definition own_key_order :: "(string \<times> 'a) list \<Rightarrow> (string \<times> 'a) list" where
  "own_key_order kvs =
     sort_key (digits_value \<circ> fst) (filter (is_array_index \<circ> fst) kvs) @ filter (Not \<circ> is_array_index \<circ> fst) kvs"

fun sort_value :: "json \<Rightarrow> json" where
  "sort_value (JArr ts) = JArr (map sort_value ts)"
| "sort_value (JObj kvs) = JObj (own_key_order (map (\<lambda>(k, t). (k, sort_value t)) (sort_key fst kvs)))"
| "sort_value t = t"

definition hex_digit :: "int \<Rightarrow> char" where
  "hex_digit n = ''0123456789abcdef'' ! nat (n mod 16)"

definition quote_char :: "char \<Rightarrow> string" where
  "quote_char c =
     (if c = CHR 0x22 then [CHR 0x5C, CHR 0x22]
      else if c = CHR 0x5C then [CHR 0x5C, CHR 0x5C]
      else if c = CHR 0x08 then [CHR 0x5C, CHR ''b'']
      else if c = CHR 0x09 then [CHR 0x5C, CHR ''t'']
      else if c = CHR 0x0A then [CHR 0x5C, CHR ''n'']
      else if c = CHR 0x0C then [CHR 0x5C, CHR ''f'']
      else if c = CHR 0x0D then [CHR 0x5C, CHR ''r'']
      else if (of_char c :: int) < 32
      then [CHR 0x5C, CHR ''u'', CHR ''0'', CHR ''0'', hex_digit (of_char c div 16), hex_digit (of_char c)]
      else [c])"

definition quote_json :: "string \<Rightarrow> string" where
  "quote_json s = CHR 0x22 # concat (map quote_char s) @ [CHR 0x22]"

text \<open>Decimal digits of a number that is not negative.\<close>

function digits_text :: "int \<Rightarrow> string" where
  "digits_text n = (if n < 10 then [char_of (48 + n)] else digits_text (n div 10) @ [char_of (48 + n mod 10)])"
  by pat_completeness auto
termination by (relation "measure nat") auto

declare digits_text.simps [simp del]

definition int_text :: "int \<Rightarrow> string" where
  "int_text i = (if i < 0 then CHR ''-'' # digits_text (- i) else digits_text i)"

definition newline_indent :: "nat \<Rightarrow> string" where
  "newline_indent d = CHR 0x0A # replicate (2 * d) CHR 0x20"

text \<open>\<open>JSON.stringify(value, null, 2)\<close> at nesting depth \<open>d\<close>.\<close>

fun comma_join :: "string \<Rightarrow> string list \<Rightarrow> string" where
  "comma_join sep [] = []"
| "comma_join sep [x] = x"
| "comma_join sep (x # y # ys) = x @ CHR '','' # sep @ comma_join sep (y # ys)"

function stringify :: "nat \<Rightarrow> json \<Rightarrow> string" where
  "stringify d JNull = ''null''"
| "stringify d (JBool b) = (if b then ''true'' else ''false'')"
| "stringify d (JNum n) = int_text n"
| "stringify d (JStr s) = quote_json s"
| "stringify d (JArr ts) =
     (if ts = [] then ''[]''
      else CHR ''['' # newline_indent (Suc d) @
        comma_join (newline_indent (Suc d)) (map (stringify (Suc d)) ts) @ newline_indent d @ '']'')"
| "stringify d (JObj kvs) =
     (if kvs = [] then ''{}''
      else CHR ''{'' # newline_indent (Suc d) @
        comma_join (newline_indent (Suc d))
          (map (\<lambda>(k, t). quote_json k @ '': '' @ stringify (Suc d) t) kvs) @ newline_indent d @ ''}'')"
  by pat_completeness auto
termination
proof (relation "measure (\<lambda>(_, t). size t)", goal_cases)
  case (2 d ts t)
  then show ?case by (simp add: size_list_estimation' less_Suc_eq_le)
next
  case (3 d kvs x k t)
  then show ?case by (force simp: less_Suc_eq_le intro: order_trans [OF _ size_list_estimation'])
qed simp

text \<open>The canonical text of a tree, and of a value that may not be JSON.\<close>

definition canonical_text :: "json \<Rightarrow> string" where
  "canonical_text t = stringify 0 (sort_value t) @ [CHR 0x0A]"

definition canonical_json :: "js_data \<Rightarrow> json_error + string" where
  "canonical_json = (\<lambda>(h, v). res_bind (read_json h [] v) (\<lambda>t. Inr (canonical_text t)))"

subsection \<open>\<open>sha256CanonicalJson\<close>\<close>

unbundle bit_operations_syntax

type_synonym u8 = "8 word"
type_synonym u32 = "32 word"

text \<open>\<open>TextEncoder\<close> on code units below 256.\<close>

definition utf8_char :: "char \<Rightarrow> u8 list" where
  "utf8_char c =
     (let n = (of_char c :: int)
      in if n < 128 then [word_of_int n] else [word_of_int (192 + n div 64), word_of_int (128 + n mod 64)])"

definition utf8 :: "string \<Rightarrow> u8 list" where
  "utf8 s = concat (map utf8_char s)"

text \<open>The source writes these tables in hexadecimal.\<close>

definition initial_state :: "u32 list" where
  "initial_state = [1779033703, 3144134277, 1013904242, 2773480762, 1359893119, 2600822924, 528734635, 1541459225]"

definition sha256_constants :: "u32 list" where
  "sha256_constants =
  [1116352408, 1899447441, 3049323471, 3921009573, 961987163, 1508970993, 2453635748, 2870763221,
   3624381080, 310598401, 607225278, 1426881987, 1925078388, 2162078206, 2614888103, 3248222580,
   3835390401, 4022224774, 264347078, 604807628, 770255983, 1249150122, 1555081692, 1996064986,
   2554220882, 2821834349, 2952996808, 3210313671, 3336571891, 3584528711, 113926993, 338241895,
   666307205, 773529912, 1294757372, 1396182291, 1695183700, 1986661051, 2177026350, 2456956037,
   2730485921, 2820302411, 3259730800, 3345764771, 3516065817, 3600352804, 4094571909, 275423344,
   430227734, 506948616, 659060556, 883997877, 958139571, 1322822218, 1537002063, 1747873779,
   1955562222, 2024104815, 2227730452, 2361852424, 2428436474, 2756734187, 3204031479, 3329325298]"

definition be_bytes :: "u32 \<Rightarrow> u8 list" where
  "be_bytes w = [ucast (drop_bit 24 w), ucast (drop_bit 16 w), ucast (drop_bit 8 w), ucast w]"

definition padded_length :: "nat \<Rightarrow> nat" where
  "padded_length n = (n + 9 + 63) div 64 * 64"

text \<open>The padded message: the marker byte, zeros, and the bit length in two big-endian words.\<close>

definition pad_message :: "u8 list \<Rightarrow> u8 list" where
  "pad_message bytes =
     (let bit_length = int (length bytes) * 8; total = padded_length (length bytes)
      in bytes @ 0x80 # replicate (total - length bytes - 9) 0 @
         be_bytes (word_of_int (bit_length div 0x100000000)) @ be_bytes (word_of_int bit_length))"

definition rotate :: "u32 \<Rightarrow> nat \<Rightarrow> u32" where
  "rotate v bits = drop_bit bits v OR push_bit (32 - bits) v"

fun read_words :: "u8 list \<Rightarrow> u32 list" where
  "read_words (a # b # c # d # rest) =
     (push_bit 24 (ucast a) OR push_bit 16 (ucast b) OR push_bit 8 (ucast c) OR ucast d) # read_words rest"
| "read_words _ = []"

definition schedule_word :: "u32 list \<Rightarrow> nat \<Rightarrow> u32" where
  "schedule_word ws i =
     (let left = ws ! (i - 15); right = ws ! (i - 2);
          sigma0 = rotate left 7 XOR rotate left 18 XOR drop_bit 3 left;
          sigma1 = rotate right 17 XOR rotate right 19 XOR drop_bit 10 right
      in ws ! (i - 16) + sigma0 + ws ! (i - 7) + sigma1)"

definition message_schedule :: "u8 list \<Rightarrow> u32 list" where
  "message_schedule block = fold (\<lambda>i ws. ws @ [schedule_word ws i]) [16..<64] (read_words block)"

type_synonym sha_state = "u32 \<times> u32 \<times> u32 \<times> u32 \<times> u32 \<times> u32 \<times> u32 \<times> u32"

definition sha_round :: "u32 \<times> u32 \<Rightarrow> sha_state \<Rightarrow> sha_state" where
  "sha_round = (\<lambda>(constant, word) (a, b, c, d, e, f, g, h).
     let sum1 = rotate e 6 XOR rotate e 11 XOR rotate e 25;
         choice = (e AND f) XOR (NOT e AND g);
         temp1 = h + sum1 + choice + constant + word;
         sum0 = rotate a 2 XOR rotate a 13 XOR rotate a 22;
         majority = (a AND b) XOR (a AND c) XOR (b AND c);
         temp2 = sum0 + majority
     in (temp1 + temp2, a, b, c, d + temp1, e, f, g))"

definition compress :: "u8 list \<Rightarrow> u32 list \<Rightarrow> u32 list" where
  "compress block state =
     (case fold sha_round (zip sha256_constants (message_schedule block))
         (state ! 0, state ! 1, state ! 2, state ! 3, state ! 4, state ! 5, state ! 6, state ! 7) of
        (a, b, c, d, e, f, g, h) \<Rightarrow> map2 (+) state [a, b, c, d, e, f, g, h])"

fun blocks :: "'a list \<Rightarrow> 'a list list" where
  "blocks [] = []"
| "blocks (x # xs) = take 64 (x # xs) # blocks (drop 64 (x # xs))"

definition sha256_bytes :: "u8 list \<Rightarrow> u32 list" where
  "sha256_bytes bytes = fold compress (blocks (pad_message bytes)) initial_state"

text \<open>\<open>word.toString(16).padStart(8, "0")\<close>\<close>

definition hex_word :: "u32 \<Rightarrow> string" where
  "hex_word w = map (\<lambda>i. hex_digit (uint (drop_bit (4 * i) w))) [7, 6, 5, 4, 3, 2, 1, 0]"

definition sha256_text :: "string \<Rightarrow> string" where
  "sha256_text s = ''sha256:'' @ concat (map hex_word (sha256_bytes (utf8 s)))"

definition sha256_canonical_json :: "js_data \<Rightarrow> json_error + string" where
  "sha256_canonical_json v = res_bind (canonical_json v) (\<lambda>s. Inr (sha256_text s))"

end
