(* ===== verification/CanonicalJsonProperties.thy ===== *)
theory CanonicalJsonProperties
  imports CanonicalJson
begin

text \<open>
  What canonical JSON promises: it accepts exactly the values that unfold to a finite JSON tree,
  its text does not depend on the order of object keys, and two values with the same text are the
  same tree up to that order.
\<close>

subsection \<open>The accepted values\<close>

text \<open>A value denotes a tree: every object on the way is plain data. A circular value denotes none.\<close>

inductive denotes :: "js_object list \<Rightarrow> js_value \<Rightarrow> json \<Rightarrow> bool" for h where
  "denotes h JsNull JNull"
| "denotes h (JsBool b) (JBool b)"
| "denotes h (JsNumber (Finite n)) (JNum n)"
| "denotes h (JsString s) (JStr s)"
| "a < length h \<Longrightarrow> h ! a = JsArray items False \<Longrightarrow>
   list_all2 (\<lambda>item t. \<exists>w. item = Some w \<and> denotes h w t) items ts \<Longrightarrow> denotes h (JsRef a) (JArr ts)"
| "a < length h \<Longrightarrow> h ! a = JsObject True props \<Longrightarrow>
   list_all2 (\<lambda>kp nt. \<exists>w. kp = (StringKey (fst nt), DataProperty w) \<and> denotes h w (snd nt)) props kvs \<Longrightarrow>
   denotes h (JsRef a) (JObj kvs)"

inductive_cases denotes_RefE: "denotes h (JsRef a) t"
inductive_cases denotes_UndefinedE [elim!]: "denotes h JsUndefined t"
inductive_cases denotes_FunctionE [elim!]: "denotes h JsFunction t"
inductive_cases denotes_NonFiniteE [elim!]: "denotes h (JsNumber NonFinite) t"
inductive_simps denotes_literal [simp]: "denotes h JsNull t" "denotes h (JsBool b) t"
  "denotes h (JsNumber (Finite n)) t" "denotes h (JsString s) t"

lemma read_json_denotes: "read_json h ancestors v = Inr t \<Longrightarrow> denotes h v t"
proof (induction h ancestors v arbitrary: t rule: read_json.induct)
  case (1 h ancestors v)
  note eq = "1.prems" [unfolded read_json.simps [of h ancestors v]]
  show ?case
  proof (cases v)
    case (JsNumber n)
    then show ?thesis using eq by (cases n) auto
  next
    case (JsRef a)
    then have a: "\<not> (a \<in> set ancestors \<or> \<not> a < length h)" using eq by (auto split: if_splits)
    show ?thesis
    proof (cases "h ! a")
      case (JsArray items extra)
      then have "\<not> extra" using eq a JsRef by auto
      then obtain ts where t: "t = JArr ts" and "res_map (\<lambda>item. case item of
                         None \<Rightarrow> Inl ArrayHole
                       | Some w \<Rightarrow> read_json h (a # ancestors) w) items = Inr ts"
        using eq a JsRef JsArray by auto
      then have "list_all2 (\<lambda>item t. case item of None \<Rightarrow> False | Some w \<Rightarrow> read_json h (a # ancestors) w = Inr t) items ts"
        unfolding res_map_Inr by (elim list.rel_mono_strong) (auto split: option.splits)
      then have "list_all2 (\<lambda>item t. \<exists>w. item = Some w \<and> denotes h w t) items ts"
        by (elim list.rel_mono_strong)
          (use "1.IH"(1) [OF JsRef a JsArray \<open>\<not> extra\<close>] in \<open>auto split: option.splits\<close>)
      then show ?thesis using JsRef t JsArray \<open>\<not> extra\<close> a by (auto intro: denotes.intros)
    next
      case (JsObject is_plain props)
      then have plain: "\<not> \<not> is_plain" using eq a JsRef by (auto split: if_splits)
      then obtain ts where t: "t = JObj ts" and "res_map (\<lambda>(k, p). case k of
                         SymbolKey \<Rightarrow> Inl SymbolProperty
                       | StringKey name \<Rightarrow> (case p of
                           OtherProperty \<Rightarrow> Inl NotADataProperty
                         | DataProperty w \<Rightarrow>
                             res_bind (read_json h (a # ancestors) w) (\<lambda>t. Inr (name, t)))) props = Inr ts"
        using eq a JsRef JsObject by auto
      then have "list_all2 (\<lambda>kp nt. \<exists>name w. kp = (StringKey name, DataProperty w) \<and>
          fst nt = name \<and> read_json h (a # ancestors) w = Inr (snd nt)) props ts"
        unfolding res_map_Inr
        by (elim list.rel_mono_strong) (auto split: js_key.splits js_property.splits)
      then have "list_all2 (\<lambda>kp nt. \<exists>w. kp = (StringKey (fst nt), DataProperty w) \<and> denotes h w (snd nt)) props ts"
        by (elim list.rel_mono_strong)
          (use "1.IH"(2) [OF JsRef a JsObject plain, OF _ refl] in \<open>fastforce\<close>)
      then show ?thesis using JsRef t JsObject plain a by (auto intro: denotes.intros)
    qed
  qed (use eq in auto)
qed

lemma list_all2_unique:
  assumes "list_all2 P xs ys" "list_all2 Q xs zs" "\<And>x y z. x \<in> set xs \<Longrightarrow> P x y \<Longrightarrow> Q x z \<Longrightarrow> y = z"
  shows "ys = zs"
  using assms
proof (induction xs arbitrary: ys zs)
  case (Cons x xs)
  from Cons.prems(1,2) obtain y ys' z zs' where "ys = y # ys'" "zs = z # zs'" "P x y" "Q x z"
    "list_all2 P xs ys'" "list_all2 Q xs zs'"
    by (auto simp: list_all2_Cons1)
  then show ?case using Cons.IH [of ys' zs'] Cons.prems(3) by auto
qed simp

lemma denotes_unique: "denotes h v t \<Longrightarrow> denotes h v u \<Longrightarrow> t = u"
proof (induction arbitrary: u rule: denotes.induct)
  case (5 a items ts)
  from \<open>denotes h (JsRef a) u\<close> 5(2) obtain us where u: "u = JArr us"
    "list_all2 (\<lambda>item t. \<exists>w. item = Some w \<and> denotes h w t) items us"
    by (auto elim: denotes_RefE)
  have "ts = us" by (rule list_all2_unique [OF 5(3) u(2)]) auto
  then show ?case using u by simp
next
  case (6 a props kvs)
  from \<open>denotes h (JsRef a) u\<close> 6(2) obtain us where u: "u = JObj us"
    "list_all2 (\<lambda>kp nt. \<exists>w. kp = (StringKey (fst nt), DataProperty w) \<and> denotes h w (snd nt)) props us"
    by (auto elim: denotes_RefE)
  have "kvs = us" by (rule list_all2_unique [OF 6(3) u(2)]) auto
  then show ?case using u by simp
qed auto

lemma list_all2_member2: "list_all2 P xs ys \<Longrightarrow> x \<in> set xs \<Longrightarrow> \<exists>y \<in> set ys. P x y"
  by (metis in_set_conv_nth list_all2_conv_all_nth)

lemma size_in_JArr: "t \<in> set ts \<Longrightarrow> size t < size (JArr ts)"
  by (simp add: less_Suc_eq_le size_list_estimation')

lemma size_in_JObj: "(k, t) \<in> set kvs \<Longrightarrow> size t < size (JObj kvs)"
  by (force simp: less_Suc_eq_le intro: order_trans [OF _ size_list_estimation'])

lemma below_ancestors:
  assumes "denotes h (JsRef a) big" "size t < size big"
    "\<forall>b \<in> set ancestors. \<exists>u. denotes h (JsRef b) u \<and> size big < size u"
  shows "\<forall>b \<in> set (a # ancestors). \<exists>u. denotes h (JsRef b) u \<and> size t < size u"
proof
  fix b assume "b \<in> set (a # ancestors)"
  then consider "b = a" | "b \<in> set ancestors" by auto
  then show "\<exists>u. denotes h (JsRef b) u \<and> size t < size u"
    by cases (use assms less_trans in blast)+
qed

lemma denotes_read_json:
  "denotes h v t \<Longrightarrow> \<forall>a \<in> set ancestors. \<exists>u. denotes h (JsRef a) u \<and> size t < size u \<Longrightarrow>
   read_json h ancestors v = Inr t"
proof (induction arbitrary: ancestors rule: denotes.induct)
  case (5 a items ts)
  have arr: "denotes h (JsRef a) (JArr ts)"
    by (rule denotes.intros(5) [OF 5(1,2)]) (use 5(3) in \<open>auto elim: list.rel_mono_strong\<close>)
  then have "a \<notin> set ancestors" using 5(4) denotes_unique by fastforce
  moreover have "res_map (\<lambda>item. case item of None \<Rightarrow> Inl ArrayHole
      | Some w \<Rightarrow> read_json h (a # ancestors) w) items = Inr ts"
    unfolding res_map_Inr
  proof (rule list.rel_mono_strong [OF 5(3)], clarsimp)
    fix w t assume "t \<in> set ts" and IH: "\<forall>x. (\<forall>a \<in> set x. \<exists>u. denotes h (JsRef a) u \<and> size t < size u) \<longrightarrow> read_json h x w = Inr t"
    then show "read_json h (a # ancestors) w = Inr t"
      using below_ancestors [OF arr size_in_JArr 5(4)] by blast
  qed
  ultimately show ?case using 5(1,2) by (simp add: read_json.simps [of h ancestors])
next
  case (6 a props kvs)
  have obj: "denotes h (JsRef a) (JObj kvs)"
    by (rule denotes.intros(6) [OF 6(1,2)]) (use 6(3) in \<open>auto elim: list.rel_mono_strong\<close>)
  then have "a \<notin> set ancestors" using 6(4) denotes_unique by fastforce
  moreover have "res_map (\<lambda>(k, p). case k of
                         SymbolKey \<Rightarrow> Inl SymbolProperty
                       | StringKey name \<Rightarrow> (case p of
                           OtherProperty \<Rightarrow> Inl NotADataProperty
                         | DataProperty w \<Rightarrow>
                             res_bind (read_json h (a # ancestors) w) (\<lambda>t. Inr (name, t)))) props = Inr kvs"
    unfolding res_map_Inr
  proof (rule list.rel_mono_strong [OF 6(3)], clarsimp)
    fix name w t assume "(name, t) \<in> set kvs"
      and IH: "\<forall>x. (\<forall>a \<in> set x. \<exists>u. denotes h (JsRef a) u \<and> size t < size u) \<longrightarrow> read_json h x w = Inr t"
    then show "read_json h (a # ancestors) w = Inr t"
      using below_ancestors [OF obj size_in_JObj 6(4)] by blast
  qed
  ultimately show ?case using 6(1,2) by (simp add: read_json.simps [of h ancestors])
qed (simp_all add: read_json.simps)


subsection \<open>The text determines the tree\<close>

text \<open>What may follow an item: nothing, the comma of the next item or the line break of the end.\<close>

definition item_ends :: "string \<Rightarrow> bool" where
  "item_ends r \<longleftrightarrow> r = [] \<or> hd r = CHR '','' \<or> hd r = CHR 0x0A"

lemma item_ends_simps [simp]: "item_ends []" "item_ends (CHR '','' # r)" "item_ends (CHR 0x0A # r)"
  by (simp_all add: item_ends_def)

lemma item_ends_not_digit: "item_ends r \<Longrightarrow> r = [] \<or> \<not> is_digit (hd r)"
  by (auto simp: item_ends_def is_digit_def)

lemma digit_chars:
  "char_of (48 :: int) = CHR ''0''" "char_of (49 :: int) = CHR ''1''" "char_of (50 :: int) = CHR ''2''"
  "char_of (51 :: int) = CHR ''3''" "char_of (52 :: int) = CHR ''4''" "char_of (53 :: int) = CHR ''5''"
  "char_of (54 :: int) = CHR ''6''" "char_of (55 :: int) = CHR ''7''" "char_of (56 :: int) = CHR ''8''"
  "char_of (57 :: int) = CHR ''9''"
  by code_simp+

lemma digits_text_digits: "0 \<le> n \<Longrightarrow> digits_text n \<noteq> [] \<and> (\<forall>c \<in> set (digits_text n). is_digit c) \<and> digits_value (digits_text n) = n"
proof (induction n rule: digits_text.induct)
  case (1 n)
  have digit: "is_digit (char_of (48 + k)) \<and> of_char (char_of (48 + k)) = 48 + k" if "0 \<le> k" "k < 10" for k :: int
  proof -
    have "k = 0 \<or> k = 1 \<or> k = 2 \<or> k = 3 \<or> k = 4 \<or> k = 5 \<or> k = 6 \<or> k = 7 \<or> k = 8 \<or> k = 9"
      using that by arith
    then show ?thesis by (elim disjE) (simp_all add: is_digit_def less_eq_char_def digit_chars)
  qed
  show ?case
  proof (cases "n < 10")
    case True
    then show ?thesis using digit [of n] "1.prems" by (simp add: digits_text.simps [of n] digits_value_def)
  next
    case False
    then show ?thesis
      using "1.IH" "1.prems" digit [of "n mod 10"]
      by (auto simp: digits_text.simps [of n] digits_value_def)
  qed
qed

lemma takeWhile_digits: "\<forall>c \<in> set ds. P c \<Longrightarrow> r = [] \<or> \<not> P (hd r) \<Longrightarrow> takeWhile P (ds @ r) = ds"
  by (cases r) auto

lemma digits_text_decode:
  assumes "digits_text m @ r = digits_text n @ s" "0 \<le> m" "0 \<le> n" "item_ends r" "item_ends s"
  shows "m = n \<and> r = s"
proof -
  have "digits_text m = digits_text n"
    using takeWhile_digits [of "digits_text m" is_digit r] takeWhile_digits [of "digits_text n" is_digit s]
      digits_text_digits assms item_ends_not_digit by metis
  then show ?thesis using digits_text_digits assms by (metis append_same_eq same_append_eq)
qed

lemma int_text_decode:
  assumes "int_text m @ r = int_text n @ s" "item_ends r" "item_ends s"
  shows "m = n \<and> r = s"
proof -
  have lead: "hd (digits_text k @ x) \<noteq> CHR ''-''" if "0 \<le> k" for k x
  proof -
    have "is_digit (hd (digits_text k))" "digits_text k \<noteq> []" using digits_text_digits [OF that] by auto
    then show ?thesis by (auto simp: is_digit_def)
  qed
  show ?thesis
  proof (cases "m < 0"; cases "n < 0")
    assume "m < 0" "n < 0"
    then show ?thesis using digits_text_decode [of "- m" r "- n" s] assms by (simp add: int_text_def)
  next
    assume "m < 0" "\<not> n < 0"
    then show ?thesis using lead [of n s] assms(1) by (metis append_Cons int_text_def linorder_not_less list.sel(1))
  next
    assume "\<not> m < 0" "n < 0"
    then show ?thesis using lead [of m r] assms(1) by (metis append_Cons int_text_def linorder_not_less list.sel(1))
  next
    assume "\<not> m < 0" "\<not> n < 0"
    then show ?thesis using digits_text_decode [of m r n s] assms by (simp add: int_text_def)
  qed
qed

text \<open>Reading back one escaped character.\<close>

definition hex_digit_value :: "char \<Rightarrow> int" where
  "hex_digit_value c = (if is_digit c then of_char c - 48 else of_char c - 87)"

lemma hex_digit_value_digit: "hex_digit_value (hex_digit n) = n mod 16"
proof -
  have "hex_digit_value (''0123456789abcdef'' ! nat m) = m" if "0 \<le> m" "m < 16" for m :: int
  proof -
    have "m = 0 \<or> m = 1 \<or> m = 2 \<or> m = 3 \<or> m = 4 \<or> m = 5 \<or> m = 6 \<or> m = 7 \<or> m = 8 \<or> m = 9 \<or>
        m = 10 \<or> m = 11 \<or> m = 12 \<or> m = 13 \<or> m = 14 \<or> m = 15"
      using that by arith
    then show ?thesis by (elim disjE) (simp_all add: hex_digit_value_def is_digit_def)
  qed
  then show ?thesis by (simp add: hex_digit_def)
qed

fun unescape :: "string \<Rightarrow> char" where
  "unescape (e # k # rest) =
     (if e \<noteq> CHR 0x5C then e
      else if k = CHR ''b'' then CHR 0x08 else if k = CHR ''t'' then CHR 0x09
      else if k = CHR ''n'' then CHR 0x0A else if k = CHR ''f'' then CHR 0x0C
      else if k = CHR ''r'' then CHR 0x0D
      else if k = CHR ''u'' then char_of (16 * hex_digit_value (rest ! 2) + hex_digit_value (rest ! 3))
      else k)"
| "unescape xs = hd xs"

lemma unescape_quote_char: "unescape (quote_char c @ rest) = c"
proof -
  have "16 * hex_digit_value (hex_digit (of_char c div 16)) + hex_digit_value (hex_digit (of_char c)) = (of_char c :: int)"
    if "(of_char c :: int) < 32"
  proof -
    have "0 \<le> (of_char c :: int)" by (metis of_nat_0_le_iff of_nat_of_char)
    then have "(of_char c :: int) div 16 mod 16 = of_char c div 16" using that by (intro mod_pos_pos_trivial) auto
    then show ?thesis by (simp add: hex_digit_value_digit)
  qed
  then show ?thesis by (cases rest) (auto simp: quote_char_def)
qed

lemma quote_char_decode:
  assumes "quote_char c @ x = quote_char d @ y"
  shows "c = d \<and> x = y"
proof -
  have "c = d" using unescape_quote_char [of c x] unescape_quote_char [of d y] assms by simp
  with assms show ?thesis by simp
qed

lemma quote_char_not_quote: "quote_char c \<noteq> [] \<and> hd (quote_char c) \<noteq> CHR 0x22"
  by (auto simp: quote_char_def)

lemma quote_json_decode: "quote_json k @ r = quote_json l @ s \<Longrightarrow> k = l \<and> r = s"
proof -
  have "concat (map quote_char k) @ CHR 0x22 # r = concat (map quote_char l) @ CHR 0x22 # s \<Longrightarrow> k = l \<and> r = s"
  proof (induction k arbitrary: l)
    case Nil
    show ?case
    proof (cases l)
      case (Cons d l')
      then show ?thesis using Nil.prems quote_char_not_quote [of d] by (cases "quote_char d") auto
    qed (use Nil.prems in simp)
  next
    case (Cons c k)
    show ?case
    proof (cases l)
      case Nil
      then show ?thesis using Cons.prems quote_char_not_quote [of c] by (cases "quote_char c") auto
    next
      case (Cons d l')
      then show ?thesis using Cons.prems Cons.IH [of l'] quote_char_decode [of c _ d] by auto
    qed
  qed
  then show "quote_json k @ r = quote_json l @ s \<Longrightarrow> k = l \<and> r = s" by (simp add: quote_json_def)
qed

lemma comma_join_decode:
  assumes "\<And>x y r s. x \<in> set xs \<Longrightarrow> f x @ r = f y @ s \<Longrightarrow> item_ends r \<Longrightarrow> item_ends s \<Longrightarrow> x = y \<and> r = s"
    and "comma_join sep (map f xs) @ CHR 0x0A # e = comma_join sep (map f ys) @ CHR 0x0A # e'"
    and "xs \<noteq> []" "ys \<noteq> []"
  shows "xs = ys \<and> e = e'"
  using assms
proof (induction xs arbitrary: ys)
  case (Cons x xs)
  obtain y ys' where ys: "ys = y # ys'" using Cons.prems(4) by (cases ys) auto
  define tail where "tail zs e = (if zs = [] then CHR 0x0A # e else CHR '','' # sep @ comma_join sep (map f zs) @ CHR 0x0A # e)" for zs e
  have split: "comma_join sep (map f (z # zs)) @ CHR 0x0A # e = f z @ tail zs e" for z zs e
    by (cases zs) (simp_all add: tail_def)
  have "f x @ tail xs e = f y @ tail ys' e'" using Cons.prems(2) unfolding ys split .
  moreover have "item_ends (tail zs e)" for zs e by (simp add: tail_def)
  ultimately have "x = y" and tails: "tail xs e = tail ys' e'" using Cons.prems(1) [of x] by auto
  show ?case
  proof (cases "xs = [] \<or> ys' = []")
    case True
    then show ?thesis using tails \<open>x = y\<close> ys by (auto simp: tail_def split: if_splits)
  next
    case False
    then have "comma_join sep (map f xs) @ CHR 0x0A # e = comma_join sep (map f ys') @ CHR 0x0A # e'"
      using tails by (simp add: tail_def)
    moreover have "\<And>z y r s. z \<in> set xs \<Longrightarrow> f z @ r = f y @ s \<Longrightarrow> item_ends r \<Longrightarrow> item_ends s \<Longrightarrow> z = y \<and> r = s"
      by (rule Cons.prems(1)) auto
    ultimately have "xs = ys' \<and> e = e'" using Cons.IH [of ys'] False by blast
    then show ?thesis using \<open>x = y\<close> ys by simp
  qed
qed simp

text \<open>The first character tells the kind of a tree.\<close>

definition lead_kind :: "char \<Rightarrow> nat" where
  "lead_kind c = (if c = CHR ''n'' then 0 else if c = CHR ''t'' then 1 else if c = CHR ''f'' then 2
     else if c = CHR 0x22 then 3 else if c = CHR ''['' then 4 else if c = CHR ''{'' then 5 else 6)"

fun json_kind :: "json \<Rightarrow> nat" where
  "json_kind JNull = 0"
| "json_kind (JBool b) = (if b then 1 else 2)"
| "json_kind (JStr s) = 3"
| "json_kind (JArr ts) = 4"
| "json_kind (JObj kvs) = 5"
| "json_kind (JNum n) = 6"

lemma stringify_kind: "stringify d t \<noteq> [] \<and> lead_kind (hd (stringify d t)) = json_kind t"
proof (cases t)
  case (JNum n)
  have "lead_kind c = 6" if "is_digit c" for c using that by (auto simp: lead_kind_def is_digit_def)
  then show ?thesis using JNum digits_text_digits [of n]
    by (cases "n < 0") (simp_all add: int_text_def lead_kind_def)
qed (simp_all add: quote_json_def lead_kind_def)

lemma same_kind: "stringify d t @ r = stringify d u @ s \<Longrightarrow> json_kind t = json_kind u"
  using stringify_kind [of d t] stringify_kind [of d u] by (metis hd_append)

lemma stringify_decode:
  "stringify d t @ r = stringify d u @ s \<Longrightarrow> item_ends r \<Longrightarrow> item_ends s \<Longrightarrow> t = u \<and> r = s"
proof (induction t arbitrary: d u r s)
  case JNull
  then show ?case using same_kind [OF JNull.prems(1)] by (cases u) (auto split: if_splits)
next
  case (JBool b)
  then show ?case using same_kind [OF JBool.prems(1)] by (cases u) (auto split: if_splits)
next
  case (JNum n)
  obtain m where "u = JNum m" using same_kind [OF JNum.prems(1)] by (cases u) (auto split: if_splits)
  then show ?case using int_text_decode [of n r m s] JNum.prems by simp
next
  case (JStr k)
  obtain l where "u = JStr l" using same_kind [OF JStr.prems(1)] by (cases u) (auto split: if_splits)
  then show ?case using quote_json_decode [of k r l s] JStr.prems by simp
next
  case (JArr ts)
  obtain us where u: "u = JArr us"
    using same_kind [OF JArr.prems(1)] by (cases u) (auto split: if_splits)
  show ?case
  proof (cases "ts = [] \<or> us = []")
    case True
    then show ?thesis using JArr.prems(1) u by (auto simp: newline_indent_def split: if_splits)
  next
    case False
    then have eq: "comma_join (newline_indent (Suc d)) (map (stringify (Suc d)) ts) @ CHR 0x0A # replicate (2 * d) CHR 0x20 @ CHR '']'' # r
        = comma_join (newline_indent (Suc d)) (map (stringify (Suc d)) us) @ CHR 0x0A # replicate (2 * d) CHR 0x20 @ CHR '']'' # s"
      using JArr.prems(1) u by (simp add: newline_indent_def)
    have "\<And>x y r' s'. x \<in> set ts \<Longrightarrow> stringify (Suc d) x @ r' = stringify (Suc d) y @ s' \<Longrightarrow>
      item_ends r' \<Longrightarrow> item_ends s' \<Longrightarrow> x = y \<and> r' = s'"
      by (rule JArr.IH)
    from comma_join_decode [OF this eq] False show ?thesis using u by auto
  qed
next
  case (JObj kvs)
  obtain lvs where u: "u = JObj lvs"
    using same_kind [OF JObj.prems(1)] by (cases u) (auto split: if_splits)
  let ?item = "\<lambda>(k, t). quote_json k @ '': '' @ stringify (Suc d) t"
  show ?case
  proof (cases "kvs = [] \<or> lvs = []")
    case True
    then show ?thesis using JObj.prems(1) u by (auto simp: newline_indent_def split: if_splits)
  next
    case False
    then have eq: "comma_join (newline_indent (Suc d)) (map ?item kvs) @ CHR 0x0A # replicate (2 * d) CHR 0x20 @ CHR ''}'' # r
        = comma_join (newline_indent (Suc d)) (map ?item lvs) @ CHR 0x0A # replicate (2 * d) CHR 0x20 @ CHR ''}'' # s"
      using JObj.prems(1) u by (simp add: newline_indent_def)
    have "x = y \<and> r' = s'" if "x \<in> set kvs" "?item x @ r' = ?item y @ s'" "item_ends r'" "item_ends s'" for x y r' s'
    proof -
      obtain k v l w where xy: "x = (k, v)" "y = (l, w)" by (cases x; cases y) auto
      then have "quote_json k @ '': '' @ stringify (Suc d) v @ r' = quote_json l @ '': '' @ stringify (Suc d) w @ s'"
        using that(2) by simp
      from quote_json_decode [OF this] have kl: "k = l" and vw: "stringify (Suc d) v @ r' = stringify (Suc d) w @ s'"
        by auto
      show ?thesis using JObj.IH [OF that(1) _ vw that(3,4)] kl xy by auto
    qed
    from comma_join_decode [OF this eq] False show ?thesis using u by auto
  qed
qed

lemma stringify_inject: "stringify d t = stringify d u \<longleftrightarrow> t = u"
  using stringify_decode [of d t "[]" u "[]"] by auto

lemma canonical_text_inject: "canonical_text t = canonical_text u \<longleftrightarrow> sort_value t = sort_value u"
  by (simp add: canonical_text_def stringify_inject)

lemma canonical_strings_inject:
  "canonical_text (JArr (map JStr xs)) = canonical_text (JArr (map JStr ys)) \<longleftrightarrow> xs = ys"
  by (simp add: canonical_text_inject comp_def inj_map_eq_map [unfolded inj_def])

subsection \<open>Texts of integers\<close>

lemma int_text_inject: "int_text m = int_text n \<longleftrightarrow> m = n"
proof
  assume "int_text m = int_text n"
  then show "m = n" using int_text_decode [of m "[]" n "[]"] by (simp add: item_ends_def)
qed simp

lemma int_text_nul_free: "nul_free (int_text n)"
proof -
  have "nul_free (digits_text k)" if "0 \<le> k" for k
    using digits_text_digits [OF that] by (auto simp: nul_free_def nul_def is_digit_def less_eq_char_def)
  then show ?thesis by (cases "n < 0") (simp_all add: int_text_def nul_free_def nul_def)
qed

text \<open>A key of an identifier and a number determines both, whatever the identifier holds.\<close>

lemma tool_key_inject:
  "i @ nul # int_text v = j @ nul # int_text w \<longleftrightarrow> i = j \<and> v = w"
proof
  assume eq: "i @ nul # int_text v = j @ nul # int_text w"
  have "rev (int_text v) @ nul # rev i = rev (int_text w) @ nul # rev j"
    using arg_cong [OF eq, of rev] by simp
  then have "rev (int_text v) = rev (int_text w)" "rev i = rev j"
    using int_text_nul_free [of v] int_text_nul_free [of w]
    by (metis nul_free_def nul_free_split(1) set_rev, metis nul_free_def nul_free_split(2) set_rev)
  then show "i = j \<and> v = w" by (simp add: int_text_inject)
qed simp

subsection \<open>The order of keys\<close>

text \<open>Trees that are equal up to the order of the entries of their objects.\<close>

inductive same_json :: "json \<Rightarrow> json \<Rightarrow> bool" where
  "same_json JNull JNull"
| "same_json (JBool b) (JBool b)"
| "same_json (JNum n) (JNum n)"
| "same_json (JStr s) (JStr s)"
| "list_all2 same_json ts us \<Longrightarrow> same_json (JArr ts) (JArr us)"
| "list_all2 (\<lambda>x y. fst x = fst y \<and> same_json (snd x) (snd y)) kvs lvs \<Longrightarrow> mset lvs = mset us \<Longrightarrow>
   same_json (JObj kvs) (JObj us)"

text \<open>No object has two entries for a key, as in JavaScript.\<close>

fun keyed_json :: "json \<Rightarrow> bool" where
  "keyed_json (JArr ts) = (\<forall>t \<in> set ts. keyed_json t)"
| "keyed_json (JObj kvs) = (distinct (map fst kvs) \<and> (\<forall>(k, t) \<in> set kvs. keyed_json t))"
| "keyed_json t = True"

definition sort_entry :: "string \<times> json \<Rightarrow> string \<times> json" where
  "sort_entry = (\<lambda>(k, t). (k, sort_value t))"

lemma sort_entry_simps [simp]: "fst (sort_entry x) = fst x" "snd (sort_entry x) = sort_value (snd x)"
  by (simp_all add: sort_entry_def split_beta)

lemma map_sort_key_entries: "map sort_entry (sort_key fst kvs) = sort_key fst (map sort_entry kvs)"
proof -
  have insort: "map sort_entry (insort_key fst x xs) = insort_key fst (sort_entry x) (map sort_entry xs)" for x xs
    by (induction xs) simp_all
  show ?thesis by (induction kvs) (simp_all add: insort)
qed

lemma sort_value_JObj: "sort_value (JObj kvs) = JObj (own_key_order (sort_key fst (map sort_entry kvs)))"
  unfolding sort_value.simps(2) sort_entry_def [symmetric] map_sort_key_entries ..

declare sort_value.simps(2) [simp del]

lemma mset_own_key_order: "mset (own_key_order xs) = mset xs"
  by (simp add: own_key_order_def)

lemma same_json_sorts: "same_json t u \<Longrightarrow> keyed_json u \<Longrightarrow> sort_value t = sort_value u"
proof (induction rule: same_json.induct)
  case (5 ts us)
  have "map sort_value ts = map sort_value us"
    using 5 by (auto simp: list_all2_conv_all_nth intro!: nth_equalityI)
  then show ?case by simp
next
  case (6 kvs lvs us)
  have "keyed_json (snd x)" if "x \<in> set lvs" for x
    using that 6(2,3) mset_eq_setD [OF 6(2)] by (auto simp: split_beta)
  then have "list_all2 (\<lambda>x y. sort_entry x = sort_entry y) kvs lvs"
    using 6(1) by (elim list.rel_mono_strong) (auto simp: prod_eq_iff)
  then have "map sort_entry kvs = map sort_entry lvs"
    by (simp add: list_all2_conv_all_nth list_eq_iff_nth_eq)
  moreover have "sort_key fst (map sort_entry lvs) = sort_key fst (map sort_entry us)"
  proof (rule sort_key_perm_unique)
    show "mset (map sort_entry lvs) = mset (map sort_entry us)" using 6(2) by simp
    have "distinct (map fst lvs)" using 6(2,3) mset_eq_imp_distinct_iff [of "map fst lvs" "map fst us"] by simp
    then have "inj_on fst (set lvs)" by (simp add: distinct_map)
    then show "inj_on fst (set (map sort_entry lvs))" by (auto simp: inj_on_def)
  qed
  ultimately show ?case by (simp add: sort_value_JObj)
qed simp_all

lemma mset_map_split:
  "mset (map f xs) = mset (map g ys) \<Longrightarrow> \<exists>zs. mset zs = mset ys \<and> map f xs = map g zs"
proof (induction xs arbitrary: ys)
  case (Cons x xs)
  have "f x \<in> set (map g ys)" using mset_eq_setD [OF Cons.prems] by auto
  then obtain y where y: "y \<in> set ys" "g y = f x" by auto
  then have "mset (map f xs) = mset (map g (remove1 y ys))"
    using Cons.prems by (simp add: image_mset_Diff) (metis add_mset_remove_trivial)
  from Cons.IH [OF this] obtain zs where zs: "mset zs = mset (remove1 y ys)" "map f xs = map g zs" by blast
  show ?case by (rule exI [of _ "y # zs"]) (use zs y in simp)
qed simp

lemma sorts_same_json: "sort_value t = sort_value u \<Longrightarrow> same_json t u"
proof (induction t arbitrary: u)
  case (JArr ts)
  from JArr.prems obtain us where "u = JArr us" "map sort_value ts = map sort_value us"
    by (cases u) (auto simp: sort_value_JObj)
  from this(2) have "list_all2 (\<lambda>x y. sort_value x = sort_value y) ts us"
    by (simp add: list_all2_conv_all_nth list_eq_iff_nth_eq)
  then have "list_all2 same_json ts us" by (rule list.rel_mono_strong) (rule JArr.IH)
  then show ?case unfolding \<open>u = JArr us\<close> by (rule same_json.intros)
next
  case (JObj kvs)
  obtain us where u: "u = JObj us" using JObj.prems by (cases u) (auto simp: sort_value_JObj)
  have "mset (map sort_entry kvs) = mset (map sort_entry us)"
    using JObj.prems mset_own_key_order [of "sort_key fst (map sort_entry kvs)"]
      mset_own_key_order [of "sort_key fst (map sort_entry us)"] unfolding u sort_value_JObj by simp
  from mset_map_split [OF this] obtain zs where zs: "mset zs = mset us" "map sort_entry kvs = map sort_entry zs" by blast
  have "list_all2 (\<lambda>x y. sort_entry x = sort_entry y) kvs zs"
    using zs(2) by (simp add: list_all2_conv_all_nth list_eq_iff_nth_eq)
  then have "list_all2 (\<lambda>x y. fst x = fst y \<and> same_json (snd x) (snd y)) kvs zs"
  proof (rule list.rel_mono_strong)
    fix x y assume "x \<in> set kvs" "sort_entry x = sort_entry y"
    then have "fst x = fst y" "sort_value (snd x) = sort_value (snd y)"
      by (metis sort_entry_simps(1)) (metis \<open>sort_entry x = sort_entry y\<close> sort_entry_simps(2))
    then show "fst x = fst y \<and> same_json (snd x) (snd y)" using JObj.IH [of x "snd x"] \<open>x \<in> set kvs\<close> by (cases x) auto
  qed
  then show ?case unfolding u using zs(1) by (rule same_json.intros)
next
  case JNull
  then show ?case by (cases u) (auto simp: sort_value_JObj intro: same_json.intros)
next
  case (JBool b)
  then show ?case by (cases u) (auto simp: sort_value_JObj intro: same_json.intros)
next
  case (JNum n)
  then show ?case by (cases u) (auto simp: sort_value_JObj intro: same_json.intros)
next
  case (JStr s)
  then show ?case by (cases u) (auto simp: sort_value_JObj intro: same_json.intros)
qed

lemma canonical_text_same: "canonical_text t = canonical_text u \<Longrightarrow> same_json t u"
  by (rule sorts_same_json) (simp add: canonical_text_inject)

text \<open>Objects written with the same keys: they are the same tree when their values are.\<close>

inductive_cases same_JObjE: "same_json (JObj kvs) (JObj us)"
inductive_simps same_json_simps [simp]: "same_json (JStr s) (JStr r)" "same_json (JNum m) (JNum n)" "same_json (JArr ts) (JArr us)"

lemma same_json_entry:
  assumes "same_json (JObj kvs) (JObj us)" "(k, t) \<in> set kvs"
  shows "\<exists>u. (k, u) \<in> set us \<and> same_json t u"
proof -
  obtain lvs where lvs: "list_all2 (\<lambda>x y. fst x = fst y \<and> same_json (snd x) (snd y)) kvs lvs" "mset lvs = mset us"
    using assms(1) by (rule same_JObjE)
  obtain y where "y \<in> set lvs" "fst y = k" "same_json t (snd y)"
    using list_all2_member2 [OF lvs(1) assms(2)] by auto
  then show ?thesis using mset_eq_setD [OF lvs(2)] by (metis prod.collapse)
qed

lemma same_strings: "same_json (JArr (map JStr xs)) (JArr (map JStr ys)) \<longleftrightarrow> xs = ys"
  by (auto simp: list_all2_conv_all_nth list_eq_iff_nth_eq)

inductive_simps same_JNull [simp]: "same_json JNull t" "same_json t JNull"

lemma list_all2_keys: "list_all2 (\<lambda>x y. fst x = fst y \<and> P (snd x) (snd y)) xs ys \<longleftrightarrow>
    map fst xs = map fst ys \<and> list_all2 P (map snd xs) (map snd ys)"
  by (induction xs ys rule: list_induct2') auto

lemma same_keys_mset_eq:
  assumes "mset xs = mset ys" "map fst xs = map fst ys" "distinct (map fst ys)"
  shows "xs = ys"
proof (rule nth_equalityI)
  show "length xs = length ys" using assms(2) map_eq_imp_length_eq by blast
  fix i assume i: "i < length xs"
  then have "ys ! i \<in> set ys" using \<open>length xs = length ys\<close> by simp
  moreover have "xs ! i \<in> set ys" using nth_mem [OF i] mset_eq_setD [OF assms(1)] by simp
  moreover have "fst (xs ! i) = fst (ys ! i)" using assms(2) i \<open>length xs = length ys\<close> by (metis nth_map)
  moreover have "inj_on fst (set ys)" using assms(3) by (simp add: distinct_map)
  ultimately show "xs ! i = ys ! i" by (metis inj_onD)
qed

lemma same_json_record:
  assumes "map fst kvs = map fst lvs" "distinct (map fst lvs)"
  shows "same_json (JObj kvs) (JObj lvs) \<longleftrightarrow> list_all2 same_json (map snd kvs) (map snd lvs)"
proof
  assume "same_json (JObj kvs) (JObj lvs)"
  then obtain us where us: "list_all2 (\<lambda>x y. fst x = fst y \<and> same_json (snd x) (snd y)) kvs us" "mset us = mset lvs"
    by (rule same_JObjE)
  then have "us = lvs" using assms by (intro same_keys_mset_eq) (auto simp: list_all2_keys)
  then show "list_all2 same_json (map snd kvs) (map snd lvs)" using us(1) by (simp add: list_all2_keys)
next
  assume "list_all2 same_json (map snd kvs) (map snd lvs)"
  then have "list_all2 (\<lambda>x y. fst x = fst y \<and> same_json (snd x) (snd y)) kvs lvs"
    using assms(1) by (simp add: list_all2_keys)
  then show "same_json (JObj kvs) (JObj lvs)" by (rule same_json.intros) (rule refl)
qed

text \<open>C26: Two values have the same canonical text exactly when they are the same tree up to the order of
  object keys, so a digest of the text binds the whole value and nothing else.\<close>

theorem canonical_text_binds_value:
  assumes "canonical_json (h, v) = Inr s" "canonical_json (h', w) = Inr s'"
    and "denotes h v t" "denotes h' w u" "keyed_json u"
  shows "s = s' \<longleftrightarrow> same_json t u"
proof -
  have "s = stringify 0 (sort_value t) @ [CHR 0x0A]" "s' = stringify 0 (sort_value u) @ [CHR 0x0A]"
    using assms(1,2) denotes_read_json [OF assms(3), of "[]"] denotes_read_json [OF assms(4), of "[]"]
    by (simp_all add: canonical_json_def canonical_text_def)
  then have "s = s' \<longleftrightarrow> sort_value t = sort_value u" by (simp add: stringify_inject)
  then show ?thesis using sorts_same_json same_json_sorts assms(5) by blast
qed

subsection \<open>The digest\<close>

lemma padded_length_bounds: "n + 9 \<le> padded_length n" "padded_length n mod 64 = 0"
  unfolding padded_length_def by (simp_all add: algebra_simps)

lemma length_pad_message: "length (pad_message bytes) = padded_length (length bytes)"
  using padded_length_bounds(1) [of "length bytes"] by (simp add: pad_message_def be_bytes_def Let_def)

lemma blocks_aligned: "length xs mod 64 = 0 \<Longrightarrow> b \<in> set (blocks xs) \<Longrightarrow> length b = 64"
proof (induction xs rule: blocks.induct)
  case (2 x xs)
  have "64 \<le> length (x # xs)" using 2(2) by (metis dvd_imp_le list.size(3) length_greater_0_conv list.distinct(1) mod_0_imp_dvd)
  moreover from this have "length (drop 64 (x # xs)) mod 64 = 0" using 2(2) by (simp add: le_mod_geq)
  ultimately show ?case using 2 by auto
qed simp

lemma blocks_concat: "concat (blocks xs) = xs"
  by (induction xs rule: blocks.induct) simp_all

lemma length_compress: "length state = 8 \<Longrightarrow> length (compress block state) = 8"
  by (simp add: compress_def split: prod.split)

lemma length_sha256_bytes: "length (sha256_bytes bytes) = 8"
proof -
  have "length (fold compress bs state) = 8" if "length state = 8" for bs state
    using that by (induction bs arbitrary: state) (simp_all add: length_compress)
  then show ?thesis by (simp add: sha256_bytes_def initial_state_def)
qed

lemma hex_digit_in: "hex_digit n \<in> set ''0123456789abcdef''"
  unfolding hex_digit_def by (rule nth_mem) (simp add: nat_less_iff)

lemma hex_words: "length (concat (map hex_word ws)) = 8 * length ws \<and> set (concat (map hex_word ws)) \<subseteq> set ''0123456789abcdef''"
proof (induction ws)
  case (Cons w ws)
  have "length (hex_word w) = 8" by (simp add: hex_word_def)
  moreover have "set (hex_word w) \<subseteq> set ''0123456789abcdef''"
    unfolding hex_word_def set_map using hex_digit_in by blast
  ultimately show ?case using Cons by simp
qed simp

text \<open>Every digest is the prefix \<open>sha256:\<close> and 64 lower-case hexadecimal digits, and the message it
  hashes is the bytes cut into whole blocks of 64 bytes after the padding.\<close>

lemma sha256_text_format:
  "\<exists>digits. sha256_text s = ''sha256:'' @ digits \<and> length digits = 64 \<and>
     (\<forall>c \<in> set digits. is_digit c \<or> CHR ''a'' \<le> c \<and> c \<le> CHR ''f'') \<and>
     (\<forall>b \<in> set (blocks (pad_message (utf8 s))). length b = 64) \<and>
     take (length (utf8 s)) (concat (blocks (pad_message (utf8 s)))) = utf8 s"
proof -
  have "c \<in> set ''0123456789abcdef'' \<Longrightarrow> is_digit c \<or> CHR ''a'' \<le> c \<and> c \<le> CHR ''f''" for c
    by (auto simp: is_digit_def less_eq_char_def)
  moreover have "\<forall>b \<in> set (blocks (pad_message (utf8 s))). length b = 64"
    using blocks_aligned length_pad_message padded_length_bounds(2) by metis
  moreover have "take (length (utf8 s)) (concat (blocks (pad_message (utf8 s)))) = utf8 s"
    by (simp add: blocks_concat pad_message_def Let_def)
  ultimately show ?thesis
    using hex_words [of "sha256_bytes (utf8 s)"] length_sha256_bytes [of "utf8 s"]
    by (intro exI [of _ "concat (map hex_word (sha256_bytes (utf8 s)))"]) (auto simp: sha256_text_def)
qed

subsection \<open>At concrete values\<close>

lemma canonical_text_binds_value_witness:
  "canonical_json ([JsObject True [(StringKey ''b'', DataProperty JsNull), (StringKey ''a'', DataProperty (JsBool True))]], JsRef 0)
   = canonical_json ([JsObject True [(StringKey ''a'', DataProperty (JsBool True)), (StringKey ''b'', DataProperty JsNull)]], JsRef 0) \<and>
   same_json (JObj [(''b'', JNull), (''a'', JBool True)]) (JObj [(''a'', JBool True), (''b'', JNull)])"
proof -
  let ?h = "[JsObject True [(StringKey ''b'', DataProperty JsNull), (StringKey ''a'', DataProperty (JsBool True))]]"
  let ?h' = "[JsObject True [(StringKey ''a'', DataProperty (JsBool True)), (StringKey ''b'', DataProperty JsNull)]]"
  let ?t = "JObj [(''b'', JNull), (''a'', JBool True)]" and ?u = "JObj [(''a'', JBool True), (''b'', JNull)]"
  let ?s = "stringify 0 ?u @ [CHR 0x0A]"
  have s: "canonical_json (?h, JsRef 0) = Inr ?s" "canonical_json (?h', JsRef 0) = Inr ?s" by code_simp+
  have "read_json ?h [] (JsRef 0) = Inr ?t" "read_json ?h' [] (JsRef 0) = Inr ?u" by code_simp+
  then have "denotes ?h (JsRef 0) ?t" "denotes ?h' (JsRef 0) ?u" by (auto dest: read_json_denotes)
  from canonical_text_binds_value [OF s this] show ?thesis using s by simp
qed

text \<open>A cyclic object is refused although its text would be endless.\<close>

lemma circular_refused: "read_json [JsObject True [(StringKey ''self'', DataProperty (JsRef 0))]] [] (JsRef 0) = Inl CircularReference"
  by code_simp

end
