(* ===== verification/ToolTypes.thy ===== *)
theory ToolTypes
  imports CanonicalJson
begin

text \<open>
  What the stages of the tool gateway share: the error they throw, the part of the execution
  context they read, and the records with an expiry that two of them keep.
\<close>

declare map_of_eq_Some_iff [simp del]

subsection \<open>Errors\<close>

datatype gateway_error =
  ToolGatewayError (error_code: string) (error_status: int) (error_title: string) (error_detail: string)

text \<open>Anything a stage throws: an error of the gateway's own class (\<open>ToolGatewayError\<close>, or \<open>DataSourceGatewayError\<close>
  in the data-source gateway, which has the same fields) or another exception.\<close>

datatype failure = Gateway gateway_error | OtherException

lemma refuse_Inr: "(if b then Inl e else r) = Inr x \<longleftrightarrow> \<not> b \<and> r = Inr x"
  by simp

lemma refuse_Inl: "(if b then Inl e else r) = Inl x \<longleftrightarrow> (b \<and> e = x) \<or> (\<not> b \<and> r = Inl x)"
  by simp

definition gateway_failure :: "string \<Rightarrow> int \<Rightarrow> string \<Rightarrow> failure" where
  "gateway_failure code status title = Gateway (ToolGatewayError code status title title)"

subsection \<open>Descriptors and contexts\<close>

datatype tool_effect = ReadOnly | Write | Destructive | External

datatype cost_class = Low | Medium | High

record tool_limits =
  tl_cost_class :: cost_class
  tl_max_cost :: int
  tl_max_concurrency :: int
  tl_rate_per_minute :: int
  tl_burst :: int
  tl_timeout_ms :: int

record tool_descriptor =
  td_id :: string
  td_version :: int
  td_effect :: tool_effect
  td_approval :: string
  td_limits :: tool_limits

text \<open>The part of a descriptor that the catalogue, the stages and the audit read besides.\<close>

datatype audience = PublicAudience | AuthenticatedAudience | InternalAudience

datatype surface = Workspace | Cms | PublicSurface | Driver | Mobile | System

datatype invocation = SourceInvocation string int | ActionInvocation string int

record catalog_tool = tool_descriptor +
  ct_owner :: string
  ct_audience :: audience
  ct_surfaces :: "surface list"
  ct_invocation :: invocation
  ct_category :: string
  ct_output_paths :: "string list"
  ct_input_schema :: json
  ct_output_schema :: "json option"
  ct_output_contract :: "string option"
  ct_permission :: string
  ct_policy :: string
  ct_idempotency :: string
  ct_dry_run :: bool

text \<open>The subject of an evaluated delegation: \<open>None\<close> where the value is no object or no string.\<close>

record tool_context =
  tc_request_tool :: "string \<times> int"
  tc_idempotency_key :: "string option"
  tc_delegation :: "(string option \<times> string option) option"
  tc_descriptor :: tool_descriptor
  tc_input :: js_data

definition valid_id :: "string option \<Rightarrow> bool" where
  "valid_id v = (case v of None \<Rightarrow> False | Some s \<Rightarrow> bounded_id s)"

subsection \<open>Records that expire\<close>

text \<open>
  The contract of a table whose owner drops expired records before it looks at it: \<open>purge\<close>
  removes exactly the records that are no longer \<open>kept\<close>, and what is kept now was kept before.
\<close>

locale expiring_records =
  fixes purge :: "int \<Rightarrow> ('k, 'e) js_map \<Rightarrow> ('k, 'e) js_map"
    and kept :: "int \<Rightarrow> 'e \<Rightarrow> bool"
  assumes purge_lookup: "distinct (map fst m) \<Longrightarrow>
      map_of (purge now m) k = (case map_of m k of None \<Rightarrow> None | Some e \<Rightarrow> if kept now e then Some e else None)"
    and purge_distinct: "distinct (map fst m) \<Longrightarrow> distinct (map fst (purge now m))"
    and purge_length: "length (purge now m) \<le> length m"
    and kept_before: "kept later e \<Longrightarrow> now \<le> later \<Longrightarrow> kept now e"
begin

lemma purge_Some: "distinct (map fst m) \<Longrightarrow> map_of (purge now m) k = Some e \<longleftrightarrow> map_of m k = Some e \<and> kept now e"
  by (cases "map_of m k") (auto simp: purge_lookup)

lemma purge_None: "distinct (map fst m) \<Longrightarrow>
    map_of (purge now m) k = None \<longleftrightarrow> (\<forall>e. map_of m k = Some e \<longrightarrow> \<not> kept now e)"
  by (cases "map_of m k") (auto simp: purge_lookup)

lemma purge_later: "distinct (map fst m) \<Longrightarrow> now \<le> later \<Longrightarrow> map_of (purge later (purge now m)) = map_of (purge later m)"
  by (rule ext) (auto simp: purge_lookup purge_distinct dest: kept_before split: option.splits)

lemma purge_insert_length: "length m \<le> limit \<Longrightarrow> length (purge now m) < limit \<Longrightarrow>
    length (AList.update k e (purge now m)) \<le> limit"
  by (simp add: length_update)

end

text \<open>Both tables purge with a loop that deletes while it iterates, which is a filter.\<close>

lemma map_of_filter_values:
  "distinct (map fst m) \<Longrightarrow>
   map_of (filter (P \<circ> snd) m) k = (case map_of m k of None \<Rightarrow> None | Some e \<Rightarrow> if P e then Some e else None)"
proof (induction m)
  case (Cons x m)
  have none: "map_of m (fst x) = None" using Cons.prems by (simp add: map_of_eq_None_iff)
  then have "map_of (filter (P \<circ> snd) m) (fst x) = None"
    by (auto simp: map_of_eq_None_iff)
  then show ?case using Cons none by (cases x) (auto split: option.splits)
qed simp

lemma distinct_filter_keys: "distinct (map fst m) \<Longrightarrow> distinct (map fst (filter P m))"
  by (induction m) auto

subsection \<open>A concrete call, for the witnesses\<close>

definition sample_tool :: tool_descriptor where
  "sample_tool = \<lparr>td_id = ''t'', td_version = 1, td_effect = Write, td_approval = ''required'',
     td_limits = \<lparr>tl_cost_class = Low, tl_max_cost = 5, tl_max_concurrency = 2, tl_rate_per_minute = 60,
       tl_burst = 2, tl_timeout_ms = 1000\<rparr>\<rparr>"

definition sample_catalog_tool :: "string \<Rightarrow> int \<Rightarrow> audience \<Rightarrow> catalog_tool" where
  "sample_catalog_tool i v a = \<lparr>td_id = i, td_version = v, td_effect = ReadOnly, td_approval = ''none'',
     td_limits = td_limits sample_tool, ct_owner = ''module.m'', ct_audience = a, ct_surfaces = [Workspace, PublicSurface],
     ct_invocation = SourceInvocation ''s'' 1, ct_category = ''c'', ct_output_paths = [], ct_input_schema = JObj [],
     ct_output_schema = None, ct_output_contract = None, ct_permission = ''p'', ct_policy = ''p'',
     ct_idempotency = ''not-applicable'', ct_dry_run = False\<rparr>"

definition sample_context :: tool_context where
  "sample_context = \<lparr>tc_request_tool = (''t'', 1), tc_idempotency_key = Some ''k'',
     tc_delegation = Some (Some ''p'', Some ''a''), tc_descriptor = sample_tool, tc_input = ([], JsNull)\<rparr>"

end
