(* ===== verification/ToolIdempotency.thy ===== *)
theory ToolIdempotency
  imports ToolTypes
begin

text \<open>
  The in-memory idempotency coordinator, \<open>packages/runtime/src/tool-idempotency.ts\<close>.

  An entry is an object: its identity is a number, fresh for every entry, and the claim that
  created it holds that number. \<open>claim\<close> is asynchronous and suspends twice, at the digest of
  the input and at the digest of the reference, so it is three atomic segments (\<open>claim_begin\<close>,
  \<open>claim_check\<close>, \<open>claim_insert\<close>) between which other calls may run; \<open>claim\<close> is their
  composition without interleaving. SHA-256 and \<open>structuredClone\<close> belong to the platform and are
  parameters.
\<close>

subsection \<open>State\<close>

datatype entry_state = Pending | Completed | Uncertain

record 'r idem_entry =
  en_object :: nat
  en_reference :: string
  en_principal :: string
  en_application :: string
  en_tool :: string
  en_version :: int
  en_key :: string
  en_digest :: string
  en_state :: entry_state
  en_expires :: "int option"
  en_result :: "'r option"

record 'r coordinator =
  co_entries :: "(string, 'r idem_entry) js_map"
  co_next :: nat
  co_settled :: "nat list"
  co_retention :: int
  co_max :: int

definition default_retention_ms :: int where "default_retention_ms = 15 * 60 * 1000"
definition max_retention_ms :: int where "max_retention_ms = 24 * 60 * 60 * 1000"
definition max_key_length :: nat where "max_key_length = 128"
definition idem_max_records :: int where "idem_max_records = 10000"

definition new_coordinator :: "int option \<Rightarrow> int option \<Rightarrow> failure + 'r coordinator" where
  "new_coordinator retention_ms max_records =
     (let retention = (case retention_ms of None \<Rightarrow> default_retention_ms | Some r \<Rightarrow> r);
          limit = (case max_records of None \<Rightarrow> idem_max_records | Some m \<Rightarrow> m)
      in if \<not> is_safe_integer retention \<or> retention < 1 \<or> retention > max_retention_ms
            \<or> \<not> is_safe_integer limit \<or> limit < 1 \<or> limit > idem_max_records
         then Inl OtherException
         else Inr \<lparr>co_entries = [], co_next = 0, co_settled = [], co_retention = retention, co_max = limit\<rparr>)"

subsection \<open>Helpers\<close>

definition clock_invalid :: failure where
  "clock_invalid = gateway_failure ''IDEMPOTENCY_CLOCK_INVALID'' 500 ''The idempotency clock is invalid.''"

definition clock_now :: "int \<Rightarrow> failure + int" where
  "clock_now now = (if is_safe_integer now then Inr now else Inl clock_invalid)"

definition context_invalid :: "string \<Rightarrow> failure" where
  "context_invalid detail = gateway_failure ''IDEMPOTENCY_CONTEXT_INVALID'' 500 detail"

definition scope_of :: "tool_context \<Rightarrow> failure + string \<times> string" where
  "scope_of c =
     (case tc_delegation c of
        None \<Rightarrow> Inl (context_invalid ''The idempotency subject is invalid.'')
      | Some (subject, application) \<Rightarrow>
          (if \<not> valid_id subject \<or> \<not> valid_id application
           then Inl (context_invalid ''The idempotency subject is invalid.'')
           else Inr (the subject, the application)))"

definition key_of :: "tool_context \<Rightarrow> failure + string" where
  "key_of c =
     (if \<not> valid_id (tc_idempotency_key c)
      then Inl (gateway_failure ''IDEMPOTENCY_KEY_REQUIRED'' 400
             ''A bounded idempotency key is required for writes.'')
      else if length (the (tc_idempotency_key c)) > max_key_length
      then Inl (gateway_failure ''IDEMPOTENCY_KEY_INVALID'' 400 ''The idempotency key is too long.'')
      else if fst (tc_request_tool c) \<noteq> td_id (tc_descriptor c) \<or> snd (tc_request_tool c) \<noteq> td_version (tc_descriptor c)
      then Inl (context_invalid ''The idempotency tool context is inconsistent.'')
      else Inr (the (tc_idempotency_key c)))"

definition input_digest :: "(string \<Rightarrow> string) \<Rightarrow> js_data \<Rightarrow> failure + string" where
  "input_digest sha input =
     (case canonical_json input of
        Inl _ \<Rightarrow> Inl (gateway_failure ''IDEMPOTENCY_INPUT_INVALID'' 400
                   ''The idempotent input must be bounded JSON.'')
      | Inr text \<Rightarrow> Inr (sha text))"

definition reference_text :: "string \<Rightarrow> string \<Rightarrow> string \<Rightarrow> string \<Rightarrow> int \<Rightarrow> string" where
  "reference_text application key subject tool version =
     stringify 0 (sort_value (JObj [(''applicationId'', JStr application), (''idempotencyKey'', JStr key),
       (''principalId'', JStr subject), (''tool'', JObj [(''id'', JStr tool), (''version'', JNum version)])]))
     @ [CHR 0x0A]"

definition storage_key :: "string \<Rightarrow> string \<Rightarrow> string \<Rightarrow> int \<Rightarrow> string \<Rightarrow> string" where
  "storage_key application subject tool version key =
     nul_join [application, subject, tool, int_text version, key]"

definition in_progress_error :: "string \<Rightarrow> failure" where
  "in_progress_error reference = Gateway (ToolGatewayError ''IDEMPOTENCY_IN_PROGRESS'' 409
     ''An idempotent request is already in progress.''
     (''The idempotent request is already in progress: '' @ reference @ ''.''))"

definition conflict_error :: failure where
  "conflict_error = gateway_failure ''IDEMPOTENCY_KEY_REUSED'' 409
     ''The idempotency key was already used with different request data.''"

definition idem_capacity_error :: failure where
  "idem_capacity_error = gateway_failure ''IDEMPOTENCY_CAPACITY_EXCEEDED'' 429
     ''The idempotency record limit was reached.''"

subsection \<open>The claim\<close>

definition idem_kept :: "int \<Rightarrow> 'r idem_entry \<Rightarrow> bool" where
  "idem_kept now e \<longleftrightarrow>
     \<not> (en_state e \<noteq> Pending \<and> (case en_expires e of None \<Rightarrow> False | Some t \<Rightarrow> t \<le> now))"

definition idem_purge :: "int \<Rightarrow> (string, 'r idem_entry) js_map \<Rightarrow> (string, 'r idem_entry) js_map" where
  "idem_purge now m = filter (idem_kept now \<circ> snd) m"

text \<open>What the closure of a suspended claim holds.\<close>

record claim_request =
  cq_storage_key :: string
  cq_application :: string
  cq_principal :: string
  cq_tool :: string
  cq_version :: int
  cq_key :: string
  cq_digest :: string

text \<open>A returned claim: its status, and for a claimed or replayed one what its context holds.\<close>

datatype 'r idem_claim =
    NotApplicable
  | Replay (claim_reference: string) (claim_digest: string) (claim_replay: "'r option")
  | Claimed (claim_key: string) (claim_object: nat) (claim_reference: string) (claim_digest: string)

datatype begin_result = NoClaim | Suspended claim_request

definition claim_begin :: "(string \<Rightarrow> string) \<Rightarrow> int \<Rightarrow> tool_context \<Rightarrow> 'r coordinator \<Rightarrow>
    (failure + begin_result) \<times> 'r coordinator" where
  "claim_begin sha now c s =
     (if td_effect (tc_descriptor c) = ReadOnly then (Inr NoClaim, s)
      else case clock_now now of
        Inl e \<Rightarrow> (Inl e, s)
      | Inr n \<Rightarrow>
          (res_bind (scope_of c) (\<lambda>(subject, application).
             res_bind (key_of c) (\<lambda>key.
             res_bind (input_digest sha (tc_input c)) (\<lambda>digest.
               Inr (Suspended
                 \<lparr>cq_storage_key = storage_key application subject (td_id (tc_descriptor c))
                    (td_version (tc_descriptor c)) key,
                  cq_application = application, cq_principal = subject, cq_tool = td_id (tc_descriptor c),
                  cq_version = td_version (tc_descriptor c), cq_key = key, cq_digest = digest\<rparr>)))),
           s\<lparr>co_entries := idem_purge n (co_entries s)\<rparr>))"

text \<open>The second segment: an error, the claim of a replay, or nothing yet.\<close>

definition claim_check :: "claim_request \<Rightarrow> 'r coordinator \<Rightarrow> failure + 'r idem_claim option" where
  "claim_check q s =
     (case map_of (co_entries s) (cq_storage_key q) of
        Some existing \<Rightarrow>
          (if en_digest existing \<noteq> cq_digest q then Inl conflict_error
           else if en_state existing \<noteq> Completed then Inl (in_progress_error (en_reference existing))
           else Inr (Some (Replay (en_reference existing) (en_digest existing) (en_result existing))))
      | None \<Rightarrow>
          (if int (length (co_entries s)) \<ge> co_max s then Inl idem_capacity_error else Inr None))"

text \<open>The last segment creates the entry, whatever the table holds by then.\<close>

definition claim_insert :: "(string \<Rightarrow> string) \<Rightarrow> claim_request \<Rightarrow> 'r coordinator \<Rightarrow> 'r idem_claim \<times> 'r coordinator" where
  "claim_insert sha q s =
     (let reference = sha (reference_text (cq_application q) (cq_key q) (cq_principal q) (cq_tool q) (cq_version q));
          entry = \<lparr>en_object = co_next s, en_reference = reference, en_principal = cq_principal q,
                   en_application = cq_application q, en_tool = cq_tool q, en_version = cq_version q,
                   en_key = cq_key q, en_digest = cq_digest q, en_state = Pending, en_expires = None, en_result = None\<rparr>
      in (Claimed (cq_storage_key q) (co_next s) reference (cq_digest q),
          s\<lparr>co_entries := AList.update (cq_storage_key q) entry (co_entries s), co_next := Suc (co_next s)\<rparr>))"

definition claim :: "(string \<Rightarrow> string) \<Rightarrow> int \<Rightarrow> tool_context \<Rightarrow> 'r coordinator \<Rightarrow>
    (failure + 'r idem_claim) \<times> 'r coordinator" where
  "claim sha now c s =
     (case claim_begin sha now c s of
        (Inl e, s') \<Rightarrow> (Inl e, s')
      | (Inr NoClaim, s') \<Rightarrow> (Inr NotApplicable, s')
      | (Inr (Suspended q), s') \<Rightarrow>
          (case claim_check q s' of
             Inl e \<Rightarrow> (Inl e, s')
           | Inr (Some replay) \<Rightarrow> (Inr replay, s')
           | Inr None \<Rightarrow> (case claim_insert sha q s' of (claimed, s'') \<Rightarrow> (Inr claimed, s''))))"

subsection \<open>Settling a claim\<close>

text \<open>The entry a claim created, as long as the table still holds it and it is pending.\<close>

definition own_pending :: "string \<Rightarrow> nat \<Rightarrow> 'r coordinator \<Rightarrow> 'r idem_entry option" where
  "own_pending key obj s =
     (case map_of (co_entries s) key of
        None \<Rightarrow> None
      | Some e \<Rightarrow> if en_object e \<noteq> obj \<or> en_state e \<noteq> Pending then None else Some e)"

definition expiry_from :: "int \<Rightarrow> 'r coordinator \<Rightarrow> failure + int" where
  "expiry_from now s =
     res_bind (clock_now now) (\<lambda>n.
       if is_safe_integer (n + co_retention s) then Inr (n + co_retention s) else Inl clock_invalid)"

definition complete_claim :: "('r \<Rightarrow> 'r option) \<Rightarrow> int \<Rightarrow> 'r \<Rightarrow> 'r idem_claim \<Rightarrow> 'r coordinator \<Rightarrow>
    (failure + unit) \<times> 'r coordinator" where
  "complete_claim clone now result c s =
     (case c of
        Claimed key obj reference digest \<Rightarrow>
          (if obj \<in> set (co_settled s) then (Inr (), s)
           else case own_pending key obj s of
             None \<Rightarrow> (Inr (), s)
           | Some e \<Rightarrow>
               (case clone result of
                  None \<Rightarrow> (Inl (gateway_failure ''IDEMPOTENCY_RESULT_INVALID'' 500
                                 ''The idempotent result must be structured data.''), s)
                | Some stored \<Rightarrow>
                    (case expiry_from now s of
                       Inl err \<Rightarrow> (Inl err, s)
                     | Inr expires \<Rightarrow>
                         (Inr (), s\<lparr>co_settled := obj # co_settled s,
                            co_entries := AList.update key
                              (e\<lparr>en_result := Some stored, en_state := Completed, en_expires := Some expires\<rparr>)
                              (co_entries s)\<rparr>))))
      | _ \<Rightarrow> (Inr (), s))"

definition fail_claim :: "int \<Rightarrow> bool \<Rightarrow> 'r idem_claim \<Rightarrow> 'r coordinator \<Rightarrow> (failure + unit) \<times> 'r coordinator" where
  "fail_claim now retain c s =
     (case c of
        Claimed key obj reference digest \<Rightarrow>
          (if obj \<in> set (co_settled s) then (Inr (), s)
           else let s' = s\<lparr>co_settled := obj # co_settled s\<rparr>
                in case own_pending key obj s of
                  None \<Rightarrow> (Inr (), s')
                | Some e \<Rightarrow>
                    (if retain
                     then (case expiry_from now s of
                             Inl err \<Rightarrow> (Inl err, s')
                           | Inr expires \<Rightarrow>
                               (Inr (), s'\<lparr>co_entries := AList.update key
                                  (e\<lparr>en_state := Uncertain, en_expires := Some expires\<rparr>) (co_entries s)\<rparr>))
                     else (Inr (), s'\<lparr>co_entries := AList.delete key (co_entries s)\<rparr>)))
      | _ \<Rightarrow> (Inr (), s))"

end
