(* ===== verification/ToolIdempotencyProperties.thy ===== *)
theory ToolIdempotencyProperties
  imports ToolIdempotency
begin

text \<open>
  What the coordinator guarantees: the limit of its table and the replay of results over runs of whole
  operations, at most one execution of a key over runs whose claims are suspended and go on in any
  order, and what the suspension between check and insertion breaks.
\<close>

interpretation idem_records: expiring_records idem_purge idem_kept
proof
  fix m :: "(string, 'r idem_entry) js_map" and now k
  assume "distinct (map fst m)"
  then show "map_of (idem_purge now m) k =
      (case map_of m k of None \<Rightarrow> None | Some e \<Rightarrow> if idem_kept now e then Some e else None)"
    unfolding idem_purge_def by (rule map_of_filter_values)
qed (auto simp: idem_purge_def distinct_filter_keys idem_kept_def split: option.splits)

subsection \<open>Runs of operations\<close>

datatype 'r idem_op =
    OpClaim (op_time: int) tool_context
  | OpComplete (op_time: int) 'r "'r idem_claim"
  | OpFail (op_time: int) bool "'r idem_claim"

text \<open>Every operation with its outcome: the claim of a claim call, nothing for the others.\<close>

fun idem_exec :: "(string \<Rightarrow> string) \<Rightarrow> ('r \<Rightarrow> 'r option) \<Rightarrow> 'r idem_op \<Rightarrow> 'r coordinator \<Rightarrow>
    'r idem_claim option \<times> 'r coordinator" where
  "idem_exec sha clone (OpClaim now c) s =
     (case claim sha now c s of (Inl e, s') \<Rightarrow> (None, s') | (Inr cl, s') \<Rightarrow> (Some cl, s'))"
| "idem_exec sha clone (OpComplete now r cl) s = (None, snd (complete_claim clone now r cl s))"
| "idem_exec sha clone (OpFail now retain cl) s = (None, snd (fail_claim now retain cl s))"

fun idem_run :: "(string \<Rightarrow> string) \<Rightarrow> ('r \<Rightarrow> 'r option) \<Rightarrow> 'r idem_op list \<Rightarrow> 'r coordinator \<Rightarrow>
    'r idem_claim list \<times> 'r coordinator" where
  "idem_run sha clone [] s = ([], s)"
| "idem_run sha clone (op # ops) s =
     (let (out, s') = idem_exec sha clone op s; (outs, s'') = idem_run sha clone ops s'
      in (case out of None \<Rightarrow> outs | Some cl \<Rightarrow> cl # outs, s''))"

subsection \<open>One operation\<close>

lemma own_pending_Some:
  "own_pending key obj s = Some e \<longleftrightarrow> map_of (co_entries s) key = Some e \<and> en_object e = obj \<and> en_state e = Pending"
  by (auto simp: own_pending_def split: option.splits)

lemma expiry_from_Inr: "expiry_from now s = Inr x \<Longrightarrow> x = now + co_retention s"
  by (auto simp: expiry_from_def clock_now_def split: if_splits)

text \<open>The three ways an atomic claim can end.\<close>

lemma claim_cases:
  obtains (refused) e where "claim sha now c s = (Inl e, s)"
    | (read_only) "claim sha now c s = (Inr NotApplicable, s)" "td_effect (tc_descriptor c) = ReadOnly"
    | (purged) e where "claim sha now c s = (Inl e, s\<lparr>co_entries := idem_purge now (co_entries s)\<rparr>)"
    | (replay) q e where "claim sha now c s =
          (Inr (Replay (en_reference e) (en_digest e) (en_result e)), s\<lparr>co_entries := idem_purge now (co_entries s)\<rparr>)"
        "fst (claim_begin sha now c s) = Inr (Suspended q)"
        "map_of (idem_purge now (co_entries s)) (cq_storage_key q) = Some e" "en_state e = Completed" "en_digest e = cq_digest q"
    | (claimed) q where
        "claim sha now c s = (Inr (fst (claim_insert sha q (s\<lparr>co_entries := idem_purge now (co_entries s)\<rparr>))),
           snd (claim_insert sha q (s\<lparr>co_entries := idem_purge now (co_entries s)\<rparr>)))"
        "fst (claim_begin sha now c s) = Inr (Suspended q)"
        "map_of (idem_purge now (co_entries s)) (cq_storage_key q) = None"
        "int (length (idem_purge now (co_entries s))) < co_max s"
proof (cases "td_effect (tc_descriptor c) = ReadOnly \<or> \<not> is_safe_integer now")
  case True
  show thesis
  proof (cases "td_effect (tc_descriptor c) = ReadOnly")
    case True
    then show thesis by (intro read_only) (simp_all add: claim_def claim_begin_def)
  next
    case False
    with True show thesis by (intro refused [of clock_invalid]) (simp add: claim_def claim_begin_def clock_now_def)
  qed
next
  case False
  let ?s = "s\<lparr>co_entries := idem_purge now (co_entries s)\<rparr>"
  obtain b where b: "claim_begin sha now c s = (b, ?s)" using False by (simp add: claim_begin_def clock_now_def)
  show thesis
  proof (cases b)
    case (Inl e)
    then show thesis using b by (intro purged) (simp add: claim_def)
  next
    case (Inr r)
    show thesis
    proof (cases r)
      case NoClaim
      then have False using b Inr False
        by (auto simp: claim_begin_def clock_now_def)
      then show thesis ..
    next
      case (Suspended q)
      have first: "fst (claim_begin sha now c s) = Inr (Suspended q)" using b Inr Suspended by simp
      show thesis
      proof (cases "claim_check q ?s")
        case (Inl e)
        then show thesis using b \<open>b = Inr r\<close> Suspended by (intro purged) (simp add: claim_def)
      next
        case check: (Inr x)
        show thesis
        proof (cases x)
          case None
          then show thesis using check first b \<open>b = Inr r\<close> Suspended
            by (intro claimed [of q]) (auto simp: claim_def claim_check_def split: option.splits if_splits prod.splits)
        next
          case (Some cl)
          with check obtain e where "map_of (idem_purge now (co_entries s)) (cq_storage_key q) = Some e"
            "en_state e = Completed" "en_digest e = cq_digest q" "cl = Replay (en_reference e) (en_digest e) (en_result e)"
            by (auto simp: claim_check_def split: option.splits if_splits)
          then show thesis using check Some first b \<open>b = Inr r\<close> Suspended
            by (intro replay [of e q]) (simp_all add: claim_def)
        qed
      qed
    qed
  qed
qed

subsection \<open>The table stays within its limit\<close>

definition coordinator_ok :: "'r coordinator \<Rightarrow> bool" where
  "coordinator_ok s \<longleftrightarrow> distinct (map fst (co_entries s)) \<and> int (length (co_entries s)) \<le> co_max s"

lemma length_update_present: "map_of m k = Some v \<Longrightarrow> length (AList.update k w m) = length m"
  by (simp add: length_update) (metis domI dom_map_of_conv_image_fst)

lemma coordinator_ok_claim: "coordinator_ok s \<Longrightarrow> coordinator_ok (snd (claim sha now c s)) \<and>
    co_max (snd (claim sha now c s)) = co_max s \<and> co_retention (snd (claim sha now c s)) = co_retention s"
proof (cases rule: claim_cases [where sha = sha and now = now and c = c and s = s])
  case (claimed q)
  assume ok: "coordinator_ok s"
  then have "distinct (map fst (idem_purge now (co_entries s)))"
    by (simp add: coordinator_ok_def idem_records.purge_distinct)
  then show ?thesis
    using claimed(1,4) length_update [of "cq_storage_key q" _ "idem_purge now (co_entries s)"]
    by (auto simp: claim_insert_def Let_def coordinator_ok_def)
qed (auto simp: coordinator_ok_def idem_records.purge_distinct intro: order_trans [OF of_nat_mono [OF idem_records.purge_length]])

lemma coordinator_ok_settle:
  "coordinator_ok s \<Longrightarrow> own_pending key obj s = Some e \<Longrightarrow>
   coordinator_ok (s\<lparr>co_settled := xs, co_entries := AList.update key e' (co_entries s)\<rparr>)"
  by (auto simp: coordinator_ok_def own_pending_Some length_update_present)

lemma coordinator_ok_complete: "coordinator_ok s \<Longrightarrow> coordinator_ok (snd (complete_claim clone now r cl s)) \<and>
    co_max (snd (complete_claim clone now r cl s)) = co_max s \<and>
    co_retention (snd (complete_claim clone now r cl s)) = co_retention s"
  by (cases cl) (auto simp: complete_claim_def coordinator_ok_settle split: option.splits sum.splits)

lemma coordinator_ok_fail: "coordinator_ok s \<Longrightarrow> coordinator_ok (snd (fail_claim now retain cl s)) \<and>
    co_max (snd (fail_claim now retain cl s)) = co_max s \<and> co_retention (snd (fail_claim now retain cl s)) = co_retention s"
proof (cases cl)
  case (Claimed key obj reference digest)
  assume ok: "coordinator_ok s"
  have "length (AList.delete key (co_entries s)) \<le> length (co_entries s)" by (rule length_delete_le)
  then show ?thesis using ok Claimed
    by (auto simp: fail_claim_def Let_def coordinator_ok_settle coordinator_ok_def own_pending_Some length_update_present
        split: option.splits sum.splits)
qed (simp_all add: fail_claim_def)

lemma coordinator_ok_exec: "coordinator_ok s \<Longrightarrow> coordinator_ok (snd (idem_exec sha clone op s)) \<and>
    co_max (snd (idem_exec sha clone op s)) = co_max s \<and> co_retention (snd (idem_exec sha clone op s)) = co_retention s"
proof (cases op)
  case (OpClaim now c)
  have "snd (idem_exec sha clone op s) = snd (claim sha now c s)"
    by (simp add: OpClaim split: prod.split sum.split)
  then show "coordinator_ok s \<Longrightarrow> ?thesis" by (simp add: coordinator_ok_claim)
qed (simp_all add: coordinator_ok_complete coordinator_ok_fail)

lemma idem_run_Cons_state: "snd (idem_run sha clone (op # ops) s) = snd (idem_run sha clone ops (snd (idem_exec sha clone op s)))"
  by (auto simp: Let_def split: prod.splits)

lemma coordinator_ok_run: "coordinator_ok s \<Longrightarrow> coordinator_ok (snd (idem_run sha clone ops s)) \<and>
    co_max (snd (idem_run sha clone ops s)) = co_max s"
proof (induction ops arbitrary: s)
  case (Cons op ops)
  show ?case unfolding idem_run_Cons_state
    using Cons.IH [of "snd (idem_exec sha clone op s)"] coordinator_ok_exec [OF Cons.prems] by metis
qed simp

text \<open>However claims are made, completed and failed one after another, the table never holds more
  than the configured number of records, and that number is at most 10000.\<close>

theorem idempotency_capacity:
  assumes "new_coordinator retention_ms max_records = Inr s"
  shows "int (length (co_entries (snd (idem_run sha clone ops s)))) \<le> co_max s \<and> co_max s \<le> 10000"
proof -
  have "coordinator_ok s" "co_max s \<le> 10000"
    using assms by (auto simp: new_coordinator_def Let_def coordinator_ok_def idem_max_records_def split: if_splits)
  then show ?thesis using coordinator_ok_run [of s sha clone ops] by (auto simp: coordinator_ok_def)
qed

subsection \<open>Suspended claims\<close>

text \<open>
  The coordinator with its suspended claims: those that wait for the digest of their input, before the
  check of the table, and those that passed the check and wait for the digest of their reference.
\<close>

record 'r claims_state =
  cs_begun :: "claim_request list"
  cs_checked :: "claim_request list"
  cs_coordinator :: "'r coordinator"

definition no_claims :: "'r coordinator \<Rightarrow> 'r claims_state" where
  "no_claims k = \<lparr>cs_begun = [], cs_checked = [], cs_coordinator = k\<rparr>"

text \<open>A call of \<open>claim\<close>, a suspended claim that goes on, or the settling of a claim; suspended claims go on in any order.\<close>

datatype 'r claim_step =
    StepBegin int tool_context
  | StepCheck nat
  | StepInsert nat
  | StepComplete int 'r "'r idem_claim"
  | StepFail int bool "'r idem_claim"

definition remove_nth :: "nat \<Rightarrow> 'a list \<Rightarrow> 'a list" where
  "remove_nth i xs = take i xs @ drop (Suc i) xs"

fun step_exec :: "(string \<Rightarrow> string) \<Rightarrow> ('r \<Rightarrow> 'r option) \<Rightarrow> 'r claim_step \<Rightarrow> 'r claims_state \<Rightarrow>
    'r idem_claim option \<times> 'r claims_state" where
  "step_exec sha clone (StepBegin now c) s =
     (case claim_begin sha now c (cs_coordinator s) of
        (Inl e, k) \<Rightarrow> (None, s\<lparr>cs_coordinator := k\<rparr>)
      | (Inr NoClaim, k) \<Rightarrow> (Some NotApplicable, s\<lparr>cs_coordinator := k\<rparr>)
      | (Inr (Suspended q), k) \<Rightarrow> (None, s\<lparr>cs_begun := cs_begun s @ [q], cs_coordinator := k\<rparr>))"
| "step_exec sha clone (StepCheck i) s =
     (if i < length (cs_begun s)
      then let s' = s\<lparr>cs_begun := remove_nth i (cs_begun s)\<rparr>
           in case claim_check (cs_begun s ! i) (cs_coordinator s) of
                Inl e \<Rightarrow> (None, s')
              | Inr (Some cl) \<Rightarrow> (Some cl, s')
              | Inr None \<Rightarrow> (None, s'\<lparr>cs_checked := cs_checked s @ [cs_begun s ! i]\<rparr>)
      else (None, s))"
| "step_exec sha clone (StepInsert i) s =
     (if i < length (cs_checked s)
      then (case claim_insert sha (cs_checked s ! i) (cs_coordinator s) of
              (cl, k) \<Rightarrow> (Some cl, s\<lparr>cs_checked := remove_nth i (cs_checked s), cs_coordinator := k\<rparr>))
      else (None, s))"
| "step_exec sha clone (StepComplete now r cl) s =
     (None, s\<lparr>cs_coordinator := snd (complete_claim clone now r cl (cs_coordinator s))\<rparr>)"
| "step_exec sha clone (StepFail now retain cl) s =
     (None, s\<lparr>cs_coordinator := snd (fail_claim now retain cl (cs_coordinator s))\<rparr>)"

text \<open>The claims that a sequence of steps returns, and the state after it.\<close>

fun step_run :: "(string \<Rightarrow> string) \<Rightarrow> ('r \<Rightarrow> 'r option) \<Rightarrow> 'r claim_step list \<Rightarrow> 'r claims_state \<Rightarrow>
    'r idem_claim list \<times> 'r claims_state" where
  "step_run sha clone [] s = ([], s)"
| "step_run sha clone (x # xs) s =
     (let (out, s') = step_exec sha clone x s; (outs, s'') = step_run sha clone xs s'
      in (case out of None \<Rightarrow> outs | Some cl \<Rightarrow> cl # outs, s''))"

lemma step_run_Cons:
  "step_run sha clone (x # xs) s =
     ((case fst (step_exec sha clone x s) of None \<Rightarrow> [] | Some cl \<Rightarrow> [cl]) @ fst (step_run sha clone xs (snd (step_exec sha clone x s))),
      snd (step_run sha clone xs (snd (step_exec sha clone x s))))"
  by (simp split: prod.split option.split)

text \<open>The atomic \<open>claim\<close> is the three segments with nothing between them.\<close>

lemma claim_as_steps:
  assumes "claim sha now c k = (Inr cl, k')"
  shows "step_run sha clone [StepBegin now c, StepCheck 0, StepInsert 0] (no_claims k) = ([cl], no_claims k')"
  using assms
  by (auto simp: claim_def no_claims_def remove_nth_def Let_def
      split: prod.splits sum.splits begin_result.splits option.splits)

text \<open>What every step keeps of the coordinator.\<close>

lemma begin_coordinator:
  assumes "distinct (map fst (co_entries k))"
  shows "distinct (map fst (co_entries (snd (claim_begin sha now c k))))" "co_retention (snd (claim_begin sha now c k)) = co_retention k"
    "co_next (snd (claim_begin sha now c k)) = co_next k"
  using assms by (auto simp: claim_begin_def idem_records.purge_distinct split: sum.splits)

lemma complete_coordinator:
  assumes "distinct (map fst (co_entries k))"
  shows "distinct (map fst (co_entries (snd (complete_claim clone now r cl k))))"
    "co_retention (snd (complete_claim clone now r cl k)) = co_retention k" "co_next (snd (complete_claim clone now r cl k)) = co_next k"
  using assms by (cases cl; auto simp: complete_claim_def split: option.splits sum.splits)+

lemma fail_coordinator:
  assumes "distinct (map fst (co_entries k))"
  shows "distinct (map fst (co_entries (snd (fail_claim now retain cl k))))"
    "co_retention (snd (fail_claim now retain cl k)) = co_retention k" "co_next (snd (fail_claim now retain cl k)) = co_next k"
  using assms by (cases cl; auto simp: fail_claim_def Let_def split: option.splits sum.splits)+

lemma step_coordinator:
  assumes "distinct (map fst (co_entries (cs_coordinator s)))"
  shows "distinct (map fst (co_entries (cs_coordinator (snd (step_exec sha clone x s))))) \<and>
    co_retention (cs_coordinator (snd (step_exec sha clone x s))) = co_retention (cs_coordinator s)"
  using assms
proof (cases x)
  case (StepBegin now c)
  then show ?thesis
    using begin_coordinator [OF assms, of sha now c] by (auto split: prod.splits sum.splits begin_result.splits)
next
  case (StepCheck i)
  then show ?thesis using assms by (auto simp: Let_def split: sum.splits option.splits)
next
  case (StepInsert i)
  then show ?thesis using assms by (auto simp: claim_insert_def Let_def)
qed (simp_all add: complete_coordinator fail_coordinator)

lemma run_coordinator:
  assumes "distinct (map fst (co_entries (cs_coordinator s)))"
  shows "distinct (map fst (co_entries (cs_coordinator (snd (step_run sha clone xs s))))) \<and>
    co_retention (cs_coordinator (snd (step_run sha clone xs s))) = co_retention (cs_coordinator s)"
  using assms
proof (induction xs arbitrary: s)
  case (Cons x xs)
  show ?case using Cons.IH [of "snd (step_exec sha clone x s)"] step_coordinator [OF Cons.prems, of sha clone x]
    by (simp add: step_run_Cons del: step_run.simps)
qed simp

subsection \<open>At most one execution per key\<close>

text \<open>A key is held by the entry of a claim, \<open>obj\<close> or a later one, that is pending or retained until some time.\<close>

definition holds_key :: "string \<Rightarrow> nat \<Rightarrow> int \<Rightarrow> 'r coordinator \<Rightarrow> bool" where
  "holds_key key obj until k \<longleftrightarrow> distinct (map fst (co_entries k)) \<and> obj \<le> co_next k \<and>
     (\<exists>e. map_of (co_entries k) key = Some e \<and> obj \<le> en_object e \<and>
        (en_state e = Pending \<or> (\<exists>x. en_expires e = Some x \<and> until \<le> x)))"

lemma holds_key_begin:
  assumes "holds_key key obj until k" "now < until"
  shows "holds_key key obj until (snd (claim_begin sha now c k))"
proof -
  obtain e where e: "map_of (co_entries k) key = Some e" "obj \<le> en_object e"
    "en_state e = Pending \<or> (\<exists>x. en_expires e = Some x \<and> until \<le> x)" "distinct (map fst (co_entries k))"
    using assms(1) by (auto simp: holds_key_def)
  then have "idem_kept now e" using assms(2) by (auto simp: idem_kept_def)
  then have "holds_key key obj until (k\<lparr>co_entries := idem_purge now (co_entries k)\<rparr>)"
    using e assms(1) by (auto simp: holds_key_def idem_records.purge_Some idem_records.purge_distinct)
  then show ?thesis using assms(1) by (auto simp: claim_begin_def clock_now_def split: sum.splits if_splits)
qed

lemma holds_key_check: "holds_key key obj until k \<Longrightarrow> cq_storage_key q = key \<Longrightarrow> claim_check q k \<noteq> Inr None"
  by (auto simp: holds_key_def claim_check_def split: if_splits)

lemma claim_check_not_claimed: "claim_check q k \<noteq> Inr (Some (Claimed key obj r d))"
  by (auto simp: claim_check_def split: option.splits)

lemma holds_key_insert: "holds_key key obj until k \<Longrightarrow> holds_key key obj until (snd (claim_insert sha q k))"
  by (auto simp: claim_insert_def holds_key_def Let_def)

lemma holds_key_complete:
  assumes "holds_key key obj until k" "until \<le> now + co_retention k"
  shows "holds_key key obj until (snd (complete_claim clone now r cl k))"
proof (cases cl)
  case (Claimed key' obj' reference digest)
  then show ?thesis
    using assms by (auto simp: complete_claim_def holds_key_def own_pending_Some dest!: expiry_from_Inr
        split: option.splits sum.splits)
qed (use assms in \<open>simp_all add: complete_claim_def\<close>)

lemma holds_key_fail:
  assumes "holds_key key obj until k" "until \<le> now + co_retention k"
    "retain \<or> (\<forall>obj' r d. obj \<le> obj' \<longrightarrow> cl \<noteq> Claimed key obj' r d)"
  shows "holds_key key obj until (snd (fail_claim now retain cl k))"
proof (cases cl)
  case (Claimed key' obj' reference digest)
  then show ?thesis
    using assms by (auto simp: fail_claim_def holds_key_def own_pending_Some Let_def dest!: expiry_from_Inr
        split: option.splits sum.splits)
qed (use assms in \<open>simp_all add: fail_claim_def\<close>)

text \<open>Steps that read the clock inside a window, and steps that fail a claim of a key without retention.\<close>

fun step_within :: "int \<Rightarrow> int \<Rightarrow> 'r claim_step \<Rightarrow> bool" where
  "step_within t until (StepBegin now c) \<longleftrightarrow> t \<le> now \<and> now < until"
| "step_within t until (StepComplete now r cl) \<longleftrightarrow> t \<le> now \<and> now < until"
| "step_within t until (StepFail now retain cl) \<longleftrightarrow> t \<le> now \<and> now < until"
| "step_within t until (StepCheck i) \<longleftrightarrow> True"
| "step_within t until (StepInsert i) \<longleftrightarrow> True"

fun gives_up :: "string \<Rightarrow> nat \<Rightarrow> 'r claim_step \<Rightarrow> bool" where
  "gives_up key obj (StepFail now False (Claimed key' obj' r d)) \<longleftrightarrow> key' = key \<and> obj \<le> obj'"
| "gives_up key obj _ \<longleftrightarrow> False"

fun executes :: "string \<Rightarrow> 'r idem_claim \<Rightarrow> bool" where
  "executes key (Claimed key' obj r d) \<longleftrightarrow> key' = key"
| "executes key _ \<longleftrightarrow> False"

text \<open>The suspended claims of a key that passed the check.\<close>

definition past_check :: "string \<Rightarrow> 'r claims_state \<Rightarrow> nat" where
  "past_check key s = length (filter (\<lambda>q. cq_storage_key q = key) (cs_checked s))"

lemma filter_remove_nth:
  "i < length xs \<Longrightarrow> length (filter P xs) = length (filter P (remove_nth i xs)) + (if P (xs ! i) then 1 else 0)"
proof -
  assume "i < length xs"
  then have "xs = take i xs @ xs ! i # drop (Suc i) xs" by (rule id_take_nth_drop)
  then have "length (filter P xs) = length (filter P (take i xs @ xs ! i # drop (Suc i) xs))" by simp
  then show ?thesis by (simp add: remove_nth_def)
qed

text \<open>While a key is held, a claim of the key is returned only to a caller that was past the check.\<close>

lemma holds_key_step:
  assumes "holds_key key obj (t + co_retention k) (cs_coordinator s)" "co_retention (cs_coordinator s) = co_retention k"
    "step_within t (t + co_retention k) x" "\<not> gives_up key obj x"
  shows "holds_key key obj (t + co_retention k) (cs_coordinator (snd (step_exec sha clone x s))) \<and>
    (case fst (step_exec sha clone x s) of None \<Rightarrow> 0 | Some cl \<Rightarrow> if executes key cl then 1 else 0)
      + past_check key (snd (step_exec sha clone x s)) \<le> past_check key s"
proof (cases x)
  case (StepBegin now c)
  then show ?thesis
    using holds_key_begin [OF assms(1), of now sha c] assms(3)
    by (auto simp: past_check_def split: prod.splits sum.splits begin_result.splits)
next
  case (StepCheck i)
  let ?check = "claim_check (cs_begun s ! i) (cs_coordinator s)"
  have "\<not> executes key cl" if "?check = Inr (Some cl)" for cl
    using that by (cases cl) (auto simp: claim_check_not_claimed)
  moreover have "cq_storage_key (cs_begun s ! i) \<noteq> key" if "?check = Inr None" using that holds_key_check [OF assms(1)] by blast
  ultimately show ?thesis
    using assms(1) by (auto simp: StepCheck past_check_def Let_def split: sum.split option.split)
next
  case (StepInsert i)
  show ?thesis
    using assms(1) holds_key_insert [OF assms(1), of sha "cs_checked s ! i"]
      filter_remove_nth [of i "cs_checked s" "\<lambda>q. cq_storage_key q = key"]
    by (auto simp: StepInsert past_check_def claim_insert_def Let_def)
next
  case (StepComplete now r cl)
  then show ?thesis using holds_key_complete [OF assms(1)] assms(2,3) by (simp add: past_check_def)
next
  case (StepFail now retain cl)
  have "retain \<or> (\<forall>obj' r d. obj \<le> obj' \<longrightarrow> cl \<noteq> Claimed key obj' r d)"
    using assms(4) StepFail by (cases retain) auto
  then show ?thesis using holds_key_fail [OF assms(1)] assms(2,3) StepFail by (simp add: past_check_def)
qed

lemma holds_key_run:
  assumes "holds_key key obj (t + co_retention k) (cs_coordinator s)" "co_retention (cs_coordinator s) = co_retention k"
    "\<forall>x \<in> set xs. step_within t (t + co_retention k) x \<and> \<not> gives_up key obj x"
  shows "length (filter (executes key) (fst (step_run sha clone xs s))) \<le> past_check key s"
  using assms
proof (induction xs arbitrary: s)
  case (Cons x xs)
  let ?s = "snd (step_exec sha clone x s)"
  have step: "holds_key key obj (t + co_retention k) (cs_coordinator ?s)"
    "(case fst (step_exec sha clone x s) of None \<Rightarrow> 0 | Some cl \<Rightarrow> if executes key cl then 1 else 0) + past_check key ?s \<le> past_check key s"
    using holds_key_step [OF Cons.prems(1,2), of x sha clone] Cons.prems(3) by auto
  have "distinct (map fst (co_entries (cs_coordinator s)))" using Cons.prems(1) by (simp add: holds_key_def)
  then have "co_retention (cs_coordinator ?s) = co_retention k"
    using step_coordinator [of s sha clone x] Cons.prems(2) by simp
  with step(1) have "length (filter (executes key) (fst (step_run sha clone xs ?s))) \<le> past_check key ?s"
    using Cons.IH Cons.prems(3) by simp
  then show ?case using step(2) unfolding step_run_Cons by (simp split: option.splits if_splits)
qed simp

text \<open>C22: take any state that a new coordinator reaches by calls, suspended claims that go on in any order, and
  claims that are settled, and let a claim of a key insert its entry there. As long as the clock readings
  that follow lie in a window shorter than the retention time, and neither this claim nor a later one of
  the key is failed without retention, no call executes under the key again, however the steps interleave,
  except the claims that were already past the check of the table at that moment: the later executions are
  at most as many as those, and none if there are none. So a claim that checks the table after the insertion
  never executes: not while the first call runs, not after it completed, not after it ended uncertainly.\<close>

theorem idempotency_at_most_once:
  assumes "new_coordinator retention_ms max_records = Inr k" "step_run sha clone before (no_claims k) = (outs, s)"
    and "step_exec sha clone (StepInsert i) s = (Some (Claimed key obj reference digest), s')"
    and "\<forall>x \<in> set xs. step_within t (t + co_retention k) x \<and> \<not> gives_up key obj x"
  shows "length (filter (executes key) (fst (step_run sha clone xs s')))
    \<le> length (filter (\<lambda>q. cq_storage_key q = key) (cs_checked s'))"
proof -
  have "distinct (map fst (co_entries k))" using assms(1) by (auto simp: new_coordinator_def Let_def split: if_splits)
  then have s: "distinct (map fst (co_entries (cs_coordinator s)))" "co_retention (cs_coordinator s) = co_retention k"
    using run_coordinator [of "no_claims k" sha clone before] assms(2) by (simp_all add: no_claims_def)
  have "holds_key key obj (t + co_retention k) (cs_coordinator s')"
    using s(1) assms(3) by (auto simp: holds_key_def claim_insert_def Let_def split: if_splits)
  moreover have "co_retention (cs_coordinator s') = co_retention k"
    using step_coordinator [OF s(1), of sha clone "StepInsert i"] assms(3) s(2) by simp
  ultimately show ?thesis using holds_key_run assms(4) unfolding past_check_def by blast
qed

subsection \<open>Replaying the result\<close>

lemma claim_begin_state:
  assumes "fst (claim_begin sha now c s) = Inr (Suspended q)" "is_safe_integer later"
  shows "claim_begin sha later c s' = (Inr (Suspended q), s'\<lparr>co_entries := idem_purge later (co_entries s')\<rparr>)"
  using assms by (auto simp: claim_begin_def clock_now_def split: if_splits)

lemma claim_Claimed:
  assumes "claim sha t c s = (Inr (Claimed key obj reference digest), s')"
  obtains q where "fst (claim_begin sha t c s) = Inr (Suspended q)" "cq_storage_key q = key" "cq_digest q = digest"
    "s' = snd (claim_insert sha q (s\<lparr>co_entries := idem_purge t (co_entries s)\<rparr>))"
    "fst (claim_insert sha q (s\<lparr>co_entries := idem_purge t (co_entries s)\<rparr>)) = Claimed key obj reference digest"
proof (cases rule: claim_cases [where sha = sha and now = t and c = c and s = s])
  case (claimed q)
  then show ?thesis using assms by (intro that [of q]) (auto simp: claim_insert_def Let_def)
qed (use assms in simp_all)

text \<open>After a claim has been completed with a result, a repeated request with the same key and the
  same input is answered with the stored result until the retention time has passed, and with the
  reference and the digest of the first claim.\<close>

theorem idempotency_replay:
  assumes "coordinator_ok s" "claim sha t c s = (Inr (Claimed key obj reference digest), s1)"
    and "obj \<notin> set (co_settled s1)"
    and "complete_claim clone u result (Claimed key obj reference digest) s1 = (Inr (), s2)"
    and "clone result = Some stored" "is_safe_integer u" "is_safe_integer (u + co_retention s)"
    and "is_safe_integer now" "now < u + co_retention s"
  shows "fst (claim sha now c s2) = Inr (Replay reference digest (Some stored))"
proof -
  from claim_Claimed [OF assms(2)] obtain q where q: "fst (claim_begin sha t c s) = Inr (Suspended q)"
    "cq_storage_key q = key" "cq_digest q = digest"
    and s1: "s1 = snd (claim_insert sha q (s\<lparr>co_entries := idem_purge t (co_entries s)\<rparr>))"
    and cl: "fst (claim_insert sha q (s\<lparr>co_entries := idem_purge t (co_entries s)\<rparr>)) = Claimed key obj reference digest" .
  have dist: "distinct (map fst (co_entries s1))" "co_retention s1 = co_retention s"
    using coordinator_ok_claim [OF assms(1), of sha t c] assms(2) by (auto simp: coordinator_ok_def)
  obtain e where e: "map_of (co_entries s1) key = Some e" "en_object e = obj" "en_state e = Pending"
    "en_reference e = reference" "en_digest e = digest"
    using q(2) s1 cl by (auto simp: claim_insert_def Let_def)
  then have "own_pending key obj s1 = Some e" by (simp add: own_pending_Some)
  then have s2: "s2 = s1\<lparr>co_settled := obj # co_settled s1, co_entries := AList.update key
      (e\<lparr>en_result := Some stored, en_state := Completed, en_expires := Some (u + co_retention s)\<rparr>) (co_entries s1)\<rparr>"
    using assms(3-7) dist(2) by (simp add: complete_claim_def expiry_from_def clock_now_def)
  let ?e = "e\<lparr>en_result := Some stored, en_state := Completed, en_expires := Some (u + co_retention s)\<rparr>"
  have "map_of (idem_purge now (co_entries s2)) key = Some ?e"
    using idem_records.purge_Some [of "co_entries s2" now key ?e] dist(1) assms(9)
    by (simp add: s2 idem_kept_def)
  then show ?thesis
    using claim_begin_state [OF q(1) assms(8), of s2] q(2,3) e(4,5) by (simp add: claim_def claim_check_def)
qed

subsection \<open>Interleaved claims\<close>


subsection \<open>At concrete inputs\<close>

definition sample_coordinator :: "nat coordinator" where
  "sample_coordinator = \<lparr>co_entries = [], co_next = 0, co_settled = [], co_retention = 900000, co_max = 10000\<rparr>"

definition sample_claimed :: "nat coordinator" where
  "sample_claimed = snd (claim rev 0 sample_context sample_coordinator)"

definition sample_key :: string where
  "sample_key = storage_key ''a'' ''p'' ''t'' 1 ''k''"

definition sample_reference :: string where
  "sample_reference = rev (reference_text ''a'' ''k'' ''p'' ''t'' 1)"

definition sample_digest :: string where
  "sample_digest = rev (stringify 0 JNull @ [CHR 0x0A])"

lemma sample_new: "new_coordinator None None = Inr sample_coordinator"
  by (simp add: new_coordinator_def sample_coordinator_def default_retention_ms_def max_retention_ms_def
      idem_max_records_def is_safe_integer_def max_safe_integer_def)

lemma sample_ok: "coordinator_ok sample_coordinator"
  by (simp add: coordinator_ok_def sample_coordinator_def)

lemma sample_claim:
  "claim rev 0 sample_context sample_coordinator = (Inr (Claimed sample_key 0 sample_reference sample_digest), sample_claimed)"
proof -
  have "fst (claim rev 0 sample_context sample_coordinator) = Inr (Claimed sample_key 0 sample_reference sample_digest)"
    by code_simp
  then show ?thesis by (simp add: sample_claimed_def prod_eq_iff)
qed

lemma idempotency_capacity_witness:
  "int (length (co_entries (snd (idem_run rev Some [OpClaim 0 sample_context] sample_coordinator)))) \<le> 10000"
  using idempotency_capacity [OF sample_new, of rev Some "[OpClaim 0 sample_context]"] by linarith

text \<open>Two calls of one key are suspended before the first of them checks and inserts. The second checks the
  table while the first is executed, a third after it completed, and no other claim is returned.\<close>

definition sample_before :: "nat claim_step list" where
  "sample_before = [StepBegin 0 sample_context, StepBegin 0 sample_context, StepCheck 0]"

definition sample_after :: "nat claim_step list" where
  "sample_after = [StepCheck 0, StepInsert 0, StepComplete 10 7 (Claimed sample_key 0 sample_reference sample_digest),
     StepBegin 20 sample_context, StepCheck 0, StepInsert 0]"

definition sample_suspended :: "nat claims_state" where
  "sample_suspended = snd (step_run rev Some sample_before (no_claims sample_coordinator))"

lemma idempotency_at_most_once_witness:
  "cs_checked (snd (step_exec rev Some (StepInsert 0) sample_suspended)) = [] \<and>
   filter (executes sample_key) (fst (step_run rev Some sample_after (snd (step_exec rev Some (StepInsert 0) sample_suspended)))) = []"
proof -
  let ?s = "snd (step_exec rev Some (StepInsert 0) sample_suspended)"
  have before: "step_run rev Some sample_before (no_claims sample_coordinator)
      = (fst (step_run rev Some sample_before (no_claims sample_coordinator)), sample_suspended)"
    by (simp add: sample_suspended_def)
  have "fst (step_exec rev Some (StepInsert 0) sample_suspended) = Some (Claimed sample_key 0 sample_reference sample_digest)"
    by code_simp
  then have insert: "step_exec rev Some (StepInsert 0) sample_suspended = (Some (Claimed sample_key 0 sample_reference sample_digest), ?s)"
    by (simp add: prod_eq_iff)
  have none: "cs_checked ?s = []" by code_simp
  have "\<forall>x \<in> set sample_after. step_within 0 (0 + co_retention sample_coordinator) x \<and> \<not> gives_up sample_key 0 x"
    by (simp add: sample_after_def sample_coordinator_def)
  from idempotency_at_most_once [OF sample_new before insert this] show ?thesis unfolding none by simp
qed

lemma idempotency_replay_witness:
  "fst (claim rev 20 sample_context (snd (complete_claim Some 10 (7 :: nat) (Claimed sample_key 0 sample_reference sample_digest)
      sample_claimed))) = Inr (Replay sample_reference sample_digest (Some 7))"
proof -
  let ?cl = "Claimed sample_key 0 sample_reference sample_digest :: nat idem_claim"
  have fresh: "0 \<notin> set (co_settled sample_claimed)" by code_simp
  have "fst (complete_claim Some 10 (7 :: nat) ?cl sample_claimed) = Inr ()" by code_simp
  then have "complete_claim Some 10 (7 :: nat) ?cl sample_claimed = (Inr (), snd (complete_claim Some 10 (7 :: nat) ?cl sample_claimed))"
    by (simp add: prod_eq_iff)
  from idempotency_replay [OF sample_ok sample_claim fresh this refl, of 20] show ?thesis
    by (simp add: sample_coordinator_def is_safe_integer_def max_safe_integer_def)
qed



end
