(* ===== verification/ToolApproval.thy ===== *)
theory ToolApproval
  imports ToolTypes
begin

text \<open>
  The in-memory approval evaluator, \<open>packages/runtime/src/tool-approval.ts\<close>.

  \<open>submit\<close> suspends at the issuer and at the digest of the input, \<open>evaluate\<close> at the digest. Each
  run of code between two suspensions is one operation here, and a \<open>world\<close> keeps the suspended
  calls, so that every interleaving of concurrent calls is a sequence of \<open>events\<close>. A record
  that is being consumed cannot leave the table, so the record object of a suspended \<open>evaluate\<close>
  is the entry of its identifier.
\<close>

subsection \<open>State\<close>

definition approval_max_lifetime_ms :: int where "approval_max_lifetime_ms = 15 * 60 * 1000"
definition approval_max_records :: nat where "approval_max_records = 10000"

record approval_record =
  ar_id :: string
  ar_tool :: string
  ar_version :: int
  ar_digest :: string
  ar_principal :: string
  ar_session :: string
  ar_expires :: int
  ar_used :: bool
  ar_consuming :: bool

record approvals =
  ap_records :: "(string, approval_record) js_map"
  ap_pending :: "string list"

record submission =
  sm_id :: string
  sm_expires :: int

text \<open>What a binding resolver returns: \<open>None\<close> where a value is not a string, or is absent.\<close>

record binding =
  bd_principal :: "string option"
  bd_session :: "string option"
  bd_approval :: "string option option"

datatype submitted_value = NotAnObject | Fields "(string \<times> js_value) list"

subsection \<open>Helpers\<close>

definition approval_error :: "string \<Rightarrow> string \<Rightarrow> failure" where
  "approval_error code message = gateway_failure code 403 message"

definition approval_invalid :: failure where
  "approval_invalid = approval_error ''APPROVAL_INVALID'' ''Approval is invalid.''"

definition approval_denied :: failure where
  "approval_denied = approval_error ''APPROVAL_DENIED'' ''Approval was denied.''"

definition approval_required :: failure where
  "approval_required = approval_error ''APPROVAL_REQUIRED'' ''A valid per-call approval is required.''"

definition approval_context_invalid :: failure where
  "approval_context_invalid = approval_error ''APPROVAL_CONTEXT_INVALID'' ''Approval context is invalid.''"

definition parse_submission :: "submitted_value \<Rightarrow> failure + submission" where
  "parse_submission v =
     (case v of
        NotAnObject \<Rightarrow> Inl approval_invalid
      | Fields fs \<Rightarrow>
          (if nul_join (sort (map fst fs)) \<noteq> nul_join [''decision'', ''expiresAtEpochMs'', ''id'']
           then Inl approval_invalid
           else case (map_of fs ''id'', map_of fs ''decision'', map_of fs ''expiresAtEpochMs'') of
             (Some (JsString i), Some (JsString decision), Some (JsNumber (Finite expires))) \<Rightarrow>
               (if \<not> bounded_id i \<or> decision \<noteq> ''approve'' \<or> \<not> is_safe_integer expires
                then Inl approval_invalid
                else Inr \<lparr>sm_id = i, sm_expires = expires\<rparr>)
           | _ \<Rightarrow> Inl approval_invalid))"

definition check_binding :: "binding \<Rightarrow> failure + string \<times> string \<times> string option" where
  "check_binding b =
     (if \<not> valid_id (bd_principal b) \<or> \<not> valid_id (bd_session b)
         \<or> (case bd_approval b of None \<Rightarrow> False | Some v \<Rightarrow> \<not> valid_id v)
      then Inl approval_context_invalid
      else Inr (the (bd_principal b), the (bd_session b), Option.bind (bd_approval b) (\<lambda>v. v)))"

definition approval_digest :: "(string \<Rightarrow> string) \<Rightarrow> js_data \<Rightarrow> failure + string" where
  "approval_digest sha input =
     (case canonical_json input of Inl _ \<Rightarrow> Inl OtherException | Inr text \<Rightarrow> Inr (sha text))"

definition record_kept :: "int \<Rightarrow> approval_record \<Rightarrow> bool" where
  "record_kept now r \<longleftrightarrow> \<not> (\<not> ar_consuming r \<and> ar_expires r \<le> now)"

definition purge_expired :: "int \<Rightarrow> (string, approval_record) js_map \<Rightarrow> (string, approval_record) js_map" where
  "purge_expired now m = filter (record_kept now \<circ> snd) m"

subsection \<open>\<open>prepare\<close>\<close>

datatype preparation =
    NotRequired
  | Required (prep_tool: string) (prep_version: int) (prep_digest: string) (prep_principal: string) (prep_session: string)

definition approval_prepare :: "(string \<Rightarrow> string) \<Rightarrow> tool_context \<Rightarrow> binding \<Rightarrow> failure + preparation" where
  "approval_prepare sha c b =
     (if td_approval (tc_descriptor c) = ''none'' then Inr NotRequired
      else res_bind (check_binding b) (\<lambda>(subject, session, _).
           res_bind (approval_digest sha (tc_input c)) (\<lambda>digest.
             Inr (Required (td_id (tc_descriptor c)) (td_version (tc_descriptor c)) digest subject session))))"

subsection \<open>\<open>submit\<close>\<close>

definition submit_begin :: "int \<Rightarrow> tool_context \<Rightarrow> submitted_value \<Rightarrow> approvals \<Rightarrow>
    (failure + submission) \<times> approvals" where
  "submit_begin now c v s =
     (if td_approval (tc_descriptor c) = ''none''
      then (Inl (approval_error ''APPROVAL_NOT_REQUIRED'' ''Approval is not required.''), s)
      else case parse_submission v of
        Inl e \<Rightarrow> (Inl e, s)
      | Inr sub \<Rightarrow>
          (if \<not> is_safe_integer now \<or> sm_expires sub \<le> now \<or> sm_expires sub - now > approval_max_lifetime_ms
           then (Inl approval_invalid, s)
           else let records = purge_expired now (ap_records s); s' = s\<lparr>ap_records := records\<rparr>
                in if map_of records (sm_id sub) \<noteq> None \<or> sm_id sub \<in> set (ap_pending s)
                      \<or> approval_max_records \<le> length records + length (ap_pending s)
                   then (Inl approval_denied, s')
                   else (Inr sub, s'\<lparr>ap_pending := set_add (sm_id sub) (ap_pending s)\<rparr>)))"

text \<open>\<open>finally { this.pending.delete(submission.id); }\<close>\<close>

definition forget_pending :: "submission \<Rightarrow> approvals \<Rightarrow> approvals" where
  "forget_pending sub s = s\<lparr>ap_pending := filter (\<lambda>i. i \<noteq> sm_id sub) (ap_pending s)\<rparr>"

text \<open>After the issuer has answered: the verdict, or the error it threw.\<close>

definition submit_authorized :: "submission \<Rightarrow> failure + bool \<Rightarrow> binding \<Rightarrow> approvals \<Rightarrow>
    (failure + string \<times> string) \<times> approvals" where
  "submit_authorized sub verdict b s =
     (case verdict of
        Inl e \<Rightarrow> (Inl e, forget_pending sub s)
      | Inr allowed \<Rightarrow>
          (if \<not> allowed then (Inl approval_denied, forget_pending sub s)
           else case check_binding b of
             Inl e \<Rightarrow> (Inl e, forget_pending sub s)
           | Inr (subject, session, _) \<Rightarrow> (Inr (subject, session), s)))"

definition submit_store :: "submission \<Rightarrow> tool_context \<Rightarrow> string \<times> string \<Rightarrow> failure + string \<Rightarrow> approvals \<Rightarrow>
    (failure + unit) \<times> approvals" where
  "submit_store sub c subject digest s =
     (case digest of
        Inl e \<Rightarrow> (Inl e, forget_pending sub s)
      | Inr d \<Rightarrow>
          (Inr (), forget_pending sub (s\<lparr>ap_records := AList.update (sm_id sub)
             \<lparr>ar_id = sm_id sub, ar_tool = td_id (tc_descriptor c), ar_version = td_version (tc_descriptor c),
              ar_digest = d, ar_principal = fst subject, ar_session = snd subject,
              ar_expires = sm_expires sub, ar_used = False, ar_consuming = False\<rparr> (ap_records s)\<rparr>)))"

subsection \<open>\<open>evaluate\<close>\<close>

datatype evaluation = NoApprovalNeeded | Consuming approval_record

definition evaluate_begin :: "int \<Rightarrow> tool_context \<Rightarrow> binding \<Rightarrow> approvals \<Rightarrow> (failure + evaluation) \<times> approvals" where
  "evaluate_begin now c b s =
     (if td_approval (tc_descriptor c) = ''none'' then (Inr NoApprovalNeeded, s)
      else if \<not> is_safe_integer now then (Inl approval_context_invalid, s)
      else let s' = s\<lparr>ap_records := purge_expired now (ap_records s)\<rparr>
           in case check_binding b of
             Inl e \<Rightarrow> (Inl e, s')
           | Inr (subject, session, approval) \<Rightarrow>
               (case Option.bind approval (map_of (ap_records s')) of
                  None \<Rightarrow> (Inl approval_required, s')
                | Some r \<Rightarrow>
                    (if ar_used r \<or> ar_consuming r \<or> ar_tool r \<noteq> td_id (tc_descriptor c)
                        \<or> ar_version r \<noteq> td_version (tc_descriptor c) \<or> ar_principal r \<noteq> subject \<or> ar_session r \<noteq> session
                     then (Inl approval_required, s')
                     else (Inr (Consuming r), s'\<lparr>ap_records :=
                             AList.update (the approval) (r\<lparr>ar_consuming := True\<rparr>) (ap_records s')\<rparr>))))"

definition evaluate_end :: "approval_record \<Rightarrow> failure + string \<Rightarrow> approvals \<Rightarrow> (failure + string) \<times> approvals" where
  "evaluate_end r digest s =
     (let released = s\<lparr>ap_records := AList.update (ar_id r) (r\<lparr>ar_consuming := False\<rparr>) (ap_records s)\<rparr>
      in case digest of
        Inl e \<Rightarrow> (Inl e, released)
      | Inr d \<Rightarrow>
          (if ar_digest r \<noteq> d then (Inl approval_required, released)
           else (Inr (ar_id r), s\<lparr>ap_records := AList.update (ar_id r)
                  (r\<lparr>ar_consuming := True, ar_used := True\<rparr>) (ap_records s)\<rparr>)))"

subsection \<open>Concurrent calls\<close>

datatype suspended =
    AwaitIssuer submission tool_context
  | AwaitStore submission tool_context "string \<times> string" "failure + string"
  | AwaitDigest approval_record tool_context "failure + string"

record approval_world =
  aw_state :: approvals
  aw_calls :: "suspended list"
  aw_approved :: "(string \<times> tool_context) list"

text \<open>A call starts, or the call at the head of the list resumes; \<open>Yield\<close> lets another one go first.\<close>

datatype approval_event =
    Submit int tool_context submitted_value
  | Evaluate int tool_context binding
  | Resume "failure + bool" binding
  | Yield

definition approval_step :: "(string \<Rightarrow> string) \<Rightarrow> approval_event \<Rightarrow> approval_world \<Rightarrow> approval_world" where
  "approval_step sha ev w =
     (case ev of
        Submit now c v \<Rightarrow>
          (case submit_begin now c v (aw_state w) of
             (Inl e, s) \<Rightarrow> w\<lparr>aw_state := s\<rparr>
           | (Inr sub, s) \<Rightarrow> w\<lparr>aw_state := s, aw_calls := aw_calls w @ [AwaitIssuer sub c]\<rparr>)
      | Evaluate now c b \<Rightarrow>
          (case evaluate_begin now c b (aw_state w) of
             (Inl e, s) \<Rightarrow> w\<lparr>aw_state := s\<rparr>
           | (Inr NoApprovalNeeded, s) \<Rightarrow> w\<lparr>aw_state := s\<rparr>
           | (Inr (Consuming r), s) \<Rightarrow>
               w\<lparr>aw_state := s, aw_calls := aw_calls w @ [AwaitDigest r c (approval_digest sha (tc_input c))]\<rparr>)
      | Yield \<Rightarrow> w\<lparr>aw_calls := rotate1 (aw_calls w)\<rparr>
      | Resume verdict b \<Rightarrow>
          (case aw_calls w of
             [] \<Rightarrow> w
           | AwaitIssuer sub c # calls \<Rightarrow>
               (case submit_authorized sub verdict b (aw_state w) of
                  (Inl e, s) \<Rightarrow> w\<lparr>aw_state := s, aw_calls := calls\<rparr>
                | (Inr subject, s) \<Rightarrow> w\<lparr>aw_state := s,
                    aw_calls := calls @ [AwaitStore sub c subject (approval_digest sha (tc_input c))]\<rparr>)
           | AwaitStore sub c subject digest # calls \<Rightarrow>
               w\<lparr>aw_state := snd (submit_store sub c subject digest (aw_state w)), aw_calls := calls\<rparr>
           | AwaitDigest r c digest # calls \<Rightarrow>
               (case evaluate_end r digest (aw_state w) of
                  (Inl e, s) \<Rightarrow> w\<lparr>aw_state := s, aw_calls := calls\<rparr>
                | (Inr i, s) \<Rightarrow> w\<lparr>aw_state := s, aw_calls := calls, aw_approved := (i, c) # aw_approved w\<rparr>)))"

definition approval_start :: approval_world where
  "approval_start = \<lparr>aw_state = \<lparr>ap_records = [], ap_pending = []\<rparr>, aw_calls = [], aw_approved = []\<rparr>"

inductive approval_reachable :: "(string \<Rightarrow> string) \<Rightarrow> approval_world \<Rightarrow> bool" for sha where
  start: "approval_reachable sha approval_start"
| step: "approval_reachable sha w \<Longrightarrow> approval_reachable sha (approval_step sha ev w)"

end
