(* ===== verification/ToolApprovalProperties.thy ===== *)
theory ToolApprovalProperties
  imports ToolApproval
begin

text \<open>
  The approval evaluator under every interleaving of submissions and evaluations: an invariant
  of the reachable worlds, and what it gives.
\<close>

interpretation approval_records: expiring_records purge_expired record_kept
proof
  fix m :: "(string, approval_record) js_map" and now k
  assume "distinct (map fst m)"
  then show "map_of (purge_expired now m) k =
      (case map_of m k of None \<Rightarrow> None | Some e \<Rightarrow> if record_kept now e then Some e else None)"
    unfolding purge_expired_def by (rule map_of_filter_values)
qed (auto simp: purge_expired_def distinct_filter_keys record_kept_def)

subsection \<open>The invariant\<close>

fun submit_id :: "suspended \<Rightarrow> string list" where
  "submit_id (AwaitIssuer sub c) = [sm_id sub]"
| "submit_id (AwaitStore sub c subject d) = [sm_id sub]"
| "submit_id (AwaitDigest r c d) = []"

fun digest_id :: "suspended \<Rightarrow> string list" where
  "digest_id (AwaitDigest r c d) = [ar_id r]"
| "digest_id _ = []"

definition submit_ids :: "suspended list \<Rightarrow> string list" where
  "submit_ids calls = concat (map submit_id calls)"

definition digest_ids :: "suspended list \<Rightarrow> string list" where
  "digest_ids calls = concat (map digest_id calls)"

lemma ids_simps [simp]:
  "submit_ids [] = []" "submit_ids (x # xs) = submit_id x @ submit_ids xs" "submit_ids (xs @ ys) = submit_ids xs @ submit_ids ys"
  "digest_ids [] = []" "digest_ids (x # xs) = digest_id x @ digest_ids xs" "digest_ids (xs @ ys) = digest_ids xs @ digest_ids ys"
  by (simp_all add: submit_ids_def digest_ids_def)

text \<open>The record fits the call, up to the digest of the input.\<close>

definition fits :: "approval_record \<Rightarrow> tool_context \<Rightarrow> bool" where
  "fits r c \<longleftrightarrow> ar_tool r = td_id (tc_descriptor c) \<and> ar_version r = td_version (tc_descriptor c)"

definition records_ok :: "(string, approval_record) js_map \<Rightarrow> bool" where
  "records_ok m \<longleftrightarrow> distinct (map fst m) \<and> (\<forall>k r. map_of m k = Some r \<longrightarrow> ar_id r = k)"

definition submits_ok :: "suspended list \<Rightarrow> approvals \<Rightarrow> bool" where
  "submits_ok calls s \<longleftrightarrow> distinct (submit_ids calls) \<and> distinct (ap_pending s) \<and>
     set (ap_pending s) = set (submit_ids calls) \<and> (\<forall>i \<in> set (submit_ids calls). map_of (ap_records s) i = None)"

definition digests_ok :: "(string \<Rightarrow> string) \<Rightarrow> suspended list \<Rightarrow> (string, approval_record) js_map \<Rightarrow> bool" where
  "digests_ok sha calls m \<longleftrightarrow> distinct (digest_ids calls) \<and>
     (\<forall>r c d. AwaitDigest r c d \<in> set calls \<longrightarrow> map_of m (ar_id r) = Some (r\<lparr>ar_consuming := True\<rparr>) \<and>
        \<not> ar_used r \<and> fits r c \<and> d = approval_digest sha (tc_input c))"

definition approved_ok :: "(string \<Rightarrow> string) \<Rightarrow> (string \<times> tool_context) list \<Rightarrow> (string, approval_record) js_map \<Rightarrow> bool" where
  "approved_ok sha log m \<longleftrightarrow> distinct (map fst log) \<and>
     (\<forall>(i, c) \<in> set log. \<exists>r. map_of m i = Some r \<and> ar_used r \<and> ar_consuming r \<and> fits r c \<and>
        approval_digest sha (tc_input c) = Inr (ar_digest r))"

definition approval_inv :: "(string \<Rightarrow> string) \<Rightarrow> approval_world \<Rightarrow> bool" where
  "approval_inv sha w \<longleftrightarrow> records_ok (ap_records (aw_state w)) \<and> submits_ok (aw_calls w) (aw_state w) \<and>
     digests_ok sha (aw_calls w) (ap_records (aw_state w)) \<and> approved_ok sha (aw_approved w) (ap_records (aw_state w)) \<and>
     length (ap_records (aw_state w)) + length (ap_pending (aw_state w)) \<le> approval_max_records"

lemmas approval_inv_defs = approval_inv_def records_ok_def submits_ok_def digests_ok_def approved_ok_def

lemma approval_inv_start: "approval_inv sha approval_start"
  by (simp add: approval_inv_defs approval_start_def)

text \<open>Purging loses no record that is being consumed or has been used.\<close>

lemma purge_consuming:
  "records_ok m \<Longrightarrow> map_of m i = Some r \<Longrightarrow> ar_consuming r \<Longrightarrow> map_of (purge_expired now m) i = Some r"
  using approval_records.purge_Some [of m now i r] by (simp add: records_ok_def record_kept_def)

lemma approval_inv_purge:
  assumes "approval_inv sha w"
  shows "approval_inv sha (w\<lparr>aw_state := (aw_state w)\<lparr>ap_records := purge_expired now (ap_records (aw_state w))\<rparr>\<rparr>)"
proof -
  let ?m = "ap_records (aw_state w)"
  have ok: "records_ok ?m" using assms by (simp add: approval_inv_def)
  have sub: "map_of (purge_expired now ?m) i = Some r \<Longrightarrow> map_of ?m i = Some r" for i r
    using approval_records.purge_Some [of ?m now i r] ok by (simp add: records_ok_def)
  have "records_ok (purge_expired now ?m)"
    using ok sub approval_records.purge_distinct by (auto simp: records_ok_def)
  moreover have "map_of (purge_expired now ?m) i = None" if "map_of ?m i = None" for i
    using approval_records.purge_None [of ?m now i] ok that by (simp add: records_ok_def)
  moreover have "length (purge_expired now ?m) \<le> length ?m" by (rule approval_records.purge_length)
  moreover have "digests_ok sha (aw_calls w) (purge_expired now ?m)"
    using assms purge_consuming [OF ok] by (fastforce simp: approval_inv_def digests_ok_def)
  moreover have "approved_ok sha (aw_approved w) (purge_expired now ?m)"
    using assms purge_consuming [OF ok] by (fastforce simp: approval_inv_def approved_ok_def)
  ultimately show ?thesis using assms by (simp add: approval_inv_def submits_ok_def)
qed

lemma submit_begin_cases:
  obtains (err) e where "submit_begin now c v s = (Inl e, s)"
    | (purged) e where "submit_begin now c v s = (Inl e, s\<lparr>ap_records := purge_expired now (ap_records s)\<rparr>)"
    | (ok) sub where "submit_begin now c v s =
          (Inr sub, s\<lparr>ap_records := purge_expired now (ap_records s), ap_pending := set_add (sm_id sub) (ap_pending s)\<rparr>)"
        "map_of (purge_expired now (ap_records s)) (sm_id sub) = None" "sm_id sub \<notin> set (ap_pending s)"
        "length (purge_expired now (ap_records s)) + length (ap_pending s) < approval_max_records"
proof (cases "td_approval (tc_descriptor c) = ''none''")
  case True
  then show thesis by (intro err) (simp add: submit_begin_def)
next
  case required: False
  show thesis
  proof (cases "parse_submission v")
    case (Inl e)
    then show thesis using required by (intro err) (simp add: submit_begin_def)
  next
    case (Inr sub)
    show thesis
    proof (cases "\<not> is_safe_integer now \<or> sm_expires sub \<le> now \<or> sm_expires sub - now > approval_max_lifetime_ms")
      case True
      then show thesis using required Inr by (intro err [of approval_invalid]) (auto simp: submit_begin_def)
    next
      case timely: False
      show thesis
      proof (cases "map_of (purge_expired now (ap_records s)) (sm_id sub) \<noteq> None \<or> sm_id sub \<in> set (ap_pending s)
          \<or> approval_max_records \<le> length (purge_expired now (ap_records s)) + length (ap_pending s)")
        case True
        then show thesis using required Inr timely
          by (intro purged [of approval_denied]) (auto simp: submit_begin_def Let_def)
      next
        case False
        then show thesis using required Inr timely by (intro ok [of sub]) (auto simp: submit_begin_def Let_def)
      qed
    qed
  qed
qed

lemma in_digest_ids: "i \<in> set (digest_ids calls) \<longleftrightarrow> (\<exists>q c d. AwaitDigest q c d \<in> set calls \<and> ar_id q = i)"
proof -
  have "i \<in> set (digest_id x) \<longleftrightarrow> (\<exists>q c d. x = AwaitDigest q c d \<and> ar_id q = i)" for x by (cases x) auto
  then show ?thesis unfolding digest_ids_def by auto
qed

lemma digests_ok_update:
  assumes "digests_ok sha calls m" "i \<notin> set (digest_ids calls)"
  shows "digests_ok sha calls (AList.update i r m)"
proof -
  have "ar_id q \<noteq> i" if "AwaitDigest q c d \<in> set calls" for q c d
    using assms(2) that by (auto simp: in_digest_ids)
  then show ?thesis using assms(1) by (simp add: digests_ok_def)
qed

lemma approved_ok_update:
  assumes "approved_ok sha log m" "i \<notin> fst ` set log"
  shows "approved_ok sha log (AList.update i r m)"
  using assms by (force simp: approved_ok_def)

lemma digest_ids_present: "digests_ok sha calls m \<Longrightarrow> i \<in> set (digest_ids calls) \<Longrightarrow> map_of m i \<noteq> None"
  by (auto simp: in_digest_ids digests_ok_def)

lemma approved_present: "approved_ok sha log m \<Longrightarrow> i \<in> fst ` set log \<Longrightarrow> map_of m i \<noteq> None"
  by (force simp: approved_ok_def)

lemma approval_inv_submit:
  assumes "approval_inv sha w"
  shows "approval_inv sha (approval_step sha (Submit now c v) w)"
proof -
  let ?p = "(aw_state w)\<lparr>ap_records := purge_expired now (ap_records (aw_state w))\<rparr>"
  show ?thesis
  proof (cases rule: submit_begin_cases [where now = now and c = c and v = v and s = "aw_state w"])
    case (ok sub)
    have "approval_inv sha (w\<lparr>aw_state := ?p\<rparr>)" by (rule approval_inv_purge [OF assms])
    then show ?thesis using ok
      by (auto simp: approval_inv_def submits_ok_def digests_ok_def approval_step_def set_add_def)
  qed (use assms approval_inv_purge [OF assms] in \<open>simp_all add: approval_step_def\<close>)
qed

lemma evaluate_begin_cases:
  obtains (same) r where "evaluate_begin now c b s = (r, s)" "\<forall>x. r \<noteq> Inr (Consuming x)"
    | (purged) e where "evaluate_begin now c b s = (Inl e, s\<lparr>ap_records := purge_expired now (ap_records s)\<rparr>)"
    | (consuming) i r where "evaluate_begin now c b s = (Inr (Consuming r), s\<lparr>ap_records :=
          AList.update i (r\<lparr>ar_consuming := True\<rparr>) (purge_expired now (ap_records s))\<rparr>)"
        "map_of (purge_expired now (ap_records s)) i = Some r" "\<not> ar_used r" "\<not> ar_consuming r" "fits r c"
        "Some (ar_principal r) = bd_principal b" "Some (ar_session r) = bd_session b"
proof (cases "td_approval (tc_descriptor c) = ''none'' \<or> \<not> is_safe_integer now")
  case True
  then show thesis
    by (intro same [of "fst (evaluate_begin now c b s)"]) (auto simp: evaluate_begin_def)
next
  case False
  let ?m = "purge_expired now (ap_records s)"
  show thesis
  proof (cases "check_binding b")
    case (Inl e)
    then show thesis using False by (intro purged) (simp add: evaluate_begin_def)
  next
    case (Inr x)
    obtain subject session approval where x: "x = (subject, session, approval)" by (cases x)
    have b: "bd_principal b = Some subject" "bd_session b = Some session"
      using Inr x by (auto simp: check_binding_def valid_id_def split: if_splits option.splits)
    show thesis
    proof (cases "Option.bind approval (map_of ?m)")
      case None
      then show thesis using False Inr x by (intro purged) (simp add: evaluate_begin_def)
    next
      case (Some r)
      then obtain i where i: "approval = Some i" "map_of ?m i = Some r" by (auto simp: bind_eq_Some_conv)
      show thesis
      proof (cases "ar_used r \<or> ar_consuming r \<or> \<not> fits r c \<or> ar_principal r \<noteq> subject \<or> ar_session r \<noteq> session")
        case True
        then show thesis using False Inr x Some
          by (intro purged [of approval_required]) (auto simp: evaluate_begin_def fits_def)
      next
        case ok: False
        then show thesis using False Inr x Some i b
          by (intro consuming [of r i]) (auto simp: evaluate_begin_def fits_def)
      qed
    qed
  qed
qed

lemma approval_inv_evaluate:
  assumes "approval_inv sha w"
  shows "approval_inv sha (approval_step sha (Evaluate now c b) w)"
proof -
  let ?p = "(aw_state w)\<lparr>ap_records := purge_expired now (ap_records (aw_state w))\<rparr>"
  have inv: "approval_inv sha (w\<lparr>aw_state := ?p\<rparr>)" by (rule approval_inv_purge [OF assms])
  show ?thesis
  proof (cases rule: evaluate_begin_cases [where now = now and c = c and b = b and s = "aw_state w"])
    case (consuming i r)
    have id: "ar_id r = i" using inv consuming(2) by (simp add: approval_inv_def records_ok_def)
    have new: "i \<notin> set (digest_ids (aw_calls w))"
    proof
      assume "i \<in> set (digest_ids (aw_calls w))"
      then obtain q c' d where "AwaitDigest q c' d \<in> set (aw_calls w)" "ar_id q = i"
        by (auto simp: in_digest_ids)
      then have "map_of (ap_records ?p) i = Some (q\<lparr>ar_consuming := True\<rparr>)"
        using inv by (auto simp: approval_inv_def digests_ok_def)
      then show False using consuming(2,4) by simp
    qed
    have free: "i \<notin> set (submit_ids (aw_calls w))" "i \<notin> fst ` set (aw_approved w)"
      using inv consuming(2,3) by (fastforce simp: approval_inv_def submits_ok_def approved_ok_def)+
    let ?m = "AList.update i (r\<lparr>ar_consuming := True\<rparr>) (ap_records ?p)"
    have "records_ok ?m" using inv id by (auto simp: approval_inv_def records_ok_def)
    moreover have "digests_ok sha (aw_calls w @ [AwaitDigest r c (approval_digest sha (tc_input c))]) ?m"
    proof -
      have "map_of ?m (ar_id q) = Some (q\<lparr>ar_consuming := True\<rparr>)" if "AwaitDigest q c' d \<in> set (aw_calls w)" for q c' d
      proof -
        have "ar_id q \<in> set (digest_ids (aw_calls w))" using that by (force simp: digest_ids_def)
        then have "ar_id q \<noteq> i" using new by auto
        then show ?thesis using inv that by (auto simp: approval_inv_def digests_ok_def)
      qed
      then show ?thesis using inv new id consuming(3,5) by (auto simp: approval_inv_def digests_ok_def)
    qed
    moreover have "approved_ok sha (aw_approved w) ?m"
      using inv free(2) by (force simp: approval_inv_def approved_ok_def)
    moreover have "length ?m = length (ap_records ?p)"
      using consuming(2) by (simp add: length_update) (metis domI dom_map_of_conv_image_fst)
    ultimately show ?thesis
      using inv free(1) consuming(1) by (auto simp: approval_inv_def submits_ok_def approval_step_def)
  qed (use assms inv in \<open>auto simp: approval_step_def split: sum.splits evaluation.splits\<close>)
qed

lemma approval_inv_yield: "approval_inv sha w \<Longrightarrow> approval_inv sha (approval_step sha Yield w)"
  by (cases "aw_calls w")
    (auto simp: approval_step_def approval_inv_def submits_ok_def digests_ok_def)

text \<open>Dropping the call at the head with its pending identifier.\<close>

lemma approval_inv_forget:
  assumes "approval_inv sha w" "aw_calls w = x # calls" "submit_id x = [sm_id sub]" "digest_id x = []"
  shows "approval_inv sha (w\<lparr>aw_state := forget_pending sub (aw_state w), aw_calls := calls\<rparr>)"
proof -
  have "length (filter (\<lambda>i. i \<noteq> sm_id sub) (ap_pending (aw_state w))) \<le> length (ap_pending (aw_state w))"
    by (rule length_filter_le)
  moreover have "length (ap_records (aw_state w)) + length (ap_pending (aw_state w)) \<le> approval_max_records"
    using assms(1) unfolding approval_inv_def by blast
  ultimately have "length (ap_records (aw_state w)) + length (filter (\<lambda>i. i \<noteq> sm_id sub) (ap_pending (aw_state w)))
      \<le> approval_max_records" by linarith
  moreover have "submits_ok calls (forget_pending sub (aw_state w))"
    using assms by (auto simp: approval_inv_def submits_ok_def forget_pending_def)
  moreover have "digests_ok sha calls (ap_records (aw_state w))"
    using assms by (auto simp: approval_inv_def digests_ok_def)
  ultimately show ?thesis using assms(1) by (simp add: approval_inv_def forget_pending_def)
qed

lemma approval_inv_issuer:
  assumes "approval_inv sha w" "aw_calls w = AwaitIssuer sub c # calls"
  shows "approval_inv sha (approval_step sha (Resume verdict b) w)"
proof (cases "fst (submit_authorized sub verdict b (aw_state w))")
  case (Inl e)
  then have "submit_authorized sub verdict b (aw_state w) = (Inl e, forget_pending sub (aw_state w))"
    by (auto simp: submit_authorized_def split: sum.splits if_splits)
  then show ?thesis
    using approval_inv_forget [OF assms] assms(2) by (simp add: approval_step_def)
next
  case (Inr subject)
  then have "submit_authorized sub verdict b (aw_state w) = (Inr subject, aw_state w)"
    by (auto simp: submit_authorized_def split: sum.splits if_splits)
  then show ?thesis
    using assms by (auto simp: approval_step_def approval_inv_def submits_ok_def digests_ok_def)
qed

lemma approval_inv_store:
  assumes "approval_inv sha w" "aw_calls w = AwaitStore sub c subject digest # calls"
  shows "approval_inv sha (approval_step sha (Resume verdict b) w)"
proof (cases digest)
  case (Inl e)
  then show ?thesis
    using approval_inv_forget [OF assms] assms(2) by (simp add: approval_step_def submit_store_def)
next
  case (Inr d)
  let ?s = "aw_state w"
  let ?r = "\<lparr>ar_id = sm_id sub, ar_tool = td_id (tc_descriptor c), ar_version = td_version (tc_descriptor c),
              ar_digest = d, ar_principal = fst subject, ar_session = snd subject,
              ar_expires = sm_expires sub, ar_used = False, ar_consuming = False\<rparr>"
  let ?m = "AList.update (sm_id sub) ?r (ap_records ?s)"
  have new: "map_of (ap_records ?s) (sm_id sub) = None" and pend: "sm_id sub \<in> set (ap_pending ?s)"
    and dist: "distinct (ap_pending ?s)"
    using assms by (auto simp: approval_inv_def submits_ok_def)
  have "length ?m = Suc (length (ap_records ?s))" using new by (simp add: length_update map_of_eq_None_iff)
  moreover have "Suc (length (filter (\<lambda>i. i \<noteq> sm_id sub) (ap_pending ?s))) = length (ap_pending ?s)"
  proof -
    have "length (filter (\<lambda>i. i \<noteq> sm_id sub) (ap_pending ?s)) = card (set (ap_pending ?s) - {sm_id sub})"
      using distinct_card [of "filter (\<lambda>i. i \<noteq> sm_id sub) (ap_pending ?s)"] dist by (simp add: set_diff_eq)
    then show ?thesis using pend dist length_pos_if_in_set [OF pend] by (simp add: distinct_card)
  qed
  moreover have "digests_ok sha calls (ap_records ?s)" using assms by (simp add: approval_inv_def digests_ok_def)
  moreover from this have "digests_ok sha calls ?m"
    using digests_ok_update digest_ids_present new by metis
  moreover have "approved_ok sha (aw_approved w) ?m"
    using assms(1) approved_ok_update approved_present new by (metis approval_inv_def)
  moreover have "records_ok ?m" using assms by (auto simp: approval_inv_def records_ok_def)
  ultimately show ?thesis
    using assms Inr
    by (auto simp: approval_step_def submit_store_def approval_inv_def submits_ok_def forget_pending_def)
qed

lemma approval_inv_digest:
  assumes "approval_inv sha w" "aw_calls w = AwaitDigest r c digest # calls"
  shows "approval_inv sha (approval_step sha (Resume verdict b) w)"
proof -
  let ?s = "aw_state w" and ?i = "ar_id r"
  have r: "map_of (ap_records ?s) ?i = Some (r\<lparr>ar_consuming := True\<rparr>)" "\<not> ar_used r" "fits r c"
    "digest = approval_digest sha (tc_input c)"
  proof -
    have "AwaitDigest r c digest \<in> set (aw_calls w)" "digests_ok sha (aw_calls w) (ap_records ?s)"
      using assms by (simp_all add: approval_inv_def)
    then show "map_of (ap_records ?s) ?i = Some (r\<lparr>ar_consuming := True\<rparr>)" "\<not> ar_used r" "fits r c"
      "digest = approval_digest sha (tc_input c)"
      unfolding digests_ok_def by blast+
  qed
  have unused: "?i \<notin> fst ` set (aw_approved w)"
  proof
    assume "?i \<in> fst ` set (aw_approved w)"
    then obtain c' where "(?i, c') \<in> set (aw_approved w)" by force
    then obtain q where "map_of (ap_records ?s) ?i = Some q" "ar_used q"
      using assms(1) unfolding approval_inv_def approved_ok_def by blast
    then have "q = r\<lparr>ar_consuming := True\<rparr>" using r(1) by simp
    then show False using r(2) \<open>ar_used q\<close> by simp
  qed
  have update: "approval_inv sha (w\<lparr>aw_state := ?s\<lparr>ap_records := AList.update ?i r' (ap_records ?s)\<rparr>, aw_calls := calls\<rparr>)"
    if "ar_id r' = ?i" for r'
  proof -
    have other: "ar_id q \<noteq> ?i" if "AwaitDigest q c' d \<in> set calls" for q c' d
    proof -
      have "ar_id q \<in> set (digest_ids calls)" using that by (auto simp: in_digest_ids)
      then show ?thesis using assms by (auto simp: approval_inv_def digests_ok_def)
    qed
    have "length (AList.update ?i r' (ap_records ?s)) = length (ap_records ?s)"
      using r(1) by (simp add: length_update) (metis domI dom_map_of_conv_image_fst)
    moreover have "digests_ok sha calls (AList.update ?i r' (ap_records ?s))"
      using assms other by (auto simp: approval_inv_def digests_ok_def)
    moreover have "approved_ok sha (aw_approved w) (AList.update ?i r' (ap_records ?s))"
      using assms(1) unused by (force simp: approval_inv_def approved_ok_def)
    moreover have "records_ok (AList.update ?i r' (ap_records ?s))"
      using assms(1) that by (auto simp: approval_inv_def records_ok_def)
    moreover have "?i \<notin> set (submit_ids (aw_calls w))"
      using assms(1) r(1) by (auto simp: approval_inv_def submits_ok_def)
    ultimately show ?thesis using assms by (auto simp: approval_inv_def submits_ok_def)
  qed
  show ?thesis
  proof (cases "digest = Inr (ar_digest r)")
    case False
    then have "snd (evaluate_end r digest ?s) = ?s\<lparr>ap_records := AList.update ?i (r\<lparr>ar_consuming := False\<rparr>) (ap_records ?s)\<rparr>"
      "\<exists>e. fst (evaluate_end r digest ?s) = Inl e"
      by (cases digest; simp add: evaluate_end_def Let_def)+
    then obtain e where "evaluate_end r digest ?s =
        (Inl e, ?s\<lparr>ap_records := AList.update ?i (r\<lparr>ar_consuming := False\<rparr>) (ap_records ?s)\<rparr>)"
      by (metis prod.collapse)
    then show ?thesis using update [of "r\<lparr>ar_consuming := False\<rparr>"] assms(2) by (simp add: approval_step_def)
  next
    case True
    let ?r = "r\<lparr>ar_consuming := True, ar_used := True\<rparr>"
    have "approved_ok sha ((?i, c) # aw_approved w) (AList.update ?i ?r (ap_records ?s))"
      using update [of ?r] unused True r(3,4) by (simp add: approval_inv_def approved_ok_def fits_def)
    then show ?thesis
      using update [of ?r] True assms(2)
      by (simp add: approval_step_def evaluate_end_def Let_def approval_inv_def)
  qed
qed

lemma approval_inv_step: "approval_inv sha w \<Longrightarrow> approval_inv sha (approval_step sha ev w)"
proof (cases ev)
  case (Resume verdict b)
  assume inv: "approval_inv sha w"
  show ?thesis
  proof (cases "aw_calls w")
    case Nil
    then show ?thesis using inv Resume by (simp add: approval_step_def)
  next
    case (Cons x calls)
    then show ?thesis unfolding Resume
      using approval_inv_issuer [OF inv] approval_inv_store [OF inv] approval_inv_digest [OF inv] by (cases x) auto
  qed
qed (simp_all add: approval_inv_submit approval_inv_evaluate approval_inv_yield)

lemma approval_reachable_inv: "approval_reachable sha w \<Longrightarrow> approval_inv sha w"
  by (induction rule: approval_reachable.induct) (auto simp: approval_inv_start approval_inv_step)

subsection \<open>Properties\<close>

text \<open>C20: However submissions and evaluations interleave, every approval is accepted at most once, and the
  accepted call has the tool, the version and the input digest that the approval was stored for.\<close>

theorem approval_single_use:
  assumes "approval_reachable sha w"
  shows "distinct (map fst (aw_approved w)) \<and>
    (\<forall>(i, c) \<in> set (aw_approved w). \<exists>r text. map_of (ap_records (aw_state w)) i = Some r \<and> ar_used r \<and>
       ar_tool r = td_id (tc_descriptor c) \<and> ar_version r = td_version (tc_descriptor c) \<and>
       canonical_json (tc_input c) = Inr text \<and> ar_digest r = sha text)"
proof -
  have "approved_ok sha (aw_approved w) (ap_records (aw_state w))"
    using approval_reachable_inv [OF assms] by (simp add: approval_inv_def)
  moreover have "\<exists>text. canonical_json v = Inr text \<and> d = sha text" if "approval_digest sha v = Inr d" for v d
    using that by (auto simp: approval_digest_def split: sum.splits)
  ultimately show ?thesis unfolding approved_ok_def fits_def by blast
qed

text \<open>An approval is only consumed before its expiry, by the principal and the agent session it was
  given to, for its own tool and version, and not while another call consumes it.\<close>

theorem consumed_approval_matches:
  assumes "approval_reachable sha w" "evaluate_begin now c b (aw_state w) = (Inr (Consuming r), s')"
  shows "now < ar_expires r \<and> bd_principal b = Some (ar_principal r) \<and> bd_session b = Some (ar_session r) \<and>
    ar_tool r = td_id (tc_descriptor c) \<and> ar_version r = td_version (tc_descriptor c) \<and>
    \<not> ar_used r \<and> \<not> ar_consuming r \<and> map_of (ap_records (aw_state w)) (ar_id r) = Some r \<and>
    map_of (ap_records s') (ar_id r) = Some (r\<lparr>ar_consuming := True\<rparr>)"
proof -
  have ok: "records_ok (ap_records (aw_state w))"
    using approval_reachable_inv [OF assms(1)] by (simp add: approval_inv_def)
  show ?thesis
  proof (cases rule: evaluate_begin_cases [where now = now and c = c and b = b and s = "aw_state w"])
    case (consuming i q)
    then have r: "r = q" "s' = (aw_state w)\<lparr>ap_records := AList.update i (r\<lparr>ar_consuming := True\<rparr>)
        (purge_expired now (ap_records (aw_state w)))\<rparr>"
      using assms(2) by auto
    have "map_of (ap_records (aw_state w)) i = Some r \<and> record_kept now r"
      using consuming(2) approval_records.purge_Some ok by (simp add: records_ok_def r(1))
    then show ?thesis using consuming r ok by (auto simp: records_ok_def record_kept_def fits_def)
  qed (use assms(2) in auto)
qed

lemma approved_persist_step:
  assumes "approval_inv sha w" "i \<in> fst ` set (aw_approved w)"
  shows "i \<in> fst ` set (aw_approved (approval_step sha ev w))"
  using assms(2)
  by (auto simp: approval_step_def split: approval_event.splits prod.splits sum.splits evaluation.splits list.splits suspended.splits)

lemma approved_persist:
  assumes "approval_inv sha w"
  shows "fst ` set (aw_approved w) \<subseteq> fst ` set (aw_approved (fold (approval_step sha) evs w)) \<and>
    approval_inv sha (fold (approval_step sha) evs w)"
  using assms
proof (induction evs arbitrary: w)
  case (Cons ev evs)
  have "approval_inv sha (approval_step sha ev w)" by (rule approval_inv_step [OF Cons.prems])
  then show ?case
    using Cons.IH [of "approval_step sha ev w"] approved_persist_step [OF Cons.prems, of _ ev]
    by (simp add: subset_iff)
qed simp

lemma length_ids_le:
  assumes "distinct (map fst log)" "\<forall>i \<in> fst ` set log. map_of m i \<noteq> None"
  shows "length log \<le> length (m :: (string, approval_record) js_map)"
proof -
  have "set (map fst log) \<subseteq> set (map fst m)" using assms(2) by (auto simp: map_of_eq_None_iff image_iff)
  then have "card (set (map fst log)) \<le> length (map fst m)" using card_mono card_length le_trans finite_set by metis
  then show ?thesis using distinct_card [OF assms(1)] by simp
qed

text \<open>C40: The record of an accepted approval is never removed again, however much time passes: it keeps its
  flag \<open>consuming\<close>, which exempts it from purging. Accepted approvals therefore fill the table, and
  after 10000 of them no submission can succeed any more.\<close>

theorem accepted_approvals_fill_table:
  assumes "approval_reachable sha w"
  shows "length (aw_approved w) \<le> length (ap_records (aw_state w)) \<and>
    set (map fst (aw_approved w)) \<subseteq> fst ` set (ap_records (aw_state (fold (approval_step sha) evs w))) \<and>
    \<not> (approval_max_records \<le> length (aw_approved w) \<and> (\<exists>sub. fst (submit_begin now c v (aw_state w)) = Inr sub))"
proof -
  note inv = approval_reachable_inv [OF assms]
  let ?later = "fold (approval_step sha) evs w"
  have ok: "approved_ok sha (aw_approved w) (ap_records (aw_state w))" "records_ok (ap_records (aw_state w))"
    using inv by (auto simp: approval_inv_def)
  have distinct: "distinct (map fst (aw_approved w))" using ok(1) by (simp add: approved_ok_def)
  have "length (aw_approved w) \<le> length (ap_records (aw_state w))"
    using length_ids_le [OF distinct] approved_present [OF ok(1)] by blast
  moreover have "set (map fst (aw_approved w)) \<subseteq> fst ` set (ap_records (aw_state ?later))"
  proof
    fix i assume "i \<in> set (map fst (aw_approved w))"
    then have "i \<in> fst ` set (aw_approved ?later)" "approval_inv sha ?later" using approved_persist [OF inv] by auto
    then have "map_of (ap_records (aw_state ?later)) i \<noteq> None"
      using approved_present unfolding approval_inv_def by blast
    then show "i \<in> fst ` set (ap_records (aw_state ?later))" by (simp add: map_of_eq_None_iff)
  qed
  moreover have "\<not> (\<exists>sub. fst (submit_begin now c v (aw_state w)) = Inr sub)" if "approval_max_records \<le> length (aw_approved w)"
  proof (cases rule: submit_begin_cases [where now = now and c = c and v = v and s = "aw_state w"])
    case (ok sub)
    have "map_of (purge_expired now (ap_records (aw_state w))) i \<noteq> None" if "i \<in> fst ` set (aw_approved w)" for i
      using that purge_consuming \<open>approved_ok _ _ _\<close> \<open>records_ok _\<close> by (fastforce simp: approved_ok_def)
    then have "length (aw_approved w) \<le> length (purge_expired now (ap_records (aw_state w)))"
      using length_ids_le [OF distinct] by blast
    then show ?thesis using ok(4) that by simp
  qed simp_all
  ultimately show ?thesis by blast
qed

text \<open>Stored approvals and submissions under way never exceed the limit of 10000.\<close>

theorem approval_capacity:
  assumes "approval_reachable sha w"
  shows "length (ap_records (aw_state w)) + length (ap_pending (aw_state w)) \<le> 10000"
  using approval_reachable_inv [OF assms] by (simp add: approval_inv_def approval_max_records_def)

subsection \<open>At a concrete run\<close>

definition sample_binding :: binding where
  "sample_binding = \<lparr>bd_principal = Some ''p'', bd_session = Some ''s'', bd_approval = Some (Some ''a1'')\<rparr>"

definition sample_events :: "approval_event list" where
  "sample_events =
     [Submit 100 sample_context (Fields [(''id'', JsString ''a1''), (''decision'', JsString ''approve''),
        (''expiresAtEpochMs'', JsNumber (Finite 5000))]),
      Resume (Inr True) sample_binding, Resume (Inr True) sample_binding,
      Evaluate 200 sample_context sample_binding, Evaluate 201 sample_context sample_binding,
      Resume (Inr True) sample_binding, Evaluate 202 sample_context sample_binding]"

definition sample_world :: approval_world where
  "sample_world = fold (approval_step rev) sample_events approval_start"

lemma fold_reachable: "approval_reachable sha w \<Longrightarrow> approval_reachable sha (fold (approval_step sha) evs w)"
  by (induction evs arbitrary: w) (simp_all add: approval_reachable.step)

lemma sample_reachable: "approval_reachable rev sample_world"
  unfolding sample_world_def by (rule fold_reachable [OF approval_reachable.start])

lemma sample_approved: "map fst (aw_approved sample_world) = [''a1'']"
  by code_simp

lemma approval_single_use_witness:
  "distinct (map fst (aw_approved sample_world)) \<and> map fst (aw_approved sample_world) = [''a1'']"
  using approval_single_use [OF sample_reachable] sample_approved by blast

lemma accepted_approvals_fill_table_witness:
  "''a1'' \<in> fst ` set (ap_records (aw_state (fold (approval_step rev) [Evaluate 9000000 sample_context sample_binding] sample_world)))"
  using accepted_approvals_fill_table [OF sample_reachable, of "[Evaluate 9000000 sample_context sample_binding]"]
    sample_approved by force

lemma approval_capacity_witness:
  "length (ap_records (aw_state sample_world)) + length (ap_pending (aw_state sample_world)) \<le> 10000"
  by (rule approval_capacity [OF sample_reachable])

definition sample_stored :: approval_world where
  "sample_stored = fold (approval_step rev) (take 3 sample_events) approval_start"

lemma sample_stored_reachable: "approval_reachable rev sample_stored"
  unfolding sample_stored_def by (rule fold_reachable [OF approval_reachable.start])

definition sample_record :: approval_record where
  "sample_record = the (map_of (ap_records (aw_state sample_stored)) ''a1'')"

lemma consumed_approval_matches_witness:
  "200 < ar_expires sample_record \<and> bd_principal sample_binding = Some (ar_principal sample_record)"
proof -
  have "fst (evaluate_begin 200 sample_context sample_binding (aw_state sample_stored)) = Inr (Consuming sample_record)"
    by code_simp
  then have "evaluate_begin 200 sample_context sample_binding (aw_state sample_stored)
      = (Inr (Consuming sample_record), snd (evaluate_begin 200 sample_context sample_binding (aw_state sample_stored)))"
    by (simp add: prod_eq_iff)
  from consumed_approval_matches [OF sample_stored_reachable this] show ?thesis by blast
qed

end
