(* ===== verification/ToolBudget.thy ===== *)
theory ToolBudget
  imports ToolTypes Complex_Main
begin

text \<open>
  Tool execution budgets, \<open>packages/runtime/src/tool-budget.ts\<close>: the bounds on inputs and outputs,
  the calls of a run, the concurrency and the token bucket of a tool.

  Tokens are rational numbers where the code has doubles. A lease is the closure \<open>release\<close>: it
  carries the key of its tool and an identity, by which the state records that it was released.
\<close>

subsection \<open>Limits\<close>

definition input_bytes_ceiling :: int where "input_bytes_ceiling = 1048576"
definition output_bytes_ceiling :: int where "output_bytes_ceiling = 4194304"
definition depth_ceiling :: int where "depth_ceiling = 8"
definition concurrency_ceiling :: int where "concurrency_ceiling = 64"
definition rate_ceiling :: int where "rate_ceiling = 600"
definition burst_ceiling :: int where "burst_ceiling = 60"
definition max_calls_per_run :: int where "max_calls_per_run = 100"

record class_ceiling =
  cc_concurrency :: int
  cc_rate :: int
  cc_base_cost :: int

fun class_ceilings :: "cost_class \<Rightarrow> class_ceiling" where
  "class_ceilings Low = \<lparr>cc_concurrency = 64, cc_rate = 600, cc_base_cost = 1\<rparr>"
| "class_ceilings Medium = \<lparr>cc_concurrency = 16, cc_rate = 300, cc_base_cost = 5\<rparr>"
| "class_ceilings High = \<lparr>cc_concurrency = 4, cc_rate = 60, cc_base_cost = 10\<rparr>"

record rate_bucket =
  rb_tokens :: rat
  rb_updated :: int

record budget =
  bu_active :: "(string, int) js_map"
  bu_buckets :: "(string, rate_bucket) js_map"
  bu_runs :: "(string, int) js_map"
  bu_next :: nat
  bu_released :: "nat list"

record budget_scope =
  bs_principal :: "string option"
  bs_run :: "string option"

record lease =
  le_object :: nat
  le_key :: string
  le_principal :: string
  le_run :: string
  le_cost :: int

definition budget_failure :: "string \<Rightarrow> int \<Rightarrow> failure" where
  "budget_failure code status = gateway_failure code status ''Tool execution budget was exceeded.''"

subsection \<open>Depth and size of values\<close>

definition value_failure :: "bool \<Rightarrow> failure" where
  "value_failure output =
     (if output then budget_failure ''TOOL_OUTPUT_INVALID'' 500 else budget_failure ''TOOL_INPUT_INVALID'' 400)"

text \<open>\<open>Array.isArray(value) ? value : Object.values(value)\<close>\<close>

definition children :: "js_object \<Rightarrow> js_value list" where
  "children obj =
     (case obj of
        JsArray items extra \<Rightarrow> map (\<lambda>i. case i of None \<Rightarrow> JsUndefined | Some w \<Rightarrow> w) items
      | JsObject is_plain props \<Rightarrow>
          concat (map (\<lambda>(k, p). case (k, p) of (StringKey _, DataProperty w) \<Rightarrow> [w] | _ \<Rightarrow> []) props))"

function json_depth :: "js_object list \<Rightarrow> bool \<Rightarrow> nat list \<Rightarrow> js_value \<Rightarrow> failure + nat" where
  "json_depth h output ancestors v =
     (case v of
        JsRef a \<Rightarrow>
          (if a \<in> set ancestors \<or> \<not> a < length h then Inl (value_failure output)
           else res_bind (res_map (json_depth h output (a # ancestors)) (children (h ! a)))
                  (\<lambda>ds. Inr (fold (\<lambda>d depth. max depth (1 + d)) ds 1)))
      | _ \<Rightarrow> Inr 0)"
  by pat_completeness auto
termination
proof (relation "measure (\<lambda>(h, _, ancestors, _). card ({..< length h} - set ancestors))", goal_cases)
  case 1
  show ?case by simp
next
  case (2 h out ancestors v a x)
  have "{..< length h} - set (a # ancestors) \<subset> {..< length h} - set ancestors" using 2 by auto
  then show ?case by (auto intro: psubset_card_mono)
qed

declare json_depth.simps [simp del]

text \<open>
  \<open>JSON.stringify(value)\<close>: nothing for \<open>undefined\<close> and functions, which arrays show as \<open>null\<close> and
  objects leave out; an exception for a circular value.
\<close>

fun commas :: "string list \<Rightarrow> string" where
  "commas [] = []"
| "commas [x] = x"
| "commas (x # y # ys) = x @ CHR '','' # commas (y # ys)"

function json_text :: "js_object list \<Rightarrow> nat list \<Rightarrow> js_value \<Rightarrow> unit + string option" where
  "json_text h ancestors v =
     (case v of
        JsUndefined \<Rightarrow> Inr None
      | JsFunction \<Rightarrow> Inr None
      | JsNull \<Rightarrow> Inr (Some ''null'')
      | JsBool b \<Rightarrow> Inr (Some (if b then ''true'' else ''false''))
      | JsNumber (Finite n) \<Rightarrow> Inr (Some (int_text n))
      | JsNumber NonFinite \<Rightarrow> Inr (Some ''null'')
      | JsString s \<Rightarrow> Inr (Some (quote_json s))
      | JsRef a \<Rightarrow>
          if a \<in> set ancestors \<or> \<not> a < length h then Inl ()
          else (case h ! a of
              JsArray items extra \<Rightarrow>
                res_bind (res_map (\<lambda>item. case item of
                         None \<Rightarrow> Inr ''null''
                       | Some w \<Rightarrow> res_bind (json_text h (a # ancestors) w)
                           (\<lambda>t. Inr (case t of None \<Rightarrow> ''null'' | Some s \<Rightarrow> s))) items)
                  (\<lambda>ts. Inr (Some (CHR ''['' # commas ts @ '']'')))
            | JsObject is_plain props \<Rightarrow>
                res_bind (res_map (\<lambda>(k, p). case (k, p) of
                         (StringKey name, DataProperty w) \<Rightarrow> res_bind (json_text h (a # ancestors) w)
                           (\<lambda>t. Inr (case t of None \<Rightarrow> [] | Some s \<Rightarrow> [quote_json name @ CHR '':'' # s]))
                       | _ \<Rightarrow> Inr []) props)
                  (\<lambda>ts. Inr (Some (CHR ''{'' # commas (concat ts) @ ''}'')))))"
  by pat_completeness auto
termination
proof (relation "measure (\<lambda>(h, ancestors, _). card ({..< length h} - set ancestors))", goal_cases)
  case 1
  show ?case by simp
next
  case (2 h ancestors v a items extra item w)
  have "{..< length h} - set (a # ancestors) \<subset> {..< length h} - set ancestors" using 2 by auto
  then show ?case by (auto intro: psubset_card_mono)
next
  case (3 h ancestors v a is_plain props kp k p name w)
  have "{..< length h} - set (a # ancestors) \<subset> {..< length h} - set ancestors" using 3 by auto
  then show ?case by (auto intro: psubset_card_mono)
qed

declare json_text.simps [simp del]

definition json_bytes :: "bool \<Rightarrow> js_data \<Rightarrow> failure + int" where
  "json_bytes output = (\<lambda>(h, v).
     case json_text h [] v of
       Inr (Some s) \<Rightarrow> Inr (int (length (utf8 s)))
     | _ \<Rightarrow> Inl (value_failure output))"

definition value_depth :: "bool \<Rightarrow> js_data \<Rightarrow> failure + nat" where
  "value_depth output = (\<lambda>(h, v). json_depth h output [] v)"

subsection \<open>\<open>evaluate\<close> and \<open>release\<close>\<close>

definition tool_key :: "string \<Rightarrow> tool_descriptor \<Rightarrow> string" where
  "tool_key subject d = nul_join [subject, td_id d, int_text (td_version d)]"

definition run_key :: "string \<Rightarrow> string \<Rightarrow> string" where
  "run_key subject run = nul_join [subject, run]"

definition concurrency_limit :: "tool_descriptor \<Rightarrow> int" where
  "concurrency_limit d = min (tl_max_concurrency (td_limits d))
     (min (cc_concurrency (class_ceilings (tl_cost_class (td_limits d)))) concurrency_ceiling)"

definition rate_limit :: "tool_descriptor \<Rightarrow> int" where
  "rate_limit d = min (tl_rate_per_minute (td_limits d))
     (min (cc_rate (class_ceilings (tl_cost_class (td_limits d)))) rate_ceiling)"

definition bucket_capacity :: "tool_descriptor \<Rightarrow> int" where
  "bucket_capacity d = min (tl_burst (td_limits d)) burst_ceiling"

text \<open>The tokens a key has at \<open>now\<close>.\<close>

definition tokens_at :: "tool_descriptor \<Rightarrow> string \<Rightarrow> int \<Rightarrow> budget \<Rightarrow> rat" where
  "tokens_at d key now s =
     (let capacity = of_int (bucket_capacity d);
          previous = map_get_or (bu_buckets s) key \<lparr>rb_tokens = capacity, rb_updated = now\<rparr>;
          elapsed = max 0 (now - rb_updated previous)
      in min capacity (rb_tokens previous + of_int (elapsed * rate_limit d) / 60000))"

definition check_input :: "tool_context \<Rightarrow> failure + unit" where
  "check_input c =
     res_bind (value_depth False (tc_input c)) (\<lambda>depth.
     res_bind (guard_that (int depth \<le> depth_ceiling) (budget_failure ''TOOL_INPUT_DEPTH_EXCEEDED'' 400)) (\<lambda>_.
     res_bind (json_bytes False (tc_input c)) (\<lambda>bytes.
       guard_that (bytes \<le> input_bytes_ceiling) (budget_failure ''TOOL_INPUT_TOO_LARGE'' 413))))"

definition budget_evaluate :: "bool \<Rightarrow> int \<Rightarrow> budget_scope \<Rightarrow> tool_context \<Rightarrow> budget \<Rightarrow> (failure + lease) \<times> budget" where
  "budget_evaluate aborted now scope c s =
     (if aborted then (Inl (budget_failure ''TOOL_CANCELLED'' 499), s)
      else case check_input c of
        Inl e \<Rightarrow> (Inl e, s)
      | Inr _ \<Rightarrow>
        let d = tc_descriptor c; class = class_ceilings (tl_cost_class (td_limits d))
        in if cc_base_cost class > tl_max_cost (td_limits d) then (Inl (budget_failure ''TOOL_COST_EXCEEDED'' 429), s)
        else if \<not> valid_id (bs_principal scope) \<or> \<not> valid_id (bs_run scope)
        then (Inl (budget_failure ''TOOL_BUDGET_CONTEXT_INVALID'' 401), s)
        else let subject = the (bs_principal scope); key = tool_key subject d; rkey = run_key subject (the (bs_run scope));
                 calls = map_get_or (bu_runs s) rkey 0; current = map_get_or (bu_active s) key 0
        in if calls \<ge> max_calls_per_run then (Inl (budget_failure ''TOOL_RUN_LIMIT_EXCEEDED'' 429), s)
        else if current \<ge> concurrency_limit d then (Inl (budget_failure ''TOOL_CONCURRENCY_EXCEEDED'' 429), s)
        else if \<not> is_safe_integer now then (Inl (budget_failure ''TOOL_BUDGET_CONTEXT_INVALID'' 500), s)
        else let tokens = tokens_at d key now s
        in if tokens < 1
           then (Inl (budget_failure ''TOOL_RATE_EXCEEDED'' 429),
                 s\<lparr>bu_buckets := AList.update key \<lparr>rb_tokens = tokens, rb_updated = now\<rparr> (bu_buckets s)\<rparr>)
           else (Inr \<lparr>le_object = bu_next s, le_key = key, le_principal = subject, le_run = the (bs_run scope),
                      le_cost = cc_base_cost class\<rparr>,
                 s\<lparr>bu_buckets := AList.update key \<lparr>rb_tokens = tokens - 1, rb_updated = now\<rparr> (bu_buckets s),
                   bu_runs := AList.update rkey (calls + 1) (bu_runs s),
                   bu_active := AList.update key (current + 1) (bu_active s),
                   bu_next := Suc (bu_next s)\<rparr>))"

definition budget_release :: "lease \<Rightarrow> budget \<Rightarrow> budget" where
  "budget_release l s =
     (if le_object l \<in> set (bu_released s) then s
      else let remaining = map_get_or (bu_active s) (le_key l) 1 - 1
           in s\<lparr>bu_released := le_object l # bu_released s,
                bu_active := (if remaining \<le> 0 then AList.delete (le_key l) (bu_active s)
                              else AList.update (le_key l) remaining (bu_active s))\<rparr>)"

subsection \<open>Outputs\<close>

definition assert_output :: "js_data \<Rightarrow> failure + unit" where
  "assert_output v =
     res_bind (value_depth True v) (\<lambda>depth.
     res_bind (guard_that (int depth \<le> depth_ceiling) (budget_failure ''TOOL_OUTPUT_DEPTH_EXCEEDED'' 500)) (\<lambda>_.
     res_bind (json_bytes True v) (\<lambda>bytes.
       guard_that (bytes \<le> output_bytes_ceiling) (budget_failure ''TOOL_OUTPUT_TOO_LARGE'' 500))))"

definition budgeted_validate :: "(tool_descriptor \<Rightarrow> js_data \<Rightarrow> failure + js_data) \<Rightarrow> tool_descriptor \<Rightarrow> js_data \<Rightarrow>
    failure + js_data" where
  "budgeted_validate validator d output =
     res_bind (validator d output) (\<lambda>validated. res_bind (assert_output validated) (\<lambda>_. Inr validated))"

text \<open>A new evaluator.\<close>

definition new_budget :: budget where
  "new_budget = \<lparr>bu_active = [], bu_buckets = [], bu_runs = [], bu_next = 0, bu_released = []\<rparr>"

end
