(* ===== verification/ToolBudgetProperties.thy ===== *)
theory ToolBudgetProperties
  imports ToolBudget
begin

text \<open>
  Budgets over runs of evaluations and releases: the rate of a tool, the leases that are
  outstanding, the calls of a run, and releasing twice.
\<close>

subsection \<open>Runs\<close>

text \<open>An evaluation, or the release of the lease granted as number \<open>i\<close>, if there is one.\<close>

datatype budget_op = BudgetCall bool (call_time: int) budget_scope tool_context | BudgetRelease nat

definition budget_exec :: "budget_op \<Rightarrow> lease list \<times> budget \<Rightarrow> lease list \<times> budget" where
  "budget_exec op = (\<lambda>(granted, s).
     case op of
       BudgetCall aborted now scope c \<Rightarrow>
         (case budget_evaluate aborted now scope c s of
            (Inl e, s') \<Rightarrow> (granted, s')
          | (Inr l, s') \<Rightarrow> (granted @ [l], s'))
     | BudgetRelease i \<Rightarrow> (granted, if i < length granted then budget_release (granted ! i) s else s))"

definition budget_run :: "budget_op list \<Rightarrow> lease list \<times> budget" where
  "budget_run ops = fold budget_exec ops ([], new_budget)"

text \<open>The evaluation as one of three outcomes.\<close>

definition granted_state :: "int \<Rightarrow> tool_descriptor \<Rightarrow> string \<Rightarrow> string \<Rightarrow> budget \<Rightarrow> budget" where
  "granted_state now d key rkey s =
     s\<lparr>bu_buckets := AList.update key \<lparr>rb_tokens = tokens_at d key now s - 1, rb_updated = now\<rparr> (bu_buckets s),
       bu_runs := AList.update rkey (map_get_or (bu_runs s) rkey 0 + 1) (bu_runs s),
       bu_active := AList.update key (map_get_or (bu_active s) key 0 + 1) (bu_active s), bu_next := Suc (bu_next s)\<rparr>"

lemma budget_evaluate_cases:
  fixes s :: budget
  obtains (refused) e where "budget_evaluate aborted now scope c s = (Inl e, s)"
    | (exhausted) key where "key = tool_key (the (bs_principal scope)) (tc_descriptor c)"
        "budget_evaluate aborted now scope c s = (Inl (budget_failure ''TOOL_RATE_EXCEEDED'' 429), s\<lparr>bu_buckets :=
           AList.update key \<lparr>rb_tokens = tokens_at (tc_descriptor c) key now s, rb_updated = now\<rparr> (bu_buckets s)\<rparr>)"
        "tokens_at (tc_descriptor c) key now s < 1"
    | (granted) l where "budget_evaluate aborted now scope c s =
          (Inr l, granted_state now (tc_descriptor c) (le_key l) (run_key (le_principal l) (le_run l)) s)"
        "le_key l = tool_key (le_principal l) (tc_descriptor c)" "bs_principal scope = Some (le_principal l)"
        "bs_run scope = Some (le_run l)" "le_object l = bu_next s" "\<not> aborted" "is_safe_integer now"
        "1 \<le> tokens_at (tc_descriptor c) (le_key l) now s"
        "map_get_or (bu_active s) (le_key l) 0 < concurrency_limit (tc_descriptor c)"
        "map_get_or (bu_runs s) (run_key (le_principal l) (le_run l)) 0 < max_calls_per_run"
        "check_input c = Inr ()" "le_cost l \<le> tl_max_cost (td_limits (tc_descriptor c))"
proof -
  let ?d = "tc_descriptor c"
  let ?p = "the (bs_principal scope)" and ?r = "the (bs_run scope)"
  let ?key = "tool_key ?p ?d" and ?rkey = "run_key ?p ?r"
  show thesis
  proof (cases "aborted \<or> (\<exists>e. check_input c = Inl e) \<or> cc_base_cost (class_ceilings (tl_cost_class (td_limits ?d))) > tl_max_cost (td_limits ?d)
      \<or> \<not> valid_id (bs_principal scope) \<or> \<not> valid_id (bs_run scope) \<or> map_get_or (bu_runs s) ?rkey 0 \<ge> max_calls_per_run
      \<or> map_get_or (bu_active s) ?key 0 \<ge> concurrency_limit ?d \<or> \<not> is_safe_integer now")
    case True
    then have "\<exists>e. budget_evaluate aborted now scope c s = (Inl e, s)"
      by (auto simp: budget_evaluate_def Let_def split: sum.splits)
    then show thesis using refused by blast
  next
    case ok: False
    then have input: "check_input c = Inr ()" by (cases "check_input c") auto
    have ids: "bs_principal scope = Some ?p" "bs_run scope = Some ?r" using ok by (auto simp: valid_id_def split: option.splits)
    show thesis
    proof (cases "tokens_at ?d ?key now s < 1")
      case True
      then show thesis using ok input by (intro exhausted [OF refl]) (auto simp: budget_evaluate_def Let_def)
    next
      case False
      then show thesis using ok input ids
        by (intro granted [of "\<lparr>le_object = bu_next s, le_key = ?key, le_principal = ?p, le_run = ?r,
              le_cost = cc_base_cost (class_ceilings (tl_cost_class (td_limits ?d)))\<rparr>"])
          (auto simp: budget_evaluate_def Let_def granted_state_def)
    qed
  qed
qed

subsection \<open>Outstanding leases and calls of a run\<close>

definition outstanding :: "string \<Rightarrow> lease list \<Rightarrow> budget \<Rightarrow> lease list" where
  "outstanding key ls s = filter (\<lambda>l. le_key l = key \<and> le_object l \<notin> set (bu_released s)) ls"

definition budget_inv :: "lease list \<Rightarrow> budget \<Rightarrow> bool" where
  "budget_inv ls s \<longleftrightarrow> distinct (map le_object ls) \<and> (\<forall>l \<in> set ls. le_object l < bu_next s) \<and>
     (\<forall>i \<in> set (bu_released s). i < bu_next s) \<and>
     (\<forall>key. map_get_or (bu_active s) key 0 = int (length (outstanding key ls s)) \<and>
            length (outstanding key ls s) \<le> 64 \<and> (map_of (bu_active s) key = None \<longrightarrow> outstanding key ls s = [])) \<and>
     (\<forall>rkey. map_get_or (bu_runs s) rkey 0 = int (length (filter (\<lambda>l. run_key (le_principal l) (le_run l) = rkey) ls)) \<and>
             length (filter (\<lambda>l. run_key (le_principal l) (le_run l) = rkey) ls) \<le> 100)"

lemma budget_inv_granted:
  assumes "budget_inv ls s" "le_object l = bu_next s"
    "map_get_or (bu_active s) (le_key l) 0 < 64"
    "map_get_or (bu_runs s) (run_key (le_principal l) (le_run l)) 0 < 100"
  shows "budget_inv (ls @ [l]) (granted_state now d (le_key l) (run_key (le_principal l) (le_run l)) s)"
proof -
  let ?s = "granted_state now d (le_key l) (run_key (le_principal l) (le_run l)) s"
  have fresh: "le_object l \<notin> le_object ` set ls" "le_object l \<notin> set (bu_released s)"
    using assms(1,2) by (auto simp: budget_inv_def)
  have "outstanding key (ls @ [l]) ?s = outstanding key ls s @ (if key = le_key l then [l] else [])" for key
    using fresh(2) by (simp add: outstanding_def granted_state_def)
  moreover have "le_object x < Suc (bu_next s)" if "x \<in> set ls" for x
    using assms(1) that by (auto simp: budget_inv_def intro: less_SucI)
  ultimately show ?thesis
    using assms fresh by (auto simp: budget_inv_def granted_state_def less_SucI)
qed

lemma budget_inv_release:
  assumes "budget_inv ls s" "l \<in> set ls"
  shows "budget_inv ls (budget_release l s)"
proof (cases "le_object l \<in> set (bu_released s)")
  case True
  then show ?thesis using assms by (simp add: budget_release_def)
next
  case False
  let ?s = "budget_release l s" and ?k = "le_key l"
  have l: "l \<in> set (outstanding ?k ls s)" using assms(2) False by (simp add: outstanding_def)
  have dist: "distinct (map le_object ls)" using assms(1) by (simp add: budget_inv_def)
  have same: "x = l" if "x \<in> set ls" "le_object x = le_object l" for x
    using dist assms(2) that by (simp add: distinct_map inj_on_def)
  have released: "bu_released ?s = le_object l # bu_released s"
    using False by (simp add: budget_release_def Let_def)
  have out: "outstanding key ls ?s = (if key = ?k then removeAll l (outstanding ?k ls s) else outstanding key ls s)" for key
  proof -
    have "outstanding key ls ?s = filter (\<lambda>x. x \<noteq> l) (outstanding key ls s)"
      unfolding outstanding_def released filter_filter
      by (rule filter_cong) (use same in auto)
    moreover have "filter (\<lambda>x. x \<noteq> l) (outstanding key ls s) = outstanding key ls s" if "key \<noteq> ?k"
      unfolding outstanding_def filter_filter by (rule filter_cong) (use that in auto)
    ultimately show ?thesis by (simp add: removeAll_filter_not_eq eq_commute)
  qed
  have "distinct (outstanding ?k ls s)"
    using dist by (simp add: outstanding_def distinct_map)
  then have count: "Suc (length (removeAll l (outstanding ?k ls s))) = length (outstanding ?k ls s)"
    using l length_pos_if_in_set [OF l] by (simp add: distinct_remove1_removeAll [symmetric] length_remove1)
  then have last: "removeAll l (outstanding ?k ls s) = []" if "length (outstanding ?k ls s) \<le> 1"
    using that by (metis Suc_le_mono le_zero_eq length_0_conv One_nat_def)
  have active: "map_get_or (bu_active s) ?k 0 = int (length (outstanding ?k ls s))" "map_of (bu_active s) ?k \<noteq> None"
    using assms(1) l by (auto simp: budget_inv_def)
  then have one: "map_get_or (bu_active s) ?k 1 = int (length (outstanding ?k ls s))"
    by (auto simp: map_get_or_def)
  show ?thesis
    unfolding budget_inv_def
  proof (intro conjI allI)
    fix key
    show "map_get_or (bu_active ?s) key 0 = int (length (outstanding key ls ?s))"
      using assms(1) False count one last unfolding out
      by (auto simp: budget_release_def Let_def budget_inv_def map_get_or_def)
    show "length (outstanding key ls ?s) \<le> 64"
    proof -
      have "length (outstanding ?k ls s) \<le> 64" "length (outstanding key ls s) \<le> 64"
        using assms(1) by (auto simp: budget_inv_def)
      then show ?thesis using count unfolding out by simp
    qed
    show "map_of (bu_active ?s) key = None \<longrightarrow> outstanding key ls ?s = []"
      using assms(1) False count one last unfolding out
      by (auto simp: budget_release_def Let_def budget_inv_def)
  qed (use assms False in \<open>auto simp: budget_release_def Let_def budget_inv_def\<close>)
qed

lemma budget_inv_exec:
  assumes "budget_inv ls s"
  shows "case budget_exec op (ls, s) of (ls', s') \<Rightarrow> budget_inv ls' s'"
proof (cases op)
  case (BudgetCall aborted now scope c)
  show ?thesis
  proof (cases rule: budget_evaluate_cases [where aborted = aborted and now = now and scope = scope and c = c and s = s])
    case (granted l)
    have "concurrency_limit (tc_descriptor c) \<le> 64" by (simp add: concurrency_limit_def concurrency_ceiling_def)
    then show ?thesis
      using granted BudgetCall budget_inv_granted [OF assms granted(5)]
      by (simp add: budget_exec_def max_calls_per_run_def)
  next
    case (exhausted key)
    then show ?thesis using assms BudgetCall by (simp add: budget_exec_def budget_inv_def outstanding_def)
  qed (use assms BudgetCall in \<open>simp add: budget_exec_def\<close>)
next
  case (BudgetRelease i)
  then show ?thesis using assms budget_inv_release [OF assms nth_mem] by (simp add: budget_exec_def)
qed

lemma budget_inv_run: "case budget_run ops of (ls, s) \<Rightarrow> budget_inv ls s"
proof -
  have "case fold budget_exec ops x of (ls, s) \<Rightarrow> budget_inv ls s" if "case x of (ls, s) \<Rightarrow> budget_inv ls s" for x
    using that
  proof (induction ops arbitrary: x)
    case (Cons op ops)
    have "case budget_exec op x of (ls, s) \<Rightarrow> budget_inv ls s"
      using Cons.prems budget_inv_exec by (cases x) auto
    then show ?case using Cons.IH by simp
  qed simp
  moreover have "budget_inv [] new_budget" by (simp add: budget_inv_def new_budget_def outstanding_def)
  ultimately show ?thesis by (simp add: budget_run_def)
qed

text \<open>At any moment the counter of a tool is the number of its leases that are not released, at most
  64 of them are outstanding, and no run has been granted more than 100 calls.\<close>

theorem budget_concurrency_and_run_limit:
  assumes "budget_run ops = (ls, s)"
  shows "map_get_or (bu_active s) key 0 = int (length (filter (\<lambda>l. le_key l = key \<and> le_object l \<notin> set (bu_released s)) ls)) \<and>
    map_get_or (bu_active s) key 0 \<le> 64 \<and>
    length (filter (\<lambda>l. run_key (le_principal l) (le_run l) = rkey) ls) \<le> 100"
  using budget_inv_run [of ops] assms by (simp add: budget_inv_def outstanding_def)

text \<open>Releasing a lease gives its slot back exactly once: the first release lowers the counter of
  the tool by one and every further release of the same lease changes nothing.\<close>

theorem lease_released_once:
  assumes "budget_run ops = (ls, s)" "l \<in> set ls" "le_object l \<notin> set (bu_released s)"
  shows "map_get_or (bu_active (budget_release l s)) (le_key l) 0 = map_get_or (bu_active s) (le_key l) 0 - 1 \<and>
    0 < map_get_or (bu_active s) (le_key l) 0 \<and>
    budget_release l (budget_release l s) = budget_release l s"
proof -
  have inv: "budget_inv ls s" using budget_inv_run [of ops] assms(1) by simp
  have "l \<in> set (outstanding (le_key l) ls s)" using assms(2,3) by (simp add: outstanding_def)
  then have "0 < length (outstanding (le_key l) ls s)" by (rule length_pos_if_in_set)
  moreover have "map_get_or (bu_active s) (le_key l) 0 = int (length (outstanding (le_key l) ls s))"
    using inv by (simp add: budget_inv_def)
  moreover from calculation have "map_get_or (bu_active s) (le_key l) 1 = map_get_or (bu_active s) (le_key l) 0"
    by (auto simp: map_get_or_def split: option.splits)
  ultimately show ?thesis
    using assms(3)
    by (auto simp: budget_release_def Let_def map_get_or_def)
      (metis One_nat_def Suc_leI le_antisym length_greater_0_conv)
qed

subsection \<open>The rate of a tool\<close>

definition bucket_ok :: "int \<Rightarrow> string \<Rightarrow> budget \<Rightarrow> bool" where
  "bucket_ok t key s \<longleftrightarrow> (\<forall>b. map_of (bu_buckets s) key = Some b \<longrightarrow> 0 \<le> rb_tokens b \<and> rb_updated b \<le> t)"

lemma tokens_at_nonneg:
  assumes "bucket_ok t key s" "t \<le> now" "0 \<le> bucket_capacity d" "0 \<le> rate_limit d"
  shows "0 \<le> tokens_at d key now s"
proof (cases "map_of (bu_buckets s) key")
  case None
  then show ?thesis using assms by (simp add: tokens_at_def map_get_or_def Let_def)
next
  case (Some b)
  then have "0 \<le> (now - rb_updated b) * rate_limit d" "0 \<le> rb_tokens b"
    using assms by (auto simp: bucket_ok_def)
  moreover from this have "0 \<le> (of_int ((now - rb_updated b) * rate_limit d) :: rat)" by (simp only: of_int_0_le_iff)
  moreover have "max 0 (now - rb_updated b) = now - rb_updated b" using Some assms by (auto simp: bucket_ok_def)
  ultimately show ?thesis using Some assms(3) by (simp add: tokens_at_def map_get_or_def Let_def)
qed

lemma tokens_at_later:
  assumes "bucket_ok t key s" "t \<le> now" "now \<le> later" "0 \<le> rate_limit d"
  shows "tokens_at d key later s \<le> tokens_at d key now s + of_int ((later - now) * rate_limit d) / 60000"
proof (cases "map_of (bu_buckets s) key")
  case None
  have "0 \<le> (of_int ((later - now) * rate_limit d) :: rat)"
    unfolding of_int_0_le_iff using assms by simp
  then show ?thesis using None by (simp add: tokens_at_def map_get_or_def Let_def)
next
  case (Some b)
  have m: "max 0 (now - rb_updated b) = now - rb_updated b" "max 0 (later - rb_updated b) = later - rb_updated b"
    using Some assms by (auto simp: bucket_ok_def)
  have "0 \<le> (of_int ((later - now) * rate_limit d) :: rat)"
    unfolding of_int_0_le_iff using assms by simp
  moreover have "(of_int ((later - rb_updated b) * rate_limit d) :: rat) =
      of_int ((now - rb_updated b) * rate_limit d) + of_int ((later - now) * rate_limit d)"
    by (simp add: algebra_simps)
  ultimately show ?thesis
    using Some by (simp add: tokens_at_def map_get_or_def Let_def m add_divide_distrib min_def)
qed

text \<open>The leases a sequence of calls and releases is granted for one key.\<close>

definition granted_for :: "string \<Rightarrow> lease list \<Rightarrow> nat" where
  "granted_for key ls = length (filter (\<lambda>l. le_key l = key) ls)"

fun op_time_of :: "budget_op \<Rightarrow> int list" where
  "op_time_of (BudgetCall aborted now scope c) = [now]"
| "op_time_of (BudgetRelease i) = []"

definition times :: "budget_op list \<Rightarrow> int list" where
  "times ops = concat (map op_time_of ops)"

lemma times_simps [simp]: "times [] = []" "times (op # ops) = op_time_of op @ times ops"
  by (simp_all add: times_def)

text \<open>Every call for the key is made with the descriptor \<open>d\<close>.\<close>

definition calls_use :: "string \<Rightarrow> tool_descriptor \<Rightarrow> budget_op list \<Rightarrow> bool" where
  "calls_use key d ops \<longleftrightarrow> (\<forall>op \<in> set ops. case op of
     BudgetCall aborted now scope c \<Rightarrow> tool_key (the (bs_principal scope)) (tc_descriptor c) = key \<longrightarrow> tc_descriptor c = d
   | BudgetRelease i \<Rightarrow> True)"

lemma release_buckets [simp]: "bu_buckets (budget_release l s) = bu_buckets s"
  by (simp add: budget_release_def Let_def)

lemma tokens_at_bucket: "map_of (bu_buckets s) key = map_of (bu_buckets s') key \<Longrightarrow> tokens_at d key now s = tokens_at d key now s'"
  by (simp add: tokens_at_def map_get_or_def)

lemma rate_step:
  assumes "bucket_ok t key s" "op_time_of op = [now]" "t \<le> now" "0 \<le> bucket_capacity d" "0 \<le> rate_limit d"
    "calls_use key d [op]" "budget_exec op (ls, s) = (ls', s')"
  shows "bucket_ok now key s' \<and>
    of_nat (granted_for key ls') + tokens_at d key now s' \<le> of_nat (granted_for key ls) + tokens_at d key now s"
proof (cases op)
  case (BudgetCall aborted now' scope c)
  then have now: "now' = now" using assms(2) by simp
  have same: "bucket_ok now key s" using assms(1,3) by (auto simp: bucket_ok_def)
  have at_now: "tokens_at d key now (s\<lparr>bu_buckets := AList.update key \<lparr>rb_tokens = x, rb_updated = now\<rparr> (bu_buckets s)\<rparr>) \<le> x" for x
    by (simp add: tokens_at_def map_get_or_def Let_def)
  show ?thesis
  proof (cases rule: budget_evaluate_cases [where aborted = aborted and now = now and scope = scope and c = c and s = s])
    case (refused e)
    then show ?thesis using assms(7) BudgetCall now same by (simp add: budget_exec_def)
  next
    case (exhausted k)
    then have out: "ls' = ls" "s' = s\<lparr>bu_buckets := AList.update k \<lparr>rb_tokens = tokens_at (tc_descriptor c) k now s, rb_updated = now\<rparr> (bu_buckets s)\<rparr>"
      using assms(7) BudgetCall now by (auto simp: budget_exec_def)
    show ?thesis
    proof (cases "k = key")
      case True
      then have "tc_descriptor c = d" using assms(6) BudgetCall exhausted(1) by (simp add: calls_use_def)
      then show ?thesis using at_now tokens_at_nonneg [OF assms(1,3,4,5)] out True by (simp add: bucket_ok_def)
    next
      case False
      then have "tokens_at d key now s' = tokens_at d key now s" by (intro tokens_at_bucket) (simp add: out)
      then show ?thesis using same out False by (simp add: bucket_ok_def)
    qed
  next
    case (granted l)
    then have out: "ls' = ls @ [l]" "s' = granted_state now (tc_descriptor c) (le_key l) (run_key (le_principal l) (le_run l)) s"
      using assms(7) BudgetCall now by (auto simp: budget_exec_def)
    show ?thesis
    proof (cases "le_key l = key")
      case True
      then have d: "tc_descriptor c = d" using assms(6) BudgetCall granted(2,3) by (simp add: calls_use_def)
      have "tokens_at d key now s' = tokens_at d key now (s\<lparr>bu_buckets := AList.update key
          \<lparr>rb_tokens = tokens_at d key now s - 1, rb_updated = now\<rparr> (bu_buckets s)\<rparr>)"
        by (intro tokens_at_bucket) (simp add: out granted_state_def True d)
      then have "tokens_at d key now s' \<le> tokens_at d key now s - 1" using at_now by simp
      then show ?thesis using granted(8) out True d by (simp add: granted_for_def bucket_ok_def granted_state_def)
    next
      case False
      then have "tokens_at d key now s' = tokens_at d key now s" by (intro tokens_at_bucket) (simp add: out granted_state_def)
      then show ?thesis using same out False by (simp add: granted_for_def bucket_ok_def granted_state_def)
    qed
  qed
qed (use assms(2) in simp)

lemma rate_run:
  assumes "bucket_ok t key s" "sorted (t # times ops @ [t'])" "0 \<le> bucket_capacity d" "0 \<le> rate_limit d"
    "calls_use key d ops" "fold budget_exec ops (ls, s) = (ls', s')"
  shows "of_nat (granted_for key ls') \<le>
    of_nat (granted_for key ls) + tokens_at d key t s + of_int ((t' - t) * rate_limit d) / 60000"
  using assms
proof (induction ops arbitrary: t ls s)
  case Nil
  then have "0 \<le> tokens_at d key t s" using tokens_at_nonneg by simp
  moreover have "0 \<le> (of_int ((t' - t) * rate_limit d) :: rat)" unfolding of_int_0_le_iff using Nil by simp
  ultimately show ?case using Nil by simp
next
  case (Cons op ops)
  obtain ls1 s1 where one: "budget_exec op (ls, s) = (ls1, s1)" by (cases "budget_exec op (ls, s)")
  have rest: "fold budget_exec ops (ls1, s1) = (ls', s')" using Cons.prems(6) one by simp
  have uses: "calls_use key d ops" "calls_use key d [op]" using Cons.prems(5) by (auto simp: calls_use_def)
  show ?case
  proof (cases op)
    case (BudgetCall aborted now scope c)
    then have now: "op_time_of op = [now]" "t \<le> now" "now \<le> t'" using Cons.prems(2) by auto
    note step = rate_step [OF Cons.prems(1) now(1,2) Cons.prems(3,4) uses(2) one]
    have "sorted (now # times ops @ [t'])" using Cons.prems(2) BudgetCall by simp
    from Cons.IH [OF _ this Cons.prems(3,4) uses(1) rest] step
    have "of_nat (granted_for key ls') \<le> of_nat (granted_for key ls) + tokens_at d key now s + of_int ((t' - now) * rate_limit d) / 60000"
      by linarith
    moreover have "tokens_at d key now s \<le> tokens_at d key t s + of_int ((now - t) * rate_limit d) / 60000"
      using tokens_at_later [OF Cons.prems(1) order_refl now(2) Cons.prems(4)] .
    moreover have "(of_int ((t' - t) * rate_limit d) :: rat) / 60000 =
        of_int ((t' - now) * rate_limit d) / 60000 + of_int ((now - t) * rate_limit d) / 60000"
      by (simp add: add_divide_distrib [symmetric] algebra_simps)
    ultimately show ?thesis by linarith
  next
    case (BudgetRelease i)
    then have "ls1 = ls" "bu_buckets s1 = bu_buckets s" using one by (auto simp: budget_exec_def split: if_splits)
    then have "bucket_ok t key s1" "tokens_at d key t s1 = tokens_at d key t s"
      using Cons.prems(1) tokens_at_bucket [of s1 key s] by (simp_all add: bucket_ok_def)
    then show ?thesis
      using Cons.IH [of t s1 ls1] Cons.prems(2-4) uses(1) rest BudgetRelease \<open>ls1 = ls\<close> by simp
  qed
qed

text \<open>A bucket never holds more than its capacity: the tokens earned while a tool is idle are clamped.\<close>

lemma tokens_at_capped: "tokens_at d key t s \<le> of_int (bucket_capacity d)"
  by (simp add: tokens_at_def Let_def)

text \<open>After calls that were not later than \<open>t'\<close> the bucket of the key was updated no later than \<open>t'\<close>.\<close>

lemma bucket_ok_run:
  assumes "bucket_ok t key s" "sorted (t # times ops @ [t'])" "0 \<le> bucket_capacity d" "0 \<le> rate_limit d"
    "calls_use key d ops" "fold budget_exec ops (ls, s) = (ls', s')"
  shows "bucket_ok t' key s'"
  using assms
proof (induction ops arbitrary: t ls s)
  case Nil
  then show ?case by (auto simp: bucket_ok_def)
next
  case (Cons op ops)
  obtain ls1 s1 where one: "budget_exec op (ls, s) = (ls1, s1)" by (cases "budget_exec op (ls, s)")
  have rest: "fold budget_exec ops (ls1, s1) = (ls', s')" using Cons.prems(6) one by simp
  have uses: "calls_use key d ops" "calls_use key d [op]" using Cons.prems(5) by (auto simp: calls_use_def)
  show ?case
  proof (cases op)
    case (BudgetCall aborted now scope c)
    then have now: "op_time_of op = [now]" "t \<le> now" "sorted (now # times ops @ [t'])" using Cons.prems(2) by auto
    from rate_step [OF Cons.prems(1) now(1,2) Cons.prems(3,4) uses(2) one]
    have "bucket_ok now key s1" ..
    then show ?thesis using Cons.IH [OF _ now(3) Cons.prems(3,4) uses(1) rest] by simp
  next
    case (BudgetRelease i)
    then have "bu_buckets s1 = bu_buckets s" using one by (auto simp: budget_exec_def split: if_splits)
    then have "bucket_ok t key s1" using Cons.prems(1) by (simp add: bucket_ok_def)
    then show ?thesis using Cons.IH [OF _ _ Cons.prems(3,4) uses(1) rest] Cons.prems(2) BudgetRelease by simp
  qed
qed

lemma bucket_ok_reached:
  assumes "budget_run ops = (ls, s)" "sorted (times ops @ [t])" "0 \<le> bucket_capacity d" "0 \<le> rate_limit d" "calls_use key d ops"
  shows "bucket_ok t key s"
proof -
  let ?t = "hd (times ops @ [t])"
  have "bucket_ok ?t key new_budget" by (simp add: bucket_ok_def new_budget_def)
  moreover have "sorted (?t # times ops @ [t])"
    using assms(2) by (cases "times ops @ [t]") auto
  ultimately show ?thesis using bucket_ok_run assms by (fastforce simp: budget_run_def)
qed

text \<open>C23: Take any two moments of the life of an evaluator: whatever calls and releases came before the
  first, the leases of a tool that are granted between the two are at most the burst capacity plus the
  tokens the rate earns in that time, however long the tool was idle before. The clock does not go
  backwards, and all calls under the key have the same descriptor, with limits that are not negative.\<close>

theorem budget_rate:
  assumes "budget_run before = (ls, s)" "fold budget_exec ops (ls, s) = (ls', s')"
    and "sorted (times before @ t # times ops @ [t'])"
    and "0 \<le> bucket_capacity d" "0 \<le> rate_limit d" "calls_use key d (before @ ops)"
  shows "of_nat (length (filter (\<lambda>l. le_key l = key) ls')) - of_nat (length (filter (\<lambda>l. le_key l = key) ls)) \<le>
    (of_int (bucket_capacity d) + of_int ((t' - t) * rate_limit d) / 60000 :: rat)"
proof -
  have uses: "calls_use key d before" "calls_use key d ops" using assms(6) by (auto simp: calls_use_def)
  have sorted: "sorted (times before @ [t])" "sorted (t # times ops @ [t'])"
    using assms(3) by (auto simp: sorted_append)
  note ok = bucket_ok_reached [OF assms(1) sorted(1) assms(4,5) uses(1)]
  show ?thesis
    using rate_run [OF ok sorted(2) assms(4,5) uses(2) assms(2)] tokens_at_capped [of d key t s]
    by (simp add: granted_for_def)
qed

subsection \<open>At a concrete run\<close>

definition sample_scope :: budget_scope where
  "sample_scope = \<lparr>bs_principal = Some ''p'', bs_run = Some ''r''\<rparr>"

definition sample_calls :: "budget_op list" where
  "sample_calls = [BudgetCall False 0 sample_scope sample_context, BudgetCall False 500 sample_scope sample_context,
     BudgetRelease 0, BudgetCall False 1000 sample_scope sample_context, BudgetCall False 1000 sample_scope sample_context]"

definition sample_leases :: "lease list" where
  "sample_leases = fst (budget_run sample_calls)"

definition sample_budget :: budget where
  "sample_budget = snd (budget_run sample_calls)"

definition sample_tool_key :: string where
  "sample_tool_key = tool_key ''p'' sample_tool"

lemma sample_run: "budget_run sample_calls = (sample_leases, sample_budget)"
  by (simp add: sample_leases_def sample_budget_def)

lemma budget_concurrency_and_run_limit_witness:
  "map_get_or (bu_active sample_budget) sample_tool_key 0 \<le> 64"
  using budget_concurrency_and_run_limit [OF sample_run] by blast

lemma lease_released_once_witness:
  "budget_release (sample_leases ! 1) (budget_release (sample_leases ! 1) sample_budget) = budget_release (sample_leases ! 1) sample_budget"
proof -
  have "sample_leases ! 1 \<in> set sample_leases" "le_object (sample_leases ! 1) \<notin> set (bu_released sample_budget)"
    by code_simp+
  from lease_released_once [OF sample_run this] show ?thesis by blast
qed

text \<open>Two minutes later the tool has been idle for long, and only the burst of two calls is left to it.\<close>

definition later_calls :: "budget_op list" where
  "later_calls = [BudgetRelease 1, BudgetRelease 2, BudgetCall False 120000 sample_scope sample_context, BudgetRelease 3,
     BudgetCall False 120000 sample_scope sample_context, BudgetRelease 4, BudgetCall False 120000 sample_scope sample_context]"

lemma budget_rate_witness:
  "length (filter (\<lambda>l. le_key l = sample_tool_key) sample_leases) = 3 \<and>
   of_nat (length (filter (\<lambda>l. le_key l = sample_tool_key) (fst (fold budget_exec later_calls (sample_leases, sample_budget)))))
     \<le> (5 :: rat)"
proof -
  have count: "length (filter (\<lambda>l. le_key l = sample_tool_key) sample_leases) = 3" by code_simp
  have "sorted (times sample_calls @ 120000 # times later_calls @ [120000])" by code_simp
  moreover have "0 \<le> bucket_capacity sample_tool" "0 \<le> rate_limit sample_tool" by code_simp+
  moreover have "calls_use sample_tool_key sample_tool (sample_calls @ later_calls)" by code_simp
  ultimately have "of_nat (length (filter (\<lambda>l. le_key l = sample_tool_key) (fst (fold budget_exec later_calls (sample_leases, sample_budget))))) -
      of_nat (length (filter (\<lambda>l. le_key l = sample_tool_key) sample_leases)) \<le>
      (of_int (bucket_capacity sample_tool) + of_int ((120000 - 120000) * rate_limit sample_tool) / 60000 :: rat)"
    by (rule budget_rate [OF sample_run prod.collapse [symmetric]])
  moreover have "bucket_capacity sample_tool = 2" by code_simp
  ultimately show ?thesis unfolding count by simp
qed

end
