(* ===== verification/ToolDelegation.thy ===== *)
theory ToolDelegation
  imports ToolTypes CanonicalJsonProperties
begin

text \<open>
  Bound delegations, \<open>packages/runtime/src/tool-delegation.ts\<close>: a grant that a person gives to an
  agent client, its evaluation against the caller's identity, and the catalogue policy that asks it.

  An identifier is \<open>None\<close> where the value is no string. The resolvers belong to the host: their
  answers are arguments, \<open>Inl\<close> where they throw.
\<close>

subsection \<open>Grants\<close>

definition delegation_max_tools :: nat where "delegation_max_tools = 100"
definition delegation_max_lifetime_ms :: int where "delegation_max_lifetime_ms = 24 * 60 * 60 * 1000"

text \<open>An effect is one of the four of \<open>AgentToolEffect\<close> or any other value.\<close>

datatype listed_effect = KnownEffect tool_effect | UnknownEffect string

record delegation_grant =
  dg_id :: "string option"
  dg_principal :: "string option"
  dg_client :: "string option"
  dg_application :: "string option"
  dg_tools :: "(string option \<times> js_number) list option"
  dg_effects :: "listed_effect list option"
  dg_expires :: js_number
  dg_revision :: js_number
  dg_resource :: "(string option \<times> string option) option"

record delegation_identity =
  di_principal :: "string option"
  di_client :: "string option"
  di_application :: "string option"

record evaluated_delegation =
  ed_id :: string
  ed_principal :: string
  ed_client :: string
  ed_application :: string
  ed_resource :: "(string \<times> string) option"
  ed_tool_keys :: "string list"
  ed_effects :: "listed_effect list"

definition delegation_denied :: "string \<Rightarrow> failure" where
  "delegation_denied code = gateway_failure code 403 ''Delegation was denied.''"

definition safe_integer_at_least :: "int \<Rightarrow> js_number \<Rightarrow> bool" where
  "safe_integer_at_least low v = (case v of Finite n \<Rightarrow> is_safe_integer n \<and> low \<le> n | NonFinite \<Rightarrow> False)"

text \<open>A template literal: the text of a value that is no string or no number cannot be listed twice
  without the entry being refused on its own.\<close>

definition listed_tool_key :: "string option \<times> js_number \<Rightarrow> string" where
  "listed_tool_key t =
     (case fst t of None \<Rightarrow> ''undefined'' | Some s \<Rightarrow> s) @ nul #
     (case snd t of Finite n \<Rightarrow> int_text n | NonFinite \<Rightarrow> ''NaN'')"

definition delegation_tool_key :: "('a tool_descriptor_scheme) \<Rightarrow> string" where
  "delegation_tool_key d = td_id d @ nul # int_text (td_version d)"

definition validate_grant :: "delegation_grant \<Rightarrow> int \<Rightarrow> failure + unit" where
  "validate_grant g now =
     (let invalid = delegation_denied ''DELEGATION_INVALID'' in
      case (dg_tools g, dg_effects g) of
        (Some tools, Some effects) \<Rightarrow>
          (if \<not> valid_id (dg_id g) \<or> \<not> valid_id (dg_principal g) \<or> \<not> valid_id (dg_client g)
              \<or> \<not> valid_id (dg_application g)
              \<or> length tools < 1 \<or> delegation_max_tools < length tools \<or> length effects < 1 \<or> 4 < length effects
              \<or> (case dg_expires g of NonFinite \<Rightarrow> True
                 | Finite e \<Rightarrow> \<not> is_safe_integer e \<or> e \<le> now \<or> delegation_max_lifetime_ms < e - now)
              \<or> \<not> safe_integer_at_least 0 (dg_revision g)
           then Inl invalid
           else if \<not> distinct (map listed_tool_key tools)
              \<or> (\<exists>t \<in> set tools. \<not> valid_id (fst t) \<or> \<not> safe_integer_at_least 1 (snd t))
           then Inl invalid
           else if \<not> distinct effects \<or> (\<exists>e \<in> set effects. case e of KnownEffect _ \<Rightarrow> False | UnknownEffect _ \<Rightarrow> True)
           then Inl invalid
           else if (case dg_resource g of None \<Rightarrow> False | Some (kind, i) \<Rightarrow> \<not> valid_id kind \<or> \<not> valid_id i)
           then Inl invalid
           else Inr ())
      | _ \<Rightarrow> Inl invalid)"

subsection \<open>\<open>evaluate\<close>\<close>

text \<open>\<open>revision\<close> and \<open>allows\<close> are the revocation store and the parent authority, asked for the grant.\<close>

definition delegation_evaluate ::
    "failure + delegation_grant option \<Rightarrow> js_number \<Rightarrow> failure + delegation_identity \<Rightarrow>
     (string \<Rightarrow> failure + js_number) \<Rightarrow> (delegation_grant \<Rightarrow> failure + js_value) \<Rightarrow>
     failure + evaluated_delegation" where
  "delegation_evaluate resolved clock identities revision allows =
     res_bind resolved (\<lambda>found. case found of
       None \<Rightarrow> Inl (delegation_denied ''DELEGATION_REQUIRED'')
     | Some g \<Rightarrow> (case clock of
         NonFinite \<Rightarrow> Inl (delegation_denied ''DELEGATION_INVALID'')
       | Finite now \<Rightarrow>
           if \<not> is_safe_integer now then Inl (delegation_denied ''DELEGATION_INVALID'')
           else res_bind (validate_grant g now) (\<lambda>_.
             res_bind identities (\<lambda>i.
               if \<not> valid_id (di_principal i) \<or> \<not> valid_id (di_client i) \<or> \<not> valid_id (di_application i)
                  \<or> dg_principal g \<noteq> di_principal i \<or> dg_client g \<noteq> di_client i
                  \<or> dg_application g \<noteq> di_application i
               then Inl (delegation_denied ''DELEGATION_SUBJECT_MISMATCH'')
               else res_bind (revision (the (dg_id g))) (\<lambda>current.
                 if current = NonFinite \<or> current \<noteq> dg_revision g
                 then Inl (delegation_denied ''DELEGATION_REVOKED'')
                 else res_bind (allows g) (\<lambda>verdict.
                   if verdict \<noteq> JsBool True then Inl (delegation_denied ''DELEGATION_ESCALATION'')
                   else Inr
                     \<lparr>ed_id = the (dg_id g), ed_principal = the (dg_principal g), ed_client = the (dg_client g),
                      ed_application = the (dg_application g),
                      ed_resource = map_option (\<lambda>(kind, i). (the kind, the i)) (dg_resource g),
                      ed_tool_keys = map listed_tool_key (the (dg_tools g)), ed_effects = the (dg_effects g)\<rparr>))))))"

definition delegation_allows :: "evaluated_delegation \<Rightarrow> ('a tool_descriptor_scheme) \<Rightarrow> bool" where
  "delegation_allows d t \<longleftrightarrow>
     delegation_tool_key t \<in> set (ed_tool_keys d) \<and> KnownEffect (td_effect t) \<in> set (ed_effects d)"

text \<open>\<open>DelegatedToolCatalogPolicy.isVisible\<close>: the delegation first, then the policy of the person.\<close>

definition delegated_visible ::
    "(('a tool_descriptor_scheme) \<Rightarrow> failure + js_value) \<Rightarrow> evaluated_delegation option \<Rightarrow>
     ('a tool_descriptor_scheme) \<Rightarrow> failure + js_value" where
  "delegated_visible person delegation t =
     (case delegation of
        None \<Rightarrow> Inr (JsBool False)
      | Some d \<Rightarrow> if \<not> delegation_allows d t then Inr (JsBool False) else person t)"

subsection \<open>What an accepted grant is\<close>

text \<open>The abstract contract: when a grant is one an agent may use.\<close>

definition grant_usable :: "delegation_grant \<Rightarrow> int \<Rightarrow> bool" where
  "grant_usable g now \<longleftrightarrow>
     (\<exists>tools effects expires rev.
        dg_tools g = Some tools \<and> dg_effects g = Some effects \<and> dg_expires g = Finite expires \<and> dg_revision g = Finite rev
      \<and> now < expires \<and> expires \<le> now + delegation_max_lifetime_ms \<and> is_safe_integer expires
      \<and> 0 \<le> rev \<and> is_safe_integer rev
      \<and> tools \<noteq> [] \<and> length tools \<le> delegation_max_tools \<and> effects \<noteq> [] \<and> distinct effects \<and> distinct tools
      \<and> (\<forall>(i, v) \<in> set tools. valid_id i \<and> (\<exists>n. v = Finite n \<and> 1 \<le> n \<and> is_safe_integer n))
      \<and> (\<forall>e \<in> set effects. \<exists>k. e = KnownEffect k))
      \<and> valid_id (dg_id g) \<and> valid_id (dg_principal g) \<and> valid_id (dg_client g) \<and> valid_id (dg_application g)
      \<and> (case dg_resource g of None \<Rightarrow> True | Some (kind, i) \<Rightarrow> valid_id kind \<and> valid_id i)"

subsection \<open>Keys of tools\<close>

lemma valid_id_Some: "valid_id v \<longleftrightarrow> (\<exists>s. v = Some s \<and> bounded_id s)"
  by (auto simp: valid_id_def split: option.splits)

lemma safe_integer_at_least_iff:
  "safe_integer_at_least low v \<longleftrightarrow> (\<exists>n. v = Finite n \<and> is_safe_integer n \<and> low \<le> n)"
  by (auto simp: safe_integer_at_least_def split: js_number.splits)

lemma listed_tool_key_inj:
  assumes "\<forall>t \<in> set tools. valid_id (fst t) \<and> safe_integer_at_least 1 (snd t)"
  shows "inj_on listed_tool_key (set tools)"
proof (rule inj_onI)
  fix a b assume "a \<in> set tools" "b \<in> set tools" and eq: "listed_tool_key a = listed_tool_key b"
  then obtain s m t n where "a = (Some s, Finite m)" "b = (Some t, Finite n)"
    using assms by (metis prod.collapse safe_integer_at_least_iff valid_id_Some)
  then show "a = b" using eq by (simp add: listed_tool_key_def tool_key_inject)
qed

lemma listed_tool_key_mem:
  assumes "\<forall>t \<in> set tools. valid_id (fst t) \<and> safe_integer_at_least 1 (snd t)"
  shows "delegation_tool_key d \<in> set (map listed_tool_key tools) \<longleftrightarrow> (Some (td_id d), Finite (td_version d)) \<in> set tools"
proof
  assume "delegation_tool_key d \<in> set (map listed_tool_key tools)"
  then obtain a where a: "a \<in> set tools" "listed_tool_key a = delegation_tool_key d" by auto
  then obtain s m where "a = (Some s, Finite m)"
    using assms by (metis prod.collapse safe_integer_at_least_iff valid_id_Some)
  then show "(Some (td_id d), Finite (td_version d)) \<in> set tools"
    using a by (simp add: listed_tool_key_def delegation_tool_key_def tool_key_inject)
next
  assume "(Some (td_id d), Finite (td_version d)) \<in> set tools"
  then show "delegation_tool_key d \<in> set (map listed_tool_key tools)"
    by (auto simp: listed_tool_key_def delegation_tool_key_def intro!: rev_image_eqI)
qed

end
