(* ===== verification/ToolDelegationProperties.thy ===== *)
theory ToolDelegationProperties
  imports ToolDelegation
begin

text \<open>
  An evaluated delegation against its contract: exactly the usable grants of the calling identity are
  accepted, and an accepted one reaches exactly the tools and effects it lists.
\<close>

lemma known_effects_le_4:
  assumes "distinct effects" "\<forall>e \<in> set effects. \<exists>k. e = KnownEffect k"
  shows "length effects \<le> 4"
proof -
  have "set effects \<subseteq> KnownEffect ` {ReadOnly, Write, Destructive, External}"
  proof
    fix e assume "e \<in> set effects"
    then obtain k where "e = KnownEffect k" using assms(2) by blast
    then show "e \<in> KnownEffect ` {ReadOnly, Write, Destructive, External}" by (cases k) auto
  qed
  then have "card (set effects) \<le> card (KnownEffect ` {ReadOnly, Write, Destructive, External})"
    by (rule card_mono [rotated]) simp
  also have "\<dots> \<le> 4" by (rule order_trans [OF card_image_le]) (auto simp: card_insert_if)
  finally show ?thesis by (simp add: distinct_card [OF assms(1)])
qed

lemma validate_grant_usable: "validate_grant g now = Inr u \<longleftrightarrow> grant_usable g now"
proof (cases "dg_tools g")
  case None
  then show ?thesis by (auto simp: validate_grant_def grant_usable_def Let_def)
next
  case (Some tools)
  note tools = Some
  show ?thesis
  proof (cases "dg_effects g")
    case None
    then show ?thesis using tools by (auto simp: validate_grant_def grant_usable_def Let_def)
  next
    case (Some effects)
    have keys: "(\<forall>t \<in> set tools. valid_id (fst t) \<and> safe_integer_at_least 1 (snd t)) \<Longrightarrow>
        distinct (map listed_tool_key tools) \<longleftrightarrow> distinct tools"
      using listed_tool_key_inj by (simp add: distinct_map)
    have entries: "(\<forall>(i, v) \<in> set tools. valid_id i \<and> (\<exists>n. v = Finite n \<and> 1 \<le> n \<and> is_safe_integer n)) \<longleftrightarrow>
        (\<forall>t \<in> set tools. valid_id (fst t) \<and> safe_integer_at_least 1 (snd t))"
      by (auto simp: safe_integer_at_least_iff)
    have effects: "(\<exists>e \<in> set effects. case e of KnownEffect _ \<Rightarrow> False | UnknownEffect _ \<Rightarrow> True) \<longleftrightarrow>
        \<not> (\<forall>e \<in> set effects. \<exists>k. e = KnownEffect k)"
      by (auto split: listed_effect.splits)
    have some: "length xs < 1 \<longleftrightarrow> xs = []" for xs :: "'b list" by (cases xs) auto
    have resource: "(case dg_resource g of None \<Rightarrow> False | Some (kind, i) \<Rightarrow> \<not> valid_id kind \<or> \<not> valid_id i) \<longleftrightarrow>
        \<not> (case dg_resource g of None \<Rightarrow> True | Some (kind, i) \<Rightarrow> valid_id kind \<and> valid_id i)"
      by (auto split: option.splits)
    have expires: "(case dg_expires g of NonFinite \<Rightarrow> True
         | Finite e \<Rightarrow> \<not> is_safe_integer e \<or> e \<le> now \<or> delegation_max_lifetime_ms < e - now) \<longleftrightarrow>
        \<not> (\<exists>e. dg_expires g = Finite e \<and> now < e \<and> e \<le> now + delegation_max_lifetime_ms \<and> is_safe_integer e)"
      by (cases "dg_expires g") auto
    let ?ids = "valid_id (dg_id g) \<and> valid_id (dg_principal g) \<and> valid_id (dg_client g) \<and> valid_id (dg_application g)"
    let ?E = "\<exists>e. dg_expires g = Finite e \<and> now < e \<and> e \<le> now + delegation_max_lifetime_ms \<and> is_safe_integer e"
    let ?R = "\<exists>n. dg_revision g = Finite n \<and> is_safe_integer n \<and> 0 \<le> n"
    let ?V = "\<forall>t \<in> set tools. valid_id (fst t) \<and> safe_integer_at_least 1 (snd t)"
    let ?K = "\<forall>e \<in> set effects. \<exists>k. e = KnownEffect k"
    let ?S = "case dg_resource g of None \<Rightarrow> True | Some (kind, i) \<Rightarrow> valid_id kind \<and> valid_id i"
    have "validate_grant g now = Inr u \<longleftrightarrow> ?ids \<and> tools \<noteq> [] \<and> length tools \<le> delegation_max_tools \<and> effects \<noteq> []
        \<and> length effects \<le> 4 \<and> ?E \<and> ?R \<and> distinct (map listed_tool_key tools) \<and> ?V \<and> distinct effects \<and> ?K \<and> ?S"
      unfolding validate_grant_def tools Some Let_def option.case prod.case effects some resource expires
        safe_integer_at_least_iff [of 0]
      by (cases u) (auto simp only: refuse_Inr not_less)
    also have "\<dots> \<longleftrightarrow> grant_usable g now"
    proof -
      have "grant_usable g now \<longleftrightarrow> ?ids \<and> tools \<noteq> [] \<and> length tools \<le> delegation_max_tools \<and> effects \<noteq> []
          \<and> ?E \<and> ?R \<and> distinct tools \<and> ?V \<and> distinct effects \<and> ?K \<and> ?S"
        unfolding grant_usable_def tools Some option.inject entries [symmetric] by blast
      then show ?thesis using keys known_effects_le_4 [of effects] by blast
    qed
    finally show ?thesis .
  qed
qed

definition identity_matches :: "delegation_identity \<Rightarrow> delegation_grant \<Rightarrow> bool" where
  "identity_matches i g \<longleftrightarrow>
     di_principal i = dg_principal g \<and> di_client i = dg_client g \<and> di_application i = dg_application g"

lemma delegation_evaluate_Inr:
  "delegation_evaluate resolved clock identities revision allows = Inr d \<longleftrightarrow>
   (\<exists>g now i. resolved = Inr (Some g) \<and> clock = Finite now \<and> is_safe_integer now \<and> grant_usable g now
      \<and> identities = Inr i \<and> identity_matches i g
      \<and> revision (the (dg_id g)) = Inr (dg_revision g) \<and> allows g = Inr (JsBool True)
      \<and> d = \<lparr>ed_id = the (dg_id g), ed_principal = the (dg_principal g), ed_client = the (dg_client g),
             ed_application = the (dg_application g),
             ed_resource = map_option (\<lambda>(kind, i). (the kind, the i)) (dg_resource g),
             ed_tool_keys = map listed_tool_key (the (dg_tools g)), ed_effects = the (dg_effects g)\<rparr>)"
  (is "?run \<longleftrightarrow> ?ok")
proof
  assume ?ok
  then obtain g now i where ok: "resolved = Inr (Some g)" "clock = Finite now" "is_safe_integer now" "grant_usable g now"
      "identities = Inr i" "identity_matches i g" "revision (the (dg_id g)) = Inr (dg_revision g)" "allows g = Inr (JsBool True)"
    by blast
  have "validate_grant g now = Inr ()" using ok(4) by (simp add: validate_grant_usable)
  moreover have "dg_revision g \<noteq> NonFinite" "valid_id (dg_principal g)" "valid_id (dg_client g)" "valid_id (dg_application g)"
    using ok(4) by (auto simp: grant_usable_def)
  ultimately show ?run using ok \<open>?ok\<close>
    by (simp add: delegation_evaluate_def identity_matches_def)
next
  assume run: ?run
  then obtain g where g: "resolved = Inr (Some g)"
    by (auto simp: delegation_evaluate_def split: option.splits)
  obtain now where now: "clock = Finite now" "is_safe_integer now"
    using run g by (cases clock) (auto simp: delegation_evaluate_def split: if_splits)
  have usable: "grant_usable g now"
    using run g now by (auto simp: delegation_evaluate_def validate_grant_usable)
  show ?ok using run g now usable
    by (auto simp: delegation_evaluate_def identity_matches_def split: if_splits)
qed

subsection \<open>The properties\<close>

text \<open>C24: a delegation is accepted exactly when the grant is well-formed, expires after now and within
  24 hours, names the calling person, client and application, has the current revocation revision,
  and the parent authority answered \<open>true\<close>; every other case is an error.\<close>

theorem delegation_accepted_exactly:
  "(\<exists>d. delegation_evaluate resolved clock identities revision allows = Inr d) \<longleftrightarrow>
   (\<exists>g now i. resolved = Inr (Some g) \<and> clock = Finite now \<and> is_safe_integer now \<and> grant_usable g now
      \<and> identities = Inr i \<and> identity_matches i g
      \<and> revision (the (dg_id g)) = Inr (dg_revision g) \<and> allows g = Inr (JsBool True))"
  unfolding delegation_evaluate_Inr by blast

text \<open>an accepted delegation lets through exactly the tools whose identifier, version and effect the
  grant lists, for every descriptor, and the catalogue shows no other tool under it.\<close>

theorem delegation_reach_exact:
  assumes "delegation_evaluate (Inr (Some g)) clock identities revision allows = Inr d"
  shows "(delegation_allows d t \<longleftrightarrow>
      (\<exists>tools effects. dg_tools g = Some tools \<and> dg_effects g = Some effects
         \<and> (Some (td_id t), Finite (td_version t)) \<in> set tools \<and> KnownEffect (td_effect t) \<in> set effects))
    \<and> (delegated_visible person (Some d) t = Inr (JsBool True) \<longleftrightarrow>
      delegation_allows d t \<and> person t = Inr (JsBool True))"
proof -
  obtain now where usable: "grant_usable g now"
      and d: "ed_tool_keys d = map listed_tool_key (the (dg_tools g))" "ed_effects d = the (dg_effects g)"
    using assms by (auto simp: delegation_evaluate_Inr)
  from usable obtain tools effects where "dg_tools g = Some tools" "dg_effects g = Some effects"
      and entries: "\<forall>t \<in> set tools. valid_id (fst t) \<and> safe_integer_at_least 1 (snd t)"
    unfolding grant_usable_def safe_integer_at_least_iff by fastforce
  then have reach: "delegation_allows d t \<longleftrightarrow>
      (\<exists>tools effects. dg_tools g = Some tools \<and> dg_effects g = Some effects
         \<and> (Some (td_id t), Finite (td_version t)) \<in> set tools \<and> KnownEffect (td_effect t) \<in> set effects)"
    using d listed_tool_key_mem [OF entries, of t] by (simp add: delegation_allows_def)
  moreover have "delegated_visible person (Some d) t = Inr (JsBool True) \<longleftrightarrow>
      delegation_allows d t \<and> person t = Inr (JsBool True)"
    by (simp add: delegated_visible_def)
  ultimately show ?thesis by blast
qed

subsection \<open>Witnesses\<close>

definition sample_grant :: delegation_grant where
  "sample_grant = \<lparr>dg_id = Some ''g1'', dg_principal = Some ''p'', dg_client = Some ''c'', dg_application = Some ''a'',
     dg_tools = Some [(Some ''t'', Finite 1)], dg_effects = Some [KnownEffect Write],
     dg_expires = Finite 2000, dg_revision = Finite 0, dg_resource = None\<rparr>"

definition sample_identity :: delegation_identity where
  "sample_identity = \<lparr>di_principal = Some ''p'', di_client = Some ''c'', di_application = Some ''a''\<rparr>"

definition sample_delegation :: "failure + evaluated_delegation" where
  "sample_delegation = delegation_evaluate (Inr (Some sample_grant)) (Finite 1000) (Inr sample_identity)
     (\<lambda>_. Inr (Finite 0)) (\<lambda>_. Inr (JsBool True))"

lemma sample_delegation_accepted: "sample_delegation = Inr
    \<lparr>ed_id = ''g1'', ed_principal = ''p'', ed_client = ''c'', ed_application = ''a'', ed_resource = None,
     ed_tool_keys = [''t'' @ nul # ''1''], ed_effects = [KnownEffect Write]\<rparr>"
  by code_simp

theorem delegation_reach_exact_witness:
  "\<exists>d. sample_delegation = Inr d \<and> delegation_allows d sample_tool \<and>
     \<not> delegation_allows d (sample_tool\<lparr>td_version := 2\<rparr>) \<and> \<not> delegation_allows d (sample_tool\<lparr>td_effect := External\<rparr>) \<and>
     delegated_visible (\<lambda>_. Inr (JsBool True)) (Some d) sample_tool = Inr (JsBool True)"
proof -
  obtain d where d: "sample_delegation = Inr d" using sample_delegation_accepted by blast
  note reach = delegation_reach_exact [OF d [unfolded sample_delegation_def]]
  show ?thesis
    by (intro exI [of _ d]) (simp add: d reach sample_grant_def sample_tool_def)
qed

end
