(* ===== verification/ToolAudit.thy ===== *)
theory ToolAudit
  imports ToolTypes
begin

text \<open>
  The audit decorator of the gateway, \<open>packages/runtime/src/tool-audit.ts\<close>: what it writes for an
  attempt, a success and a failure. The identity resolver and the sink belong to the host: an identity
  is seven values of any kind, and the record handed to the sink is the result.
\<close>

definition safe_id :: "js_value \<Rightarrow> string option" where
  "safe_id v = (case v of JsString s \<Rightarrow> if bounded_id s then Some s else None | _ \<Rightarrow> None)"

definition is_lower_hex :: "char \<Rightarrow> bool" where
  "is_lower_hex c \<longleftrightarrow> is_digit c \<or> (CHR ''a'' \<le> c \<and> c \<le> CHR ''f'')"

text \<open>The test \<open>/^sha256:[0-9a-f]{64}$/\<close>.\<close>

definition is_sha256_digest :: "string \<Rightarrow> bool" where
  "is_sha256_digest s \<longleftrightarrow> length s = 71 \<and> take 7 s = ''sha256:'' \<and> list_all is_lower_hex (drop 7 s)"

definition safe_digest :: "js_value \<Rightarrow> string option" where
  "safe_digest v = (case v of JsString s \<Rightarrow> if is_sha256_digest s then Some s else None | _ \<Rightarrow> None)"

record audit_identity =
  id_principal :: js_value
  id_agent_client :: js_value
  id_agent_session :: js_value
  id_delegation :: js_value
  id_approval :: js_value
  id_idempotency :: js_value
  id_input_digest :: js_value

record audit_request =
  rq_correlation :: js_value
  rq_tool_id :: js_value
  rq_tool_version :: js_number
  rq_idempotency_key :: "string option"

datatype audit_outcome = Attempt | Success | Failed

record audit_record =
  au_occurred :: int
  au_correlation :: string
  au_tool_id :: string
  au_tool_version :: int
  au_owner :: "string option"
  au_category :: "string option"
  au_principal :: "string option"
  au_agent_client :: "string option"
  au_agent_session :: "string option"
  au_delegation :: "string option"
  au_approval :: "string option"
  au_idempotency :: "string option"
  au_input_digest :: "string option"
  au_has_key :: bool
  au_outcome :: audit_outcome
  au_code :: string

definition or_else :: "'a option \<Rightarrow> 'a \<Rightarrow> 'a" where
  "or_else v d = (case v of None \<Rightarrow> d | Some x \<Rightarrow> x)"

text \<open>\<open>write\<close>: the descriptor is that of the execution context, when the call got that far.\<close>

definition audit_write ::
    "js_number \<Rightarrow> failure + audit_identity \<Rightarrow> audit_request \<Rightarrow> audit_outcome \<Rightarrow> string \<Rightarrow>
     catalog_tool option \<Rightarrow> failure + audit_record" where
  "audit_write clock identities request outcome code descriptor =
     (case clock of
        NonFinite \<Rightarrow> Inl OtherException
      | Finite now \<Rightarrow>
          if \<not> is_safe_integer now then Inl OtherException
          else res_bind identities (\<lambda>i.
            let version = (case descriptor of Some d \<Rightarrow> Finite (td_version d) | None \<Rightarrow> rq_tool_version request) in
            Inr \<lparr>au_occurred = now,
              au_correlation = or_else (safe_id (rq_correlation request)) ''unavailable'',
              au_tool_id = or_else (safe_id (case descriptor of Some d \<Rightarrow> JsString (td_id d) | None \<Rightarrow> rq_tool_id request))
                ''unavailable'',
              au_tool_version = (case version of Finite v \<Rightarrow> if is_safe_integer v then v else 0 | NonFinite \<Rightarrow> 0),
              au_owner = Option.bind descriptor (\<lambda>d. safe_id (JsString (ct_owner d))),
              au_category = Option.bind descriptor (\<lambda>d. safe_id (JsString (ct_category d))),
              au_principal = safe_id (id_principal i),
              au_agent_client = safe_id (id_agent_client i),
              au_agent_session = safe_id (id_agent_session i),
              au_delegation = safe_id (id_delegation i),
              au_approval = safe_id (id_approval i),
              au_idempotency = safe_digest (id_idempotency i),
              au_input_digest = safe_digest (id_input_digest i),
              au_has_key = (rq_idempotency_key request \<noteq> None),
              au_outcome = outcome, au_code = code\<rparr>))"

definition audit_before_dispatch ::
    "js_number \<Rightarrow> failure + audit_identity \<Rightarrow> audit_request \<Rightarrow> catalog_tool \<Rightarrow> failure + audit_record" where
  "audit_before_dispatch clock identities request descriptor =
     audit_write clock identities request Attempt ''DISPATCH_ATTEMPT'' (Some descriptor)"

definition audit_success ::
    "js_number \<Rightarrow> failure + audit_identity \<Rightarrow> audit_request \<Rightarrow> catalog_tool \<Rightarrow> failure + audit_record" where
  "audit_success clock identities request descriptor =
     audit_write clock identities request Success ''OK'' (Some descriptor)"

definition audit_failure ::
    "js_number \<Rightarrow> failure + audit_identity \<Rightarrow> audit_request \<Rightarrow> gateway_error \<Rightarrow> catalog_tool option \<Rightarrow>
     failure + audit_record" where
  "audit_failure clock identities request e descriptor =
     audit_write clock identities request Failed
       (or_else (safe_id (JsString (error_code e))) ''INTERNAL_ERROR'') descriptor"

subsection \<open>What a record holds\<close>

text \<open>Every string that leaves the process with a record.\<close>

definition audit_strings :: "audit_record \<Rightarrow> string list" where
  "audit_strings r = [au_correlation r, au_tool_id r, au_code r] @
     concat (map (\<lambda>v. case v of None \<Rightarrow> [] | Some s \<Rightarrow> [s])
       [au_owner r, au_category r, au_principal r, au_agent_client r, au_agent_session r, au_delegation r,
        au_approval r, au_idempotency r, au_input_digest r])"

lemma safe_id_Some: "safe_id v = Some s \<longleftrightarrow> v = JsString s \<and> bounded_id s"
  by (auto simp: safe_id_def split: js_value.splits)

lemma safe_digest_Some: "safe_digest v = Some s \<longleftrightarrow> v = JsString s \<and> is_sha256_digest s"
  by (auto simp: safe_digest_def split: js_value.splits)

lemma digest_is_bounded_id:
  assumes "is_sha256_digest s"
  shows "bounded_id s"
proof -
  have s: "s = ''sha256:'' @ drop 7 s" using assms by (metis append_take_drop_id is_sha256_digest_def)
  have alnum: "is_lower_hex c \<Longrightarrow> is_alnum c" for c
    by (auto simp: is_lower_hex_def is_alnum_def is_lower_def less_eq_char_def)
  have "\<forall>c \<in> set (drop 7 s). is_alnum c"
    using assms alnum by (auto simp: is_sha256_digest_def list_all_iff)
  moreover have "length s \<le> 128" using assms by (simp add: is_sha256_digest_def)
  ultimately show ?thesis
    by (subst s, subst (asm) s)
       (auto simp: bounded_id_def is_alnum_def is_lower_def is_digit_def less_eq_char_def)
qed

lemma safe_strings: "safe_id v = Some s \<Longrightarrow> bounded_id s" "safe_digest v = Some s \<Longrightarrow> bounded_id s"
  by (simp_all add: safe_id_Some safe_digest_Some digest_is_bounded_id)

lemma bounded_or_else: "bounded_id d \<Longrightarrow> bounded_id (or_else (safe_id v) d)"
  by (cases "safe_id v") (auto simp: or_else_def dest: safe_strings)

lemma bounded_constants: "bounded_id ''unavailable''" "bounded_id ''INTERNAL_ERROR''" "bounded_id ''OK''"
    "bounded_id ''DISPATCH_ATTEMPT''"
  by code_simp+

text \<open>every string of every audit record is an identifier of at most 128 safe characters (the
  digests among them), whatever the request, the resolver, the error and the plugin supplied, so no
  free text of a caller reaches the audit log.\<close>

theorem audit_record_bounded:
  assumes "(case outcome of
      Attempt \<Rightarrow> audit_before_dispatch clock identities request d = Inr r
    | Success \<Rightarrow> audit_success clock identities request d = Inr r
    | Failed \<Rightarrow> audit_failure clock identities request e descriptor = Inr r)"
  shows "au_outcome r = outcome \<and> is_safe_integer (au_occurred r) \<and> is_safe_integer (au_tool_version r)
    \<and> (\<forall>s \<in> set (audit_strings r). bounded_id s \<and> length s \<le> 128)"
proof -
  obtain code descriptor' where w: "audit_write clock identities request outcome code descriptor' = Inr r" "bounded_id code"
    using assms
    by (cases outcome)
       (auto simp: audit_before_dispatch_def audit_success_def audit_failure_def intro: bounded_constants bounded_or_else)
  have safe: "is_safe_integer 0" by (simp add: is_safe_integer_def max_safe_integer_def)
  obtain now i where r: "clock = Finite now" "is_safe_integer now" "identities = Inr i"
    using w(1) by (cases clock) (auto simp: audit_write_def split: if_splits)
  have strings: "bounded_id s" if "s \<in> set (audit_strings r)" for s
    using w that r
    by (auto simp: audit_write_def audit_strings_def Let_def bounded_constants bounded_or_else
          split: option.splits dest!: sym [of "Some _"] dest: safe_strings)
  then have "length s \<le> 128" if "s \<in> set (audit_strings r)" for s
    using that by (auto simp: bounded_id_def)
  moreover have "au_outcome r = outcome" "is_safe_integer (au_occurred r)" "is_safe_integer (au_tool_version r)"
    using w(1) r safe by (auto simp: audit_write_def Let_def split: js_number.splits)
  ultimately show ?thesis using strings by blast
qed

subsection \<open>Witness\<close>

definition sample_identities :: "failure + audit_identity" where
  "sample_identities = Inr \<lparr>id_principal = JsString ''p'', id_agent_client = JsString ''free text'', id_agent_session = JsNull,
     id_delegation = JsUndefined, id_approval = JsString ''a1'', id_idempotency = JsUndefined, id_input_digest = JsUndefined\<rparr>"

definition sample_audit_request :: audit_request where
  "sample_audit_request = \<lparr>rq_correlation = JsString ''two words'', rq_tool_id = JsString ''t'',
     rq_tool_version = Finite 1, rq_idempotency_key = None\<rparr>"

definition sample_failure_record :: "failure + audit_record" where
  "sample_failure_record = audit_failure (Finite 5) sample_identities sample_audit_request
     (ToolGatewayError ''no code'' 400 ''t'' ''d'') None"

theorem audit_record_bounded_witness:
  "\<exists>r. sample_failure_record = Inr r \<and> au_code r = ''INTERNAL_ERROR'' \<and> au_correlation r = ''unavailable'' \<and>
     au_outcome r = Failed \<and> list_all bounded_id (audit_strings r)"
proof -
  have "(case sample_failure_record of Inl _ \<Rightarrow> False | Inr r \<Rightarrow> au_code r = ''INTERNAL_ERROR'' \<and> au_correlation r = ''unavailable'')"
    by code_simp
  then obtain r where r: "sample_failure_record = Inr r" "au_code r = ''INTERNAL_ERROR''" "au_correlation r = ''unavailable''"
    by (auto split: sum.splits)
  moreover note audit_record_bounded [where outcome = Failed and clock = "Finite 5" and identities = sample_identities
      and request = sample_audit_request and r = r and e = "ToolGatewayError ''no code'' 400 ''t'' ''d''" and descriptor = None]
  ultimately show ?thesis by (simp add: sample_failure_record_def list_all_iff)
qed

end
