(* ===== verification/ActorContext.thy ===== *)
theory ActorContext
  imports ToolTypes
begin

text \<open>
  Who asks: \<open>isDataSourceActorContext\<close> and the surface and audience rules that a data source and a
  tool are guarded by, of \<open>packages/runtime/src/data-source-authorization.ts\<close>.
\<close>

subsection \<open>Actor contexts\<close>

datatype actor_kind = PublicActor | PublicSession | UserActor | ServiceActor | SystemJob

text \<open>Values before they are checked; \<open>None\<close> is no object.\<close>

record raw_identity =
  ri_kind :: js_value
  ri_id :: js_value

datatype raw_impersonation =
    NoImpersonation
  | NotAnImpersonation
  | ImpersonationOf (imp_reason: js_value) (imp_approved_by: js_value)

record raw_actor =
  ra_principal :: "raw_identity option"
  ra_effective :: "raw_identity option"
  ra_impersonation :: raw_impersonation

definition actor_kind_of :: "js_value \<Rightarrow> actor_kind option" where
  "actor_kind_of v =
     (if v = JsString ''public'' then Some PublicActor
      else if v = JsString ''public-session'' then Some PublicSession
      else if v = JsString ''user'' then Some UserActor
      else if v = JsString ''service'' then Some ServiceActor
      else if v = JsString ''system-job'' then Some SystemJob
      else None)"

definition text_between :: "nat \<Rightarrow> nat \<Rightarrow> js_value \<Rightarrow> bool" where
  "text_between low high v = (case v of JsString s \<Rightarrow> low \<le> length s \<and> length s \<le> high | _ \<Rightarrow> False)"

definition actor_identity :: "raw_identity option \<Rightarrow> bool" where
  "actor_identity v =
     (case v of None \<Rightarrow> False | Some i \<Rightarrow> actor_kind_of (ri_kind i) \<noteq> None \<and> text_between 1 128 (ri_id i))"

definition is_actor_context :: "raw_actor option \<Rightarrow> bool" where
  "is_actor_context v =
     (case v of
        None \<Rightarrow> False
      | Some a \<Rightarrow>
          if \<not> actor_identity (ra_principal a) \<or> \<not> actor_identity (ra_effective a) then False
          else let changed = ri_id (the (ra_principal a)) \<noteq> ri_id (the (ra_effective a))
                     \<or> ri_kind (the (ra_principal a)) \<noteq> ri_kind (the (ra_effective a))
               in case ra_impersonation a of
                    NoImpersonation \<Rightarrow> \<not> changed
                  | NotAnImpersonation \<Rightarrow> False
                  | ImpersonationOf reason approved_by \<Rightarrow>
                      changed \<and> text_between 1 256 reason \<and> text_between 1 128 approved_by)"

text \<open>The kind of the effective actor of an accepted context.\<close>

definition effective_kind :: "raw_actor \<Rightarrow> actor_kind" where
  "effective_kind a = the (actor_kind_of (ri_kind (the (ra_effective a))))"

subsection \<open>Surfaces\<close>

definition surface_of :: "js_value \<Rightarrow> surface option" where
  "surface_of v =
     (if v = JsString ''workspace'' then Some Workspace
      else if v = JsString ''cms'' then Some Cms
      else if v = JsString ''public'' then Some PublicSurface
      else if v = JsString ''driver'' then Some Driver
      else if v = JsString ''mobile'' then Some Mobile
      else if v = JsString ''system'' then Some System
      else None)"

definition access_failure :: "string \<Rightarrow> int \<Rightarrow> string \<Rightarrow> failure" where
  "access_failure code status title = gateway_failure code status title"

text \<open>\<open>DescriptorSurfaceAudienceGuard.assertAllowed\<close>, on the surfaces and the audience of the source.\<close>

definition surface_audience_guard ::
    "surface list \<Rightarrow> audience \<Rightarrow> surface \<Rightarrow> raw_actor option \<Rightarrow> failure + unit" where
  "surface_audience_guard surfaces aud requested actor =
     (if \<not> is_actor_context actor
      then Inl (access_failure ''INVALID_ACTOR_CONTEXT'' 401 ''Authentication context is invalid.'')
      else let kind = effective_kind (the actor);
               forbidden = access_failure ''SOURCE_AUDIENCE_FORBIDDEN'' 403 ''Data source audience is not permitted.''
           in if requested \<notin> set surfaces
              then Inl (access_failure ''SOURCE_SURFACE_FORBIDDEN'' 403 ''Data source is unavailable on this surface.'')
              else if requested = PublicSurface \<and> aud \<noteq> PublicAudience then Inl forbidden
              else if (kind = PublicActor \<or> kind = PublicSession) \<and> aud \<noteq> PublicAudience then Inl forbidden
              else if aud = InternalAudience \<and> kind \<noteq> ServiceActor \<and> kind \<noteq> SystemJob then Inl forbidden
              else Inr ())"

subsection \<open>What an accepted context means\<close>

text \<open>An impersonation is recorded exactly when the effective actor is not the person who asks.\<close>

lemma actor_context_impersonation:
  "is_actor_context (Some a) \<Longrightarrow>
     (ra_effective a \<noteq> ra_principal a \<longleftrightarrow> ra_impersonation a \<noteq> NoImpersonation)
   \<and> (\<forall>reason approved. ra_impersonation a = ImpersonationOf reason approved \<longrightarrow>
        (\<exists>r b. reason = JsString r \<and> approved = JsString b \<and> r \<noteq> [] \<and> b \<noteq> []))"
  by (auto simp: is_actor_context_def actor_identity_def text_between_def Let_def
       split: if_splits option.splits raw_impersonation.splits js_value.splits
       intro: raw_identity.equality)

text \<open>The rule in one line: on the public surface and to public actors only the public audience, to
  the internal audience only services and jobs.\<close>

definition audience_permits :: "surface list \<Rightarrow> audience \<Rightarrow> surface \<Rightarrow> actor_kind \<Rightarrow> bool" where
  "audience_permits surfaces aud requested kind \<longleftrightarrow>
     requested \<in> set surfaces
   \<and> (requested = PublicSurface \<or> kind \<in> {PublicActor, PublicSession} \<longrightarrow> aud = PublicAudience)
   \<and> (aud = InternalAudience \<longrightarrow> kind \<in> {ServiceActor, SystemJob})"

lemma surface_audience_guard_ok:
  "surface_audience_guard surfaces aud requested actor = Inr u \<longleftrightarrow>
     is_actor_context actor \<and> audience_permits surfaces aud requested (effective_kind (the actor))"
  by (cases u) (auto simp: surface_audience_guard_def audience_permits_def Let_def)

subsection \<open>A concrete actor\<close>

definition sample_identity_value :: "string \<Rightarrow> raw_identity option" where
  "sample_identity_value kind = Some \<lparr>ri_kind = JsString kind, ri_id = JsString ''u1''\<rparr>"

definition sample_actor :: "string \<Rightarrow> raw_actor option" where
  "sample_actor kind = Some \<lparr>ra_principal = sample_identity_value kind, ra_effective = sample_identity_value kind,
     ra_impersonation = NoImpersonation\<rparr>"

end
