(* ===== verification/ToolCatalog.thy ===== *)
theory ToolCatalog
  imports ActorContext "HOL-Library.Product_Lexorder"
begin

text \<open>
  The tool catalogue, \<open>packages/runtime/src/tool-catalog.ts\<close>, and \<open>actionToolCompatible\<close> of
  \<open>packages/runtime/src/action.ts\<close>.

  The hash and the text of a descriptor list belong to the platform and to the schema library and are
  parameters; so is the visibility policy of the host, whose answer may be any value or a thrown error.
\<close>

subsection \<open>Errors and limits\<close>

definition catalog_max_page :: int where "catalog_max_page = 100"
definition catalog_max_features :: nat where "catalog_max_features = 64"
definition catalog_max_feature_length :: nat where "catalog_max_feature_length = 128"
definition catalog_max_cursor_length :: nat where "catalog_max_cursor_length = 128"
definition catalog_max_size :: nat where "catalog_max_size = 1000"

datatype catalog_error =
    InvalidRequest | InvalidActorContext | InvalidCursor | InvalidTool string | ToolOwnerUnavailable string
  | DuplicateTool string int | ToolBindingMissing string | CatalogLimitExceeded

text \<open>What the catalogue throws: an error of its own, or that of the policy or of the lifecycle check.\<close>

datatype catalog_failure = CatalogError catalog_error | Thrown failure

subsection \<open>Registrations\<close>

record action_descriptor =
  ad_version :: int
  ad_input_schema :: json
  ad_output_schema :: "json option"
  ad_output_contract :: "string option"
  ad_permission :: string
  ad_policy :: string
  ad_effect :: tool_effect
  ad_idempotency :: string
  ad_dry_run :: bool

record 'v contribution =
  cb_id :: string
  cb_plugin :: string
  cb_value :: 'v

text \<open>A registration: \<open>rg_tools\<close> holds the parsed descriptors, \<open>None\<close> where parsing fails.\<close>

record registration =
  rg_executable :: bool
  rg_inventory :: "string list"
  rg_tools :: "catalog_tool option contribution list"
  rg_sources :: "int contribution list"
  rg_actions :: "action_descriptor contribution list"
  rg_source_bindings :: "unit contribution list"
  rg_action_bindings :: "unit contribution list"

definition or_null :: "json option \<Rightarrow> json" where
  "or_null t = (case t of None \<Rightarrow> JNull | Some u \<Rightarrow> u)"

definition action_tool_compatible :: "catalog_tool \<Rightarrow> action_descriptor \<Rightarrow> bool" where
  "action_tool_compatible t a =
     (if (case ct_invocation t of SourceInvocation _ _ \<Rightarrow> True | ActionInvocation _ v \<Rightarrow> v \<noteq> ad_version a) then False
      else if canonical_text (ct_input_schema t) \<noteq> canonical_text (ad_input_schema a) then False
      else if canonical_text (or_null (ct_output_schema t)) \<noteq> canonical_text (or_null (ad_output_schema a)) then False
      else if ct_output_contract t \<noteq> ad_output_contract a then False
      else if ct_permission t \<noteq> ad_permission a then False
      else if ct_policy t \<noteq> ad_policy a then False
      else if td_effect t \<noteq> ad_effect a \<or> ct_idempotency t \<noteq> ad_idempotency a then False
      else \<not> ct_dry_run t \<or> ad_dry_run a)"

definition find_contribution :: "string \<Rightarrow> 'v contribution list \<Rightarrow> 'v contribution option" where
  "find_contribution i cs = find (\<lambda>c. cb_id c = i) cs"

definition owned_by :: "string \<Rightarrow> 'v contribution option \<Rightarrow> bool" where
  "owned_by owner c \<longleftrightarrow> map_option cb_plugin c = Some owner"

definition target_binding :: "registration \<Rightarrow> catalog_tool \<Rightarrow> bool" where
  "target_binding r t =
     (case ct_invocation t of
        SourceInvocation i v \<Rightarrow>
          (let c = find_contribution i (rg_sources r) in
           if \<not> owned_by (ct_owner t) c \<or> \<not> owned_by (ct_owner t) (find_contribution i (rg_source_bindings r)) then False
           else cb_value (the c) = v)
      | ActionInvocation i v \<Rightarrow>
          (let c = find_contribution i (rg_actions r) in
           if \<not> owned_by (ct_owner t) c \<or> \<not> owned_by (ct_owner t) (find_contribution i (rg_action_bindings r)) then False
           else action_tool_compatible t (cb_value (the c))))"

subsection \<open>The constructor\<close>

definition catalog_key :: "catalog_tool \<Rightarrow> string" where
  "catalog_key t = td_id t @ nul # int_text (td_version t)"

text \<open>The loop over the contributions, with the set \<open>seen\<close> of keys.\<close>

fun check_tools :: "registration \<Rightarrow> string list \<Rightarrow> catalog_tool option contribution list \<Rightarrow>
    catalog_failure + catalog_tool list" where
  "check_tools r seen [] = Inr []"
| "check_tools r seen (entry # entries) =
     (case cb_value entry of
        None \<Rightarrow> Inl (CatalogError (InvalidTool (cb_id entry)))
      | Some t \<Rightarrow>
          if td_id t \<noteq> cb_id entry \<or> ct_owner t \<noteq> cb_plugin entry then Inl (CatalogError (InvalidTool (cb_id entry)))
          else if ct_owner t \<notin> set (rg_inventory r) then Inl (CatalogError (ToolOwnerUnavailable (ct_owner t)))
          else if catalog_key t \<in> set seen then Inl (CatalogError (DuplicateTool (td_id t) (td_version t)))
          else if \<not> target_binding r t then Inl (CatalogError (ToolBindingMissing (td_id t)))
          else res_bind (check_tools r (set_add (catalog_key t) seen) entries) (\<lambda>ts. Inr (t # ts)))"

text \<open>\<open>compare\<close> orders by identifier, then by version, and \<open>sort\<close> is stable.\<close>

definition tool_order :: "catalog_tool \<Rightarrow> string \<times> int" where
  "tool_order t = (td_id t, td_version t)"

definition new_catalog :: "registration \<Rightarrow> catalog_failure + catalog_tool list" where
  "new_catalog r =
     (if \<not> rg_executable r then Inl (Thrown OtherException)
      else if catalog_max_size < length (rg_tools r) then Inl (CatalogError CatalogLimitExceeded)
      else res_bind (check_tools r [] (rg_tools r)) (\<lambda>ts. Inr (sort_key tool_order ts)))"

subsection \<open>Requests\<close>

record catalog_candidate =
  cd_actor :: "raw_actor option"
  cd_delegation :: js_value
  cd_authorization :: js_value
  cd_surface :: js_value
  cd_features :: "js_value list option"

record catalog_request =
  cr_actor :: raw_actor
  cr_delegation :: js_value
  cr_authorization :: js_value
  cr_surface :: surface
  cr_features :: "string list"

definition string_of :: "js_value \<Rightarrow> string" where
  "string_of v = (case v of JsString s \<Rightarrow> s | _ \<Rightarrow> [])"

definition normalize_request :: "catalog_candidate option \<Rightarrow> catalog_error + catalog_request" where
  "normalize_request v =
     (case v of
        None \<Rightarrow> Inl InvalidRequest
      | Some c \<Rightarrow>
          if \<not> is_actor_context (cd_actor c) then Inl InvalidActorContext
          else if cd_delegation c = JsUndefined \<or> cd_authorization c = JsUndefined then Inl InvalidRequest
          else case surface_of (cd_surface c) of
            None \<Rightarrow> Inl InvalidRequest
          | Some s \<Rightarrow>
              (case cd_features c of
                 None \<Rightarrow> Inl InvalidRequest
               | Some fs \<Rightarrow>
                   if catalog_max_features < length fs then Inl InvalidRequest
                   else if \<not> list_all (text_between 1 catalog_max_feature_length) fs \<or> \<not> distinct fs then Inl InvalidRequest
                   else Inr \<lparr>cr_actor = the (cd_actor c), cr_delegation = cd_delegation c,
                     cr_authorization = cd_authorization c, cr_surface = s, cr_features = map string_of fs\<rparr>))"

subsection \<open>Visibility\<close>

definition descriptor_allowed :: "catalog_tool \<Rightarrow> catalog_request \<Rightarrow> bool" where
  "descriptor_allowed t q =
     (let kind = effective_kind (cr_actor q) in
      if cr_surface q \<notin> set (ct_surfaces t) then False
      else if cr_surface q = PublicSurface \<and> ct_audience t \<noteq> PublicAudience then False
      else if (kind = PublicActor \<or> kind = PublicSession) \<and> ct_audience t \<noteq> PublicAudience then False
      else if ct_audience t = InternalAudience \<and> kind \<noteq> ServiceActor \<and> kind \<noteq> SystemJob then False
      else True)"

type_synonym visibility_policy = "catalog_request \<Rightarrow> catalog_tool \<Rightarrow> failure + js_value"

definition tool_visible :: "visibility_policy \<Rightarrow> catalog_request \<Rightarrow> catalog_tool \<Rightarrow> failure + bool" where
  "tool_visible policy q t =
     (if \<not> descriptor_allowed t q then Inr False else res_bind (policy q t) (\<lambda>v. Inr (v = JsBool True)))"

text \<open>\<open>Promise.all\<close> asks for every tool; of several errors the first in the list is reported here.\<close>

definition visible_tools :: "visibility_policy \<Rightarrow> catalog_request \<Rightarrow> catalog_tool list \<Rightarrow> failure + catalog_tool list" where
  "visible_tools policy q ts =
     res_bind (res_map (tool_visible policy q) ts) (\<lambda>flags. Inr (map fst (filter snd (zip ts flags))))"

subsection \<open>\<open>list\<close> and \<open>lookup\<close>\<close>

record catalog_page =
  pg_revision :: string
  pg_tools :: "catalog_tool list"
  pg_next :: "string option"

definition cursor_token :: "(string \<Rightarrow> string) \<Rightarrow> catalog_tool \<Rightarrow> string" where
  "cursor_token sha t =
     ''sha256:'' @ sha (canonical_text (JObj [(''id'', JStr (td_id t)), (''version'', JNum (td_version t))]))"

text \<open>The test \<open>/^sha256:[0-9a-f]{64}$/\<close>.\<close>

definition is_cursor :: "string \<Rightarrow> bool" where
  "is_cursor s \<longleftrightarrow> take 7 s = ''sha256:'' \<and> length s = 71 \<and>
     list_all (\<lambda>c. is_digit c \<or> (CHR ''a'' \<le> c \<and> c \<le> CHR ''f'')) (drop 7 s)"

text \<open>\<open>indexOf\<close>\<close>

fun index_of :: "'a \<Rightarrow> 'a list \<Rightarrow> nat option" where
  "index_of x [] = None"
| "index_of x (y # ys) = (if x = y then Some 0 else map_option Suc (index_of x ys))"

definition cursor_offset :: "string option \<Rightarrow> string list \<Rightarrow> catalog_error + nat" where
  "cursor_offset cursor cursors =
     (case cursor of
        None \<Rightarrow> Inr 0
      | Some c \<Rightarrow>
          if length c < 1 \<or> catalog_max_cursor_length < length c \<or> \<not> is_cursor c then Inl InvalidCursor
          else case index_of c cursors of None \<Rightarrow> Inl InvalidCursor | Some i \<Rightarrow> Inr (Suc i))"

definition page_limit :: "js_number option \<Rightarrow> catalog_error + nat" where
  "page_limit limit =
     (case limit of
        None \<Rightarrow> Inr (nat catalog_max_page)
      | Some NonFinite \<Rightarrow> Inl InvalidRequest
      | Some (Finite n) \<Rightarrow>
          if \<not> is_safe_integer n \<or> n < 1 \<or> catalog_max_page < n then Inl InvalidRequest else Inr (nat n))"

fun as_catalog :: "catalog_error + 'a \<Rightarrow> catalog_failure + 'a" where
  "as_catalog (Inl e) = Inl (CatalogError e)"
| "as_catalog (Inr x) = Inr x"

fun as_thrown :: "failure + 'a \<Rightarrow> catalog_failure + 'a" where
  "as_thrown (Inl e) = Inl (Thrown e)"
| "as_thrown (Inr x) = Inr x"

definition catalog_list ::
    "(string \<Rightarrow> string) \<Rightarrow> (catalog_tool list \<Rightarrow> string) \<Rightarrow> visibility_policy \<Rightarrow> catalog_tool list \<Rightarrow>
     catalog_candidate option \<Rightarrow> js_number option \<Rightarrow> string option \<Rightarrow> catalog_failure + catalog_page" where
  "catalog_list sha descriptors_text policy tools request limit cursor =
     res_bind (as_catalog (normalize_request request)) (\<lambda>q.
     res_bind (as_catalog (page_limit limit)) (\<lambda>n.
     res_bind (as_thrown (visible_tools policy q tools)) (\<lambda>visible.
     let cursors = map (cursor_token sha) visible in
     res_bind (as_catalog (cursor_offset cursor cursors)) (\<lambda>start.
     let page = take n (drop start visible) in
     Inr \<lparr>pg_revision = ''sha256:'' @ sha (descriptors_text visible), pg_tools = page,
          pg_next = (if start + length page < length visible \<and> 0 < start + length page
                     then Some (cursors ! (start + length page - 1)) else None)\<rparr>))))"

definition catalog_lookup ::
    "visibility_policy \<Rightarrow> catalog_tool list \<Rightarrow> catalog_candidate option \<Rightarrow> js_value \<Rightarrow> js_value \<Rightarrow>
     catalog_failure + catalog_tool option" where
  "catalog_lookup policy tools request i v =
     res_bind (as_catalog (normalize_request request)) (\<lambda>q.
       case (i, v) of
         (JsString name, JsNumber (Finite version)) \<Rightarrow>
           if \<not> is_safe_integer version then Inr None
           else (case find (\<lambda>t. td_id t = name \<and> td_version t = version) tools of
                   None \<Rightarrow> Inr None
                 | Some t \<Rightarrow> res_bind (as_thrown (tool_visible policy q t)) (\<lambda>ok. Inr (if ok then Some t else None)))
       | _ \<Rightarrow> Inr None)"

subsection \<open>Listeners\<close>

text \<open>Listeners are functions, here numbers; \<open>notifyChanged\<close> calls those of a snapshot, each of which
  may change the set while it runs.\<close>

definition catalog_subscribe :: "nat \<Rightarrow> nat list \<Rightarrow> nat list" where
  "catalog_subscribe listener listeners = set_add listener listeners"

definition catalog_unsubscribe :: "nat \<Rightarrow> nat list \<Rightarrow> nat list" where
  "catalog_unsubscribe listener listeners = filter (\<lambda>l. l \<noteq> listener) listeners"

definition catalog_notify :: "(nat \<Rightarrow> nat list \<Rightarrow> nat list) \<Rightarrow> nat list \<Rightarrow> nat list" where
  "catalog_notify call listeners = fold call listeners listeners"

end
