(* ===== verification/ToolCatalogProperties.thy ===== *)
theory ToolCatalogProperties
  imports ToolCatalog CanonicalJsonProperties
begin

text \<open>
  What the catalogue holds after construction, what a request can see of it, and that following the
  cursors of \<open>list\<close> yields every visible tool exactly once.
\<close>

subsection \<open>Construction\<close>

text \<open>A tool that the registration really provides, owned and bound by an installed plugin.\<close>

definition registered_tool :: "registration \<Rightarrow> catalog_tool \<Rightarrow> bool" where
  "registered_tool r t \<longleftrightarrow>
     (\<exists>entry \<in> set (rg_tools r). cb_value entry = Some t \<and> cb_id entry = td_id t \<and> cb_plugin entry = ct_owner t)
   \<and> ct_owner t \<in> set (rg_inventory r) \<and> target_binding r t"

lemma check_tools_Inr:
  assumes "check_tools r seen entries = Inr ts"
  shows "map Some ts = map cb_value entries \<and> distinct (map catalog_key ts) \<and> set seen \<inter> catalog_key ` set ts = {}
    \<and> (\<forall>t \<in> set ts. (\<exists>entry \<in> set entries. cb_value entry = Some t \<and> cb_id entry = td_id t \<and> cb_plugin entry = ct_owner t)
         \<and> ct_owner t \<in> set (rg_inventory r) \<and> target_binding r t)"
  using assms
proof (induction entries arbitrary: seen ts)
  case (Cons entry entries)
  then obtain t where t: "cb_value entry = Some t" by (cases "cb_value entry") auto
  with Cons.prems have ok: "td_id t = cb_id entry" "ct_owner t = cb_plugin entry" "ct_owner t \<in> set (rg_inventory r)"
      "catalog_key t \<notin> set seen" "target_binding r t"
    by (auto split: if_splits)
  then obtain us where us: "check_tools r (set_add (catalog_key t) seen) entries = Inr us" "ts = t # us"
    using Cons.prems t by auto
  from Cons.IH [OF us(1)] us(2) t ok show ?case by auto
qed simp

lemma catalog_key_inject: "catalog_key t = catalog_key u \<longleftrightarrow> tool_order t = tool_order u"
  by (simp add: catalog_key_def tool_order_def tool_key_inject)

lemma sort_key_parts: "sorted (map f (sort_key f xs)) \<and> set (sort_key f xs) = set xs
    \<and> distinct (map f (sort_key f xs)) = distinct (map f xs)"
  by (metis (no_types, lifting) sorted_sort_key mset_sort set_sort mset_eq_imp_distinct_iff mset_map)

subsection \<open>Visibility\<close>

lemma descriptor_allowed_audience:
  "descriptor_allowed t q \<longleftrightarrow> audience_permits (ct_surfaces t) (ct_audience t) (cr_surface q) (effective_kind (cr_actor q))"
  by (auto simp: descriptor_allowed_def audience_permits_def Let_def)

lemma tool_visible_True: "tool_visible policy q t = Inr True \<longleftrightarrow> descriptor_allowed t q \<and> policy q t = Inr (JsBool True)"
  by (auto simp: tool_visible_def)

lemma visible_tools_Inr:
  "visible_tools policy q ts = Inr vs \<Longrightarrow> vs = filter (\<lambda>t. tool_visible policy q t = Inr True) ts"
proof -
  have "list_all2 (\<lambda>t b. tool_visible policy q t = Inr b) ts flags \<Longrightarrow>
      map fst (filter snd (zip ts flags)) = filter (\<lambda>t. tool_visible policy q t = Inr True) ts" for flags
    by (induction rule: list_all2_induct) auto
  then show "visible_tools policy q ts = Inr vs \<Longrightarrow> ?thesis" by (auto simp: visible_tools_def res_map_Inr)
qed

lemma as_catalog_Inr [simp]: "as_catalog r = Inr x \<longleftrightarrow> r = Inr x"
  by (cases r) auto

lemma as_thrown_Inr [simp]: "as_thrown r = Inr x \<longleftrightarrow> r = Inr x"
  by (cases r) auto

subsection \<open>Cursors\<close>

definition token_text :: "catalog_tool \<Rightarrow> string" where
  "token_text t = canonical_text (JObj [(''id'', JStr (td_id t)), (''version'', JNum (td_version t))])"

lemma token_text_inject: "token_text t = token_text u \<longleftrightarrow> tool_order t = tool_order u"
proof -
  have lower: "\<not> is_array_index ''id''" "\<not> is_array_index ''version''" by code_simp+
  have le: "(''id'' :: string) \<le> ''version''" by code_simp
  have "sort_value (JObj [(''id'', JStr i), (''version'', JNum v)]) = JObj [(''id'', JStr i), (''version'', JNum v)]" for i v
    using lower le by (simp add: sort_value_JObj own_key_order_def sort_entry_def)
  then show ?thesis by (auto simp: token_text_def canonical_text_def stringify_inject tool_order_def simp del: stringify.simps)
qed

lemma index_of_nth: "distinct xs \<Longrightarrow> i < length xs \<Longrightarrow> index_of (xs ! i) xs = Some i"
  by (induction xs arbitrary: i) (auto simp: nth_Cons split: nat.splits)

text \<open>What the code relies on in the platform's SHA-256: 64 hexadecimal digits, and no collision among
  the texts at hand.\<close>

definition hex_digest :: "string \<Rightarrow> bool" where
  "hex_digest d \<longleftrightarrow> length d = 64 \<and> list_all (\<lambda>c. is_digit c \<or> (CHR ''a'' \<le> c \<and> c \<le> CHR ''f'')) d"

lemma cursor_offset_token:
  assumes "hex_digest (sha (token_text t))" "distinct cursors" "i < length cursors" "cursors ! i = cursor_token sha t"
  shows "cursor_offset (Some (cursors ! i)) cursors = Inr (Suc i)"
proof -
  have "is_cursor (cursor_token sha t)" "length (cursor_token sha t) = 71"
    using assms(1) by (simp_all add: is_cursor_def cursor_token_def token_text_def hex_digest_def)
  then show ?thesis using index_of_nth [OF assms(2,3)] assms(4)
    by (simp add: cursor_offset_def catalog_max_cursor_length_def)
qed

subsection \<open>Paging\<close>

text \<open>A client that asks for page after page with the cursor of the last one.\<close>

fun walk_pages :: "(string option \<Rightarrow> 'e + catalog_page) \<Rightarrow> nat \<Rightarrow> string option \<Rightarrow> catalog_tool list option" where
  "walk_pages fetch 0 cursor = None"
| "walk_pages fetch (Suc n) cursor =
     (case fetch cursor of
        Inl _ \<Rightarrow> None
      | Inr p \<Rightarrow> (case pg_next p of
          None \<Rightarrow> Some (pg_tools p)
        | Some c \<Rightarrow> map_option ((@) (pg_tools p)) (walk_pages fetch n (Some c))))"

lemma walk_from:
  assumes fetch: "\<And>start c. start \<le> length visible \<Longrightarrow> cursor_offset c (map (cursor_token sha) visible) = Inr start \<Longrightarrow>
      fetch c = Inr \<lparr>pg_revision = rev0, pg_tools = take k (drop start visible),
        pg_next = (if start + length (take k (drop start visible)) < length visible \<and> 0 < start + length (take k (drop start visible))
          then Some (map (cursor_token sha) visible ! (start + length (take k (drop start visible)) - 1)) else None)\<rparr>"
    and tokens: "distinct (map (cursor_token sha) visible)" "\<forall>t \<in> set visible. hex_digest (sha (token_text t))"
    and k: "0 < k" and start: "start \<le> length visible" "cursor_offset c (map (cursor_token sha) visible) = Inr start"
    and fuel: "length visible - start < fuel"
  shows "walk_pages fetch fuel c = Some (drop start visible)"
  using start fuel
proof (induction fuel arbitrary: start c)
  case (Suc fuel)
  let ?page = "take k (drop start visible)" and ?cursors = "map (cursor_token sha) visible"
  show ?case
  proof (cases "start + length ?page < length visible")
    case False
    then have "?page = drop start visible" by (auto simp: min_def split: if_splits)
    then show ?thesis using fetch [OF Suc.prems(1,2)] False by simp
  next
    case True
    then have page: "length ?page = k" by (auto simp: min_def split: if_splits)
    have next_start: "start + k - 1 < length visible" "start + k \<le> length visible" using True page by auto
    have "cursor_offset (Some (?cursors ! (start + k - 1))) ?cursors = Inr (Suc (start + k - 1))"
      by (rule cursor_offset_token [OF _ tokens(1), of _ "visible ! (start + k - 1)"])
         (use tokens(2) next_start in auto)
    then have "walk_pages fetch fuel (Some (?cursors ! (start + k - 1))) = Some (drop (start + k) visible)"
      using Suc.IH [of "start + k"] Suc.prems(3) next_start k by simp
    moreover have "?page @ drop (start + k) visible = drop start visible"
      by (metis append_take_drop_id drop_drop add.commute)
    ultimately show ?thesis using fetch [OF Suc.prems(1,2)] True page k by simp
  qed
qed simp

lemma catalog_list_Inr:
  "catalog_list sha dtext policy tools request limit cursor = Inr p \<longleftrightarrow>
   (\<exists>q n visible start. normalize_request request = Inr q \<and> page_limit limit = Inr n \<and> visible_tools policy q tools = Inr visible
      \<and> cursor_offset cursor (map (cursor_token sha) visible) = Inr start
      \<and> p = \<lparr>pg_revision = ''sha256:'' @ sha (dtext visible), pg_tools = take n (drop start visible),
          pg_next = (if start + length (take n (drop start visible)) < length visible \<and> 0 < start + length (take n (drop start visible))
            then Some (map (cursor_token sha) visible ! (start + length (take n (drop start visible)) - 1)) else None)\<rparr>)"
  by (auto simp: catalog_list_def Let_def)

lemma new_catalog_Inr:
  assumes "new_catalog r = Inr ts"
  obtains us where "check_tools r [] (rg_tools r) = Inr us" "ts = sort_key tool_order us" "distinct (map tool_order us)"
    "rg_executable r" "length (rg_tools r) \<le> catalog_max_size"
proof -
  obtain us where us: "check_tools r [] (rg_tools r) = Inr us" "ts = sort_key tool_order us"
      and size: "rg_executable r" "length (rg_tools r) \<le> catalog_max_size"
    using assms by (auto simp: new_catalog_def split: if_splits)
  moreover have "distinct (map tool_order us)"
    using check_tools_Inr [OF us(1)] catalog_key_inject by (auto simp: distinct_map inj_on_def)
  ultimately show thesis using that by blast
qed

subsection \<open>The properties\<close>

text \<open>C37: construction accepts a registration only when every contributed tool parses, is owned and
  bound by an installed plugin and has a key of its own; the catalogue is then exactly these tools, in
  strictly increasing order of identifier and version, and never more than 1000.\<close>

theorem catalog_holds_registered_tools:
  assumes "new_catalog r = Inr ts"
  shows "rg_executable r \<and> length ts = length (rg_tools r) \<and> length ts \<le> 1000
    \<and> Some ` set ts = cb_value ` set (rg_tools r) \<and> (\<forall>t \<in> set ts. registered_tool r t)
    \<and> sorted (map tool_order ts) \<and> distinct (map tool_order ts)"
proof -
  obtain us where us: "check_tools r [] (rg_tools r) = Inr us" "ts = sort_key tool_order us" and order: "distinct (map tool_order us)"
      and size: "rg_executable r" "length (rg_tools r) \<le> catalog_max_size"
    using assms by (rule new_catalog_Inr)
  note facts = check_tools_Inr [OF us(1)]
  have "Some ` set us = cb_value ` set (rg_tools r)" "length us = length (rg_tools r)"
    using facts by (metis list.set_map, metis length_map)
  moreover have "\<forall>t \<in> set us. registered_tool r t" using facts by (auto simp: registered_tool_def)
  ultimately show ?thesis using size us(2) order sort_key_parts [of tool_order us] by (simp add: catalog_max_size_def)
qed

text \<open>whatever \<open>list\<close> or \<open>lookup\<close> returns is in the catalogue, the requested surface is one of
  its surfaces, its audience admits the effective actor, and the policy of the host answered
  \<open>true\<close> for it.\<close>

theorem catalog_shows_only_visible_tools:
  assumes "(catalog_list sha dtext policy tools request limit cursor = Inr p \<and> t \<in> set (pg_tools p))
         \<or> catalog_lookup policy tools request i v = Inr (Some t)"
  shows "\<exists>q. normalize_request request = Inr q \<and> t \<in> set tools
    \<and> audience_permits (ct_surfaces t) (ct_audience t) (cr_surface q) (effective_kind (cr_actor q))
    \<and> policy q t = Inr (JsBool True)"
  using assms
proof
  assume "catalog_list sha dtext policy tools request limit cursor = Inr p \<and> t \<in> set (pg_tools p)"
  then obtain q n visible start where q: "normalize_request request = Inr q" "visible_tools policy q tools = Inr visible"
      "t \<in> set (take n (drop start visible))"
    by (auto simp: catalog_list_Inr)
  then have "t \<in> set visible" by (meson in_set_dropD in_set_takeD)
  then have "t \<in> set tools" "tool_visible policy q t = Inr True"
    using visible_tools_Inr [OF q(2)] by auto
  then show ?thesis using q(1) by (auto simp: tool_visible_True descriptor_allowed_audience)
next
  assume looked: "catalog_lookup policy tools request i v = Inr (Some t)"
  then obtain q where q: "normalize_request request = Inr q" by (auto simp: catalog_lookup_def)
  with looked obtain name version where key: "i = JsString name" "v = JsNumber (Finite version)" "is_safe_integer version"
    by (auto simp: catalog_lookup_def split: js_value.splits js_number.splits if_splits)
  let ?found = "find (\<lambda>t. td_id t = name \<and> td_version t = version) tools"
  obtain u where u: "?found = Some u"
    using looked q key by (cases ?found) (simp_all add: catalog_lookup_def)
  then obtain b where b: "tool_visible policy q u = Inr b" "(if b then Some u else None) = Some t"
    using looked q key by (auto simp: catalog_lookup_def)
  then have u: "?found = Some u" "tool_visible policy q u = Inr True" "t = u"
    using u by (auto split: if_splits)
  then have "t \<in> set tools" by (auto simp: find_Some_iff)
  then show ?thesis using q u by (auto simp: tool_visible_True descriptor_allowed_audience)
qed

text \<open>C25: following the cursors from the first page, with one page size, returns every visible tool of
  the catalogue exactly once and in its order, and stops: no tool is skipped or repeated at a page
  boundary. SHA-256 is assumed to give 64 hexadecimal digits without a collision among the tools.\<close>

theorem catalog_pages_partition_visible:
  assumes "new_catalog r = Inr tools"
    and "normalize_request request = Inr q" "page_limit limit = Inr k" "visible_tools policy q tools = Inr visible"
    and "\<forall>text. hex_digest (sha text)" "inj_on sha (token_text ` set tools)"
  shows "walk_pages (catalog_list sha dtext policy tools request limit) (Suc (length visible)) None = Some visible
    \<and> visible = filter (\<lambda>t. tool_visible policy q t = Inr True) tools"
proof -
  have visible: "visible = filter (\<lambda>t. tool_visible policy q t = Inr True) tools"
    by (rule visible_tools_Inr [OF assms(4)])
  have "distinct (map tool_order tools)"
    using assms(1) by (rule new_catalog_Inr) (simp add: sort_key_parts)
  then have order: "distinct visible" "inj_on tool_order (set visible)"
    unfolding visible by (auto simp: distinct_map intro: inj_on_subset)
  have sha: "inj_on sha (token_text ` set visible)"
    by (rule inj_on_subset [OF assms(6)]) (auto simp: visible)
  have "inj_on (cursor_token sha) (set visible)"
  proof (rule inj_onI)
    fix t u assume tu: "t \<in> set visible" "u \<in> set visible" "cursor_token sha t = cursor_token sha u"
    then have "sha (token_text t) = sha (token_text u)" by (simp add: cursor_token_def token_text_def)
    then have "token_text t = token_text u" by (rule inj_onD [OF sha]) (use tu in auto)
    then have "tool_order t = tool_order u" by (simp only: token_text_inject)
    then show "t = u" by (rule inj_onD [OF order(2)]) (use tu in auto)
  qed
  then have tokens: "distinct (map (cursor_token sha) visible)" using order(1) by (simp add: distinct_map)
  have "0 < k" using assms(3)
    by (auto simp: page_limit_def catalog_max_page_def split: option.splits js_number.splits if_splits)
  note k = this
  have fetch: "catalog_list sha dtext policy tools request limit c =
      Inr \<lparr>pg_revision = ''sha256:'' @ sha (dtext visible), pg_tools = take k (drop start visible),
        pg_next = (if start + length (take k (drop start visible)) < length visible \<and> 0 < start + length (take k (drop start visible))
          then Some (map (cursor_token sha) visible ! (start + length (take k (drop start visible)) - 1)) else None)\<rparr>"
    if "cursor_offset c (map (cursor_token sha) visible) = Inr start" for c start
    unfolding catalog_list_Inr using assms(2-4) that by blast
  have "walk_pages (catalog_list sha dtext policy tools request limit) (Suc (length visible)) None = Some (drop 0 visible)"
    by (rule walk_from [OF fetch tokens _ k]) (simp_all add: assms(5) cursor_offset_def)
  then show ?thesis using visible by simp
qed

subsection \<open>Witnesses\<close>

definition sample_registration :: registration where
  "sample_registration = \<lparr>rg_executable = True, rg_inventory = [''module.m''],
     rg_tools = [\<lparr>cb_id = ''u'', cb_plugin = ''module.m'', cb_value = Some (sample_catalog_tool ''u'' 1 PublicAudience)\<rparr>,
       \<lparr>cb_id = ''t'', cb_plugin = ''module.m'', cb_value = Some (sample_catalog_tool ''t'' 2 AuthenticatedAudience)\<rparr>,
       \<lparr>cb_id = ''t'', cb_plugin = ''module.m'', cb_value = Some (sample_catalog_tool ''t'' 1 AuthenticatedAudience)\<rparr>],
     rg_sources = [\<lparr>cb_id = ''s'', cb_plugin = ''module.m'', cb_value = 1\<rparr>], rg_actions = [],
     rg_source_bindings = [\<lparr>cb_id = ''s'', cb_plugin = ''module.m'', cb_value = ()\<rparr>], rg_action_bindings = []\<rparr>"

definition sample_candidate :: "string \<Rightarrow> catalog_candidate option" where
  "sample_candidate kind = Some \<lparr>cd_actor = sample_actor kind, cd_delegation = JsNull, cd_authorization = JsNull,
     cd_surface = JsString ''workspace'', cd_features = Some []\<rparr>"

definition sample_request :: catalog_request where
  "sample_request = \<lparr>cr_actor = the (sample_actor ''user''), cr_delegation = JsNull, cr_authorization = JsNull,
     cr_surface = Workspace, cr_features = []\<rparr>"

definition sample_catalog :: "catalog_tool list" where
  "sample_catalog = [sample_catalog_tool ''t'' 1 AuthenticatedAudience, sample_catalog_tool ''t'' 2 AuthenticatedAudience,
     sample_catalog_tool ''u'' 1 PublicAudience]"

text \<open>A hash without collisions on these three tools.\<close>

definition sample_sha :: "string \<Rightarrow> string" where
  "sample_sha s = replicate 62 CHR ''0'' @ [if CHR ''2'' \<in> set s then CHR ''1'' else CHR ''0'',
     if CHR ''u'' \<in> set s then CHR ''1'' else CHR ''0'']"

lemma sample_catalog_accepted: "new_catalog sample_registration = Inr sample_catalog"
  by code_simp

lemma sample_request_accepted: "normalize_request (sample_candidate ''user'') = Inr sample_request"
  by code_simp

lemma sample_visible: "visible_tools (\<lambda>_ _. Inr (JsBool True)) sample_request sample_catalog = Inr sample_catalog"
  by code_simp

lemma sample_sha_hex: "hex_digest (sample_sha s)"
  by (simp add: hex_digest_def sample_sha_def is_digit_def less_eq_char_def numeral_eq_Suc)

lemma sample_sha_inj: "inj_on sample_sha (token_text ` set sample_catalog)"
proof -
  have "distinct (map (sample_sha \<circ> token_text) sample_catalog)" by code_simp
  then have "inj_on (sample_sha \<circ> token_text) (set sample_catalog)" by (simp add: distinct_map)
  then show ?thesis by (rule inj_on_imageI)
qed

theorem catalog_holds_registered_tools_witness:
  "length sample_catalog = 3 \<and> list_all (registered_tool sample_registration) sample_catalog"
  using catalog_holds_registered_tools [OF sample_catalog_accepted] by (simp add: sample_registration_def list_all_iff)

definition sample_page :: "string \<Rightarrow> catalog_failure + catalog_page" where
  "sample_page kind = catalog_list sample_sha (\<lambda>_. []) (\<lambda>_ _. Inr (JsBool True)) sample_catalog (sample_candidate kind) None None"

theorem catalog_shows_only_visible_tools_witness:
  "\<exists>p. sample_page ''public'' = Inr p \<and> map td_id (pg_tools p) = [''u''] \<and> list_all (\<lambda>t. ct_audience t = PublicAudience) (pg_tools p)"
proof -
  have "(case sample_page ''public'' of Inl _ \<Rightarrow> False | Inr p \<Rightarrow> map td_id (pg_tools p) = [''u''])" by code_simp
  then obtain p where p: "sample_page ''public'' = Inr p" "map td_id (pg_tools p) = [''u'']" by (auto split: sum.splits)
  have "effective_kind (cr_actor q) = PublicActor" if "normalize_request (sample_candidate ''public'') = Inr q" for q
    using that by (auto simp: normalize_request_def sample_candidate_def sample_actor_def sample_identity_value_def
      effective_kind_def actor_kind_of_def split: if_splits option.splits)
  then have "ct_audience t = PublicAudience" if "t \<in> set (pg_tools p)" for t
    using catalog_shows_only_visible_tools [OF disjI1 [OF conjI [OF p(1) [unfolded sample_page_def] that]]]
    by (auto simp: audience_permits_def)
  then show ?thesis using p by (auto simp: list_all_iff)
qed

theorem catalog_pages_partition_visible_witness:
  "walk_pages (catalog_list sample_sha (\<lambda>_. []) (\<lambda>_ _. Inr (JsBool True)) sample_catalog (sample_candidate ''user'')
     (Some (Finite 2))) 4 None = Some sample_catalog"
proof -
  have "page_limit (Some (Finite 2)) = Inr 2" by code_simp
  note pages = catalog_pages_partition_visible [OF sample_catalog_accepted sample_request_accepted this sample_visible
      allI [OF sample_sha_hex] sample_sha_inj, of "\<lambda>_. []"]
  have "Suc (length sample_catalog) = 4" by (simp add: sample_catalog_def)
  with conjunct1 [OF pages] show ?thesis by (simp only:)
qed

end
