(* ===== verification/Effects.thy ===== *)
theory Effects
  imports ToolTypes
begin

text \<open>
  Asynchronous pipelines: a stage is a function of a shared world that may throw, a pipeline is a
  sequence of steps over a state that extends the world with a log of the stages called and whether
  each one returned. Triples over steps have one postcondition for a return and one for a throw.
\<close>

subsection \<open>Steps\<close>

type_synonym ('w, 'a) effect = "'w \<Rightarrow> (failure + 'a) \<times> 'w"

record ('w, 'st) run =
  rn_world :: 'w
  rn_log :: "('st \<times> bool) list"

type_synonym ('s, 'e, 'a) throwing_step = "'s \<Rightarrow> ('e + 'a) \<times> 's"

type_synonym ('s, 'a) step = "('s, failure, 'a) throwing_step"

definition step_return :: "'a \<Rightarrow> ('s, 'e, 'a) throwing_step" where
  "step_return a s = (Inr a, s)"

definition step_throw :: "'e \<Rightarrow> ('s, 'e, 'a) throwing_step" where
  "step_throw e s = (Inl e, s)"

definition step_bind :: "('s, 'e, 'a) throwing_step \<Rightarrow> ('a \<Rightarrow> ('s, 'e, 'b) throwing_step) \<Rightarrow> ('s, 'e, 'b) throwing_step" where
  "step_bind m f s = (case m s of (Inl e, s') \<Rightarrow> (Inl e, s') | (Inr a, s') \<Rightarrow> f a s')"

definition step_catch :: "('s, 'e, 'a) throwing_step \<Rightarrow> ('e \<Rightarrow> ('s, 'e, 'a) throwing_step) \<Rightarrow> ('s, 'e, 'a) throwing_step" where
  "step_catch m f s = (case m s of (Inl e, s') \<Rightarrow> f e s' | (Inr a, s') \<Rightarrow> (Inr a, s'))"

definition step_modify :: "('s \<Rightarrow> 's) \<Rightarrow> ('s, 'e, unit) throwing_step" where
  "step_modify f s = (Inr (), f s)"

definition step_of :: "'e + 'a \<Rightarrow> ('s, 'e, 'a) throwing_step" where
  "step_of r s = (r, s)"

text \<open>\<open>try { m } finally { f }\<close>: an exception of the second part replaces the outcome of the first.\<close>

definition step_finally :: "('s, 'e, 'a) throwing_step \<Rightarrow> ('s, 'e, unit) throwing_step \<Rightarrow> ('s, 'e, 'a) throwing_step" where
  "step_finally m f s = (case m s of (r, s') \<Rightarrow> (case f s' of (Inl e, s'') \<Rightarrow> (Inl e, s'') | (Inr _, s'') \<Rightarrow> (r, s'')))"

text \<open>Calls out of the program, recorded as events with their answer, or \<open>None\<close> when they threw.\<close>

record ('w, 'ev) recording =
  rc_world :: 'w
  rc_events :: "'ev list"

definition call_out :: "('a option \<Rightarrow> 'ev) \<Rightarrow> ('w \<Rightarrow> ('e + 'a) \<times> 'w) \<Rightarrow> (('w, 'ev, 'z) recording_scheme, 'e, 'a) throwing_step" where
  "call_out event f s =
     (case f (rc_world s) of (r, w) \<Rightarrow>
        (r, s\<lparr>rc_world := w, rc_events := rc_events s @ [event (case r of Inl _ \<Rightarrow> None | Inr a \<Rightarrow> Some a)]\<rparr>))"

text \<open>A call of a stage, with its entry in the log.\<close>

definition perform :: "'st \<Rightarrow> ('w, 'a) effect \<Rightarrow> (('w, 'st, 'z) run_scheme, 'a) step" where
  "perform st f s =
     (case f (rn_world s) of (r, w) \<Rightarrow>
        (r, s\<lparr>rn_world := w, rn_log := rn_log s @ [(st, (case r of Inl _ \<Rightarrow> False | Inr _ \<Rightarrow> True))]\<rparr>))"

subsection \<open>Triples\<close>

definition valid :: "('s \<Rightarrow> bool) \<Rightarrow> ('s, 'e, 'a) throwing_step \<Rightarrow> ('a \<Rightarrow> 's \<Rightarrow> bool) \<Rightarrow>
    ('s \<Rightarrow> bool) \<Rightarrow> bool" where
  "valid P m Q E \<longleftrightarrow> (\<forall>s. P s \<longrightarrow> (case m s of (Inr a, s') \<Rightarrow> Q a s' | (Inl e, s') \<Rightarrow> E s'))"

named_theorems triples \<open>rules for the primitive steps\<close>

lemma valid_bind: "valid P m Q E \<Longrightarrow> (\<And>a. valid (Q a) (f a) R E) \<Longrightarrow> valid P (step_bind m f) R E"
  unfolding valid_def step_bind_def by (fastforce split: sum.splits prod.splits)

lemma valid_catch: "valid P m Q E \<Longrightarrow> (\<And>e. valid E (h e) Q E') \<Longrightarrow> valid P (step_catch m h) Q E'"
  unfolding valid_def step_catch_def by (fastforce split: sum.splits prod.splits)

lemma valid_weaken:
  "valid P' m Q' E' \<Longrightarrow> (\<And>s. P s \<Longrightarrow> P' s) \<Longrightarrow> (\<And>a s. Q' a s \<Longrightarrow> Q a s) \<Longrightarrow> (\<And>s. E' s \<Longrightarrow> E s) \<Longrightarrow> valid P m Q E"
  unfolding valid_def by (fastforce split: sum.splits prod.splits)

lemma valid_return [triples]: "(\<And>s. P s \<Longrightarrow> Q a s) \<Longrightarrow> valid P (step_return a) Q E"
  by (simp add: valid_def step_return_def)

lemma valid_throw [triples]: "(\<And>s. P s \<Longrightarrow> E s) \<Longrightarrow> valid P (step_throw e) Q E"
  by (simp add: valid_def step_throw_def)

lemma valid_modify [triples]: "(\<And>s. P s \<Longrightarrow> Q () (f s)) \<Longrightarrow> valid P (step_modify f) Q E"
  by (simp add: valid_def step_modify_def)

lemma valid_perform [triples]:
  "(\<And>s w a. P s \<Longrightarrow> Q a (s\<lparr>rn_world := w, rn_log := rn_log s @ [(st, True)]\<rparr>)) \<Longrightarrow>
   (\<And>s w. P s \<Longrightarrow> E (s\<lparr>rn_world := w, rn_log := rn_log s @ [(st, False)]\<rparr>)) \<Longrightarrow> valid P (perform st f) Q E"
  by (auto simp: valid_def perform_def split: sum.splits prod.splits)

lemma validD_Inr: "valid P m Q E \<Longrightarrow> P s \<Longrightarrow> m s = (Inr a, s') \<Longrightarrow> Q a s'"
  by (fastforce simp: valid_def)

lemma validD_Inl: "valid P m Q E \<Longrightarrow> P s \<Longrightarrow> m s = (Inl e, s') \<Longrightarrow> E s'"
  by (fastforce simp: valid_def)

lemma perform_result: "\<exists>w b. perform st f s = (fst (f (rn_world s)), s\<lparr>rn_world := w, rn_log := rn_log s @ [(st, b)]\<rparr>)"
  by (cases "f (rn_world s)") (auto simp: perform_def)

lemma valid_call_out [triples]:
  "(\<And>s w a. P s \<Longrightarrow> Q a (s\<lparr>rc_world := w, rc_events := rc_events s @ [event (Some a)]\<rparr>)) \<Longrightarrow>
   (\<And>s w. P s \<Longrightarrow> E (s\<lparr>rc_world := w, rc_events := rc_events s @ [event None]\<rparr>)) \<Longrightarrow> valid P (call_out event f) Q E"
  by (auto simp: valid_def call_out_def split: sum.splits prod.splits)

lemma valid_of_result [triples]:
  "(\<And>s a. P s \<Longrightarrow> r = Inr a \<Longrightarrow> Q a s) \<Longrightarrow> (\<And>s e. P s \<Longrightarrow> r = Inl e \<Longrightarrow> E s) \<Longrightarrow> valid P (step_of r) Q E"
  by (auto simp: valid_def step_of_def split: sum.splits)

lemma valid_finally:
  "valid P m Q E \<Longrightarrow> (\<And>a. valid (Q a) f (\<lambda>_. R a) F) \<Longrightarrow> valid E f (\<lambda>_. F) F \<Longrightarrow> valid P (step_finally m f) R F"
  unfolding valid_def step_finally_def by (fastforce split: sum.splits prod.splits)

text \<open>Symbolic execution: the outcome of a sequence satisfies \<open>R\<close> when every branch does.\<close>

lemma run_call_out:
  assumes "\<And>a w. R (k a (s\<lparr>rc_world := w, rc_events := rc_events s @ [event (Some a)]\<rparr>))"
    and "\<And>e w. R (Inl e, s\<lparr>rc_world := w, rc_events := rc_events s @ [event None]\<rparr>)"
  shows "R (step_bind (call_out event f) k s)"
  using assms by (simp add: step_bind_def call_out_def split: sum.splits prod.splits)

lemma run_of_result:
  assumes "\<And>a. r = Inr a \<Longrightarrow> R (k a s)" "\<And>e. r = Inl e \<Longrightarrow> R (Inl e, s)"
  shows "R (step_bind (step_of r) k s)"
  using assms by (cases r) (simp_all add: step_bind_def step_of_def)

lemma run_modify: "R (k () (f s)) \<Longrightarrow> R (step_bind (step_modify f) k s)"
  by (simp add: step_bind_def step_modify_def)

lemma run_return: "R (Inr a, s) \<Longrightarrow> R (step_return a s)"
  by (simp add: step_return_def)

text \<open>A step whose error is dropped.\<close>

definition ignoring :: "('s, 'e, unit) throwing_step \<Rightarrow> 's \<Rightarrow> 's" where
  "ignoring m s = snd (m s)"

lemma ignoring_perform: "\<exists>w b. ignoring (perform st f) s = s\<lparr>rn_world := w, rn_log := rn_log s @ [(st, b)]\<rparr>"
  unfolding ignoring_def using perform_result [of st f s] by (metis snd_conv)

subsection \<open>Logs\<close>

abbreviation stages :: "('w, 'st, 'z) run_scheme \<Rightarrow> 'st set" where
  "stages s \<equiv> fst ` set (rn_log s)"

definition passed :: "'st list \<Rightarrow> ('st \<times> bool) list" where
  "passed sts = map (\<lambda>st. (st, True)) sts"

lemma passed_append: "passed (xs @ ys) = passed xs @ passed ys"
  by (simp add: passed_def)

lemma stages_passed: "fst ` set (passed sts) = set sts"
  by (force simp: passed_def)

lemma nth_in_take: "distinct xs \<Longrightarrow> i < length xs \<Longrightarrow> xs ! i \<in> set (take k xs) \<longleftrightarrow> i < k"
  by (auto simp: in_set_conv_nth nth_eq_iff_index_eq)

end
