(* ===== verification/ToolGateway.thy ===== *)
theory ToolGateway
  imports ToolTypes Effects
begin

text \<open>
  The execution gateway, \<open>packages/runtime/src/tool-gateway.ts\<close>: it composes the stages of a tool
  call. A stage is a function of the world that may throw; \<open>world\<close> holds everything the stages,
  the host and the caller share, the abort signals among it. The local variables of \<open>execute\<close>
  are fields of the state, next to a log of the calls made and whether each one returned.

  After the dispatch two activities run: the response waits for the handler or for the abort signal,
  and the reconciliation of the handler's outcome. \<open>race\<close> says which of the handler and the signal
  settles first; when it is the signal, the reconciliation runs after the response is complete.
\<close>

subsection \<open>Requests, envelopes and problems\<close>

record 'v gateway_request =
  gr_correlation :: string
  gr_tool_id :: string
  gr_tool_version :: int
  gr_surface :: surface
  gr_features :: "string list"
  gr_input :: 'v

record 'v envelope =
  ev_correlation :: string
  ev_tool_id :: string
  ev_tool_version :: int
  ev_data :: 'v

record problem =
  pb_type :: string
  pb_title :: string
  pb_status :: int
  pb_detail :: string
  pb_code :: string
  pb_correlation :: string

text \<open>A stored result of any shape: not an object, or an object with its keys and fields.\<close>

record 'v raw_envelope =
  re_keys :: "string list"
  re_schema_version :: js_value
  re_provenance :: js_value
  re_trust :: js_value
  re_correlation :: js_value
  re_tool :: "(js_value \<times> js_value) option"
  re_data :: 'v

datatype 'v replay = NoReplay | ReplayOther | ReplayObject "'v raw_envelope"

record 'v tool_claim =
  gc_object :: 'v
  gc_context :: 'v
  gc_replay :: "'v replay"

record 'v exec_context =
  ex_request :: "'v gateway_request"
  ex_principal :: 'v
  ex_client :: 'v
  ex_delegation :: 'v
  ex_descriptor :: catalog_tool
  ex_input :: 'v
  ex_authorization :: "'v option"
  ex_lease :: "'v option"
  ex_approval :: "'v option"
  ex_idempotency :: "'v option"

subsection \<open>The stages\<close>

record ('w, 'v) gateway_stages =
  gs_principal :: "'v gateway_request \<Rightarrow> ('w, 'v) effect"
  gs_client :: "'v gateway_request \<Rightarrow> 'v \<Rightarrow> ('w, 'v) effect"
  gs_delegation :: "'v gateway_request \<Rightarrow> 'v \<Rightarrow> 'v \<Rightarrow> ('w, 'v) effect"
  gs_catalog :: "'v gateway_request \<Rightarrow> 'v \<Rightarrow> 'v \<Rightarrow> 'v \<Rightarrow> ('w, catalog_tool option) effect"
  gs_input :: "catalog_tool \<Rightarrow> 'v \<Rightarrow> ('w, 'v) effect"
  gs_authorization :: "'v exec_context \<Rightarrow> ('w, 'v) effect"
  gs_budget :: "'v exec_context \<Rightarrow> ('w, 'v) effect"
  gs_release :: "'v \<Rightarrow> 'w \<Rightarrow> 'w"
  gs_lease_aborted :: "'v \<Rightarrow> 'w \<Rightarrow> bool"
  gs_caller_aborted :: "'w \<Rightarrow> bool"
  gs_approval_evaluate :: "'v exec_context \<Rightarrow> ('w, 'v) effect"
  gs_approval_prepare :: "'v exec_context \<Rightarrow> ('w, 'v) effect"
  gs_approval_submit :: "'v exec_context \<Rightarrow> 'v \<Rightarrow> ('w, 'v) effect"
  gs_claim :: "'v exec_context \<Rightarrow> ('w, 'v tool_claim) effect"
  gs_complete :: "'v tool_claim \<Rightarrow> 'v envelope \<Rightarrow> ('w, unit) effect"
  gs_fail :: "'v tool_claim \<Rightarrow> bool \<Rightarrow> ('w, unit) effect"
  gs_dispatch :: "'v exec_context \<Rightarrow> ('w, 'v) effect"
  gs_output :: "catalog_tool \<Rightarrow> 'v \<Rightarrow> ('w, 'v) effect"
  gs_redact :: "'v exec_context \<Rightarrow> 'v \<Rightarrow> ('w, 'v) effect"
  gs_audit_before :: "('v exec_context \<Rightarrow> ('w, unit) effect) option"
  gs_audit_success :: "'v exec_context \<Rightarrow> 'v envelope \<Rightarrow> ('w, unit) effect"
  gs_audit_failure :: "'v gateway_request \<Rightarrow> gateway_error \<Rightarrow> 'v exec_context option \<Rightarrow> ('w, unit) effect"
  gs_serialize :: "gateway_error \<Rightarrow> string \<Rightarrow> problem"

datatype stage =
    StPrincipal | StClient | StDelegation | StCatalog | StInput | StAuthorization | StBudget | StApproval
  | StPrepare | StSubmit | StClaim | StAuditBefore | StDispatch | StRelease | StOutput | StRedact | StComplete
  | StFail bool | StAuditSuccess | StAuditFailure

text \<open>The state of a call: the world, the log, and the variables of \<open>execute\<close>; \<open>gw_settled\<close> is
  the handler's outcome while its reconciliation is still outstanding.\<close>

record ('w, 'v) call = "('w, stage) run" +
  gw_lease :: "'v option"
  gw_claim :: "'v tool_claim option"
  gw_context :: "'v exec_context option"
  gw_started :: bool
  gw_settled :: "('v \<times> (failure + 'v)) option"

definition perform_release :: "('w, 'v) gateway_stages \<Rightarrow> 'v \<Rightarrow> ('w, 'v) call \<Rightarrow> ('w, 'v) call" where
  "perform_release g lease s =
     s\<lparr>rn_world := gs_release g lease (rn_world s), rn_log := rn_log s @ [(StRelease, True)]\<rparr>"

subsection \<open>Helpers\<close>

definition is_js_space :: "char \<Rightarrow> bool" where
  "is_js_space c \<longleftrightarrow> c \<in> set [CHR 0x09, CHR 0x0A, CHR 0x0B, CHR 0x0C, CHR 0x0D, CHR 0x20, CHR 0xA0]"

definition js_trim :: "string \<Rightarrow> string" where
  "js_trim s = rev (dropWhile is_js_space (rev (dropWhile is_js_space s)))"

definition bounded_text :: "string \<Rightarrow> string \<Rightarrow> nat \<Rightarrow> string" where
  "bounded_text v fallback maximum =
     (let normalized = js_trim v in take maximum (if normalized = [] then fallback else normalized))"

text \<open>The test \<open>/^[A-Z][A-Z0-9_]{0,63}$/\<close>.\<close>

definition is_problem_code :: "string \<Rightarrow> bool" where
  "is_problem_code s \<longleftrightarrow>
     (case s of [] \<Rightarrow> False
      | c # cs \<Rightarrow> is_upper c \<and> length cs \<le> 63 \<and> list_all (\<lambda>d. is_upper d \<or> is_digit d \<or> d = CHR ''_'') cs)"

definition to_lower :: "char \<Rightarrow> char" where
  "to_lower c = (if is_upper c then char_of (of_char c + (32 :: nat)) else c)"

definition safe_serialize :: "gateway_error \<Rightarrow> string \<Rightarrow> problem" where
  "safe_serialize e correlation =
     (let code = (if is_problem_code (error_code e) then error_code e else ''INTERNAL_ERROR'');
          status = (if 400 \<le> error_status e \<and> error_status e \<le> 599 then error_status e else 500);
          title = bounded_text (error_title e) ''Tool request failed.'' 120
      in \<lparr>pb_type = ''urn:k-nex:problem:'' @ map (\<lambda>c. if c = CHR ''_'' then CHR ''-'' else c) (map to_lower code),
          pb_title = title, pb_status = status, pb_detail = bounded_text (error_detail e) title 512,
          pb_code = code, pb_correlation = bounded_text correlation ''unavailable'' 128\<rparr>)"

definition normalized_error :: "failure \<Rightarrow> gateway_error" where
  "normalized_error e =
     (case e of
        Gateway x \<Rightarrow> x
      | OtherException \<Rightarrow> ToolGatewayError ''INTERNAL_ERROR'' 500 ''Tool request failed.'' ''Tool request failed.'')"

definition correlation_id :: "'v gateway_request \<Rightarrow> string" where
  "correlation_id r = bounded_text (gr_correlation r) ''unavailable'' 128"

definition replay_invalid :: failure where
  "replay_invalid = gateway_failure ''IDEMPOTENCY_RESULT_INVALID'' 500 ''The idempotent result is invalid.''"

definition replay_envelope :: "'v replay \<Rightarrow> catalog_tool \<Rightarrow> failure + 'v envelope" where
  "replay_envelope v d =
     (case v of
        ReplayObject r \<Rightarrow>
          if nul_join (sort (re_keys r)) \<noteq>
             nul_join [''correlationId'', ''data'', ''provenance'', ''schemaVersion'', ''tool'', ''trust'']
          then Inl replay_invalid
          else (case (re_correlation r, re_tool r) of
            (JsString correlation, Some (i, version)) \<Rightarrow>
              if re_schema_version r \<noteq> JsNumber (Finite 1) \<or> re_provenance r \<noteq> JsString ''k-nex-tool''
                 \<or> re_trust r \<noteq> JsString ''structured-untrusted-content''
                 \<or> length correlation < 1 \<or> 128 < length correlation
                 \<or> i \<noteq> JsString (td_id d) \<or> version \<noteq> JsNumber (Finite (td_version d))
              then Inl replay_invalid
              else Inr \<lparr>ev_correlation = correlation, ev_tool_id = td_id d, ev_tool_version = td_version d,
                        ev_data = re_data r\<rparr>
          | _ \<Rightarrow> Inl replay_invalid)
      | _ \<Rightarrow> Inl replay_invalid)"

definition aborted_error :: "bool \<Rightarrow> failure" where
  "aborted_error caller_aborted =
     (if caller_aborted then gateway_failure ''TOOL_CANCELLED'' 499 ''The tool request was cancelled.''
      else gateway_failure ''TOOL_TIMEOUT'' 504 ''The tool request timed out.'')"

definition check_aborted :: "('w, 'v) gateway_stages \<Rightarrow> 'v \<Rightarrow> (('w, 'v) call, unit) step" where
  "check_aborted g lease s =
     (if gs_lease_aborted g lease (rn_world s) \<or> gs_caller_aborted g (rn_world s)
      then (Inl (aborted_error (gs_caller_aborted g (rn_world s))), s) else (Inr (), s))"

subsection \<open>\<open>authorize\<close>\<close>

text \<open>It returns the context and the lease, which the caller then keeps in its variables.\<close>

definition gateway_authorize :: "('w, 'v) gateway_stages \<Rightarrow> 'v gateway_request \<Rightarrow> (('w, 'v) call, 'v exec_context \<times> 'v) step" where
  "gateway_authorize g r =
     step_bind (perform StPrincipal (gs_principal g r)) (\<lambda>principal.
     step_bind (perform StClient (gs_client g r principal)) (\<lambda>client.
     step_bind (perform StDelegation (gs_delegation g r principal client)) (\<lambda>delegation.
     step_bind (perform StCatalog (gs_catalog g r principal client delegation)) (\<lambda>found.
     case found of
       None \<Rightarrow> step_throw (gateway_failure ''TOOL_NOT_FOUND'' 404 ''Tool was not found.'')
     | Some d \<Rightarrow>
         step_bind (perform StInput (gs_input g d (gr_input r))) (\<lambda>input.
         let before = \<lparr>ex_request = r, ex_principal = principal, ex_client = client, ex_delegation = delegation,
               ex_descriptor = d, ex_input = input, ex_authorization = None, ex_lease = None, ex_approval = None,
               ex_idempotency = None\<rparr> in
         step_bind (perform StAuthorization (gs_authorization g before)) (\<lambda>authorization.
         let before_budget = before\<lparr>ex_authorization := Some authorization\<rparr> in
         step_bind (perform StBudget (gs_budget g before_budget)) (\<lambda>lease.
         step_return (before_budget\<lparr>ex_lease := Some lease\<rparr>, lease))))))))"

definition gateway_begin :: "('w, 'v) gateway_stages \<Rightarrow> 'v gateway_request \<Rightarrow> (('w, 'v) call, 'v exec_context \<times> 'v) step" where
  "gateway_begin g r =
     step_bind (gateway_authorize g r) (\<lambda>(context, lease).
     step_bind (step_modify (\<lambda>s. s\<lparr>gw_lease := Some lease, gw_context := Some context\<rparr>)) (\<lambda>_.
     step_return (context, lease)))"

subsection \<open>\<open>execute\<close>\<close>

definition gateway_reconcile :: "('w, 'v) gateway_stages \<Rightarrow> 'v gateway_request \<Rightarrow> 'v exec_context \<Rightarrow>
    'v tool_claim \<Rightarrow> failure + 'v \<Rightarrow> (('w, 'v) call, 'v envelope) step" where
  "gateway_reconcile g r context claim settled =
     (let retain = (\<lambda>e. step_catch
            (step_bind (perform (StFail True) (gs_fail g claim True)) (\<lambda>_. step_throw e))
            (\<lambda>_. step_throw e))
      in case settled of
        Inl e \<Rightarrow> retain e
      | Inr dispatched \<Rightarrow>
          step_catch
            (step_bind (perform StOutput (gs_output g (ex_descriptor context) dispatched)) (\<lambda>validated.
             step_bind (perform StRedact (gs_redact g context validated)) (\<lambda>data.
             let body = \<lparr>ev_correlation = correlation_id r, ev_tool_id = td_id (ex_descriptor context),
                   ev_tool_version = td_version (ex_descriptor context), ev_data = data\<rparr> in
             step_bind (perform StComplete (gs_complete g claim body)) (\<lambda>_.
             step_bind (perform StAuditSuccess (gs_audit_success g context body)) (\<lambda>_.
             step_return body)))))
            retain)"

datatype race = HandlerFirst | AbortFirst

text \<open>From \<open>dispatchStarted = true\<close> on: the handler takes the lease over; its outcome and the abort
  signal race.\<close>

definition gateway_dispatch :: "('w, 'v) gateway_stages \<Rightarrow> race \<Rightarrow> 'v gateway_request \<Rightarrow> 'v exec_context \<Rightarrow>
    'v tool_claim \<Rightarrow> 'v \<Rightarrow> (('w, 'v) call, 'v envelope) step" where
  "gateway_dispatch g race r context claim lease s =
     (let aborted = gs_lease_aborted g lease (rn_world s);
          handled = perform StDispatch (gs_dispatch g context) (s\<lparr>gw_started := True, gw_lease := None\<rparr>)
      in if aborted \<or> race = AbortFirst
         then (Inl (aborted_error (gs_caller_aborted g (rn_world (snd handled)))),
               (snd handled)\<lparr>gw_settled := Some (lease, fst handled)\<rparr>)
         else gateway_reconcile g r context claim (fst handled) (perform_release g lease (snd handled)))"

definition gateway_body :: "('w, 'v) gateway_stages \<Rightarrow> race \<Rightarrow> 'v gateway_request \<Rightarrow> (('w, 'v) call, 'v envelope) step" where
  "gateway_body g race r =
     step_bind (gateway_begin g r) (\<lambda>(authorized, lease).
     step_bind (perform StApproval (gs_approval_evaluate g authorized)) (\<lambda>approval.
     let approved = authorized\<lparr>ex_approval := Some approval\<rparr> in
     step_bind (step_modify (\<lambda>s. s\<lparr>gw_context := Some approved\<rparr>)) (\<lambda>_.
     step_bind (perform StClaim (gs_claim g approved)) (\<lambda>claim.
     let context = approved\<lparr>ex_idempotency := Some (gc_context claim)\<rparr> in
     step_bind (step_modify (\<lambda>s. s\<lparr>gw_claim := Some claim, gw_context := Some context\<rparr>)) (\<lambda>_.
     step_bind (check_aborted g lease) (\<lambda>_.
     if gc_replay claim \<noteq> NoReplay
     then (case replay_envelope (gc_replay claim) (ex_descriptor context) of
             Inl e \<Rightarrow> step_throw e
           | Inr body \<Rightarrow> step_bind (perform StAuditSuccess (gs_audit_success g context body)) (\<lambda>_. step_return body))
     else (case gs_audit_before g of
             None \<Rightarrow> step_throw (gateway_failure ''AUDIT_UNAVAILABLE'' 503 ''Tool audit is unavailable.'')
           | Some before \<Rightarrow>
               step_bind (perform StAuditBefore (before context)) (\<lambda>_.
               gateway_dispatch g race r context claim lease))))))))"

datatype 'b response = Answered 'b | Refused problem

text \<open>The \<open>catch\<close> block and, for every outcome, the \<open>finally\<close> block.\<close>

definition gateway_catch :: "('w, 'v) gateway_stages \<Rightarrow> 'v gateway_request \<Rightarrow> failure \<Rightarrow> ('w, 'v) call \<Rightarrow>
    'b response \<times> ('w, 'v) call" where
  "gateway_catch g r cause s =
     (let e = normalized_error cause;
          s1 = (case gw_claim s of
                  Some claim \<Rightarrow> if gw_started s then s else ignoring (perform (StFail False) (gs_fail g claim False)) s
                | None \<Rightarrow> s);
          s2 = ignoring (perform StAuditFailure (gs_audit_failure g r e (gw_context s1))) s1
      in (Refused (gs_serialize g e (correlation_id r)), s2))"

definition gateway_finally :: "('w, 'v) gateway_stages \<Rightarrow> ('w, 'v) call \<Rightarrow> ('w, 'v) call" where
  "gateway_finally g s = (case gw_lease s of None \<Rightarrow> s | Some lease \<Rightarrow> perform_release g lease s)"

text \<open>A reconciliation that the response did not wait for.\<close>

definition gateway_background :: "('w, 'v) gateway_stages \<Rightarrow> 'v gateway_request \<Rightarrow> ('w, 'v) call \<Rightarrow> ('w, 'v) call" where
  "gateway_background g r s =
     (case (gw_settled s, gw_context s, gw_claim s) of
        (Some (lease, settled), Some context, Some claim) \<Rightarrow>
          snd (gateway_reconcile g r context claim settled (perform_release g lease (s\<lparr>gw_settled := None\<rparr>)))
      | _ \<Rightarrow> s)"

definition new_call :: "'w \<Rightarrow> ('w, 'v) call" where
  "new_call w = \<lparr>rn_world = w, rn_log = [], gw_lease = None, gw_claim = None, gw_context = None, gw_started = False,
     gw_settled = None\<rparr>"

definition gateway_execute :: "('w, 'v) gateway_stages \<Rightarrow> race \<Rightarrow> 'v gateway_request \<Rightarrow> 'w \<Rightarrow>
    'v envelope response \<times> ('w, 'v) call" where
  "gateway_execute g race r w =
     (case (case gateway_body g race r (new_call w) of
              (Inr body, s) \<Rightarrow> (Answered body, s)
            | (Inl cause, s) \<Rightarrow> gateway_catch g r cause s)
      of (response, s) \<Rightarrow> (response, gateway_background g r (gateway_finally g s)))"

subsection \<open>\<open>prepare\<close> and \<open>submitApproval\<close>\<close>

definition gateway_prepare :: "('w, 'v) gateway_stages \<Rightarrow> 'v gateway_request \<Rightarrow> 'w \<Rightarrow>
    'v response \<times> ('w, 'v) call" where
  "gateway_prepare g r w =
     (case (case step_bind (gateway_begin g r) (\<lambda>(context, lease).
                   step_bind (check_aborted g lease) (\<lambda>_. perform StPrepare (gs_approval_prepare g context))) (new_call w) of
              (Inr body, s) \<Rightarrow> (Answered body, s)
            | (Inl cause, s) \<Rightarrow> gateway_catch g r cause s)
      of (response, s) \<Rightarrow> (response, gateway_finally g s))"

definition gateway_submit :: "('w, 'v) gateway_stages \<Rightarrow> 'v gateway_request \<Rightarrow> 'v \<Rightarrow> 'w \<Rightarrow>
    'v response \<times> ('w, 'v) call" where
  "gateway_submit g r approval w =
     (case (case step_bind (gateway_begin g r) (\<lambda>(context, lease).
                   step_bind (check_aborted g lease) (\<lambda>_. perform StSubmit (gs_approval_submit g context approval))) (new_call w) of
              (Inr body, s) \<Rightarrow> (Answered body, s)
            | (Inl cause, s) \<Rightarrow> gateway_catch g r cause s)
      of (response, s) \<Rightarrow> (response, gateway_finally g s))"

end
