(* ===== verification/ToolGatewayProperties.thy ===== *)
theory ToolGatewayProperties
  imports ToolGateway
begin

text \<open>
  The gateway for arbitrary stages: which calls of stages an execution can make, in which order, and
  what happens to the lease and to the idempotency claim on every path. The proofs use triples with
  one postcondition for a return and one for a throw.
\<close>

subsection \<open>Logs\<close>

lemma valid_check_aborted [triples]: "(\<And>s. P s \<Longrightarrow> Q () s) \<Longrightarrow> (\<And>s. P s \<Longrightarrow> E s) \<Longrightarrow> valid P (check_aborted g lease) Q E"
  by (simp add: valid_def check_aborted_def)

text \<open>What has to succeed, in this order, before a handler runs.\<close>

definition gates :: "stage list" where
  "gates = [StPrincipal, StClient, StDelegation, StCatalog, StInput, StAuthorization, StBudget, StApproval, StClaim,
     StAuditBefore]"

definition releases :: "('w, 'v) call \<Rightarrow> nat" where
  "releases s = length (filter (\<lambda>e. fst e = StRelease) (rn_log s))"

text \<open>Between two gates: the first \<open>k\<close> of them have passed, nothing else has happened.\<close>

definition before_gate :: "nat \<Rightarrow> bool \<Rightarrow> bool \<Rightarrow> ('w, 'v) call \<Rightarrow> bool" where
  "before_gate k held claimed s \<longleftrightarrow> rn_log s = passed (take k gates) \<and> \<not> gw_started s \<and> gw_settled s = None
     \<and> (gw_lease s \<noteq> None \<longleftrightarrow> held) \<and> (gw_claim s \<noteq> None \<longleftrightarrow> claimed) \<and> (held \<longrightarrow> gw_context s \<noteq> None)"

text \<open>A call that threw before the handler: what it holds is what the log says it was given.\<close>

definition stopped :: "('w, 'v) call \<Rightarrow> bool" where
  "stopped s \<longleftrightarrow> \<not> gw_started s \<and> gw_settled s = None \<and> stages s \<subseteq> set gates \<union> {StPrepare, StSubmit, StAuditSuccess}
     \<and> (gw_lease s \<noteq> None \<longleftrightarrow> (StBudget, True) \<in> set (rn_log s))
     \<and> (gw_claim s \<noteq> None \<longleftrightarrow> (StClaim, True) \<in> set (rn_log s))"

lemma nth_gates: "k < 10 \<Longrightarrow> take (Suc k) gates = take k gates @ [gates ! k]"
  by (rule take_Suc_conv_app_nth) (simp add: gates_def)

lemma gates_le: "set (take k gates) \<subseteq> set gates"
  by (rule set_take_subset)

lemma gate_position: "StBudget \<in> set (take k gates) \<longleftrightarrow> 7 \<le> k" "StClaim \<in> set (take k gates) \<longleftrightarrow> 9 \<le> k"
  using nth_in_take [of gates 6 k] nth_in_take [of gates 8 k] by (auto simp: gates_def)

lemma before_gate_stopped:
  assumes "before_gate k held claimed s" "held \<longleftrightarrow> 7 \<le> k" "claimed \<longleftrightarrow> 9 \<le> k"
  shows "stopped s"
proof -
  have log: "rn_log s = passed (take k gates)" using assms(1) by (simp add: before_gate_def)
  have "(st, True) \<in> set (rn_log s) \<longleftrightarrow> st \<in> set (take k gates)" for st
    unfolding log by (auto simp: passed_def)
  moreover have "stages s \<subseteq> set gates" unfolding log stages_passed by (rule gates_le)
  ultimately show ?thesis using assms by (auto simp: before_gate_def stopped_def gate_position)
qed

text \<open>The gate itself: it passes, or the call stops.\<close>

lemma perform_gate:
  assumes "k < 10" "st = gates ! k" "held \<longleftrightarrow> 7 \<le> k" "claimed \<longleftrightarrow> 9 \<le> k"
  shows "valid (before_gate k held claimed) (perform st f) (\<lambda>_. before_gate (Suc k) held claimed) stopped"
proof (rule valid_perform)
  fix s :: "('w, 'v) call" and w
  assume s: "before_gate k held claimed s"
  then show "before_gate (Suc k) held claimed (s\<lparr>rn_world := w, rn_log := rn_log s @ [(st, True)]\<rparr>)"
    using assms by (simp add: before_gate_def nth_gates passed_append) (simp add: passed_def)
  have "stopped s" by (rule before_gate_stopped [OF s assms(3,4)])
  moreover have "st \<in> set gates" unfolding assms(2) by (rule nth_mem) (use assms(1) in \<open>simp add: gates_def\<close>)
  ultimately show "stopped (s\<lparr>rn_world := w, rn_log := rn_log s @ [(st, False)]\<rparr>)"
    by (auto simp: stopped_def)
qed

subsection \<open>\<open>authorize\<close>\<close>

lemma gate_bind:
  "k < 10 \<Longrightarrow> st = gates ! k \<Longrightarrow> held \<longleftrightarrow> 7 \<le> k \<Longrightarrow> claimed \<longleftrightarrow> 9 \<le> k \<Longrightarrow> k' = Suc k \<Longrightarrow>
   (\<And>a. valid (before_gate k' held claimed) (m a) Q stopped) \<Longrightarrow>
   valid (before_gate k held claimed) (step_bind (perform st f) m) Q stopped"
  by (simp add: valid_bind [OF perform_gate])

lemma gateway_authorize_gates:
  "valid (before_gate 0 False False) (gateway_authorize g r) (\<lambda>_. before_gate 7 False False) stopped"
proof -
  have not_found: "valid (before_gate 4 False False) (step_throw e) Q stopped" for e Q
    by (rule valid_throw) (erule before_gate_stopped, simp_all)
  show ?thesis
    unfolding gateway_authorize_def Let_def
    apply (rule gate_bind [where k = 0 and k' = 1], (simp_all add: gates_def)[5])
    apply (rule gate_bind [where k = 1 and k' = 2], (simp_all add: gates_def)[5])
    apply (rule gate_bind [where k = 2 and k' = 3], (simp_all add: gates_def)[5])
    apply (rule gate_bind [where k = 3 and k' = 4], (simp_all add: gates_def)[5])
    apply (simp split: option.split, intro conjI impI allI, rule not_found)
    apply (rule gate_bind [where k = 4 and k' = 5], (simp_all add: gates_def)[5])
    apply (rule gate_bind [where k = 5 and k' = 6], (simp_all add: gates_def)[5])
    apply (rule gate_bind [where k = 6 and k' = 7], (simp_all add: gates_def)[5])
    by (rule valid_return)
qed

lemma gateway_begin_gates:
  "valid (before_gate 0 False False) (gateway_begin g r) (\<lambda>_. before_gate 7 True False) stopped"
  unfolding gateway_begin_def split_beta
  by (rule valid_bind [OF gateway_authorize_gates], rule valid_bind [where Q = "\<lambda>_. before_gate 7 True False"],
      rule valid_modify, simp add: before_gate_def, rule valid_return)

subsection \<open>After the dispatch\<close>

definition late_stages :: "stage set" where
  "late_stages = {StOutput, StRedact, StComplete, StAuditSuccess, StFail True}"

text \<open>The log is \<open>done\<close> followed by steps of the reconciliation; the handler owns the lease.\<close>

definition reconciling :: "(stage \<times> bool) list \<Rightarrow> ('w, 'v) call \<Rightarrow> bool" where
  "reconciling past s \<longleftrightarrow> (\<exists>rest. rn_log s = past @ rest \<and> fst ` set rest \<subseteq> late_stages) \<and> gw_started s
     \<and> gw_lease s = None \<and> gw_settled s = None"

definition completed :: "('w, 'v) call \<Rightarrow> bool" where
  "completed s \<longleftrightarrow> (StComplete, True) \<in> set (rn_log s)"

definition retained :: "('w, 'v) call \<Rightarrow> bool" where
  "retained s \<longleftrightarrow> (\<exists>b. (StFail True, b) \<in> set (rn_log s))"

definition audited :: "('w, 'v) call \<Rightarrow> bool" where
  "audited s \<longleftrightarrow> (StAuditSuccess, True) \<in> set (rn_log s)"

lemma reconciling_perform: "reconciling past s \<Longrightarrow> st \<in> late_stages \<Longrightarrow>
    reconciling past (s\<lparr>rn_world := w, rn_log := rn_log s @ [(st, b)]\<rparr>)"
  by (auto simp: reconciling_def)

lemma retain_triple:
  "valid (reconciling past)
     (step_catch (step_bind (perform (StFail True) f) (\<lambda>_. step_throw e)) (\<lambda>_. step_throw e))
     Q (\<lambda>s. reconciling past s \<and> retained s)"
proof (rule valid_catch)
  show "valid (reconciling past) (step_bind (perform (StFail True) f) (\<lambda>_. step_throw e)) Q
      (\<lambda>s. reconciling past s \<and> retained s)"
    by (rule valid_bind [where Q = "\<lambda>_ s. reconciling past s \<and> retained s"], rule valid_perform)
       (auto simp: retained_def late_stages_def intro: reconciling_perform valid_throw)
qed (rule valid_throw)

lemma gateway_reconcile_triple:
  "valid (reconciling past) (gateway_reconcile g r context claim settled)
     (\<lambda>_ s. reconciling past s \<and> completed s \<and> audited s) (\<lambda>s. reconciling past s \<and> retained s)"
proof (cases settled)
  case (Inl e)
  then show ?thesis by (simp add: gateway_reconcile_def Let_def retain_triple)
next
  case (Inr dispatched)
  show ?thesis
    unfolding gateway_reconcile_def Let_def Inr sum.case
  proof (rule valid_catch [OF _ retain_triple])
    note late_simps = reconciling_perform late_stages_def completed_def audited_def
    show "valid (reconciling past)
       (step_bind (perform StOutput (gs_output g (ex_descriptor context) dispatched)) (\<lambda>validated.
         step_bind (perform StRedact (gs_redact g context validated)) (\<lambda>data.
           step_bind (perform StComplete (gs_complete g claim (body data))) (\<lambda>_.
             step_bind (perform StAuditSuccess (gs_audit_success g context (body data))) (\<lambda>_. step_return (body data))))))
       (\<lambda>_ s. reconciling past s \<and> completed s \<and> audited s) (reconciling past)" for body :: "'b \<Rightarrow> 'b envelope"
      apply (rule valid_bind [where Q = "\<lambda>_. reconciling past"], rule valid_perform, simp add: late_simps, simp add: late_simps)
      apply (rule valid_bind [where Q = "\<lambda>_. reconciling past"], rule valid_perform, simp add: late_simps, simp add: late_simps)
      apply (rule valid_bind [where Q = "\<lambda>_ s. reconciling past s \<and> completed s"], rule valid_perform, simp add: late_simps, simp add: late_simps)
      apply (rule valid_bind [where Q = "\<lambda>_ s. reconciling past s \<and> completed s \<and> audited s"], rule valid_perform,
          simp add: late_simps, simp add: late_simps)
      by (rule valid_return)
  qed
qed

subsection \<open>The body of \<open>execute\<close>\<close>

definition handler_done :: "('w, 'v) call \<Rightarrow> bool" where
  "handler_done s \<longleftrightarrow> (\<exists>b. reconciling (passed gates @ [(StDispatch, b), (StRelease, True)]) s)"

definition handler_pending :: "('w, 'v) call \<Rightarrow> bool" where
  "handler_pending s \<longleftrightarrow> (\<exists>b. rn_log s = passed gates @ [(StDispatch, b)]) \<and> gw_started s \<and> gw_lease s = None
     \<and> gw_settled s \<noteq> None \<and> gw_claim s \<noteq> None \<and> gw_context s \<noteq> None"

lemma gateway_dispatch_triple:
  "valid (before_gate 10 True True) (gateway_dispatch g race r context claim lease)
     (\<lambda>_ s. handler_done s \<and> completed s \<and> audited s) (\<lambda>s. (handler_done s \<and> retained s) \<or> handler_pending s)"
proof -
  have "case gateway_dispatch g race r context claim lease s of
          (Inr _, s') \<Rightarrow> handler_done s' \<and> completed s' \<and> audited s'
        | (Inl _, s') \<Rightarrow> (handler_done s' \<and> retained s') \<or> handler_pending s'"
    if s: "before_gate 10 True True s" for s
  proof -
    let ?start = "s\<lparr>gw_started := True, gw_lease := None\<rparr>"
    obtain w b where handled: "perform StDispatch (gs_dispatch g context) ?start =
        (fst (gs_dispatch g context (rn_world s)), ?start\<lparr>rn_world := w, rn_log := rn_log s @ [(StDispatch, b)]\<rparr>)"
      using perform_result [of StDispatch "gs_dispatch g context" ?start] by auto
    have log: "rn_log s = passed gates" using s by (simp add: before_gate_def gates_def)
    show ?thesis
    proof (cases "gs_lease_aborted g lease (rn_world s) \<or> race = AbortFirst")
      case True
      then show ?thesis using s log handled
        by (auto simp: gateway_dispatch_def Let_def handler_pending_def before_gate_def)
    next
      case False
      let ?released = "perform_release g lease (?start\<lparr>rn_world := w, rn_log := rn_log s @ [(StDispatch, b)]\<rparr>)"
      have "reconciling (passed gates @ [(StDispatch, b), (StRelease, True)]) ?released"
        using s log by (simp add: reconciling_def perform_release_def before_gate_def)
      moreover have "gateway_dispatch g race r context claim lease s =
          gateway_reconcile g r context claim (fst (gs_dispatch g context (rn_world s))) ?released"
        using False handled by (simp add: gateway_dispatch_def Let_def)
      moreover note gateway_reconcile_triple [of "passed gates @ [(StDispatch, b), (StRelease, True)]" g r "context" claim
          "fst (gs_dispatch g context (rn_world s))"]
      ultimately show ?thesis
        unfolding valid_def handler_done_def by (fastforce split: sum.splits prod.splits)
    qed
  qed
  then show ?thesis by (simp add: valid_def)
qed

lemma before_gate_claim:
  "before_gate 9 True False s \<Longrightarrow> before_gate 9 True True (s\<lparr>gw_claim := Some claim, gw_context := Some context\<rparr>)"
  by (simp add: before_gate_def)

lemma gateway_body_triple:
  "valid (before_gate 0 False False) (gateway_body g race r)
     (\<lambda>_ s. audited s \<and> (stopped s \<or> (handler_done s \<and> completed s)))
     (\<lambda>s. stopped s \<or> (handler_done s \<and> retained s) \<or> handler_pending s)" (is "valid _ _ ?Q ?E")
proof -
  have replay: "valid (before_gate 9 True True)
      (step_bind (perform StAuditSuccess f) (\<lambda>_. step_return (body :: 'b envelope))) ?Q ?E" for f body
  proof (rule valid_bind [where Q = "\<lambda>_ s. audited s \<and> stopped s"])
    have "before_gate 9 True True s \<Longrightarrow> stopped (s\<lparr>rn_world := w, rn_log := rn_log s @ [(StAuditSuccess, b)]\<rparr>)" for s :: "('a, 'b) call" and w b
      using before_gate_stopped [of 9 True True s] by (auto simp: stopped_def)
    then show "valid (before_gate 9 True True) (perform StAuditSuccess f) (\<lambda>_ s. audited s \<and> stopped s) ?E"
      by (intro valid_perform) (auto simp: audited_def)
  qed (rule valid_return, simp)
  have throw: "valid (before_gate 9 True True) (step_throw e) ?Q ?E" for e
    by (rule valid_throw) (auto intro: before_gate_stopped)
  have gate9: "valid (before_gate 9 True True) (perform StAuditBefore f) (\<lambda>_. before_gate 10 True True) ?E" for f
    using perform_gate [of 9 StAuditBefore True True f] by (rule valid_weaken) (simp_all add: gates_def)
  have dispatch: "valid (before_gate 10 True True) (gateway_dispatch g race r ctx claim lease) ?Q ?E" for ctx claim lease
    by (rule valid_weaken [OF gateway_dispatch_triple]) auto
  have tail: "valid (before_gate 9 True True)
      (if gc_replay claim \<noteq> NoReplay
       then (case replay_envelope (gc_replay claim) (ex_descriptor ctx) of
               Inl e \<Rightarrow> step_throw e
             | Inr body \<Rightarrow> step_bind (perform StAuditSuccess (gs_audit_success g ctx body)) (\<lambda>_. step_return body))
       else (case gs_audit_before g of
               None \<Rightarrow> step_throw (gateway_failure ''AUDIT_UNAVAILABLE'' 503 ''Tool audit is unavailable.'')
             | Some before \<Rightarrow>
                 step_bind (perform StAuditBefore (before ctx)) (\<lambda>_.
                 gateway_dispatch g race r ctx claim lease))) ?Q ?E" for claim ctx lease
    by (auto split: sum.split option.split intro: replay throw valid_bind [OF gate9 dispatch])
  have first: "valid (before_gate 0 False False) (gateway_begin g r) (\<lambda>_. before_gate 7 True False) ?E"
    by (rule valid_weaken [OF gateway_begin_gates]) auto
  have approval: "valid (before_gate 7 True False) (perform StApproval f) (\<lambda>_. before_gate 8 True False) ?E" for f
    using perform_gate [of 7 StApproval True False f] by (rule valid_weaken) (simp_all add: gates_def)
  have claims: "valid (before_gate 8 True False) (perform StClaim f) (\<lambda>_. before_gate 9 True False) ?E" for f
    using perform_gate [of 8 StClaim True False f] by (rule valid_weaken) (simp_all add: gates_def)
  show ?thesis
    unfolding gateway_body_def Let_def split_beta
    apply (rule valid_bind [OF first])
    apply (rule valid_bind [OF approval])
    apply (rule valid_bind [where Q = "\<lambda>_. before_gate 8 True False"], rule valid_modify, simp add: before_gate_def)
    apply (rule valid_bind [OF claims])
    apply (rule valid_bind [where Q = "\<lambda>_. before_gate 9 True True"], rule valid_modify, erule before_gate_claim)
    apply (rule valid_bind [where Q = "\<lambda>_. before_gate 9 True True"], rule valid_check_aborted)
      apply assumption
     apply (rule disjI1, erule before_gate_stopped, simp, simp)
    by (rule tail)
qed

subsection \<open>The whole call\<close>

text \<open>The two shapes of a log: no handler ran, or the handler ran after all gates.\<close>

definition quiet_log :: "(stage \<times> bool) list \<Rightarrow> bool" where
  "quiet_log l \<longleftrightarrow> StDispatch \<notin> fst ` set l \<and> (\<forall>b. (StFail True, b) \<notin> set l)
     \<and> length (filter (\<lambda>e. fst e = StRelease) l) = (if (StBudget, True) \<in> set l then 1 else 0)"

definition handled_log :: "(stage \<times> bool) list \<Rightarrow> bool" where
  "handled_log l \<longleftrightarrow> (\<exists>b rest. l = passed gates @ (StDispatch, b) # rest
     \<and> fst ` set rest \<subseteq> late_stages \<union> {StRelease, StAuditFailure}
     \<and> length (filter (\<lambda>e. fst e = StRelease) rest) = 1
     \<and> ((StComplete, True) \<in> set rest \<or> (\<exists>b. (StFail True, b) \<in> set rest)))"

lemma late_release: "fst ` set rest \<subseteq> late_stages \<Longrightarrow> filter (\<lambda>e. fst e = StRelease) rest = []"
  by (auto simp: late_stages_def filter_empty_conv)

lemma passed_gates_simps: "(StComplete, b) \<notin> set (passed gates)" "(StFail c, b) \<notin> set (passed gates)"
    "(StAuditSuccess, b) \<notin> set (passed gates)" "filter (\<lambda>e. fst e = StRelease) (passed gates) = []"
    "(StBudget, True) \<in> set (passed gates)"
  by (simp_all add: passed_def gates_def)

lemma stopped_no_release: "stopped s \<Longrightarrow> filter (\<lambda>e. fst e = StRelease) (rn_log s) = []"
  by (auto simp: stopped_def gates_def filter_empty_conv)

lemma finally_stopped:
  assumes "stopped s" "rn_log t = rn_log s @ later" "fst ` set later \<subseteq> {StFail False, StAuditFailure}"
    "gw_lease t = gw_lease s" "gw_settled t = None"
  shows "quiet_log (rn_log (gateway_background g r (gateway_finally g t)))"
proof -
  have later: "filter (\<lambda>e. fst e = StRelease) later = []" "StDispatch \<notin> fst ` set later" "(StBudget, True) \<notin> set later"
      "\<And>b. (StFail True, b) \<notin> set later"
    using assms(3) by (auto simp: filter_empty_conv)
  have quiet: "StDispatch \<notin> stages s" "\<And>b. (StFail True, b) \<notin> set (rn_log s)"
    using assms(1) by (auto simp: stopped_def gates_def)
  have "gateway_background g r u = u" if "gw_settled u = None" for u
    using that by (simp add: gateway_background_def)
  then show ?thesis
    using assms quiet later stopped_no_release [OF assms(1)]
    by (cases "gw_lease s") (auto simp: gateway_finally_def perform_release_def quiet_log_def stopped_def)
qed

lemma handled_of_done:
  assumes "handler_done s" "completed s \<or> retained s" "rn_log t = rn_log s @ later" "fst ` set later \<subseteq> {StAuditFailure}"
  shows "handled_log (rn_log t)"
proof -
  obtain b rest where log: "rn_log s = passed gates @ (StDispatch, b) # (StRelease, True) # rest" "fst ` set rest \<subseteq> late_stages"
    using assms(1) by (auto simp: handler_done_def reconciling_def)
  have "(StComplete, True) \<in> set rest \<or> (\<exists>b. (StFail True, b) \<in> set rest)"
    using assms(2) log by (auto simp: completed_def retained_def passed_gates_simps)
  moreover have "filter (\<lambda>e. fst e = StRelease) later = []" using assms(4) by (auto simp: filter_empty_conv)
  ultimately show ?thesis
    unfolding handled_log_def
    by (intro exI [of _ b] exI [of _ "(StRelease, True) # rest @ later"])
       (use log assms(3,4) late_release [OF log(2)] in auto)
qed

lemma handled_of_pending:
  assumes "handler_pending s" "rn_log t = rn_log s @ later" "fst ` set later \<subseteq> {StAuditFailure}"
    "gw_settled t = gw_settled s" "gw_claim t = gw_claim s" "gw_context t = gw_context s" "gw_started t" "gw_lease t = None"
  shows "handled_log (rn_log (gateway_background g r t))"
proof -
  obtain lease settled ctx claim where bg: "gw_settled t = Some (lease, settled)" "gw_context t = Some ctx" "gw_claim t = Some claim"
    using assms by (auto simp: handler_pending_def)
  let ?t = "perform_release g lease (t\<lparr>gw_settled := None\<rparr>)"
  obtain b where past: "rn_log ?t = passed gates @ [(StDispatch, b)] @ later @ [(StRelease, True)]"
    using assms(1,2) by (auto simp: handler_pending_def perform_release_def)
  have "reconciling (rn_log ?t) ?t" using assms(7,8) by (simp add: reconciling_def perform_release_def)
  note triple = gateway_reconcile_triple [of "rn_log ?t" g r ctx claim settled]
  let ?u = "gateway_background g r t"
  have "reconciling (rn_log ?t) ?u \<and> (completed ?u \<or> retained ?u)"
    using triple \<open>reconciling (rn_log ?t) ?t\<close> bg
    by (cases "gateway_reconcile g r ctx claim settled ?t" rule: prod.exhaust, cases "fst (gateway_reconcile g r ctx claim settled ?t)")
       (auto simp: gateway_background_def dest: validD_Inl validD_Inr)
  then obtain rest where log: "rn_log ?u = rn_log ?t @ rest" "fst ` set rest \<subseteq> late_stages" and settled: "completed ?u \<or> retained ?u"
    by (auto simp: reconciling_def)
  have later: "filter (\<lambda>e. fst e = StRelease) later = []" "(StComplete, True) \<notin> set later" "\<And>b. (StFail True, b) \<notin> set later"
    using assms(3) by (auto simp: filter_empty_conv)
  have "(StComplete, True) \<in> set rest \<or> (\<exists>b. (StFail True, b) \<in> set rest)"
    using settled log(1) past later by (auto simp: completed_def retained_def passed_gates_simps)
  then show ?thesis
    unfolding handled_log_def
    by (intro exI [of _ b] exI [of _ "later @ (StRelease, True) # rest"])
       (use log past later assms(3) late_release [OF log(2)] in auto)
qed

lemma gateway_catch_log:
  fixes g :: "('w, 'v) gateway_stages"
  assumes "gateway_catch g r cause s = (resp, t)"
  obtains later where "rn_log t = rn_log s @ later"
    "fst ` set later \<subseteq> {StFail False, StAuditFailure}" "gw_started s \<longrightarrow> fst ` set later \<subseteq> {StAuditFailure}"
    "gw_lease t = gw_lease s" "gw_claim t = gw_claim s" "gw_context t = gw_context s" "gw_settled t = gw_settled s"
    "gw_started t = gw_started s"
proof -
  note ignored = ignoring_perform
  let ?s1 = "case gw_claim s of
      Some claim \<Rightarrow> if gw_started s then s else ignoring (perform (StFail False) (gs_fail g claim False)) s | None \<Rightarrow> s"
  obtain l1 w1 where s1: "?s1 = s\<lparr>rn_world := w1, rn_log := rn_log s @ l1\<rparr>" "fst ` set l1 \<subseteq> {StFail False}" "gw_started s \<Longrightarrow> l1 = []"
  proof (cases "gw_claim s = None \<or> gw_started s")
    case True
    then have "?s1 = s" by (auto split: option.splits)
    then show thesis by (intro that [of "[]" "rn_world s"]) simp_all
  next
    case False
    then obtain claim where "gw_claim s = Some claim" "\<not> gw_started s" by auto
    then obtain w b where "?s1 = s\<lparr>rn_world := w, rn_log := rn_log s @ [(StFail False, b)]\<rparr>"
      using ignored [of "StFail False" "gs_fail g claim False" s] by auto
    then show thesis using \<open>\<not> gw_started s\<close> by (intro that [of "[(StFail False, b)]" w]) simp_all
  qed
  obtain w2 b where "t = ?s1\<lparr>rn_world := w2, rn_log := rn_log ?s1 @ [(StAuditFailure, b)]\<rparr>"
    using ignored [of StAuditFailure _ ?s1] assms by (force simp: gateway_catch_def Let_def)
  then have "t = s\<lparr>rn_world := w2, rn_log := rn_log s @ l1 @ [(StAuditFailure, b)]\<rparr>"
    unfolding s1(1) by simp
  then show thesis using s1 by (intro that [of "l1 @ [(StAuditFailure, b)]"]) auto
qed

lemma before_gate_new: "before_gate 0 False False (new_call w)"
  by (simp add: before_gate_def new_call_def passed_def)

lemma gateway_execute_log:
  fixes g :: "('a, 'b) gateway_stages"
  shows "quiet_log (rn_log (snd (gateway_execute g race r w))) \<or> handled_log (rn_log (snd (gateway_execute g race r w)))"
proof -
  obtain res s where body: "gateway_body g race r (new_call w) = (res, s)" by fastforce
  show ?thesis
  proof (cases res)
    case (Inr answer)
    then have result: "snd (gateway_execute g race r w) = gateway_background g r (gateway_finally g s)"
      using body by (simp add: gateway_execute_def)
    from validD_Inr [OF gateway_body_triple before_gate_new body [unfolded Inr]] consider "stopped s" | "handler_done s" "completed s"
      by blast
    then show ?thesis
    proof cases
      case 1
      then have "gw_settled s = None" by (simp add: stopped_def)
      then show ?thesis using finally_stopped [OF 1, of s "[]"] result by simp
    next
      case 2
      then have "gateway_background g r (gateway_finally g s) = s"
        by (auto simp: handler_done_def reconciling_def gateway_finally_def gateway_background_def)
      then show ?thesis using handled_of_done [of s s "[]"] 2 result by simp
    qed
  next
    case (Inl cause)
    obtain resp t where t: "gateway_catch g r cause s = (resp :: 'b envelope response, t)" by fastforce
    then have result: "snd (gateway_execute g race r w) = gateway_background g r (gateway_finally g t)"
      using body Inl by (simp add: gateway_execute_def)
    obtain later where later: "rn_log t = rn_log s @ later" "fst ` set later \<subseteq> {StFail False, StAuditFailure}"
        "gw_started s \<longrightarrow> fst ` set later \<subseteq> {StAuditFailure}" "gw_lease t = gw_lease s" "gw_claim t = gw_claim s"
        "gw_context t = gw_context s" "gw_settled t = gw_settled s" "gw_started t = gw_started s"
      using t by (rule gateway_catch_log)
    from validD_Inl [OF gateway_body_triple before_gate_new body [unfolded Inl]]
    consider "stopped s" | "handler_done s" "retained s" | "handler_pending s" by blast
    then show ?thesis
    proof cases
      case 1
      then show ?thesis using finally_stopped [OF 1 later(1,2,4)] later(7) result by (simp add: stopped_def)
    next
      case 2
      then have started: "gw_started s" "gw_lease s = None" "gw_settled s = None"
        by (auto simp: handler_done_def reconciling_def)
      then have "gateway_background g r (gateway_finally g t) = t"
        using later by (simp add: gateway_finally_def gateway_background_def)
      then show ?thesis using handled_of_done [OF 2(1) disjI2 [OF 2(2)] later(1) mp [OF later(3) started(1)]] result by simp
    next
      case 3
      then have started: "gw_started s" "gw_lease s = None" by (auto simp: handler_pending_def)
      then have "gateway_finally g t = t" using later by (simp add: gateway_finally_def)
      then show ?thesis using handled_of_pending [OF 3 later(1) mp [OF later(3) started(1)] later(7,5,6)] started later(4,8) result
        by simp
    qed
  qed
qed

lemma gateway_side_log:
  assumes "valid (before_gate 0 False False) m (\<lambda>_. stopped) stopped"
  shows "quiet_log (rn_log (snd (case (case m (new_call w) of
              (Inr body, s) \<Rightarrow> (Answered body, s)
            | (Inl cause, s) \<Rightarrow> gateway_catch g r cause s)
      of (response, s) \<Rightarrow> (response, gateway_finally g s))))"
proof -
  have quiet: "quiet_log (rn_log (gateway_finally g t))"
    if "stopped s" "rn_log t = rn_log s @ later" "fst ` set later \<subseteq> {StFail False, StAuditFailure}"
      "gw_lease t = gw_lease s" "gw_settled t = gw_settled s" for s t :: "('a, 'b) call" and later
  proof -
    have "gw_settled t = None" using that(1,5) by (simp add: stopped_def)
    then have "gateway_background g r (gateway_finally g t) = gateway_finally g t"
      by (auto simp: gateway_background_def gateway_finally_def perform_release_def split: option.splits)
    then show ?thesis using finally_stopped [OF that(1-4), of g r] \<open>gw_settled t = None\<close> by simp
  qed
  obtain res s where run: "m (new_call w) = (res, s)" by fastforce
  show ?thesis
  proof (cases res)
    case (Inr body)
    then have "stopped s" using validD_Inr [OF assms before_gate_new run [unfolded Inr]] by simp
    then show ?thesis using run Inr quiet [of s s "[]"] by simp
  next
    case (Inl cause)
    then have "stopped s" using validD_Inl [OF assms before_gate_new run [unfolded Inl]] by simp
    obtain resp t where t: "gateway_catch g r cause s = (resp :: 'c response, t)" by fastforce
    obtain later where "rn_log t = rn_log s @ later" "fst ` set later \<subseteq> {StFail False, StAuditFailure}"
        "gw_lease t = gw_lease s" "gw_settled t = gw_settled s"
      using t by (rule gateway_catch_log)
    then show ?thesis using run Inl t quiet [OF \<open>stopped s\<close>] by simp
  qed
qed

lemma side_triple:
  assumes "st = StPrepare \<or> st = StSubmit"
  shows "valid (before_gate 0 False False)
    (step_bind (gateway_begin g r) (\<lambda>(ctx, lease). step_bind (check_aborted g lease) (\<lambda>_. perform st (f ctx)))) (\<lambda>_. stopped) stopped"
proof -
  have stop: "stopped s" if "before_gate 7 True False s" for s
    using that by (rule before_gate_stopped) simp_all
  have "before_gate 7 True False s \<Longrightarrow> stopped (s\<lparr>rn_world := w, rn_log := rn_log s @ [(st, b)]\<rparr>)" for s :: "('a, 'b) call" and w b
    using stop [of s] assms by (auto simp: stopped_def)
  then show ?thesis
    unfolding split_beta
    by (intro valid_bind [OF gateway_begin_gates] valid_bind [where Q = "\<lambda>_. before_gate 7 True False"] valid_check_aborted
          valid_perform) (simp_all add: stop)
qed

lemma gateway_execute_answered:
  assumes "gateway_execute g race r w = (Answered body, s)"
  shows "(StAuditSuccess, True) \<in> set (rn_log s)"
proof -
  obtain res t where run: "gateway_body g race r (new_call w) = (res, t)" by fastforce
  show ?thesis
  proof (cases res)
    case (Inr answer)
    then have "audited t" using validD_Inr [OF gateway_body_triple before_gate_new run [unfolded Inr]] by blast
    have "set (rn_log t) \<subseteq> set (rn_log (gateway_finally g t))"
      by (auto simp: gateway_finally_def perform_release_def split: option.splits)
    moreover have "gateway_background g r (gateway_finally g t) = gateway_finally g t"
      using validD_Inr [OF gateway_body_triple before_gate_new run [unfolded Inr]]
      by (auto simp: gateway_background_def gateway_finally_def perform_release_def stopped_def handler_done_def reconciling_def
          split: option.splits)
    ultimately show ?thesis using assms run Inr \<open>audited t\<close> by (auto simp: gateway_execute_def audited_def)
  next
    case (Inl cause)
    then show ?thesis using assms run by (auto simp: gateway_execute_def gateway_catch_def Let_def split: prod.splits)
  qed
qed

subsection \<open>The properties\<close>

text \<open>C1: a handler runs at most once in an execution, and only after authentication of the person and
  of the client, delegation, catalogue, input validation, authorization, budget, approval, idempotency
  claim and the audit of the attempt have all succeeded, once each and in this order, whatever the
  stages do and whenever the call is aborted.\<close>

theorem dispatch_only_after_all_gates:
  assumes "gateway_execute g race r w = (response, s)" "(StDispatch, b) \<in> set (rn_log s)"
  shows "\<exists>rest. rn_log s = passed [StPrincipal, StClient, StDelegation, StCatalog, StInput, StAuthorization, StBudget, StApproval,
      StClaim, StAuditBefore] @ (StDispatch, b) # rest \<and> StDispatch \<notin> fst ` set rest"
proof -
  have "quiet_log (rn_log s) \<or> handled_log (rn_log s)" using gateway_execute_log [of g race r w] assms(1) by simp
  moreover have "\<not> quiet_log (rn_log s)" using assms(2) by (force simp: quiet_log_def)
  ultimately obtain c rest where log: "rn_log s = passed gates @ (StDispatch, c) # rest"
      "fst ` set rest \<subseteq> late_stages \<union> {StRelease, StAuditFailure}"
    by (auto simp: handled_log_def)
  have none: "StDispatch \<notin> fst ` set rest" using log(2) by (auto simp: late_stages_def)
  moreover have "(StDispatch, b) \<notin> set rest" using none by force
  then have "c = b" using assms(2) log(1) by (auto simp: passed_def gates_def)
  ultimately show ?thesis using log(1) by (auto simp: gates_def)
qed

text \<open>C21: the budget lease of a call is released exactly once when the budget granted one and never
  otherwise, by \<open>execute\<close>, \<open>prepare\<close> and \<open>submitApproval\<close>, on every error path and for a handler
  that outlives its response.\<close>

theorem gateway_releases_lease_once:
  fixes g :: "('w, 'v) gateway_stages"
  assumes "s \<in> {snd (gateway_execute g race r w), snd (gateway_prepare g r w), snd (gateway_submit g r approval w)}"
  shows "length (filter (\<lambda>e. fst e = StRelease) (rn_log s)) = (if (StBudget, True) \<in> set (rn_log s) then 1 else 0)"
proof -
  have "quiet_log (rn_log (snd (gateway_prepare g r w)))" "quiet_log (rn_log (snd (gateway_submit g r approval w)))"
    unfolding gateway_prepare_def gateway_submit_def by (rule gateway_side_log, rule side_triple, simp)+
  then have "quiet_log (rn_log s) \<or> handled_log (rn_log s)" using assms gateway_execute_log [of g race r w] by auto
  then show ?thesis
  proof
    assume "handled_log (rn_log s)"
    then obtain b rest where "rn_log s = passed gates @ (StDispatch, b) # rest" "length (filter (\<lambda>e. fst e = StRelease) rest) = 1"
      by (auto simp: handled_log_def)
    then show ?thesis by (simp add: passed_gates_simps)
  qed (simp add: quiet_log_def)
qed

text \<open>C27: an idempotency key is given back for another attempt only when no handler ran; once a handler
  ran, its claim is completed or retained as uncertain, also when the response was an abort.\<close>

theorem claim_settled_after_dispatch:
  assumes "gateway_execute g race r w = (response, s)"
  shows "((StFail False, b) \<in> set (rn_log s) \<longrightarrow> StDispatch \<notin> fst ` set (rn_log s))
    \<and> (StDispatch \<in> fst ` set (rn_log s) \<longrightarrow>
         (StComplete, True) \<in> set (rn_log s) \<or> (\<exists>c. (StFail True, c) \<in> set (rn_log s)))"
proof -
  have "quiet_log (rn_log s) \<or> handled_log (rn_log s)" using gateway_execute_log [of g race r w] assms by simp
  then show ?thesis
  proof
    assume "handled_log (rn_log s)"
    then obtain c rest where log: "rn_log s = passed gates @ (StDispatch, c) # rest"
        "fst ` set rest \<subseteq> late_stages \<union> {StRelease, StAuditFailure}"
        "(StComplete, True) \<in> set rest \<or> (\<exists>b. (StFail True, b) \<in> set rest)"
      by (auto simp: handled_log_def)
    have "(StFail False, b) \<notin> set rest"
    proof
      assume "(StFail False, b) \<in> set rest"
      then have "StFail False \<in> fst ` set rest" by force
      then show False using log(2) by (auto simp: late_stages_def)
    qed
    then show ?thesis using log(1,3) by (auto simp: passed_gates_simps)
  qed (auto simp: quiet_log_def)
qed

lemma gateway_execute_refused:
  "gateway_execute g race r w = (Refused p, s) \<Longrightarrow> \<exists>e. p = gs_serialize g e (correlation_id r)"
  by (auto simp: gateway_execute_def gateway_catch_def Let_def split: prod.splits sum.splits)

lemma bounded_text_length: "length (bounded_text v fallback maximum) \<le> maximum"
  by (simp add: bounded_text_def Let_def)

lemma bounded_text_nonempty: "fallback \<noteq> [] \<Longrightarrow> 0 < maximum \<Longrightarrow> bounded_text v fallback maximum \<noteq> []"
  by (simp add: bounded_text_def Let_def)

text \<open>with the safe serializer every answer of \<open>execute\<close> was audited as a success, and every
  problem has a machine code of at most 64 characters, an HTTP error status, and non-empty texts of at
  most 120, 512 and 128 characters; an error that no stage declared becomes \<open>INTERNAL_ERROR\<close>, 500,
  with fixed texts.\<close>

theorem gateway_response_bounded:
  assumes "gs_serialize g = safe_serialize" "gateway_execute g race r w = (response, s)"
  shows "(case response of
      Answered body \<Rightarrow> (StAuditSuccess, True) \<in> set (rn_log s)
    | Refused p \<Rightarrow> is_problem_code (pb_code p) \<and> 400 \<le> pb_status p \<and> pb_status p \<le> 599
        \<and> pb_title p \<noteq> [] \<and> length (pb_title p) \<le> 120 \<and> pb_detail p \<noteq> [] \<and> length (pb_detail p) \<le> 512
        \<and> pb_correlation p \<noteq> [] \<and> length (pb_correlation p) \<le> 128)
    \<and> safe_serialize (normalized_error OtherException) c =
        \<lparr>pb_type = ''urn:k-nex:problem:internal-error'', pb_title = ''Tool request failed.'', pb_status = 500,
         pb_detail = ''Tool request failed.'', pb_code = ''INTERNAL_ERROR'', pb_correlation = bounded_text c ''unavailable'' 128\<rparr>"
proof -
  have code: "is_problem_code ''INTERNAL_ERROR''" by code_simp
  have problem: "is_problem_code (pb_code p) \<and> 400 \<le> pb_status p \<and> pb_status p \<le> 599
        \<and> pb_title p \<noteq> [] \<and> length (pb_title p) \<le> 120 \<and> pb_detail p \<noteq> [] \<and> length (pb_detail p) \<le> 512
        \<and> pb_correlation p \<noteq> [] \<and> length (pb_correlation p) \<le> 128" if "p = safe_serialize e c" for p e c
    unfolding that safe_serialize_def Let_def
    by (simp add: code bounded_text_length bounded_text_nonempty)
  have texts: "map (\<lambda>c. if c = CHR ''_'' then CHR ''-'' else c) (map to_lower ''INTERNAL_ERROR'') = ''internal-error''"
      "bounded_text ''Tool request failed.'' f 120 = ''Tool request failed.''"
      "bounded_text ''Tool request failed.'' f 512 = ''Tool request failed.''" for f
    by code_simp+
  have "safe_serialize (normalized_error OtherException) c =
        \<lparr>pb_type = ''urn:k-nex:problem:internal-error'', pb_title = ''Tool request failed.'', pb_status = 500,
         pb_detail = ''Tool request failed.'', pb_code = ''INTERNAL_ERROR'', pb_correlation = bounded_text c ''unavailable'' 128\<rparr>"
    unfolding safe_serialize_def normalized_error_def Let_def failure.case gateway_error.sel if_P [OF code] texts by simp
  moreover have "case response of
      Answered body \<Rightarrow> (StAuditSuccess, True) \<in> set (rn_log s)
    | Refused p \<Rightarrow> is_problem_code (pb_code p) \<and> 400 \<le> pb_status p \<and> pb_status p \<le> 599
        \<and> pb_title p \<noteq> [] \<and> length (pb_title p) \<le> 120 \<and> pb_detail p \<noteq> [] \<and> length (pb_detail p) \<le> 512
        \<and> pb_correlation p \<noteq> [] \<and> length (pb_correlation p) \<le> 128"
  proof (cases response)
    case (Answered body)
    then show ?thesis using gateway_execute_answered assms(2) by simp
  next
    case (Refused p)
    then obtain e where "p = safe_serialize e (correlation_id r)" using gateway_execute_refused assms by metis
    then show ?thesis using problem Refused by simp
  qed
  ultimately show ?thesis by blast
qed

subsection \<open>Witnesses\<close>

text \<open>Stages that all succeed, over a world that counts the running handlers; the handler may throw.\<close>

definition sample_stages :: "failure + int \<Rightarrow> (int, int) gateway_stages" where
  "sample_stages answer = \<lparr>gs_principal = \<lambda>_ w. (Inr 1, w), gs_client = \<lambda>_ _ w. (Inr 2, w),
     gs_delegation = \<lambda>_ _ _ w. (Inr 3, w), gs_catalog = \<lambda>_ _ _ _ w. (Inr (Some (sample_catalog_tool ''t'' 1 PublicAudience)), w),
     gs_input = \<lambda>_ v w. (Inr v, w), gs_authorization = \<lambda>_ w. (Inr 4, w), gs_budget = \<lambda>_ w. (Inr 5, w + 1),
     gs_release = \<lambda>_ w. w - 1, gs_lease_aborted = \<lambda>_ _. False, gs_caller_aborted = \<lambda>_. False,
     gs_approval_evaluate = \<lambda>_ w. (Inr 6, w), gs_approval_prepare = \<lambda>_ w. (Inr 6, w), gs_approval_submit = \<lambda>_ _ w. (Inr 6, w),
     gs_claim = \<lambda>_ w. (Inr \<lparr>gc_object = 7, gc_context = 7, gc_replay = NoReplay\<rparr>, w),
     gs_complete = \<lambda>_ _ w. (Inr (), w), gs_fail = \<lambda>_ _ w. (Inr (), w), gs_dispatch = \<lambda>_ w. (answer, w),
     gs_output = \<lambda>_ v w. (Inr v, w), gs_redact = \<lambda>_ v w. (Inr v, w), gs_audit_before = Some (\<lambda>_ w. (Inr (), w)),
     gs_audit_success = \<lambda>_ _ w. (Inr (), w), gs_audit_failure = \<lambda>_ _ _ w. (Inr (), w), gs_serialize = safe_serialize\<rparr>"

definition sample_call :: "int gateway_request" where
  "sample_call = \<lparr>gr_correlation = ''c'', gr_tool_id = ''t'', gr_tool_version = 1, gr_surface = Workspace, gr_features = [],
     gr_input = 0\<rparr>"

definition sample_execution :: "failure + int \<Rightarrow> race \<Rightarrow> int envelope response \<times> (int, int) call" where
  "sample_execution answer race = gateway_execute (sample_stages answer) race sample_call 0"

theorem dispatch_only_after_all_gates_witness:
  "\<exists>rest. rn_log (snd (sample_execution (Inr 9) HandlerFirst)) = passed [StPrincipal, StClient, StDelegation, StCatalog, StInput,
     StAuthorization, StBudget, StApproval, StClaim, StAuditBefore] @ (StDispatch, True) # rest \<and> StDispatch \<notin> fst ` set rest"
proof -
  have "(StDispatch, True) \<in> set (rn_log (snd (sample_execution (Inr 9) HandlerFirst)))" by code_simp
  then show ?thesis
    by (intro dispatch_only_after_all_gates [of "sample_stages (Inr 9)" HandlerFirst sample_call 0 "fst (sample_execution (Inr 9) HandlerFirst)"])
       (simp_all add: sample_execution_def)
qed

theorem gateway_releases_lease_once_witness:
  "length (filter (\<lambda>e. fst e = StRelease) (rn_log (snd (sample_execution (Inr 9) AbortFirst)))) = 1"
proof -
  have "(StBudget, True) \<in> set (rn_log (snd (sample_execution (Inr 9) AbortFirst)))" by code_simp
  then show ?thesis
    using gateway_releases_lease_once [of "snd (sample_execution (Inr 9) AbortFirst)" "sample_stages (Inr 9)" AbortFirst sample_call 0 0]
    by (simp add: sample_execution_def)
qed

theorem claim_settled_after_dispatch_witness:
  "(StFail False, True) \<notin> set (rn_log (snd (sample_execution (Inl OtherException) HandlerFirst)))
   \<and> (StFail True, True) \<in> set (rn_log (snd (sample_execution (Inl OtherException) HandlerFirst)))"
proof -
  have "StDispatch \<in> fst ` set (rn_log (snd (sample_execution (Inl OtherException) HandlerFirst)))"
       "(StFail True, True) \<in> set (rn_log (snd (sample_execution (Inl OtherException) HandlerFirst)))"
    by code_simp+
  then show ?thesis
    using claim_settled_after_dispatch [of "sample_stages (Inl OtherException)" HandlerFirst sample_call 0
        "fst (sample_execution (Inl OtherException) HandlerFirst)" "snd (sample_execution (Inl OtherException) HandlerFirst)"]
    by (auto simp: sample_execution_def)
qed

theorem gateway_response_bounded_witness:
  "case fst (sample_execution (Inl OtherException) HandlerFirst) of Answered _ \<Rightarrow> False | Refused p \<Rightarrow> pb_status p = 500 \<and> length (pb_title p) \<le> 120"
proof -
  have "(case fst (sample_execution (Inl OtherException) HandlerFirst) of Answered _ \<Rightarrow> False | Refused p \<Rightarrow> pb_status p = 500)"
    by code_simp
  then show ?thesis
    using gateway_response_bounded [of "sample_stages (Inl OtherException)" HandlerFirst sample_call 0
        "fst (sample_execution (Inl OtherException) HandlerFirst)" "snd (sample_execution (Inl OtherException) HandlerFirst)"]
    by (auto simp: sample_execution_def sample_stages_def split: response.splits)
qed

end
