(* ===== verification/ToolSchema.thy ===== *)
theory ToolSchema
  imports ToolCatalog
begin

text \<open>
  The JSON-schema subset of tools: the rules for a schema and the matcher of
  \<open>packages/contracts/src/agent-tool.ts\<close>, and the second matcher, of
  \<open>packages/runtime/src/registered-tool-stages.ts\<close>.

  Values are JSON trees whose numbers are integers. Titles and descriptions are left out. A key that
  \<open>schema.properties\<close> inherits from the object prototype finds a function there, which matches
  nothing, like an undeclared key.
\<close>

subsection \<open>Schemas\<close>

datatype schema_type = TObject | TArray | TString | TNumber | TInteger | TBoolean | TNull

record schema_bounds =
  sb_min_length :: "int option"
  sb_max_length :: "int option"
  sb_max_utf8 :: "int option"
  sb_minimum :: "int option"
  sb_maximum :: "int option"
  sb_min_items :: "int option"
  sb_max_items :: "int option"

datatype schema =
    OneOf "schema list"
  | Branch (branch_type: schema_type) (branch_enum: "json list option") (branch_properties: "(string \<times> schema) list option")
      (branch_required: "string list option") (branch_closed: bool) (branch_items: "schema option") (branch_bounds: schema_bounds)

definition schema_depth_limit :: nat where "schema_depth_limit = 8"

definition at_most :: "int \<Rightarrow> int option \<Rightarrow> bool" where
  "at_most v bound = (case bound of None \<Rightarrow> True | Some b \<Rightarrow> v \<le> b)"

definition at_least :: "int \<Rightarrow> int option \<Rightarrow> bool" where
  "at_least v bound = (case bound of None \<Rightarrow> True | Some b \<Rightarrow> b \<le> v)"

definition ordered :: "int option \<Rightarrow> int option \<Rightarrow> bool" where
  "ordered low high = (case (low, high) of (Some l, Some h) \<Rightarrow> l \<le> h | _ \<Rightarrow> True)"

definition in_range :: "int \<Rightarrow> int option \<Rightarrow> bool" where
  "in_range high v = (case v of None \<Rightarrow> True | Some n \<Rightarrow> 0 \<le> n \<and> n \<le> high)"

definition is_scalar :: "json \<Rightarrow> bool" where
  "is_scalar v = (case v of JStr s \<Rightarrow> length s \<le> 512 | JNum _ \<Rightarrow> True | JBool _ \<Rightarrow> True | JNull \<Rightarrow> True | _ \<Rightarrow> False)"

definition property_name :: "string \<Rightarrow> bool" where
  "property_name s \<longleftrightarrow> 1 \<le> length s \<and> length s \<le> 128"

definition declared :: "(string \<times> 'a) list option \<Rightarrow> (string \<times> 'a) list" where
  "declared props = (case props of None \<Rightarrow> [] | Some ps \<Rightarrow> ps)"

text \<open>The rules of a branch about its own fields; the children are checked by \<open>schema_ok\<close>. The
  properties of an object have distinct names.\<close>

definition branch_ok :: "schema_type \<Rightarrow> json list option \<Rightarrow> string list option \<Rightarrow> string list option \<Rightarrow> bool \<Rightarrow>
    bool \<Rightarrow> schema_bounds \<Rightarrow> bool" where
  "branch_ok ty enum names required closed has_items b \<longleftrightarrow>
     (case enum of None \<Rightarrow> True | Some vs \<Rightarrow> length vs \<le> 64 \<and> list_all is_scalar vs)
   \<and> (case names of None \<Rightarrow> True | Some ns \<Rightarrow> length ns \<le> 64 \<and> distinct ns \<and> list_all property_name ns)
   \<and> (case required of None \<Rightarrow> True | Some rs \<Rightarrow> length rs \<le> 64 \<and> distinct rs \<and> list_all property_name rs)
   \<and> in_range 65536 (sb_min_length b) \<and> in_range 65536 (sb_max_length b) \<and> in_range 65536 (sb_max_utf8 b)
   \<and> in_range 1024 (sb_min_items b) \<and> in_range 1024 (sb_max_items b)
   \<and> (if ty = TObject
      then names \<noteq> None \<and> closed
        \<and> (case required of None \<Rightarrow> True | Some rs \<Rightarrow> (case names of None \<Rightarrow> rs = [] | Some ns \<Rightarrow> set rs \<subseteq> set ns))
      else names = None \<and> required = None \<and> \<not> closed)
   \<and> (has_items \<longleftrightarrow> ty = TArray)
   \<and> ordered (sb_min_length b) (sb_max_length b)
   \<and> (sb_max_utf8 b = None \<or> ty = TString)
   \<and> ordered (sb_minimum b) (sb_maximum b) \<and> ordered (sb_min_items b) (sb_max_items b)"

fun schema_ok :: "schema \<Rightarrow> bool" where
  "schema_ok (OneOf branches) = (2 \<le> length branches \<and> length branches \<le> 8 \<and> (\<forall>b \<in> set branches. schema_ok b))"
| "schema_ok (Branch ty enum props required closed items b) =
     (branch_ok ty enum (map_option (map fst) props) required closed (items \<noteq> None) b
    \<and> (\<forall>(k, c) \<in> set (case props of None \<Rightarrow> [] | Some ps \<Rightarrow> ps). schema_ok c)
    \<and> (case items of None \<Rightarrow> True | Some c \<Rightarrow> schema_ok c))"

text \<open>\<open>validateSchemaDepth\<close>: no issue is reported.\<close>

fun depth_ok :: "nat \<Rightarrow> schema \<Rightarrow> bool" where
  "depth_ok depth (OneOf branches) = (depth \<le> schema_depth_limit \<and> (\<forall>b \<in> set branches. depth_ok (depth + 1) b))"
| "depth_ok depth (Branch ty enum props required closed items b) =
     (depth \<le> schema_depth_limit
    \<and> (\<forall>(k, c) \<in> set (case props of None \<Rightarrow> [] | Some ps \<Rightarrow> ps). depth_ok (depth + 1) c)
    \<and> (case items of None \<Rightarrow> True | Some c \<Rightarrow> depth_ok (depth + 1) c))"

definition canonical_schema :: "schema \<Rightarrow> bool" where
  "canonical_schema s \<longleftrightarrow> schema_ok s \<and> depth_ok 1 s"

subsection \<open>\<open>matchesJsonSchema\<close>\<close>

text \<open>\<open>===\<close> and \<open>Object.is\<close> with a scalar: never true of an array or an object.\<close>

definition is_primitive :: "json \<Rightarrow> bool" where
  "is_primitive v = (case v of JArr _ \<Rightarrow> False | JObj _ \<Rightarrow> False | _ \<Rightarrow> True)"

definition matches_enum :: "json list option \<Rightarrow> json \<Rightarrow> bool" where
  "matches_enum enum v = (case enum of None \<Rightarrow> True | Some vs \<Rightarrow> is_primitive v \<and> v \<in> set vs)"

fun matches_json_schema :: "schema \<Rightarrow> json \<Rightarrow> bool" where
  "matches_json_schema (OneOf branches) v = (length (filter (\<lambda>b. matches_json_schema b v) branches) = 1)"
| "matches_json_schema (Branch ty enum props required closed items b) v =
     (case ty of
        TNull \<Rightarrow> v = JNull \<and> matches_enum enum v
      | TBoolean \<Rightarrow> (case v of JBool _ \<Rightarrow> matches_enum enum v | _ \<Rightarrow> False)
      | TString \<Rightarrow> (case v of
            JStr s \<Rightarrow> at_least (int (length s)) (sb_min_length b) \<and> at_most (int (length s)) (sb_max_length b)
              \<and> at_most (int (length (utf8 s))) (sb_max_utf8 b) \<and> matches_enum enum v
          | _ \<Rightarrow> False)
      | TNumber \<Rightarrow> (case v of JNum n \<Rightarrow> at_least n (sb_minimum b) \<and> at_most n (sb_maximum b) \<and> matches_enum enum v | _ \<Rightarrow> False)
      | TInteger \<Rightarrow> (case v of JNum n \<Rightarrow> at_least n (sb_minimum b) \<and> at_most n (sb_maximum b) \<and> matches_enum enum v | _ \<Rightarrow> False)
      | TArray \<Rightarrow> (case v of
            JArr ts \<Rightarrow> (case items of
                None \<Rightarrow> False
              | Some c \<Rightarrow> at_least (int (length ts)) (sb_min_items b) \<and> at_most (int (length ts)) (sb_max_items b)
                  \<and> matches_enum enum v \<and> (\<forall>t \<in> set ts. matches_json_schema c t))
          | _ \<Rightarrow> False)
      | TObject \<Rightarrow> (case v of
            JObj kvs \<Rightarrow> (case props of
                None \<Rightarrow> False
              | Some ps \<Rightarrow> closed
                  \<and> (\<forall>k \<in> set (case required of None \<Rightarrow> [] | Some rs \<Rightarrow> rs). k \<in> fst ` set kvs) \<and> matches_enum enum v
                  \<and> (\<forall>(k, t) \<in> set kvs. list_ex (\<lambda>(name, _). name = k) ps
                       \<and> list_all (\<lambda>(name, c). name = k \<longrightarrow> matches_json_schema c t) ps))
          | _ \<Rightarrow> False))"

subsection \<open>\<open>schemaMatches\<close>\<close>

fun schema_matches :: "schema \<Rightarrow> json \<Rightarrow> bool" where
  "schema_matches (OneOf branches) v = (length (filter (\<lambda>b. schema_matches b v) branches) = 1)"
| "schema_matches (Branch ty enum props required closed items b) v =
     (if (case enum of None \<Rightarrow> False | Some vs \<Rightarrow> \<not> (is_primitive v \<and> v \<in> set vs)) then False
      else case ty of
        TObject \<Rightarrow> (case v of
            JObj kvs \<Rightarrow>
              if closed \<and> (\<exists>k \<in> fst ` set kvs. k \<notin> fst ` set (case props of None \<Rightarrow> [] | Some ps \<Rightarrow> ps)) then False
              else if \<exists>k \<in> set (case required of None \<Rightarrow> [] | Some rs \<Rightarrow> rs). k \<notin> fst ` set kvs then False
              else (\<forall>(name, c) \<in> set (case props of None \<Rightarrow> [] | Some ps \<Rightarrow> ps).
                      case map_of kvs name of None \<Rightarrow> True | Some t \<Rightarrow> schema_matches c t)
          | _ \<Rightarrow> False)
      | TArray \<Rightarrow> (case v of
            JArr ts \<Rightarrow> at_least (int (length ts)) (sb_min_items b) \<and> at_most (int (length ts)) (sb_max_items b)
              \<and> (case items of None \<Rightarrow> False | Some c \<Rightarrow> \<forall>t \<in> set ts. schema_matches c t)
          | _ \<Rightarrow> False)
      | TString \<Rightarrow> (case v of
            JStr s \<Rightarrow> at_least (int (length s)) (sb_min_length b) \<and> at_most (int (length s)) (sb_max_length b)
              \<and> at_most (int (length (utf8 s))) (sb_max_utf8 b)
          | _ \<Rightarrow> False)
      | TNumber \<Rightarrow> (case v of JNum n \<Rightarrow> at_least n (sb_minimum b) \<and> at_most n (sb_maximum b) | _ \<Rightarrow> False)
      | TInteger \<Rightarrow> (case v of
            JNum n \<Rightarrow> is_safe_integer n \<and> at_least n (sb_minimum b) \<and> at_most n (sb_maximum b)
          | _ \<Rightarrow> False)
      | TBoolean \<Rightarrow> (case v of JBool _ \<Rightarrow> True | _ \<Rightarrow> False)
      | TNull \<Rightarrow> v = JNull)"

end
