(* ===== verification/Identity.thy ===== *)
theory Identity
  imports Prelude
begin

text \<open>
  The patterns of identifiers in \<open>packages/contracts/src/identity.ts\<close> and \<open>table-records.ts\<close>, and
  the pattern of digests, as predicates on strings.
\<close>

fun split_on :: "char \<Rightarrow> string \<Rightarrow> string list" where
  "split_on c [] = [[]]"
| "split_on c (d # ds) =
     (if d = c then [] # split_on c ds else (case split_on c ds of [] \<Rightarrow> [[d]] | s # ss \<Rightarrow> (d # s) # ss))"

definition lower_or_digit :: "string \<Rightarrow> bool" where
  "lower_or_digit s \<longleftrightarrow> s \<noteq> [] \<and> (\<forall>c \<in> set s. is_lower c \<or> is_digit c)"

text \<open>\<open>[a-z][a-z0-9]*(?:-[a-z0-9]+)*\<close>\<close>

definition kebab :: "string \<Rightarrow> bool" where
  "kebab s \<longleftrightarrow> s \<noteq> [] \<and> is_lower (hd s) \<and> list_all lower_or_digit (split_on CHR ''-'' s)"

definition resource_id :: "string \<Rightarrow> bool" where
  "resource_id s \<longleftrightarrow> length s \<le> 128 \<and> 2 \<le> length (split_on CHR ''.'' s) \<and> list_all kebab (split_on CHR ''.'' s)"

text \<open>\<open>PluginIdSchema\<close>: the first segment is one of the kinds of plugins.\<close>

definition plugin_kinds :: "string list" where
  "plugin_kinds = [''module'', ''provider'', ''builder'', ''theme'', ''integration'', ''preset'']"

definition plugin_id :: "string \<Rightarrow> bool" where
  "plugin_id s \<longleftrightarrow> length s \<le> 128 \<and>
     (case split_on CHR ''.'' s of k # segment # segments \<Rightarrow> k \<in> set plugin_kinds \<and> list_all kebab (segment # segments) | _ \<Rightarrow> False)"

text \<open>\<open>TableFieldIdSchema\<close>\<close>

definition field_id :: "string \<Rightarrow> bool" where
  "field_id s \<longleftrightarrow> 1 \<le> length s \<and> length s \<le> 64 \<and> kebab s"

text \<open>\<open>/^sha256:[0-9a-f]{64}$/\<close>\<close>

definition digest_text :: "string \<Rightarrow> bool" where
  "digest_text s \<longleftrightarrow> take 7 s = ''sha256:'' \<and> length s = 71 \<and> (\<forall>c \<in> set (drop 7 s). c \<in> set ''0123456789abcdef'')"

end
