(* ===== verification/ToolStages.thy ===== *)
theory ToolStages
  imports ToolSchema ToolGateway Identity Complex_Main
begin

text \<open>
  The stages over registered targets, \<open>packages/runtime/src/registered-tool-stages.ts\<close>: target
  resolution, input and output validation, dispatch and redaction. The runtime schemas of actions and
  sources and the handlers belong to the plugins and are parameters.
\<close>

subsection \<open>Targets\<close>

record source_descriptor =
  sd_id :: string
  sd_owner :: string
  sd_version :: int
  sd_contract :: "string \<times> int"

text \<open>What a registration holds for the stages; a binding is callable or not.\<close>

record stage_registration =
  sr_executable :: bool
  sr_sources :: "source_descriptor contribution list"
  sr_actions :: "(string \<times> string \<times> action_descriptor) contribution list"
  sr_source_bindings :: "bool contribution list"
  sr_action_bindings :: "bool contribution list"

datatype tool_target = SourceTarget source_descriptor | ActionTarget action_descriptor

definition data_source_tool_compatible :: "catalog_tool \<Rightarrow> source_descriptor \<Rightarrow> bool" where
  "data_source_tool_compatible t s =
     (if (case ct_invocation t of ActionInvocation _ _ \<Rightarrow> True | SourceInvocation _ v \<Rightarrow> v \<noteq> sd_version s) then False
      else case ct_output_contract t of None \<Rightarrow> True
           | Some c \<Rightarrow> c = fst (sd_contract s) @ CHR ''@'' # int_text (snd (sd_contract s)))"

definition target_forbidden :: failure where
  "target_forbidden = gateway_failure ''TOOL_TARGET_FORBIDDEN'' 403 ''Tool target access is forbidden.''"

definition target_unreconciled :: failure where
  "target_unreconciled = gateway_failure ''TOOL_TARGET_FORBIDDEN'' 403
     ''Tool target access is forbidden until lifecycle availability is reconciled.''"

text \<open>\<open>parses\<close> says whether the schema library accepts the descriptor.\<close>

definition resolve_target :: "(catalog_tool \<Rightarrow> bool) \<Rightarrow> stage_registration \<Rightarrow> catalog_tool \<Rightarrow> failure + tool_target" where
  "resolve_target parses r t =
     (if \<not> parses t then Inl target_forbidden
      else if \<not> sr_executable r then Inl target_unreconciled
      else case ct_invocation t of
        SourceInvocation i v \<Rightarrow>
          (let c = find_contribution i (sr_sources r); b = find_contribution i (sr_source_bindings r) in
           if \<not> owned_by (ct_owner t) c \<or> \<not> owned_by (ct_owner t) b then Inl target_forbidden
           else let d = cb_value (the c) in
             if sd_id d \<noteq> i \<or> sd_owner d \<noteq> ct_owner t \<or> \<not> data_source_tool_compatible t d \<or> \<not> cb_value (the b)
             then Inl target_forbidden else Inr (SourceTarget d))
      | ActionInvocation i v \<Rightarrow>
          (let c = find_contribution i (sr_actions r); b = find_contribution i (sr_action_bindings r) in
           if \<not> owned_by (ct_owner t) c \<or> \<not> owned_by (ct_owner t) b then Inl target_forbidden
           else case cb_value (the c) of (action_id, action_owner, d) \<Rightarrow>
             if action_id \<noteq> i \<or> action_owner \<noteq> ct_owner t \<or> ad_version d \<noteq> v \<or> \<not> action_tool_compatible t d
                \<or> \<not> cb_value (the b)
             then Inl target_forbidden else Inr (ActionTarget d)))"

subsection \<open>Validation\<close>

text \<open>A runtime schema: the parsed value, or nothing.\<close>

definition runtime_schema_value :: "(json \<Rightarrow> json option) \<Rightarrow> json \<Rightarrow> string \<Rightarrow> string \<Rightarrow> failure + json" where
  "runtime_schema_value parse v code message =
     (case parse v of
        None \<Rightarrow> Inl (gateway_failure code (if code = ''TOOL_INPUT_INVALID'' then 400 else 500) message)
      | Some w \<Rightarrow> Inr w)"

definition validate_tool_input :: "failure + tool_target \<Rightarrow> (json \<Rightarrow> json option) \<Rightarrow> schema \<Rightarrow> json \<Rightarrow> failure + json" where
  "validate_tool_input target parse input_schema input =
     res_bind target (\<lambda>tg.
       if \<not> schema_matches input_schema input
       then Inl (gateway_failure ''TOOL_INPUT_INVALID'' 400 ''Tool input is invalid.'')
       else case tg of
         ActionTarget _ \<Rightarrow> runtime_schema_value parse input ''TOOL_INPUT_INVALID'' ''Tool input is invalid.''
       | SourceTarget _ \<Rightarrow> Inr input)"

definition validate_tool_output :: "failure + tool_target \<Rightarrow> (json \<Rightarrow> json option) \<Rightarrow> schema option \<Rightarrow> json \<Rightarrow> failure + json" where
  "validate_tool_output target parse output_schema v =
     res_bind target (\<lambda>_.
     res_bind (runtime_schema_value parse v ''TOOL_OUTPUT_INVALID'' ''Tool output is invalid.'') (\<lambda>validated.
       case output_schema of
         None \<Rightarrow> Inr validated
       | Some s \<Rightarrow> if \<not> schema_matches s validated
                  then Inl (gateway_failure ''TOOL_OUTPUT_INVALID'' 500 ''Tool output is invalid.'') else Inr validated))"

definition registered_authorize :: "failure + tool_target \<Rightarrow> (tool_target \<Rightarrow> failure + 'd) \<Rightarrow> failure + tool_target \<times> 'd" where
  "registered_authorize target policy =
     res_bind target (\<lambda>tg. res_bind (policy tg) (\<lambda>decision. Inr (tg, decision)))"

text \<open>The answer of the data-source gateway: its data, or the code, status and detail of a problem.\<close>

definition dispatch_source :: "'v + (string \<times> int \<times> string) \<Rightarrow> failure + 'v" where
  "dispatch_source answer =
     (case answer of
        Inl data \<Rightarrow> Inr data
      | Inr (code, status, detail) \<Rightarrow> Inl (Gateway (ToolGatewayError code status ''Data-source query failed.'' detail)))"

definition registered_dispatch :: "failure + tool_target \<Rightarrow> (source_descriptor \<Rightarrow> failure + 'v) \<Rightarrow>
    (action_descriptor \<Rightarrow> failure + 'v) \<Rightarrow> failure + 'v" where
  "registered_dispatch target source action =
     res_bind target (\<lambda>tg. case tg of SourceTarget d \<Rightarrow> source d | ActionTarget d \<Rightarrow> action d)"

subsection \<open>Redaction\<close>

text \<open>\<open>replaceAll\<close> of a two-character text by one character.\<close>

fun replace_pair :: "char \<Rightarrow> char \<Rightarrow> char \<Rightarrow> string \<Rightarrow> string" where
  "replace_pair a b r (x # y # xs) =
     (if x = a \<and> y = b then r # replace_pair a b r xs else x # replace_pair a b r (y # xs))"
| "replace_pair a b r xs = xs"

definition path_segments :: "string \<Rightarrow> failure + string list" where
  "path_segments path =
     (case path of
        [] \<Rightarrow> Inl (gateway_failure ''TOOL_REDACTION_INVALID'' 500 ''Tool redaction metadata is invalid.'')
      | c # rest \<Rightarrow>
          if c \<noteq> CHR ''/'' then Inl (gateway_failure ''TOOL_REDACTION_INVALID'' 500 ''Tool redaction metadata is invalid.'')
          else Inr (map (\<lambda>s. replace_pair CHR ''~'' CHR ''0'' CHR ''~'' (replace_pair CHR ''~'' CHR ''1'' CHR ''/'' s))
                     (split_on CHR ''/'' rest)))"

text \<open>
  \<open>Number\<close> on a text, as far as the index test sees it: an integer value, or nothing for a fraction,
  an infinity or \<open>NaN\<close>. Literals are exact, without the rounding of doubles.
\<close>

definition digit_text :: "string \<Rightarrow> bool" where
  "digit_text s \<longleftrightarrow> s \<noteq> [] \<and> list_all is_digit s"

definition signed :: "string \<Rightarrow> bool \<times> string" where
  "signed s = (case s of [] \<Rightarrow> (False, []) | c # cs \<Rightarrow>
     if c = CHR ''-'' then (True, cs) else if c = CHR ''+'' then (False, cs) else (False, s))"

definition signed_digits :: "string \<Rightarrow> int option" where
  "signed_digits s = (case signed s of (neg, ds) \<Rightarrow>
     if digit_text ds then Some (if neg then - digits_value ds else digits_value ds) else None)"

definition hex_value :: "char \<Rightarrow> int" where
  "hex_value c = (let n = (of_char c :: int) in if n < 58 then n - 48 else if n < 71 then n - 55 else n - 87)"

definition is_hex :: "char \<Rightarrow> bool" where
  "is_hex c \<longleftrightarrow> is_digit c \<or> (CHR ''a'' \<le> c \<and> c \<le> CHR ''f'') \<or> (CHR ''A'' \<le> c \<and> c \<le> CHR ''F'')"

definition radix_value :: "int \<Rightarrow> string \<Rightarrow> int option" where
  "radix_value radix s =
     (if s \<noteq> [] \<and> list_all (\<lambda>c. is_hex c \<and> hex_value c < radix) s
      then Some (fold (\<lambda>c n. radix * n + hex_value c) s 0) else None)"

definition decimal_value :: "string \<Rightarrow> rat option" where
  "decimal_value s =
     (case signed s of (neg, body) \<Rightarrow>
       let is_e = (\<lambda>c. c = CHR ''e'' \<or> c = CHR ''E'');
           mantissa = takeWhile (Not \<circ> is_e) body; after = drop (length mantissa) body;
           whole = takeWhile (\<lambda>c. c \<noteq> CHR ''.'') mantissa; fraction = drop (Suc (length whole)) mantissa;
           exponent = (case after of [] \<Rightarrow> Some 0 | _ # ds \<Rightarrow> signed_digits ds)
       in if (whole = [] \<and> fraction = []) \<or> \<not> list_all is_digit whole \<or> \<not> list_all is_digit fraction then None
          else case exponent of
            None \<Rightarrow> None
          | Some e \<Rightarrow>
              let unscaled = of_int (digits_value (whole @ fraction)) / (10 ^ length fraction :: rat);
                  scaled = (if 0 \<le> e then unscaled * 10 ^ nat e else unscaled / 10 ^ nat (- e))
              in Some (if neg then - scaled else scaled))"

definition number_of_text :: "string \<Rightarrow> int option" where
  "number_of_text text =
     (let s = js_trim text in
      if s = [] then Some 0
      else if take 2 s = ''0x'' \<or> take 2 s = ''0X'' then radix_value 16 (drop 2 s)
      else if take 2 s = ''0o'' \<or> take 2 s = ''0O'' then radix_value 8 (drop 2 s)
      else if take 2 s = ''0b'' \<or> take 2 s = ''0B'' then radix_value 2 (drop 2 s)
      else (case decimal_value s of None \<Rightarrow> None | Some r \<Rightarrow> if of_int \<lfloor>r\<rfloor> = r then Some \<lfloor>r\<rfloor> else None))"

text \<open>A segment as an index of an array of \<open>len\<close> elements.\<close>

definition array_index :: "string \<Rightarrow> nat \<Rightarrow> nat option" where
  "array_index segment len =
     (case number_of_text segment of
        None \<Rightarrow> None
      | Some n \<Rightarrow> if \<not> is_safe_integer n \<or> n < 0 \<or> int len \<le> n then None else Some (nat n))"

text \<open>\<open>None\<close> is \<open>undefined\<close>, which only the empty path yields.\<close>

fun redact_at :: "string list \<Rightarrow> json \<Rightarrow> json option" where
  "redact_at [] v = None"
| "redact_at (seg # segs) v =
     (case v of
        JArr ts \<Rightarrow>
          (case array_index seg (length ts) of
             None \<Rightarrow> Some v
           | Some i \<Rightarrow>
               if segs = [] then Some (JArr (take i ts @ drop (Suc i) ts))
               else (case redact_at segs (ts ! i) of None \<Rightarrow> Some v | Some t \<Rightarrow> Some (JArr (ts[i := t]))))
      | JObj kvs \<Rightarrow>
          (case map_of kvs seg of
             None \<Rightarrow> Some v
           | Some child \<Rightarrow>
               if segs = [] then Some (JObj (AList.delete seg kvs))
               else (case redact_at segs child of None \<Rightarrow> Some v | Some t \<Rightarrow> Some (JObj (AList.update seg t kvs))))
      | _ \<Rightarrow> Some v)"

definition redact_path :: "string \<Rightarrow> json option \<Rightarrow> failure + json option" where
  "redact_path path v =
     res_bind (path_segments path) (\<lambda>segs. Inr (case v of None \<Rightarrow> None | Some w \<Rightarrow> redact_at segs w))"

definition redact_output :: "string list \<Rightarrow> json \<Rightarrow> failure + json option" where
  "redact_output paths v = res_fold redact_path paths (Some v)"

end
