(* ===== verification/DataSourceGateway.thy ===== *)
theory DataSourceGateway
  imports ToolGateway
begin

text \<open>
  The data-source gateway, \<open>packages/runtime/src/data-source-gateway.ts\<close>, over arbitrary stages as the
  tool gateway is. The handler may throw before it returns a promise; otherwise its promise settles
  before the abort signal fires, after the response, or never, which is \<open>settling\<close>. A rejected promise
  that nothing listens to is an event of the log, \<open>DsUnhandled\<close>.

  \<open>Gateway\<close> failures are the \<open>DataSourceGatewayError\<close>s here: the class has the same fields.
\<close>

subsection \<open>Requests, handler values and envelopes\<close>

record 'v source_request =
  sq_correlation :: string
  sq_source :: string
  sq_surface :: surface
  sq_input :: 'v

record 'v source_context =
  sc_correlation :: string
  sc_source :: 'v
  sc_surface :: surface
  sc_authenticated :: 'v
  sc_authorized :: 'v
  sc_budgeted :: 'v
  sc_input :: 'v

record 'v source_envelope =
  se_source :: 'v
  se_data :: 'v
  se_report :: "'v option"

text \<open>What a handler returns: any value, or an object with the values of its keys \<open>data\<close> and
  \<open>reportExecution\<close> and the number of its keys.\<close>

datatype 'v handler_value = OtherValue 'v | HandlerObject 'v "'v option" "'v option" nat

datatype ds_stage =
    DsAuthenticate | DsCatalog | DsSurface | DsAuthorize | DsBudget | DsLookup | DsDispatch | DsSettle | DsSource
  | DsContract | DsRedact | DsResult | DsStore | DsSuccess | DsFailure | DsRelease | DsUnhandled

record ('w, 'v) source_stages =
  ds_authenticate :: "'v source_request \<Rightarrow> ('w, 'v) effect"
  ds_catalog :: "string \<Rightarrow> ('w, 'v option) effect"
  ds_surface :: "'v \<Rightarrow> surface \<Rightarrow> 'v \<Rightarrow> ('w, unit) effect"
  ds_authorize :: "'v \<Rightarrow> 'v source_request \<Rightarrow> 'v \<Rightarrow> ('w, 'v) effect"
  ds_budget :: "'v \<Rightarrow> 'v source_request \<Rightarrow> 'v \<Rightarrow> 'v \<Rightarrow> ('w, 'v \<times> 'v) effect"
  ds_parse_input :: "'v \<Rightarrow> 'v \<Rightarrow> 'v option"
  ds_release :: "'v \<Rightarrow> 'w \<Rightarrow> 'w"
  ds_aborted :: "'v \<Rightarrow> 'w \<Rightarrow> bool"
  ds_caller_aborted :: "'w \<Rightarrow> bool"
  ds_lookup :: "'v source_context \<Rightarrow> ('w, 'v source_envelope option) effect"
  ds_dispatch :: "'v source_context \<Rightarrow> ('w, failure + 'v handler_value) effect"
  ds_parse_report :: "'v \<Rightarrow> 'v option"
  ds_source_schema :: "'v \<Rightarrow> 'v \<Rightarrow> ('w, 'v) effect"
  ds_contract :: "'v \<Rightarrow> 'v \<Rightarrow> ('w, 'v) effect"
  ds_redact :: "'v source_context \<Rightarrow> 'v \<Rightarrow> ('w, 'v) effect"
  ds_assert_result :: "'v \<Rightarrow> 'v \<Rightarrow> ('w, unit) effect"
  ds_store :: "'v source_context \<Rightarrow> 'v source_envelope \<Rightarrow> ('w, unit) effect"
  ds_success :: "'v source_context \<Rightarrow> 'v source_envelope \<Rightarrow> ('w, unit) effect"
  ds_failure :: "string \<Rightarrow> int \<Rightarrow> string \<Rightarrow> ('w, unit) effect"
  ds_serialize :: "gateway_error \<Rightarrow> string \<Rightarrow> problem"

subsection \<open>The state of a query\<close>

text \<open>\<open>qc_lease\<close> is the variable \<open>lease\<close>; the others are the closure \<open>releaseWhenIdle\<close>: the lease
  that the handler took over, whether it settled, whether the pipeline finished, and whether the
  lease was released. \<open>qc_late\<close> is the outcome of a handler that nobody waits for any more.\<close>

record ('w, 'v) query_call = "('w, ds_stage) run" +
  qc_lease :: "'v option"
  qc_handler_lease :: "'v option"
  qc_settled :: bool
  qc_finished :: bool
  qc_released :: bool
  qc_late :: "(failure + 'v handler_value) option"
  qc_observed :: bool

datatype settling = BeforeAbort | AfterResponse | Never

definition source_failure :: "string \<Rightarrow> int \<Rightarrow> string \<Rightarrow> failure" where
  "source_failure code status title = gateway_failure code status title"

definition safe_problem_details :: "gateway_error \<Rightarrow> string \<Rightarrow> problem" where
  "safe_problem_details e correlation =
     (let code = (if is_problem_code (error_code e) then error_code e else ''INTERNAL_ERROR'');
          status = (if 400 \<le> error_status e \<and> error_status e \<le> 599 then error_status e else 500);
          title = bounded_text (error_title e) ''Data-source request failed.'' 120
      in \<lparr>pb_type = ''urn:k-nex:problem:'' @ map (\<lambda>c. if c = CHR ''_'' then CHR ''-'' else c) (map to_lower code),
          pb_title = title, pb_status = status, pb_detail = bounded_text (error_detail e) title 512,
          pb_code = code, pb_correlation = bounded_text correlation ''unavailable'' 128\<rparr>)"

definition source_error :: "failure \<Rightarrow> gateway_error" where
  "source_error e =
     (case e of
        Gateway x \<Rightarrow> x
      | OtherException \<Rightarrow> ToolGatewayError ''INTERNAL_ERROR'' 500 ''Data-source request failed.'' ''Data-source request failed.'')"

definition query_aborted :: "bool \<Rightarrow> failure" where
  "query_aborted caller_aborted =
     (if caller_aborted then source_failure ''QUERY_CANCELLED'' 499 ''The query was cancelled.''
      else source_failure ''QUERY_TIMEOUT'' 504 ''The data-source query timed out.'')"

definition evidence_invalid :: failure where
  "evidence_invalid = source_failure ''SOURCE_SCHEMA_INVALID'' 500 ''Data-source handler evidence is invalid.''"

definition handler_success :: "('v \<Rightarrow> 'v option) \<Rightarrow> 'v handler_value \<Rightarrow> failure + 'v \<times> 'v option" where
  "handler_success parse_report v =
     (case v of
        OtherValue x \<Rightarrow> Inr (x, None)
      | HandlerObject whole data report keys \<Rightarrow>
          (case (data, report) of
             (None, _) \<Rightarrow> Inr (whole, None)
           | (Some _, None) \<Rightarrow> Inr (whole, None)
           | (Some d, Some e) \<Rightarrow>
               if keys \<noteq> 2 then Inl evidence_invalid
               else (case parse_report e of None \<Rightarrow> Inl evidence_invalid | Some x \<Rightarrow> Inr (d, Some x))))"

definition lift_result :: "failure + 'a \<Rightarrow> ('s, 'a) step" where
  "lift_result r s = (r, s)"

definition ds_perform_release :: "('w, 'v) source_stages \<Rightarrow> 'v \<Rightarrow> ('w, 'v) query_call \<Rightarrow> ('w, 'v) query_call" where
  "ds_perform_release g lease s =
     s\<lparr>rn_world := ds_release g lease (rn_world s), rn_log := rn_log s @ [(DsRelease, True)]\<rparr>"

definition release_when_idle :: "('w, 'v) source_stages \<Rightarrow> ('w, 'v) query_call \<Rightarrow> ('w, 'v) query_call" where
  "release_when_idle g s =
     (if qc_released s \<or> \<not> qc_settled s \<or> \<not> qc_finished s then s
      else (case qc_handler_lease s of
              None \<Rightarrow> s\<lparr>qc_released := True\<rparr>
            | Some lease \<Rightarrow> ds_perform_release g lease (s\<lparr>qc_released := True\<rparr>)))"

text \<open>The promise of the handler settles.\<close>

definition handler_settles :: "('w, 'v) source_stages \<Rightarrow> bool \<Rightarrow> ('w, 'v) query_call \<Rightarrow> ('w, 'v) query_call" where
  "handler_settles g returned s =
     release_when_idle g (s\<lparr>rn_log := rn_log s @ [(DsSettle, returned)], qc_settled := True\<rparr>)"

subsection \<open>\<open>query\<close>\<close>

text \<open>From the handler's promise to the response. With an aborted signal \<open>dispatchWithSignal\<close> throws
  before it listens to the promise.\<close>

definition await_handler :: "('w, 'v) source_stages \<Rightarrow> settling \<Rightarrow> 'v \<Rightarrow> failure + 'v handler_value \<Rightarrow>
    (('w, 'v) query_call, 'v handler_value) step" where
  "await_handler g settling lease outcome s =
     (if ds_aborted g lease (rn_world s)
      then (Inl (query_aborted (ds_caller_aborted g (rn_world s))), s\<lparr>qc_late := Some outcome, qc_observed := False\<rparr>)
      else if settling \<noteq> BeforeAbort
      then (Inl (query_aborted (ds_caller_aborted g (rn_world s))), s\<lparr>qc_late := Some outcome, qc_observed := True\<rparr>)
      else (outcome, handler_settles g (case outcome of Inl _ \<Rightarrow> False | Inr _ \<Rightarrow> True) s))"

definition query_pipeline :: "('w, 'v) source_stages \<Rightarrow> 'v source_context \<Rightarrow> 'v handler_value \<Rightarrow>
    (('w, 'v) query_call, 'v source_envelope) step" where
  "query_pipeline g c v =
     step_bind (lift_result (handler_success (ds_parse_report g) v)) (\<lambda>(raw, report).
     step_bind (perform DsSource (ds_source_schema g (sc_source c) raw)) (\<lambda>valid_source.
     step_bind (perform DsContract (ds_contract g (sc_source c) valid_source)) (\<lambda>valid_contract.
     step_bind (perform DsRedact (ds_redact g c valid_contract)) (\<lambda>data.
     step_bind (perform DsResult (ds_assert_result g (sc_source c) data)) (\<lambda>_.
     let envelope = \<lparr>se_source = sc_source c, se_data = data, se_report = report\<rparr> in
     step_bind (perform DsStore (ds_store g c envelope)) (\<lambda>_.
     step_bind (step_modify (ignoring (perform DsSuccess (ds_success g c envelope)))) (\<lambda>_.
     step_return envelope)))))))"

definition query_dispatch :: "('w, 'v) source_stages \<Rightarrow> settling \<Rightarrow> 'v source_context \<Rightarrow> 'v \<Rightarrow>
    (('w, 'v) query_call, 'v source_envelope) step" where
  "query_dispatch g settling c lease =
     step_bind (perform DsDispatch (ds_dispatch g c)) (\<lambda>outcome.
     step_bind (step_modify (\<lambda>s. s\<lparr>qc_lease := None, qc_handler_lease := Some lease\<rparr>)) (\<lambda>_.
     step_bind (await_handler g settling lease outcome) (query_pipeline g c)))"

definition query_check_aborted :: "('w, 'v) source_stages \<Rightarrow> 'v \<Rightarrow> (('w, 'v) query_call, unit) step" where
  "query_check_aborted g lease s =
     (if ds_aborted g lease (rn_world s) then (Inl (query_aborted (ds_caller_aborted g (rn_world s))), s) else (Inr (), s))"

definition query_body :: "('w, 'v) source_stages \<Rightarrow> settling \<Rightarrow> 'v source_request \<Rightarrow>
    (('w, 'v) query_call, 'v source_envelope) step" where
  "query_body g settling r =
     step_bind (perform DsAuthenticate (ds_authenticate g r)) (\<lambda>authenticated.
     step_bind (perform DsCatalog (ds_catalog g (sq_source r))) (\<lambda>found.
     case found of
       None \<Rightarrow> step_throw (source_failure ''SOURCE_NOT_FOUND'' 404 ''Data source was not found.'')
     | Some source \<Rightarrow>
         step_bind (perform DsSurface (ds_surface g source (sq_surface r) authenticated)) (\<lambda>_.
         step_bind (perform DsAuthorize (ds_authorize g source r authenticated)) (\<lambda>authorized.
         step_bind (perform DsBudget (ds_budget g source r authenticated authorized)) (\<lambda>(budgeted, lease).
         step_bind (step_modify (\<lambda>s. s\<lparr>qc_lease := Some lease\<rparr>)) (\<lambda>_.
         case ds_parse_input g source budgeted of
           None \<Rightarrow> step_throw (source_failure ''INVALID_QUERY_INPUT'' 400 ''Data-source input is invalid.'')
         | Some input \<Rightarrow>
             let c = \<lparr>sc_correlation = bounded_text (sq_correlation r) ''unavailable'' 128, sc_source = source,
                   sc_surface = sq_surface r, sc_authenticated = authenticated, sc_authorized = authorized,
                   sc_budgeted = budgeted, sc_input = input\<rparr> in
             step_bind (query_check_aborted g lease) (\<lambda>_.
             step_bind (perform DsLookup (ds_lookup g c)) (\<lambda>cached.
             case cached of
               Some envelope \<Rightarrow>
                 step_bind (step_modify (ignoring (perform DsSuccess (ds_success g c envelope)))) (\<lambda>_. step_return envelope)
             | None \<Rightarrow> query_dispatch g settling c lease))))))))"

definition query_catch :: "('w, 'v) source_stages \<Rightarrow> 'v source_request \<Rightarrow> failure \<Rightarrow> ('w, 'v) query_call \<Rightarrow>
    'v source_envelope response \<times> ('w, 'v) query_call" where
  "query_catch g r cause s =
     (let e = source_error cause; correlation = bounded_text (sq_correlation r) ''unavailable'' 128
      in (Refused (ds_serialize g e correlation),
          ignoring (perform DsFailure (ds_failure g (error_code e) (error_status e) correlation)) s))"

text \<open>\<open>releaseHandlerLease\<close> is set once the handler has the lease.\<close>

definition query_finally :: "('w, 'v) source_stages \<Rightarrow> ('w, 'v) query_call \<Rightarrow> ('w, 'v) query_call" where
  "query_finally g s =
     (let s1 = (if qc_handler_lease s = None then s else release_when_idle g (s\<lparr>qc_finished := True\<rparr>))
      in case qc_lease s1 of None \<Rightarrow> s1 | Some lease \<Rightarrow> ds_perform_release g lease s1)"

text \<open>A handler that outlives the response settles, or does not.\<close>

definition query_late :: "('w, 'v) source_stages \<Rightarrow> settling \<Rightarrow> ('w, 'v) query_call \<Rightarrow> ('w, 'v) query_call" where
  "query_late g settling s =
     (case qc_late s of
        None \<Rightarrow> s
      | Some outcome \<Rightarrow>
          if settling = Never then s
          else (case outcome of
                  Inr _ \<Rightarrow> handler_settles g True s
                | Inl _ \<Rightarrow> (let s1 = handler_settles g False s
                           in if qc_observed s then s1 else s1\<lparr>rn_log := rn_log s1 @ [(DsUnhandled, False)]\<rparr>)))"

definition new_query :: "'w \<Rightarrow> ('w, 'v) query_call" where
  "new_query w = \<lparr>rn_world = w, rn_log = [], qc_lease = None, qc_handler_lease = None, qc_settled = False,
     qc_finished = False, qc_released = False, qc_late = None, qc_observed = True\<rparr>"

definition query :: "('w, 'v) source_stages \<Rightarrow> settling \<Rightarrow> 'v source_request \<Rightarrow> 'w \<Rightarrow>
    'v source_envelope response \<times> ('w, 'v) query_call" where
  "query g settling r w =
     (case (case query_body g settling r (new_query w) of
              (Inr envelope, s) \<Rightarrow> (Answered envelope, s)
            | (Inl cause, s) \<Rightarrow> query_catch g r cause s)
      of (response, s) \<Rightarrow> (response, query_late g settling (query_finally g s)))"

end
