(* ===== verification/DataSourceGatewayProperties.thy ===== *)
theory DataSourceGatewayProperties
  imports DataSourceGateway
begin

text \<open>
  The data-source gateway for arbitrary stages: the exact sequence of stages behind every answer, what
  happens to the lease, and a rejection that nothing handles.
\<close>

subsection \<open>Where a query can be\<close>

definition query_order :: "ds_stage list" where
  "query_order = [DsAuthenticate, DsCatalog, DsSurface, DsAuthorize, DsBudget, DsLookup, DsDispatch, DsSettle, DsSource,
     DsContract, DsRedact, DsResult, DsStore]"

definition fresh_handler :: "('w, 'v) query_call \<Rightarrow> bool" where
  "fresh_handler s \<longleftrightarrow> qc_handler_lease s = None \<and> \<not> qc_settled s \<and> \<not> qc_finished s \<and> \<not> qc_released s \<and> qc_late s = None"

definition settled_handler :: "('w, 'v) query_call \<Rightarrow> bool" where
  "settled_handler s \<longleftrightarrow> qc_lease s = None \<and> qc_handler_lease s \<noteq> None \<and> qc_settled s \<and> \<not> qc_finished s
     \<and> \<not> qc_released s \<and> qc_late s = None"

text \<open>Before the handler, and after it has settled: the first \<open>k\<close> stages have succeeded.\<close>

definition query_at :: "nat \<Rightarrow> bool \<Rightarrow> ('w, 'v) query_call \<Rightarrow> bool" where
  "query_at k held s \<longleftrightarrow> rn_log s = passed (take k query_order) \<and> (qc_lease s \<noteq> None \<longleftrightarrow> held) \<and> fresh_handler s"

definition running_at :: "nat \<Rightarrow> ('w, 'v) query_call \<Rightarrow> bool" where
  "running_at k s \<longleftrightarrow> rn_log s = passed (take k query_order) \<and> settled_handler s"

text \<open>The four ways the body can end.\<close>

definition ended_early :: "('w, 'v) query_call \<Rightarrow> bool" where
  "ended_early s \<longleftrightarrow> fresh_handler s \<and> stages s \<subseteq> set (take 7 query_order) \<union> {DsSuccess} \<and> (DsDispatch, True) \<notin> set (rn_log s)
     \<and> (qc_lease s \<noteq> None \<longleftrightarrow> (DsBudget, True) \<in> set (rn_log s))"

definition ended_settled :: "('w, 'v) query_call \<Rightarrow> bool" where
  "ended_settled s \<longleftrightarrow> settled_handler s \<and> (DsBudget, True) \<in> set (rn_log s) \<and> DsSettle \<in> stages s \<and> DsRelease \<notin> stages s"

definition ended_pending :: "('w, 'v) query_call \<Rightarrow> bool" where
  "ended_pending s \<longleftrightarrow> rn_log s = passed (take 7 query_order) \<and> qc_lease s = None \<and> qc_handler_lease s \<noteq> None
     \<and> \<not> qc_settled s \<and> \<not> qc_finished s \<and> \<not> qc_released s \<and> qc_late s \<noteq> None"

abbreviation query_ended :: "('w, 'v) query_call \<Rightarrow> bool" where
  "query_ended s \<equiv> ended_early s \<or> ended_settled s \<or> ended_pending s"

lemma order_step: "k < 13 \<Longrightarrow> take (Suc k) query_order = take k query_order @ [query_order ! k]"
  by (rule take_Suc_conv_app_nth) (simp add: query_order_def)

lemma order_position: "DsBudget \<in> set (take k query_order) \<longleftrightarrow> 5 \<le> k" "DsDispatch \<in> set (take k query_order) \<longleftrightarrow> 7 \<le> k"
  using nth_in_take [of query_order 4 k] nth_in_take [of query_order 6 k] by (auto simp: query_order_def)

lemma passed_mem: "(st, b) \<in> set (passed sts) \<longleftrightarrow> b \<and> st \<in> set sts"
  by (auto simp: passed_def)

lemma query_at_early:
  assumes "query_at k held s" "held \<longleftrightarrow> 5 \<le> k" "k < 7"
  shows "ended_early s"
proof -
  have "set (take k query_order) \<subseteq> set (take 7 query_order)" using assms(3) by (intro set_take_subset_set_take) simp
  then show ?thesis using assms by (auto simp: query_at_def ended_early_def stages_passed passed_mem order_position)
qed

lemma query_gate:
  assumes "k < 7" "st = query_order ! k" "held \<longleftrightarrow> 5 \<le> k" "k' = Suc k"
  shows "valid (query_at k held) (perform st f) (\<lambda>_. query_at k' held) query_ended"
proof (rule valid_perform)
  fix s :: "('a, 'b) query_call" and w
  assume s: "query_at k held s"
  then show "query_at k' held (s\<lparr>rn_world := w, rn_log := rn_log s @ [(st, True)]\<rparr>)"
    using assms by (simp add: query_at_def fresh_handler_def order_step passed_append) (simp add: passed_def)
  have "ended_early s" by (rule query_at_early [OF s assms(3,1)])
  moreover have "st \<in> set (take 7 query_order)"
    unfolding assms(2) using nth_in_take [of query_order k 7] assms(1) by (simp add: query_order_def)
  ultimately show "query_ended (s\<lparr>rn_world := w, rn_log := rn_log s @ [(st, False)]\<rparr>)"
    by (auto simp: ended_early_def fresh_handler_def)
qed

lemma running_gate:
  assumes "8 \<le> k" "k < 13" "st = query_order ! k" "k' = Suc k"
  shows "valid (running_at k) (perform st f) (\<lambda>_. running_at k') query_ended"
proof (rule valid_perform)
  fix s :: "('a, 'b) query_call" and w
  assume s: "running_at k s"
  then show "running_at k' (s\<lparr>rn_world := w, rn_log := rn_log s @ [(st, True)]\<rparr>)"
    using assms by (simp add: running_at_def settled_handler_def order_step passed_append) (simp add: passed_def)
  have "st \<noteq> DsRelease" using nth_mem [of k query_order] assms(2,3) by (auto simp: query_order_def)
  moreover have "DsRelease \<notin> set (take k query_order)" using in_set_takeD by (fastforce simp: query_order_def)
  moreover have "DsSettle \<in> set (take k query_order)" "5 \<le> k"
    using nth_in_take [of query_order 7 k] assms(1) by (simp_all add: query_order_def)
  ultimately show "query_ended (s\<lparr>rn_world := w, rn_log := rn_log s @ [(st, False)]\<rparr>)"
    using s by (auto simp: running_at_def ended_settled_def settled_handler_def stages_passed passed_mem order_position)
qed

subsection \<open>The pipeline after the handler\<close>

text \<open>The log of an answer, before the lease is released.\<close>

definition answered_fresh :: "('w, 'v) query_call \<Rightarrow> bool" where
  "answered_fresh s \<longleftrightarrow> settled_handler s \<and> (\<exists>b. rn_log s = passed query_order @ [(DsSuccess, b)])"

definition answered_cached :: "('w, 'v) query_call \<Rightarrow> bool" where
  "answered_cached s \<longleftrightarrow> fresh_handler s \<and> qc_lease s \<noteq> None
     \<and> (\<exists>b. rn_log s = passed (take 6 query_order) @ [(DsSuccess, b)])"

lemma running_ended: "running_at k s \<Longrightarrow> 8 \<le> k \<Longrightarrow> ended_settled s"
proof -
  assume s: "running_at k s" "8 \<le> k"
  moreover have "DsRelease \<notin> set (take k query_order)" using in_set_takeD by (fastforce simp: query_order_def)
  moreover have "DsSettle \<in> set (take k query_order)" "5 \<le> k"
    using nth_in_take [of query_order 7 k] s(2) by (simp_all add: query_order_def)
  ultimately show ?thesis
    by (auto simp: running_at_def ended_settled_def stages_passed passed_mem order_position)
qed

lemma query_pipeline_triple:
  fixes g :: "('w, 'v) source_stages"
  shows "valid (running_at 8) (query_pipeline g c v) (\<lambda>_. answered_fresh) query_ended"
proof -
  note gate = running_gate
  have lift: "valid (running_at 8) (lift_result r) (\<lambda>_. running_at 8) query_ended" for r
    by (auto simp: valid_def lift_result_def dest: running_ended split: sum.splits)
  have log: "valid (running_at 13 :: ('w, 'v) query_call \<Rightarrow> bool) (step_modify (ignoring (perform DsSuccess f))) (\<lambda>_. answered_fresh) query_ended" for f :: "('w, unit) effect"
  proof (rule valid_modify)
    fix s :: "('w, 'v) query_call"
    assume s: "running_at 13 s"
    obtain w b where "ignoring (perform DsSuccess f) s = s\<lparr>rn_world := w, rn_log := rn_log s @ [(DsSuccess, b)]\<rparr>"
      using ignoring_perform [where st = DsSuccess and f = f and s = s] by blast
    then show "answered_fresh (ignoring (perform DsSuccess f) s)"
      using s by (auto simp: answered_fresh_def running_at_def settled_handler_def query_order_def)
  qed
  show ?thesis
    unfolding query_pipeline_def Let_def split_beta
    apply (rule valid_bind [OF lift])
    apply (rule valid_bind [OF gate [where k = 8 and k' = 9]], (simp_all add: query_order_def)[4])
    apply (rule valid_bind [OF gate [where k = 9 and k' = 10]], (simp_all add: query_order_def)[4])
    apply (rule valid_bind [OF gate [where k = 10 and k' = 11]], (simp_all add: query_order_def)[4])
    apply (rule valid_bind [OF gate [where k = 11 and k' = 12]], (simp_all add: query_order_def)[4])
    apply (rule valid_bind [OF gate [where k = 12 and k' = 13]], (simp_all add: query_order_def)[4])
    by (rule valid_bind [OF log], rule valid_return)
qed

lemma await_handler_triple:
  fixes g :: "('w, 'v) source_stages"
  shows "valid (\<lambda>s. rn_log s = passed (take 7 query_order) \<and> qc_lease s = None \<and> qc_handler_lease s \<noteq> None
       \<and> \<not> qc_settled s \<and> \<not> qc_finished s \<and> \<not> qc_released s \<and> qc_late s = None)
     (await_handler g settling lease outcome) (\<lambda>_. running_at 8) query_ended"
proof -
  have settle: "settled_handler (handler_settles g b s) \<and> rn_log (handler_settles g b s) = rn_log s @ [(DsSettle, b)]"
    if "qc_lease s = None" "qc_handler_lease s \<noteq> None" "\<not> qc_finished s" "\<not> qc_released s" "qc_late s = None"
    for b and s :: "('w, 'v) query_call"
    using that by (auto simp: handler_settles_def release_when_idle_def settled_handler_def)
  have eight: "passed (take 7 query_order) @ [(DsSettle, True)] = passed (take 8 query_order)"
    by (simp add: query_order_def passed_def)
  have ended: "ended_settled u" if "settled_handler u" "rn_log u = passed (take 7 query_order) @ [(DsSettle, b)]" for u :: "('w, 'v) query_call" and b
    using that by (auto simp: ended_settled_def query_order_def passed_def)
  show ?thesis
    unfolding valid_def
    by (auto simp: await_handler_def ended_pending_def running_at_def eight settle split: sum.splits intro!: ended)
qed

lemma query_dispatch_triple:
  "valid (query_at 6 True) (query_dispatch g settling c lease) (\<lambda>_. answered_fresh) query_ended"
  unfolding query_dispatch_def
  apply (rule valid_bind [OF query_gate [where k = 6 and k' = 7]], (simp_all add: query_order_def)[4])
  apply (rule valid_bind [where Q = "\<lambda>_ s. rn_log s = passed (take 7 query_order) \<and> qc_lease s = None \<and> qc_handler_lease s \<noteq> None
       \<and> \<not> qc_settled s \<and> \<not> qc_finished s \<and> \<not> qc_released s \<and> qc_late s = None"], rule valid_modify)
   apply (simp add: query_at_def fresh_handler_def)
  by (rule valid_bind [OF await_handler_triple query_pipeline_triple])

subsection \<open>The body\<close>

lemma query_body_triple:
  fixes g :: "('w, 'v) source_stages"
  shows "valid (query_at 0 False) (query_body g settling r) (\<lambda>_ s. answered_fresh s \<or> answered_cached s) query_ended"
proof -
  have early: "valid (query_at k held) (step_throw e) Q query_ended" if "held \<longleftrightarrow> 5 \<le> k" "k < 7" for k held e Q
    using query_at_early [OF _ that] by (intro valid_throw) blast
  have check: "valid (query_at 5 True) (query_check_aborted g lease) (\<lambda>_. query_at 5 True) query_ended" for lease
    using query_at_early [of 5 True] by (auto simp: valid_def query_check_aborted_def)
  have cached: "valid (query_at 6 True :: ('w, 'v) query_call \<Rightarrow> bool) (step_bind (step_modify (ignoring (perform DsSuccess f))) (\<lambda>_. step_return e))
      (\<lambda>_ s. answered_fresh s \<or> answered_cached s) query_ended" for f :: "('w, unit) effect" and e :: "'v source_envelope"
  proof (rule valid_bind [where Q = "\<lambda>_. answered_cached"], rule valid_modify)
    fix s :: "('w, 'v) query_call"
    assume s: "query_at 6 True s"
    obtain w b where "ignoring (perform DsSuccess f) s = s\<lparr>rn_world := w, rn_log := rn_log s @ [(DsSuccess, b)]\<rparr>"
      using ignoring_perform [where st = DsSuccess and f = f and s = s] by blast
    then show "answered_cached (ignoring (perform DsSuccess f) s)"
      using s by (auto simp: answered_cached_def query_at_def fresh_handler_def)
  qed (rule valid_return, simp)
  have dispatch: "valid (query_at 6 True) (query_dispatch g settling c lease) (\<lambda>_ s. answered_fresh s \<or> answered_cached s) query_ended"
    for c lease by (rule valid_weaken [OF query_dispatch_triple]) auto
  show ?thesis
    unfolding query_body_def Let_def split_beta
    apply (rule valid_bind [OF query_gate [where k = 0 and k' = 1]], (simp_all add: query_order_def)[4])
    apply (rule valid_bind [OF query_gate [where k = 1 and k' = 2]], (simp_all add: query_order_def)[4])
    apply (simp split: option.split, intro conjI impI allI, rule early, simp, simp)
    apply (rule valid_bind [OF query_gate [where k = 2 and k' = 3]], (simp_all add: query_order_def)[4])
    apply (rule valid_bind [OF query_gate [where k = 3 and k' = 4]], (simp_all add: query_order_def)[4])
    apply (rule valid_bind [OF query_gate [where k = 4 and k' = 5]], (simp_all add: query_order_def)[4])
    apply (rule valid_bind [where Q = "\<lambda>_. query_at 5 True"], rule valid_modify, simp add: query_at_def fresh_handler_def)
    apply (simp split: option.split, intro conjI impI allI, rule early, simp, simp)
    apply (rule valid_bind [OF check])
    apply (rule valid_bind [OF query_gate [where k = 5 and k' = 6]], (simp_all add: query_order_def)[4])
    by (simp split: option.split, intro conjI impI allI dispatch cached)
qed

subsection \<open>The end of a query\<close>

definition finish :: "('w, 'v) source_stages \<Rightarrow> settling \<Rightarrow> ('w, 'v) query_call \<Rightarrow> ('w, 'v) query_call" where
  "finish g settling s = query_late g settling (query_finally g s)"

lemma finish_early:
  "fresh_handler s \<Longrightarrow> rn_log (finish g settling s) = rn_log s @ (if qc_lease s = None then [] else [(DsRelease, True)])"
  by (auto simp: finish_def fresh_handler_def query_finally_def query_late_def ds_perform_release_def split: option.split)

lemma finish_settled: "settled_handler s \<Longrightarrow> rn_log (finish g settling s) = rn_log s @ [(DsRelease, True)]"
  by (auto simp: finish_def settled_handler_def query_finally_def release_when_idle_def query_late_def ds_perform_release_def)

lemma finish_pending:
  assumes "qc_lease s = None" "qc_handler_lease s = Some lease" "\<not> qc_settled s" "\<not> qc_finished s" "\<not> qc_released s"
    "qc_late s = Some outcome"
  shows "rn_log (finish g settling s) = rn_log s @ (if settling = Never then []
    else case outcome of Inr _ \<Rightarrow> [(DsSettle, True), (DsRelease, True)]
       | Inl _ \<Rightarrow> [(DsSettle, False), (DsRelease, True)] @ (if qc_observed s then [] else [(DsUnhandled, False)]))"
  using assms by (auto simp: finish_def query_finally_def release_when_idle_def query_late_def handler_settles_def
      ds_perform_release_def Let_def split: sum.splits)

lemma catch_keeps: "\<exists>w b. snd (query_catch g r e s) = s\<lparr>rn_world := w, rn_log := rn_log s @ [(DsFailure, b)]\<rparr>"
  unfolding query_catch_def Let_def snd_conv by (rule ignoring_perform)

lemma fresh_log [simp]: "fresh_handler (s\<lparr>rn_world := w, rn_log := l\<rparr>) \<longleftrightarrow> fresh_handler s"
    "settled_handler (s\<lparr>rn_world := w, rn_log := l\<rparr>) \<longleftrightarrow> settled_handler s"
  by (simp_all add: fresh_handler_def settled_handler_def)

text \<open>The five shapes of the log of a query.\<close>

definition query_log :: "settling \<Rightarrow> bool \<Rightarrow> (ds_stage \<times> bool) list \<Rightarrow> bool" where
  "query_log settling answered l \<longleftrightarrow>
     (answered \<and> (\<exists>b. l = passed query_order @ [(DsSuccess, b), (DsRelease, True)]))
   \<or> (answered \<and> (\<exists>b. l = passed (take 6 query_order) @ [(DsSuccess, b), (DsRelease, True)]))
   \<or> (\<not> answered \<and> (\<exists>l0 b. l = l0 @ (DsFailure, b) # (if (DsBudget, True) \<in> set l0 then [(DsRelease, True)] else [])
         \<and> fst ` set l0 \<subseteq> set (take 7 query_order) \<union> {DsSuccess} \<and> (DsDispatch, True) \<notin> set l0))
   \<or> (\<not> answered \<and> (\<exists>l0 b. l = l0 @ [(DsFailure, b), (DsRelease, True)]
         \<and> (DsBudget, True) \<in> set l0 \<and> DsSettle \<in> fst ` set l0 \<and> DsRelease \<notin> fst ` set l0))
   \<or> (\<not> answered \<and> (\<exists>b c tail. l = passed (take 7 query_order) @ (DsFailure, b) #
         (if settling = Never then [] else [(DsSettle, c), (DsRelease, True)] @ tail) \<and> tail \<in> {[], [(DsUnhandled, False)]}))"

lemma query_log_of_body:
  assumes "query g settling r w = (response, s)"
  shows "query_log settling (case response of Answered _ \<Rightarrow> True | Refused _ \<Rightarrow> False) (rn_log s)"
proof -
  have start: "query_at 0 False (new_query w)" by (simp add: query_at_def new_query_def fresh_handler_def passed_def)
  show ?thesis
  proof (cases "query_body g settling r (new_query w)")
    case (Pair res s1)
    show ?thesis
    proof (cases res)
      case (Inr envelope)
      then have s: "response = Answered envelope" "s = finish g settling s1" using Pair assms by (auto simp: query_def finish_def)
      have "answered_fresh s1 \<or> answered_cached s1"
        using validD_Inr [OF query_body_triple start Pair [unfolded Inr]] by simp
      then show ?thesis
        by (auto simp: s answered_fresh_def answered_cached_def finish_early finish_settled query_log_def)
    next
      case (Inl e)
      obtain p s2 where catch: "query_catch g r e s1 = (Refused p, s2)" by (simp add: query_catch_def Let_def)
      then obtain w b where s2: "s2 = s1\<lparr>rn_world := w, rn_log := rn_log s1 @ [(DsFailure, b)]\<rparr>" using catch_keeps [of g r e s1] by auto
      have s: "response = Refused p" "s = finish g settling s2" using assms Pair Inl catch by (simp_all add: query_def finish_def)
      have "query_ended s1" using validD_Inl [OF query_body_triple start] Pair Inl by blast
      then consider "ended_early s1" | "ended_settled s1" | "ended_pending s1" by blast
      then show ?thesis
      proof cases
        case 1
        then show ?thesis by (auto simp: s s2 ended_early_def finish_early query_log_def)
      next
        case 2
        then show ?thesis by (auto simp: s s2 ended_settled_def finish_settled query_log_def)
      next
        case 3
        then obtain lease outcome where "qc_handler_lease s2 = Some lease" "qc_late s2 = Some outcome"
          by (auto simp: ended_pending_def s2)
        moreover have "qc_lease s2 = None" "\<not> qc_settled s2" "\<not> qc_finished s2" "\<not> qc_released s2"
            "rn_log s2 = passed (take 7 query_order) @ [(DsFailure, b)]"
          using 3 by (simp_all add: s2 ended_pending_def)
        ultimately show ?thesis
          by (auto simp: s finish_pending query_log_def split: sum.split)
      qed
    qed
  qed
qed

text \<open>A log without a release, then perhaps the release, then perhaps an unhandled rejection.\<close>

definition lease_due :: "(ds_stage \<times> bool) list \<Rightarrow> bool" where
  "lease_due l \<longleftrightarrow> (DsBudget, True) \<in> set l \<and> ((DsDispatch, True) \<in> set l \<longrightarrow> DsSettle \<in> fst ` set l)"

definition lease_log :: "settling \<Rightarrow> (ds_stage \<times> bool) list \<Rightarrow> bool" where
  "lease_log settling l \<longleftrightarrow> (\<exists>l0 tail. l = l0 @ (if lease_due l0 then (DsRelease, True) # tail else [])
     \<and> DsRelease \<notin> fst ` set l0 \<and> fst ` set tail \<subseteq> {DsUnhandled}
     \<and> (settling \<noteq> Never \<longrightarrow> (DsDispatch, True) \<in> set l0 \<longrightarrow> DsSettle \<in> fst ` set l0))"

lemma lease_logI:
  "l = start @ (DsRelease, True) # tail \<Longrightarrow> lease_due start \<Longrightarrow> DsRelease \<notin> fst ` set start \<Longrightarrow> fst ` set tail \<subseteq> {DsUnhandled} \<Longrightarrow>
   lease_log settling l"
  unfolding lease_log_def by (rule exI [of _ start], rule exI [of _ tail]) (auto simp: lease_due_def)

lemma lease_log_none:
  "\<not> lease_due l \<Longrightarrow> DsRelease \<notin> fst ` set l \<Longrightarrow> settling = Never \<or> (DsDispatch, True) \<notin> set l \<Longrightarrow> lease_log settling l"
  unfolding lease_log_def by (rule exI [of _ l], rule exI [of _ "[]"]) auto

lemma query_lease_log: "query_log settling answered l \<Longrightarrow> lease_log settling l"
  unfolding query_log_def
proof (elim disjE conjE exE, goal_cases)
    case (1 b)
    then show ?case
      by - (rule lease_logI [where start = "passed query_order @ [(DsSuccess, b)]" and tail = "[]"],
         auto simp: lease_due_def query_order_def passed_def)
  next
    case (2 b)
    then show ?case
      by - (rule lease_logI [where start = "passed (take 6 query_order) @ [(DsSuccess, b)]" and tail = "[]"],
         auto simp: lease_due_def query_order_def passed_def)
  next
    case (3 l0 b)
    have free: "DsRelease \<notin> fst ` set l0" using 3(3) by (auto simp: query_order_def)
    show ?case
    proof (cases "(DsBudget, True) \<in> set l0")
      case True
      then show ?thesis using 3 free
        by - (rule lease_logI [where start = "l0 @ [(DsFailure, b)]" and tail = "[]"], auto simp: lease_due_def)
    next
      case False
      then show ?thesis using 3 free by - (rule lease_log_none, auto simp: lease_due_def)
    qed
  next
    case (4 l0 b)
    then show ?case
      by - (rule lease_logI [where start = "l0 @ [(DsFailure, b)]" and tail = "[]"], auto simp: lease_due_def)
  next
    case (5 b c tail)
    show ?case
    proof (cases "settling = Never")
      case True
      then show ?thesis using 5
        by - (rule lease_log_none, auto simp: lease_due_def query_order_def passed_def)
    next
      case False
      then show ?thesis using 5
        by - (rule lease_logI [where start = "passed (take 7 query_order) @ [(DsFailure, b), (DsSettle, c)]" and tail = tail],
           auto simp: lease_due_def query_order_def passed_def)
    qed
qed

lemma filter_none: "y \<notin> fst ` set l \<Longrightarrow> filter (\<lambda>e. fst e = y) l = []"
  by (auto simp: filter_empty_conv)

lemma unique_split:
  assumes "xs @ x # ys = l1 @ (y, b) # l2" "fst x = y" "y \<notin> fst ` set xs" "y \<notin> fst ` set ys"
  shows "l1 = xs \<and> l2 = ys"
proof -
  have "x \<notin> set xs" "x \<notin> set ys" using assms by (auto simp: image_iff)
  moreover have "(y, b) = x"
  proof -
    have "filter (\<lambda>e. fst e = y) (xs @ x # ys) = [x]" using assms(2-4) by (simp add: filter_none)
    moreover have "(y, b) \<in> set (filter (\<lambda>e. fst e = y) (xs @ x # ys))" unfolding assms(1) by simp
    ultimately show ?thesis by (simp only: list.set singleton_iff)
  qed
  ultimately show ?thesis using assms(1) by (metis append_Cons_eq_iff)
qed

text \<open>an answer of \<open>query\<close> has passed every stage exactly once and in the order of the source: with a
  cached envelope the gates up to the lookup, otherwise the handler, both schemas, redaction, the result
  budget and the store as well; then the lease was released, and nothing followed. Stages are arbitrary.\<close>

theorem query_answer_trace:
  assumes "query g settling r w = (Answered envelope, s)"
  shows "\<exists>b. rn_log s = passed [DsAuthenticate, DsCatalog, DsSurface, DsAuthorize, DsBudget, DsLookup] @ [(DsSuccess, b), (DsRelease, True)]
    \<or> rn_log s = passed [DsAuthenticate, DsCatalog, DsSurface, DsAuthorize, DsBudget, DsLookup, DsDispatch, DsSettle, DsSource,
        DsContract, DsRedact, DsResult, DsStore] @ [(DsSuccess, b), (DsRelease, True)]"
  using query_log_of_body [OF assms] by (auto simp: query_log_def query_order_def)

text \<open>whatever the stages do and wherever a query ends, the lease that the budget granted is released
  exactly once, and never while a handler runs: if a handler was dispatched, the release comes after its
  promise settled, so that an abandoned handler keeps its capacity. Only a handler that never settles
  keeps the lease, and without a grant there is no release. Nothing else is called after the release.\<close>

theorem query_releases_lease_once:
  assumes "query g settling r w = (response, s)"
  shows "length (filter (\<lambda>e. fst e = DsRelease) (rn_log s))
      = (if (DsBudget, True) \<in> set (rn_log s) \<and> ((DsDispatch, True) \<in> set (rn_log s) \<longrightarrow> DsSettle \<in> stages s) then 1 else 0)
    \<and> (settling \<noteq> Never \<longrightarrow> (DsDispatch, True) \<in> set (rn_log s) \<longrightarrow> DsSettle \<in> stages s)
    \<and> (\<forall>l1 b l2. rn_log s = l1 @ (DsRelease, b) # l2 \<longrightarrow>
         ((DsDispatch, True) \<in> set l1 \<longrightarrow> DsSettle \<in> fst ` set l1) \<and> fst ` set l2 \<subseteq> {DsUnhandled})"
proof -
  obtain l0 tail where log: "rn_log s = l0 @ (if lease_due l0 then (DsRelease, True) # tail else [])"
      and free: "DsRelease \<notin> fst ` set l0" and tail: "fst ` set tail \<subseteq> {DsUnhandled}"
      and settles: "settling \<noteq> Never \<longrightarrow> (DsDispatch, True) \<in> set l0 \<longrightarrow> DsSettle \<in> fst ` set l0"
    using query_lease_log [OF query_log_of_body [OF assms]] unfolding lease_log_def by blast
  have free': "DsRelease \<notin> fst ` set tail" using tail by blast
  have same: "(DsBudget, True) \<in> set (rn_log s) \<longleftrightarrow> (DsBudget, True) \<in> set l0"
      "(DsDispatch, True) \<in> set (rn_log s) \<longleftrightarrow> (DsDispatch, True) \<in> set l0"
      "DsSettle \<in> stages s \<longleftrightarrow> DsSettle \<in> fst ` set l0"
    using tail by (auto simp: log)
  have count: "length (filter (\<lambda>e. fst e = DsRelease) (rn_log s)) = (if lease_due l0 then 1 else 0)"
    using free free' by (simp add: log filter_none)
  have split: "((DsDispatch, True) \<in> set l1 \<longrightarrow> DsSettle \<in> fst ` set l1) \<and> fst ` set l2 \<subseteq> {DsUnhandled}"
    if "rn_log s = l1 @ (DsRelease, b) # l2" for l1 b l2
  proof (cases "lease_due l0")
    case True
    then have "l1 = l0 \<and> l2 = tail" using that log free free' by (intro unique_split [of l0 "(DsRelease, True)" tail l1 DsRelease b l2]) auto
    then show ?thesis using True tail by (simp add: lease_due_def)
  next
    case False
    then show ?thesis using that log free by auto
  qed
  show ?thesis using count split settles unfolding same lease_due_def by blast
qed

text \<open>The order of \<open>dispatchWithSignal\<close>: it throws on an aborted signal before it listens to the promise
  of the handler. If that promise is rejected later, nothing handles the rejection.\<close>

lemma aborted_dispatch_unhandled:
  assumes "ds_aborted g lease (rn_world s)" "qc_handler_lease s = Some lease" "qc_lease s = None" "\<not> qc_settled s"
    "\<not> qc_finished s" "\<not> qc_released s" "settling \<noteq> Never" "await_handler g settling lease (Inl e) s = (res, s1)"
  shows "(DsUnhandled, False) \<in> set (rn_log (finish g settling s1))"
proof -
  have "s1 = s\<lparr>qc_late := Some (Inl e), qc_observed := False\<rparr>" using assms by (simp add: await_handler_def)
  then have "rn_log (finish g settling s1) = rn_log s1 @ [(DsSettle, False), (DsRelease, True), (DsUnhandled, False)]"
    using assms by (subst finish_pending [where lease = lease and outcome = "Inl e"]) simp_all
  then show ?thesis by simp
qed

subsection \<open>Witnesses\<close>

text \<open>Stages that all succeed, over a world that counts the leases held; the signal may be aborted.\<close>

definition sample_sources :: "int source_envelope option \<Rightarrow> (failure + int handler_value) \<Rightarrow> (int, int) source_stages" where
  "sample_sources cached answer = \<lparr>ds_authenticate = \<lambda>_ w. (Inr 1, w), ds_catalog = \<lambda>_ w. (Inr (Some 2), w), ds_surface = \<lambda>_ _ _ w. (Inr (), w),
     ds_authorize = \<lambda>_ _ _ w. (Inr 3, w), ds_budget = \<lambda>_ _ _ _ w. (Inr (4, 5), w + 1), ds_parse_input = \<lambda>_ v. Some v,
     ds_release = \<lambda>_ w. w - 1, ds_aborted = \<lambda>_ _. False, ds_caller_aborted = \<lambda>_. False, ds_lookup = \<lambda>_ w. (Inr cached, w),
     ds_dispatch = \<lambda>_ w. (Inr answer, w), ds_parse_report = Some, ds_source_schema = \<lambda>_ v w. (Inr v, w),
     ds_contract = \<lambda>_ v w. (Inr v, w), ds_redact = \<lambda>_ v w. (Inr v, w), ds_assert_result = \<lambda>_ _ w. (Inr (), w),
     ds_store = \<lambda>_ _ w. (Inr (), w), ds_success = \<lambda>_ _ w. (Inr (), w), ds_failure = \<lambda>_ _ _ w. (Inr (), w),
     ds_serialize = safe_problem_details\<rparr>"

definition sample_source_request :: "int source_request" where
  "sample_source_request = \<lparr>sq_correlation = ''c'', sq_source = ''s'', sq_surface = Workspace, sq_input = 0\<rparr>"

definition sample_query :: "(failure + int handler_value) \<Rightarrow> settling \<Rightarrow> int source_envelope response \<times> (int, int) query_call" where
  "sample_query answer settling =
     query (sample_sources None answer) settling sample_source_request 0"

lemmas query_steps = sample_query_def query_def sample_sources_def query_body_def step_bind_def perform_def
  sample_source_request_def new_query_def step_modify_def ignoring_def query_check_aborted_def query_dispatch_def
  await_handler_def handler_settles_def release_when_idle_def query_pipeline_def lift_result_def handler_success_def
  step_return_def query_finally_def query_late_def ds_perform_release_def Let_def

theorem query_answer_trace_witness:
  "DsDispatch \<in> stages (snd (sample_query (Inr (OtherValue 9)) BeforeAbort)) \<and>
   (\<exists>b. rn_log (snd (sample_query (Inr (OtherValue 9)) BeforeAbort))
     = passed [DsAuthenticate, DsCatalog, DsSurface, DsAuthorize, DsBudget, DsLookup] @ [(DsSuccess, b), (DsRelease, True)]
    \<or> rn_log (snd (sample_query (Inr (OtherValue 9)) BeforeAbort))
     = passed [DsAuthenticate, DsCatalog, DsSurface, DsAuthorize, DsBudget, DsLookup, DsDispatch, DsSettle, DsSource,
        DsContract, DsRedact, DsResult, DsStore] @ [(DsSuccess, b), (DsRelease, True)])"
proof
  show "DsDispatch \<in> stages (snd (sample_query (Inr (OtherValue 9)) BeforeAbort))" by (simp add: query_steps)
  have "fst (sample_query (Inr (OtherValue 9)) BeforeAbort) = Answered \<lparr>se_source = 2, se_data = 9, se_report = None\<rparr>"
    by (simp add: query_steps)
  then have "query (sample_sources None (Inr (OtherValue 9))) BeforeAbort sample_source_request 0
      = (Answered \<lparr>se_source = 2, se_data = 9, se_report = None\<rparr>, snd (sample_query (Inr (OtherValue 9)) BeforeAbort))"
    unfolding sample_query_def by (metis prod.collapse)
  from query_answer_trace [OF this]
  show "\<exists>b. rn_log (snd (sample_query (Inr (OtherValue 9)) BeforeAbort))
     = passed [DsAuthenticate, DsCatalog, DsSurface, DsAuthorize, DsBudget, DsLookup] @ [(DsSuccess, b), (DsRelease, True)]
    \<or> rn_log (snd (sample_query (Inr (OtherValue 9)) BeforeAbort))
     = passed [DsAuthenticate, DsCatalog, DsSurface, DsAuthorize, DsBudget, DsLookup, DsDispatch, DsSettle, DsSource,
        DsContract, DsRedact, DsResult, DsStore] @ [(DsSuccess, b), (DsRelease, True)]" .
qed

theorem query_releases_lease_once_witness:
  "length (filter (\<lambda>e. fst e = DsRelease) (rn_log (snd (sample_query (Inl OtherException) AfterResponse)))) = 1
   \<and> length (filter (\<lambda>e. fst e = DsRelease) (rn_log (snd (sample_query (Inl OtherException) Never)))) = 0"
proof -
  have facts: "((DsBudget, True) \<in> set (rn_log (snd (sample_query (Inl OtherException) AfterResponse)))) = True"
       "(DsSettle \<in> stages (snd (sample_query (Inl OtherException) AfterResponse))) = True"
       "((DsDispatch, True) \<in> set (rn_log (snd (sample_query (Inl OtherException) Never)))) = True"
       "(DsSettle \<in> stages (snd (sample_query (Inl OtherException) Never))) = False"
    by code_simp+
  have run: "query (sample_sources None (Inl OtherException)) k sample_source_request 0
      = (fst (sample_query (Inl OtherException) k), snd (sample_query (Inl OtherException) k))" for k
    by (simp only: sample_query_def prod.collapse)
  show ?thesis
    using conjunct1 [OF query_releases_lease_once [OF run [of AfterResponse]]] conjunct1 [OF query_releases_lease_once [OF run [of Never]]]
    unfolding facts by (simp only: simp_thms if_True if_False)
qed

end
