(* ===== verification/PluginLifecycle.thy ===== *)
theory PluginLifecycle
  imports PluginGraph CanonicalJson Identity
begin

text \<open>
  The lifecycle of plugins, \<open>packages/runtime/src/plugin-lifecycle.ts\<close>, and the authority that the
  services of one registration share, \<open>registration-lifecycle-authority.ts\<close>.

  Manifests are parsed already. An object that a \<open>WeakSet\<close> or a \<open>WeakMap\<close> knows by its identity
  carries a number, and the tables are fields of \<open>lifecycle_world\<close>. The messages of errors are left
  out; the \<open>ZodError\<close> of an identifier is \<open>SchemaError\<close>.
\<close>

subsection \<open>Contribution categories\<close>

datatype category =
    SchemaKind | Migrations | Services | Permissions | PolicyBindings | RoleTemplates | SettingsKind | Sources
  | Actions | Tools | Events | Jobs | RealtimeTopics | Components | Blocks | Routes | Navigation | PageTemplates
  | Localization | HealthAudit | LifecycleKind | TestingMetadata

definition category_keys :: "category list" where
  "category_keys = [SchemaKind, Migrations, Services, Permissions, PolicyBindings, RoleTemplates, SettingsKind, Sources,
     Actions, Tools, Events, Jobs, RealtimeTopics, Components, Blocks, Routes, Navigation, PageTemplates,
     Localization, HealthAudit, LifecycleKind, TestingMetadata]"

definition retained_while_disabled :: "category \<Rightarrow> bool" where
  "retained_while_disabled k \<longleftrightarrow> k \<in> set [HealthAudit, LifecycleKind, Migrations, SchemaKind, SettingsKind, TestingMetadata]"

subsection \<open>States, plans and errors\<close>

datatype lifecycle_code = InvalidState | PackageMismatch | NotReady | OperationUnsupported | ReferencesPresent

datatype lifecycle_error = LifecycleError lifecycle_code | SchemaError

datatype package_status = Absent | Installed package_identity

datatype data_state = NoData | ActiveData | RetainedData

record configuration_state =
  cf_revision :: js_number
  cf_ready :: bool

record migration_state =
  mg_current :: js_number
  mg_required :: js_number
  mg_ready :: bool

record lifecycle_state =
  ls_plugin :: string
  ls_catalog_supported :: bool
  ls_package :: package_status
  ls_enabled :: bool
  ls_configuration :: configuration_state
  ls_migration :: migration_state
  ls_data :: data_state
  ls_release_supported :: bool

record lifecycle_manifest = plugin_manifest +
  lm_disable_supported :: bool
  lm_uninstall_supported :: bool
  lm_contributions :: "(category \<times> string list) list"

datatype install_operation = InstallPackage | EnablePlugin | Noop

record install_plan =
  ip_operation :: install_operation
  ip_package :: "package_identity option"
  ip_seeds :: "string list"

subsection \<open>Revisions and package identities\<close>

definition valid_revision :: "js_number \<Rightarrow> bool" where
  "valid_revision v = (case v of Finite n \<Rightarrow> is_safe_integer n \<and> 0 \<le> n | NonFinite \<Rightarrow> False)"

definition is_base64 :: "char \<Rightarrow> bool" where
  "is_base64 c \<longleftrightarrow> is_alnum c \<or> c = CHR ''+'' \<or> c = CHR ''/''"

text \<open>\<open>/^sha512-[A-Za-z0-9+/]+={0,2}$/\<close>\<close>

definition sha512_integrity :: "string \<Rightarrow> bool" where
  "sha512_integrity s \<longleftrightarrow> take 7 s = ''sha512-'' \<and> takeWhile is_base64 (drop 7 s) \<noteq> []
     \<and> dropWhile is_base64 (drop 7 s) \<in> set [[], ''='', ''=='']"

definition assert_package_identity :: "package_identity \<Rightarrow> lifecycle_error + unit" where
  "assert_package_identity p =
     (if take 1 (pk_name p) \<noteq> ''@'' \<or> length (pk_name p) > 214 \<or> length (pk_version p) < 1 \<or> length (pk_version p) > 128
         \<or> \<not> sha512_integrity (pk_integrity p)
      then Inl (LifecycleError InvalidState) else Inr ())"

definition assert_state :: "lifecycle_state \<Rightarrow> lifecycle_error + unit" where
  "assert_state s =
     (if \<not> resource_id (ls_plugin s) then Inl SchemaError
      else if \<not> valid_revision (cf_revision (ls_configuration s)) \<or> \<not> valid_revision (mg_current (ls_migration s))
              \<or> \<not> valid_revision (mg_required (ls_migration s))
      then Inl (LifecycleError InvalidState)
      else res_bind (case ls_package s of Absent \<Rightarrow> Inr () | Installed p \<Rightarrow> assert_package_identity p) (\<lambda>_.
           if ls_package s = Absent \<and> (ls_enabled s \<or> ls_data s = ActiveData) then Inl (LifecycleError InvalidState)
           else if ls_enabled s \<and> ls_data s = RetainedData then Inl (LifecycleError InvalidState)
           else Inr ()))"

text \<open>The frozen copy is the value itself: states are not changed in place.\<close>

definition create_state :: "lifecycle_state \<Rightarrow> lifecycle_error + lifecycle_state" where
  "create_state s = res_bind (assert_state s) (\<lambda>_. Inr s)"

definition ready_for_enable :: "lifecycle_state \<Rightarrow> lifecycle_error + bool" where
  "ready_for_enable s =
     res_bind (assert_state s) (\<lambda>_.
       Inr (ls_catalog_supported s \<and> ls_release_supported s \<and> ls_package s \<noteq> Absent \<and> cf_ready (ls_configuration s)
         \<and> mg_ready (ls_migration s) \<and> mg_current (ls_migration s) = mg_required (ls_migration s)))"

subsection \<open>Install, disable and re-enable\<close>

definition plan_install :: "lifecycle_manifest \<Rightarrow> package_identity \<Rightarrow> lifecycle_state option \<Rightarrow> string list option \<Rightarrow>
    lifecycle_error + install_plan" where
  "plan_install m p state existing =
     res_bind (assert_package_identity p) (\<lambda>_.
     if pk_name p \<noteq> mf_package m \<or> pk_version p \<noteq> mf_version m then Inl (LifecycleError PackageMismatch)
     else res_bind (case state of
             None \<Rightarrow> Inr ()
           | Some s \<Rightarrow> res_bind (assert_state s) (\<lambda>_.
               if ls_plugin s \<noteq> mf_id m then Inl (LifecycleError PackageMismatch)
               else (case ls_package s of
                       Absent \<Rightarrow> Inr ()
                     | Installed q \<Rightarrow> if q \<noteq> p then Inl (LifecycleError PackageMismatch) else Inr ()))) (\<lambda>_.
       let seeds = sort (filter (\<lambda>i. i \<notin> set (case existing of None \<Rightarrow> [] | Some ids \<Rightarrow> ids))
                     (map_get_or (lm_contributions m) PageTemplates []));
           operation = (case state of
               None \<Rightarrow> InstallPackage
             | Some s \<Rightarrow> if ls_package s = Absent then InstallPackage else if ls_enabled s then Noop else EnablePlugin)
       in Inr \<lparr>ip_operation = operation, ip_package = (if operation = InstallPackage then Some p else None), ip_seeds = seeds\<rparr>))"

definition disable_plugin :: "lifecycle_state \<Rightarrow> lifecycle_manifest \<Rightarrow> lifecycle_error + lifecycle_state" where
  "disable_plugin s m =
     res_bind (assert_state s) (\<lambda>_.
     if ls_plugin s \<noteq> mf_id m then Inl (LifecycleError PackageMismatch)
     else if \<not> lm_disable_supported m then Inl (LifecycleError OperationUnsupported)
     else create_state (s\<lparr>ls_enabled := False, ls_data := (if ls_data s = NoData then NoData else RetainedData)\<rparr>))"

definition reenable_plugin :: "lifecycle_state \<Rightarrow> lifecycle_manifest \<Rightarrow> lifecycle_error + lifecycle_state" where
  "reenable_plugin s m =
     res_bind (assert_state s) (\<lambda>_.
     if ls_plugin s \<noteq> mf_id m then Inl (LifecycleError PackageMismatch)
     else if \<not> lm_disable_supported m then Inl (LifecycleError OperationUnsupported)
     else res_bind (ready_for_enable s) (\<lambda>ready.
       if \<not> ready then Inl (LifecycleError NotReady)
       else create_state (s\<lparr>ls_enabled := True, ls_data := (if ls_data s = NoData then NoData else ActiveData)\<rparr>)))"

subsection \<open>Registrations and availability\<close>

record 'v plugin_contribution =
  cn_plugin :: string
  cn_id :: string
  cn_value :: 'v

record inventory_plugin =
  iv_id :: string
  iv_contributions :: "(category \<times> string list) list"
  iv_access :: "string list"

record 'v plugin_registration =
  re_object :: nat
  re_phases :: "string list"
  re_inventory :: "inventory_plugin list"
  re_contributions :: "category \<Rightarrow> 'v plugin_contribution list"
  re_bindings :: "(category \<times> 'v plugin_contribution list) list"

record availability =
  pa_object :: nat
  pa_plugin :: string
  pa_enabled :: bool
  pa_ready :: bool
  pa_contributions :: "(category \<times> string list) list"

text \<open>\<open>isAvailable\<close>\<close>

definition is_available :: "availability \<Rightarrow> category \<Rightarrow> string \<Rightarrow> bool" where
  "is_available a k i \<longleftrightarrow> i \<in> set (map_get_or (pa_contributions a) k [])"

text \<open>The object that a registration and its scoped copies share.\<close>

record lifecycle_authority =
  au_required :: "(string \<times> string list) list"
  au_participants :: "string list"
  au_open :: bool
  au_scope :: "((string, availability) js_map \<times> string list) option"

record lifecycle_world =
  lw_next :: nat
  lw_availability :: "nat list"
  lw_registrations :: "(nat, (string, availability) js_map \<times> string list) js_map"
  lw_authority_of :: "(nat, nat) js_map"
  lw_authorities :: "(nat, lifecycle_authority) js_map"

definition reconcile_availability :: "'v plugin_registration \<Rightarrow> lifecycle_state \<Rightarrow> lifecycle_world \<Rightarrow>
    (lifecycle_error + availability) \<times> lifecycle_world" where
  "reconcile_availability r s w =
     (case ready_for_enable s of
        Inl e \<Rightarrow> (Inl e, w)
      | Inr ready \<Rightarrow>
          let ids = (\<lambda>k. filter (\<lambda>_. ls_package s \<noteq> Absent \<and> (ls_enabled s \<and> ready \<or> retained_while_disabled k))
                  (map cn_id (filter (\<lambda>c. cn_plugin c = ls_plugin s) (re_contributions r k))));
              available = map (\<lambda>k. (k, sort (remdups (ids k)))) (filter (\<lambda>k. ids k \<noteq> []) category_keys);
              a = \<lparr>pa_object = lw_next w, pa_plugin = ls_plugin s, pa_enabled = ls_enabled s, pa_ready = ready,
                   pa_contributions = available\<rparr>
          in (Inr a, w\<lparr>lw_next := Suc (lw_next w), lw_availability := lw_next w # lw_availability w\<rparr>))"

definition assert_executable :: "'v plugin_registration \<Rightarrow> lifecycle_world \<Rightarrow> lifecycle_error + unit" where
  "assert_executable r w = (if re_object r \<in> fst ` set (lw_registrations w) then Inr () else Inl (LifecycleError NotReady))"

definition plugin_enabled :: "'v plugin_registration \<Rightarrow> string \<Rightarrow> lifecycle_world \<Rightarrow> lifecycle_error + bool" where
  "plugin_enabled r p w =
     res_bind (assert_executable r w) (\<lambda>_.
       Inr (case map_of (lw_registrations w) (re_object r) of
              None \<Rightarrow> True
            | Some (av, unavailable) \<Rightarrow>
                if p \<in> set unavailable then False
                else (case map_of av p of None \<Rightarrow> True | Some a \<Rightarrow> pa_enabled a \<and> pa_ready a)))"

subsection \<open>The authority of a registration\<close>

definition create_authority :: "(string \<times> string list) list \<Rightarrow> lifecycle_authority" where
  "create_authority required =
     \<lparr>au_required = required,
      au_participants = fold (\<lambda>(c, ps) l. if ps = [] then l else fold set_add ps (set_add c l)) required [],
      au_open = True, au_scope = None\<rparr>"

definition freeze_authority :: "lifecycle_authority \<Rightarrow> lifecycle_authority" where
  "freeze_authority a = a\<lparr>au_open := False\<rparr>"

definition registration_authority :: "'v plugin_registration \<Rightarrow> lifecycle_world \<Rightarrow> (nat \<times> lifecycle_authority) option" where
  "registration_authority r w =
     (case map_of (lw_authority_of w) (re_object r) of
        None \<Rightarrow> None
      | Some a \<Rightarrow> (case map_of (lw_authorities w) a of None \<Rightarrow> None | Some auth \<Rightarrow> Some (a, auth)))"

definition retain_authority :: "'v plugin_registration \<Rightarrow> nat \<Rightarrow> string list \<Rightarrow> lifecycle_world \<Rightarrow> lifecycle_world" where
  "retain_authority r a participants w =
     (case map_of (lw_authorities w) a of
        None \<Rightarrow> w
      | Some auth \<Rightarrow>
          w\<lparr>lw_authorities := AList.update a (auth\<lparr>au_participants := fold set_add participants (au_participants auth)\<rparr>) (lw_authorities w),
            lw_authority_of := AList.update (re_object r) a (lw_authority_of w)\<rparr>)"

definition scope_authority :: "'v plugin_registration \<Rightarrow> (string, availability) js_map \<Rightarrow> string list \<Rightarrow> lifecycle_world \<Rightarrow> lifecycle_world" where
  "scope_authority r av unavailable w =
     (case registration_authority r w of
        None \<Rightarrow> w
      | Some (a, auth) \<Rightarrow> w\<lparr>lw_authorities := AList.update a (auth\<lparr>au_scope := Some (av, unavailable)\<rparr>) (lw_authorities w)\<rparr>)"

text \<open>\<open>unavailable\<close> of a leased service, and the check before every use of it.\<close>

definition lease_unavailable :: "lifecycle_authority \<Rightarrow> string \<Rightarrow> bool" where
  "lease_unavailable auth p =
     (case au_scope auth of
        None \<Rightarrow> \<not> au_open auth
      | Some (av, unavailable) \<Rightarrow>
          if p \<in> set unavailable then True
          else if p \<notin> set (au_participants auth) then False
          else (case map_of av p of None \<Rightarrow> True | Some a \<Rightarrow> \<not> pa_enabled a \<or> \<not> pa_ready a))"

definition lease_usable :: "lifecycle_authority \<Rightarrow> string \<Rightarrow> string \<Rightarrow> bool" where
  "lease_usable auth consumer provider \<longleftrightarrow>
     \<not> (\<not> au_open auth \<and> au_scope auth = None) \<and> \<not> (lease_unavailable auth consumer \<or> lease_unavailable auth provider)"

subsection \<open>Scoping a registration\<close>

definition collect_availability :: "availability list \<Rightarrow> lifecycle_world \<Rightarrow> lifecycle_error + (string, availability) js_map" where
  "collect_availability values w =
     res_fold (\<lambda>a av.
       if pa_object a \<notin> set (lw_availability w) then Inl (LifecycleError InvalidState)
       else if pa_plugin a \<in> fst ` set av then Inl (LifecycleError InvalidState)
       else Inr (AList.update (pa_plugin a) a av)) values []"

definition participant_down :: "(string, availability) js_map \<Rightarrow> string list \<Rightarrow> string \<Rightarrow> bool" where
  "participant_down av participants p \<longleftrightarrow>
     p \<in> set participants \<and> (case map_of av p of None \<Rightarrow> True | Some a \<Rightarrow> \<not> pa_enabled a \<or> \<not> pa_ready a)"

text \<open>One pass of the loop over the consumers: the plugins found unavailable, and \<open>changed\<close>.\<close>

fun scope_pass :: "(string \<Rightarrow> bool) \<Rightarrow> (string \<times> string list) list \<Rightarrow> string list \<Rightarrow> bool \<Rightarrow> string list \<times> bool" where
  "scope_pass down [] unavailable changed = (unavailable, changed)"
| "scope_pass down ((consumer, providers) # rest) unavailable changed =
     (if consumer \<in> set unavailable \<or> \<not> (\<exists>p \<in> set providers. p \<in> set unavailable \<or> down p)
      then scope_pass down rest unavailable changed
      else scope_pass down rest (set_add consumer unavailable) True)"

lemma scope_pass_result:
  "scope_pass down required u changed = (v, c) \<Longrightarrow>
     set u \<subseteq> set v \<and> set v \<subseteq> set u \<union> fst ` set required
   \<and> (c \<longrightarrow> changed \<or> set u \<subset> set v) \<and> (changed \<longrightarrow> c) \<and> (\<not> c \<longrightarrow> v = u)"
proof (induction down required u changed rule: scope_pass.induct)
  case (2 down consumer providers rest u changed)
  show ?case
  proof (cases "consumer \<in> set u \<or> \<not> (\<exists>p \<in> set providers. p \<in> set u \<or> down p)")
    case True
    then show ?thesis using 2 by auto
  next
    case False
    then have pass: "scope_pass down rest (set_add consumer u) True = (v, c)" using 2(3) by simp
    show ?thesis using 2(2) [OF False pass] False by auto
  qed
qed simp

text \<open>\<open>while (changed)\<close>: every pass that changes something adds one of finitely many consumers.\<close>

function scope_unavailable :: "(string \<Rightarrow> bool) \<Rightarrow> (string \<times> string list) list \<Rightarrow> string list \<Rightarrow> string list" where
  "scope_unavailable down required u =
     (case scope_pass down required u False of (v, changed) \<Rightarrow> if changed then scope_unavailable down required v else v)"
  by pat_completeness auto
termination
proof (relation "measure (\<lambda>(down, required, u). card (fst ` set required - set u))", goal_cases)
  case (2 down required u v changed)
  then have "set u \<subset> set v" "set v \<subseteq> set u \<union> fst ` set required"
    using scope_pass_result [of down required u False v changed] by simp_all
  then have "fst ` set required - set v \<subset> fst ` set required - set u" by blast
  then show ?case by (auto intro: psubset_card_mono)
qed simp

declare scope_unavailable.simps [simp del]

definition scope_allowed :: "(string, availability) js_map \<Rightarrow> string list \<Rightarrow> string list \<Rightarrow> category \<Rightarrow> 'v plugin_contribution \<Rightarrow> bool" where
  "scope_allowed av participants unavailable k c \<longleftrightarrow>
     cn_plugin c \<notin> set unavailable \<and>
     (cn_plugin c \<notin> set participants \<or> (case map_of av (cn_plugin c) of None \<Rightarrow> False | Some a \<Rightarrow> is_available a k (cn_id c)))"

definition scoped_inventory :: "(category \<Rightarrow> 'v plugin_contribution list) \<Rightarrow> inventory_plugin \<Rightarrow> inventory_plugin" where
  "scoped_inventory contributions plugin =
     plugin\<lparr>iv_contributions :=
       concat (map (\<lambda>k. let ids = map cn_id (filter (\<lambda>c. cn_plugin c = iv_id plugin) (contributions k))
                       in if ids = [] then [] else [(k, ids)]) category_keys)\<rparr>"

definition lifecycle_participants :: "'v plugin_registration \<Rightarrow> (nat \<times> lifecycle_authority) option \<Rightarrow> string list" where
  "lifecycle_participants r authority =
     (case authority of
        Some (_, auth) \<Rightarrow> au_participants auth
      | None \<Rightarrow> remdups (map cn_plugin (re_contributions r LifecycleKind)))"

definition scope_registration :: "'v plugin_registration \<Rightarrow> availability list \<Rightarrow> lifecycle_world \<Rightarrow>
    (lifecycle_error + 'v plugin_registration) \<times> lifecycle_world" where
  "scope_registration r values w =
     (case collect_availability values w of
        Inl e \<Rightarrow> (Inl e, w)
      | Inr av \<Rightarrow>
          let authority = registration_authority r w; participants = lifecycle_participants r authority
          in if \<exists>p \<in> set participants. p \<notin> fst ` set av then (Inl (LifecycleError NotReady), w)
          else let unavailable = (case authority of
                       None \<Rightarrow> []
                     | Some (_, auth) \<Rightarrow> scope_unavailable (participant_down av participants) (au_required auth) []);
                   keep = (\<lambda>k. filter (scope_allowed av participants unavailable k));
                   contributions = (\<lambda>k. keep k (re_contributions r k));
                   scoped = \<lparr>re_object = lw_next w, re_phases = re_phases r,
                     re_inventory = map (scoped_inventory contributions) (re_inventory r), re_contributions = contributions,
                     re_bindings = map (\<lambda>(k, entries). (k, keep k entries)) (re_bindings r)\<rparr>;
                   w1 = w\<lparr>lw_next := Suc (lw_next w),
                     lw_registrations := AList.update (lw_next w) (av, unavailable) (lw_registrations w)\<rparr>;
                   w2 = scope_authority r av unavailable w1
               in (Inr scoped, (case authority of None \<Rightarrow> w2 | Some (a, _) \<Rightarrow> retain_authority scoped a participants w2)))"

subsection \<open>References\<close>

datatype reference_kind = DependencyRef | DocumentRef | EventRef | IntegrationRef | JobRef

fun kind_text :: "reference_kind \<Rightarrow> string" where
  "kind_text DependencyRef = ''dependency''"
| "kind_text DocumentRef = ''document''"
| "kind_text EventRef = ''event''"
| "kind_text IntegrationRef = ''integration''"
| "kind_text JobRef = ''job''"

record plugin_reference =
  pr_kind :: reference_kind
  pr_id :: string
  pr_plugin :: string

definition reference_key :: "plugin_reference \<Rightarrow> string" where
  "reference_key f = nul_join [kind_text (pr_kind f), pr_id f, pr_plugin f]"

definition scan_references :: "string \<Rightarrow> plugin_reference list \<Rightarrow> lifecycle_error + plugin_reference list" where
  "scan_references plugin references =
     (if \<not> resource_id plugin then Inl SchemaError
      else res_bind (res_fold (\<lambda>f found.
             if \<not> resource_id (pr_id f) \<or> \<not> resource_id (pr_plugin f) then Inl SchemaError
             else if pr_plugin f \<noteq> plugin then Inr found
             else Inr (AList.update (reference_key f) f found)) references [])
        (\<lambda>found. Inr (map snd (sort_key fst found))))"

definition destructive_operation_safe :: "lifecycle_manifest \<Rightarrow> plugin_reference list \<Rightarrow> lifecycle_error + unit" where
  "destructive_operation_safe m references =
     res_bind (scan_references (mf_id m) references) (\<lambda>found.
       if found \<noteq> [] then Inl (LifecycleError ReferencesPresent) else Inr ())"

definition uninstall_supported :: "lifecycle_manifest \<Rightarrow> lifecycle_error + unit" where
  "uninstall_supported m = (if lm_uninstall_supported m then Inr () else Inl (LifecycleError OperationUnsupported))"

end
