(* ===== verification/PluginLifecycleProperties.thy ===== *)
theory PluginLifecycleProperties
  imports PluginLifecycle
begin

text \<open>
  What disabling and re-enabling a plugin keeps, which plugins a scoped registration cuts off, and
  that the services leased under the same authority follow the same rule.
\<close>

subsection \<open>The loop over the consumers\<close>

text \<open>The relation between a plugin and the plugins it requires.\<close>

definition requirement_pairs :: "(string \<times> string list) list \<Rightarrow> (string \<times> string) set" where
  "requirement_pairs required = {(c, p). \<exists>ps. (c, ps) \<in> set required \<and> p \<in> set ps}"

definition cut_off :: "(string \<Rightarrow> bool) \<Rightarrow> (string \<times> string list) list \<Rightarrow> string \<Rightarrow> bool" where
  "cut_off down required c \<longleftrightarrow> (\<exists>q. (c, q) \<in> (requirement_pairs required)\<^sup>+ \<and> down q)"

lemma cut_off_step:
  assumes "(c, ps) \<in> set required" "p \<in> set ps" "down p \<or> cut_off down required p"
  shows "cut_off down required c"
proof -
  have "(c, p) \<in> requirement_pairs required" using assms(1,2) by (auto simp: requirement_pairs_def)
  then show ?thesis using assms(3) by (auto simp: cut_off_def intro: trancl_into_trancl2)
qed

lemma scope_pass_sound:
  "scope_pass down rest u changed = (v, c) \<Longrightarrow> set rest \<subseteq> set required \<Longrightarrow> \<forall>x \<in> set u. cut_off down required x \<Longrightarrow>
     \<forall>x \<in> set v. cut_off down required x"
proof (induction down rest u changed rule: scope_pass.induct)
  case (2 down consumer providers rest u changed)
  show ?case
  proof (cases "consumer \<in> set u \<or> \<not> (\<exists>p \<in> set providers. p \<in> set u \<or> down p)")
    case True
    then show ?thesis using 2 by simp
  next
    case False
    then have pass: "scope_pass down rest (set_add consumer u) True = (v, c)" using 2(3) by simp
    from False obtain p where "p \<in> set providers" "p \<in> set u \<or> down p" by blast
    then have "cut_off down required consumer" using 2(4,5) by (intro cut_off_step [of consumer providers]) auto
    then show ?thesis using 2(2) [OF False pass] 2(4,5) by simp
  qed
qed simp

text \<open>A pass without a change has seen that no consumer is missing.\<close>

lemma scope_pass_closed:
  "scope_pass down rest u changed = (v, False) \<Longrightarrow>
     v = u \<and> (\<forall>(c, ps) \<in> set rest. (\<exists>p \<in> set ps. p \<in> set u \<or> down p) \<longrightarrow> c \<in> set u)"
proof (induction down rest u changed rule: scope_pass.induct)
  case (2 down consumer providers rest u changed)
  show ?case
  proof (cases "consumer \<in> set u \<or> \<not> (\<exists>p \<in> set providers. p \<in> set u \<or> down p)")
    case True
    then show ?thesis using 2 by auto
  next
    case False
    then have "scope_pass down rest (set_add consumer u) True = (v, False)" using 2(3) by simp
    then show ?thesis using scope_pass_result by blast
  qed
qed simp

lemma scope_unavailable_result:
  "\<forall>x \<in> set u. cut_off down required x \<Longrightarrow>
     (\<forall>x \<in> set (scope_unavailable down required u). cut_off down required x)
   \<and> (\<forall>(c, ps) \<in> set required. (\<exists>p \<in> set ps. p \<in> set (scope_unavailable down required u) \<or> down p) \<longrightarrow>
        c \<in> set (scope_unavailable down required u))"
proof (induction down required u rule: scope_unavailable.induct)
  case (1 down required u)
  obtain v c where pass: "scope_pass down required u False = (v, c)" by fastforce
  have sound: "\<forall>x \<in> set v. cut_off down required x" by (rule scope_pass_sound [OF pass order_refl 1(2)])
  show ?case
  proof (cases c)
    case True
    then show ?thesis using 1(1) [OF pass [symmetric] True sound] pass by (simp only: scope_unavailable.simps [of down required u] split_conv if_True)
  next
    case False
    then have "scope_unavailable down required u = v" using pass by (simp only: scope_unavailable.simps [of down required u] split_conv if_False)
    then show ?thesis using sound scope_pass_closed [of down required u False v] pass False by auto
  qed
qed

lemma scope_unavailable_exact_set: "c \<in> set (scope_unavailable down required []) \<longleftrightarrow> cut_off down required c"
proof -
  have result: "\<forall>x \<in> set (scope_unavailable down required []). cut_off down required x"
    and closed: "\<And>c ps p. (c, ps) \<in> set required \<Longrightarrow> p \<in> set ps \<Longrightarrow> p \<in> set (scope_unavailable down required []) \<or> down p \<Longrightarrow>
        c \<in> set (scope_unavailable down required [])"
    using scope_unavailable_result [of "[]" down required] by auto
  have "c \<in> set (scope_unavailable down required [])" if "(c, q) \<in> (requirement_pairs required)\<^sup>+" "down q" for q
    using that
  proof (induction rule: converse_trancl_induct)
    case (base y)
    then show ?case using closed by (auto simp: requirement_pairs_def)
  next
    case (step y z)
    then show ?case using closed by (auto simp: requirement_pairs_def)
  qed
  then show ?thesis using result unfolding cut_off_def by blast
qed

text \<open>C34: the loop over the consumers ends, for every graph of requirements, cyclic ones included, and finds
  exactly the plugins from which a chain of one or more requirements leads to a plugin that is down.\<close>

theorem scope_unavailable_exact:
  "c \<in> set (scope_unavailable down required []) \<longleftrightarrow>
     (\<exists>q. (c, q) \<in> {(c, p). \<exists>ps. (c, ps) \<in> set required \<and> p \<in> set ps}\<^sup>+ \<and> down q)"
  unfolding scope_unavailable_exact_set cut_off_def requirement_pairs_def ..

subsection \<open>Scoped registrations\<close>

lemma update_new: "k \<notin> fst ` set m \<Longrightarrow> AList.update k v m = m @ [(k, v)]"
  by (induction m) auto

lemma collect_availability_result:
  assumes "collect_availability values w = Inr av"
  shows "av = map (\<lambda>a. (pa_plugin a, a)) values \<and> distinct (map pa_plugin values) \<and> (\<forall>a \<in> set values. pa_object a \<in> set (lw_availability w))"
proof -
  have "av = map (\<lambda>a. (pa_plugin a, a)) (done_values @ values) \<and> distinct (map pa_plugin (done_values @ values))
      \<and> (\<forall>a \<in> set (done_values @ values). pa_object a \<in> set (lw_availability w))"
    if "res_fold (\<lambda>a av.
         if pa_object a \<notin> set (lw_availability w) then Inl (LifecycleError InvalidState)
         else if pa_plugin a \<in> fst ` set av then Inl (LifecycleError InvalidState)
         else Inr (AList.update (pa_plugin a) a av)) values (map (\<lambda>a. (pa_plugin a, a)) done_values) = Inr av"
      "distinct (map pa_plugin done_values)" "\<forall>a \<in> set done_values. pa_object a \<in> set (lw_availability w)" for done_values
    using that
  proof (induction "values" arbitrary: done_values)
    case (Cons a "values")
    have new: "pa_object a \<in> set (lw_availability w)" "pa_plugin a \<notin> pa_plugin ` set done_values"
      using Cons.prems(1) by (auto simp: image_image split: if_splits)
    then have step: "AList.update (pa_plugin a) a (map (\<lambda>a. (pa_plugin a, a)) done_values) = map (\<lambda>a. (pa_plugin a, a)) (done_values @ [a])"
      by (simp add: update_new image_image)
    show ?case using Cons.IH [of "done_values @ [a]"] Cons.prems new by (auto simp: step image_image split: if_splits)
  qed simp
  from this [of "[]"] show ?thesis using assms by (simp add: collect_availability_def)
qed

lemma map_of_availability:
  "distinct (map pa_plugin values) \<Longrightarrow> map_of (map (\<lambda>a. (pa_plugin a, a)) values) p = Some a \<longleftrightarrow> a \<in> set values \<and> pa_plugin a = p"
  by (subst map_of_eq_Some_iff) (auto simp: comp_def)

definition participant_off :: "lifecycle_authority \<Rightarrow> availability list \<Rightarrow> string \<Rightarrow> bool" where
  "participant_off auth values q \<longleftrightarrow>
     q \<in> set (au_participants auth) \<and> (\<exists>v \<in> set values. pa_plugin v = q \<and> \<not> (pa_enabled v \<and> pa_ready v))"

text \<open>C17: a scoped registration keeps, in every category and exactly, the registered contributions of plugins
  that no chain of requirements ties to a lifecycle participant which is disabled or not ready, and that,
  where the plugin is a participant itself, its own availability lists; every availability was issued by
  the reconciliation. The result may execute, and a leased service refuses the same plugins: those cut off
  and the participants that are down.\<close>

theorem scoped_registration_exact:
  assumes "registration_authority r w = Some (a, auth)" "scope_registration r values w = (Inr scoped, w')"
  shows "(\<forall>k c. c \<in> set (re_contributions scoped k) \<longleftrightarrow> c \<in> set (re_contributions r k) \<and> \<not> cut_off (participant_off auth values) (au_required auth) (cn_plugin c)
        \<and> (cn_plugin c \<in> set (au_participants auth) \<longrightarrow> (\<exists>v \<in> set values. pa_plugin v = cn_plugin c \<and> is_available v k (cn_id c))))
    \<and> (\<forall>v \<in> set values. pa_object v \<in> set (lw_availability w))
    \<and> assert_executable scoped w' = Inr ()
    \<and> (\<exists>auth'. registration_authority scoped w' = Some (a, auth') \<and> (\<forall>p. lease_unavailable auth' p \<longleftrightarrow> cut_off (participant_off auth values) (au_required auth) p \<or> participant_off auth values p))"
proof -
  obtain av where av: "collect_availability values w = Inr av"
    using assms(2) by (auto simp: scope_registration_def split: sum.splits)
  note collected = collect_availability_result [OF av]
  define participants where "participants = au_participants auth"
  define unavailable where "unavailable = scope_unavailable (participant_down av participants) (au_required auth) []"
  have all: "\<forall>p \<in> set participants. p \<in> fst ` set av"
    using assms(1,2) by (auto simp: scope_registration_def av lifecycle_participants_def participants_def Let_def split: if_splits)
  have lookup: "map_of av p = Some v \<longleftrightarrow> v \<in> set values \<and> pa_plugin v = p" for p v
    using map_of_availability [of "values" p v] collected by simp
  have down: "participant_down av participants q \<longleftrightarrow> participant_off auth values q" for q
  proof (cases "q \<in> set participants")
    case True
    then obtain v where v: "map_of av q = Some v" using all by (metis map_of_eq_None_iff not_Some_eq)
    then have "(\<exists>u \<in> set values. pa_plugin u = q \<and> \<not> (pa_enabled u \<and> pa_ready u)) \<longleftrightarrow> \<not> (pa_enabled v \<and> pa_ready v)"
      using lookup by (metis option.inject)
    then show ?thesis using True v by (simp add: participant_down_def participant_off_def participants_def)
  qed (simp add: participant_down_def participant_off_def participants_def)
  have cut: "p \<in> set unavailable \<longleftrightarrow> cut_off (participant_off auth values) (au_required auth) p" for p
    unfolding unavailable_def scope_unavailable_exact_set down ..
  have scoped: "re_contributions scoped k = filter (scope_allowed av participants unavailable k) (re_contributions r k)"
      "re_object scoped = lw_next w" for k
    using assms(1,2) all by (auto simp: scope_registration_def av lifecycle_participants_def participants_def unavailable_def Let_def)
  have allowed: "scope_allowed av participants unavailable k c \<longleftrightarrow> \<not> cut_off (participant_off auth values) (au_required auth) (cn_plugin c)
        \<and> (cn_plugin c \<in> set participants \<longrightarrow> (\<exists>v \<in> set values. pa_plugin v = cn_plugin c \<and> is_available v k (cn_id c)))" for k c
  proof -
    have "(\<exists>v \<in> set values. pa_plugin v = cn_plugin c \<and> is_available v k (cn_id c)) \<longleftrightarrow>
        (\<exists>v. map_of av (cn_plugin c) = Some v \<and> is_available v k (cn_id c))" using lookup by blast
    then show ?thesis unfolding scope_allowed_def cut by (simp split: option.split)
  qed
  define scope where "scope = (av, unavailable)"
  have lookup_auth: "map_of (lw_authority_of w) (re_object r) = Some a" "map_of (lw_authorities w) a = Some auth"
    using assms(1) by (auto simp: registration_authority_def split: option.splits)
  have w': "registration_authority scoped w' = Some (a, auth\<lparr>au_scope := Some scope, au_participants := fold set_add participants participants\<rparr>)"
      "re_object scoped \<in> fst ` set (lw_registrations w')"
    using assms(1,2) all lookup_auth
    by (auto simp: scope_registration_def av lifecycle_participants_def participants_def unavailable_def Let_def scope_def
        scope_authority_def registration_authority_def retain_authority_def)
  have same: "set (fold set_add xs ys) = set xs \<union> set ys" for xs ys :: "string list"
    by (induction xs arbitrary: ys) auto
  have lease: "lease_unavailable (auth\<lparr>au_scope := Some scope, au_participants := fold set_add participants participants\<rparr>) p \<longleftrightarrow> cut_off (participant_off auth values) (au_required auth) p \<or> participant_off auth values p" for p
    unfolding cut [symmetric] down [symmetric] by (auto simp: lease_unavailable_def scope_def same participant_down_def)
  show ?thesis
    using scoped(1) allowed collected w' lease unfolding participants_def assert_executable_def by auto
qed

subsection \<open>Disabling and re-enabling\<close>

lemma assert_state_ok:
  "assert_state s = Inr () \<longleftrightarrow> resource_id (ls_plugin s) \<and> valid_revision (cf_revision (ls_configuration s))
     \<and> valid_revision (mg_current (ls_migration s)) \<and> valid_revision (mg_required (ls_migration s))
     \<and> (\<forall>p. ls_package s = Installed p \<longrightarrow> assert_package_identity p = Inr ())
     \<and> (ls_package s = Absent \<longrightarrow> \<not> ls_enabled s \<and> ls_data s \<noteq> ActiveData) \<and> (ls_enabled s \<longrightarrow> ls_data s \<noteq> RetainedData)"
  by (auto simp: assert_state_def split: package_status.split)

lemma ready_for_enable_ok:
  "assert_state s = Inr () \<Longrightarrow> ready_for_enable s = Inr (ls_catalog_supported s \<and> ls_release_supported s \<and> ls_package s \<noteq> Absent
     \<and> cf_ready (ls_configuration s) \<and> mg_ready (ls_migration s) \<and> mg_current (ls_migration s) = mg_required (ls_migration s))"
  by (simp add: ready_for_enable_def)

lemma map_of_keys: "map_of (map (\<lambda>k. (k, f k)) ks) k = (if k \<in> set ks then Some (f k) else None)"
  by (induction ks) auto

lemma listed_categories:
  assumes "k \<in> set ks" "\<And>k. g k = [] \<Longrightarrow> f k = []"
  shows "map_get_or (map (\<lambda>k. (k, f k)) (filter (\<lambda>k. g k \<noteq> []) ks)) k [] = f k"
  using assms by (auto simp: map_get_or_def map_of_keys)

lemma category_keys_all: "k \<in> set category_keys"
  by (cases k) (simp_all add: category_keys_def)

lemma reconcile_available:
  assumes "reconcile_availability r s w = (Inr a, w')" "ready_for_enable s = Inr ready"
  shows "is_available a k i \<longleftrightarrow> ls_package s \<noteq> Absent \<and> (ls_enabled s \<and> ready \<or> retained_while_disabled k)
      \<and> (\<exists>c \<in> set (re_contributions r k). cn_plugin c = ls_plugin s \<and> cn_id c = i)"
proof -
  define ids where "ids = (\<lambda>k. filter (\<lambda>_. ls_package s \<noteq> Absent \<and> (ls_enabled s \<and> ready \<or> retained_while_disabled k))
      (map cn_id (filter (\<lambda>c. cn_plugin c = ls_plugin s) (re_contributions r k))))"
  have "pa_contributions a = map (\<lambda>k. (k, sort (remdups (ids k)))) (filter (\<lambda>k. ids k \<noteq> []) category_keys)"
    using assms by (auto simp: reconcile_availability_def ids_def Let_def)
  then have "is_available a k i \<longleftrightarrow> i \<in> set (sort (remdups (ids k)))"
    unfolding is_available_def by (simp only:) (subst listed_categories, auto simp: category_keys_all)
  also have "\<dots> \<longleftrightarrow> ls_package s \<noteq> Absent \<and> (ls_enabled s \<and> ready \<or> retained_while_disabled k)
      \<and> (\<exists>c \<in> set (re_contributions r k). cn_plugin c = ls_plugin s \<and> cn_id c = i)"
    by (auto simp: ids_def)
  finally show ?thesis .
qed

text \<open>C35: disabling a plugin keeps a valid state valid, its package, configuration and migration as they are
  and its data as they are or retained; disabling again changes nothing. Of a disabled plugin only the
  contributions of the six retained categories are available. Re-enabling succeeds exactly when the plugin
  is ready, and gives back the very state that was disabled if that was enabled.\<close>

theorem disable_then_reenable:
  assumes "assert_state s = Inr ()" "ls_plugin s = mf_id m" "lm_disable_supported m"
  shows "\<exists>d. disable_plugin s m = Inr d \<and> assert_state d = Inr () \<and> disable_plugin d m = Inr d
    \<and> \<not> ls_enabled d \<and> d\<lparr>ls_enabled := ls_enabled s, ls_data := ls_data s\<rparr> = s \<and> (ls_data d = NoData \<longleftrightarrow> ls_data s = NoData)
    \<and> (\<forall>(r :: 'v plugin_registration) w a w'. reconcile_availability r d w = (Inr a, w') \<longrightarrow>
         (\<forall>k i. is_available a k i \<longrightarrow> retained_while_disabled k))
    \<and> (\<forall>ready. ready_for_enable s = Inr ready \<longrightarrow>
         (\<not> ready \<longrightarrow> reenable_plugin d m = Inl (LifecycleError NotReady))
       \<and> (ready \<longrightarrow> (\<exists>e. reenable_plugin d m = Inr e \<and> assert_state e = Inr () \<and> ls_enabled e \<and> (ls_enabled s \<longrightarrow> e = s))))"
proof -
  define d where "d = s\<lparr>ls_enabled := False, ls_data := (if ls_data s = NoData then NoData else RetainedData)\<rparr>"
  define e where "e = s\<lparr>ls_enabled := True, ls_data := (if ls_data s = NoData then NoData else ActiveData)\<rparr>"
  have valid: "assert_state d = Inr ()" using assms(1) unfolding assert_state_ok by (simp add: d_def)
  have again_off: "d\<lparr>ls_enabled := False, ls_data := (if ls_data d = NoData then NoData else RetainedData)\<rparr> = d" "ls_plugin d = mf_id m"
    using assms(2) by (simp_all add: d_def)
  have disable: "disable_plugin s m = Inr d" "disable_plugin d m = Inr d"
    unfolding disable_plugin_def create_state_def d_def [symmetric] again_off(1) using assms valid again_off(2) by simp_all
  have ready: "ready_for_enable d = ready_for_enable s" using assms(1) valid by (simp add: ready_for_enable_ok d_def)
  have available: "retained_while_disabled k" if "reconcile_availability r d w = (Inr a, w')" "is_available a k i"
    for r :: "'v plugin_registration" and w a w' k i
  proof -
    obtain rd where "ready_for_enable d = Inr rd" using valid by (simp add: ready_for_enable_ok)
    from reconcile_available [OF that(1) this, of k i] that(2) show ?thesis by (simp add: d_def)
  qed
  have again: "assert_state e = Inr ()" if "ready_for_enable s = Inr True"
    using assms(1) that unfolding assert_state_ok by (simp add: e_def ready_for_enable_ok [OF assms(1)])
  have same: "e = s" if "ls_enabled s"
    using assms(1) that unfolding assert_state_ok by (cases "ls_data s") (simp_all add: e_def)
  have "ls_data d = NoData \<longleftrightarrow> ls_data s = NoData" by (simp add: d_def)
  then have reenable: "reenable_plugin d m = (if ready then create_state e else Inl (LifecycleError NotReady))"
    if "ready_for_enable s = Inr ready" for ready
    using that assms(2,3) valid ready by (simp add: reenable_plugin_def e_def d_def)
  have "d\<lparr>ls_enabled := ls_enabled s, ls_data := ls_data s\<rparr> = s" by (simp add: d_def)
  then show ?thesis
    using disable valid available again same reenable by (intro exI [of _ d]) (auto simp: d_def e_def create_state_def)
qed

subsection \<open>Other plugins and references\<close>

text \<open>The availability of a plugin that takes no part in the lifecycle hides none of its contributions,
  although \<open>platformPluginEnabledInRegistration\<close> reports the plugin as disabled.\<close>

lemma other_availability_ignored:
  assumes "registration_authority r w = None" "cn_plugin c \<notin> cn_plugin ` set (re_contributions r LifecycleKind)"
    "c \<in> set (re_contributions r k)" "scope_registration r values w = (Inr scoped, w')"
    "v \<in> set values" "pa_plugin v = cn_plugin c" "\<not> pa_enabled v"
  shows "c \<in> set (re_contributions scoped k) \<and> plugin_enabled scoped (cn_plugin c) w' = Inr False"
proof -
  obtain av where av: "collect_availability values w = Inr av"
    using assms(4) by (auto simp: scope_registration_def split: sum.splits)
  have v: "map_of av (cn_plugin c) = Some v"
    using collect_availability_result [OF av] map_of_availability [of "values" "cn_plugin c" v] assms(5,6) by simp
  show ?thesis using assms(1-4,7) v
    by (auto simp: scope_registration_def av lifecycle_participants_def Let_def scope_allowed_def plugin_enabled_def
        assert_executable_def scope_authority_def registration_authority_def split: if_splits option.splits)
qed

lemma reference_fold:
  "res_fold (\<lambda>f found.
      if \<not> resource_id (pr_id f) \<or> \<not> resource_id (pr_plugin f) then Inl SchemaError
      else if pr_plugin f \<noteq> plugin then Inr found
      else Inr (AList.update (reference_key f) f found)) references found = Inr result \<Longrightarrow>
   result = [] \<longleftrightarrow> found = [] \<and> (\<forall>f \<in> set references. pr_plugin f \<noteq> plugin)"
proof (induction references arbitrary: found)
  case (Cons f references)
  have "AList.update (reference_key f) f found \<noteq> []" by (cases found) auto
  then show ?case using Cons by (cases "pr_plugin f = plugin") (auto split: if_splits)
qed simp

text \<open>A plugin may be destroyed only when no reference names it.\<close>

lemma destructive_operation_safe_ok:
  "destructive_operation_safe m references = Inr () \<Longrightarrow> \<forall>f \<in> set references. pr_plugin f \<noteq> mf_id m"
  using reference_fold [of "mf_id m" references "[]"]
  by (auto simp: destructive_operation_safe_def scan_references_def simp flip: set_empty split: if_splits)

subsection \<open>Witnesses\<close>

definition sample_package :: package_identity where
  "sample_package = \<lparr>pk_name = ''@k/p'', pk_version = ''1.0.0'', pk_integrity = ''sha512-AA==''\<rparr>"

definition lifecycle_sample_manifest :: lifecycle_manifest where
  "lifecycle_sample_manifest = \<lparr>mf_id = ''module.p'', mf_kind = ''module'', mf_package = ''@k/p'', mf_version = ''1.0.0'', mf_provides = [],
     mf_requires = [], mf_optional = [], mf_conflicts = [], lm_disable_supported = True, lm_uninstall_supported = False, lm_contributions = []\<rparr>"

definition sample_state :: lifecycle_state where
  "sample_state = \<lparr>ls_plugin = ''module.p'', ls_catalog_supported = True, ls_package = Installed sample_package, ls_enabled = True,
     ls_configuration = \<lparr>cf_revision = Finite 1, cf_ready = True\<rparr>,
     ls_migration = \<lparr>mg_current = Finite 2, mg_required = Finite 2, mg_ready = True\<rparr>, ls_data = ActiveData, ls_release_supported = True\<rparr>"

theorem disable_then_reenable_witness:
  "disable_plugin sample_state lifecycle_sample_manifest = Inr (sample_state\<lparr>ls_enabled := False, ls_data := RetainedData\<rparr>)
   \<and> reenable_plugin (sample_state\<lparr>ls_enabled := False, ls_data := RetainedData\<rparr>) lifecycle_sample_manifest = Inr sample_state"
proof -
  have valid: "assert_state sample_state = Inr ()" by code_simp
  have facts: "ls_plugin sample_state = mf_id lifecycle_sample_manifest" "lm_disable_supported lifecycle_sample_manifest"
      "ls_enabled sample_state" "ls_data sample_state = ActiveData"
    by (simp_all add: sample_state_def lifecycle_sample_manifest_def)
  have ready: "ready_for_enable sample_state = Inr True"
    unfolding ready_for_enable_ok [OF valid] by (simp add: sample_state_def)
  have disabled: "disable_plugin sample_state lifecycle_sample_manifest = Inr (sample_state\<lparr>ls_enabled := False, ls_data := RetainedData\<rparr>)"
    by code_simp
  from disable_then_reenable [OF valid facts(1,2)] ready facts(3) disabled show ?thesis by auto
qed

definition sample_authority :: lifecycle_authority where
  "sample_authority = \<lparr>au_required = [(''module.c'', [''module.p'']), (''module.p'', [])],
     au_participants = [''module.c'', ''module.p''], au_open = False, au_scope = None\<rparr>"

definition sample_world :: lifecycle_world where
  "sample_world = \<lparr>lw_next = 20, lw_availability = [1, 2], lw_registrations = [], lw_authority_of = [(10, 5)],
     lw_authorities = [(5, sample_authority)]\<rparr>"

definition sample_registration :: "nat plugin_registration" where
  "sample_registration = \<lparr>re_object = 10, re_phases = [], re_inventory = [],
     re_contributions = (\<lambda>k. if k = Actions then [\<lparr>cn_plugin = ''module.c'', cn_id = ''c.a'', cn_value = 0\<rparr>] else []), re_bindings = []\<rparr>"

definition sample_availability :: "nat \<Rightarrow> string \<Rightarrow> bool \<Rightarrow> availability" where
  "sample_availability n p enabled = \<lparr>pa_object = n, pa_plugin = p, pa_enabled = enabled, pa_ready = True,
     pa_contributions = [(Actions, [''c.a''])]\<rparr>"

theorem scoped_registration_exact_witness:
  "case scope_registration sample_registration [sample_availability 1 ''module.c'' True, sample_availability 2 ''module.p'' False] sample_world of
     (Inr scoped, w') \<Rightarrow> re_contributions scoped Actions = [] \<and> assert_executable scoped w' = Inr ()
   | _ \<Rightarrow> False"
proof -
  define given where "given = [sample_availability 1 ''module.c'' True, sample_availability 2 ''module.p'' False]"
  have auth: "registration_authority sample_registration sample_world = Some (5, sample_authority)" by code_simp
  have "(case scope_registration sample_registration given sample_world of (Inr scoped, _) \<Rightarrow> True | _ \<Rightarrow> False) = True"
    unfolding given_def by code_simp
  then obtain scoped w' where scoped: "scope_registration sample_registration given sample_world = (Inr scoped, w')"
    by (auto split: prod.splits sum.splits)
  have "(''module.c'', ''module.p'') \<in> {(c, p). \<exists>ps. (c, ps) \<in> set (au_required sample_authority) \<and> p \<in> set ps}\<^sup>+"
    by (rule r_into_trancl) (auto simp: sample_authority_def)
  moreover have "participant_off sample_authority given ''module.p''"
    by (simp add: participant_off_def given_def sample_availability_def sample_authority_def)
  ultimately have "cut_off (participant_off sample_authority given) (au_required sample_authority) ''module.c''"
    by (auto simp: cut_off_def requirement_pairs_def)
  then have "c \<notin> set (re_contributions scoped Actions)" for c
    using scoped_registration_exact [OF auth scoped] by (auto simp: sample_registration_def)
  then have "re_contributions scoped Actions = []" by (metis list.set_intros(1) neq_Nil_conv)
  then show ?thesis using scoped_registration_exact [OF auth scoped] scoped unfolding given_def by simp
qed

end
