(* ===== verification/DataSourceFields.thy ===== *)
theory DataSourceFields
  imports ActorContext Identity
begin

text \<open>
  Data-source descriptors and the fields of a query: the descriptor schema and the projection rules of
  \<open>packages/contracts/src/data-source.ts\<close>, the authorization of the selected fields and the redaction of
  tables of \<open>packages/runtime/src/data-source-authorization.ts\<close>.
\<close>

subsection \<open>Descriptors\<close>

datatype output_kind =
    TextKind | IntegerKind | NumberKind | DecimalKind | MoneyKind | PercentageKind | DurationKind | DatetimeKind
  | DateKind | BooleanKind | StatusKind | EnumKind | ResourceKind

datatype filter_operator =
    FEq | FNeq | FIn | FNotIn | FContains | FStartsWith | FEndsWith | FGt | FGte | FLt | FLte | FIsNull | FIsNotNull

datatype pagination_mode = OffsetMode | CursorMode

datatype cache_class = NoStore | ActorCache | AuthorizationContextCache | PublicCache

datatype primary_contract = MetricScalar int | TableRecords int

record output_field =
  of_id :: string
  of_kind :: output_kind
  of_required :: bool
  of_nullable :: bool
  of_permission :: string
  of_sortable :: bool
  of_filters :: "filter_operator list"

record source_limits =
  sl_fields :: int
  sl_page_size :: int
  sl_filters :: int
  sl_sorts :: int
  sl_body_bytes :: int
  sl_result_bytes :: int
  sl_depth :: int
  sl_timeout_ms :: int
  sl_concurrency :: int
  sl_rate :: int
  sl_burst :: int
  sl_cost_class :: cost_class
  sl_cost :: int

text \<open>\<open>dataSourcePlatformCeilings\<close>; the ceilings have no cost class, and the field of the record is not read.\<close>

definition platform_ceilings :: source_limits where
  "platform_ceilings = \<lparr>sl_fields = 64, sl_page_size = 100, sl_filters = 32, sl_sorts = 16, sl_body_bytes = 1048576,
     sl_result_bytes = 4194304, sl_depth = 8, sl_timeout_ms = 30000, sl_concurrency = 64, sl_rate = 600, sl_burst = 60,
     sl_cost_class = High, sl_cost = 1000\<rparr>"

record data_source_descriptor =
  sd_id :: string
  sd_version :: int
  sd_owner :: string
  sd_contract :: primary_contract
  sd_schema :: "string \<times> int"
  sd_audience :: audience
  sd_surfaces :: "surface list"
  sd_permission :: string
  sd_hash :: string
  sd_revision :: int
  sd_title :: string
  sd_description :: "string option"
  sd_inputs :: "string list"
  sd_fields :: "output_field list option"
  sd_pagination :: "pagination_mode list"
  sd_limits :: source_limits
  sd_cache :: cache_class

definition in_bounds :: "int \<Rightarrow> int \<Rightarrow> int \<Rightarrow> bool" where
  "in_bounds low high n \<longleftrightarrow> low \<le> n \<and> n \<le> high"

definition positive_version :: "int \<Rightarrow> bool" where
  "positive_version n \<longleftrightarrow> in_bounds 1 1000000 n"

definition limits_ok :: "source_limits \<Rightarrow> bool" where
  "limits_ok l \<longleftrightarrow>
     in_bounds 1 (sl_fields platform_ceilings) (sl_fields l)
   \<and> in_bounds 1 (sl_page_size platform_ceilings) (sl_page_size l)
   \<and> in_bounds 0 (sl_filters platform_ceilings) (sl_filters l)
   \<and> in_bounds 0 (sl_sorts platform_ceilings) (sl_sorts l)
   \<and> in_bounds 1 (sl_body_bytes platform_ceilings) (sl_body_bytes l)
   \<and> in_bounds 1 (sl_result_bytes platform_ceilings) (sl_result_bytes l)
   \<and> in_bounds 1 (sl_depth platform_ceilings) (sl_depth l)
   \<and> in_bounds 1 (sl_timeout_ms platform_ceilings) (sl_timeout_ms l)
   \<and> in_bounds 1 (sl_concurrency platform_ceilings) (sl_concurrency l)
   \<and> in_bounds 1 (sl_rate platform_ceilings) (sl_rate l)
   \<and> in_bounds 1 (sl_burst platform_ceilings) (sl_burst l)
   \<and> in_bounds 1 (sl_cost platform_ceilings) (sl_cost l)"

definition output_field_ok :: "output_field \<Rightarrow> bool" where
  "output_field_ok f \<longleftrightarrow> field_id (of_id f) \<and> resource_id (of_permission f) \<and> length (of_filters f) \<le> 8 \<and> distinct (of_filters f)"

definition contract_ok :: "primary_contract \<Rightarrow> bool" where
  "contract_ok c = (case c of TableRecords v \<Rightarrow> v = 1 | MetricScalar v \<Rightarrow> v = 1 \<or> v = 2)"

definition declared_fields :: "data_source_descriptor \<Rightarrow> output_field list" where
  "declared_fields d = (case sd_fields d of None \<Rightarrow> [] | Some fs \<Rightarrow> fs)"

definition is_metric :: "data_source_descriptor \<Rightarrow> bool" where
  "is_metric d = (case sd_contract d of MetricScalar _ \<Rightarrow> True | TableRecords _ \<Rightarrow> False)"

text \<open>\<open>DataSourceDescriptorSchema\<close>, without the kinds and flags of the input fields.\<close>

definition descriptor_ok :: "data_source_descriptor \<Rightarrow> bool" where
  "descriptor_ok d \<longleftrightarrow>
     resource_id (sd_id d) \<and> positive_version (sd_version d) \<and> plugin_id (sd_owner d) \<and> contract_ok (sd_contract d)
   \<and> resource_id (fst (sd_schema d)) \<and> positive_version (snd (sd_schema d))
   \<and> sd_surfaces d \<noteq> [] \<and> distinct (sd_surfaces d) \<and> resource_id (sd_permission d) \<and> digest_text (sd_hash d)
   \<and> positive_version (sd_revision d) \<and> 1 \<le> length (sd_title d) \<and> length (sd_title d) \<le> 120
   \<and> (case sd_description d of None \<Rightarrow> True | Some t \<Rightarrow> 1 \<le> length t \<and> length t \<le> 512)
   \<and> length (sd_inputs d) \<le> 32 \<and> list_all field_id (sd_inputs d)
   \<and> length (declared_fields d) \<le> 64 \<and> list_all output_field_ok (declared_fields d) \<and> distinct (sd_pagination d)
   \<and> limits_ok (sd_limits d)
   \<and> distinct (sd_inputs d) \<and> distinct (map of_id (declared_fields d))
   \<and> \<not> (is_metric d \<and> declared_fields d \<noteq> []) \<and> \<not> (is_metric d \<and> sd_pagination d \<noteq> [])
   \<and> \<not> (\<not> is_metric d \<and> declared_fields d = []) \<and> \<not> (\<not> is_metric d \<and> sd_pagination d = [])
   \<and> (let is_public = sd_audience d = PublicAudience in
        (is_public \<longleftrightarrow> PublicSurface \<in> set (sd_surfaces d))
      \<and> \<not> (is_public \<and> (sd_cache d = ActorCache \<or> sd_cache d = AuthorizationContextCache))
      \<and> \<not> (\<not> is_public \<and> sd_cache d = PublicCache))"

subsection \<open>Selecting fields\<close>

datatype selection_failure =
    DuplicateFields | FieldLimitExceeded | MetricFieldsForbidden | UnknownField | RequiredFieldNotRequested
  | RequiredFieldNotAllowed | NoAllowedFields

text \<open>The map from the identifiers to the fields of a descriptor; a later field replaces an earlier one.\<close>

definition field_map :: "data_source_descriptor \<Rightarrow> (string, output_field) js_map" where
  "field_map d = fold (\<lambda>f m. AList.update (of_id f) f m) (declared_fields d) []"

text \<open>The loop over the fields of the map, which returns at the first required field that is missing.\<close>

fun required_failure :: "output_field list \<Rightarrow> string list \<Rightarrow> string list \<Rightarrow> selection_failure option" where
  "required_failure [] requested allowed = None"
| "required_failure (f # fs) requested allowed =
     (if of_required f \<and> of_id f \<notin> set requested then Some RequiredFieldNotRequested
      else if of_required f \<and> of_id f \<notin> set allowed then Some RequiredFieldNotAllowed
      else required_failure fs requested allowed)"

definition resolve_selection :: "data_source_descriptor \<Rightarrow> string list \<Rightarrow> string list \<Rightarrow> selection_failure + string list" where
  "resolve_selection d requested allowed =
     (if \<not> distinct requested then Inl DuplicateFields
      else if int (length requested) > sl_fields (sd_limits d) then Inl FieldLimitExceeded
      else if is_metric d then (if requested = [] then Inr [] else Inl MetricFieldsForbidden)
      else if \<exists>i \<in> set requested. i \<notin> fst ` set (field_map d) then Inl UnknownField
      else (case required_failure (map snd (field_map d)) requested allowed of
              Some e \<Rightarrow> Inl e
            | None \<Rightarrow>
                let selected = filter (\<lambda>i. i \<in> set allowed) requested
                in if selected = [] then Inl NoAllowedFields else Inr selected))"

subsection \<open>Authorization\<close>

record 'v policy_decision =
  pd_allowed :: bool
  pd_scope :: 'v
  pd_fields :: "string list"

definition selection_error :: "selection_failure \<Rightarrow> failure" where
  "selection_error e =
     (if e \<in> set [RequiredFieldNotRequested, RequiredFieldNotAllowed, NoAllowedFields]
      then access_failure ''INSUFFICIENT_FIELD_PERMISSION'' 403 ''A required or selected field is unavailable.''
      else access_failure ''INVALID_FIELD_SELECTION'' 400 ''Selected fields are invalid.'')"

text \<open>\<open>PolicyAuthorizationEvaluator.authorize\<close>, with the answer of the policy as an argument.\<close>

definition authorize_fields :: "(raw_actor \<Rightarrow> failure + 'v policy_decision) \<Rightarrow> data_source_descriptor \<Rightarrow> raw_actor option \<Rightarrow> string list \<Rightarrow>
    failure + string list \<times> 'v" where
  "authorize_fields policy d actor requested =
     (if \<not> is_actor_context actor
      then Inl (access_failure ''INVALID_ACTOR_CONTEXT'' 401 ''Authentication context is invalid.'')
      else res_bind (policy (the actor)) (\<lambda>decision.
        if \<not> pd_allowed decision then Inl (access_failure ''SOURCE_FORBIDDEN'' 403 ''Data source access is forbidden.'')
        else let allowed = filter (\<lambda>i. i \<in> fst ` set (field_map d)) (pd_fields decision)
             in (case resolve_selection d requested allowed of
                   Inl e \<Rightarrow> Inl (selection_error e)
                 | Inr selected \<Rightarrow> Inr (selected, pd_scope decision))))"

subsection \<open>Tables\<close>

text \<open>A cell has a kind and a value, or is null.\<close>

type_synonym 'v cell = "(output_kind \<times> 'v) option"

record 'v table_row =
  tr_key :: string
  tr_values :: "(string \<times> 'v cell) list"

record ('v, 'p) table_records =
  tb_fields :: "string list"
  tb_rows :: "'v table_row list"
  tb_page :: 'p

definition cell_ok :: "data_source_descriptor \<Rightarrow> string list \<Rightarrow> string \<times> 'v cell \<Rightarrow> bool" where
  "cell_ok d returned = (\<lambda>(i, cell).
     case map_of (field_map d) i of
       None \<Rightarrow> False
     | Some f \<Rightarrow> if i \<notin> set returned then False
         else (case cell of None \<Rightarrow> of_nullable f | Some (k, _) \<Rightarrow> k = of_kind f))"

definition projection_valid :: "data_source_descriptor \<Rightarrow> string list \<Rightarrow> ('v, 'p) table_records \<Rightarrow> bool \<Rightarrow> bool" where
  "projection_valid d selected t allow_additional =
     (if is_metric d then False
      else if (\<exists>i \<in> set (tb_fields t). i \<notin> fst ` set (field_map d)) \<or> (\<exists>i \<in> set selected. i \<notin> set (tb_fields t)) then False
      else if \<not> allow_additional \<and> (length (tb_fields t) \<noteq> length selected \<or> (\<exists>i \<in> set (tb_fields t). i \<notin> set selected)) then False
      else list_all (\<lambda>row. list_all (cell_ok d (tb_fields t)) (tr_values row)) (tb_rows t))"

text \<open>\<open>TableProjectionRedactor.redact\<close>; a value that does not parse as a table is \<open>Inl\<close>.\<close>

definition redact_projection :: "data_source_descriptor \<Rightarrow> string list \<Rightarrow> 'm + ('v, 'p) table_records \<Rightarrow>
    failure + ('m + ('v, 'p) table_records)" where
  "redact_projection d selected v =
     (if is_metric d then Inr v
      else (case v of
              Inl _ \<Rightarrow> Inl (access_failure ''INVALID_OUTPUT_CONTRACT'' 500 ''Data source violated its output contract.'')
            | Inr t \<Rightarrow>
                if \<not> projection_valid d selected t True
                then Inl (access_failure ''INVALID_SOURCE_OUTPUT'' 500 ''Data source omitted an authorized field.'')
                else Inr (Inr \<lparr>tb_fields = filter (\<lambda>i. i \<in> set selected) (tb_fields t),
                  tb_rows = map (\<lambda>row. \<lparr>tr_key = tr_key row, tr_values = filter (\<lambda>(i, _). i \<in> set selected) (tr_values row)\<rparr>) (tb_rows t),
                  tb_page = tb_page t\<rparr>)))"

end
