(* ===== verification/DataSourceBudget.thy ===== *)
theory DataSourceBudget
  imports DataSourceFields ToolBudget
begin

text \<open>
  Query budgets, \<open>packages/runtime/src/data-source-budget.ts\<close>, and the query controls of
  \<open>packages/contracts/src/data-source-query.ts\<close>. Tokens are rational numbers where the code has doubles; a
  lease is the closure \<open>release\<close> and carries an identity, as in \<open>ToolBudget\<close>.
\<close>

subsection \<open>Controls\<close>

datatype scalar = ScalarText string | ScalarNumber js_number | ScalarBool bool | ScalarNull

datatype filter_value = OneScalar scalar | ManyScalars "scalar list"

record page_query =
  pq_number :: int
  pq_size :: int

record cursor_query =
  cq_after :: "string option"
  cq_before :: "string option"
  cq_size :: int

record filter_query =
  fq_field :: string
  fq_operator :: filter_operator
  fq_value :: "filter_value option"

datatype sort_direction = Ascending | Descending

record sort_query =
  so_field :: string
  so_direction :: sort_direction

record query_controls =
  qk_page :: "page_query option"
  qk_cursor :: "cursor_query option"
  qk_filters :: "filter_query list"
  qk_sort :: "sort_query list"

definition scalar_ok :: "scalar \<Rightarrow> bool" where
  "scalar_ok v = (case v of ScalarText s \<Rightarrow> length s \<le> 512 | ScalarNumber n \<Rightarrow> n \<noteq> NonFinite | _ \<Rightarrow> True)"

definition cursor_text_ok :: "string option \<Rightarrow> bool" where
  "cursor_text_ok v = (case v of None \<Rightarrow> True | Some s \<Rightarrow> 1 \<le> length s \<and> length s \<le> 2048)"

definition page_ok :: "page_query \<Rightarrow> bool" where
  "page_ok p \<longleftrightarrow> in_bounds 1 1000000 (pq_number p) \<and> in_bounds 1 100 (pq_size p)"

definition cursor_ok :: "cursor_query \<Rightarrow> bool" where
  "cursor_ok c \<longleftrightarrow> cursor_text_ok (cq_after c) \<and> cursor_text_ok (cq_before c) \<and> in_bounds 1 100 (cq_size c)
     \<and> \<not> (cq_after c \<noteq> None \<and> cq_before c \<noteq> None)"

definition filter_ok :: "filter_query \<Rightarrow> bool" where
  "filter_ok f \<longleftrightarrow> field_id (fq_field f)
     \<and> (case fq_value f of
          None \<Rightarrow> True
        | Some (OneScalar v) \<Rightarrow> scalar_ok v
        | Some (ManyScalars vs) \<Rightarrow> 1 \<le> length vs \<and> length vs \<le> 20 \<and> list_all scalar_ok vs)
     \<and> (let null_operator = fq_operator f = FIsNull \<or> fq_operator f = FIsNotNull
        in \<not> (null_operator \<and> fq_value f \<noteq> None) \<and> \<not> (\<not> null_operator \<and> fq_value f = None))"

definition sort_ok :: "sort_query \<Rightarrow> bool" where
  "sort_ok s \<longleftrightarrow> field_id (so_field s)"

definition controls_ok :: "query_controls \<Rightarrow> bool" where
  "controls_ok c \<longleftrightarrow> (case qk_page c of None \<Rightarrow> True | Some p \<Rightarrow> page_ok p) \<and> (case qk_cursor c of None \<Rightarrow> True | Some q \<Rightarrow> cursor_ok q)
     \<and> length (qk_filters c) \<le> 32 \<and> list_all filter_ok (qk_filters c) \<and> length (qk_sort c) \<le> 16 \<and> list_all sort_ok (qk_sort c)
     \<and> \<not> (qk_page c \<noteq> None \<and> qk_cursor c \<noteq> None)"

subsection \<open>The body of a query as JavaScript data\<close>

fun operator_text :: "filter_operator \<Rightarrow> string" where
  "operator_text FEq = ''eq''"
| "operator_text FNeq = ''neq''"
| "operator_text FIn = ''in''"
| "operator_text FNotIn = ''not-in''"
| "operator_text FContains = ''contains''"
| "operator_text FStartsWith = ''starts-with''"
| "operator_text FEndsWith = ''ends-with''"
| "operator_text FGt = ''gt''"
| "operator_text FGte = ''gte''"
| "operator_text FLt = ''lt''"
| "operator_text FLte = ''lte''"
| "operator_text FIsNull = ''is-null''"
| "operator_text FIsNotNull = ''is-not-null''"

fun scalar_value :: "scalar \<Rightarrow> js_value" where
  "scalar_value (ScalarText s) = JsString s"
| "scalar_value (ScalarNumber n) = JsNumber n"
| "scalar_value (ScalarBool b) = JsBool b"
| "scalar_value ScalarNull = JsNull"

text \<open>A new object at the end of the heap.\<close>

definition new_object :: "js_object \<Rightarrow> js_object list \<Rightarrow> js_value \<times> js_object list" where
  "new_object obj h = (JsRef (length h), h @ [obj])"

definition new_record :: "(string \<times> js_value) list \<Rightarrow> js_object list \<Rightarrow> js_value \<times> js_object list" where
  "new_record kvs = new_object (JsObject True (map (\<lambda>(k, v). (StringKey k, DataProperty v)) kvs))"

definition new_array :: "js_value list \<Rightarrow> js_object list \<Rightarrow> js_value \<times> js_object list" where
  "new_array items = new_object (JsArray (map Some items) False)"

fun new_all :: "('a \<Rightarrow> js_object list \<Rightarrow> js_value \<times> js_object list) \<Rightarrow> 'a list \<Rightarrow> js_object list \<Rightarrow> js_value list \<times> js_object list" where
  "new_all f [] h = ([], h)"
| "new_all f (x # xs) h = (case f x h of (v, h1) \<Rightarrow> case new_all f xs h1 of (vs, h2) \<Rightarrow> (v # vs, h2))"

definition optional :: "string \<Rightarrow> js_value option \<Rightarrow> (string \<times> js_value) list" where
  "optional k v = (case v of None \<Rightarrow> [] | Some w \<Rightarrow> [(k, w)])"

definition new_filter :: "filter_query \<Rightarrow> js_object list \<Rightarrow> js_value \<times> js_object list" where
  "new_filter f h =
     (case (case fq_value f of
              None \<Rightarrow> (None, h)
            | Some (OneScalar v) \<Rightarrow> (Some (scalar_value v), h)
            | Some (ManyScalars vs) \<Rightarrow> (case new_array (map scalar_value vs) h of (v, h1) \<Rightarrow> (Some v, h1)))
      of (v, h1) \<Rightarrow>
        new_record ([(''field'', JsString (fq_field f)), (''operator'', JsString (operator_text (fq_operator f)))] @ optional ''value'' v) h1)"

definition new_sort :: "sort_query \<Rightarrow> js_object list \<Rightarrow> js_value \<times> js_object list" where
  "new_sort s = new_record [(''field'', JsString (so_field s)),
     (''direction'', JsString (case so_direction s of Ascending \<Rightarrow> ''asc'' | Descending \<Rightarrow> ''desc''))]"

definition new_page :: "page_query \<Rightarrow> js_object list \<Rightarrow> js_value \<times> js_object list" where
  "new_page p = new_record [(''number'', JsNumber (Finite (pq_number p))), (''size'', JsNumber (Finite (pq_size p)))]"

definition new_cursor :: "cursor_query \<Rightarrow> js_object list \<Rightarrow> js_value \<times> js_object list" where
  "new_cursor c = new_record (optional ''after'' (map_option JsString (cq_after c)) @ optional ''before'' (map_option JsString (cq_before c))
     @ [(''size'', JsNumber (Finite (cq_size c)))])"

definition new_optional :: "('a \<Rightarrow> js_object list \<Rightarrow> js_value \<times> js_object list) \<Rightarrow> 'a option \<Rightarrow> js_object list \<Rightarrow> js_value option \<times> js_object list" where
  "new_optional f v h = (case v of None \<Rightarrow> (None, h) | Some x \<Rightarrow> (case f x h of (w, h1) \<Rightarrow> (Some w, h1)))"

definition new_controls :: "query_controls \<Rightarrow> js_object list \<Rightarrow> js_value \<times> js_object list" where
  "new_controls c h =
     (case new_optional new_page (qk_page c) h of (page, h1) \<Rightarrow>
      case new_optional new_cursor (qk_cursor c) h1 of (cursor, h2) \<Rightarrow>
      case new_all new_filter (qk_filters c) h2 of (filters, h3) \<Rightarrow>
      case new_array filters h3 of (filter_array, h4) \<Rightarrow>
      case new_all new_sort (qk_sort c) h4 of (sorts, h5) \<Rightarrow>
      case new_array sorts h5 of (sort_array, h6) \<Rightarrow>
        new_record (optional ''page'' page @ optional ''cursor'' cursor @ [(''filters'', filter_array), (''sort'', sort_array)]) h6)"

text \<open>\<open>{ input, query, selectedFields }\<close>\<close>

definition query_data :: "js_data \<Rightarrow> query_controls \<Rightarrow> string list \<Rightarrow> js_data" where
  "query_data = (\<lambda>(h, input) c selected.
     case new_controls c h of (controls, h1) \<Rightarrow>
     case new_array (map JsString selected) h1 of (field_array, h2) \<Rightarrow>
     case new_record [(''input'', input), (''query'', controls), (''selectedFields'', field_array)] h2 of (body, h3) \<Rightarrow> (h3, body))"

definition query_failure :: "string \<Rightarrow> int \<Rightarrow> string \<Rightarrow> failure" where
  "query_failure code status detail = gateway_failure code status detail"

definition invalid_body :: failure where
  "invalid_body = query_failure ''INVALID_QUERY_BODY'' 400 ''Query data must be bounded JSON.''"

text \<open>\<open>TextEncoder.encode(undefined)\<close> encodes the empty text.\<close>

definition query_bytes :: "failure \<Rightarrow> js_data \<Rightarrow> failure + int" where
  "query_bytes e = (\<lambda>(h, v).
     case json_text h [] v of Inl _ \<Rightarrow> Inl e | Inr None \<Rightarrow> Inr 0 | Inr (Some s) \<Rightarrow> Inr (int (length (utf8 s))))"

definition query_depth :: "js_data \<Rightarrow> failure + nat" where
  "query_depth = (\<lambda>(h, v). case json_depth h False [] v of Inl _ \<Rightarrow> Inl invalid_body | Inr n \<Rightarrow> Inr n)"

subsection \<open>Declared operations\<close>

fun check_filters :: "data_source_descriptor \<Rightarrow> string list \<Rightarrow> filter_query list \<Rightarrow> failure + unit" where
  "check_filters d selected [] = Inr ()"
| "check_filters d selected (f # fs) =
     (if (case map_of (field_map d) (fq_field f) of None \<Rightarrow> True | Some field \<Rightarrow> fq_operator f \<notin> set (of_filters field))
      then Inl (query_failure ''FILTER_NOT_ALLOWED'' 400 ''A requested filter is not declared by the source.'')
      else if fq_field f \<notin> set selected
      then Inl (query_failure ''FILTER_FIELD_FORBIDDEN'' 403 ''A requested filter field is unavailable.'')
      else check_filters d selected fs)"

fun check_sorts :: "data_source_descriptor \<Rightarrow> string list \<Rightarrow> string list \<Rightarrow> sort_query list \<Rightarrow> failure + unit" where
  "check_sorts d selected seen [] = Inr ()"
| "check_sorts d selected seen (s # ss) =
     (if (case map_of (field_map d) (so_field s) of None \<Rightarrow> True | Some field \<Rightarrow> \<not> of_sortable field) \<or> so_field s \<in> set seen
      then Inl (query_failure ''SORT_NOT_ALLOWED'' 400 ''A requested sort is not declared by the source.'')
      else if so_field s \<notin> set selected
      then Inl (query_failure ''SORT_FIELD_FORBIDDEN'' 403 ''A requested sort field is unavailable.'')
      else check_sorts d selected (set_add (so_field s) seen) ss)"

definition page_size :: "query_controls \<Rightarrow> int option" where
  "page_size c = (case qk_page c of Some p \<Rightarrow> Some (pq_size p) | None \<Rightarrow> map_option cq_size (qk_cursor c))"

definition over :: "int \<Rightarrow> int \<Rightarrow> int \<Rightarrow> bool" where
  "over n limit platform \<longleftrightarrow> n > limit \<or> n > platform"

definition validate_operations :: "data_source_descriptor \<Rightarrow> query_controls \<Rightarrow> string list \<Rightarrow> failure + unit" where
  "validate_operations d c selected =
     (let limits = sd_limits d
      in if over (int (length selected)) (sl_fields limits) (sl_fields platform_ceilings)
      then Inl (query_failure ''SELECTED_FIELD_LIMIT_EXCEEDED'' 400 ''Too many fields were selected.'')
      else if over (int (length (qk_filters c))) (sl_filters limits) (sl_filters platform_ceilings)
      then Inl (query_failure ''FILTER_LIMIT_EXCEEDED'' 400 ''Too many filters were requested.'')
      else if over (int (length (qk_sort c))) (sl_sorts limits) (sl_sorts platform_ceilings)
      then Inl (query_failure ''SORT_LIMIT_EXCEEDED'' 400 ''Too many sort fields were requested.'')
      else if is_metric d then
        (if qk_page c \<noteq> None \<or> qk_cursor c \<noteq> None \<or> qk_filters c \<noteq> [] \<or> qk_sort c \<noteq> []
         then Inl (query_failure ''QUERY_OPERATION_NOT_DECLARED'' 400 ''The source does not declare tabular query operations.'')
         else Inr ())
      else (case page_size c of
          None \<Rightarrow> Inl (query_failure ''QUERY_PAGINATION_REQUIRED'' 400 ''Exactly one page or cursor request is required.'')
        | Some n \<Rightarrow>
            if (if qk_page c = None then CursorMode else OffsetMode) \<notin> set (sd_pagination d)
            then Inl (query_failure ''QUERY_PAGINATION_NOT_SUPPORTED'' 400 ''The requested pagination mode is not supported by the source.'')
            else if over n (sl_page_size limits) (sl_page_size platform_ceilings)
            then Inl (query_failure ''PAGE_LIMIT_EXCEEDED'' 400 ''The requested page is too large.'')
            else res_bind (check_filters d selected (qk_filters c)) (\<lambda>_. check_sorts d selected [] (qk_sort c))))"

fun source_class :: "cost_class \<Rightarrow> class_ceiling" where
  "source_class Low = \<lparr>cc_concurrency = 64, cc_rate = 600, cc_base_cost = 1\<rparr>"
| "source_class Medium = \<lparr>cc_concurrency = 16, cc_rate = 300, cc_base_cost = 5\<rparr>"
| "source_class High = \<lparr>cc_concurrency = 4, cc_rate = 60, cc_base_cost = 10\<rparr>"

definition query_cost :: "data_source_descriptor \<Rightarrow> query_controls \<Rightarrow> string list \<Rightarrow> int" where
  "query_cost d c selected =
     (let page_cost = (case page_size c of None \<Rightarrow> 0 | Some n \<Rightarrow> (n + 24) div 25)
      in cc_base_cost (source_class (sl_cost_class (sd_limits d))) + int (length selected) + int (length (qk_filters c)) * 2
         + int (length (qk_sort c)) + page_cost)"

subsection \<open>\<open>evaluate\<close> and \<open>release\<close>\<close>

record source_budget =
  sb_active :: "(string, int) js_map"
  sb_buckets :: "(string, rate_bucket) js_map"
  sb_next :: nat
  sb_released :: "nat list"

record source_lease =
  qe_object :: nat
  qe_key :: string

record budgeted_query =
  bq_controls :: query_controls
  bq_timeout_ms :: int
  bq_lease :: source_lease

definition js_text :: "js_value \<Rightarrow> string" where
  "js_text v = (case v of JsString s \<Rightarrow> s | _ \<Rightarrow> [])"

text \<open>The key of an accepted actor, whose kind and identifier are strings.\<close>

definition actor_source_key :: "raw_actor option \<Rightarrow> string \<Rightarrow> failure + string" where
  "actor_source_key actor source =
     (if \<not> is_actor_context actor then Inl (query_failure ''INVALID_ACTOR_CONTEXT'' 401 ''Authentication context is invalid.'')
      else let identity = the (ra_effective (the actor))
           in Inr (nul_join [js_text (ri_kind identity), js_text (ri_id identity), source]))"

definition source_concurrency :: "data_source_descriptor \<Rightarrow> int" where
  "source_concurrency d = min (sl_concurrency (sd_limits d))
     (min (cc_concurrency (source_class (sl_cost_class (sd_limits d)))) (sl_concurrency platform_ceilings))"

definition source_rate :: "data_source_descriptor \<Rightarrow> int" where
  "source_rate d = min (sl_rate (sd_limits d)) (min (cc_rate (source_class (sl_cost_class (sd_limits d)))) (sl_rate platform_ceilings))"

definition source_capacity :: "data_source_descriptor \<Rightarrow> int" where
  "source_capacity d = min (sl_burst (sd_limits d)) (sl_burst platform_ceilings)"

definition source_tokens :: "data_source_descriptor \<Rightarrow> string \<Rightarrow> int \<Rightarrow> source_budget \<Rightarrow> rat" where
  "source_tokens d key now s =
     (let capacity = of_int (source_capacity d);
          previous = map_get_or (sb_buckets s) key \<lparr>rb_tokens = capacity, rb_updated = now\<rparr>;
          elapsed = max 0 (now - rb_updated previous)
      in min capacity (rb_tokens previous + of_int (elapsed * source_rate d) / 60000))"

text \<open>The checks before the counters; the controls are \<open>None\<close> where they do not parse.\<close>

definition check_query :: "data_source_descriptor \<Rightarrow> js_data \<Rightarrow> query_controls option \<Rightarrow> string list \<Rightarrow> failure + query_controls" where
  "check_query d input controls selected =
     (case controls of
        None \<Rightarrow> Inl (query_failure ''INVALID_QUERY_CONTROLS'' 400 ''Query controls are invalid.'')
      | Some c \<Rightarrow>
          if \<not> controls_ok c then Inl (query_failure ''INVALID_QUERY_CONTROLS'' 400 ''Query controls are invalid.'')
          else res_bind (validate_operations d c selected) (\<lambda>_.
               let body = query_data input c selected in
               res_bind (query_depth body) (\<lambda>depth.
               if over (int depth) (sl_depth (sd_limits d)) (sl_depth platform_ceilings)
               then Inl (query_failure ''QUERY_DEPTH_EXCEEDED'' 400 ''The query body is too deeply nested.'')
               else res_bind (query_bytes invalid_body body) (\<lambda>bytes.
               if bytes > sl_body_bytes (sd_limits d)
               then Inl (query_failure ''QUERY_BODY_TOO_LARGE'' 413 ''The query body is too large.'')
               else if query_cost d c selected > sl_cost (sd_limits d)
               then Inl (query_failure ''QUERY_COST_EXCEEDED'' 429 ''The query cost budget was exceeded.'')
               else Inr c))))"

definition evaluate_query :: "data_source_descriptor \<Rightarrow> bool \<Rightarrow> js_data \<Rightarrow> query_controls option \<Rightarrow> raw_actor option \<Rightarrow> string list \<Rightarrow> int \<Rightarrow>
    source_budget \<Rightarrow> (failure + budgeted_query) \<times> source_budget" where
  "evaluate_query d aborted input controls actor selected now s =
     (if aborted then (Inl (query_failure ''QUERY_CANCELLED'' 499 ''The query was cancelled.''), s)
      else case res_bind (check_query d input controls selected) (\<lambda>c.
                  res_bind (actor_source_key actor (sd_id d)) (\<lambda>key. Inr (c, key))) of
        Inl e \<Rightarrow> (Inl e, s)
      | Inr (c, key) \<Rightarrow>
          let current = map_get_or (sb_active s) key 0; tokens = source_tokens d key now s
          in if current \<ge> source_concurrency d
             then (Inl (query_failure ''QUERY_CONCURRENCY_EXCEEDED'' 429 ''Too many source queries are running.''), s)
             else if tokens < 1
             then (Inl (query_failure ''QUERY_RATE_EXCEEDED'' 429 ''The source query rate was exceeded.''),
                   s\<lparr>sb_buckets := AList.update key \<lparr>rb_tokens = tokens, rb_updated = now\<rparr> (sb_buckets s)\<rparr>)
             else (Inr \<lparr>bq_controls = c, bq_timeout_ms = min (sl_timeout_ms (sd_limits d)) (sl_timeout_ms platform_ceilings),
                        bq_lease = \<lparr>qe_object = sb_next s, qe_key = key\<rparr>\<rparr>,
                   s\<lparr>sb_buckets := AList.update key \<lparr>rb_tokens = tokens - 1, rb_updated = now\<rparr> (sb_buckets s),
                     sb_active := AList.update key (current + 1) (sb_active s), sb_next := Suc (sb_next s)\<rparr>))"

definition release_query :: "source_lease \<Rightarrow> source_budget \<Rightarrow> source_budget" where
  "release_query l s =
     (if qe_object l \<in> set (sb_released s) then s
      else let remaining = map_get_or (sb_active s) (qe_key l) 1 - 1
           in s\<lparr>sb_released := qe_object l # sb_released s,
                sb_active := (if remaining \<le> 0 then AList.delete (qe_key l) (sb_active s)
                              else AList.update (qe_key l) remaining (sb_active s))\<rparr>)"

definition assert_result :: "data_source_descriptor \<Rightarrow> js_data \<Rightarrow> failure + unit" where
  "assert_result d v =
     res_bind (query_bytes (query_failure ''INVALID_SOURCE_OUTPUT'' 500 ''Query data must be bounded JSON.'') v) (\<lambda>bytes.
       if bytes > sl_result_bytes (sd_limits d)
       then Inl (query_failure ''QUERY_RESULT_TOO_LARGE'' 500 ''The data-source result is too large.'') else Inr ())"

definition new_source_budget :: source_budget where
  "new_source_budget = \<lparr>sb_active = [], sb_buckets = [], sb_next = 0, sb_released = []\<rparr>"

end
