(* ===== verification/DataSourceBudgetProperties.thy ===== *)
theory DataSourceBudgetProperties
  imports DataSourceBudget
begin

text \<open>
  What a data source serves and what a query may ask: the fields of an answer are those that the policy
  allows, a query filters and sorts by no other field, and everything it asks stays within the limits.
\<close>

subsection \<open>Fields\<close>

lemma update_fresh: "k \<notin> fst ` set m \<Longrightarrow> AList.update k v m = m @ [(k, v)]"
  by (induction m) auto

lemma field_map_distinct:
  assumes "distinct (map of_id (declared_fields d))"
  shows "field_map d = map (\<lambda>f. (of_id f, f)) (declared_fields d)"
proof -
  have "fold (\<lambda>f m. AList.update (of_id f) f m) fs (map (\<lambda>f. (of_id f, f)) gs) = map (\<lambda>f. (of_id f, f)) (gs @ fs)"
    if "distinct (map of_id (gs @ fs))" for fs gs :: "output_field list"
    using that
  proof (induction fs arbitrary: gs)
    case (Cons f fs)
    then have "of_id f \<notin> fst ` set (map (\<lambda>f. (of_id f, f)) gs)" by (force simp: image_image)
    then show ?case using Cons.IH [of "gs @ [f]"] Cons.prems by (simp add: update_fresh)
  qed simp
  from this [of "[]" "declared_fields d"] show ?thesis using assms by (simp add: field_map_def)
qed

lemma descriptor_fields:
  assumes "descriptor_ok d"
  shows "fst ` set (field_map d) = of_id ` set (declared_fields d)"
    and "map_of (field_map d) i = Some f \<longleftrightarrow> f \<in> set (declared_fields d) \<and> of_id f = i"
    and "map snd (field_map d) = declared_fields d"
proof -
  have distinct: "distinct (map of_id (declared_fields d))" using assms by (simp add: descriptor_ok_def)
  note map = field_map_distinct [OF distinct]
  show "fst ` set (field_map d) = of_id ` set (declared_fields d)" "map snd (field_map d) = declared_fields d"
    by (auto simp: map image_image comp_def)
  show "map_of (field_map d) i = Some f \<longleftrightarrow> f \<in> set (declared_fields d) \<and> of_id f = i"
    unfolding map by (subst map_of_eq_Some_iff) (use distinct in \<open>auto simp: comp_def\<close>)
qed

lemma required_failure_None:
  "required_failure fs requested allowed = None \<longleftrightarrow>
     (\<forall>f \<in> set fs. of_required f \<longrightarrow> of_id f \<in> set requested \<and> of_id f \<in> set allowed)"
  by (induction fs) auto

lemma resolve_selection_ok:
  assumes "resolve_selection d requested allowed = Inr selected" "\<not> is_metric d" "descriptor_ok d"
  shows "selected = filter (\<lambda>i. i \<in> set allowed) requested \<and> distinct requested \<and> set requested \<subseteq> of_id ` set (declared_fields d)
    \<and> int (length selected) \<le> sl_fields (sd_limits d)
    \<and> (\<forall>f \<in> set (declared_fields d). of_required f \<longrightarrow> of_id f \<in> set selected)"
proof -
  have "required_failure (declared_fields d) requested allowed = None" "selected = filter (\<lambda>i. i \<in> set allowed) requested"
      "distinct requested" "\<forall>i \<in> set requested. i \<in> fst ` set (field_map d)" "int (length requested) \<le> sl_fields (sd_limits d)"
    using assms by (auto simp: resolve_selection_def descriptor_fields(3) Let_def split: if_splits option.splits)
  moreover have "int (length selected) \<le> sl_fields (sd_limits d)"
    using calculation(2,5) by (auto intro: order_trans [OF of_nat_mono [OF length_filter_le]])
  ultimately show ?thesis unfolding required_failure_None descriptor_fields(1) [OF assms(3)] by auto
qed

lemma authorize_fields_ok:
  "authorize_fields policy d actor requested = Inr (selected, scope) \<Longrightarrow>
     is_actor_context actor \<and> (\<exists>decision. policy (the actor) = Inr decision \<and> pd_allowed decision \<and> scope = pd_scope decision
       \<and> resolve_selection d requested (filter (\<lambda>i. i \<in> fst ` set (field_map d)) (pd_fields decision)) = Inr selected)"
  by (auto simp: authorize_fields_def Let_def split: if_splits sum.splits)

lemma authorize_selected:
  assumes "authorize_fields policy d actor requested = Inr (selected, scope)" "\<not> is_metric d" "descriptor_ok d" "policy (the actor) = Inr decision"
  shows "selected = filter (\<lambda>i. i \<in> set (pd_fields decision)) requested \<and> set selected \<subseteq> of_id ` set (declared_fields d)
    \<and> (\<forall>f \<in> set (declared_fields d). of_required f \<longrightarrow> of_id f \<in> set selected)"
proof -
  have "resolve_selection d requested (filter (\<lambda>i. i \<in> fst ` set (field_map d)) (pd_fields decision)) = Inr selected"
    using authorize_fields_ok [OF assms(1)] assms(4) by auto
  note selection = resolve_selection_ok [OF this assms(2,3)]
  then have "selected = filter (\<lambda>i. i \<in> set (pd_fields decision)) requested"
    by (auto simp: descriptor_fields(1) [OF assms(3)] intro!: filter_cong)
  then show ?thesis using selection by auto
qed

text \<open>C5: the table that a source serves, after authorization and redaction, has exactly the requested fields
  that the policy allows, among them every required field; no row has a value under another field, every
  value has the declared kind, or is null where the field allows it; and for the selected fields rows and
  values are those of the handler.\<close>

theorem served_fields_authorized:
  assumes "descriptor_ok d" "\<not> is_metric d" "authorize_fields policy d actor requested = Inr (selected, scope)"
    and "redact_projection d selected (Inr t) = Inr (Inr t')"
  shows "\<exists>decision. policy (the actor) = Inr decision \<and> pd_allowed decision \<and> scope = pd_scope decision
    \<and> set (tb_fields t') = {i \<in> set requested. i \<in> set (pd_fields decision)}
    \<and> (\<forall>f \<in> set (declared_fields d). of_required f \<longrightarrow> of_id f \<in> set (tb_fields t'))
    \<and> (\<forall>row \<in> set (tb_rows t'). \<forall>(i, cell) \<in> set (tr_values row). i \<in> set requested \<and> i \<in> set (pd_fields decision)
         \<and> (\<exists>f \<in> set (declared_fields d). of_id f = i \<and> (case cell of None \<Rightarrow> of_nullable f | Some (k, _) \<Rightarrow> k = of_kind f)))
    \<and> map (\<lambda>row. (tr_key row, tr_values row)) (tb_rows t')
        = map (\<lambda>row. (tr_key row, filter (\<lambda>(i, _). i \<in> set (pd_fields decision) \<and> i \<in> set requested) (tr_values row))) (tb_rows t)"
proof -
  obtain decision where decision: "policy (the actor) = Inr decision" "pd_allowed decision" "scope = pd_scope decision"
    using authorize_fields_ok [OF assms(3)] by blast
  note selected = authorize_selected [OF assms(3,2,1) decision(1)]
  have valid: "projection_valid d selected t True"
    and t': "tb_fields t' = filter (\<lambda>i. i \<in> set selected) (tb_fields t)"
      "tb_rows t' = map (\<lambda>row. \<lparr>tr_key = tr_key row, tr_values = filter (\<lambda>(i, _). i \<in> set selected) (tr_values row)\<rparr>) (tb_rows t)"
    using assms(2,4) by (auto simp: redact_projection_def split: if_splits)
  have selected_set: "set selected = {i \<in> set requested. i \<in> set (pd_fields decision)}" using selected by auto
  have rows: "set selected \<subseteq> set (tb_fields t)" "\<forall>row \<in> set (tb_rows t). \<forall>v \<in> set (tr_values row). cell_ok d (tb_fields t) v"
    using valid assms(2) by (auto simp: projection_valid_def list_all_iff split: if_splits)
  have fields: "set (tb_fields t') = set selected" using rows(1) by (auto simp: t')
  have cells: "\<exists>f \<in> set (declared_fields d). of_id f = i \<and> (case cell of None \<Rightarrow> of_nullable f | Some (k, _) \<Rightarrow> k = of_kind f)"
    if "cell_ok d (tb_fields t) (i, cell)" for i cell
    using that by (auto simp: cell_ok_def descriptor_fields(2) [OF assms(1)] split: option.splits if_splits)
  have "\<forall>row \<in> set (tb_rows t'). \<forall>(i, cell) \<in> set (tr_values row). i \<in> set requested \<and> i \<in> set (pd_fields decision)
         \<and> (\<exists>f \<in> set (declared_fields d). of_id f = i \<and> (case cell of None \<Rightarrow> of_nullable f | Some (k, _) \<Rightarrow> k = of_kind f))"
    using rows(2) cells selected_set unfolding t'(2) by fastforce
  moreover have "map (\<lambda>row. (tr_key row, tr_values row)) (tb_rows t')
        = map (\<lambda>row. (tr_key row, filter (\<lambda>(i, _). i \<in> set (pd_fields decision) \<and> i \<in> set requested) (tr_values row))) (tb_rows t)"
    unfolding t'(2) selected_set by (auto simp: comp_def intro!: filter_cong)
  ultimately show ?thesis using decision fields selected_set selected by (intro exI [of _ decision]) auto
qed

subsection \<open>Queries\<close>

lemma check_filters_ok:
  assumes "descriptor_ok d"
  shows "check_filters d selected fs = Inr u \<longleftrightarrow>
    (\<forall>f \<in> set fs. fq_field f \<in> set selected \<and> (\<exists>field \<in> set (declared_fields d). of_id field = fq_field f \<and> fq_operator f \<in> set (of_filters field)))"
proof (induction fs)
  case (Cons f fs)
  have "(case map_of (field_map d) (fq_field f) of None \<Rightarrow> True | Some field \<Rightarrow> fq_operator f \<notin> set (of_filters field))
      \<longleftrightarrow> \<not> (\<exists>field. map_of (field_map d) (fq_field f) = Some field \<and> fq_operator f \<in> set (of_filters field))"
    by (auto split: option.split)
  then show ?case using Cons by (auto simp: descriptor_fields(2) [OF assms])
qed simp

lemma check_sorts_ok:
  assumes "descriptor_ok d"
  shows "check_sorts d selected seen ss = Inr u \<longleftrightarrow> distinct (map so_field ss) \<and> set seen \<inter> so_field ` set ss = {} \<and>
    (\<forall>s \<in> set ss. so_field s \<in> set selected \<and> (\<exists>field \<in> set (declared_fields d). of_id field = so_field s \<and> of_sortable field))"
proof (induction ss arbitrary: seen)
  case (Cons s ss)
  have "(case map_of (field_map d) (so_field s) of None \<Rightarrow> True | Some field \<Rightarrow> \<not> of_sortable field)
      \<longleftrightarrow> \<not> (\<exists>field. map_of (field_map d) (so_field s) = Some field \<and> of_sortable field)"
    by (auto split: option.split)
  then show ?case using Cons by (auto simp: descriptor_fields(2) [OF assms])
qed simp

lemma validate_operations_ok:
  assumes "descriptor_ok d" "\<not> is_metric d"
  shows "validate_operations d c selected = Inr u \<longleftrightarrow>
      int (length selected) \<le> min (sl_fields (sd_limits d)) 64 \<and> int (length (qk_filters c)) \<le> min (sl_filters (sd_limits d)) 32
    \<and> int (length (qk_sort c)) \<le> min (sl_sorts (sd_limits d)) 16
    \<and> (\<exists>n. page_size c = Some n \<and> n \<le> min (sl_page_size (sd_limits d)) 100
         \<and> (if qk_page c = None then CursorMode else OffsetMode) \<in> set (sd_pagination d))
    \<and> (\<forall>f \<in> set (qk_filters c). fq_field f \<in> set selected
         \<and> (\<exists>field \<in> set (declared_fields d). of_id field = fq_field f \<and> fq_operator f \<in> set (of_filters field)))
    \<and> distinct (map so_field (qk_sort c))
    \<and> (\<forall>s \<in> set (qk_sort c). so_field s \<in> set selected \<and> (\<exists>field \<in> set (declared_fields d). of_id field = so_field s \<and> of_sortable field))"
  using assms(2) unfolding validate_operations_def Let_def over_def platform_ceilings_def
  by (auto simp: check_filters_ok [OF assms(1)] check_sorts_ok [OF assms(1)] split: option.split)

lemma evaluate_query_ok:
  "evaluate_query d aborted input controls actor selected now s = (Inr q, s') \<Longrightarrow>
     \<not> aborted \<and> (\<exists>key. check_query d input controls selected = Inr (bq_controls q) \<and> actor_source_key actor (sd_id d) = Inr key
       \<and> map_get_or (sb_active s) key 0 < source_concurrency d \<and> map_get_or (sb_active s') key 0 = map_get_or (sb_active s) key 0 + 1
       \<and> qe_key (bq_lease q) = key \<and> bq_timeout_ms q = min (sl_timeout_ms (sd_limits d)) 30000
       \<and> 1 \<le> source_tokens d key now s
       \<and> map_of (sb_buckets s') key = Some \<lparr>rb_tokens = source_tokens d key now s - 1, rb_updated = now\<rparr>)"
  by (cases "check_query d input controls selected"; cases "actor_source_key actor (sd_id d)")
     (auto simp: evaluate_query_def Let_def platform_ceilings_def split: if_splits)

lemma check_query_ok:
  "check_query d input controls selected = Inr c \<Longrightarrow> controls = Some c \<and> controls_ok c \<and> validate_operations d c selected = Inr ()
     \<and> query_cost d c selected \<le> sl_cost (sd_limits d)
     \<and> (\<exists>n. query_depth (query_data input c selected) = Inr n \<and> int n \<le> min (sl_depth (sd_limits d)) 8)
     \<and> (\<exists>n. query_bytes invalid_body (query_data input c selected) = Inr n \<and> n \<le> sl_body_bytes (sd_limits d))"
  by (auto simp: check_query_def Let_def over_def platform_ceilings_def refuse_Inr split: option.splits if_splits)

text \<open>What the bucket of a key holds at a moment, by the limits of the descriptor, its cost class and the platform.\<close>

lemma source_tokens_limits:
  "source_tokens d key now s =
     (case map_of (sb_buckets s) key of
        None \<Rightarrow> of_int (min (sl_burst (sd_limits d)) 60)
      | Some b \<Rightarrow> min (of_int (min (sl_burst (sd_limits d)) 60))
          (rb_tokens b + of_int (max 0 (now - rb_updated b)
             * min (sl_rate (sd_limits d)) (min (cc_rate (source_class (sl_cost_class (sd_limits d)))) 600)) / 60000))"
  by (simp add: source_tokens_def source_capacity_def source_rate_def platform_ceilings_def map_get_or_def Let_def split: option.split)

text \<open>C7: an admitted query on a table filters and sorts only by fields that the policy allows to its actor
  and that were requested, with operators that the descriptor declares and no field twice in the order, so
  that no condition can probe a hidden field. It asks for one page or cursor in a declared mode. Its selected
  fields, page, filters, orders, depth, bytes and cost are each at most the limit of the descriptor and the
  ceiling of the platform, and it runs under the lower of the two timeouts. Its admission adds one to the
  counter of the actor's running queries on the source, which stays within the descriptor, the cost class and
  the platform; and it takes one token from their bucket, which earned tokens at the least of the three rates
  since it was last used, never above the lower of the two bursts, and held at least one.\<close>

theorem admitted_query_authorized:
  assumes "descriptor_ok d" "\<not> is_metric d" "authorize_fields policy d actor requested = Inr (selected, scope)"
    and "policy (the actor) = Inr decision"
    and "evaluate_query d aborted input controls actor selected now s = (Inr q, s')"
  shows "controls = Some (bq_controls q) \<and> \<not> aborted
    \<and> (\<forall>f \<in> set (qk_filters (bq_controls q)). fq_field f \<in> set requested \<and> fq_field f \<in> set (pd_fields decision)
         \<and> (\<exists>field \<in> set (declared_fields d). of_id field = fq_field f \<and> fq_operator f \<in> set (of_filters field)))
    \<and> (\<forall>x \<in> set (qk_sort (bq_controls q)). so_field x \<in> set requested \<and> so_field x \<in> set (pd_fields decision)
         \<and> (\<exists>field \<in> set (declared_fields d). of_id field = so_field x \<and> of_sortable field))
    \<and> distinct (map so_field (qk_sort (bq_controls q)))
    \<and> (\<exists>n. page_size (bq_controls q) = Some n \<and> 1 \<le> n \<and> n \<le> min (sl_page_size (sd_limits d)) 100)
    \<and> (qk_page (bq_controls q) = None \<or> qk_cursor (bq_controls q) = None)
    \<and> (if qk_page (bq_controls q) = None then CursorMode else OffsetMode) \<in> set (sd_pagination d)
    \<and> int (length selected) \<le> min (sl_fields (sd_limits d)) 64
    \<and> int (length (qk_filters (bq_controls q))) \<le> min (sl_filters (sd_limits d)) 32
    \<and> int (length (qk_sort (bq_controls q))) \<le> min (sl_sorts (sd_limits d)) 16
    \<and> (\<exists>n. query_depth (query_data input (bq_controls q) selected) = Inr n \<and> int n \<le> min (sl_depth (sd_limits d)) 8)
    \<and> (\<exists>n. query_bytes invalid_body (query_data input (bq_controls q) selected) = Inr n \<and> n \<le> min (sl_body_bytes (sd_limits d)) 1048576)
    \<and> query_cost d (bq_controls q) selected \<le> min (sl_cost (sd_limits d)) 1000
    \<and> bq_timeout_ms q = min (sl_timeout_ms (sd_limits d)) 30000
    \<and> actor_source_key actor (sd_id d) = Inr (qe_key (bq_lease q))
    \<and> map_get_or (sb_active s') (qe_key (bq_lease q)) 0 = map_get_or (sb_active s) (qe_key (bq_lease q)) 0 + 1
    \<and> map_get_or (sb_active s') (qe_key (bq_lease q)) 0
        \<le> min (sl_concurrency (sd_limits d)) (min (cc_concurrency (source_class (sl_cost_class (sd_limits d)))) 64)
    \<and> (\<exists>tokens. 1 \<le> tokens
         \<and> tokens = (case map_of (sb_buckets s) (qe_key (bq_lease q)) of
             None \<Rightarrow> of_int (min (sl_burst (sd_limits d)) 60)
           | Some b \<Rightarrow> min (of_int (min (sl_burst (sd_limits d)) 60))
               (rb_tokens b + of_int (max 0 (now - rb_updated b)
                  * min (sl_rate (sd_limits d)) (min (cc_rate (source_class (sl_cost_class (sd_limits d)))) 600)) / 60000))
         \<and> map_of (sb_buckets s') (qe_key (bq_lease q)) = Some \<lparr>rb_tokens = tokens - 1, rb_updated = now\<rparr>)"
proof -
  define c where "c = bq_controls q"
  note ok = evaluate_query_ok [OF assms(5)]
  then have check: "check_query d input controls selected = Inr c" by (auto simp: c_def)
  note checked = check_query_ok [OF check]
  note operations = validate_operations_ok [OF assms(1,2), THEN iffD1, of c selected "()"]
  have selected: "set selected = {i \<in> set requested. i \<in> set (pd_fields decision)}"
    using authorize_selected [OF assms(3,2,1,4)] by auto
  have limits: "sl_body_bytes (sd_limits d) \<le> 1048576" "sl_cost (sd_limits d) \<le> 1000"
    using assms(1) by (simp_all add: descriptor_ok_def limits_ok_def in_bounds_def platform_ceilings_def)
  have sizes: "1 \<le> n" if "page_size c = Some n" for n
    using that checked by (auto simp: page_size_def controls_ok_def page_ok_def cursor_ok_def in_bounds_def split: option.splits)
  have one: "qk_page c = None \<or> qk_cursor c = None" using checked by (auto simp: controls_ok_def)
  let ?key = "qe_key (bq_lease q)"
  have admitted: "\<not> aborted" "bq_timeout_ms q = min (sl_timeout_ms (sd_limits d)) 30000" "actor_source_key actor (sd_id d) = Inr ?key"
      "map_get_or (sb_active s') ?key 0 = map_get_or (sb_active s) ?key 0 + 1" "map_get_or (sb_active s') ?key 0 \<le> source_concurrency d"
      "1 \<le> source_tokens d ?key now s"
      "map_of (sb_buckets s') ?key = Some \<lparr>rb_tokens = source_tokens d ?key now s - 1, rb_updated = now\<rparr>"
    using ok by auto
  have running: "map_get_or (sb_active s') ?key 0
      \<le> min (sl_concurrency (sd_limits d)) (min (cc_concurrency (source_class (sl_cost_class (sd_limits d)))) 64)"
    using admitted(5) by (simp add: source_concurrency_def platform_ceilings_def)
  have asked: "controls = Some c"
    "\<forall>f \<in> set (qk_filters c). fq_field f \<in> set requested \<and> fq_field f \<in> set (pd_fields decision)
       \<and> (\<exists>field \<in> set (declared_fields d). of_id field = fq_field f \<and> fq_operator f \<in> set (of_filters field))"
    "\<forall>x \<in> set (qk_sort c). so_field x \<in> set requested \<and> so_field x \<in> set (pd_fields decision)
       \<and> (\<exists>field \<in> set (declared_fields d). of_id field = so_field x \<and> of_sortable field)"
    "distinct (map so_field (qk_sort c))"
    "\<exists>n. page_size c = Some n \<and> 1 \<le> n \<and> n \<le> min (sl_page_size (sd_limits d)) 100"
    "(if qk_page c = None then CursorMode else OffsetMode) \<in> set (sd_pagination d)"
    using operations checked sizes unfolding selected by auto
  have bounded: "int (length selected) \<le> min (sl_fields (sd_limits d)) 64" "int (length (qk_filters c)) \<le> min (sl_filters (sd_limits d)) 32"
    "int (length (qk_sort c)) \<le> min (sl_sorts (sd_limits d)) 16" "query_cost d c selected \<le> min (sl_cost (sd_limits d)) 1000"
    "\<exists>n. query_depth (query_data input c selected) = Inr n \<and> int n \<le> min (sl_depth (sd_limits d)) 8"
    "\<exists>n. query_bytes invalid_body (query_data input c selected) = Inr n \<and> n \<le> min (sl_body_bytes (sd_limits d)) 1048576"
    using operations checked limits by auto
  show ?thesis
    unfolding c_def [symmetric] source_tokens_limits [symmetric]
    by (intro conjI exI [of _ "source_tokens d ?key now s"]) (rule asked bounded admitted one running refl)+
qed

subsection \<open>Witnesses\<close>

text \<open>A source of two fields of which the policy allows one.\<close>

definition sample_field :: "string \<Rightarrow> bool \<Rightarrow> output_field" where
  "sample_field i required = \<lparr>of_id = i, of_kind = TextKind, of_required = required, of_nullable = False, of_permission = ''sales.read'',
     of_sortable = True, of_filters = [FEq]\<rparr>"

definition sample_source :: data_source_descriptor where
  "sample_source = \<lparr>sd_id = ''sales.orders'', sd_version = 1, sd_owner = ''module.sales'', sd_contract = TableRecords 1,
     sd_schema = (''sales.orders'', 1), sd_audience = AuthenticatedAudience, sd_surfaces = [Workspace], sd_permission = ''sales.read'',
     sd_hash = ''sha256:'' @ replicate 64 CHR ''0'', sd_revision = 1, sd_title = ''Orders'', sd_description = None, sd_inputs = [],
     sd_fields = Some [sample_field ''name'' True, sample_field ''margin'' False], sd_pagination = [OffsetMode],
     sd_limits = \<lparr>sl_fields = 8, sl_page_size = 50, sl_filters = 2, sl_sorts = 1, sl_body_bytes = 4096, sl_result_bytes = 4096, sl_depth = 6,
       sl_timeout_ms = 1000, sl_concurrency = 2, sl_rate = 60, sl_burst = 2, sl_cost_class = Low, sl_cost = 100\<rparr>, sd_cache = ActorCache\<rparr>"

definition sample_policy :: "raw_actor \<Rightarrow> failure + int policy_decision" where
  "sample_policy actor = Inr \<lparr>pd_allowed = True, pd_scope = 0, pd_fields = [''name'']\<rparr>"

definition sample_table :: "(int, unit) table_records" where
  "sample_table = \<lparr>tb_fields = [''name'', ''margin''],
     tb_rows = [\<lparr>tr_key = ''1'', tr_values = [(''name'', Some (TextKind, 1)), (''margin'', Some (TextKind, 2))]\<rparr>], tb_page = ()\<rparr>"

definition sample_controls :: query_controls where
  "sample_controls = \<lparr>qk_page = Some \<lparr>pq_number = 1, pq_size = 50\<rparr>, qk_cursor = None,
     qk_filters = [\<lparr>fq_field = ''name'', fq_operator = FEq, fq_value = Some (OneScalar (ScalarText ''a''))\<rparr>],
     qk_sort = [\<lparr>so_field = ''name'', so_direction = Ascending\<rparr>]\<rparr>"

lemma sample_source_ok: "descriptor_ok sample_source" "\<not> is_metric sample_source"
  by code_simp+

lemma sample_authorized: "authorize_fields sample_policy sample_source (sample_actor ''user'') [''name'', ''margin''] = Inr ([''name''], 0)"
  by code_simp

theorem served_fields_authorized_witness:
  "case redact_projection sample_source [''name''] (Inr sample_table :: unit + _) of
     Inr (Inr t) \<Rightarrow> set (tb_fields t) = {''name''} | _ \<Rightarrow> False"
proof -
  have "(case redact_projection sample_source [''name''] (Inr sample_table :: unit + _) of Inr (Inr t) \<Rightarrow> True | _ \<Rightarrow> False) = True" by code_simp
  then obtain t where t: "redact_projection sample_source [''name''] (Inr sample_table :: unit + _) = Inr (Inr t)" by (auto split: sum.splits)
  from served_fields_authorized [OF sample_source_ok sample_authorized t]
  have "set (tb_fields t) = {i \<in> set [''name'', ''margin'']. i \<in> set [''name'']}" by (auto simp: sample_policy_def)
  then show ?thesis unfolding t by auto
qed

theorem admitted_query_authorized_witness:
  "case evaluate_query sample_source False ([], JsNull) (Some sample_controls) (sample_actor ''user'') [''name''] 0 new_source_budget of
     (Inr q, s) \<Rightarrow> list_all (\<lambda>f. fq_field f = ''name'') (qk_filters (bq_controls q)) \<and> map_get_or (sb_active s) (qe_key (bq_lease q)) 0 \<le> 2
       \<and> query_cost sample_source (bq_controls q) [''name''] \<le> 100 \<and> bq_timeout_ms q = 1000
       \<and> map_of (sb_buckets s) (qe_key (bq_lease q)) = Some \<lparr>rb_tokens = 1, rb_updated = 0\<rparr>
   | _ \<Rightarrow> False"
proof -
  have check: "check_query sample_source ([], JsNull) (Some sample_controls) [''name''] = Inr sample_controls" by code_simp
  have key: "actor_source_key (sample_actor ''user'') (sd_id sample_source) = Inr (nul_join [''user'', ''u1'', ''sales.orders''])" by code_simp
  have "\<exists>q s. evaluate_query sample_source False ([], JsNull) (Some sample_controls) (sample_actor ''user'') [''name''] 0 new_source_budget = (Inr q, s)"
    unfolding evaluate_query_def check key
    by (simp add: new_source_budget_def source_tokens_def source_capacity_def source_concurrency_def source_rate_def sample_source_def
        platform_ceilings_def Let_def)
  then obtain q s where run: "evaluate_query sample_source False ([], JsNull) (Some sample_controls) (sample_actor ''user'') [''name''] 0 new_source_budget
      = (Inr q, s)" by blast
  have decision: "sample_policy (the (sample_actor ''user'')) = Inr \<lparr>pd_allowed = True, pd_scope = 0, pd_fields = [''name'']\<rparr>"
    by (simp add: sample_policy_def)
  from admitted_query_authorized [OF sample_source_ok sample_authorized decision run]
  show ?thesis unfolding run by (auto simp: sample_source_def new_source_budget_def list_all_iff)
qed

end
