(* ===== verification/DataSourceCache.thy ===== *)
theory DataSourceCache
  imports DataSourceFields
begin

text \<open>
  The cache of data-source answers, \<open>packages/runtime/src/data-source-cache.ts\<close>. The values of a request
  live in one heap of JavaScript objects; the properties read here are data properties. \<open>frozenClone\<close>
  protects a cached envelope from later writes: values of the model do not change, so an envelope is its
  own copy. The digest of the key is SHA-256, the function \<open>sha256_text\<close>. \<open>key\<close> is the only step that
  waits, and it reads no state, so a lookup and a store are atomic.
\<close>

subsection \<open>Reading values\<close>

definition get_property :: "js_object list \<Rightarrow> js_value \<Rightarrow> string \<Rightarrow> js_value" where
  "get_property h v k =
     (case v of
        JsRef a \<Rightarrow>
          (if a < length h
           then (case h ! a of
                   JsObject _ props \<Rightarrow> (case map_of props (StringKey k) of Some (DataProperty w) \<Rightarrow> w | _ \<Rightarrow> JsUndefined)
                 | JsArray _ _ \<Rightarrow> JsUndefined)
           else JsUndefined)
      | _ \<Rightarrow> JsUndefined)"

definition is_object :: "js_object list \<Rightarrow> js_value \<Rightarrow> bool" where
  "is_object h v = (case v of JsRef a \<Rightarrow> a < length h | _ \<Rightarrow> False)"

definition read_identity :: "js_object list \<Rightarrow> js_value \<Rightarrow> raw_identity option" where
  "read_identity h v =
     (if is_object h v then Some \<lparr>ri_kind = get_property h v ''kind'', ri_id = get_property h v ''id''\<rparr> else None)"

definition read_actor :: "js_object list \<Rightarrow> js_value \<Rightarrow> raw_actor option" where
  "read_actor h v =
     (if is_object h v
      then Some \<lparr>ra_principal = read_identity h (get_property h v ''principal''),
                 ra_effective = read_identity h (get_property h v ''effectiveActor''),
                 ra_impersonation =
                   (let i = get_property h v ''impersonation''
                    in if i = JsUndefined then NoImpersonation
                       else if \<not> is_object h i then NotAnImpersonation
                       else ImpersonationOf (get_property h i ''reason'') (get_property h i ''approvedBy''))\<rparr>
      else None)"

subsection \<open>The key\<close>

record cache_context =
  kc_heap :: "js_object list"
  kc_descriptor :: data_source_descriptor
  kc_surface :: surface
  kc_actor :: js_value
  kc_authorization :: js_value
  kc_input :: js_value
  kc_controls :: js_value
  kc_fields :: "string list"
  kc_scope :: js_value

definition cache_error :: failure where
  "cache_error = gateway_failure ''INVALID_CACHE_CONTEXT'' 500 ''Data-source cache context is invalid.''"

definition context_keys :: "string list" where
  "context_keys = [''permissionFingerprint'', ''locale'', ''timezone'', ''publicationRevision'', ''featureRevision'']"

definition max_cache_key_bytes :: nat where
  "max_cache_key_bytes = 1048576"

definition authorization_context :: "js_object list \<Rightarrow> js_value \<Rightarrow> failure + unit" where
  "authorization_context h v =
     (case v of
        JsRef a \<Rightarrow>
          (if \<not> a < length h then Inl cache_error
           else (case h ! a of
              JsArray _ _ \<Rightarrow> Inl cache_error
            | JsObject _ props \<Rightarrow>
                if \<exists>p \<in> set props. (case p of (StringKey k, _) \<Rightarrow> k \<notin> set context_keys | _ \<Rightarrow> False) then Inl cache_error
                else if \<exists>k \<in> set context_keys. (let field = get_property h v k
                       in if k = ''permissionFingerprint'' then \<not> text_between 1 256 field
                          else field \<noteq> JsUndefined \<and> \<not> text_between 1 128 field)
                then Inl cache_error else Inr ()))
      | _ \<Rightarrow> Inl cache_error)"

fun cache_class_text :: "cache_class \<Rightarrow> string" where
  "cache_class_text NoStore = ''no-store''"
| "cache_class_text ActorCache = ''actor''"
| "cache_class_text AuthorizationContextCache = ''authorization-context''"
| "cache_class_text PublicCache = ''public''"

fun surface_text :: "surface \<Rightarrow> string" where
  "surface_text Workspace = ''workspace''"
| "surface_text Cms = ''cms''"
| "surface_text PublicSurface = ''public''"
| "surface_text Driver = ''driver''"
| "surface_text Mobile = ''mobile''"
| "surface_text System = ''system''"

definition impersonated :: "cache_context \<Rightarrow> bool" where
  "impersonated c \<longleftrightarrow> get_property (kc_heap c) (kc_actor c) ''impersonation'' \<noteq> JsUndefined"

text \<open>The actor of the key: none where the authorization context alone decides.\<close>

definition key_actor :: "cache_context \<Rightarrow> js_value" where
  "key_actor c = (if sd_cache (kc_descriptor c) = ActorCache then kc_actor c else if impersonated c then kc_actor c else JsNull)"

definition key_json :: "cache_context \<Rightarrow> json_error + json" where
  "key_json c =
     (let d = kc_descriptor c; read = read_json (kc_heap c) [] in
      res_bind (read (kc_input c)) (\<lambda>input.
      res_bind (read (kc_controls c)) (\<lambda>controls.
      res_bind (read (kc_scope c)) (\<lambda>scope.
      res_bind (read (kc_authorization c)) (\<lambda>identity.
      res_bind (read (key_actor c)) (\<lambda>actor.
        Inr (JObj
          [(''source'', JObj [(''id'', JStr (sd_id d)), (''version'', JNum (sd_version d)),
              (''structuralCompatibilityHash'', JStr (sd_hash d)), (''presentationMetadataRevision'', JNum (sd_revision d))]),
           (''cacheClass'', JStr (cache_class_text (sd_cache d))), (''surface'', JStr (surface_text (kc_surface c))),
           (''input'', input), (''controls'', controls), (''selectedFields'', JArr (map JStr (kc_fields c))),
           (''recordScope'', scope), (''identity'', identity), (''actor'', actor)])))))))"

definition cache_key :: "cache_context \<Rightarrow> failure + string option" where
  "cache_key c =
     (let d = kc_descriptor c; actor = read_actor (kc_heap c) (kc_actor c) in
      if sd_cache d = NoStore then Inr None
      else if \<not> is_actor_context actor then Inl cache_error
      else if sd_audience d = InternalAudience \<and> sd_cache d = AuthorizationContextCache then Inl cache_error
      else res_bind (authorization_context (kc_heap c) (kc_authorization c)) (\<lambda>_.
        let public_actor = effective_kind (the actor) \<in> {PublicActor, PublicSession} in
        if sd_cache d = PublicCache \<and> (sd_audience d \<noteq> PublicAudience \<or> kc_surface c \<noteq> PublicSurface \<or> \<not> public_actor \<or> impersonated c)
        then Inl cache_error
        else (case key_json c of
                Inl _ \<Rightarrow> Inl cache_error
              | Inr t \<Rightarrow>
                  if length (utf8 (canonical_text t)) > max_cache_key_bytes then Inl cache_error
                  else Inr (Some (sha256_text (canonical_text t))))))"

subsection \<open>The policy\<close>

record 'e cache =
  ca_ttl :: int
  ca_max :: int
  ca_entries :: "(string, int \<times> 'e) js_map"

definition new_cache :: "int option \<Rightarrow> int option \<Rightarrow> 'e cache option" where
  "new_cache ttl limit =
     (let t = (case ttl of None \<Rightarrow> 30000 | Some n \<Rightarrow> n); m = (case limit of None \<Rightarrow> 1000 | Some n \<Rightarrow> n)
      in if \<not> is_safe_integer t \<or> t < 1 \<or> \<not> is_safe_integer m \<or> m < 1 then None
         else Some \<lparr>ca_ttl = t, ca_max = m, ca_entries = []\<rparr>)"

definition cache_lookup :: "int \<Rightarrow> cache_context \<Rightarrow> 'e cache \<Rightarrow> (failure + 'e option) \<times> 'e cache" where
  "cache_lookup now c s =
     (case cache_key c of
        Inl e \<Rightarrow> (Inl e, s)
      | Inr None \<Rightarrow> (Inr None, s)
      | Inr (Some key) \<Rightarrow>
          (case map_of (ca_entries s) key of
             None \<Rightarrow> (Inr None, s)
           | Some (expires, envelope) \<Rightarrow>
               if expires \<le> now then (Inr None, s\<lparr>ca_entries := AList.delete key (ca_entries s)\<rparr>)
               else (Inr (Some envelope), s)))"

text \<open>The oldest entries go first; the limit is positive.\<close>

fun evict :: "int \<Rightarrow> (string, 'v) js_map \<Rightarrow> (string, 'v) js_map" where
  "evict limit [] = []"
| "evict limit (x # xs) = (if int (length (x # xs)) \<ge> limit then evict limit xs else x # xs)"

definition cache_store :: "int \<Rightarrow> cache_context \<Rightarrow> 'e \<Rightarrow> 'e cache \<Rightarrow> (failure + unit) \<times> 'e cache" where
  "cache_store now c envelope s =
     (case cache_key c of
        Inl e \<Rightarrow> (Inl e, s)
      | Inr None \<Rightarrow> (Inr (), s)
      | Inr (Some key) \<Rightarrow>
          (Inr (), s\<lparr>ca_entries := AList.update key (now + ca_ttl s, envelope) (evict (ca_max s) (AList.delete key (ca_entries s)))\<rparr>))"

text \<open>A history of calls.\<close>

datatype 'e cache_call = CacheLookup int cache_context | CacheStore int cache_context 'e

definition cache_step :: "'e cache_call \<Rightarrow> 'e cache \<Rightarrow> 'e cache" where
  "cache_step call s =
     (case call of CacheLookup now c \<Rightarrow> snd (cache_lookup now c s) | CacheStore now c e \<Rightarrow> snd (cache_store now c e s))"

definition cache_run :: "'e cache_call list \<Rightarrow> 'e cache \<Rightarrow> 'e cache" where
  "cache_run calls s = fold cache_step calls s"

end
