(* ===== verification/DataSourceCacheProperties.thy ===== *)
theory DataSourceCacheProperties
  imports DataSourceCache CanonicalJsonProperties
begin

text \<open>
  A hit is the answer to the same request: the key binds the source, the request and the authority, and
  what the table holds is what was stored last under a key.
\<close>

subsection \<open>What a key binds\<close>

definition same_value :: "cache_context \<Rightarrow> js_value \<Rightarrow> cache_context \<Rightarrow> js_value \<Rightarrow> bool" where
  "same_value c v c' v' \<longleftrightarrow> (\<exists>t u. read_json (kc_heap c) [] v = Inr t \<and> read_json (kc_heap c') [] v' = Inr u \<and> same_json t u)"

text \<open>The requests agree in everything that may decide the answer; the actors where the source caches by
  actor or one is impersonated.\<close>

definition same_request :: "cache_context \<Rightarrow> cache_context \<Rightarrow> bool" where
  "same_request c c' \<longleftrightarrow>
     sd_id (kc_descriptor c) = sd_id (kc_descriptor c') \<and> sd_version (kc_descriptor c) = sd_version (kc_descriptor c')
   \<and> sd_hash (kc_descriptor c) = sd_hash (kc_descriptor c') \<and> sd_revision (kc_descriptor c) = sd_revision (kc_descriptor c')
   \<and> sd_cache (kc_descriptor c) = sd_cache (kc_descriptor c') \<and> kc_surface c = kc_surface c' \<and> kc_fields c = kc_fields c'
   \<and> same_value c (kc_input c) c' (kc_input c') \<and> same_value c (kc_controls c) c' (kc_controls c')
   \<and> same_value c (kc_scope c) c' (kc_scope c') \<and> same_value c (kc_authorization c) c' (kc_authorization c')
   \<and> (sd_cache (kc_descriptor c) = ActorCache \<longrightarrow> same_value c (kc_actor c) c' (kc_actor c'))
   \<and> (impersonated c \<or> impersonated c' \<longrightarrow> same_value c (kc_actor c) c' (kc_actor c'))"

lemma cache_class_text_inject: "cache_class_text a = cache_class_text b \<longleftrightarrow> a = b"
  by (cases a; cases b) simp_all

lemma surface_text_inject: "surface_text a = surface_text b \<longleftrightarrow> a = b"
  by (cases a; cases b) simp_all

lemma key_json_parts:
  assumes "key_json c = Inr t"
  obtains input controls scope identity actor where
    "read_json (kc_heap c) [] (kc_input c) = Inr input" "read_json (kc_heap c) [] (kc_controls c) = Inr controls"
    "read_json (kc_heap c) [] (kc_scope c) = Inr scope" "read_json (kc_heap c) [] (kc_authorization c) = Inr identity"
    "read_json (kc_heap c) [] (key_actor c) = Inr actor"
    "t = JObj
          [(''source'', JObj [(''id'', JStr (sd_id (kc_descriptor c))), (''version'', JNum (sd_version (kc_descriptor c))),
              (''structuralCompatibilityHash'', JStr (sd_hash (kc_descriptor c))), (''presentationMetadataRevision'', JNum (sd_revision (kc_descriptor c)))]),
           (''cacheClass'', JStr (cache_class_text (sd_cache (kc_descriptor c)))), (''surface'', JStr (surface_text (kc_surface c))),
           (''input'', input), (''controls'', controls), (''selectedFields'', JArr (map JStr (kc_fields c))),
           (''recordScope'', scope), (''identity'', identity), (''actor'', actor)]"
  using assms by (auto simp: key_json_def Let_def)

lemma impersonated_object: "impersonated c \<Longrightarrow> read_json (kc_heap c) [] (kc_actor c) = Inr t \<Longrightarrow> \<exists>kvs. t = JObj kvs"
  by (auto simp: impersonated_def get_property_def read_json.simps split: js_value.splits if_splits js_object.splits)

lemma key_json_binds:
  assumes "key_json c = Inr t" "key_json c' = Inr u" "same_json t u"
  shows "same_request c c'"
proof -
  obtain i1 q1 s1 d1 a1 where c: "read_json (kc_heap c) [] (kc_input c) = Inr i1" "read_json (kc_heap c) [] (kc_controls c) = Inr q1"
      "read_json (kc_heap c) [] (kc_scope c) = Inr s1" "read_json (kc_heap c) [] (kc_authorization c) = Inr d1"
      "read_json (kc_heap c) [] (key_actor c) = Inr a1" and t: "t = JObj
          [(''source'', JObj [(''id'', JStr (sd_id (kc_descriptor c))), (''version'', JNum (sd_version (kc_descriptor c))),
              (''structuralCompatibilityHash'', JStr (sd_hash (kc_descriptor c))), (''presentationMetadataRevision'', JNum (sd_revision (kc_descriptor c)))]),
           (''cacheClass'', JStr (cache_class_text (sd_cache (kc_descriptor c)))), (''surface'', JStr (surface_text (kc_surface c))),
           (''input'', i1), (''controls'', q1), (''selectedFields'', JArr (map JStr (kc_fields c))),
           (''recordScope'', s1), (''identity'', d1), (''actor'', a1)]"
    using key_json_parts [OF assms(1)] by metis
  obtain i2 q2 s2 d2 a2 where c': "read_json (kc_heap c') [] (kc_input c') = Inr i2" "read_json (kc_heap c') [] (kc_controls c') = Inr q2"
      "read_json (kc_heap c') [] (kc_scope c') = Inr s2" "read_json (kc_heap c') [] (kc_authorization c') = Inr d2"
      "read_json (kc_heap c') [] (key_actor c') = Inr a2" and u: "u = JObj
          [(''source'', JObj [(''id'', JStr (sd_id (kc_descriptor c'))), (''version'', JNum (sd_version (kc_descriptor c'))),
              (''structuralCompatibilityHash'', JStr (sd_hash (kc_descriptor c'))), (''presentationMetadataRevision'', JNum (sd_revision (kc_descriptor c')))]),
           (''cacheClass'', JStr (cache_class_text (sd_cache (kc_descriptor c')))), (''surface'', JStr (surface_text (kc_surface c'))),
           (''input'', i2), (''controls'', q2), (''selectedFields'', JArr (map JStr (kc_fields c'))),
           (''recordScope'', s2), (''identity'', d2), (''actor'', a2)]"
    using key_json_parts [OF assms(2)] by metis
  note entry = same_json_entry [OF assms(3) [unfolded t u]]
  have parts: "same_json i1 i2" "same_json q1 q2" "same_json s1 s2" "same_json d1 d2" "same_json a1 a2"
    using entry [of "''input''" i1] entry [of "''controls''" q1] entry [of "''recordScope''" s1] entry [of "''identity''" d1]
      entry [of "''actor''" a1] by simp_all
  have texts: "sd_cache (kc_descriptor c) = sd_cache (kc_descriptor c')" "kc_surface c = kc_surface c'" "kc_fields c = kc_fields c'"
    using entry [of "''cacheClass''" "JStr (cache_class_text (sd_cache (kc_descriptor c)))"] entry [of "''surface''" "JStr (surface_text (kc_surface c))"]
      entry [of "''selectedFields''" "JArr (map JStr (kc_fields c))"]
    by (simp_all add: cache_class_text_inject surface_text_inject same_strings del: same_json_simps(3))
  have "same_json (JObj [(''id'', JStr (sd_id (kc_descriptor c))), (''version'', JNum (sd_version (kc_descriptor c))),
              (''structuralCompatibilityHash'', JStr (sd_hash (kc_descriptor c))), (''presentationMetadataRevision'', JNum (sd_revision (kc_descriptor c)))])
      (JObj [(''id'', JStr (sd_id (kc_descriptor c'))), (''version'', JNum (sd_version (kc_descriptor c'))),
              (''structuralCompatibilityHash'', JStr (sd_hash (kc_descriptor c'))), (''presentationMetadataRevision'', JNum (sd_revision (kc_descriptor c')))])"
    using entry [of "''source''"] by simp
  note part = same_json_entry [OF this]
  have source: "sd_id (kc_descriptor c) = sd_id (kc_descriptor c')" "sd_version (kc_descriptor c) = sd_version (kc_descriptor c')"
      "sd_hash (kc_descriptor c) = sd_hash (kc_descriptor c')" "sd_revision (kc_descriptor c) = sd_revision (kc_descriptor c')"
    using part [of "''id''"] part [of "''version''"] part [of "''structuralCompatibilityHash''"] part [of "''presentationMetadataRevision''"] by simp_all
  have actor: "same_value c (key_actor c) c' (key_actor c')" unfolding same_value_def using c(5) c'(5) parts(5) by blast
  have actors: "same_value c (kc_actor c) c' (kc_actor c')" if "sd_cache (kc_descriptor c) = ActorCache \<or> impersonated c \<or> impersonated c'"
  proof (cases "sd_cache (kc_descriptor c) = ActorCache")
    case True
    then show ?thesis using actor texts(1) by (simp add: key_actor_def)
  next
    case False
    have "impersonated c \<longleftrightarrow> impersonated c'"
      using actor False texts(1) impersonated_object by (fastforce simp: same_value_def key_actor_def read_json.simps split: if_splits)
    then show ?thesis using actor False texts(1) that by (simp add: key_actor_def)
  qed
  show ?thesis
    unfolding same_request_def using source texts c c' parts actors by (auto simp: same_value_def)
qed

text \<open>Equal keys belong to the same request, or show two texts with one digest.\<close>

definition digest_collision :: "cache_context \<Rightarrow> cache_context \<Rightarrow> bool" where
  "digest_collision c c' \<longleftrightarrow> (\<exists>t u. key_json c = Inr t \<and> key_json c' = Inr u \<and> canonical_text t \<noteq> canonical_text u
     \<and> sha256_text (canonical_text t) = sha256_text (canonical_text u))"

lemma cache_key_Some: "cache_key c = Inr (Some k) \<Longrightarrow> \<exists>t. key_json c = Inr t \<and> k = sha256_text (canonical_text t)"
  by (auto simp: cache_key_def Let_def split: if_splits sum.splits)

lemma cache_key_binds:
  assumes "cache_key c = Inr (Some k)" "cache_key c' = Inr (Some k)"
  shows "same_request c c' \<or> digest_collision c c'"
proof -
  obtain t u where keys: "key_json c = Inr t" "key_json c' = Inr u" "sha256_text (canonical_text t) = sha256_text (canonical_text u)"
    using cache_key_Some assms by metis
  show ?thesis
  proof (cases "canonical_text t = canonical_text u")
    case True
    then have "same_json t u" by (rule canonical_text_same)
    then show ?thesis using key_json_binds keys by blast
  next
    case False
    then show ?thesis using keys by (auto simp: digest_collision_def)
  qed
qed

subsection \<open>What the table holds\<close>

text \<open>The last store under a key in a history.\<close>

definition last_stored :: "'e cache_call list \<Rightarrow> string \<Rightarrow> int \<Rightarrow> cache_context \<Rightarrow> 'e \<Rightarrow> bool" where
  "last_stored calls k t c e \<longleftrightarrow> (\<exists>before after. calls = before @ CacheStore t c e # after \<and> cache_key c = Inr (Some k)
     \<and> (\<forall>t' c' e'. CacheStore t' c' e' \<in> set after \<longrightarrow> cache_key c' \<noteq> Inr (Some k)))"

definition cache_holds :: "'e cache_call list \<Rightarrow> 'e cache \<Rightarrow> bool" where
  "cache_holds calls s \<longleftrightarrow> distinct (map fst (ca_entries s)) \<and> int (length (ca_entries s)) \<le> ca_max s
     \<and> (\<forall>k x e. map_of (ca_entries s) k = Some (x, e) \<longrightarrow> (\<exists>t c. last_stored calls k t c e \<and> x = t + ca_ttl s))"

lemma evict_suffix: "\<exists>n. evict limit m = drop n m"
proof (induction limit m rule: evict.induct)
  case (2 limit x xs)
  then show ?case by (metis drop_0 drop_Suc_Cons evict.simps(2))
qed simp

lemma evict_length: "1 \<le> limit \<Longrightarrow> int (length (evict limit m)) < limit"
  by (induction limit m rule: evict.induct) auto

lemma distinct_drop_keys: "distinct (map fst m) \<Longrightarrow> distinct (map fst (drop n m))"
  by (metis distinct_drop drop_map)

lemma map_of_drop: "distinct (map fst m) \<Longrightarrow> map_of (drop n m) k = Some v \<Longrightarrow> map_of m k = Some v"
  by (metis distinct_drop_keys in_set_dropD map_of_SomeD map_of_is_SomeI)

lemma last_stored_append:
  assumes "last_stored calls k t c e" "\<And>t' c' e'. call = CacheStore t' c' e' \<Longrightarrow> cache_key c' \<noteq> Inr (Some k)"
  shows "last_stored (calls @ [call]) k t c e"
proof -
  obtain before after where "calls = before @ CacheStore t c e # after" "cache_key c = Inr (Some k)"
      "\<And>t' c' e'. CacheStore t' c' e' \<in> set after \<Longrightarrow> cache_key c' \<noteq> Inr (Some k)"
    using assms(1) unfolding last_stored_def by blast
  note split = this
  have "calls @ [call] = before @ CacheStore t c e # (after @ [call])" using split(1) by simp
  moreover have "\<forall>t' c' e'. CacheStore t' c' e' \<in> set (after @ [call]) \<longrightarrow> cache_key c' \<noteq> Inr (Some k)"
    using split(3) assms(2) by auto
  ultimately show ?thesis unfolding last_stored_def using split(2) by blast
qed

lemma last_stored_new: "cache_key c = Inr (Some k) \<Longrightarrow> last_stored (calls @ [CacheStore now c e]) k now c e"
  unfolding last_stored_def by (rule exI [of _ calls], rule exI [of _ "[]"]) simp

lemma cache_step_holds:
  assumes "cache_holds calls s" "1 \<le> ca_max s"
  shows "cache_holds (calls @ [call]) (cache_step call s) \<and> ca_max (cache_step call s) = ca_max s \<and> ca_ttl (cache_step call s) = ca_ttl s"
proof (cases call)
  case (CacheLookup now c)
  have kept: "\<exists>t c'. last_stored (calls @ [call]) k t c' e \<and> x = t + ca_ttl s" if "map_of (ca_entries s) k = Some (x, e)" for k x e
    using assms(1) that last_stored_append [of calls _ _ _ _ call] unfolding cache_holds_def CacheLookup by blast
  have shorter: "int (length (AList.delete k (ca_entries s))) \<le> ca_max s" for k
    using assms(1) length_delete_le [of k "ca_entries s"] unfolding cache_holds_def by linarith
  have distinct: "distinct (map fst (ca_entries s))" using assms(1) by (simp add: cache_holds_def)
  have "cache_step call s = s \<or> (\<exists>k. cache_step call s = s\<lparr>ca_entries := AList.delete k (ca_entries s)\<rparr>)"
    unfolding CacheLookup cache_step_def cache_lookup_def by (auto split: sum.split option.split)
  then consider "cache_step call s = s" | k where "cache_step call s = s\<lparr>ca_entries := AList.delete k (ca_entries s)\<rparr>" by blast
  then show ?thesis
  proof cases
    case 1
    then show ?thesis using assms(1) kept by (simp add: cache_holds_def)
  next
    case (2 k)
    then show ?thesis using kept shorter distinct by (simp add: cache_holds_def)
  qed
next
  case (CacheStore now c e)
  show ?thesis
  proof (cases "\<exists>k. cache_key c = Inr (Some k)")
    case False
    then have "cache_step call s = s"
      unfolding CacheStore cache_step_def cache_store_def by (auto split: sum.splits option.splits)
    moreover have "\<exists>t c'. last_stored (calls @ [call]) k t c' e' \<and> x = t + ca_ttl s" if "map_of (ca_entries s) k = Some (x, e')" for k x e'
      using assms(1) that False last_stored_append [of calls _ _ _ _ call] unfolding cache_holds_def CacheStore by blast
    ultimately show ?thesis using assms(1) by (simp add: cache_holds_def)
  next
    case True
    then obtain k where k: "cache_key c = Inr (Some k)" by blast
    define rest where "rest = evict (ca_max s) (AList.delete k (ca_entries s))"
    have distinct: "distinct (map fst (AList.delete k (ca_entries s)))" using assms(1) by (simp add: cache_holds_def)
    obtain n where n: "rest = drop n (AList.delete k (ca_entries s))" using evict_suffix unfolding rest_def by blast
    have rest: "distinct (map fst rest)" unfolding n by (rule distinct_drop_keys [OF distinct])
    have rest_lookup: "map_of (ca_entries s) j = Some v \<and> j \<noteq> k" if "map_of rest j = Some v" for j v
      using map_of_drop [OF distinct that [unfolded n]] by (simp split: if_splits)
    have step: "cache_step call s = s\<lparr>ca_entries := AList.update k (now + ca_ttl s, e) rest\<rparr>"
      unfolding CacheStore cache_step_def cache_store_def rest_def using k by simp
    have "int (length (AList.update k (now + ca_ttl s, e) rest)) \<le> ca_max s"
      using evict_length [OF assms(2), of "AList.delete k (ca_entries s)"] by (simp add: rest_def [symmetric] length_update)
    moreover have "\<exists>t c'. last_stored (calls @ [call]) j t c' e' \<and> x = t + ca_ttl s"
      if "map_of (AList.update k (now + ca_ttl s, e) rest) j = Some (x, e')" for j x e'
    proof (cases "j = k")
      case True
      then have "e' = e" "x = now + ca_ttl s" using that by simp_all
      then show ?thesis using last_stored_new [OF k, of calls now e] True unfolding CacheStore by blast
    next
      case False
      then have "map_of (ca_entries s) j = Some (x, e')" using that rest_lookup by simp
      then obtain t c' where "last_stored calls j t c' e'" "x = t + ca_ttl s" using assms(1) unfolding cache_holds_def by blast
      moreover have "cache_key c \<noteq> Inr (Some j)" using k False by simp
      ultimately show ?thesis using last_stored_append [of calls j t c' e' call] unfolding CacheStore by blast
    qed
    ultimately show ?thesis unfolding step cache_holds_def using rest by simp
  qed
qed

lemma cache_run_holds:
  assumes "new_cache ttl limit = Some s0"
  shows "cache_holds calls (cache_run calls s0) \<and> ca_max (cache_run calls s0) = ca_max s0 \<and> ca_ttl (cache_run calls s0) = ca_ttl s0"
proof (induction calls rule: rev_induct)
  case Nil
  then show ?case using assms by (auto simp: cache_run_def cache_holds_def new_cache_def Let_def split: if_splits)
next
  case (snoc call calls)
  moreover have "1 \<le> ca_max s0" using assms by (auto simp: new_cache_def Let_def split: if_splits)
  ultimately show ?case using cache_step_holds [of calls "cache_run calls s0" call] by (simp add: cache_run_def)
qed

lemma cache_lookup_hit:
  assumes "cache_lookup now c s = (Inr (Some e), s')"
  obtains k x where "cache_key c = Inr (Some k)" "map_of (ca_entries s) k = Some (x, e)" "now < x" "s' = s"
proof (cases "cache_key c")
  case (Inr key)
  then obtain k where k: "cache_key c = Inr (Some k)" using assms by (cases key) (simp_all add: cache_lookup_def)
  then obtain x where "map_of (ca_entries s) k = Some (x, e)" "now < x" "s' = s"
    using assms by (auto simp: cache_lookup_def split: option.splits if_splits)
  then show ?thesis using k that by blast
qed (use assms in \<open>simp add: cache_lookup_def\<close>)

text \<open>C9: whatever was looked up and stored before, a hit is the envelope stored last under the key, within
  its time to live, and was stored for the same request: the same source and version, structure and
  presentation, surface, fields, input, controls, record scope and permission fingerprint, and the same
  actor if the source caches by actor or anyone is impersonated. The only other possibility is a pair of
  texts with one SHA-256 digest. The table never exceeds its limit.\<close>

theorem cache_hit_same_request:
  assumes "new_cache ttl limit = Some s0" "cache_lookup now c (cache_run calls s0) = (Inr (Some e), s')"
  shows "(\<exists>t c' before after. calls = before @ CacheStore t c' e # after \<and> now < t + ca_ttl s0
      \<and> (same_request c c' \<or> digest_collision c c')
      \<and> (\<forall>t' c'' e'. CacheStore t' c'' e' \<in> set after \<longrightarrow> cache_key c'' \<noteq> cache_key c))
    \<and> int (length (ca_entries s')) \<le> ca_max s0"
proof -
  note holds = cache_run_holds [OF assms(1), of calls]
  obtain k x where k: "cache_key c = Inr (Some k)" "map_of (ca_entries (cache_run calls s0)) k = Some (x, e)" "now < x"
      and s': "s' = cache_run calls s0"
    by (rule cache_lookup_hit [OF assms(2)])
  obtain t c' where stored: "last_stored calls k t c' e" "x = t + ca_ttl s0" using holds k(2) unfolding cache_holds_def by metis
  from stored(1) obtain before after where call: "calls = before @ CacheStore t c' e # after" "cache_key c' = Inr (Some k)"
      "\<forall>t' c' e'. CacheStore t' c' e' \<in> set after \<longrightarrow> cache_key c' \<noteq> Inr (Some k)"
    unfolding last_stored_def by blast
  have same: "same_request c c' \<or> digest_collision c c'" by (rule cache_key_binds [OF k(1) call(2)])
  have fresh: "now < t + ca_ttl s0" using k(3) stored(2) by simp
  have later: "\<forall>t' c'' e'. CacheStore t' c'' e' \<in> set after \<longrightarrow> cache_key c'' \<noteq> cache_key c" unfolding k(1) by (rule call(3))
  show ?thesis
  proof (rule conjI)
    show "\<exists>t c' before after. calls = before @ CacheStore t c' e # after \<and> now < t + ca_ttl s0
      \<and> (same_request c c' \<or> digest_collision c c')
      \<and> (\<forall>t' c'' e'. CacheStore t' c'' e' \<in> set after \<longrightarrow> cache_key c'' \<noteq> cache_key c)"
      by (rule exI)+ (rule conjI [OF call(1) conjI [OF fresh conjI [OF same later]]])
    show "int (length (ca_entries s')) \<le> ca_max s0" using holds unfolding s' cache_holds_def by simp
  qed
qed

subsection \<open>Witness\<close>

definition sample_cached_source :: data_source_descriptor where
  "sample_cached_source = \<lparr>sd_id = ''s'', sd_version = 1, sd_owner = ''module.s'', sd_contract = TableRecords 1, sd_schema = (''s'', 1),
     sd_audience = AuthenticatedAudience, sd_surfaces = [Workspace], sd_permission = ''s'', sd_hash = ''h'', sd_revision = 1, sd_title = ''S'',
     sd_description = None, sd_inputs = [], sd_fields = None, sd_pagination = [], sd_limits = platform_ceilings, sd_cache = ActorCache\<rparr>"

text \<open>The heap has the actor, the identity of its two roles, and the authorization context.\<close>

definition sample_cache_context :: cache_context where
  "sample_cache_context = \<lparr>kc_heap =
      [JsObject True [(StringKey ''principal'', DataProperty (JsRef 1)), (StringKey ''effectiveActor'', DataProperty (JsRef 1))],
       JsObject True [(StringKey ''kind'', DataProperty (JsString ''user'')), (StringKey ''id'', DataProperty (JsString ''u''))],
       JsObject True [(StringKey ''permissionFingerprint'', DataProperty (JsString ''f''))]],
     kc_descriptor = sample_cached_source, kc_surface = Workspace, kc_actor = JsRef 0, kc_authorization = JsRef 2,
     kc_input = JsNull, kc_controls = JsNull, kc_fields = [''a''], kc_scope = JsNull\<rparr>"

lemma utf8_length: "length (utf8 s) \<le> 2 * length s"
  by (induction s) (simp_all add: utf8_def utf8_char_def Let_def)

lemma sample_cache_key: "\<exists>k. cache_key sample_cache_context = Inr (Some k)"
proof -
  have guards: "is_actor_context (read_actor (kc_heap sample_cache_context) (kc_actor sample_cache_context))"
      "authorization_context (kc_heap sample_cache_context) (kc_authorization sample_cache_context) = Inr ()"
      "sd_cache (kc_descriptor sample_cache_context) = ActorCache"
    by code_simp+
  have "(case key_json sample_cache_context of Inr t \<Rightarrow> length (canonical_text t) \<le> 1000 | Inl _ \<Rightarrow> False) = True" by code_simp
  then obtain t where t: "key_json sample_cache_context = Inr t" "length (canonical_text t) \<le> 1000" by (auto split: sum.splits)
  then have "\<not> length (utf8 (canonical_text t)) > max_cache_key_bytes"
    using utf8_length [of "canonical_text t"] by (simp add: max_cache_key_bytes_def)
  then show ?thesis using guards t(1) by (simp add: cache_key_def Let_def)
qed

theorem cache_hit_same_request_witness:
  "\<exists>s0. new_cache (Some 10) (Some 2) = Some s0
     \<and> fst (cache_lookup 5 sample_cache_context (cache_run [CacheStore 0 sample_cache_context (7::int)] s0)) = Inr (Some 7)
     \<and> (same_request sample_cache_context sample_cache_context \<or> digest_collision sample_cache_context sample_cache_context)"
proof -
  obtain k where k: "cache_key sample_cache_context = Inr (Some k)" using sample_cache_key by blast
  define s0 :: "int cache" where "s0 = \<lparr>ca_ttl = 10, ca_max = 2, ca_entries = []\<rparr>"
  have new: "new_cache (Some 10) (Some 2) = Some s0" by (simp add: new_cache_def s0_def is_safe_integer_def max_safe_integer_def)
  have hit: "cache_lookup 5 sample_cache_context (cache_run [CacheStore 0 sample_cache_context 7] s0)
      = (Inr (Some 7), cache_run [CacheStore 0 sample_cache_context 7] s0)"
    by (simp add: cache_run_def cache_step_def cache_store_def cache_lookup_def k s0_def)
  obtain t c' before after where "[CacheStore 0 sample_cache_context (7::int)] = before @ CacheStore t c' 7 # after"
      "same_request sample_cache_context c' \<or> digest_collision sample_cache_context c'"
    using cache_hit_same_request [OF new hit] by blast
  then have "same_request sample_cache_context sample_cache_context \<or> digest_collision sample_cache_context sample_cache_context"
    by (cases before) auto
  then show ?thesis using new hit by (intro exI [of _ s0]) simp
qed

end
