(* ===== verification/AuthorizationContracts.thy ===== *)
theory AuthorizationContracts
  imports Identity CanonicalJson
begin

text \<open>
  The authorization contracts, \<open>packages/contracts/src/authorization.ts\<close>: publishers and owners of
  permissions, descriptors, policy bindings, roles, grants, assignments, templates, adoptions,
  catalogue snapshots, extension generations, decisions and audits, each with its schema as a
  predicate.

  A value of unknown type that has not the shape of a record (a missing or an extra field, a field of
  another type, another schema version) is \<^const>\<open>None\<close>. Numbers are integers.
\<close>

subsection \<open>Values of unknown type\<close>

type_synonym 'a unknown = "'a option"

text \<open>\<open>Schema.safeParse\<close>\<close>

definition safe_parse :: "('a \<Rightarrow> bool) \<Rightarrow> 'a unknown \<Rightarrow> 'a option" where
  "safe_parse schema v = (case v of None \<Rightarrow> None | Some x \<Rightarrow> if schema x then Some x else None)"

lemma safe_parse_Some [simp]: "safe_parse schema v = Some x \<longleftrightarrow> v = Some x \<and> schema x"
  by (auto simp: safe_parse_def split: option.splits)

lemma safe_parse_None [simp]: "safe_parse schema v = None \<longleftrightarrow> (\<forall>x. v = Some x \<longrightarrow> \<not> schema x)"
  by (auto simp: safe_parse_def split: option.splits)

subsection \<open>Strings and numbers\<close>

definition max_descriptors :: nat where
  "max_descriptors = 256"

definition max_grants_per_role :: nat where
  "max_grants_per_role = 512"

definition max_template_permissions :: nat where
  "max_template_permissions = 256"

definition max_identifier_length :: nat where
  "max_identifier_length = 160"

definition max_label_length :: nat where
  "max_label_length = 120"

definition max_description_length :: nat where
  "max_description_length = 240"

definition max_revision :: int where
  "max_revision = 1000000000"

text \<open>\<open>/^[A-Za-z0-9][A-Za-z0-9._:@/-]*$/\<close>\<close>

definition authz_identifier :: "string \<Rightarrow> bool" where
  "authz_identifier s \<longleftrightarrow> 1 \<le> length s \<and> length s \<le> max_identifier_length \<and> is_alnum (hd s) \<and>
     list_all (\<lambda>c. is_alnum c \<or> c \<in> set ''._:@/-'') s"

definition application_id :: "string \<Rightarrow> bool" where
  "application_id s \<longleftrightarrow> length s \<le> 128 \<and> kebab s"

definition lower_digit_dash :: "char \<Rightarrow> bool" where
  "lower_digit_dash c \<longleftrightarrow> is_lower c \<or> is_digit c \<or> c = CHR ''-''"

text \<open>\<open>/^[a-z][a-z0-9-]*$/\<close>\<close>

definition environment_id :: "string \<Rightarrow> bool" where
  "environment_id s \<longleftrightarrow> 1 \<le> length s \<and> length s \<le> 64 \<and> is_lower (hd s) \<and> list_all lower_digit_dash s"

definition positive_safe_integer :: "int \<Rightarrow> bool" where
  "positive_safe_integer n \<longleftrightarrow> 0 < n \<and> n \<le> max_safe_integer"

definition revision_number :: "int \<Rightarrow> bool" where
  "revision_number n \<longleftrightarrow> 0 \<le> n \<and> n \<le> max_revision"

text \<open>\<open>/^[a-z][a-z0-9-]{2,127}$/\<close>\<close>

definition runtime_generation_id :: "string \<Rightarrow> bool" where
  "runtime_generation_id s \<longleftrightarrow> 3 \<le> length s \<and> length s \<le> 128 \<and> is_lower (hd s) \<and> list_all lower_digit_dash s"

definition hot_application_id :: "string \<Rightarrow> bool" where
  "hot_application_id s \<longleftrightarrow> length s \<le> 128 \<and>
     (case split_on CHR ''.'' s of k # segment # segments \<Rightarrow> k = ''app'' \<and> list_all kebab (segment # segments) | _ \<Rightarrow> False)"

definition label_text :: "string \<Rightarrow> bool" where
  "label_text s \<longleftrightarrow> 1 \<le> length s \<and> length s \<le> max_label_length"

definition description_text :: "string \<Rightarrow> bool" where
  "description_text s \<longleftrightarrow> 1 \<le> length s \<and> length s \<le> max_description_length"

text \<open>\<open>sortedUnique\<close>: every element is below its successor.\<close>

fun sorted_unique :: "string list \<Rightarrow> bool" where
  "sorted_unique (x # y # zs) \<longleftrightarrow> x < y \<and> sorted_unique (y # zs)"
| "sorted_unique _ \<longleftrightarrow> True"

subsection \<open>Publishers and owners\<close>

datatype delivery_class = PlatformPlugin | HotApplication

datatype publisher = PlatformPublisher | ExtensionPublisher (pu_class: delivery_class) (pu_extension: string)

record extension_owner =
  xo_class :: delivery_class
  xo_extension :: string
  xo_generation :: int

datatype owner = PlatformOwner | ExtensionOwner extension_owner

definition class_text :: "delivery_class \<Rightarrow> string" where
  "class_text c = (case c of PlatformPlugin \<Rightarrow> ''platform-plugin'' | HotApplication \<Rightarrow> ''hot-application'')"

text \<open>What follows the first dot, or the whole string where there is none.\<close>

definition after_first_dot :: "string \<Rightarrow> string" where
  "after_first_dot s = (if CHR ''.'' \<in> set s then tl (dropWhile (\<lambda>c. c \<noteq> CHR ''.'') s) else s)"

definition publisher_namespace :: "publisher \<Rightarrow> string" where
  "publisher_namespace p = (case p of PlatformPublisher \<Rightarrow> ''system'' | ExtensionPublisher c x \<Rightarrow> after_first_dot x)"

definition starts_with :: "string \<Rightarrow> string \<Rightarrow> bool" where
  "starts_with prefix s \<longleftrightarrow> take (length prefix) s = prefix"

definition reserved_system_namespace :: "publisher \<Rightarrow> bool" where
  "reserved_system_namespace p =
     (case p of
        PlatformPublisher \<Rightarrow> False
      | ExtensionPublisher c x \<Rightarrow> publisher_namespace p = ''system'' \<or> starts_with ''system.'' (publisher_namespace p))"

definition extension_id_of :: "delivery_class \<Rightarrow> string \<Rightarrow> bool" where
  "extension_id_of c x = (case c of PlatformPlugin \<Rightarrow> plugin_id x | HotApplication \<Rightarrow> hot_application_id x)"

definition publisher_schema :: "publisher \<Rightarrow> bool" where
  "publisher_schema p \<longleftrightarrow>
     (case p of PlatformPublisher \<Rightarrow> True | ExtensionPublisher c x \<Rightarrow> extension_id_of c x) \<and> \<not> reserved_system_namespace p"

definition extension_publisher_schema :: "publisher \<Rightarrow> bool" where
  "extension_publisher_schema p \<longleftrightarrow> p \<noteq> PlatformPublisher \<and> publisher_schema p"

definition owner_publisher :: "owner \<Rightarrow> publisher" where
  "owner_publisher o' = (case o' of PlatformOwner \<Rightarrow> PlatformPublisher | ExtensionOwner x \<Rightarrow> ExtensionPublisher (xo_class x) (xo_extension x))"

definition extension_owner_schema :: "extension_owner \<Rightarrow> bool" where
  "extension_owner_schema x \<longleftrightarrow> extension_id_of (xo_class x) (xo_extension x) \<and> positive_safe_integer (xo_generation x) \<and>
     \<not> reserved_system_namespace (ExtensionPublisher (xo_class x) (xo_extension x))"

definition owner_schema :: "owner \<Rightarrow> bool" where
  "owner_schema o' = (case o' of PlatformOwner \<Rightarrow> True | ExtensionOwner x \<Rightarrow> extension_owner_schema x)"

text \<open>\<open>AuthorizationPermissionIdSchema\<close>: the length bound of a resource identifier is the smaller one.\<close>

definition permission_id :: "string \<Rightarrow> bool" where
  "permission_id s \<longleftrightarrow> resource_id s \<and> length s \<le> max_identifier_length"

definition owned_by_publisher :: "publisher \<Rightarrow> string \<Rightarrow> bool" where
  "owned_by_publisher p i \<longleftrightarrow> \<not> reserved_system_namespace p \<and> permission_id i \<and> starts_with (publisher_namespace p @ ''.'') i"

definition owned_by_owner :: "owner \<Rightarrow> string \<Rightarrow> bool" where
  "owned_by_owner o' i = owned_by_publisher (owner_publisher o') i"

definition same_extension_publisher :: "publisher \<Rightarrow> publisher \<Rightarrow> bool" where
  "same_extension_publisher l r \<longleftrightarrow> l \<noteq> PlatformPublisher \<and> r \<noteq> PlatformPublisher \<and> l = r"

definition owner_matches_publisher :: "owner \<Rightarrow> publisher \<Rightarrow> bool" where
  "owner_matches_publisher o' p =
     (if o' = PlatformOwner \<and> p = PlatformPublisher then True else same_extension_publisher (owner_publisher o') p)"

subsection \<open>Permissions, policy bindings and protected roles\<close>

datatype permission_audience = AuthenticatedActors | ServiceActors | SystemActors

datatype permission_operation = ReadOp | WriteOp | ManageOp | ExecuteOp

datatype permission_scope = ApplicationScope | RecordScope | FieldScope

record permission_descriptor =
  pm_id :: string
  pm_publisher :: publisher
  pm_title :: string
  pm_description :: string
  pm_audience :: permission_audience
  pm_resource :: string
  pm_operation :: permission_operation
  pm_scope :: permission_scope

definition permission_schema :: "permission_descriptor \<Rightarrow> bool" where
  "permission_schema d \<longleftrightarrow> permission_id (pm_id d) \<and> publisher_schema (pm_publisher d) \<and> label_text (pm_title d) \<and>
     description_text (pm_description d) \<and> resource_id (pm_resource d) \<and> owned_by_publisher (pm_publisher d) (pm_id d)"

record policy_binding =
  bi_id :: string
  bi_publisher :: publisher
  bi_permission :: string
  bi_reference :: string
  bi_scope :: permission_scope
  bi_timeout :: int

definition binding_schema :: "policy_binding \<Rightarrow> bool" where
  "binding_schema b \<longleftrightarrow> resource_id (bi_id b) \<and> publisher_schema (bi_publisher b) \<and> permission_id (bi_permission b) \<and>
     resource_id (bi_reference b) \<and> 1 \<le> bi_timeout b \<and> bi_timeout b \<le> 5000 \<and>
     owned_by_publisher (bi_publisher b) (bi_id b) \<and> owned_by_publisher (bi_publisher b) (bi_permission b) \<and>
     owned_by_publisher (bi_publisher b) (bi_reference b)"

definition protected_role_ids :: "string list" where
  "protected_role_ids = [''system.role.owner'', ''system.role.security-admin'', ''system.role.extension-admin'',
     ''system.role.user-admin'', ''system.role.auditor'']"

record protected_baseline =
  bl_role :: string
  bl_permissions :: "string list"

definition baseline_schema :: "protected_baseline \<Rightarrow> bool" where
  "baseline_schema b \<longleftrightarrow> bl_role b \<in> set protected_role_ids \<and> list_all permission_id (bl_permissions b) \<and>
     distinct (bl_permissions b) \<and> 1 \<le> length (bl_permissions b) \<and> length (bl_permissions b) \<le> max_grants_per_role \<and>
     list_all (owned_by_publisher PlatformPublisher) (bl_permissions b) \<and> sorted_unique (bl_permissions b)"

subsection \<open>Roles, grants, assignments and templates\<close>

record authz_role =
  ro_id :: string
  ro_application :: string
  ro_label :: string
  ro_description :: "string option"
  ro_protected :: "string option"
  ro_revision :: int

definition role_schema :: "authz_role \<Rightarrow> bool" where
  "role_schema r \<longleftrightarrow> authz_identifier (ro_id r) \<and> application_id (ro_application r) \<and> label_text (ro_label r) \<and>
     (case ro_description r of None \<Rightarrow> True | Some t \<Rightarrow> description_text t) \<and>
     (case ro_protected r of None \<Rightarrow> True | Some p \<Rightarrow> p \<in> set protected_role_ids) \<and> revision_number (ro_revision r) \<and>
     (if ro_id r \<in> set protected_role_ids then ro_protected r = Some (ro_id r) else ro_protected r = None)"

record role_grant =
  gt_id :: string
  gt_application :: string
  gt_role :: string
  gt_permission :: string
  gt_owner :: owner
  gt_revision :: int

definition grant_schema :: "role_grant \<Rightarrow> bool" where
  "grant_schema g \<longleftrightarrow> authz_identifier (gt_id g) \<and> application_id (gt_application g) \<and> authz_identifier (gt_role g) \<and>
     permission_id (gt_permission g) \<and> owner_schema (gt_owner g) \<and> revision_number (gt_revision g) \<and>
     owned_by_owner (gt_owner g) (gt_permission g)"

datatype subject = UserSubject (subject_id: string) | ServiceSubject (subject_id: string)

definition subject_schema :: "subject \<Rightarrow> bool" where
  "subject_schema s \<longleftrightarrow> authz_identifier (subject_id s)"

datatype assignment_state = ActiveAssignment | RevokedAssignment

record role_assignment =
  as_id :: string
  as_application :: string
  as_role :: string
  as_principal :: subject
  as_state :: assignment_state
  as_revision :: int

definition assignment_schema :: "role_assignment \<Rightarrow> bool" where
  "assignment_schema a \<longleftrightarrow> authz_identifier (as_id a) \<and> application_id (as_application a) \<and> authz_identifier (as_role a) \<and>
     subject_schema (as_principal a) \<and> revision_number (as_revision a)"

datatype instantiation_kind = AutomaticTemplate | ManualTemplate

record role_template =
  rt_id :: string
  rt_publisher :: publisher
  rt_version :: int
  rt_instantiation :: instantiation_kind
  rt_title :: string
  rt_description :: "string option"
  rt_permissions :: "string list"

definition template_schema :: "role_template \<Rightarrow> bool" where
  "template_schema t \<longleftrightarrow> resource_id (rt_id t) \<and> extension_publisher_schema (rt_publisher t) \<and> positive_safe_integer (rt_version t) \<and>
     label_text (rt_title t) \<and> (case rt_description t of None \<Rightarrow> True | Some d \<Rightarrow> description_text d) \<and>
     list_all permission_id (rt_permissions t) \<and> distinct (rt_permissions t) \<and> 1 \<le> length (rt_permissions t) \<and>
     length (rt_permissions t) \<le> max_template_permissions \<and> owned_by_publisher (rt_publisher t) (rt_id t) \<and>
     list_all (owned_by_publisher (rt_publisher t)) (rt_permissions t) \<and> sorted_unique (rt_permissions t)"

datatype adoption_kind = InstantiatedRole | CopiedPermissions

datatype adoption_state = Adopted | Tombstoned

record template_adoption =
  ta_id :: string
  ta_application :: string
  ta_role :: "string option"
  ta_template :: string
  ta_publisher :: publisher
  ta_owner :: extension_owner
  ta_version :: int
  ta_baseline :: "string list"
  ta_digest :: string
  ta_kind :: adoption_kind
  ta_state :: adoption_state
  ta_revision :: int

definition adoption_schema :: "template_adoption \<Rightarrow> bool" where
  "adoption_schema a \<longleftrightarrow> authz_identifier (ta_id a) \<and> application_id (ta_application a) \<and>
     (case ta_role a of None \<Rightarrow> True | Some r \<Rightarrow> authz_identifier r) \<and> resource_id (ta_template a) \<and>
     extension_publisher_schema (ta_publisher a) \<and> extension_owner_schema (ta_owner a) \<and> positive_safe_integer (ta_version a) \<and>
     list_all permission_id (ta_baseline a) \<and> distinct (ta_baseline a) \<and> 1 \<le> length (ta_baseline a) \<and>
     length (ta_baseline a) \<le> max_template_permissions \<and> digest_text (ta_digest a) \<and> revision_number (ta_revision a) \<and>
     (ta_role a = None \<longleftrightarrow> ta_kind a = InstantiatedRole \<and> ta_state a = Tombstoned) \<and>
     owned_by_publisher (ta_publisher a) (ta_template a) \<and>
     list_all (owned_by_publisher (ta_publisher a)) (ta_baseline a) \<and>
     same_extension_publisher (ta_publisher a) (owner_publisher (ExtensionOwner (ta_owner a))) \<and> sorted_unique (ta_baseline a)"

subsection \<open>Catalogue snapshots and generations\<close>

datatype snapshot_state =
    InactiveExtensionDisabled | InactiveExtensionNotReady | InactiveGenerationRetired | Deprecated | OrphanedAfterRemoval

record catalog_snapshot =
  sn_id :: string
  sn_application :: string
  sn_permission :: permission_descriptor
  sn_state :: snapshot_state
  sn_owner :: "owner option"
  sn_revision :: int

definition snapshot_schema :: "catalog_snapshot \<Rightarrow> bool" where
  "snapshot_schema s \<longleftrightarrow> authz_identifier (sn_id s) \<and> application_id (sn_application s) \<and> permission_schema (sn_permission s) \<and>
     revision_number (sn_revision s) \<and>
     (case sn_owner s of
        None \<Rightarrow> True
      | Some w \<Rightarrow> owner_schema w \<and> owned_by_owner w (pm_id (sn_permission s)) \<and>
          owner_matches_publisher w (pm_publisher (sn_permission s)))"

datatype generation_state = PendingConfiguration | CurrentGeneration | RetiredGeneration

record generation =
  ge_application :: string
  ge_owner :: extension_owner
  ge_runtime :: "string list"
  ge_state :: generation_state
  ge_authorization :: int
  ge_lifecycle :: int

definition generation_schema :: "generation \<Rightarrow> bool" where
  "generation_schema g \<longleftrightarrow> application_id (ge_application g) \<and> extension_owner_schema (ge_owner g) \<and>
     list_all runtime_generation_id (ge_runtime g) \<and> distinct (ge_runtime g) \<and> 1 \<le> length (ge_runtime g) \<and>
     length (ge_runtime g) \<le> 16 \<and> revision_number (ge_authorization g) \<and> revision_number (ge_lifecycle g) \<and>
     (if ge_state g = PendingConfiguration then xo_class (ge_owner g) = HotApplication \<and> length (ge_runtime g) = 1 else True)"

text \<open>Rows are compared by their canonical texts.\<close>

definition state_text :: "generation_state \<Rightarrow> string" where
  "state_text s = (case s of PendingConfiguration \<Rightarrow> ''pending-configuration'' | CurrentGeneration \<Rightarrow> ''current''
     | RetiredGeneration \<Rightarrow> ''retired'')"

definition extension_owner_json :: "extension_owner \<Rightarrow> json" where
  "extension_owner_json x =
     JObj [(''kind'', JStr ''extension''), (''deliveryClass'', JStr (class_text (xo_class x))),
           (''extensionId'', JStr (xo_extension x)), (''generation'', JNum (xo_generation x))]"

definition generation_json :: "generation \<Rightarrow> json" where
  "generation_json g =
     JObj [(''schemaVersion'', JNum 1), (''applicationId'', JStr (ge_application g)), (''owner'', extension_owner_json (ge_owner g)),
           (''runtimeGenerationIds'', JArr (map JStr (ge_runtime g))), (''state'', JStr (state_text (ge_state g))),
           (''authorizationRevision'', JNum (ge_authorization g)), (''lifecycleRevision'', JNum (ge_lifecycle g))]"

definition same_row :: "generation \<Rightarrow> generation \<Rightarrow> bool" where
  "same_row l r \<longleftrightarrow> canonical_text (generation_json l) = canonical_text (generation_json r)"

record authorization_state =
  st_application :: string
  st_environment :: string
  st_authorization :: int
  st_lifecycle :: int

definition state_schema :: "authorization_state \<Rightarrow> bool" where
  "state_schema s \<longleftrightarrow> application_id (st_application s) \<and> environment_id (st_environment s) \<and>
     revision_number (st_authorization s) \<and> revision_number (st_lifecycle s)"

record bootstrap_receipt =
  br_id :: string
  br_application :: string
  br_assignment :: string
  br_principal :: string
  br_version :: int
  br_digest :: string
  br_authorization :: int

definition receipt_schema :: "bootstrap_receipt \<Rightarrow> bool" where
  "receipt_schema r \<longleftrightarrow> authz_identifier (br_id r) \<and> application_id (br_application r) \<and> authz_identifier (br_assignment r) \<and>
     authz_identifier (br_principal r) \<and> positive_safe_integer (br_version r) \<and> digest_text (br_digest r) \<and>
     revision_number (br_authorization r)"

subsection \<open>Scopes, delegations and decisions\<close>

datatype access_scope =
    ScopeApplication (sp_resource: string)
  | ScopeRecord (sp_resource: string) string
  | ScopeField (sp_resource: string) string string

definition scope_kind :: "access_scope \<Rightarrow> permission_scope" where
  "scope_kind s = (case s of ScopeApplication _ \<Rightarrow> ApplicationScope | ScopeRecord _ _ \<Rightarrow> RecordScope | ScopeField _ _ _ \<Rightarrow> FieldScope)"

definition scope_schema :: "access_scope \<Rightarrow> bool" where
  "scope_schema s \<longleftrightarrow> resource_id (sp_resource s) \<and>
     (case s of ScopeApplication _ \<Rightarrow> True | ScopeRecord _ i \<Rightarrow> authz_identifier i
      | ScopeField _ i f \<Rightarrow> authz_identifier i \<and> resource_id f)"

record authz_delegation =
  de_id :: string
  de_delegator :: subject

definition delegation_schema :: "authz_delegation \<Rightarrow> bool" where
  "delegation_schema d \<longleftrightarrow> authz_identifier (de_id d) \<and> subject_schema (de_delegator d)"

datatype decision_outcome = AllowAccess | DenyAccess

datatype decision_reason =
    Granted | PermissionNotGranted | OwnerNotEffective | AssignmentRevoked | DelegationReduced
  | ApprovalRequired | ReauthenticationRequired | PolicyDenied

datatype requirement = NotRequired | Required | Satisfied

record decision =
  dc_id :: string
  dc_correlation :: string
  dc_application :: string
  dc_environment :: string
  dc_permission :: string
  dc_owner :: owner
  dc_principal :: subject
  dc_actor :: subject
  dc_delegation :: "authz_delegation option"
  dc_scope :: access_scope
  dc_authorization :: int
  dc_lifecycle :: int
  dc_outcome :: decision_outcome
  dc_reason :: decision_reason
  dc_approval :: requirement
  dc_reauthentication :: requirement

text \<open>\<open>validateDecisionCoherence\<close>\<close>

definition coherent :: "decision_outcome \<Rightarrow> decision_reason \<Rightarrow> requirement \<Rightarrow> requirement \<Rightarrow> bool" where
  "coherent out reason approval reauthentication \<longleftrightarrow> (out = AllowAccess \<longleftrightarrow> reason = Granted) \<and>
     \<not> (out = AllowAccess \<and> (approval = Required \<or> reauthentication = Required))"

definition decision_schema :: "decision \<Rightarrow> bool" where
  "decision_schema d \<longleftrightarrow> authz_identifier (dc_id d) \<and> authz_identifier (dc_correlation d) \<and> application_id (dc_application d) \<and>
     environment_id (dc_environment d) \<and> permission_id (dc_permission d) \<and> owner_schema (dc_owner d) \<and>
     subject_schema (dc_principal d) \<and> subject_schema (dc_actor d) \<and>
     (case dc_delegation d of None \<Rightarrow> True | Some x \<Rightarrow> delegation_schema x) \<and> scope_schema (dc_scope d) \<and>
     revision_number (dc_authorization d) \<and> revision_number (dc_lifecycle d) \<and>
     owned_by_owner (dc_owner d) (dc_permission d) \<and>
     coherent (dc_outcome d) (dc_reason d) (dc_approval d) (dc_reauthentication d)"

record decision_audit =
  da_audit :: string
  da_decision :: string
  da_correlation :: string
  da_application :: string
  da_environment :: string
  da_permission :: string
  da_owner :: owner
  da_principal :: subject
  da_actor :: subject
  da_delegation :: "string option"
  da_scope :: access_scope
  da_operation :: string
  da_target :: string
  da_authorization :: int
  da_lifecycle :: int
  da_outcome :: decision_outcome
  da_reason :: decision_reason
  da_approval :: requirement
  da_reauthentication :: requirement

definition audit_schema :: "decision_audit \<Rightarrow> bool" where
  "audit_schema a \<longleftrightarrow> authz_identifier (da_audit a) \<and> authz_identifier (da_decision a) \<and> authz_identifier (da_correlation a) \<and>
     application_id (da_application a) \<and> environment_id (da_environment a) \<and> permission_id (da_permission a) \<and>
     owner_schema (da_owner a) \<and> subject_schema (da_principal a) \<and> subject_schema (da_actor a) \<and>
     (case da_delegation a of None \<Rightarrow> True | Some x \<Rightarrow> authz_identifier x) \<and> scope_schema (da_scope a) \<and>
     authz_identifier (da_operation a) \<and> authz_identifier (da_target a) \<and> revision_number (da_authorization a) \<and>
     revision_number (da_lifecycle a) \<and> owned_by_owner (da_owner a) (da_permission a) \<and>
     coherent (da_outcome a) (da_reason a) (da_approval a) (da_reauthentication a)"

subsection \<open>Strictly sorted lists\<close>

lemma sorted_unique_iff: "sorted_unique xs \<longleftrightarrow> sorted_wrt (<) xs"
proof (induction xs rule: sorted_unique.induct)
  case (1 x y zs)
  then show ?case by (auto intro: less_trans)
qed auto

lemma sorted_unique_distinct: "sorted_unique xs \<Longrightarrow> distinct xs"
  by (simp add: sorted_unique_iff strict_sorted_iff)

lemma sorted_unique_eq_set: "sorted_unique xs \<Longrightarrow> sorted_unique ys \<Longrightarrow> set xs = set ys \<Longrightarrow> xs = ys"
  by (simp add: sorted_unique_iff strict_sorted_equal)

end
