(* ===== verification/AuthorizationStore.thy ===== *)
theory AuthorizationStore
  imports AuthorizationContracts
begin

text \<open>
  The boundary of the authorization store, \<open>packages/runtime/src/authorization-store.ts\<close>: expected
  revisions and the parser of mutations. The store itself belongs to the host.

  An argument of unknown type is no object (or has a field that the parser does not allow), or an
  object whose content is again of unknown type.
\<close>

datatype store_code = MutationInvalid | RevisionConflict | SubjectInvalid

datatype 'a object_value = NotExactObject | ExactObject "'a unknown"

definition parse_expected :: "authorization_state object_value \<Rightarrow> store_code + authorization_state" where
  "parse_expected v =
     (case v of
        NotExactObject \<Rightarrow> Inl MutationInvalid
      | ExactObject u \<Rightarrow> (case safe_parse state_schema u of None \<Rightarrow> Inl RevisionConflict | Some s \<Rightarrow> Inr s))"

definition assert_expected :: "authorization_state \<Rightarrow> authorization_state option \<Rightarrow> store_code + authorization_state" where
  "assert_expected expected current =
     (case current of
        None \<Rightarrow> Inl RevisionConflict
      | Some s \<Rightarrow>
          if st_application s \<noteq> st_application expected \<or> st_environment s \<noteq> st_environment expected
             \<or> st_authorization s \<noteq> st_authorization expected \<or> st_lifecycle s \<noteq> st_lifecycle expected
          then Inl RevisionConflict else Inr s)"

subsection \<open>Mutations\<close>

datatype store_mutation =
    RoleMutation authz_role
  | GrantMutation role_grant
  | AssignmentMutation role_assignment
  | AdoptionMutation template_adoption
  | SnapshotMutation catalog_snapshot
  | GenerationMutation generation
  | ReceiptMutation bootstrap_receipt
  | AuditMutation decision_audit

text \<open>A mutation as it arrives: its kind and the object that holds the entity.\<close>

datatype raw_mutation =
    RawRole "authz_role object_value"
  | RawGrant "role_grant object_value"
  | RawAssignment "role_assignment object_value"
  | RawAdoption "template_adoption object_value"
  | RawSnapshot "catalog_snapshot object_value"
  | RawGeneration "generation object_value"
  | RawReceipt "bootstrap_receipt object_value"
  | RawAudit "decision_audit object_value"
  | RawOtherKind

definition parse_entity :: "('a \<Rightarrow> bool) \<Rightarrow> 'a object_value \<Rightarrow> store_code + 'a" where
  "parse_entity schema v =
     (case v of
        NotExactObject \<Rightarrow> Inl MutationInvalid
      | ExactObject u \<Rightarrow> (case safe_parse schema u of None \<Rightarrow> Inl MutationInvalid | Some x \<Rightarrow> Inr x))"

datatype validator_answer = SubjectAccepted | SubjectRejected | ValidatorThrew

text \<open>The identity authority of the application may be missing.\<close>

definition parse_mutation :: "(string \<Rightarrow> subject \<Rightarrow> validator_answer) option \<Rightarrow> raw_mutation \<Rightarrow> store_code + store_mutation" where
  "parse_mutation validator m =
     (case m of
        RawRole v \<Rightarrow> res_bind (parse_entity role_schema v) (\<lambda>x. Inr (RoleMutation x))
      | RawGrant v \<Rightarrow> res_bind (parse_entity grant_schema v) (\<lambda>x. Inr (GrantMutation x))
      | RawAdoption v \<Rightarrow> res_bind (parse_entity adoption_schema v) (\<lambda>x. Inr (AdoptionMutation x))
      | RawSnapshot v \<Rightarrow> res_bind (parse_entity snapshot_schema v) (\<lambda>x. Inr (SnapshotMutation x))
      | RawGeneration v \<Rightarrow> res_bind (parse_entity generation_schema v) (\<lambda>x. Inr (GenerationMutation x))
      | RawReceipt v \<Rightarrow> res_bind (parse_entity receipt_schema v) (\<lambda>x. Inr (ReceiptMutation x))
      | RawAudit v \<Rightarrow> res_bind (parse_entity audit_schema v) (\<lambda>x. Inr (AuditMutation x))
      | RawAssignment v \<Rightarrow> res_bind (parse_entity assignment_schema v) (\<lambda>a.
          case validator of
            None \<Rightarrow> Inl SubjectInvalid
          | Some validate \<Rightarrow>
              if validate (as_application a) (as_principal a) = SubjectAccepted then Inr (AssignmentMutation a)
              else Inl SubjectInvalid)
      | RawOtherKind \<Rightarrow> Inl MutationInvalid)"

text \<open>What a parsed mutation satisfies.\<close>

definition mutation_schema :: "store_mutation \<Rightarrow> bool" where
  "mutation_schema m =
     (case m of
        RoleMutation x \<Rightarrow> role_schema x | GrantMutation x \<Rightarrow> grant_schema x | AssignmentMutation x \<Rightarrow> assignment_schema x
      | AdoptionMutation x \<Rightarrow> adoption_schema x | SnapshotMutation x \<Rightarrow> snapshot_schema x
      | GenerationMutation x \<Rightarrow> generation_schema x | ReceiptMutation x \<Rightarrow> receipt_schema x | AuditMutation x \<Rightarrow> audit_schema x)"

lemma parse_expected_Inr: "parse_expected v = Inr s \<longleftrightarrow> v = ExactObject (Some s) \<and> state_schema s"
  by (auto simp: parse_expected_def split: object_value.splits option.splits)

lemma parse_entity_Inr: "parse_entity schema v = Inr x \<longleftrightarrow> v = ExactObject (Some x) \<and> schema x"
  by (auto simp: parse_entity_def split: object_value.splits option.splits)

lemma parse_mutation_valid: "parse_mutation validator m = Inr x \<Longrightarrow> mutation_schema x"
  by (auto simp: parse_mutation_def mutation_schema_def parse_entity_Inr
      split: raw_mutation.splits option.splits if_splits)

text \<open>An assignment is stored only for a subject that the identity authority accepts.\<close>

lemma parse_mutation_assignment:
  "parse_mutation validator m = Inr (AssignmentMutation a) \<Longrightarrow>
   \<exists>validate. validator = Some validate \<and> validate (as_application a) (as_principal a) = SubjectAccepted"
  by (auto simp: parse_mutation_def parse_entity_Inr split: raw_mutation.splits option.splits if_splits)

lemma assert_expected_Inr: "assert_expected e c = Inr s \<longleftrightarrow>
    c = Some s \<and> st_application s = st_application e \<and> st_environment s = st_environment e \<and>
    st_authorization s = st_authorization e \<and> st_lifecycle s = st_lifecycle e"
  by (auto simp: assert_expected_def split: option.splits if_splits)

end
