(* ===== verification/AuthorizationLifecycle.thy ===== *)
theory AuthorizationLifecycle
  imports AuthorizationStore
begin

text \<open>
  The planner of authorization generations, \<open>packages/runtime/src/authorization-lifecycle.ts\<close>: the
  rows, snapshots and mutations that follow from one committed transition of an extension.

  Arguments that the code declares as arrays are lists. Of an event the model has the fields that the
  planner reads; \<open>xe_rest\<close> stands for the schemas of the remaining ones.
\<close>

subsection \<open>Events\<close>

datatype event_class = PluginEvent | HotEvent | SkinEvent

datatype operation_kind = InstallKind | UpdateKind | DisableKind | RollbackKind | UninstallKind

datatype operation_phase =
    PhasePlanning | PhaseDownloading | PhaseVerified | PhaseStaged | PhaseWaitingConfiguration | PhaseWaitingApproval
  | PhaseWarming | PhaseSourceChangeRequired | PhaseSourceChangeReady | PhaseBuildAttested | PhaseZeroDowntimeEligible
  | PhaseMaintenanceRequired | PhaseUnsupported | PhaseRollbackWindowOpen | PhaseRollbackWindowClosed
  | PhaseContractCleanupEligible | PhaseCompleted | PhaseFailed

datatype extension_state =
    XsCatalogAvailable | XsPlanning | XsDownloading | XsVerified | XsStaged | XsWaitingConfiguration | XsWaitingApproval
  | XsWarming | XsActive | XsDisabled | XsUpdateAvailable | XsRollbackAvailable | XsQuarantined | XsRetirementPending
  | XsRemoved

record lifecycle_event =
  xe_application :: string
  xe_class :: event_class
  xe_extension :: string
  xe_operation :: operation_kind
  xe_phase :: operation_phase
  xe_state :: extension_state
  xe_expected :: int
  xe_revision :: int
  xe_generation :: string
  xe_rest :: bool

record quarantine_event =
  qn_application :: string
  qn_class :: event_class
  qn_extension :: string
  qn_expected :: int
  qn_revision :: int
  qn_generation :: string
  qn_rest :: bool

text \<open>An event has one type, so at most one of the two schemas accepts it.\<close>

datatype committed_value = LifecycleValue lifecycle_event | QuarantineValue quarantine_event | NoEventValue

text \<open>\<open>/^[a-z][a-z0-9-]{2,127}$/\<close>, of applications and of records.\<close>

definition event_record_id :: "string \<Rightarrow> bool" where
  "event_record_id s \<longleftrightarrow> 3 \<le> length s \<and> length s \<le> 128 \<and> is_lower (hd s) \<and> list_all lower_digit_dash s"

definition theme_skin_id :: "string \<Rightarrow> bool" where
  "theme_skin_id s \<longleftrightarrow> length s \<le> 128 \<and>
     (case split_on CHR ''.'' s of k # segment # segments \<Rightarrow> k = ''skin'' \<and> list_all kebab (segment # segments) | _ \<Rightarrow> False)"

definition event_identity :: "event_class \<Rightarrow> string \<Rightarrow> bool" where
  "event_identity c x = (case c of PluginEvent \<Rightarrow> plugin_id x | HotEvent \<Rightarrow> hot_application_id x | SkinEvent \<Rightarrow> theme_skin_id x)"

definition lifecycle_event_schema :: "lifecycle_event \<Rightarrow> bool" where
  "lifecycle_event_schema e \<longleftrightarrow> event_record_id (xe_application e) \<and> event_identity (xe_class e) (xe_extension e) \<and>
     revision_number (xe_expected e) \<and> 0 < xe_revision e \<and> revision_number (xe_revision e) \<and>
     event_record_id (xe_generation e) \<and> xe_rest e"

definition quarantine_event_schema :: "quarantine_event \<Rightarrow> bool" where
  "quarantine_event_schema e \<longleftrightarrow> event_record_id (qn_application e) \<and> qn_class e \<noteq> PluginEvent \<and>
     event_identity (qn_class e) (qn_extension e) \<and> revision_number (qn_expected e) \<and> 0 < qn_revision e \<and>
     revision_number (qn_revision e) \<and> event_record_id (qn_generation e) \<and> qn_rest e"

subsection \<open>Errors and transitions\<close>

datatype plan_code = InvalidInput | IdentityMismatch | PlanConflict | AmbiguousGeneration | UnsupportedTransition

datatype plan_error = StoreFailure store_code | PlanFailure plan_code

datatype transition_operation = InstallOp | UpdateOp | RollbackOp | DisableOp | UninstallOp | QuarantineOp

datatype transition_state = ActiveExtension | DisabledExtension | RemovedExtension | QuarantinedExtension

record transition =
  tn_application :: string
  tn_class :: delivery_class
  tn_extension :: string
  tn_operation :: transition_operation
  tn_state :: transition_state
  tn_expected :: int
  tn_revision :: int
  tn_runtime :: string

definition delivery_of :: "event_class \<Rightarrow> delivery_class option" where
  "delivery_of c = (case c of PluginEvent \<Rightarrow> Some PlatformPlugin | HotEvent \<Rightarrow> Some HotApplication | SkinEvent \<Rightarrow> None)"

definition operation_of :: "operation_kind \<Rightarrow> transition_operation" where
  "operation_of k = (case k of InstallKind \<Rightarrow> InstallOp | UpdateKind \<Rightarrow> UpdateOp | DisableKind \<Rightarrow> DisableOp
     | RollbackKind \<Rightarrow> RollbackOp | UninstallKind \<Rightarrow> UninstallOp)"

definition terminal_state :: "operation_kind \<Rightarrow> extension_state \<times> transition_state" where
  "terminal_state k = (case k of DisableKind \<Rightarrow> (XsDisabled, DisabledExtension)
     | UninstallKind \<Rightarrow> (XsRemoved, RemovedExtension) | _ \<Rightarrow> (XsActive, ActiveExtension))"

text \<open>\<open>parseTransition\<close>. Every operation of the enumeration is an input of the planner.\<close>

definition parse_transition :: "committed_value \<Rightarrow> plan_error + transition" where
  "parse_transition v =
     (case v of
        LifecycleValue e \<Rightarrow>
          if \<not> lifecycle_event_schema e then Inl (PlanFailure InvalidInput)
          else (case delivery_of (xe_class e) of
             None \<Rightarrow> Inl (PlanFailure UnsupportedTransition)
           | Some c \<Rightarrow>
               if xe_phase e = PhaseFailed \<and> xe_state e = XsQuarantined
               then Inr \<lparr>tn_application = xe_application e, tn_class = c, tn_extension = xe_extension e, tn_operation = QuarantineOp,
                      tn_state = QuarantinedExtension, tn_expected = xe_expected e, tn_revision = xe_revision e,
                      tn_runtime = xe_generation e\<rparr>
               else if xe_state e \<noteq> fst (terminal_state (xe_operation e)) then Inl (PlanFailure UnsupportedTransition)
               else Inr \<lparr>tn_application = xe_application e, tn_class = c, tn_extension = xe_extension e,
                      tn_operation = operation_of (xe_operation e), tn_state = snd (terminal_state (xe_operation e)),
                      tn_expected = xe_expected e, tn_revision = xe_revision e, tn_runtime = xe_generation e\<rparr>)
      | QuarantineValue e \<Rightarrow>
          if \<not> quarantine_event_schema e then Inl (PlanFailure InvalidInput)
          else (case delivery_of (qn_class e) of
             None \<Rightarrow> Inl (PlanFailure UnsupportedTransition)
           | Some c \<Rightarrow> Inr \<lparr>tn_application = qn_application e, tn_class = c, tn_extension = qn_extension e,
                  tn_operation = QuarantineOp, tn_state = QuarantinedExtension, tn_expected = qn_expected e,
                  tn_revision = qn_revision e, tn_runtime = qn_generation e\<rparr>)
      | NoEventValue \<Rightarrow> Inl (PlanFailure InvalidInput))"

subsection \<open>Rows\<close>

definition strings_text :: "string list \<Rightarrow> string" where
  "strings_text xs = canonical_text (JArr (map JStr xs))"

definition same_runtime_ids :: "string list \<Rightarrow> string list \<Rightarrow> bool" where
  "same_runtime_ids l r \<longleftrightarrow> strings_text l = strings_text r"

definition row_number :: "generation \<Rightarrow> int" where
  "row_number g = xo_generation (ge_owner g)"

definition canonical_rows :: "generation list \<Rightarrow> generation list" where
  "canonical_rows rows = sort_key row_number rows"

definition replace_row :: "generation list \<Rightarrow> generation \<Rightarrow> generation list" where
  "replace_row rows g = canonical_rows (filter (\<lambda>r. row_number r \<noteq> row_number g) rows @ [g])"

definition changed_rows :: "generation list \<Rightarrow> generation list \<Rightarrow> generation list" where
  "changed_rows before after =
     (let previous = map_of (rev (map (\<lambda>r. (row_number r, r)) before))
      in filter (\<lambda>r. case previous (row_number r) of None \<Rightarrow> True | Some p \<Rightarrow> \<not> same_row p r) after)"

definition is_replay :: "generation list \<Rightarrow> generation list \<Rightarrow> bool" where
  "is_replay before after \<longleftrightarrow> list_all2 same_row before after"

definition next_number :: "generation list \<Rightarrow> plan_error + int" where
  "next_number rows =
     (let maximum = fold (\<lambda>r m. max m (row_number r)) rows 0
      in if maximum \<ge> max_safe_integer then Inl (PlanFailure PlanConflict) else Inr (maximum + 1))"

definition next_lifecycle :: "authorization_state \<Rightarrow> plan_error + int" where
  "next_lifecycle e = (if st_lifecycle e \<ge> 1000000000 then Inl (PlanFailure PlanConflict) else Inr (st_lifecycle e + 1))"

definition build_generation :: "int \<Rightarrow> generation_state \<Rightarrow> string list \<Rightarrow> int \<Rightarrow> int \<Rightarrow> transition \<Rightarrow> plan_error + generation" where
  "build_generation number state ids authorization lifecycle t =
     (let g = \<lparr>ge_application = tn_application t,
               ge_owner = \<lparr>xo_class = tn_class t, xo_extension = tn_extension t, xo_generation = number\<rparr>,
               ge_runtime = ids, ge_state = state, ge_authorization = authorization, ge_lifecycle = lifecycle\<rparr>
      in if generation_schema g then Inr g else Inl (PlanFailure InvalidInput))"

subsection \<open>Parsing the arguments\<close>

definition parse_runtime_ids :: "string list \<Rightarrow> transition \<Rightarrow> plan_error + string list" where
  "parse_runtime_ids ids t =
     (let static_uninstall = (tn_class t = PlatformPlugin \<and> tn_operation t = UninstallOp) in
      if ids = [] \<or> 16 < length ids \<or> \<not> sorted_unique ids \<or> (\<not> static_uninstall \<and> tn_runtime t \<notin> set ids)
      then Inl (PlanFailure InvalidInput)
      else res_bind (build_generation 1 CurrentGeneration ids 0 0 t) (\<lambda>g. Inr (ge_runtime g)))"

definition parse_plan_descriptor :: "transition \<Rightarrow> permission_descriptor unknown \<Rightarrow> plan_error + permission_descriptor" where
  "parse_plan_descriptor t v =
     (case safe_parse permission_schema v of
        None \<Rightarrow> Inl (PlanFailure IdentityMismatch)
      | Some d \<Rightarrow>
          if pm_publisher d \<noteq> ExtensionPublisher (tn_class t) (tn_extension t) then Inl (PlanFailure IdentityMismatch) else Inr d)"

definition parse_descriptors :: "permission_descriptor unknown list \<Rightarrow> transition \<Rightarrow> plan_error + permission_descriptor list" where
  "parse_descriptors vs t =
     (if 256 < length vs then Inl (PlanFailure InvalidInput)
      else res_bind (res_map (parse_plan_descriptor t) vs) (\<lambda>ds.
        if \<not> sorted_unique (map pm_id ds) then Inl (PlanFailure InvalidInput) else Inr ds))"

definition parse_row :: "transition \<Rightarrow> authorization_state \<Rightarrow> generation unknown \<Rightarrow> plan_error + generation" where
  "parse_row t e v =
     (case safe_parse generation_schema v of
        None \<Rightarrow> Inl (PlanFailure InvalidInput)
      | Some g \<Rightarrow>
          if ge_application g \<noteq> tn_application t \<or> xo_class (ge_owner g) \<noteq> tn_class t \<or> xo_extension (ge_owner g) \<noteq> tn_extension t
          then Inl (PlanFailure IdentityMismatch)
          else if \<not> sorted_unique (ge_runtime g) then Inl (PlanFailure InvalidInput)
          else if ge_authorization g > st_authorization e then Inl (PlanFailure PlanConflict)
          else res_bind (next_lifecycle e) (\<lambda>n. if ge_lifecycle g > n then Inl (PlanFailure PlanConflict) else Inr g))"

definition parse_existing :: "generation unknown list \<Rightarrow> transition \<Rightarrow> authorization_state \<Rightarrow> plan_error + generation list" where
  "parse_existing vs t e =
     res_bind (res_map (parse_row t e) vs) (\<lambda>rows.
       if \<not> distinct (map row_number rows) \<or> \<not> distinct (concat (map ge_runtime rows))
       then Inl (PlanFailure AmbiguousGeneration) else Inr (canonical_rows rows))"

text \<open>The only row of a state.\<close>

definition row_in_state :: "generation_state \<Rightarrow> generation list \<Rightarrow> plan_error + generation option" where
  "row_in_state s rows =
     (case filter (\<lambda>r. ge_state r = s) rows of
        [] \<Rightarrow> Inr None | [g] \<Rightarrow> Inr (Some g) | _ \<Rightarrow> Inl (PlanFailure AmbiguousGeneration))"

abbreviation current_row :: "generation list \<Rightarrow> plan_error + generation option" where
  "current_row \<equiv> row_in_state CurrentGeneration"

abbreviation pending_row :: "generation list \<Rightarrow> plan_error + generation option" where
  "pending_row \<equiv> row_in_state PendingConfiguration"

definition assert_transition_state :: "transition \<Rightarrow> transition_state \<Rightarrow> plan_error + unit" where
  "assert_transition_state t s = guard_that (tn_state t = s) (PlanFailure UnsupportedTransition)"

definition assert_exact_runtime :: "generation \<Rightarrow> string list \<Rightarrow> plan_error + unit" where
  "assert_exact_runtime g ids = guard_that (same_runtime_ids (ge_runtime g) ids) (PlanFailure IdentityMismatch)"

subsection \<open>Snapshots\<close>

definition snapshot_state_text :: "snapshot_state \<Rightarrow> string" where
  "snapshot_state_text s = (case s of InactiveExtensionDisabled \<Rightarrow> ''inactive-extension-disabled''
     | InactiveExtensionNotReady \<Rightarrow> ''inactive-extension-not-ready'' | InactiveGenerationRetired \<Rightarrow> ''inactive-generation-retired''
     | Deprecated \<Rightarrow> ''deprecated'' | OrphanedAfterRemoval \<Rightarrow> ''orphaned-after-removal'')"

text \<open>\<open>digest("hex")\<close> leaves out the prefix of the digests of the contracts.\<close>

definition deterministic_id :: "string \<Rightarrow> string list \<Rightarrow> string" where
  "deterministic_id kind parts = ''authorization.'' @ kind @ ''.'' @ drop 7 (sha256_text (strings_text parts))"

definition create_snapshot :: "extension_owner \<Rightarrow> string \<Rightarrow> snapshot_state \<Rightarrow> int \<Rightarrow> permission_descriptor \<Rightarrow> plan_error + catalog_snapshot" where
  "create_snapshot x application s n d =
     (let snapshot = \<lparr>sn_id = deterministic_id ''authorization-snapshot''
                        [class_text (xo_class x), xo_extension x, int_text (xo_generation x), pm_id d, snapshot_state_text s],
                      sn_application = application, sn_permission = d, sn_state = s, sn_owner = Some (ExtensionOwner x),
                      sn_revision = n\<rparr>
      in if snapshot_schema snapshot then Inr snapshot else Inl (PlanFailure InvalidInput))"

definition create_snapshots :: "permission_descriptor list \<Rightarrow> extension_owner \<Rightarrow> string \<Rightarrow> snapshot_state \<Rightarrow> int \<Rightarrow>
    plan_error + catalog_snapshot list" where
  "create_snapshots ds x application s n = res_map (create_snapshot x application s n) ds"

definition removed_descriptors :: "permission_descriptor list \<Rightarrow> permission_descriptor list \<Rightarrow> permission_descriptor list" where
  "removed_descriptors prior target = filter (\<lambda>d. pm_id d \<notin> pm_id ` set target) prior"

subsection \<open>The planner\<close>

datatype update_compatibility = CompatibleUpdate | IncompatibleUpdate

record plan_input =
  pi_expected :: "authorization_state object_value"
  pi_transition :: committed_value
  pi_existing :: "generation unknown list"
  pi_descriptors :: "permission_descriptor unknown list"
  pi_prior :: "permission_descriptor unknown list option"
  pi_runtime :: "string list"
  pi_compatibility :: "update_compatibility option"

record lifecycle_plan =
  lp_application :: string
  lp_authorization :: int
  lp_lifecycle :: int
  lp_generations :: "generation list"
  lp_snapshots :: "catalog_snapshot list"
  lp_mutations :: "store_mutation list"
  lp_replayed :: bool

type_synonym planned_rows = "generation list \<times> catalog_snapshot list"

text \<open>What the branches of the planner share: the parsed arguments.\<close>

record plan_context =
  pc_expected :: authorization_state
  pc_transition :: transition
  pc_runtime :: "string list"
  pc_rows :: "generation list"
  pc_current :: "generation option"
  pc_pending :: "generation option"
  pc_descriptors :: "permission_descriptor list"
  pc_prior :: "permission_descriptor list option"
  pc_compatibility :: "update_compatibility option"
  pc_target :: int

definition context_generation :: "plan_context \<Rightarrow> int \<Rightarrow> generation_state \<Rightarrow> string list \<Rightarrow> plan_error + generation" where
  "context_generation c number state ids =
     build_generation number state ids (st_authorization (pc_expected c)) (pc_target c) (pc_transition c)"

definition context_snapshots :: "plan_context \<Rightarrow> permission_descriptor list \<Rightarrow> generation \<Rightarrow> snapshot_state \<Rightarrow>
    plan_error + catalog_snapshot list" where
  "context_snapshots c ds g s = create_snapshots ds (ge_owner g) (tn_application (pc_transition c)) s (pc_target c)"

text \<open>The operator \<open>!\<close> on the descriptors of the prior release, which every update has.\<close>

definition prior_descriptors :: "plan_context \<Rightarrow> permission_descriptor list" where
  "prior_descriptors c = (case pc_prior c of None \<Rightarrow> [] | Some ds \<Rightarrow> ds)"

definition plan_disable :: "plan_context \<Rightarrow> plan_error + planned_rows" where
  "plan_disable c =
     res_bind (assert_transition_state (pc_transition c) DisabledExtension) (\<lambda>_.
     case pc_current c of
       None \<Rightarrow> Inl (PlanFailure PlanConflict)
     | Some g \<Rightarrow>
         res_bind (assert_exact_runtime g (pc_runtime c)) (\<lambda>_.
         res_bind (context_generation c (row_number g) CurrentGeneration (ge_runtime g)) (\<lambda>n.
         res_bind (context_snapshots c (pc_descriptors c) n InactiveExtensionDisabled) (\<lambda>ss.
           Inr (replace_row (pc_rows c) n, ss)))))"

definition retired_match :: "plan_context \<Rightarrow> generation option" where
  "retired_match c =
     (if pc_current c = None
      then find (\<lambda>r. ge_state r = RetiredGeneration \<and> same_runtime_ids (ge_runtime r) (pc_runtime c)) (pc_rows c)
      else None)"

definition plan_retire :: "plan_context \<Rightarrow> plan_error + planned_rows" where
  "plan_retire c =
     (let uninstall = (tn_operation (pc_transition c) = UninstallOp);
          matched = retired_match c;
          replayed = (case matched of Some r \<Rightarrow> if ge_lifecycle r = pc_target c then Some r else None | None \<Rightarrow> None)
      in
      res_bind (assert_transition_state (pc_transition c) (if uninstall then RemovedExtension else QuarantinedExtension)) (\<lambda>_.
      case (case pc_current c of None \<Rightarrow> matched | Some g \<Rightarrow> Some g) of
        None \<Rightarrow> Inl (PlanFailure PlanConflict)
      | Some g \<Rightarrow>
          if pc_current c = None \<and> \<not> uninstall then Inl (PlanFailure PlanConflict)
          else
            res_bind (case replayed of Some r \<Rightarrow> Inr r | None \<Rightarrow> context_generation c (row_number g) RetiredGeneration (ge_runtime g)) (\<lambda>retired.
            res_bind (if pc_current c = None then Inr () else assert_exact_runtime g (pc_runtime c)) (\<lambda>_.
            res_bind (context_snapshots c (pc_descriptors c) retired (if uninstall then OrphanedAfterRemoval else InactiveGenerationRetired)) (\<lambda>ss.
              Inr (if replayed = None then replace_row (pc_rows c) retired else pc_rows c, ss))))))"

text \<open>The row of the current generation as a retired one, where there is a current generation.\<close>

definition retire_current :: "plan_context \<Rightarrow> plan_error + generation list" where
  "retire_current c =
     (case pc_current c of
        None \<Rightarrow> Inr []
      | Some g \<Rightarrow> res_bind (context_generation c (row_number g) RetiredGeneration (ge_runtime g)) (\<lambda>r. Inr [r]))"

definition not_numbered :: "generation option \<Rightarrow> generation \<Rightarrow> bool" where
  "not_numbered w r = (case w of None \<Rightarrow> True | Some g \<Rightarrow> row_number r \<noteq> row_number g)"

definition plan_promote :: "plan_context \<Rightarrow> generation \<Rightarrow> plan_error + planned_rows" where
  "plan_promote c pending =
     (if tn_class (pc_transition c) \<noteq> HotApplication \<or> \<not> same_runtime_ids (ge_runtime pending) (pc_runtime c)
      then Inl (PlanFailure IdentityMismatch)
      else
        res_bind (context_generation c (row_number pending) CurrentGeneration (ge_runtime pending)) (\<lambda>promoted.
        res_bind (retire_current c) (\<lambda>retired.
        res_bind (case pc_current c of
                    Some g \<Rightarrow> if tn_operation (pc_transition c) = UpdateOp
                              then context_snapshots c (prior_descriptors c) g InactiveGenerationRetired else Inr []
                  | None \<Rightarrow> Inr []) (\<lambda>ss.
          Inr (canonical_rows (filter (\<lambda>r. row_number r \<noteq> row_number pending \<and> not_numbered (pc_current c) r) (pc_rows c)
                 @ retired @ [promoted]), ss)))))"

definition plan_keep :: "plan_context \<Rightarrow> generation \<Rightarrow> plan_error + planned_rows" where
  "plan_keep c g =
     res_bind (context_generation c (row_number g) CurrentGeneration (pc_runtime c)) (\<lambda>n.
     res_bind (if tn_operation (pc_transition c) = UpdateOp
               then context_snapshots c (removed_descriptors (prior_descriptors c) (pc_descriptors c)) g Deprecated
               else Inr []) (\<lambda>ss.
       Inr (replace_row (pc_rows c) n, ss)))"

definition plan_fresh :: "plan_context \<Rightarrow> plan_error + planned_rows" where
  "plan_fresh c =
     (if tn_operation (pc_transition c) = UpdateOp \<and> pc_compatibility c = Some CompatibleUpdate
      then Inl (PlanFailure PlanConflict)
      else
        res_bind (next_number (pc_rows c)) (\<lambda>number.
        res_bind (context_generation c number CurrentGeneration (pc_runtime c)) (\<lambda>fresh.
        res_bind (retire_current c) (\<lambda>retired.
        res_bind (case pc_current c of
                    Some g \<Rightarrow> context_snapshots c (prior_descriptors c) g InactiveGenerationRetired
                  | None \<Rightarrow> Inr []) (\<lambda>ss.
          Inr (canonical_rows (filter (not_numbered (pc_current c)) (pc_rows c) @ retired @ [fresh]), ss))))))"

definition plan_activate :: "plan_context \<Rightarrow> plan_error + planned_rows" where
  "plan_activate c =
     res_bind (assert_transition_state (pc_transition c) ActiveExtension) (\<lambda>_.
     let incompatible = (tn_operation (pc_transition c) = UpdateOp \<and> pc_compatibility c = Some IncompatibleUpdate) in
     case pc_pending c of
       Some pending \<Rightarrow> plan_promote c pending
     | None \<Rightarrow>
         (case pc_current c of
            Some g \<Rightarrow>
              if incompatible \<and> same_runtime_ids (ge_runtime g) (pc_runtime c) \<and> ge_lifecycle g = pc_target c
              then Inr (pc_rows c, [])
              else if \<not> incompatible then plan_keep c g
              else plan_fresh c
          | None \<Rightarrow> plan_fresh c))"

definition plan_rows :: "plan_context \<Rightarrow> plan_error + planned_rows" where
  "plan_rows c =
     (case tn_operation (pc_transition c) of
        DisableOp \<Rightarrow> plan_disable c
      | UninstallOp \<Rightarrow> plan_retire c
      | QuarantineOp \<Rightarrow> plan_retire c
      | _ \<Rightarrow> plan_activate c)"

definition lift_store :: "store_code + 'a \<Rightarrow> plan_error + 'a" where
  "lift_store r = (case r of Inl e \<Rightarrow> Inl (StoreFailure e) | Inr a \<Rightarrow> Inr a)"

definition plan_arguments :: "plan_input \<Rightarrow> plan_error + plan_context" where
  "plan_arguments i =
     res_bind (lift_store (parse_expected (pi_expected i))) (\<lambda>e.
     res_bind (parse_transition (pi_transition i)) (\<lambda>t.
     let update = (tn_operation t = UpdateOp) in
     if tn_application t \<noteq> st_application e then Inl (PlanFailure IdentityMismatch)
     else if tn_revision t \<noteq> tn_expected t + 1 then Inl (PlanFailure PlanConflict)
     else if (if update then pi_compatibility i = None else pi_compatibility i \<noteq> None) then Inl (PlanFailure InvalidInput)
     else
       res_bind (parse_runtime_ids (pi_runtime i) t) (\<lambda>ids.
       res_bind (parse_existing (pi_existing i) t e) (\<lambda>rows.
       res_bind (current_row rows) (\<lambda>current.
       res_bind (pending_row rows) (\<lambda>pending.
       res_bind (parse_descriptors (pi_descriptors i) t) (\<lambda>ds.
       if update \<noteq> (pi_prior i \<noteq> None) then Inl (PlanFailure InvalidInput)
       else
         res_bind (case pi_prior i of
                     Some vs \<Rightarrow> if update then res_bind (parse_descriptors vs t) (\<lambda>ps. Inr (Some ps)) else Inr None
                   | None \<Rightarrow> Inr None) (\<lambda>prior.
         res_bind (next_lifecycle e) (\<lambda>target.
           Inr \<lparr>pc_expected = e, pc_transition = t, pc_runtime = ids, pc_rows = rows, pc_current = current, pc_pending = pending,
                pc_descriptors = ds, pc_prior = prior, pc_compatibility = pi_compatibility i, pc_target = target\<rparr>)))))))))"

definition finish_plan :: "plan_context \<Rightarrow> planned_rows \<Rightarrow> plan_error + lifecycle_plan" where
  "finish_plan c = (\<lambda>(rows, snapshots).
     let replayed = is_replay (pc_rows c) rows in
     if \<not> replayed \<and> (\<exists>r \<in> set (pc_rows c). ge_lifecycle r = pc_target c) then Inl (PlanFailure PlanConflict)
     else Inr \<lparr>lp_application = st_application (pc_expected c), lp_authorization = st_authorization (pc_expected c),
               lp_lifecycle = pc_target c, lp_generations = rows, lp_snapshots = snapshots,
               lp_mutations = (if replayed then [] else map GenerationMutation (changed_rows (pc_rows c) rows) @ map SnapshotMutation snapshots),
               lp_replayed = replayed\<rparr>)"

definition plan_lifecycle :: "plan_input \<Rightarrow> plan_error + lifecycle_plan" where
  "plan_lifecycle i = res_bind (plan_arguments i) (\<lambda>c. res_bind (plan_rows c) (finish_plan c))"

subsection \<open>Reservations\<close>

record pending_input =
  qi_expected :: "authorization_state object_value"
  qi_extension :: string
  qi_runtime :: string
  qi_existing :: "generation unknown list"

text \<open>\<open>planPendingAuthorizationGeneration\<close>, with the transition it makes up.\<close>

definition reservation_transition :: "authorization_state \<Rightarrow> pending_input \<Rightarrow> transition" where
  "reservation_transition e i =
     \<lparr>tn_application = st_application e, tn_class = HotApplication, tn_extension = qi_extension i, tn_operation = InstallOp,
      tn_state = ActiveExtension, tn_expected = 0, tn_revision = 1, tn_runtime = qi_runtime i\<rparr>"

definition plan_pending :: "pending_input \<Rightarrow> plan_error + lifecycle_plan" where
  "plan_pending i =
     res_bind (lift_store (parse_expected (qi_expected i))) (\<lambda>e.
     let t = reservation_transition e i in
     res_bind (parse_runtime_ids [qi_runtime i] t) (\<lambda>ids.
     res_bind (parse_existing (qi_existing i) t e) (\<lambda>rows.
     if \<exists>r \<in> set rows. ge_state r = PendingConfiguration \<and> same_runtime_ids (ge_runtime r) ids
     then Inr \<lparr>lp_application = st_application e, lp_authorization = st_authorization e, lp_lifecycle = st_lifecycle e,
               lp_generations = rows, lp_snapshots = [], lp_mutations = [], lp_replayed = True\<rparr>
     else
       res_bind (pending_row rows) (\<lambda>pending.
       if pending \<noteq> None then Inl (PlanFailure PlanConflict)
       else
         res_bind (next_lifecycle e) (\<lambda>target.
         res_bind (next_number rows) (\<lambda>number.
         res_bind (build_generation number PendingConfiguration ids (st_authorization e) target t) (\<lambda>reserved.
           Inr \<lparr>lp_application = st_application e, lp_authorization = st_authorization e, lp_lifecycle = target,
                lp_generations = canonical_rows (rows @ [reserved]), lp_snapshots = [],
                lp_mutations = [GenerationMutation reserved], lp_replayed = False\<rparr>)))))))"

end
