(* ===== verification/AuthorizationLifecycleProperties.thy ===== *)
theory AuthorizationLifecycleProperties
  imports AuthorizationLifecycle CanonicalJsonProperties
begin

text \<open>
  What the planner of authorization generations promises. The rows of an extension are read as a map
  from generation numbers to fences, a state and the runtime generations bound to it; every plan is a
  step of a small machine on fences that never brings a retired fence back.
\<close>

subsection \<open>Comparisons of texts\<close>

lemma same_runtime_ids_iff [simp]: "same_runtime_ids l r \<longleftrightarrow> l = r"
  by (simp add: same_runtime_ids_def strings_text_def canonical_strings_inject)

lemma text_injects [simp]: "class_text c = class_text d \<longleftrightarrow> c = d" "state_text s = state_text t \<longleftrightarrow> s = t"
  by (cases c; cases d; simp add: class_text_def) (cases s; cases t; simp add: state_text_def)

lemma same_owner_json: "same_json (extension_owner_json x) (extension_owner_json y) \<longleftrightarrow> x = y"
  by (cases x; cases y) (auto simp: extension_owner_json_def same_json_record)

lemma same_row_iff [simp]: "same_row l r \<longleftrightarrow> l = r"
proof
  assume "same_row l r"
  then have "same_json (generation_json l) (generation_json r)" unfolding same_row_def by (rule canonical_text_same)
  note entry = same_json_entry [OF this [unfolded generation_json_def]]
  have "ge_application l = ge_application r" "ge_state l = ge_state r" "ge_authorization l = ge_authorization r"
    "ge_lifecycle l = ge_lifecycle r"
    using entry [of "''applicationId''"] entry [of "''state''"] entry [of "''authorizationRevision''"]
      entry [of "''lifecycleRevision''"] by simp_all
  moreover have "ge_owner l = ge_owner r" using entry [of "''owner''"] by (simp add: same_owner_json)
  moreover have "ge_runtime l = ge_runtime r"
    using entry [of "''runtimeGenerationIds''"] by (simp add: same_strings del: same_json_simps(3))
  ultimately show "l = r" by simp
qed (simp add: same_row_def)

subsection \<open>Rows by number\<close>

definition row_at :: "generation list \<Rightarrow> int \<Rightarrow> generation option" where
  "row_at rows n = find (\<lambda>r. row_number r = n) rows"

abbreviation numbered :: "generation list \<Rightarrow> bool" where
  "numbered rows \<equiv> distinct (map row_number rows)"

lemma row_at_Some: "numbered rows \<Longrightarrow> row_at rows n = Some r \<longleftrightarrow> r \<in> set rows \<and> row_number r = n"
  by (induction rows) (auto simp: row_at_def)

lemma row_at_None: "row_at rows n = None \<longleftrightarrow> n \<notin> row_number ` set rows"
  by (auto simp: row_at_def find_None_iff)

lemma row_at_same_set:
  assumes "numbered rows" "numbered rows'" "set rows = set rows'"
  shows "row_at rows = row_at rows'"
proof
  fix n
  have "row_at rows n = Some r \<longleftrightarrow> row_at rows' n = Some r" for r
    using row_at_Some [OF assms(1)] row_at_Some [OF assms(2)] assms(3) by simp
  then show "row_at rows n = row_at rows' n" by (metis not_None_eq)
qed

lemma set_canonical_rows [simp]: "set (canonical_rows rows) = set rows"
  by (simp add: canonical_rows_def)

lemma mset_canonical_rows: "mset (canonical_rows rows) = mset rows"
  by (simp add: canonical_rows_def)

lemma numbered_canonical_rows [simp]: "numbered (canonical_rows rows) = numbered rows"
  by (metis mset_canonical_rows mset_eq_imp_distinct_iff mset_map)

lemma sorted_canonical_rows [simp]: "sorted (map row_number (canonical_rows rows))"
  by (simp add: canonical_rows_def)

lemma canonical_rows_sorted: "sorted (map row_number rows) \<Longrightarrow> canonical_rows rows = rows"
  by (simp add: canonical_rows_def sort_key_id_if_sorted)

lemma canonical_rows_unique:
  assumes "numbered rows" "set rows' = set rows" "numbered rows'"
  shows "canonical_rows rows' = canonical_rows rows"
  unfolding canonical_rows_def
proof (rule sort_key_perm_unique)
  have "distinct rows" "distinct rows'" using assms(1,3) by (simp_all add: distinct_map)
  then show "mset rows' = mset rows" using assms(2) by (simp add: set_eq_iff_mset_eq_distinct)
  show "inj_on row_number (set rows')" using assms(3) by (simp add: distinct_map)
qed

lemma numbered_filter_snoc: "numbered rows \<Longrightarrow> numbered (filter (\<lambda>r. row_number r \<noteq> row_number g) rows @ [g])"
  by (auto simp: distinct_map_filter)

lemma numbered_replace_row [simp]: "numbered rows \<Longrightarrow> numbered (replace_row rows g)"
  unfolding replace_row_def numbered_canonical_rows by (rule numbered_filter_snoc)

lemma sorted_replace_row [simp]: "sorted (map row_number (replace_row rows g))"
  by (simp add: replace_row_def)

lemma row_at_replace_row:
  assumes "numbered rows"
  shows "row_at (replace_row rows g) = (row_at rows)(row_number g \<mapsto> g)"
proof
  fix n
  have "row_at (replace_row rows g) n = Some r \<longleftrightarrow> ((row_at rows)(row_number g \<mapsto> g)) n = Some r" for r
    using row_at_Some [OF assms] row_at_Some [OF numbered_replace_row [OF assms]] by (auto simp: replace_row_def)
  then show "row_at (replace_row rows g) n = ((row_at rows)(row_number g \<mapsto> g)) n" by (metis not_None_eq)
qed

subsection \<open>Fences\<close>

type_synonym fences = "int \<Rightarrow> (generation_state \<times> string list) option"

definition fence :: "generation \<Rightarrow> generation_state \<times> string list" where
  "fence r = (ge_state r, ge_runtime r)"

definition fences_of :: "generation list \<Rightarrow> fences" where
  "fences_of rows n = map_option fence (row_at rows n)"

text \<open>The current generation gives way.\<close>

definition retire_fences :: "fences \<Rightarrow> fences" where
  "retire_fences F n = map_option (\<lambda>(s, ids). (if s = CurrentGeneration then RetiredGeneration else s, ids)) (F n)"

definition above_all :: "int \<Rightarrow> fences \<Rightarrow> bool" where
  "above_all n F \<longleftrightarrow> (\<forall>m. F m \<noteq> None \<longrightarrow> m < n)"

inductive fence_step :: "fences \<Rightarrow> fences \<Rightarrow> bool" where
  stay: "fence_step F F"
| keep: "F n = Some (CurrentGeneration, old) \<Longrightarrow> fence_step F (F(n \<mapsto> (CurrentGeneration, ids)))"
| retire: "fence_step F (retire_fences F)"
| fresh: "above_all n F \<Longrightarrow> fence_step F ((retire_fences F)(n \<mapsto> (CurrentGeneration, ids)))"
| promote: "F n = Some (PendingConfiguration, ids) \<Longrightarrow> fence_step F ((retire_fences F)(n \<mapsto> (CurrentGeneration, ids)))"
| reserve: "above_all n F \<Longrightarrow> \<nexists>m ids'. F m = Some (PendingConfiguration, ids') \<Longrightarrow>
    fence_step F (F(n \<mapsto> (PendingConfiguration, ids)))"

definition fence_inv :: "fences \<Rightarrow> bool" where
  "fence_inv F \<longleftrightarrow> (\<forall>s \<in> {CurrentGeneration, PendingConfiguration}. \<forall>m n ids ids'.
     F m = Some (s, ids) \<longrightarrow> F n = Some (s, ids') \<longrightarrow> m = n)"

lemma retire_fences_state:
  "retire_fences F n = Some (s, ids) \<longleftrightarrow>
     s \<noteq> CurrentGeneration \<and> (F n = Some (s, ids) \<or> s = RetiredGeneration \<and> F n = Some (CurrentGeneration, ids))"
  by (cases s) (auto simp: retire_fences_def split: if_splits)

lemma fence_inv_step: "fence_step F G \<Longrightarrow> fence_inv F \<Longrightarrow> fence_inv G"
proof (induction rule: fence_step.induct)
  case (keep F n old ids)
  then show ?case unfolding fence_inv_def by (metis (mono_tags, lifting) fun_upd_apply generation_state.distinct(1) insertE option.inject prod.inject singletonD)
next
  case (reserve n F ids)
  then show ?case unfolding fence_inv_def by (auto split: if_splits)
qed (auto simp: fence_inv_def retire_fences_state split: if_splits)

text \<open>How far a fence has come. A step never takes one back, and only a current one changes its runtime.\<close>

fun progress :: "generation_state \<Rightarrow> nat" where
  "progress PendingConfiguration = 0"
| "progress CurrentGeneration = 1"
| "progress RetiredGeneration = 2"

lemma fence_step_forward:
  "fence_step F G \<Longrightarrow> F n = Some (s, ids) \<Longrightarrow>
   \<exists>t ids'. G n = Some (t, ids') \<and> progress s \<le> progress t \<and> (s \<noteq> CurrentGeneration \<longrightarrow> ids' = ids)"
proof (induction rule: fence_step.induct)
  case (fresh m F ids')
  then have "n \<noteq> m" by (force simp: above_all_def)
  then show ?case using fresh by (cases s) (auto simp: retire_fences_def)
next
  case (reserve m F ids')
  then have "n \<noteq> m" by (force simp: above_all_def)
  then show ?case using reserve by auto
next
  case (retire F)
  then show ?case by (cases s) (auto simp: retire_fences_def)
next
  case (promote F m ids')
  then show ?case by (cases s) (auto simp: retire_fences_def)
qed auto

lemma fence_step_retired: "fence_step F G \<Longrightarrow> F n = Some (RetiredGeneration, ids) \<Longrightarrow> G n = Some (RetiredGeneration, ids)"
proof -
  assume "fence_step F G" "F n = Some (RetiredGeneration, ids)"
  then obtain t where t: "G n = Some (t, ids)" "2 \<le> progress t" using fence_step_forward by fastforce
  from t(2) have "t = RetiredGeneration" by (cases t) auto
  with t(1) show ?thesis by simp
qed

subsection \<open>The parsed arguments\<close>

definition row_ok :: "authorization_state \<Rightarrow> transition \<Rightarrow> int \<Rightarrow> generation \<Rightarrow> bool" where
  "row_ok e t target r \<longleftrightarrow> generation_schema r \<and> sorted_unique (ge_runtime r) \<and> ge_application r = tn_application t \<and>
     xo_class (ge_owner r) = tn_class t \<and> xo_extension (ge_owner r) = tn_extension t \<and>
     ge_authorization r \<le> st_authorization e \<and> ge_lifecycle r \<le> target"

definition rows_ok :: "authorization_state \<Rightarrow> transition \<Rightarrow> int \<Rightarrow> generation list \<Rightarrow> bool" where
  "rows_ok e t target rows \<longleftrightarrow> numbered rows \<and> sorted (map row_number rows) \<and> list_all (row_ok e t target) rows"

definition context_ok :: "plan_context \<Rightarrow> bool" where
  "context_ok c \<longleftrightarrow> rows_ok (pc_expected c) (pc_transition c) (pc_target c) (pc_rows c) \<and>
     current_row (pc_rows c) = Inr (pc_current c) \<and> pending_row (pc_rows c) = Inr (pc_pending c) \<and>
     sorted_unique (pc_runtime c) \<and> pc_target c = st_lifecycle (pc_expected c) + 1"

lemma build_generation_Inr:
  "build_generation n s ids a l t = Inr g \<longleftrightarrow> generation_schema g \<and>
     g = \<lparr>ge_application = tn_application t, ge_owner = \<lparr>xo_class = tn_class t, xo_extension = tn_extension t, xo_generation = n\<rparr>,
          ge_runtime = ids, ge_state = s, ge_authorization = a, ge_lifecycle = l\<rparr>"
  by (auto simp: build_generation_def Let_def split: if_splits)

lemma parse_runtime_ids_Inr: "parse_runtime_ids ids t = Inr xs \<Longrightarrow> xs = ids \<and> ids \<noteq> [] \<and> sorted_unique ids"
  by (auto simp: parse_runtime_ids_def Let_def build_generation_Inr split: if_splits)

lemma next_lifecycle_Inr: "next_lifecycle e = Inr n \<longleftrightarrow> st_lifecycle e < 1000000000 \<and> n = st_lifecycle e + 1"
  by (auto simp: next_lifecycle_def)

lemma parse_row_Inr: "parse_row t e v = Inr r \<longleftrightarrow> v = Some r \<and> row_ok e t (st_lifecycle e + 1) r \<and> st_lifecycle e < 1000000000"
proof (cases v)
  case (Some x)
  show ?thesis
    unfolding parse_row_def Some safe_parse_def next_lifecycle_def by (auto simp: row_ok_def res_bind_Inl split: if_splits)
qed (simp add: parse_row_def safe_parse_def)

lemma list_all2_map_Some: "list_all2 (\<lambda>v r. v = Some r \<and> P r) vs rs \<longleftrightarrow> vs = map Some rs \<and> list_all P rs"
  by (induction vs rs rule: list_induct2') auto

lemma parse_existing_Inr:
  "parse_existing vs t e = Inr rows \<longleftrightarrow>
     (\<exists>raw. vs = map Some raw \<and> list_all (row_ok e t (st_lifecycle e + 1)) raw \<and> (raw \<noteq> [] \<longrightarrow> st_lifecycle e < 1000000000) \<and>
        numbered raw \<and> distinct (concat (map ge_runtime raw)) \<and> rows = canonical_rows raw)"
proof -
  have "res_map (parse_row t e) vs = Inr raw \<longleftrightarrow> vs = map Some raw \<and> list_all (row_ok e t (st_lifecycle e + 1)) raw \<and>
      (raw \<noteq> [] \<longrightarrow> st_lifecycle e < 1000000000)" for raw
    unfolding res_map_Inr parse_row_Inr list_all2_map_Some by (cases raw) (auto simp: list_all_iff)
  then show ?thesis by (auto simp: parse_existing_def)
qed

lemma list_all_set_cong: "set xs = set ys \<Longrightarrow> list_all P xs = list_all P ys"
  by (simp add: list_all_iff)

lemma parse_existing_rows_ok: "parse_existing vs t e = Inr rows \<Longrightarrow> rows_ok e t (st_lifecycle e + 1) rows"
  by (auto simp: parse_existing_Inr rows_ok_def list_all_set_cong [OF set_canonical_rows])

lemma row_in_state_Some: "row_in_state s rows = Inr (Some g) \<Longrightarrow> r \<in> set rows \<and> ge_state r = s \<longleftrightarrow> r = g"
proof -
  assume "row_in_state s rows = Inr (Some g)"
  then have "filter (\<lambda>r. ge_state r = s) rows = [g]" by (auto simp: row_in_state_def split: list.splits)
  then have "set (filter (\<lambda>r. ge_state r = s) rows) = {g}" by simp
  then show ?thesis by auto
qed

lemma row_in_state_None: "row_in_state s rows = Inr None \<Longrightarrow> r \<in> set rows \<Longrightarrow> ge_state r \<noteq> s"
  by (auto simp: row_in_state_def filter_empty_conv split: list.splits)

lemma plan_arguments_Inr:
  assumes "plan_arguments i = Inr c"
  shows "context_ok c \<and> parse_existing (pi_existing i) (pc_transition c) (pc_expected c) = Inr (pc_rows c) \<and>
     parse_transition (pi_transition i) = Inr (pc_transition c) \<and> parse_expected (pi_expected i) = Inr (pc_expected c) \<and>
     pc_runtime c = pi_runtime i \<and> pc_compatibility c = pi_compatibility i \<and>
     (pi_compatibility i \<noteq> None \<longleftrightarrow> tn_operation (pc_transition c) = UpdateOp) \<and>
     (pc_prior c \<noteq> None \<longleftrightarrow> tn_operation (pc_transition c) = UpdateOp)"
  using assms
  by (auto simp: plan_arguments_def lift_store_def context_ok_def next_lifecycle_Inr Let_def dest!: parse_runtime_ids_Inr
      intro: parse_existing_rows_ok split: if_splits sum.splits option.splits)

subsection \<open>Every plan is a step on fences\<close>

lemma fences_of_Some: "numbered rows \<Longrightarrow> fences_of rows n = Some f \<longleftrightarrow> (\<exists>r \<in> set rows. row_number r = n \<and> fence r = f)"
  by (auto simp: fences_of_def row_at_Some)

lemma fences_eqI: "(\<And>n f. F n = Some f \<longleftrightarrow> G n = Some f) \<Longrightarrow> F = (G :: fences)"
  by (metis ext not_None_eq)

lemma fences_of_canonical_rows: "numbered rows \<Longrightarrow> fences_of (canonical_rows rows) = fences_of rows"
  by (rule fences_eqI) (simp add: fences_of_Some)

lemma fences_of_replace_row: "numbered rows \<Longrightarrow> fences_of (replace_row rows g) = (fences_of rows)(row_number g \<mapsto> fence g)"
  by (rule ext) (simp add: fences_of_def row_at_replace_row)

lemma current_fence:
  assumes "numbered rows" "row_in_state s rows = Inr w"
  shows "fences_of rows n = Some (s, ids) \<longleftrightarrow> (\<exists>g. w = Some g \<and> row_number g = n \<and> ge_runtime g = ids)"
proof -
  have "fences_of rows n = Some (s, ids) \<longleftrightarrow>
      (\<exists>r. (r \<in> set rows \<and> ge_state r = s) \<and> row_number r = n \<and> ge_runtime r = ids)"
    by (auto simp: fences_of_Some [OF assms(1)] fence_def)
  moreover have "r \<in> set rows \<and> ge_state r = s \<longleftrightarrow> w = Some r" for r
    using row_in_state_Some [of s rows _ r] row_in_state_None [of s rows r] assms(2) by (cases w) auto
  ultimately show ?thesis by simp
qed

lemma fences_keep: "numbered rows \<Longrightarrow> r \<in> set rows \<Longrightarrow> (fences_of rows)(row_number r \<mapsto> fence r) = fences_of rows"
  by (rule fun_upd_idem) (auto simp: fences_of_Some)

text \<open>The current row replaced by its retired copy.\<close>

lemma retire_fences_current:
  assumes "numbered rows" "current_row rows = Inr (Some g)"
  shows "(fences_of rows)(row_number g \<mapsto> (RetiredGeneration, ge_runtime g)) = retire_fences (fences_of rows)"
proof
  fix n
  have cur: "fences_of rows m = Some (CurrentGeneration, ids) \<longleftrightarrow> row_number g = m \<and> ge_runtime g = ids" for m ids
    by (simp add: current_fence [OF assms])
  show "((fences_of rows)(row_number g \<mapsto> (RetiredGeneration, ge_runtime g))) n = retire_fences (fences_of rows) n"
  proof (cases "fences_of rows n")
    case None
    then have "n \<noteq> row_number g" using cur [of n "ge_runtime g"] by auto
    then show ?thesis using None by (simp add: retire_fences_def)
  next
    case (Some f)
    obtain s ids where f: "f = (s, ids)" by force
    show ?thesis
    proof (cases "s = CurrentGeneration")
      case True
      then have "row_number g = n \<and> ge_runtime g = ids" using Some f cur [of n ids] by simp
      then show ?thesis using Some f True by (auto simp: retire_fences_def)
    next
      case False
      then have "n \<noteq> row_number g" using Some f cur [of n "ge_runtime g"] by auto
      then show ?thesis using Some f False by (simp add: retire_fences_def)
    qed
  qed
qed

lemma retire_fences_no_current:
  assumes "numbered rows" "current_row rows = Inr None"
  shows "retire_fences (fences_of rows) = fences_of rows"
proof (rule fences_eqI)
  fix n and f :: "generation_state \<times> string list"
  obtain s ids where f: "f = (s, ids)" by force
  show "retire_fences (fences_of rows) n = Some f \<longleftrightarrow> fences_of rows n = Some f"
    unfolding f retire_fences_state by (cases "s = CurrentGeneration") (auto simp: current_fence [OF assms])
qed

lemma context_generation_Inr:
  "context_generation c n s ids = Inr g \<Longrightarrow> row_number g = n \<and> ge_state g = s \<and> ge_runtime g = ids \<and> fence g = (s, ids)"
  by (auto simp: context_generation_def build_generation_Inr row_number_def fence_def)

lemma plan_disable_step:
  assumes "context_ok c" "plan_disable c = Inr (rows, ss)"
  shows "numbered rows \<and> sorted (map row_number rows) \<and> fences_of rows = fences_of (pc_rows c)"
proof -
  from assms(1) have ok: "numbered (pc_rows c)" "current_row (pc_rows c) = Inr (pc_current c)"
    by (simp_all add: context_ok_def rows_ok_def)
  from assms(2) obtain g n where g: "pc_current c = Some g" "rows = replace_row (pc_rows c) n"
    "context_generation c (row_number g) CurrentGeneration (ge_runtime g) = Inr n"
    by (auto simp: plan_disable_def split: option.splits)
  have "g \<in> set (pc_rows c)" "ge_state g = CurrentGeneration" using row_in_state_Some [of _ _ g] ok(2) g(1) by metis+
  then show ?thesis
    using ok(1) context_generation_Inr [OF g(3)] fences_keep [OF ok(1), of g]
    by (simp add: g(2) fences_of_replace_row fence_def)
qed

lemma plan_retire_step:
  assumes "context_ok c" "plan_retire c = Inr (rows, ss)"
  shows "numbered rows \<and> sorted (map row_number rows) \<and> fences_of rows = retire_fences (fences_of (pc_rows c))"
proof -
  from assms(1) have ok: "numbered (pc_rows c)" "sorted (map row_number (pc_rows c))" "current_row (pc_rows c) = Inr (pc_current c)"
    by (simp_all add: context_ok_def rows_ok_def)
  show ?thesis
  proof (cases "pc_current c")
    case (Some g)
    then have "retired_match c = None" by (simp add: retired_match_def)
    with assms(2) Some obtain r where r: "rows = replace_row (pc_rows c) r"
      "context_generation c (row_number g) RetiredGeneration (ge_runtime g) = Inr r"
      by (auto simp: plan_retire_def Let_def split: if_splits)
    have "current_row (pc_rows c) = Inr (Some g)" using ok(3) Some by simp
    then show ?thesis
      using ok(1) context_generation_Inr [OF r(2)] retire_fences_current [OF ok(1)]
      by (simp add: r(1) fences_of_replace_row)
  next
    case None
    with assms(2) obtain g r where g: "retired_match c = Some g"
      "rows = pc_rows c \<or> rows = replace_row (pc_rows c) r \<and> context_generation c (row_number g) RetiredGeneration (ge_runtime g) = Inr r"
      by (auto simp: plan_retire_def Let_def split: if_splits option.splits)
    have "g \<in> set (pc_rows c)" "ge_state g = RetiredGeneration"
      using g(1) None by (auto simp: retired_match_def find_Some_iff)
    then have "fences_of rows = fences_of (pc_rows c)"
      using g(2) ok(1) fences_keep [OF ok(1), of g] by (auto simp: fences_of_replace_row fence_def dest: context_generation_Inr)
    moreover have "retire_fences (fences_of (pc_rows c)) = fences_of (pc_rows c)"
      using retire_fences_no_current ok None by simp
    ultimately show ?thesis using g(2) ok by auto
  qed
qed

lemma retire_current_Inr:
  assumes "retire_current c = Inr rs"
  shows "(case pc_current c of None \<Rightarrow> rs = []
    | Some g \<Rightarrow> \<exists>r. rs = [r] \<and> row_number r = row_number g \<and> fence r = (RetiredGeneration, ge_runtime g))"
  using assms by (auto simp: retire_current_def dest: context_generation_Inr split: option.splits)

text \<open>The rows that remain, the retired copy of the current one and the new current one.\<close>

lemma activated_fences:
  assumes rows: "numbered (pc_rows c)" "current_row (pc_rows c) = Inr (pc_current c)"
    and rs: "retire_current c = Inr rs"
    and x: "fence x = (CurrentGeneration, ids)" "not_numbered (pc_current c) x"
    and ys: "ys = filter (\<lambda>r. row_number r \<noteq> row_number x \<and> not_numbered (pc_current c) r) (pc_rows c) @ rs @ [x]"
  shows "numbered ys \<and> fences_of ys = (retire_fences (fences_of (pc_rows c)))(row_number x \<mapsto> (CurrentGeneration, ids))"
proof (cases "pc_current c")
  case None
  then have ys': "ys = filter (\<lambda>r. row_number r \<noteq> row_number x) (pc_rows c) @ [x]"
    using retire_current_Inr [OF rs] ys by (simp add: not_numbered_def)
  have n: "numbered ys" unfolding ys' by (rule numbered_filter_snoc) (rule rows(1))
  have "fences_of ys = (fences_of (pc_rows c))(row_number x \<mapsto> fence x)"
    using fences_of_canonical_rows [OF n] fences_of_replace_row [OF rows(1), of x] by (simp add: ys' replace_row_def)
  then show ?thesis using n retire_fences_no_current [OF rows(1)] rows(2) None x(1) by simp
next
  case (Some g)
  obtain r where r: "rs = [r]" "row_number r = row_number g" "fence r = (RetiredGeneration, ge_runtime g)"
    using retire_current_Inr [OF rs] Some by auto
  define zs where "zs = filter (\<lambda>q. row_number q \<noteq> row_number r) (pc_rows c) @ [r]"
  have zs: "numbered zs" unfolding zs_def by (rule numbered_filter_snoc) (rule rows(1))
  have ys': "ys = filter (\<lambda>q. row_number q \<noteq> row_number x) zs @ [x]"
    using Some r x(2) by (simp add: ys zs_def not_numbered_def conj_commute)
  have n: "numbered ys" unfolding ys' by (rule numbered_filter_snoc) (rule zs)
  have "fences_of zs = (fences_of (pc_rows c))(row_number r \<mapsto> fence r)"
    using fences_of_canonical_rows [OF zs] fences_of_replace_row [OF rows(1), of r] by (simp add: zs_def replace_row_def)
  moreover have "fences_of ys = (fences_of zs)(row_number x \<mapsto> fence x)"
    using fences_of_canonical_rows [OF n] fences_of_replace_row [OF zs, of x] by (simp add: ys' replace_row_def)
  ultimately show ?thesis using n r retire_fences_current [OF rows(1), of g] rows(2) Some x(1) by simp
qed

lemma activated_fences_canonical:
  assumes "numbered (pc_rows c)" "current_row (pc_rows c) = Inr (pc_current c)" "retire_current c = Inr rs"
    "fence x = (CurrentGeneration, ids)" "not_numbered (pc_current c) x"
    "rows = canonical_rows (filter (\<lambda>r. row_number r \<noteq> row_number x \<and> not_numbered (pc_current c) r) (pc_rows c) @ rs @ [x])"
  shows "numbered rows \<and> sorted (map row_number rows) \<and>
     fences_of rows = (retire_fences (fences_of (pc_rows c)))(row_number x \<mapsto> (CurrentGeneration, ids))"
proof -
  note a = activated_fences [OF assms(1-5) refl]
  show ?thesis
    unfolding assms(6) fences_of_canonical_rows [OF conjunct1 [OF a]] using a
    by (simp only: numbered_canonical_rows sorted_canonical_rows)
qed

lemma next_number_Inr:
  assumes "next_number rows = Inr n"
  shows "\<forall>r \<in> set rows. row_number r < n"
proof -
  have bound: "m \<le> fold (\<lambda>r m. max m (row_number r)) rows m \<and> (\<forall>r \<in> set rows. row_number r \<le> fold (\<lambda>r m. max m (row_number r)) rows m)" for m
  proof (induction rows arbitrary: m)
    case (Cons r rows)
    show ?case using Cons.IH [of "max m (row_number r)"] by simp
  qed simp
  show ?thesis using assms bound [of 0] by (auto simp: next_number_def Let_def split: if_splits)
qed

lemma above_all_fences: "numbered rows \<Longrightarrow> \<forall>r \<in> set rows. row_number r < n \<Longrightarrow> above_all n (fences_of rows)"
  by (auto simp: above_all_def fences_of_Some)

lemma plan_promote_step:
  assumes "context_ok c" "pc_pending c = Some p" "plan_promote c p = Inr (rows, ss)"
  shows "numbered rows \<and> sorted (map row_number rows) \<and> ge_runtime p = pc_runtime c \<and>
     fences_of rows = (retire_fences (fences_of (pc_rows c)))(row_number p \<mapsto> (CurrentGeneration, pc_runtime c))"
proof -
  from assms(1) have ok: "numbered (pc_rows c)" "current_row (pc_rows c) = Inr (pc_current c)" "pending_row (pc_rows c) = Inr (Some p)"
    by (simp_all add: context_ok_def rows_ok_def assms(2))
  from assms(3) obtain x rs where x: "ge_runtime p = pc_runtime c" "context_generation c (row_number p) CurrentGeneration (ge_runtime p) = Inr x"
    "retire_current c = Inr rs"
    "rows = canonical_rows (filter (\<lambda>r. row_number r \<noteq> row_number p \<and> not_numbered (pc_current c) r) (pc_rows c) @ rs @ [x])"
    by (auto simp: plan_promote_def split: if_splits)
  note px = context_generation_Inr [OF x(2)]
  have "not_numbered (pc_current c) p"
  proof (cases "pc_current c")
    case (Some g)
    have "fences_of (pc_rows c) (row_number g) = Some (CurrentGeneration, ge_runtime g)"
      using current_fence [OF ok(1,2)] Some by simp
    moreover have "fences_of (pc_rows c) (row_number p) = Some (PendingConfiguration, ge_runtime p)"
      using current_fence [OF ok(1,3)] by simp
    ultimately show ?thesis using Some by (auto simp: not_numbered_def)
  qed (simp add: not_numbered_def)
  then have "not_numbered (pc_current c) x" using px by (simp add: not_numbered_def split: option.splits)
  from activated_fences_canonical [OF ok(1,2) x(3) _ this, of "pc_runtime c" rows] show ?thesis
    using px x(1,4) by simp
qed

lemma plan_fresh_step:
  assumes "context_ok c" "plan_fresh c = Inr (rows, ss)"
  shows "\<exists>n. (\<forall>r \<in> set (pc_rows c). row_number r < n) \<and> numbered rows \<and> sorted (map row_number rows) \<and>
     fences_of rows = (retire_fences (fences_of (pc_rows c)))(n \<mapsto> (CurrentGeneration, pc_runtime c))"
proof -
  from assms(1) have ok: "numbered (pc_rows c)" "current_row (pc_rows c) = Inr (pc_current c)"
    by (simp_all add: context_ok_def rows_ok_def)
  from assms(2) obtain n x rs where x: "next_number (pc_rows c) = Inr n"
    "context_generation c n CurrentGeneration (pc_runtime c) = Inr x" "retire_current c = Inr rs"
    "rows = canonical_rows (filter (not_numbered (pc_current c)) (pc_rows c) @ rs @ [x])"
    by (auto simp: plan_fresh_def split: if_splits)
  note px = context_generation_Inr [OF x(2)] and above = next_number_Inr [OF x(1)]
  have "not_numbered (pc_current c) x"
  proof (cases "pc_current c")
    case (Some g)
    have "g \<in> set (pc_rows c)" using row_in_state_Some [of _ _ g] ok(2) Some by metis
    then show ?thesis using above px Some by (auto simp: not_numbered_def)
  qed (simp add: not_numbered_def)
  moreover have "filter (not_numbered (pc_current c)) (pc_rows c) =
      filter (\<lambda>r. row_number r \<noteq> row_number x \<and> not_numbered (pc_current c) r) (pc_rows c)"
    using above px by (intro filter_cong) auto
  ultimately show ?thesis
    using activated_fences_canonical [OF ok(1,2) x(3), of x "pc_runtime c" rows] px x(4) above by auto
qed

text \<open>What a plan does to the fences of its extension, by the operation of the transition.\<close>

definition incompatible_update :: "plan_context \<Rightarrow> bool" where
  "incompatible_update c \<longleftrightarrow> tn_operation (pc_transition c) = UpdateOp \<and> pc_compatibility c = Some IncompatibleUpdate"

definition activated :: "plan_context \<Rightarrow> int \<Rightarrow> fences" where
  "activated c n = (retire_fences (fences_of (pc_rows c)))(n \<mapsto> (CurrentGeneration, pc_runtime c))"

definition activation_outcome :: "plan_context \<Rightarrow> fences \<Rightarrow> bool" where
  "activation_outcome c G \<longleftrightarrow>
     (case pc_pending c of
        Some p \<Rightarrow> ge_runtime p = pc_runtime c \<and> G = activated c (row_number p)
      | None \<Rightarrow>
          (case pc_current c of
             Some g \<Rightarrow>
               if incompatible_update c
               then G = fences_of (pc_rows c) \<and> ge_runtime g = pc_runtime c \<or>
                    (\<exists>n. above_all n (fences_of (pc_rows c)) \<and> G = activated c n)
               else G = (fences_of (pc_rows c))(row_number g \<mapsto> (CurrentGeneration, pc_runtime c))
           | None \<Rightarrow> \<exists>n. above_all n (fences_of (pc_rows c)) \<and> G = activated c n))"

definition fence_outcome :: "plan_context \<Rightarrow> fences \<Rightarrow> bool" where
  "fence_outcome c G =
     (case tn_operation (pc_transition c) of
        DisableOp \<Rightarrow> G = fences_of (pc_rows c)
      | UninstallOp \<Rightarrow> G = retire_fences (fences_of (pc_rows c))
      | QuarantineOp \<Rightarrow> G = retire_fences (fences_of (pc_rows c))
      | _ \<Rightarrow> activation_outcome c G)"

lemma plan_keep_step:
  assumes "context_ok c" "pc_current c = Some g" "plan_keep c g = Inr (rows, ss)"
  shows "numbered rows \<and> sorted (map row_number rows) \<and>
     fences_of rows = (fences_of (pc_rows c))(row_number g \<mapsto> (CurrentGeneration, pc_runtime c))"
proof -
  from assms(1) have ok: "numbered (pc_rows c)" by (simp add: context_ok_def rows_ok_def)
  from assms(3) obtain n where n: "rows = replace_row (pc_rows c) n"
    "context_generation c (row_number g) CurrentGeneration (pc_runtime c) = Inr n"
    by (auto simp: plan_keep_def)
  show ?thesis using context_generation_Inr [OF n(2)] ok by (simp add: n(1) fences_of_replace_row)
qed

lemma plan_activate_step:
  assumes "context_ok c" "plan_activate c = Inr (rows, ss)"
  shows "numbered rows \<and> sorted (map row_number rows) \<and> activation_outcome c (fences_of rows)"
proof -
  from assms(1) have ok: "numbered (pc_rows c)" "sorted (map row_number (pc_rows c))" by (simp_all add: context_ok_def rows_ok_def)
  have fresh: "numbered rows \<and> sorted (map row_number rows) \<and> (\<exists>n. above_all n (fences_of (pc_rows c)) \<and> fences_of rows = activated c n)"
    if "plan_fresh c = Inr (rows, ss)"
    using plan_fresh_step [OF assms(1) that] above_all_fences [OF ok(1)] by (auto simp: activated_def)
  show ?thesis
  proof (cases "pc_pending c")
    case (Some p)
    then have "plan_promote c p = Inr (rows, ss)" using assms(2) by (simp add: plan_activate_def Let_def)
    from plan_promote_step [OF assms(1) Some this] show ?thesis by (simp add: activation_outcome_def activated_def Some)
  next
    case None
    show ?thesis
    proof (cases "pc_current c")
      case (Some g)
      consider "incompatible_update c" "ge_runtime g = pc_runtime c" "rows = pc_rows c"
        | "\<not> incompatible_update c" "plan_keep c g = Inr (rows, ss)" | "incompatible_update c" "plan_fresh c = Inr (rows, ss)"
        using assms(2) None Some by (auto simp: plan_activate_def Let_def incompatible_update_def split: if_splits)
      then show ?thesis
        using plan_keep_step [OF assms(1) Some] fresh None Some ok by cases (auto simp: activation_outcome_def)
    next
      case no_current: None
      then have "plan_fresh c = Inr (rows, ss)" using assms(2) None by (simp add: plan_activate_def Let_def)
      then show ?thesis using fresh None no_current by (simp add: activation_outcome_def)
    qed
  qed
qed

lemma plan_rows_step:
  assumes "context_ok c" "plan_rows c = Inr (rows, ss)"
  shows "numbered rows \<and> sorted (map row_number rows) \<and> fence_outcome c (fences_of rows)"
  using plan_disable_step [OF assms(1)] plan_retire_step [OF assms(1)] plan_activate_step [OF assms(1)] assms(2)
  by (cases "tn_operation (pc_transition c)") (auto simp: plan_rows_def fence_outcome_def)

lemma fence_outcome_step:
  assumes "context_ok c" "fence_outcome c G"
  shows "fence_step (fences_of (pc_rows c)) G"
proof -
  from assms(1) have ok: "numbered (pc_rows c)" "current_row (pc_rows c) = Inr (pc_current c)" "pending_row (pc_rows c) = Inr (pc_pending c)"
    by (simp_all add: context_ok_def rows_ok_def)
  have fresh: "fence_step (fences_of (pc_rows c)) (activated c n)" if "above_all n (fences_of (pc_rows c))" for n
    unfolding activated_def using that by (rule fence_step.fresh)
  have promoted: "fence_step (fences_of (pc_rows c)) (activated c (row_number p))"
    if "pc_pending c = Some p" "ge_runtime p = pc_runtime c" for p
    unfolding activated_def using current_fence [OF ok(1,3)] that by (intro fence_step.promote) simp
  have kept: "fence_step (fences_of (pc_rows c)) ((fences_of (pc_rows c))(row_number g \<mapsto> (CurrentGeneration, ids)))"
    if "pc_current c = Some g" for g ids
    using current_fence [OF ok(1,2)] that by (intro fence_step.keep [of _ _ "ge_runtime g"]) simp
  have "activation_outcome c G \<Longrightarrow> fence_step (fences_of (pc_rows c)) G"
    by (auto simp: activation_outcome_def intro: fresh promoted kept fence_step.stay split: option.splits if_splits)
  then show ?thesis
    using assms(2) by (auto simp: fence_outcome_def intro: fence_step.stay fence_step.retire split: transition_operation.splits)
qed

lemma plan_lifecycle_Inr:
  assumes "plan_lifecycle i = Inr p"
  obtains c ss where "plan_arguments i = Inr c" "context_ok c" "plan_rows c = Inr (lp_generations p, ss)" "lp_snapshots p = ss"
    "finish_plan c (lp_generations p, ss) = Inr p"
proof -
  from assms obtain c rows ss where c: "plan_arguments i = Inr c" "plan_rows c = Inr (rows, ss)" "finish_plan c (rows, ss) = Inr p"
    by (auto simp: plan_lifecycle_def)
  have "lp_generations p = rows" "lp_snapshots p = ss" using c(3) by (auto simp: finish_plan_def Let_def split: if_splits)
  then show thesis using that c plan_arguments_Inr [OF c(1)] by blast
qed

text \<open>The rows that the planner read, where it read the rows of a store.\<close>

lemma plan_arguments_rows:
  assumes "plan_arguments i = Inr c" "pi_existing i = map Some raw"
  shows "pc_rows c = canonical_rows raw \<and> numbered raw \<and> distinct (concat (map ge_runtime raw))"
  using plan_arguments_Inr [OF assms(1)] assms(2) by (auto simp: parse_existing_Inr inj_map_eq_map)

end
