(* ===== verification/AuthorizationHistory.thy ===== *)
theory AuthorizationHistory
  imports AuthorizationLifecycleProperties
begin

text \<open>
  Sequences of plans. Rows that a plan returned are valid input of the next plan; the mutations of a
  plan turn the stored rows into the rows it returned; over any sequence of plans a generation number
  is used once, never goes back, and a retired generation keeps its runtime generations for ever.
\<close>

subsection \<open>Reservations are steps\<close>

lemma plan_pending_Inr:
  assumes "plan_pending i = Inr p"
  obtains e t rows where "parse_expected (qi_expected i) = Inr e" "t = reservation_transition e i"
    "parse_existing (qi_existing i) t e = Inr rows"
    "lp_generations p = rows \<and> lp_replayed p \<and> lp_mutations p = [] \<or>
     (\<exists>n r. pending_row rows = Inr None \<and> next_number rows = Inr n \<and> \<not> lp_replayed p \<and>
        build_generation n PendingConfiguration [qi_runtime i] (st_authorization e) (st_lifecycle e + 1) t = Inr r \<and>
        lp_generations p = canonical_rows (rows @ [r]) \<and> lp_mutations p = [GenerationMutation r])"
  using assms
  by (auto simp: plan_pending_def lift_store_def Let_def next_lifecycle_Inr split: sum.splits if_splits
      dest!: parse_runtime_ids_Inr)

lemma snoc_fences:
  assumes "numbered rows" "\<forall>r \<in> set rows. row_number r < row_number g"
  shows "numbered (rows @ [g]) \<and> fences_of (canonical_rows (rows @ [g])) = (fences_of rows)(row_number g \<mapsto> fence g)"
proof -
  have "filter (\<lambda>r. row_number r \<noteq> row_number g) rows = rows" using assms(2) by (intro filter_True) auto
  then have "replace_row rows g = canonical_rows (rows @ [g])" by (simp add: replace_row_def)
  moreover have "numbered (rows @ [g])" using assms by auto
  ultimately show ?thesis using fences_of_replace_row [OF assms(1), of g] by simp
qed

lemma plan_pending_step:
  assumes "plan_pending i = Inr p" "qi_existing i = map Some raw"
  shows "numbered raw \<and> numbered (lp_generations p) \<and> sorted (map row_number (lp_generations p)) \<and>
     fence_step (fences_of raw) (fences_of (lp_generations p))"
proof -
  obtain e t rows where rows: "parse_existing (qi_existing i) t e = Inr rows" and cases: "lp_generations p = rows \<or>
     (\<exists>n r. pending_row rows = Inr None \<and> next_number rows = Inr n \<and>
        build_generation n PendingConfiguration [qi_runtime i] (st_authorization e) (st_lifecycle e + 1) t = Inr r \<and>
        lp_generations p = canonical_rows (rows @ [r]))"
    by (rule plan_pending_Inr [OF assms(1)]) blast
  have raw: "numbered raw" "rows = canonical_rows raw"
    using rows assms(2) by (auto simp: parse_existing_Inr inj_map_eq_map)
  then have ok: "numbered rows" "fences_of rows = fences_of raw" by (simp_all add: fences_of_canonical_rows)
  from cases show ?thesis
  proof (elim disjE exE conjE)
    assume "lp_generations p = rows"
    then show ?thesis using raw ok by (auto intro: fence_step.stay)
  next
    fix n r
    assume r: "pending_row rows = Inr None" "next_number rows = Inr n"
      "build_generation n PendingConfiguration [qi_runtime i] (st_authorization e) (st_lifecycle e + 1) t = Inr r"
      "lp_generations p = canonical_rows (rows @ [r])"
    have new: "row_number r = n" "fence r = (PendingConfiguration, [qi_runtime i])"
      using r(3) by (simp_all add: build_generation_Inr row_number_def fence_def)
    note above = next_number_Inr [OF r(2)]
    have "fence_step (fences_of rows) ((fences_of rows)(n \<mapsto> (PendingConfiguration, [qi_runtime i])))"
      using above_all_fences [OF ok(1) above] by (intro fence_step.reserve) (auto simp: current_fence [OF ok(1) r(1)])
    then show ?thesis using snoc_fences [OF ok(1), of r] above new raw ok r(4) by simp
  qed
qed

lemma plan_lifecycle_step:
  assumes "plan_lifecycle i = Inr p" "pi_existing i = map Some raw"
  shows "numbered raw \<and> numbered (lp_generations p) \<and> sorted (map row_number (lp_generations p)) \<and>
     fence_step (fences_of raw) (fences_of (lp_generations p))"
proof -
  obtain c ss where c: "plan_arguments i = Inr c" "context_ok c" "plan_rows c = Inr (lp_generations p, ss)"
    by (rule plan_lifecycle_Inr [OF assms(1)])
  have raw: "numbered raw" "fences_of (pc_rows c) = fences_of raw"
    using plan_arguments_rows [OF c(1) assms(2)] by (simp_all add: fences_of_canonical_rows)
  show ?thesis
    using plan_rows_step [OF c(2,3)] fence_outcome_step [OF c(2)] raw by auto
qed

text \<open>C6: A plan refines a small machine on fences, the map from generation numbers to states and runtime
  generations: disabling changes no fence, removal and quarantine retire the current one, an activation
  promotes the pending fence, keeps the current one or starts a fence above all others and retires the
  current one, and no operation does anything else.
\<close>

theorem plan_refines_fences:
  assumes "plan_lifecycle i = Inr p" "pi_existing i = map Some stored"
  shows "\<exists>c. plan_arguments i = Inr c \<and> fences_of (pc_rows c) = fences_of stored \<and>
     fence_outcome c (fences_of (lp_generations p)) \<and> fence_step (fences_of stored) (fences_of (lp_generations p))"
proof -
  obtain c ss where c: "plan_arguments i = Inr c" "context_ok c" "plan_rows c = Inr (lp_generations p, ss)"
    by (rule plan_lifecycle_Inr [OF assms(1)])
  have "fences_of (pc_rows c) = fences_of stored"
    using plan_arguments_rows [OF c(1) assms(2)] by (simp add: fences_of_canonical_rows)
  then show ?thesis using c(1) plan_rows_step [OF c(2,3)] plan_lifecycle_step [OF assms] by auto
qed

subsection \<open>Sequences of plans\<close>

text \<open>The caller stores the rows of a plan and passes the stored rows, in any order, to the next one.\<close>

inductive plan_history :: "generation list \<Rightarrow> generation list \<Rightarrow> bool" where
  start: "plan_history rows rows"
| planned: "plan_history rows stored \<Longrightarrow> mset raw = mset stored \<Longrightarrow> pi_existing i = map Some raw \<Longrightarrow>
    plan_lifecycle i = Inr p \<Longrightarrow> plan_history rows (lp_generations p)"
| reserved: "plan_history rows stored \<Longrightarrow> mset raw = mset stored \<Longrightarrow> qi_existing i = map Some raw \<Longrightarrow>
    plan_pending i = Inr p \<Longrightarrow> plan_history rows (lp_generations p)"

abbreviation fence_steps :: "fences \<Rightarrow> fences \<Rightarrow> bool" where
  "fence_steps \<equiv> fence_step\<^sup>*\<^sup>*"

lemma numbered_mset: "mset xs = mset ys \<Longrightarrow> numbered xs = numbered ys"
  by (metis mset_eq_imp_distinct_iff mset_map)

lemma fences_of_mset: "mset xs = mset ys \<Longrightarrow> numbered xs \<Longrightarrow> fences_of xs = fences_of ys"
  using row_at_same_set [of xs ys] numbered_mset [of xs ys] mset_eq_setD [of xs ys] by (simp add: fences_of_def fun_eq_iff)

lemma plan_history_steps: "plan_history rows stored \<Longrightarrow> numbered rows \<Longrightarrow>
    numbered stored \<and> fence_steps (fences_of rows) (fences_of stored)"
proof (induction rule: plan_history.induct)
  case (planned rows stored raw i p)
  then show ?case
    using plan_lifecycle_step [of i p raw] fences_of_mset [of raw stored] by (auto intro: rtranclp.rtrancl_into_rtrancl)
next
  case (reserved rows stored raw i p)
  then show ?case
    using plan_pending_step [of i p raw] fences_of_mset [of raw stored] by (auto intro: rtranclp.rtrancl_into_rtrancl)
qed auto

lemma fence_steps_inv: "fence_steps F G \<Longrightarrow> fence_inv F \<Longrightarrow> fence_inv G"
  by (induction rule: rtranclp_induct) (auto intro: fence_inv_step)

lemma fence_steps_forward:
  "fence_steps F G \<Longrightarrow> F n = Some (s, ids) \<Longrightarrow> \<exists>t ids'. G n = Some (t, ids') \<and> progress s \<le> progress t"
proof (induction rule: rtranclp_induct)
  case (step G H)
  then obtain t ids' where "G n = Some (t, ids')" "progress s \<le> progress t" by blast
  with fence_step_forward [OF step.hyps(2) this(1)] show ?case by fastforce
qed auto

lemma fence_steps_retired:
  "fence_steps F G \<Longrightarrow> F n = Some (RetiredGeneration, ids) \<Longrightarrow> G n = Some (RetiredGeneration, ids)"
  by (induction rule: rtranclp_induct) (auto intro: fence_step_retired)

lemma above_all_mono: "above_all n F \<Longrightarrow> F m \<noteq> None \<Longrightarrow> m < n"
  by (simp add: above_all_def)

text \<open>A number that a step brings in is above all that were there.\<close>

lemma fence_step_new:
  "fence_step F G \<Longrightarrow> F n = None \<Longrightarrow> G n \<noteq> None \<Longrightarrow> above_all n F"
  by (induction rule: fence_step.induct) (auto simp: retire_fences_def split: if_splits)

lemma fence_step_dom: "fence_step F G \<Longrightarrow> F n \<noteq> None \<Longrightarrow> G n \<noteq> None"
  using fence_step_forward by fastforce

lemma fence_steps_new: "fence_steps F G \<Longrightarrow> F n = None \<Longrightarrow> G n \<noteq> None \<Longrightarrow> above_all n F"
proof (induction rule: converse_rtranclp_induct)
  case (step F H)
  show ?case
  proof (cases "H n")
    case None
    then have "above_all n H" using step by simp
    then show ?thesis using fence_step_dom [OF step.hyps(1)] by (auto simp: above_all_def)
  next
    case (Some f)
    then show ?thesis using fence_step_new [OF step.hyps(1)] step.prems by simp
  qed
qed simp

text \<open>C4: Over any sequence of plans and reservations for an extension that starts from rows with distinct
  numbers, numbers stay distinct, no fence is lost or goes back from current to pending or from retired
  to current, a retired one keeps its runtime generations, new numbers are above all earlier ones, and
  at most one generation is current and at most one pending if that held at the start.
\<close>

theorem retired_generations_never_return:
  assumes "plan_history rows stored" "numbered rows"
  shows "numbered stored \<and>
     (\<forall>n s ids. fences_of rows n = Some (s, ids) \<longrightarrow>
        (\<exists>t ids'. fences_of stored n = Some (t, ids') \<and> progress s \<le> progress t \<and> (s = RetiredGeneration \<longrightarrow> ids' = ids))) \<and>
     (\<forall>n. fences_of rows n = None \<and> fences_of stored n \<noteq> None \<longrightarrow> above_all n (fences_of rows)) \<and>
     (fence_inv (fences_of rows) \<longrightarrow> fence_inv (fences_of stored))"
proof -
  have steps: "numbered stored" "fence_steps (fences_of rows) (fences_of stored)"
    using plan_history_steps [OF assms] by simp_all
  have "\<exists>t ids'. fences_of stored n = Some (t, ids') \<and> progress s \<le> progress t \<and> (s = RetiredGeneration \<longrightarrow> ids' = ids)"
    if "fences_of rows n = Some (s, ids)" for n s ids
    using fence_steps_forward [OF steps(2) that] fence_steps_retired [OF steps(2), of n ids] that
    by (cases "s = RetiredGeneration") auto
  then show ?thesis
    using steps fence_steps_new [OF steps(2)] fence_steps_inv [OF steps(2)] by blast
qed

subsection \<open>The rows of a plan are valid input\<close>

lemma built_row_ok:
  assumes "context_ok c" "context_generation c n s ids = Inr g" "sorted_unique ids"
  shows "row_ok (pc_expected c) (pc_transition c) (pc_target c) g"
  using assms by (auto simp: context_generation_def build_generation_Inr row_ok_def)

lemma retire_current_row_ok:
  assumes "context_ok c" "retire_current c = Inr rs"
  shows "list_all (row_ok (pc_expected c) (pc_transition c) (pc_target c)) rs"
proof (cases "pc_current c")
  case (Some g)
  then obtain r where r: "rs = [r]" "context_generation c (row_number g) RetiredGeneration (ge_runtime g) = Inr r"
    using assms(2) by (auto simp: retire_current_def)
  have "g \<in> set (pc_rows c)" using row_in_state_Some [of _ _ g g] assms(1) Some by (auto simp: context_ok_def)
  then have "sorted_unique (ge_runtime g)" using assms(1) by (auto simp: context_ok_def rows_ok_def list_all_iff row_ok_def)
  then show ?thesis using built_row_ok [OF assms(1) r(2)] r(1) by simp
qed (use assms(2) in \<open>simp add: retire_current_def\<close>)

lemma known_runtime_sorted:
  assumes "context_ok c" "g \<in> set (pc_rows c)"
  shows "sorted_unique (ge_runtime g)"
  using assms by (auto simp: context_ok_def rows_ok_def list_all_iff row_ok_def)

lemma named_rows:
  assumes "context_ok c"
  shows "pc_current c = Some g \<Longrightarrow> g \<in> set (pc_rows c)" "pc_pending c = Some g \<Longrightarrow> g \<in> set (pc_rows c)"
    "retired_match c = Some g \<Longrightarrow> g \<in> set (pc_rows c)"
  using assms row_in_state_Some [of CurrentGeneration "pc_rows c" g g] row_in_state_Some [of PendingConfiguration "pc_rows c" g g]
  by (auto simp: context_ok_def retired_match_def find_Some_iff split: if_splits)

lemma plan_rows_row_ok:
  assumes "context_ok c" "plan_rows c = Inr (rows, ss)"
  shows "list_all (row_ok (pc_expected c) (pc_transition c) (pc_target c)) rows"
proof -
  define ok where "ok = row_ok (pc_expected c) (pc_transition c) (pc_target c)"
  note named = named_rows [OF assms(1)] and known = named_rows [OF assms(1), THEN known_runtime_sorted [OF assms(1)]]
  have old: "ok r" if "r \<in> set (pc_rows c)" for r
    using assms(1) that unfolding ok_def context_ok_def rows_ok_def by (auto simp: list_all_iff)
  have runtime: "sorted_unique (pc_runtime c)" using assms(1) by (simp add: context_ok_def)
  have built: "ok r" if "context_generation c n s ids = Inr r" "sorted_unique ids" for n s ids r
    unfolding ok_def by (rule built_row_ok [OF assms(1) that])
  have kept: "ok r" if "context_generation c n s (ge_runtime g) = Inr r"
    "pc_current c = Some g \<or> pc_pending c = Some g \<or> retired_match c = Some g" for n s g r
    using that built known by blast
  have gone: "\<forall>r \<in> set rs. ok r" if "retire_current c = Inr rs" for rs
    using retire_current_row_ok [OF assms(1) that] by (simp add: ok_def list_all_iff)
  have "\<forall>r \<in> set rows. ok r" if "plan_disable c = Inr (rows, ss)"
    using that old by (auto simp: plan_disable_def replace_row_def intro: built kept split: option.splits)
  moreover have "\<forall>r \<in> set rows. ok r" if "plan_retire c = Inr (rows, ss)"
    using that old
    by (auto simp: plan_retire_def replace_row_def Let_def intro: built kept split: option.splits if_splits)
  moreover have "\<forall>r \<in> set rows. ok r" if "plan_promote c p = Inr (rows, ss)" "pc_pending c = Some p" for p
    using that old gone runtime by (auto simp: plan_promote_def intro: built kept split: option.splits if_splits)
  moreover have "\<forall>r \<in> set rows. ok r" if "plan_keep c g = Inr (rows, ss)" for g
    using that old runtime by (auto simp: plan_keep_def replace_row_def intro: built)
  moreover have fresh: "\<forall>r \<in> set rows. ok r" if "plan_fresh c = Inr (rows, ss)"
    using that old gone runtime by (auto simp: plan_fresh_def intro: built split: if_splits option.splits)
  ultimately have "\<forall>r \<in> set rows. ok r"
    using assms(2) old
    by (auto simp: plan_rows_def plan_activate_def Let_def split: transition_operation.splits option.splits if_splits)
  then show ?thesis by (simp add: list_all_iff ok_def)
qed

text \<open>The rows of a plan are what \<open>parseExistingGenerations\<close> accepts, as long as no two share a runtime generation.\<close>

lemma plan_rows_reparsed:
  assumes "plan_arguments i = Inr c" "plan_rows c = Inr (rows, ss)" "distinct (concat (map ge_runtime rows))"
  shows "parse_existing (map Some rows) (pc_transition c) (pc_expected c) = Inr rows"
proof -
  have c: "context_ok c" and old: "parse_existing (pi_existing i) (pc_transition c) (pc_expected c) = Inr (pc_rows c)"
    using plan_arguments_Inr [OF assms(1)] by simp_all
  have "st_lifecycle (pc_expected c) < 1000000000"
    using assms(1) by (auto simp: plan_arguments_def Let_def next_lifecycle_Inr split: if_splits)
  moreover have "pc_target c = st_lifecycle (pc_expected c) + 1" using c by (simp add: context_ok_def)
  ultimately show ?thesis
    using plan_rows_step [OF c assms(2)] plan_rows_row_ok [OF c assms(2)] assms(3)
    by (simp add: parse_existing_Inr canonical_rows_sorted)
qed

subsection \<open>The mutations of a plan\<close>

text \<open>What the store of the host does with the rows: it replaces the row of a number.\<close>

definition apply_mutation :: "store_mutation \<Rightarrow> generation list \<Rightarrow> generation list" where
  "apply_mutation m rows = (case m of GenerationMutation g \<Rightarrow> replace_row rows g | _ \<Rightarrow> rows)"

lemma apply_snapshots: "fold apply_mutation (map SnapshotMutation ss) rows = rows"
  by (induction ss) (simp_all add: apply_mutation_def)

lemma row_at_Cons: "row_at (g # gs) n = (if row_number g = n then Some g else row_at gs n)"
  by (simp add: row_at_def)

lemma apply_generations:
  "numbered rows \<Longrightarrow> numbered gs \<Longrightarrow>
   numbered (fold apply_mutation (map GenerationMutation gs) rows) \<and>
   row_at (fold apply_mutation (map GenerationMutation gs) rows) = row_at rows ++ row_at gs"
proof (induction gs arbitrary: rows)
  case (Cons g gs)
  have "row_at gs (row_number g) = None" using Cons.prems(2) by (simp add: row_at_None)
  then have "(row_at rows)(row_number g \<mapsto> g) ++ row_at gs = row_at rows ++ row_at (g # gs)"
    by (auto simp: row_at_Cons map_add_def fun_eq_iff split: option.splits)
  then show ?case
    using Cons.IH [of "replace_row rows g"] Cons.prems by (simp add: apply_mutation_def row_at_replace_row del: fun_upd_apply)
qed (simp add: row_at_def [abs_def] map_add_def)

lemma map_of_rows: "map_of (map (\<lambda>r. (row_number r, r)) rows) = row_at rows"
  by (induction rows) (auto simp: row_at_def [abs_def] fun_eq_iff)

lemma changed_rows_filter:
  assumes "numbered before" "numbered after"
  shows "changed_rows before after = filter (\<lambda>r. r \<notin> set before) after"
proof -
  have "numbered (rev before)" using assms(1) by (simp add: rev_map [symmetric])
  then have "map_of (rev (map (\<lambda>r. (row_number r, r)) before)) = row_at before"
    using row_at_same_set [of "rev before" before] assms(1) by (simp add: rev_map map_of_rows)
  moreover have "(case row_at before (row_number r) of None \<Rightarrow> True | Some p \<Rightarrow> \<not> same_row p r) \<longleftrightarrow> r \<notin> set before" for r
    using row_at_Some [OF assms(1), of "row_number r"] assms(1)
    by (auto simp: row_at_None distinct_map inj_on_def split: option.splits)
  ultimately show ?thesis by (simp add: changed_rows_def Let_def)
qed

lemma changed_rows_complete:
  assumes "numbered before" "numbered after" "row_number ` set before \<subseteq> row_number ` set after"
  shows "row_at before ++ row_at (changed_rows before after) = row_at after"
proof
  fix n
  let ?new = "filter (\<lambda>r. r \<notin> set before) after"
  have new: "numbered ?new" using assms(2) by (simp add: distinct_map_filter)
  have "(row_at before ++ row_at ?new) n = row_at after n"
  proof (cases "row_at ?new n")
    case (Some r)
    then have "row_at after n = Some r" by (simp add: row_at_Some [OF new] row_at_Some [OF assms(2)])
    then show ?thesis using Some by (simp add: map_add_def)
  next
    case None
    then have "row_at before n = Some r \<longleftrightarrow> row_at after n = Some r" for r
      using assms row_at_Some [OF assms(1)] row_at_Some [OF assms(2)]
      by (auto simp: row_at_None image_iff distinct_map inj_on_def) (metis image_eqI imageE subsetD)+
    then have "row_at before n = row_at after n" by (metis not_None_eq)
    then show ?thesis using None by (simp add: map_add_def)
  qed
  then show "(row_at before ++ row_at (changed_rows before after)) n = row_at after n"
    by (simp add: changed_rows_filter assms)
qed

lemma row_at_inject:
  assumes "numbered xs" "numbered ys" "row_at xs = row_at ys"
  shows "set xs = set ys"
  using row_at_Some [OF assms(1)] row_at_Some [OF assms(2)] assms(3) by (metis subsetI subset_antisym)

lemma is_replay_iff [simp]: "is_replay xs ys \<longleftrightarrow> xs = ys"
  by (simp add: is_replay_def list.rel_eq ext [of same_row, OF ext, OF same_row_iff])

lemma finish_plan_Inr:
  assumes "finish_plan c (rows, ss) = Inr p"
  shows "lp_lifecycle p = pc_target c" "lp_generations p = rows" "lp_replayed p \<longleftrightarrow> rows = pc_rows c"
    "lp_mutations p = (if lp_replayed p then []
       else map GenerationMutation (changed_rows (pc_rows c) rows) @ map SnapshotMutation ss)"
    "\<not> lp_replayed p \<Longrightarrow> \<forall>r \<in> set (pc_rows c). ge_lifecycle r \<noteq> pc_target c"
  using assms by (auto simp: finish_plan_def Let_def split: if_splits)

lemma create_snapshots_valid: "create_snapshots ds x application s n = Inr ss \<Longrightarrow> list_all snapshot_schema ss"
  by (induction ds arbitrary: ss) (auto simp: create_snapshots_def create_snapshot_def Let_def split: if_splits)

lemma plan_rows_snapshots: "plan_rows c = Inr (rows, ss) \<Longrightarrow> list_all snapshot_schema ss"
  by (auto simp: plan_rows_def plan_disable_def plan_retire_def plan_activate_def plan_promote_def plan_keep_def plan_fresh_def
      context_snapshots_def Let_def split: transition_operation.splits option.splits if_splits
      dest: create_snapshots_valid)

text \<open>The mutations of a plan are exactly what its caller has to write: applied to the stored rows they
  give the rows of the plan, each of them passes the schema by which the store parses mutations, a plan
  that was replayed has none, and every other one leaves the rows of its target revision to itself.
\<close>

theorem plan_mutations_exact:
  assumes "plan_lifecycle i = Inr p" "pi_existing i = map Some stored"
  shows "canonical_rows (fold apply_mutation (lp_mutations p) stored) = lp_generations p \<and>
     list_all mutation_schema (lp_mutations p) \<and>
     (lp_replayed p \<longleftrightarrow> canonical_rows stored = lp_generations p) \<and>
     (lp_replayed p \<longrightarrow> lp_mutations p = []) \<and>
     (\<not> lp_replayed p \<longrightarrow> list_all (\<lambda>r. ge_lifecycle r < lp_lifecycle p) stored)"
proof -
  obtain c ss where c: "plan_arguments i = Inr c" "context_ok c" "plan_rows c = Inr (lp_generations p, ss)"
    and p: "finish_plan c (lp_generations p, ss) = Inr p"
    by (rule plan_lifecycle_Inr [OF assms(1)])
  have rows: "pc_rows c = canonical_rows stored" "numbered stored" using plan_arguments_rows [OF c(1) assms(2)] by simp_all
  have after: "numbered (lp_generations p)" "sorted (map row_number (lp_generations p))"
    and step: "fence_step (fences_of stored) (fences_of (lp_generations p))"
    using plan_lifecycle_step [OF assms] by simp_all
  have old: "list_all (\<lambda>r. ge_lifecycle r \<le> pc_target c) stored"
    using c(2) by (auto simp: context_ok_def rows_ok_def rows row_ok_def list_all_iff)
  have valid: "list_all generation_schema (lp_generations p)" "list_all snapshot_schema ss"
    using plan_rows_row_ok [OF c(2,3)] plan_rows_snapshots [OF c(3)] by (simp_all add: list_all_iff row_ok_def)
  let ?gs = "changed_rows stored (lp_generations p)"
  have gs: "?gs = filter (\<lambda>r. r \<notin> set stored) (lp_generations p)" "changed_rows (pc_rows c) (lp_generations p) = ?gs"
    by (simp_all add: changed_rows_filter rows after)
  have "row_number ` set stored \<subseteq> row_number ` set (lp_generations p)"
    using fence_step_dom [OF step] by (auto simp: fences_of_def row_at_None)
  note complete = changed_rows_complete [OF rows(2) after(1) this]
  have "numbered ?gs" using after(1) by (simp add: gs distinct_map_filter)
  note applied = apply_generations [OF rows(2) this, unfolded complete]
  note all = row_at_inject [OF conjunct1 [OF applied] after(1) conjunct2 [OF applied]] conjunct1 [OF applied]
  note plan = finish_plan_Inr(1,4,5) [OF p]
  have "canonical_rows (fold apply_mutation (map GenerationMutation ?gs) stored) = lp_generations p"
    using canonical_rows_unique [OF after(1) all] canonical_rows_sorted [OF after(2)] by simp
  then have written: "\<not> lp_replayed p \<Longrightarrow> canonical_rows (fold apply_mutation (lp_mutations p) stored) = lp_generations p"
    by (simp add: plan gs(2) apply_snapshots)
  have "list_all mutation_schema (lp_mutations p)"
    using valid by (auto simp: plan(2) list_all_iff mutation_schema_def gs)
  moreover have "\<not> lp_replayed p \<Longrightarrow> list_all (\<lambda>r. ge_lifecycle r < lp_lifecycle p) stored"
    using old plan(3) by (auto simp: plan(1) rows(1) list_all_iff less_le)
  moreover have "lp_replayed p \<longleftrightarrow> canonical_rows stored = lp_generations p" "lp_replayed p \<Longrightarrow> lp_mutations p = []"
    by (auto simp: plan(2) rows(1) finish_plan_Inr(3) [OF p])
  ultimately show ?thesis using written by auto
qed

end
