(* ===== verification/AuthorizationReplay.thy ===== *)
theory AuthorizationReplay
  imports AuthorizationHistory
begin

text \<open>
  Planning the same transition again over the rows of its plan. The second plan changes nothing, except
  that the code refuses it for a quarantine, and for rows that share a runtime generation.
\<close>

subsection \<open>Snapshots always pass their schema\<close>

lemma authz_identifier_append:
  assumes "authz_identifier s" "length s + length t \<le> max_identifier_length" "list_all (\<lambda>c. is_alnum c \<or> c \<in> set ''._:@/-'') t"
  shows "authz_identifier (s @ t)"
  using assms by (cases s) (auto simp: authz_identifier_def)

lemma deterministic_id_valid: "authz_identifier (deterministic_id ''authorization-snapshot'' parts)"
proof -
  obtain digits where d: "sha256_text (strings_text parts) = ''sha256:'' @ digits" "length digits = 64"
    "\<forall>c \<in> set digits. is_digit c \<or> CHR ''a'' \<le> c \<and> c \<le> CHR ''f''"
    using sha256_text_format [of "strings_text parts"] by metis
  have "is_alnum c" if "is_digit c \<or> CHR ''a'' \<le> c \<and> c \<le> CHR ''f''" for c
    using that by (auto simp: is_alnum_def is_lower_def is_digit_def less_eq_char_def)
  then have "list_all (\<lambda>c. is_alnum c \<or> c \<in> set ''._:@/-'') digits" using d(3) by (auto simp: list_all_iff)
  moreover have "authz_identifier ''authorization.authorization-snapshot.''" by code_simp
  ultimately have "authz_identifier (''authorization.authorization-snapshot.'' @ digits)"
    using d(2) by (intro authz_identifier_append) (simp_all add: max_identifier_length_def)
  then show ?thesis by (simp add: deterministic_id_def d(1))
qed

definition published_descriptor :: "transition \<Rightarrow> permission_descriptor \<Rightarrow> bool" where
  "published_descriptor t d \<longleftrightarrow> permission_schema d \<and> pm_publisher d = ExtensionPublisher (tn_class t) (tn_extension t)"

lemma parse_descriptors_Inr: "parse_descriptors vs t = Inr ds \<Longrightarrow> list_all (published_descriptor t) ds"
proof -
  assume "parse_descriptors vs t = Inr ds"
  then have "list_all2 (\<lambda>v d. parse_plan_descriptor t v = Inr d) vs ds"
    by (auto simp: parse_descriptors_def res_map_Inr split: if_splits)
  then show ?thesis
    by (induction rule: list_all2_induct)
       (auto simp: parse_plan_descriptor_def published_descriptor_def split: option.splits if_splits)
qed

lemma create_snapshot_total:
  assumes "published_descriptor t d" "xo_class x = tn_class t" "xo_extension x = tn_extension t" "extension_owner_schema x"
    "application_id a" "revision_number n"
  shows "\<exists>snapshot. create_snapshot x a s n d = Inr snapshot"
  using assms deterministic_id_valid
  by (auto simp: create_snapshot_def Let_def snapshot_schema_def published_descriptor_def owner_schema_def owned_by_owner_def
      owner_publisher_def owner_matches_publisher_def same_extension_publisher_def permission_schema_def)

lemma res_map_total: "\<forall>x \<in> set xs. \<exists>y. f x = Inr y \<Longrightarrow> \<exists>ys. res_map f xs = Inr ys"
  unfolding res_map_Inr by (induction xs) (auto simp: list_all2_Cons1)

lemma plan_arguments_descriptors:
  assumes "plan_arguments i = Inr c"
  shows "list_all (published_descriptor (pc_transition c)) (pc_descriptors c) \<and>
     list_all (published_descriptor (pc_transition c)) (prior_descriptors c) \<and>
     application_id (tn_application (pc_transition c)) \<and> revision_number (pc_target c)"
  using assms
  by (auto simp: plan_arguments_def lift_store_def Let_def next_lifecycle_Inr parse_expected_Inr state_schema_def
      revision_number_def max_revision_def prior_descriptors_def dest: parse_descriptors_Inr
      split: if_splits sum.splits option.splits)

lemma context_snapshots_total:
  assumes "plan_arguments i = Inr c" "row_ok e (pc_transition c) target g" "list_all (published_descriptor (pc_transition c)) ds"
  shows "\<exists>ss. context_snapshots c ds g s = Inr ss"
  unfolding context_snapshots_def create_snapshots_def
proof (rule res_map_total, rule ballI)
  fix d
  assume "d \<in> set ds"
  then have "published_descriptor (pc_transition c) d" using assms(3) by (simp add: list_all_iff)
  then show "\<exists>snapshot. create_snapshot (ge_owner g) (tn_application (pc_transition c)) s (pc_target c) d = Inr snapshot"
    using assms(2) plan_arguments_descriptors [OF assms(1)]
    by (intro create_snapshot_total) (simp_all add: row_ok_def generation_schema_def)
qed

subsection \<open>The arguments of the second plan\<close>

lemma replace_row_same:
  assumes "numbered rows" "sorted (map row_number rows)" "r \<in> set rows"
  shows "replace_row rows r = rows"
proof -
  have "set (filter (\<lambda>x. row_number x \<noteq> row_number r) rows @ [r]) = set rows"
    using assms(1,3) by (auto simp: distinct_map inj_on_def)
  from canonical_rows_unique [OF assms(1) this numbered_filter_snoc [OF assms(1)]] canonical_rows_sorted [OF assms(2)]
  show ?thesis by (simp add: replace_row_def)
qed

lemma at_most_one: "distinct xs \<Longrightarrow> \<forall>x \<in> set xs. \<forall>y \<in> set xs. x = y \<Longrightarrow> xs = [] \<or> (\<exists>x. xs = [x])"
  by (metis card_distinct card_le_Suc0_iff_eq distinct_card length_0_conv length_Suc_conv le_Suc_eq le_zero_eq List.finite_set)

lemma row_in_state_total:
  assumes "numbered rows" "fence_inv (fences_of rows)" "s \<in> {CurrentGeneration, PendingConfiguration}"
  shows "\<exists>w. row_in_state s rows = Inr w"
proof -
  let ?xs = "filter (\<lambda>r. ge_state r = s) rows"
  have same: "x = y" if "x \<in> set ?xs" "y \<in> set ?xs" for x y
  proof -
    have "fences_of rows (row_number x) = Some (s, ge_runtime x)" "fences_of rows (row_number y) = Some (s, ge_runtime y)"
      using that by (auto simp: fences_of_Some [OF assms(1)] fence_def)
    then have "row_number x = row_number y" using assms(2,3) unfolding fence_inv_def by blast
    then show ?thesis using that assms(1) by (auto simp: distinct_map inj_on_def)
  qed
  have "distinct ?xs" using assms(1) by (simp add: distinct_map)
  then have "?xs = [] \<or> (\<exists>x. ?xs = [x])" using at_most_one [of ?xs] same by blast
  then show ?thesis by (auto simp: row_in_state_def)
qed

lemma row_in_state_member:
  assumes "row_in_state s rows = Inr w" "r \<in> set rows" "ge_state r = s"
  shows "w = Some r"
  using row_in_state_Some [of s rows _ r] row_in_state_None [of s rows r] assms by (cases w) auto

lemma context_fence_inv: "context_ok c \<Longrightarrow> fence_inv (fences_of (pc_rows c))"
  unfolding fence_inv_def context_ok_def rows_ok_def by (auto simp: current_fence)

lemma planned_fence_inv:
  assumes "context_ok c" "plan_rows c = Inr (rows, ss)"
  shows "fence_inv (fences_of rows)"
  using fence_inv_step [OF fence_outcome_step [OF assms(1)] context_fence_inv [OF assms(1)]] plan_rows_step [OF assms] by blast

definition replayed_context :: "plan_context \<Rightarrow> generation list \<Rightarrow> generation option \<Rightarrow> generation option \<Rightarrow> plan_context" where
  "replayed_context c rows current pending = c\<lparr>pc_rows := rows, pc_current := current, pc_pending := pending\<rparr>"

lemma replayed_context_simps [simp]:
  "pc_rows (replayed_context c rows w v) = rows" "pc_current (replayed_context c rows w v) = w"
  "pc_pending (replayed_context c rows w v) = v" "pc_transition (replayed_context c rows w v) = pc_transition c"
  "pc_runtime (replayed_context c rows w v) = pc_runtime c" "pc_target (replayed_context c rows w v) = pc_target c"
  "pc_descriptors (replayed_context c rows w v) = pc_descriptors c" "pc_compatibility (replayed_context c rows w v) = pc_compatibility c"
  "prior_descriptors (replayed_context c rows w v) = prior_descriptors c"
  "context_generation (replayed_context c rows w v) = context_generation c"
  "context_snapshots (replayed_context c rows w v) = context_snapshots c"
  by (simp_all add: replayed_context_def prior_descriptors_def context_generation_def [abs_def] context_snapshots_def [abs_def])

lemma plan_arguments_replayed:
  assumes "plan_arguments i = Inr c" "parse_existing (map Some rows) (pc_transition c) (pc_expected c) = Inr rows"
    "current_row rows = Inr w" "pending_row rows = Inr v"
  shows "plan_arguments (i\<lparr>pi_existing := map Some rows\<rparr>) = Inr (replayed_context c rows w v)"
  using assms
  by (auto simp: plan_arguments_def lift_store_def Let_def replayed_context_def split: if_splits sum.splits option.splits)

subsection \<open>What a plan leaves behind\<close>

lemma context_generation_lifecycle: "context_generation c n s ids = Inr g \<Longrightarrow> ge_lifecycle g = pc_target c"
  by (auto simp: context_generation_def build_generation_Inr)

lemma built_here: "context_generation c m s ids = Inr g \<Longrightarrow> context_generation c (row_number g) s ids = Inr g"
  using context_generation_Inr [of c m s ids g] by simp

text \<open>The current row after a plan that disables or activates.\<close>

definition built_current :: "plan_context \<Rightarrow> generation \<Rightarrow> bool" where
  "built_current c n \<longleftrightarrow> context_generation c (row_number n) CurrentGeneration (pc_runtime c) = Inr n"

lemma built_current_state: "built_current c n \<Longrightarrow> ge_state n = CurrentGeneration \<and> ge_runtime n = pc_runtime c \<and> ge_lifecycle n = pc_target c"
  unfolding built_current_def using context_generation_Inr context_generation_lifecycle by blast

lemma disable_leaves: "plan_disable c = Inr (rows, ss) \<Longrightarrow> \<exists>n \<in> set rows. built_current c n"
  by (auto simp: plan_disable_def assert_exact_runtime_def replace_row_def built_current_def split: option.splits dest: built_here)

lemma activate_leaves:
  assumes "context_ok c" "plan_activate c = Inr (rows, ss)"
  shows "\<exists>n \<in> set rows. ge_state n = CurrentGeneration \<and> ge_runtime n = pc_runtime c \<and> ge_lifecycle n = pc_target c \<and>
    (\<not> incompatible_update c \<longrightarrow> built_current c n)"
proof -
  have "\<exists>n \<in> set rows. built_current c n" if "plan_promote c p = Inr (rows, ss)" for p
    using that by (auto simp: plan_promote_def built_current_def split: if_splits dest: built_here)
  moreover have "\<exists>n \<in> set rows. built_current c n" if "plan_fresh c = Inr (rows, ss)"
    using that by (auto simp: plan_fresh_def built_current_def split: if_splits dest: built_here)
  moreover have "\<exists>n \<in> set rows. built_current c n" if "plan_keep c g = Inr (rows, ss)" for g
    using that by (auto simp: plan_keep_def built_current_def replace_row_def dest: built_here)
  moreover have "(\<exists>n \<in> set rows. built_current c n) \<Longrightarrow> ?thesis" using built_current_state [of c] by blast
  moreover have ?thesis
    if "pc_current c = Some g" "incompatible_update c" "rows = pc_rows c" "ge_runtime g = pc_runtime c" "ge_lifecycle g = pc_target c" for g
    using that row_in_state_Some [of CurrentGeneration "pc_rows c" g g] assms(1) by (auto simp: context_ok_def)
  moreover obtain p g where "plan_promote c p = Inr (rows, ss) \<or> plan_fresh c = Inr (rows, ss) \<or> plan_keep c g = Inr (rows, ss) \<or>
      pc_current c = Some g \<and> incompatible_update c \<and> rows = pc_rows c \<and> ge_runtime g = pc_runtime c \<and> ge_lifecycle g = pc_target c"
    using assms(2) by (auto simp: plan_activate_def Let_def incompatible_update_def split: option.splits if_splits)
  ultimately show ?thesis by blast
qed

lemma uninstall_leaves:
  assumes "plan_retire c = Inr (rows, ss)" "context_ok c"
  shows "\<exists>r \<in> set rows. ge_state r = RetiredGeneration \<and> ge_runtime r = pc_runtime c \<and> ge_lifecycle r = pc_target c"
proof -
  have matched: "r \<in> set (pc_rows c) \<and> ge_state r = RetiredGeneration \<and> ge_runtime r = pc_runtime c" if "retired_match c = Some r" for r
    using that by (auto simp: retired_match_def find_Some_iff split: if_splits)
  have built: ?thesis if "context_generation c m RetiredGeneration (pc_runtime c) = Inr r" "rows = replace_row (pc_rows c) r" for m r
    using that context_generation_Inr context_generation_lifecycle by (fastforce simp: replace_row_def)
  show ?thesis
    using assms(1) matched built
    by (auto simp: plan_retire_def Let_def assert_exact_runtime_def split: option.splits if_splits)
qed

lemma no_pending_after_activation:
  assumes "context_ok c" "plan_activate c = Inr (rows, ss)" "r \<in> set rows"
  shows "ge_state r \<noteq> PendingConfiguration"
proof
  assume "ge_state r = PendingConfiguration"
  note step = plan_activate_step [OF assms(1,2)]
  have "fences_of rows (row_number r) = Some (PendingConfiguration, ge_runtime r)"
    using assms(3) \<open>ge_state r = PendingConfiguration\<close> step by (auto simp: fences_of_Some fence_def)
  moreover have "fences_of (pc_rows c) m = Some (PendingConfiguration, ids) \<longleftrightarrow> (\<exists>p. pc_pending c = Some p \<and> row_number p = m \<and> ge_runtime p = ids)" for m ids
    using assms(1) current_fence by (auto simp: context_ok_def rows_ok_def)
  ultimately show False
    using step by (auto simp: activation_outcome_def activated_def retire_fences_state split: option.splits if_splits)
qed

subsection \<open>The second plan\<close>

lemma runtime_fences_unique:
  "distinct (concat (map ge_runtime rows)) \<Longrightarrow> r \<in> set rows \<Longrightarrow> r' \<in> set rows \<Longrightarrow> ge_runtime r = ge_runtime r' \<Longrightarrow>
   ge_runtime r \<noteq> [] \<Longrightarrow> r = r'"
  by (induction rows) (auto simp: neq_Nil_conv; metis list.set_intros(1) disjoint_iff UN_I)+

lemma replayed_snapshots:
  assumes "plan_arguments i = Inr c" "list_all (row_ok e (pc_transition c) target) rows" "r \<in> set rows"
  shows "\<exists>ss. context_snapshots c (pc_descriptors c) r s = Inr ss"
    "\<exists>ss. context_snapshots c (removed_descriptors (prior_descriptors c) (pc_descriptors c)) r s = Inr ss"
proof -
  have r: "row_ok e (pc_transition c) target r" using assms(2,3) by (simp add: list_all_iff)
  have ok: "list_all (published_descriptor (pc_transition c)) (pc_descriptors c)"
    "list_all (published_descriptor (pc_transition c)) (removed_descriptors (prior_descriptors c) (pc_descriptors c))"
    using plan_arguments_descriptors [OF assms(1)] by (auto simp: list_all_iff removed_descriptors_def)
  show "\<exists>ss. context_snapshots c (pc_descriptors c) r s = Inr ss"
    by (rule context_snapshots_total [OF assms(1) r ok(1)])
  show "\<exists>ss. context_snapshots c (removed_descriptors (prior_descriptors c) (pc_descriptors c)) r s = Inr ss"
    by (rule context_snapshots_total [OF assms(1) r ok(2)])
qed

lemma disable_replayed:
  assumes "plan_arguments i = Inr c" "plan_disable c = Inr (rows, ss)" "list_all (row_ok e (pc_transition c) target) rows"
    "numbered rows" "sorted (map row_number rows)" "current_row rows = Inr w"
  shows "\<exists>ss'. plan_disable (replayed_context c rows w v) = Inr (rows, ss')"
proof -
  obtain n where n: "n \<in> set rows" "built_current c n" using disable_leaves [OF assms(2)] by blast
  note state = built_current_state [OF n(2)]
  have "w = Some n" using row_in_state_member [OF assms(6) n(1)] state by simp
  moreover obtain ss' where "context_snapshots c (pc_descriptors c) n InactiveExtensionDisabled = Inr ss'"
    using replayed_snapshots(1) [OF assms(1,3) n(1)] by blast
  moreover have "assert_transition_state (pc_transition c) DisabledExtension = Inr ()"
    using assms(2) by (auto simp: plan_disable_def)
  ultimately show ?thesis
    using state n(2) replace_row_same [OF assms(4,5) n(1)]
    by (simp add: plan_disable_def assert_exact_runtime_def built_current_def)
qed

lemma uninstall_replayed:
  assumes "plan_arguments i = Inr c" "context_ok c" "plan_retire c = Inr (rows, ss)" "tn_operation (pc_transition c) = UninstallOp"
    "list_all (row_ok e (pc_transition c) target) rows" "distinct (concat (map ge_runtime rows))" "current_row rows = Inr w"
  shows "\<exists>ss'. plan_retire (replayed_context c rows w v) = Inr (rows, ss')"
proof -
  have "numbered rows \<and> fences_of rows = retire_fences (fences_of (pc_rows c))" using plan_retire_step [OF assms(2,3)] by simp
  then have none: "w = None"
    using current_fence [OF _ assms(7)] retire_fences_state [of _ _ CurrentGeneration] by (cases w) auto
  obtain r where r: "r \<in> set rows" "ge_state r = RetiredGeneration" "ge_runtime r = pc_runtime c" "ge_lifecycle r = pc_target c"
    using uninstall_leaves [OF assms(3,2)] by blast
  let ?m = "\<lambda>r. ge_state r = RetiredGeneration \<and> same_runtime_ids (ge_runtime r) (pc_runtime c)"
  obtain r' where r': "find ?m rows = Some r'" using r by (cases "find ?m rows") (auto simp: find_None_iff)
  then have "r' \<in> set rows" "ge_runtime r' = ge_runtime r" using r(3) by (auto simp: find_Some_iff)
  moreover have "ge_runtime r \<noteq> []" using assms(5) r(1) by (auto simp: list_all_iff row_ok_def generation_schema_def)
  ultimately have "r' = r" using runtime_fences_unique [OF assms(6)] r(1) by metis
  then have "retired_match (replayed_context c rows w v) = Some r" using r' none by (simp add: retired_match_def)
  moreover obtain ss' where "context_snapshots c (pc_descriptors c) r OrphanedAfterRemoval = Inr ss'"
    using replayed_snapshots(1) [OF assms(1,5) r(1)] by blast
  moreover have "assert_transition_state (pc_transition c) RemovedExtension = Inr ()"
    using assms(3,4) by (auto simp: plan_retire_def Let_def)
  ultimately show ?thesis using none r(4) assms(4) by (simp add: plan_retire_def)
qed

lemma activate_replayed:
  assumes "plan_arguments i = Inr c" "context_ok c" "plan_activate c = Inr (rows, ss)"
    "list_all (row_ok e (pc_transition c) target) rows" "current_row rows = Inr w" "pending_row rows = Inr v"
  shows "\<exists>ss'. plan_activate (replayed_context c rows w v) = Inr (rows, ss')"
proof -
  have step: "numbered rows" "sorted (map row_number rows)" using plan_activate_step [OF assms(2,3)] by simp_all
  obtain n where n: "n \<in> set rows" "ge_state n = CurrentGeneration" "ge_runtime n = pc_runtime c" "ge_lifecycle n = pc_target c"
    and built: "\<not> incompatible_update c \<Longrightarrow> built_current c n"
    using activate_leaves [OF assms(2,3)] by blast
  have w: "w = Some n" by (rule row_in_state_member [OF assms(5) n(1,2)])
  have v: "v = None"
  proof (cases v)
    case (Some p)
    then have "p \<in> set rows \<and> ge_state p = PendingConfiguration" using row_in_state_Some [of _ rows p p] assms(6) by simp
    then show ?thesis using no_pending_after_activation [OF assms(2,3)] by blast
  qed
  have active: "assert_transition_state (pc_transition c) ActiveExtension = Inr ()"
    using assms(3) by (auto simp: plan_activate_def)
  obtain ss' where "context_snapshots c (removed_descriptors (prior_descriptors c) (pc_descriptors c)) n Deprecated = Inr ss'"
    using replayed_snapshots(2) [OF assms(1,4) n(1)] by blast
  then show ?thesis
    using w v active n(3,4) built replace_row_same [OF step n(1)]
    by (cases "incompatible_update c"; cases "tn_operation (pc_transition c) = UpdateOp")
       (simp_all add: plan_activate_def plan_keep_def incompatible_update_def built_current_def)
qed

lemma plan_rows_replayed:
  assumes "plan_arguments i = Inr c" "plan_rows c = Inr (rows, ss)" "tn_operation (pc_transition c) \<noteq> QuarantineOp"
    "distinct (concat (map ge_runtime rows))" "current_row rows = Inr w" "pending_row rows = Inr v"
  shows "\<exists>ss'. plan_rows (replayed_context c rows w v) = Inr (rows, ss')"
proof -
  have c: "context_ok c" using plan_arguments_Inr [OF assms(1)] by simp
  note ok = plan_rows_row_ok [OF c assms(2)]
  have rows: "numbered rows" "sorted (map row_number rows)" using plan_rows_step [OF c assms(2)] by simp_all
  show ?thesis
    using assms(2,3) disable_replayed [OF assms(1) _ ok rows assms(5), of ss v]
      uninstall_replayed [OF assms(1) c _ _ ok assms(4,5), of ss v] activate_replayed [OF assms(1) c _ ok assms(5,6), of ss]
    by (cases "tn_operation (pc_transition c)") (simp_all add: plan_rows_def)
qed

lemma quarantine_replayed:
  assumes "plan_arguments i = Inr c" "plan_rows c = Inr (rows, ss)" "tn_operation (pc_transition c) = QuarantineOp"
    "current_row rows = Inr w"
  shows "plan_rows (replayed_context c rows w v) = Inl (PlanFailure PlanConflict)"
proof -
  have c: "context_ok c" using plan_arguments_Inr [OF assms(1)] by simp
  have retire: "plan_retire c = Inr (rows, ss)" using assms(2,3) by (simp add: plan_rows_def)
  have "numbered rows \<and> fences_of rows = retire_fences (fences_of (pc_rows c))" using plan_retire_step [OF c retire] by simp
  then have none: "w = None"
    using current_fence [OF _ assms(4)] retire_fences_state [of _ _ CurrentGeneration] by (cases w) auto
  have "assert_transition_state (pc_transition c) QuarantinedExtension = Inr ()"
    using retire assms(3) by (auto simp: plan_retire_def Let_def)
  then show ?thesis using none assms(3) by (auto simp: plan_rows_def plan_retire_def Let_def split: option.splits)
qed

lemma plan_arguments_shared_runtime:
  assumes "plan_arguments i = Inr c" "plan_rows c = Inr (rows, ss)" "\<not> distinct (concat (map ge_runtime rows))"
  shows "plan_arguments (i\<lparr>pi_existing := map Some rows\<rparr>) = Inl (PlanFailure AmbiguousGeneration)"
proof -
  have c: "context_ok c" using plan_arguments_Inr [OF assms(1)] by simp
  have "st_lifecycle (pc_expected c) < 1000000000" "pc_target c = st_lifecycle (pc_expected c) + 1"
    using assms(1) c by (auto simp: plan_arguments_def Let_def next_lifecycle_Inr context_ok_def split: if_splits)
  then have "res_map (parse_row (pc_transition c) (pc_expected c)) (map Some rows) = Inr rows"
    unfolding res_map_Inr parse_row_Inr list_all2_map_Some using plan_rows_row_ok [OF c assms(2)] by simp
  then have "parse_existing (map Some rows) (pc_transition c) (pc_expected c) = Inl (PlanFailure AmbiguousGeneration)"
    using assms(3) by (simp add: parse_existing_def)
  then show ?thesis
    using assms(1) by (auto simp: plan_arguments_def lift_store_def Let_def split: if_splits sum.splits)
qed

text \<open>C18: Planning a committed transition a second time over the rows of its plan changes nothing: the plan is
  a replay without mutations and with the same rows. There are two exceptions. A quarantine is refused as
  a conflict, and rows of which two share a runtime generation are refused as ambiguous.
\<close>

theorem committed_plan_replays:
  assumes "plan_lifecycle i = Inr p" "parse_transition (pi_transition i) = Inr t"
  shows "(if \<not> distinct (concat (map ge_runtime (lp_generations p)))
     then plan_lifecycle (i\<lparr>pi_existing := map Some (lp_generations p)\<rparr>) = Inl (PlanFailure AmbiguousGeneration)
     else if tn_operation t = QuarantineOp
     then plan_lifecycle (i\<lparr>pi_existing := map Some (lp_generations p)\<rparr>) = Inl (PlanFailure PlanConflict)
     else \<exists>q. plan_lifecycle (i\<lparr>pi_existing := map Some (lp_generations p)\<rparr>) = Inr q \<and> lp_replayed q \<and> lp_mutations q = [] \<and>
       lp_generations q = lp_generations p \<and> lp_lifecycle q = lp_lifecycle p)"
proof -
  let ?rows = "lp_generations p"
  obtain c ss where c: "plan_arguments i = Inr c" "context_ok c" "plan_rows c = Inr (?rows, ss)"
    and p: "finish_plan c (?rows, ss) = Inr p"
    by (rule plan_lifecycle_Inr [OF assms(1)])
  have t: "t = pc_transition c" using plan_arguments_Inr [OF c(1)] assms(2) by simp
  show ?thesis
  proof (cases "distinct (concat (map ge_runtime ?rows))")
    case False
    then show ?thesis using plan_arguments_shared_runtime [OF c(1,3)] by (simp add: plan_lifecycle_def)
  next
    case True
    have "numbered ?rows" using plan_rows_step [OF c(2,3)] by simp
    note total = row_in_state_total [OF this planned_fence_inv [OF c(2,3)]]
    obtain w v where wv: "current_row ?rows = Inr w" "pending_row ?rows = Inr v" using total by fastforce
    note args = plan_arguments_replayed [OF c(1) plan_rows_reparsed [OF c(1,3) True] wv]
    show ?thesis
    proof (cases "tn_operation t = QuarantineOp")
      case quarantine: True
      then show ?thesis using args True quarantine_replayed [OF c(1,3) _ wv(1)] t by (simp add: plan_lifecycle_def)
    next
      case False
      then obtain ss' where ss': "plan_rows (replayed_context c ?rows w v) = Inr (?rows, ss')"
        using plan_rows_replayed [OF c(1,3) _ True wv] t by blast
      have "lp_lifecycle p = pc_target c" by (rule finish_plan_Inr(1) [OF p])
      then have "\<exists>q. finish_plan (replayed_context c ?rows w v) (?rows, ss') = Inr q \<and> lp_replayed q \<and> lp_mutations q = [] \<and>
          lp_generations q = ?rows \<and> lp_lifecycle q = lp_lifecycle p"
        by (simp add: finish_plan_def Let_def)
      then show ?thesis using args ss' True False by (simp add: plan_lifecycle_def)
    qed
  qed
qed

subsection \<open>At concrete values\<close>

text \<open>An application that installs, removes and again installs the same build of a hot application.\<close>

definition shop_state :: "int \<Rightarrow> authorization_state" where
  "shop_state n = \<lparr>st_application = ''shop'', st_environment = ''prod'', st_authorization = 3, st_lifecycle = n\<rparr>"

definition shop_event :: "operation_kind \<Rightarrow> extension_state \<Rightarrow> int \<Rightarrow> lifecycle_event" where
  "shop_event k s n = \<lparr>xe_application = ''shop'', xe_class = HotEvent, xe_extension = ''app.crm'', xe_operation = k,
     xe_phase = PhaseCompleted, xe_state = s, xe_expected = n, xe_revision = n + 1, xe_generation = ''crm-one'', xe_rest = True\<rparr>"

definition shop_input :: "operation_kind \<Rightarrow> extension_state \<Rightarrow> int \<Rightarrow> int \<Rightarrow> generation list \<Rightarrow> plan_input" where
  "shop_input k s n l rows = \<lparr>pi_expected = ExactObject (Some (shop_state l)), pi_transition = LifecycleValue (shop_event k s n),
     pi_existing = map Some rows, pi_descriptors = [], pi_prior = None, pi_runtime = [''crm-one''], pi_compatibility = None\<rparr>"

definition shop_row :: "int \<Rightarrow> generation_state \<Rightarrow> int \<Rightarrow> generation" where
  "shop_row n s l = \<lparr>ge_application = ''shop'', ge_owner = \<lparr>xo_class = HotApplication, xo_extension = ''app.crm'', xo_generation = n\<rparr>,
     ge_runtime = [''crm-one''], ge_state = s, ge_authorization = 3, ge_lifecycle = l\<rparr>"

definition shop_plan :: "generation list \<Rightarrow> generation \<Rightarrow> int \<Rightarrow> lifecycle_plan" where
  "shop_plan rows g l = \<lparr>lp_application = ''shop'', lp_authorization = 3, lp_lifecycle = l, lp_generations = rows, lp_snapshots = [],
     lp_mutations = [GenerationMutation g], lp_replayed = False\<rparr>"

definition shop_transition :: "int \<Rightarrow> transition" where
  "shop_transition n = \<lparr>tn_application = ''shop'', tn_class = HotApplication, tn_extension = ''app.crm'', tn_operation = InstallOp,
     tn_state = ActiveExtension, tn_expected = n, tn_revision = n + 1, tn_runtime = ''crm-one''\<rparr>"

lemma shop_plan_simps: "lp_generations (shop_plan rows g l) = rows" "lp_mutations (shop_plan rows g l) = [GenerationMutation g]"
  "lp_lifecycle (shop_plan rows g l) = l"
  by (simp_all add: shop_plan_def)

lemma shop_row_simps: "ge_runtime (shop_row n s l) = [''crm-one'']" "row_number (shop_row n s l) = n"
  "tn_operation (shop_transition n) = InstallOp"
  by (simp_all add: shop_row_def row_number_def shop_transition_def)

lemma shop_installed:
  "plan_lifecycle (shop_input InstallKind XsActive 0 7 []) = Inr (shop_plan [shop_row 1 CurrentGeneration 8] (shop_row 1 CurrentGeneration 8) 8)"
  by code_simp

lemma shop_removed:
  "plan_lifecycle (shop_input UninstallKind XsRemoved 1 8 [shop_row 1 CurrentGeneration 8]) =
   Inr (shop_plan [shop_row 1 RetiredGeneration 9] (shop_row 1 RetiredGeneration 9) 9)"
  by code_simp

lemma shop_reinstalled:
  "plan_lifecycle (shop_input InstallKind XsActive 2 9 [shop_row 1 RetiredGeneration 9]) =
   Inr (shop_plan [shop_row 1 RetiredGeneration 9, shop_row 2 CurrentGeneration 10] (shop_row 2 CurrentGeneration 10) 10)"
  by code_simp

abbreviation shop_removed_rows :: "generation list" where
  "shop_removed_rows \<equiv> [shop_row 1 RetiredGeneration 9]"

abbreviation shop_reinstalled_rows :: "generation list" where
  "shop_reinstalled_rows \<equiv> [shop_row 1 RetiredGeneration 9, shop_row 2 CurrentGeneration 10]"

lemma shop_existing: "pi_existing (shop_input k s n l rows) = map Some rows"
  by (simp add: shop_input_def)

lemma plan_refines_fences_witness:
  "\<exists>c. plan_arguments (shop_input InstallKind XsActive 2 9 shop_removed_rows) = Inr c \<and> fence_outcome c (fences_of shop_reinstalled_rows)"
  using plan_refines_fences [OF shop_reinstalled shop_existing] by (auto simp: shop_plan_def)

lemma plan_mutations_exact_witness:
  "canonical_rows (fold apply_mutation [GenerationMutation (shop_row 2 CurrentGeneration 10)] shop_removed_rows) = shop_reinstalled_rows \<and>
   list_all mutation_schema [GenerationMutation (shop_row 2 CurrentGeneration 10)]"
  using plan_mutations_exact [OF shop_reinstalled shop_existing] by (simp add: shop_plan_def)

lemma shop_history: "plan_history shop_removed_rows shop_reinstalled_rows"
  using plan_history.planned [OF plan_history.start refl shop_existing shop_reinstalled] by (simp add: shop_plan_def)

lemma retired_generations_never_return_witness:
  "numbered shop_reinstalled_rows \<and> fences_of shop_reinstalled_rows 1 = Some (RetiredGeneration, [''crm-one'']) \<and>
   above_all 2 (fences_of shop_removed_rows)"
proof -
  have "numbered shop_removed_rows" by simp
  note never = retired_generations_never_return [OF shop_history this]
  have "fences_of shop_removed_rows 1 = Some (RetiredGeneration, [''crm-one''])" "fences_of shop_removed_rows 2 = None"
    "fences_of shop_reinstalled_rows 2 \<noteq> None"
    by (code_simp)+
  moreover from this obtain t ids where "fences_of shop_reinstalled_rows 1 = Some (t, ids)" "progress RetiredGeneration \<le> progress t"
    "ids = [''crm-one'']"
    using never by blast
  moreover from this have "t = RetiredGeneration" by (cases t) auto
  ultimately show ?thesis using never by blast
qed

lemma shop_parsed:
  "parse_transition (LifecycleValue (shop_event InstallKind XsActive 0)) = Inr (shop_transition 0)"
  "parse_transition (LifecycleValue (shop_event InstallKind XsActive 2)) = Inr (shop_transition 2)"
  by code_simp+

text \<open>The reinstallation of the same build leaves rows that every later plan refuses.\<close>

lemma committed_plan_replays_witness:
  "(\<exists>q. plan_lifecycle (shop_input InstallKind XsActive 0 7 [shop_row 1 CurrentGeneration 8]) = Inr q \<and> lp_replayed q \<and>
     lp_mutations q = [] \<and> lp_generations q = [shop_row 1 CurrentGeneration 8]) \<and>
   plan_lifecycle (shop_input InstallKind XsActive 2 9 shop_reinstalled_rows) = Inl (PlanFailure AmbiguousGeneration)"
proof -
  have again: "(shop_input InstallKind XsActive n l rows)\<lparr>pi_existing := map Some rows'\<rparr> = shop_input InstallKind XsActive n l rows'"
    and transition: "pi_transition (shop_input InstallKind XsActive n l rows) = LifecycleValue (shop_event InstallKind XsActive n)"
    for n l rows rows'
    by (simp_all add: shop_input_def)
  have "\<exists>q. plan_lifecycle (shop_input InstallKind XsActive 0 7 [shop_row 1 CurrentGeneration 8]) = Inr q \<and> lp_replayed q \<and>
      lp_mutations q = [] \<and> lp_generations q = [shop_row 1 CurrentGeneration 8]"
    using committed_plan_replays [OF shop_installed, unfolded transition, OF shop_parsed(1), unfolded shop_plan_simps again]
    by (auto simp: shop_row_simps)
  moreover have "plan_lifecycle (shop_input InstallKind XsActive 2 9 shop_reinstalled_rows) = Inl (PlanFailure AmbiguousGeneration)"
    using committed_plan_replays [OF shop_reinstalled, unfolded transition, OF shop_parsed(2), unfolded shop_plan_simps again]
    by (simp add: shop_row_simps)
  ultimately show ?thesis ..
qed

end
