(* ===== verification/AuthorizationCatalog.thy ===== *)
theory AuthorizationCatalog
  imports AuthorizationContracts PluginLifecycle
begin

text \<open>
  The effective authorization catalogue, \<open>packages/runtime/src/authorization-registry.ts\<close>.

  The module knows the objects that it made by their identity, in sets and maps that nothing else
  writes. An argument that such a set guards is an option here: \<^const>\<open>None\<close> is an object that the
  module did not make, and the maps of an object are fields of it. Objects are frozen, so they never
  change after they were made.

  Executors of plugins and the gateway of hot applications are functions. How a call of one ends,
  before its timeout or not and with which signals raised, is the argument \<open>race\<close>.
\<close>

subsection \<open>Errors\<close>

datatype registry_code =
    RegistryInvalidInput | SnapshotNotAuthority | InvalidDescriptor | InvalidBinding | InvalidTemplate | InvalidLifecycle
  | DuplicateDescriptor | DuplicateBinding | DuplicateExecutable | MissingExecutable | UndeclaredExecutable
  | DuplicateTemplate | OwnerMismatch | ReferenceMismatch | ScopeMismatch | UntrustedExecutable | HotFunctionForbidden

datatype registry_error = RegistryError registry_code | RegistrationError lifecycle_error

subsection \<open>The permissions of the platform\<close>

definition workspace_page_permissions :: "string list" where
  "workspace_page_permissions = [''system.workspace-pages.read'', ''system.workspace-pages.create'',
     ''system.workspace-pages.edit'', ''system.workspace-pages.publish'', ''system.workspace-pages.access.manage'']"

definition platform_permission_table :: "(string \<times> string \<times> string \<times> string \<times> permission_operation) list" where
  "platform_permission_table =
    [(''system.permissions.read'', ''Read permissions'', ''View active permission definitions.'', ''system.permissions'', ReadOp),
     (''system.roles.read'', ''Read roles'', ''View customer roles and their grants.'', ''system.roles'', ReadOp),
     (''system.roles.manage'', ''Manage roles'', ''Create and change customer roles and grants.'', ''system.roles'', ManageOp),
     (''system.role-assignments.read'', ''Read role assignments'', ''View active and revoked role assignments.'', ''system.role-assignments'', ReadOp),
     (''system.role-assignments.manage'', ''Manage role assignments'', ''Create and revoke role assignments.'', ''system.role-assignments'', ManageOp),
     (''system.authorization.audit.read'', ''Read authorization audit'', ''View authorization audit records.'', ''system.authorization.audit'', ReadOp),
     (''system.extensions.read'', ''Read extensions'', ''View extension state and inventory.'', ''system.extensions'', ReadOp),
     (''system.catalog.refresh'', ''Refresh catalog'', ''Refresh the verified extension catalog.'', ''system.catalog'', ExecuteOp),
     (''system.extensions.plan'', ''Plan extension changes'', ''Preview extension lifecycle changes.'', ''system.extensions'', ManageOp),
     (''system.extensions.install-live'', ''Install live extensions'', ''Install a verified Hot Application or Theme Skin generation.'', ''system.extensions'', ExecuteOp),
     (''system.extensions.deploy-platform-plugin'', ''Deploy Platform Plugins'', ''Request a verified Platform Plugin deployment.'', ''system.extensions'', ExecuteOp),
     (''system.extensions.enable'', ''Enable extensions'', ''Enable a ready extension generation.'', ''system.extensions'', ExecuteOp),
     (''system.extensions.disable'', ''Disable extensions'', ''Disable an extension generation.'', ''system.extensions'', ExecuteOp),
     (''system.extensions.update'', ''Update extensions'', ''Request an extension update.'', ''system.extensions'', ExecuteOp),
     (''system.extensions.rollback'', ''Roll back extensions'', ''Request an extension rollback.'', ''system.extensions'', ExecuteOp),
     (''system.extensions.uninstall'', ''Uninstall extensions'', ''Request an extension uninstall.'', ''system.extensions'', ExecuteOp),
     (''system.extensions.quarantine'', ''Quarantine extensions'', ''Quarantine an unsafe extension generation.'', ''system.extensions'', ExecuteOp),
     (''system.settings.read'', ''Read system settings'', ''View system settings.'', ''system.settings'', ReadOp),
     (''system.settings.manage'', ''Manage system settings'', ''Change system settings.'', ''system.settings'', ManageOp),
     (''system.themes.read'', ''Read themes'', ''View themes and theme profiles.'', ''system.themes'', ReadOp),
     (''system.themes.manage'', ''Manage themes'', ''Change active themes and theme settings.'', ''system.themes'', ManageOp),
     (''system.workspace-pages.read'', ''Read workspace pages'', ''View authorized workspace pages.'', ''system.workspace-pages'', ReadOp),
     (''system.workspace-pages.create'', ''Create workspace pages'', ''Create customer workspace pages.'', ''system.workspace-pages'', WriteOp),
     (''system.workspace-pages.edit'', ''Edit workspace pages'', ''Edit authorized workspace page working copies.'', ''system.workspace-pages'', WriteOp),
     (''system.workspace-pages.publish'', ''Publish workspace pages'', ''Publish or roll back authorized workspace pages.'', ''system.workspace-pages'', ExecuteOp),
     (''system.workspace-pages.access.manage'', ''Manage workspace page access'', ''View only the bounded role and user subject projection needed for page ACL selection, and grant or revoke exact page access.'', ''system.workspace-pages'', ManageOp),
     (''system.operations.read'', ''Read operations'', ''View operations, health, and receipts.'', ''system.operations'', ReadOp),
     (''system.operations.backup'', ''Request backups'', ''Request a protected backup operation.'', ''system.operations'', ExecuteOp),
     (''system.operations.restore-drill'', ''Request restore drills'', ''Request a clean-environment restore drill.'', ''system.operations'', ExecuteOp)]"

definition platform_permission :: "string \<times> string \<times> string \<times> string \<times> permission_operation \<Rightarrow> permission_descriptor" where
  "platform_permission = (\<lambda>(i, title, description, resource, operation).
     \<lparr>pm_id = i, pm_publisher = PlatformPublisher, pm_title = title, pm_description = description,
      pm_audience = AuthenticatedActors, pm_resource = resource, pm_operation = operation, pm_scope = ApplicationScope\<rparr>)"

definition platform_permissions :: "permission_descriptor list" where
  "platform_permissions = map platform_permission platform_permission_table"

subsection \<open>Keys\<close>

definition owner_key_of :: "extension_owner \<Rightarrow> string" where
  "owner_key_of x = class_text (xo_class x) @ '':'' @ xo_extension x @ '':'' @ int_text (xo_generation x)"

text \<open>The platform has neither a delivery class nor an extension identifier.\<close>

definition publisher_key :: "publisher \<Rightarrow> string" where
  "publisher_key p = (case p of PlatformPublisher \<Rightarrow> ''undefined:undefined'' | ExtensionPublisher c x \<Rightarrow> class_text c @ '':'' @ x)"

definition execution_key :: "publisher \<Rightarrow> string \<Rightarrow> string" where
  "execution_key p binding = publisher_key p @ '':'' @ binding"

definition same_publisher :: "extension_owner \<Rightarrow> publisher \<Rightarrow> bool" where
  "same_publisher x p \<longleftrightarrow> p = ExtensionPublisher (xo_class x) (xo_extension x)"

subsection \<open>Policy executables\<close>

record evaluation_input =
  pe_application :: string
  pe_authorization :: int
  pe_lifecycle :: int
  pe_permission :: string
  pe_scope :: access_scope
  pe_principal :: subject
  pe_actor :: subject
  pe_delegation :: "authz_delegation option"
  pe_facts :: js_data

datatype executor_result = ExecutorReturned "decision_outcome unknown" | ExecutorThrew

type_synonym executor = "evaluation_input \<Rightarrow> executor_result"

record hot_source =
  hs_application :: string
  hs_environment :: string
  hs_extension :: string
  hs_generation :: string
  hs_commit :: string
  hs_artifact :: string
  hs_manifest_digest :: string

definition same_hot_source :: "hot_source \<Rightarrow> hot_source \<Rightarrow> bool" where
  "same_hot_source l r \<longleftrightarrow> hs_application l = hs_application r \<and> hs_environment l = hs_environment r \<and>
     hs_extension l = hs_extension r \<and> hs_generation l = hs_generation r \<and> hs_commit l = hs_commit r \<and>
     hs_artifact l = hs_artifact r \<and> hs_manifest_digest l = hs_manifest_digest r"

text \<open>An executable, with the entry of \<open>hotApplicationExecutableSources\<close> for it.\<close>

record executable =
  el_class :: delivery_class
  el_publisher :: publisher
  el_binding :: string
  el_reference :: string
  el_evaluate :: "extension_owner \<Rightarrow> policy_binding \<Rightarrow> executor"
  el_source :: "hot_source option"

definition executable_identity :: "publisher unknown \<Rightarrow> string unknown \<Rightarrow> string unknown \<Rightarrow>
    registry_error + publisher \<times> string \<times> string" where
  "executable_identity p b r =
     (case (safe_parse extension_publisher_schema p, safe_parse permission_id b, safe_parse permission_id r) of
        (Some publisher, Some binding, Some reference) \<Rightarrow> Inr (publisher, binding, reference)
      | _ \<Rightarrow> Inl (RegistryError UntrustedExecutable))"

text \<open>The declaration of a plugin: its kind and an executor that may not be a function.\<close>

definition create_plugin_executable :: "delivery_class \<Rightarrow> publisher unknown \<Rightarrow> string unknown \<Rightarrow> string unknown \<Rightarrow>
    executor option \<Rightarrow> registry_error + executable" where
  "create_plugin_executable kind p b r executor =
     res_bind (executable_identity p b r) (\<lambda>(publisher, binding, reference).
       case executor of
         None \<Rightarrow> Inl (RegistryError UntrustedExecutable)
       | Some run \<Rightarrow>
           if kind \<noteq> PlatformPlugin \<or> pu_class publisher \<noteq> PlatformPlugin then Inl (RegistryError UntrustedExecutable)
           else Inr \<lparr>el_class = PlatformPlugin, el_publisher = publisher, el_binding = binding, el_reference = reference,
                     el_evaluate = (\<lambda>_ _. run), el_source = None\<rparr>)"

text \<open>A gateway has a source exactly when the runtime of hot applications made it.\<close>

definition create_hot_executable :: "delivery_class \<Rightarrow> publisher unknown \<Rightarrow> string unknown \<Rightarrow> string unknown \<Rightarrow>
    (extension_owner \<Rightarrow> policy_binding \<Rightarrow> executor) \<Rightarrow> hot_source option \<Rightarrow> registry_error + executable" where
  "create_hot_executable kind p b r gateway source =
     res_bind (executable_identity p b r) (\<lambda>(publisher, binding, reference).
       if kind \<noteq> HotApplication \<or> pu_class publisher \<noteq> HotApplication \<or> source = None
       then Inl (RegistryError UntrustedExecutable)
       else Inr \<lparr>el_class = HotApplication, el_publisher = publisher, el_binding = binding, el_reference = reference,
                 el_evaluate = gateway, el_source = source\<rparr>)"

subsection \<open>Contributions\<close>

text \<open>A declared permission may turn out to be a snapshot of the administrative catalogue.\<close>

datatype declared_permission = DeclaredPermission "permission_descriptor unknown" | DeclaredSnapshot catalog_snapshot

record lifecycle_flags =
  lf_enabled :: bool
  lf_ready :: bool

record authorization_contribution =
  kb_owner :: "extension_owner unknown"
  kb_generation :: "generation unknown"
  kb_lifecycle :: "lifecycle_flags unknown"
  kb_descriptors :: "declared_permission list"
  kb_bindings :: "policy_binding unknown list"
  kb_templates :: "role_template unknown list"
  kb_source :: "hot_source option"

record parsed_contribution =
  kp_application :: string
  kp_owner :: extension_owner
  kp_generation :: generation
  kp_active :: bool
  kp_lifecycle :: int
  kp_descriptors :: "permission_descriptor list"
  kp_bindings :: "policy_binding list"
  kp_templates :: "role_template list"

definition parse_lifecycle_flags :: "lifecycle_flags unknown \<Rightarrow> registry_error + lifecycle_flags" where
  "parse_lifecycle_flags v = (case v of None \<Rightarrow> Inl (RegistryError InvalidLifecycle) | Some f \<Rightarrow> Inr f)"

definition parse_descriptor :: "declared_permission \<Rightarrow> registry_error + permission_descriptor" where
  "parse_descriptor v =
     (case v of
        DeclaredSnapshot s \<Rightarrow> Inl (RegistryError (if snapshot_schema s then SnapshotNotAuthority else InvalidDescriptor))
      | DeclaredPermission u \<Rightarrow>
          (case safe_parse permission_schema u of None \<Rightarrow> Inl (RegistryError InvalidDescriptor) | Some d \<Rightarrow> Inr d))"

definition parse_binding :: "policy_binding unknown \<Rightarrow> registry_error + policy_binding" where
  "parse_binding u = (case safe_parse binding_schema u of None \<Rightarrow> Inl (RegistryError InvalidBinding) | Some b \<Rightarrow> Inr b)"

definition parse_template :: "role_template unknown \<Rightarrow> registry_error + role_template" where
  "parse_template u = (case safe_parse template_schema u of None \<Rightarrow> Inl (RegistryError InvalidTemplate) | Some t \<Rightarrow> Inr t)"

text \<open>The loops of \<open>parseContribution\<close> over descriptors, bindings and templates.\<close>

definition collect_descriptors :: "permission_descriptor list \<Rightarrow> registry_error + string list" where
  "collect_descriptors ds =
     res_fold (\<lambda>d seen. if pm_id d \<in> set seen then Inl (RegistryError DuplicateDescriptor) else Inr (set_add (pm_id d) seen)) ds []"

definition collect_bindings :: "permission_descriptor list \<Rightarrow> policy_binding list \<Rightarrow> registry_error + string list \<times> string list" where
  "collect_bindings ds bs =
     res_fold (\<lambda>b (ids, permissions).
       if bi_id b \<in> set ids \<or> bi_permission b \<in> set permissions then Inl (RegistryError DuplicateBinding)
       else (case find (\<lambda>d. pm_id d = bi_permission b) ds of
               None \<Rightarrow> Inl (RegistryError InvalidBinding)
             | Some d \<Rightarrow>
                 if bi_scope b \<noteq> pm_scope d then Inl (RegistryError ScopeMismatch)
                 else Inr (set_add (bi_id b) ids, set_add (bi_permission b) permissions))) bs ([], [])"

definition check_templates :: "string list \<Rightarrow> role_template list \<Rightarrow> registry_error + unit" where
  "check_templates declared ts =
     guard_that (list_all (\<lambda>t. list_all (\<lambda>p. p \<in> set declared) (rt_permissions t)) ts) (RegistryError InvalidTemplate)"

definition parse_contribution :: "authorization_contribution \<Rightarrow> registry_error + parsed_contribution" where
  "parse_contribution k =
     (case (safe_parse extension_owner_schema (kb_owner k), safe_parse generation_schema (kb_generation k)) of
        (Some x, Some g) \<Rightarrow>
          if owner_key_of x \<noteq> owner_key_of (ge_owner g) then Inl (RegistryError OwnerMismatch)
          else
            res_bind (parse_lifecycle_flags (kb_lifecycle k)) (\<lambda>flags.
            res_bind (res_map parse_descriptor (kb_descriptors k)) (\<lambda>ds.
            res_bind (res_map parse_binding (kb_bindings k)) (\<lambda>bs.
            res_bind (res_map parse_template (kb_templates k)) (\<lambda>ts.
            if \<not> list_all (\<lambda>d. same_publisher x (pm_publisher d)) ds \<or> \<not> list_all (\<lambda>b. same_publisher x (bi_publisher b)) bs
               \<or> \<not> list_all (\<lambda>t. same_publisher x (rt_publisher t)) ts
            then Inl (RegistryError OwnerMismatch)
            else
              res_bind (collect_descriptors ds) (\<lambda>declared.
              res_bind (collect_bindings ds bs) (\<lambda>_.
              res_bind (check_templates declared ts) (\<lambda>_.
                Inr \<lparr>kp_application = ge_application g, kp_owner = x, kp_generation = g,
                     kp_active = (ge_state g = CurrentGeneration \<and> lf_enabled flags \<and> lf_ready flags),
                     kp_lifecycle = ge_lifecycle g, kp_descriptors = ds, kp_bindings = bs, kp_templates = ts\<rparr>)))))))
      | _ \<Rightarrow> Inl (RegistryError OwnerMismatch))"

subsection \<open>Contributions of hot applications and of plugins\<close>

text \<open>What the schema of a manifest returns of its authorization declarations.\<close>

record hot_manifest =
  hm_permissions :: "permission_descriptor list"
  hm_bindings :: "policy_binding list"
  hm_templates :: "role_template list option"

text \<open>The source is the record of the runtime of hot applications, with the manifest it holds.\<close>

definition hot_contribution :: "('m \<Rightarrow> hot_manifest option) \<Rightarrow> (hot_source \<times> 'm) option \<Rightarrow> generation unknown \<Rightarrow>
    lifecycle_flags unknown \<Rightarrow> registry_error + authorization_contribution" where
  "hot_contribution manifest_schema source generation lifecycle =
     (case (source, safe_parse generation_schema generation) of
        (Some (s, raw), Some g) \<Rightarrow>
          (case manifest_schema raw of
             None \<Rightarrow> Inl (RegistryError RegistryInvalidInput)
           | Some m \<Rightarrow>
               if xo_class (ge_owner g) \<noteq> HotApplication \<or> ge_application g \<noteq> hs_application s \<or>
                  xo_extension (ge_owner g) \<noteq> hs_extension s \<or> hs_generation s \<notin> set (ge_runtime g)
               then Inl (RegistryError OwnerMismatch)
               else
                 res_bind (parse_lifecycle_flags lifecycle) (\<lambda>flags.
                 let k = \<lparr>kb_owner = Some (ge_owner g), kb_generation = Some g, kb_lifecycle = Some flags,
                          kb_descriptors = map (DeclaredPermission \<circ> Some) (hm_permissions m),
                          kb_bindings = map Some (hm_bindings m),
                          kb_templates = map Some (case hm_templates m of None \<Rightarrow> [] | Some ts \<Rightarrow> ts), kb_source = Some s\<rparr>
                 in res_bind (parse_contribution k) (\<lambda>_. Inr k)))
      | _ \<Rightarrow> Inl (RegistryError RegistryInvalidInput))"

text \<open>The value of a registered contribution, as the three casts of the code read it.\<close>

datatype registered_value =
    RegisteredPermission declared_permission
  | RegisteredBinding "policy_binding unknown"
  | RegisteredTemplate "role_template unknown"
  | RegisteredOther

fun as_permission :: "registered_value \<Rightarrow> declared_permission" where
  "as_permission (RegisteredPermission p) = p"
| "as_permission _ = DeclaredPermission None"

fun as_binding :: "registered_value \<Rightarrow> policy_binding unknown" where
  "as_binding (RegisteredBinding b) = b"
| "as_binding _ = None"

fun as_template :: "registered_value \<Rightarrow> role_template unknown" where
  "as_template (RegisteredTemplate t) = t"
| "as_template _ = None"

definition lift_registration :: "lifecycle_error + 'a \<Rightarrow> registry_error + 'a" where
  "lift_registration r = (case r of Inl e \<Rightarrow> Inl (RegistrationError e) | Inr a \<Rightarrow> Inr a)"

definition registered_values :: "registered_value plugin_registration \<Rightarrow> category \<Rightarrow> string \<Rightarrow> registered_value list" where
  "registered_values r k plugin = map cn_value (filter (\<lambda>c. cn_plugin c = plugin) (re_contributions r k))"

definition plugin_contribution_of :: "registered_value plugin_registration \<Rightarrow> generation unknown \<Rightarrow> lifecycle_flags unknown option \<Rightarrow>
    lifecycle_world \<Rightarrow> registry_error + authorization_contribution" where
  "plugin_contribution_of r generation override w =
     res_bind (lift_registration (assert_executable r w)) (\<lambda>_.
     case safe_parse generation_schema generation of
       None \<Rightarrow> Inl (RegistryError RegistryInvalidInput)
     | Some g \<Rightarrow>
         let plugin = xo_extension (ge_owner g) in
         if xo_class (ge_owner g) \<noteq> PlatformPlugin then Inl (RegistryError RegistryInvalidInput)
         else if plugin \<notin> iv_id ` set (re_inventory r) then Inl (RegistryError OwnerMismatch)
         else
           res_bind (lift_registration (plugin_enabled r plugin w)) (\<lambda>enabled.
           res_bind (case override of None \<Rightarrow> Inr \<lparr>lf_enabled = True, lf_ready = True\<rparr> | Some v \<Rightarrow> parse_lifecycle_flags v) (\<lambda>flags.
           let k = \<lparr>kb_owner = Some (ge_owner g), kb_generation = Some g,
                    kb_lifecycle = Some \<lparr>lf_enabled = enabled \<and> lf_enabled flags, lf_ready = enabled \<and> lf_ready flags\<rparr>,
                    kb_descriptors = map as_permission (registered_values r Permissions plugin),
                    kb_bindings = map as_binding (registered_values r PolicyBindings plugin),
                    kb_templates = map as_template (registered_values r RoleTemplates plugin), kb_source = None\<rparr>
           in res_bind (parse_contribution k) (\<lambda>_. Inr k))))"

subsection \<open>The catalogue\<close>

record bound_executable =
  bx_executable :: executable
  bx_binding :: policy_binding
  bx_owner :: extension_owner

text \<open>A catalogue, with its entries in the maps of the module. \<open>kt_executables\<close> is what \<open>execute\<close> closes over.\<close>

record authz_catalog =
  kt_application :: string
  kt_lifecycle :: int
  kt_permissions :: "(permission_descriptor \<times> owner) list"
  kt_bindings :: "(policy_binding \<times> extension_owner) list"
  kt_templates :: "(role_template \<times> extension_owner) list"
  kt_executables :: "(string, bound_executable) js_map"
  kt_generations :: "(string, generation) js_map"

datatype executable_value = TrustedValue executable | HotFunctionValue | UntrustedValue

record catalog_input =
  ci_application :: string
  ci_lifecycle :: int
  ci_extensions :: "authorization_contribution option list"
  ci_executables :: "executable_value list"

datatype root_value = SnapshotRoot catalog_snapshot | OtherRoot | CatalogRoot catalog_input

definition parse_root :: "root_value \<Rightarrow> registry_error + catalog_input" where
  "parse_root v =
     (case v of
        SnapshotRoot s \<Rightarrow> Inl (RegistryError (if snapshot_schema s then SnapshotNotAuthority else RegistryInvalidInput))
      | OtherRoot \<Rightarrow> Inl (RegistryError RegistryInvalidInput)
      | CatalogRoot i \<Rightarrow>
          if \<not> kebab (ci_application i) \<or> \<not> is_safe_integer (ci_lifecycle i) \<or> ci_lifecycle i < 0
          then Inl (RegistryError RegistryInvalidInput) else Inr i)"

definition parse_executable :: "executable_value \<Rightarrow> registry_error + executable" where
  "parse_executable v =
     (case v of
        TrustedValue x \<Rightarrow> Inr x
      | HotFunctionValue \<Rightarrow> Inl (RegistryError HotFunctionForbidden)
      | UntrustedValue \<Rightarrow> Inl (RegistryError UntrustedExecutable))"

definition parse_extension :: "authorization_contribution option \<Rightarrow> registry_error + parsed_contribution \<times> hot_source option" where
  "parse_extension v =
     (case v of
        None \<Rightarrow> Inl (RegistryError RegistryInvalidInput)
      | Some k \<Rightarrow> res_bind (parse_contribution k) (\<lambda>p. Inr (p, kb_source k)))"

text \<open>\<open>hotSourceByOwner\<close>: the contributions of plugins have no source.\<close>

definition hot_sources :: "(parsed_contribution \<times> hot_source option) list \<Rightarrow> (string, hot_source) js_map" where
  "hot_sources ps =
     fold (\<lambda>(p, source) m. case source of None \<Rightarrow> m | Some s \<Rightarrow> AList.update (owner_key_of (kp_owner p)) s m) ps []"

record seen_keys =
  sk_owners :: "string list"
  sk_descriptors :: "string list"
  sk_bindings :: "string list"
  sk_permissions :: "string list"
  sk_templates :: "string list"

definition see_descriptor :: "permission_descriptor \<Rightarrow> seen_keys \<Rightarrow> registry_error + seen_keys" where
  "see_descriptor d s =
     (if pm_id d \<in> set (sk_descriptors s) then Inl (RegistryError DuplicateDescriptor)
      else Inr (s\<lparr>sk_descriptors := set_add (pm_id d) (sk_descriptors s)\<rparr>))"

definition see_binding :: "policy_binding \<Rightarrow> seen_keys \<Rightarrow> registry_error + seen_keys" where
  "see_binding b s =
     (if bi_id b \<in> set (sk_bindings s) \<or> bi_permission b \<in> set (sk_permissions s) then Inl (RegistryError DuplicateBinding)
      else Inr (s\<lparr>sk_bindings := set_add (bi_id b) (sk_bindings s), sk_permissions := set_add (bi_permission b) (sk_permissions s)\<rparr>))"

definition see_template :: "role_template \<Rightarrow> seen_keys \<Rightarrow> registry_error + seen_keys" where
  "see_template t s =
     (if rt_id t \<in> set (sk_templates s) then Inl (RegistryError DuplicateTemplate)
      else Inr (s\<lparr>sk_templates := set_add (rt_id t) (sk_templates s)\<rparr>))"

definition see_contribution :: "string \<Rightarrow> parsed_contribution \<Rightarrow> seen_keys \<Rightarrow> registry_error + seen_keys" where
  "see_contribution application p s =
     (if kp_application p \<noteq> application then Inl (RegistryError OwnerMismatch)
      else if owner_key_of (kp_owner p) \<in> set (sk_owners s) then Inl (RegistryError OwnerMismatch)
      else
        res_bind (res_fold see_descriptor (kp_descriptors p) (s\<lparr>sk_owners := set_add (owner_key_of (kp_owner p)) (sk_owners s)\<rparr>)) (\<lambda>s1.
        res_bind (res_fold see_binding (kp_bindings p) s1) (res_fold see_template (kp_templates p))))"

definition nothing_seen :: seen_keys where
  "nothing_seen = \<lparr>sk_owners = [], sk_descriptors = [], sk_bindings = [], sk_permissions = [], sk_templates = []\<rparr>"

definition index_executables :: "executable list \<Rightarrow> registry_error + (string, executable) js_map" where
  "index_executables xs =
     res_fold (\<lambda>x m. let key = execution_key (el_publisher x) (el_binding x) in
       if key \<in> fst ` set m then Inl (RegistryError DuplicateExecutable) else Inr (AList.update key x m)) xs []"

text \<open>One pass of the loop that binds executables to the declared bindings.\<close>

definition bind_executable :: "executable list \<Rightarrow> (string, executable) js_map \<Rightarrow> (string, hot_source) js_map \<Rightarrow>
    policy_binding \<times> extension_owner \<Rightarrow> (string, bound_executable) js_map \<Rightarrow> registry_error + (string, bound_executable) js_map" where
  "bind_executable xs indexed sources = (\<lambda>(b, w) bound.
     let key = execution_key (bi_publisher b) (bi_id b) in
     case map_of indexed key of
       None \<Rightarrow> Inl (RegistryError (if \<exists>x \<in> set xs. el_binding x = bi_id b then OwnerMismatch else MissingExecutable))
     | Some x \<Rightarrow>
         if \<not> same_publisher w (el_publisher x) \<or> el_reference x \<noteq> bi_reference b \<or> el_class x \<noteq> xo_class w
         then Inl (RegistryError (if el_reference x \<noteq> bi_reference b then ReferenceMismatch else OwnerMismatch))
         else if el_class x = HotApplication \<and>
                 (case (map_of sources (owner_key_of w), el_source x) of
                    (Some l, Some r) \<Rightarrow> \<not> same_hot_source l r | _ \<Rightarrow> True)
         then Inl (RegistryError OwnerMismatch)
         else Inr (AList.update key \<lparr>bx_executable = x, bx_binding = b, bx_owner = w\<rparr> bound))"

definition owned_bindings :: "parsed_contribution list \<Rightarrow> (policy_binding \<times> extension_owner) list" where
  "owned_bindings ps = concat (map (\<lambda>p. map (\<lambda>b. (b, kp_owner p)) (kp_bindings p)) ps)"

definition bind_all :: "executable list \<Rightarrow> (string, hot_source) js_map \<Rightarrow> parsed_contribution list \<Rightarrow>
    registry_error + (string, bound_executable) js_map" where
  "bind_all xs sources ps =
     res_bind (index_executables xs) (\<lambda>indexed.
     res_bind (res_fold (bind_executable xs indexed sources) (owned_bindings ps) []) (\<lambda>bound.
       if \<exists>key \<in> fst ` set indexed. key \<notin> fst ` set bound then Inl (RegistryError UndeclaredExecutable) else Inr bound))"

definition executables_by_permission :: "(policy_binding \<times> extension_owner) list \<Rightarrow> (string, bound_executable) js_map \<Rightarrow>
    (string, bound_executable) js_map" where
  "executables_by_permission bs bound =
     fold (\<lambda>(b, w) m. case map_of bound (execution_key (bi_publisher b) (bi_id b)) of
             None \<Rightarrow> m | Some x \<Rightarrow> AList.update (bi_permission b) x m) bs []"

definition assemble_catalog :: "catalog_input \<Rightarrow> parsed_contribution list \<Rightarrow> (string, bound_executable) js_map \<Rightarrow> authz_catalog" where
  "assemble_catalog i ps bound =
     (let active = filter kp_active ps;
          bindings = sort_key (bi_id \<circ> fst) (owned_bindings active)
      in \<lparr>kt_application = ci_application i, kt_lifecycle = ci_lifecycle i,
          kt_permissions = sort_key (pm_id \<circ> fst)
            (map (\<lambda>d. (d, PlatformOwner)) platform_permissions @
             concat (map (\<lambda>p. map (\<lambda>d. (d, ExtensionOwner (kp_owner p))) (kp_descriptors p)) active)),
          kt_bindings = bindings,
          kt_templates = sort_key (rt_id \<circ> fst) (concat (map (\<lambda>p. map (\<lambda>t. (t, kp_owner p)) (kp_templates p)) active)),
          kt_executables = executables_by_permission bindings bound,
          kt_generations = fold (\<lambda>p m. AList.update (owner_key_of (kp_owner p)) (kp_generation p) m) active []\<rparr>)"

definition create_catalog :: "root_value \<Rightarrow> registry_error + authz_catalog" where
  "create_catalog v =
     res_bind (parse_root v) (\<lambda>i.
     res_bind (res_map parse_extension (ci_extensions i)) (\<lambda>parsed.
     let ps = map fst parsed in
     res_bind (res_fold (see_contribution (ci_application i)) ps nothing_seen) (\<lambda>_.
     if \<exists>p \<in> set ps. kp_lifecycle p > ci_lifecycle i then Inl (RegistryError InvalidLifecycle)
     else
       res_bind (res_map parse_executable (ci_executables i)) (\<lambda>xs.
       res_bind (bind_all xs (hot_sources parsed) ps) (\<lambda>bound.
         Inr (assemble_catalog i ps bound))))))"

subsection \<open>Tests of a catalogue\<close>

text \<open>An object that this module did not make is \<^const>\<open>None\<close>.\<close>

definition catalog_for_application :: "authz_catalog option \<Rightarrow> string \<Rightarrow> bool" where
  "catalog_for_application v application = (case v of None \<Rightarrow> False | Some c \<Rightarrow> kt_application c = application)"

definition catalog_for_lifecycle :: "authz_catalog option \<Rightarrow> string \<Rightarrow> int \<Rightarrow> bool" where
  "catalog_for_lifecycle v application revision \<longleftrightarrow> catalog_for_application v application \<and>
     (case v of None \<Rightarrow> False | Some c \<Rightarrow> kt_lifecycle c = revision)"

definition catalog_for_owner :: "authz_catalog option \<Rightarrow> string \<Rightarrow> int \<Rightarrow> extension_owner \<Rightarrow> bool" where
  "catalog_for_owner v application revision x \<longleftrightarrow> catalog_for_lifecycle v application revision \<and>
     (case v of None \<Rightarrow> False | Some c \<Rightarrow> owner_key_of x \<in> fst ` set (kt_generations c))"

definition catalog_for_generation :: "authz_catalog option \<Rightarrow> generation unknown \<Rightarrow> bool" where
  "catalog_for_generation v row =
     (case safe_parse generation_schema row of
        None \<Rightarrow> False
      | Some g \<Rightarrow> ge_state g = CurrentGeneration \<and> catalog_for_application v (ge_application g) \<and>
          (case v of None \<Rightarrow> False | Some c \<Rightarrow>
             (case map_of (kt_generations c) (owner_key_of (ge_owner g)) of None \<Rightarrow> False | Some k \<Rightarrow> same_row k g)))"

subsection \<open>Execution of a policy\<close>

datatype execution_reason =
    PolicyAllowed | PolicyRefused | NoPolicyBinding | InvalidEvaluation | EvaluationAborted | EvaluationTimeout | EvaluationFailure

type_synonym execution_result = "decision_outcome \<times> execution_reason"

text \<open>
  \<open>Promise.race\<close> of the executor and its timeout. Where the executor settles first, the caller's
  signal and the signal that the executor got may have been raised.
\<close>

datatype policy_race = TimeoutFirst | ExecutorFirst (caller_aborted: bool) (inner_aborted: bool)

definition invoke_bound :: "bool \<Rightarrow> policy_race \<Rightarrow> bound_executable \<Rightarrow> evaluation_input \<Rightarrow> execution_result" where
  "invoke_bound aborted race x e =
     (if aborted then (DenyAccess, EvaluationAborted)
      else (case race of
        TimeoutFirst \<Rightarrow> (DenyAccess, EvaluationTimeout)
      | ExecutorFirst caller inner \<Rightarrow>
          (case el_evaluate (bx_executable x) (bx_owner x) (bx_binding x) e of
             ExecutorThrew \<Rightarrow> (DenyAccess, if caller then EvaluationAborted else EvaluationFailure)
           | ExecutorReturned v \<Rightarrow>
               if inner then (DenyAccess, if caller then EvaluationAborted else EvaluationFailure)
               else (case v of
                  None \<Rightarrow> (DenyAccess, EvaluationFailure)
                | Some AllowAccess \<Rightarrow> (AllowAccess, PolicyAllowed)
                | Some DenyAccess \<Rightarrow> (DenyAccess, PolicyRefused)))))"

subsection \<open>Facts\<close>

text \<open>The values an object holds, as \<open>Object.values\<close> or the iteration of an array returns them.\<close>

definition object_children :: "js_object \<Rightarrow> js_value list" where
  "object_children x =
     (case x of
        JsArray items _ \<Rightarrow> map (\<lambda>item. case item of None \<Rightarrow> JsUndefined | Some v \<Rightarrow> v) items
      | JsObject _ props \<Rightarrow>
          concat (map (\<lambda>(k, p). case (k, p) of (StringKey _, DataProperty v) \<Rightarrow> [v] | _ \<Rightarrow> []) props))"

text \<open>
  The stack of \<open>boundedJson\<close>, its last entry first. An accessor property is left out: the canonical text
  that is computed afterwards does not exist for it.
\<close>

function bounded_walk :: "nat \<Rightarrow> js_object list \<Rightarrow> nat list \<Rightarrow> (js_value \<times> nat) list \<Rightarrow> bool" where
  "bounded_walk limit h seen [] = True"
| "bounded_walk limit h seen ((v, d) # pending) =
     (if d > limit then False
      else (case v of
        JsRef a \<Rightarrow>
          if a \<in> set seen \<or> \<not> a < length h then False
          else bounded_walk limit h (a # seen) (rev (map (\<lambda>c. (c, Suc d)) (object_children (h ! a))) @ pending)
      | _ \<Rightarrow> bounded_walk limit h seen pending))"
  by pat_completeness auto
termination
proof (relation "measures [\<lambda>(_, h, seen, _). card ({..< length h} - set seen), \<lambda>(_, _, _, pending). length pending]", goal_cases)
  case (8 limit h seen v d pending a)
  have "{..< length h} - set (a # seen) \<subset> {..< length h} - set seen" using 8 by auto
  then show ?case by (auto intro: psubset_card_mono)
qed simp_all

definition bounded_json :: "nat \<Rightarrow> nat \<Rightarrow> js_data \<Rightarrow> bool" where
  "bounded_json max_bytes max_depth = (\<lambda>(h, v).
     bounded_walk max_depth h [] [(v, 0)] \<and>
     (case canonical_json (h, v) of Inl _ \<Rightarrow> False | Inr s \<Rightarrow> length (utf8 s) \<le> max_bytes))"

definition max_policy_facts_bytes :: nat where
  "max_policy_facts_bytes = 16384"

definition max_policy_facts_depth :: nat where
  "max_policy_facts_depth = 8"

definition evaluation_schema :: "evaluation_input \<Rightarrow> bool" where
  "evaluation_schema e \<longleftrightarrow> kebab (pe_application e) \<and> is_safe_integer (pe_authorization e) \<and> 0 \<le> pe_authorization e \<and>
     is_safe_integer (pe_lifecycle e) \<and> 0 \<le> pe_lifecycle e \<and> permission_id (pe_permission e) \<and> scope_schema (pe_scope e) \<and>
     subject_schema (pe_principal e) \<and> subject_schema (pe_actor e) \<and>
     (case pe_delegation e of None \<Rightarrow> True | Some d \<Rightarrow> delegation_schema d) \<and>
     bounded_json max_policy_facts_bytes max_policy_facts_depth (pe_facts e)"

definition catalog_execute :: "authz_catalog \<Rightarrow> bool \<Rightarrow> policy_race \<Rightarrow> evaluation_input unknown \<Rightarrow> execution_result" where
  "catalog_execute c aborted race v =
     (case safe_parse evaluation_schema v of
        None \<Rightarrow> (DenyAccess, InvalidEvaluation)
      | Some e \<Rightarrow>
          if pe_application e \<noteq> kt_application c then (DenyAccess, InvalidEvaluation)
          else if aborted then (DenyAccess, EvaluationAborted)
          else (case map_of (kt_executables c) (pe_permission e) of
             None \<Rightarrow> (DenyAccess, NoPolicyBinding)
           | Some x \<Rightarrow>
               (case find (\<lambda>(d, _). pm_id d = pe_permission e) (kt_permissions c) of
                  None \<Rightarrow> (DenyAccess, InvalidEvaluation)
                | Some (d, _) \<Rightarrow>
                    if pm_scope d \<noteq> bi_scope (bx_binding x) \<or> scope_kind (pe_scope e) \<noteq> pm_scope d \<or> sp_resource (pe_scope e) \<noteq> pm_resource d
                    then (DenyAccess, InvalidEvaluation)
                    else invoke_bound aborted race x e)))"

end
