(* ===== verification/EffectiveAuthority.thy ===== *)
theory EffectiveAuthority
  imports AuthorizationCatalog AuthorizationStore
begin

text \<open>
  The resolver of effective authority, \<open>packages/runtime/src/effective-authority.ts\<close>.

  Sessions, requests and catalogue providers are objects that the module made, or \<^const>\<open>None\<close>. The
  store and the provider belong to the host: what they answer is an argument of \<open>authorize\<close>. A call
  of \<open>#authority\<close> is two runs of code around the read of the store, \<open>authority_lookup\<close> and
  \<open>authority_insert\<close>, so that calls may interleave.
\<close>

datatype authority_code = UntrustedSession | UntrustedCatalogProvider | InvalidRequest | AuthorityUnavailable

text \<open>The schema of a decision may refuse what \<open>#decide\<close> assembled.\<close>

datatype authority_error = AuthorityError authority_code | DecisionRejected

subsection \<open>Sessions and requests\<close>

record auth_session =
  ts_application :: string
  ts_environment :: string
  ts_correlation :: string
  ts_principal :: subject
  ts_actor :: subject
  ts_delegation :: "authz_delegation option"

record auth_request =
  tr_decision :: string
  tr_permission :: string
  tr_scope :: access_scope
  tr_facts :: js_data

definition max_facts_bytes :: nat where
  "max_facts_bytes = 16384"

definition max_facts_depth :: nat where
  "max_facts_depth = 8"

text \<open>\<open>boundedFacts\<close> and \<open>boundedJson\<close> of the catalogue are the same code.\<close>

definition bounded_facts :: "js_data \<Rightarrow> bool" where
  "bounded_facts v = bounded_json max_facts_bytes max_facts_depth v"

text \<open>The correlation identifier is tested by the schema of a decision made up for it.\<close>

definition probe_decision :: "auth_session \<Rightarrow> decision" where
  "probe_decision s =
     \<lparr>dc_id = ts_correlation s, dc_correlation = ts_correlation s, dc_application = ts_application s,
      dc_environment = ts_environment s, dc_permission = ''system.permissions.read'', dc_owner = PlatformOwner,
      dc_principal = ts_principal s, dc_actor = ts_actor s, dc_delegation = None,
      dc_scope = ScopeApplication ''system.permissions'', dc_authorization = 0, dc_lifecycle = 0, dc_outcome = DenyAccess,
      dc_reason = PermissionNotGranted, dc_approval = NotRequired, dc_reauthentication = NotRequired\<rparr>"

definition create_session :: "auth_session unknown \<Rightarrow> authority_error + auth_session" where
  "create_session v =
     (case v of
        None \<Rightarrow> Inl (AuthorityError InvalidRequest)
      | Some s \<Rightarrow>
          if \<not> state_schema \<lparr>st_application = ts_application s, st_environment = ts_environment s, st_authorization = 0, st_lifecycle = 0\<rparr>
             \<or> \<not> subject_schema (ts_principal s) \<or> \<not> subject_schema (ts_actor s) \<or> \<not> decision_schema (probe_decision s)
             \<or> (case ts_delegation s of None \<Rightarrow> False
                | Some d \<Rightarrow> \<not> delegation_schema d \<or> de_delegator d \<noteq> ts_principal s)
          then Inl (AuthorityError InvalidRequest)
          else if ts_delegation s = None \<and> ts_principal s \<noteq> ts_actor s then Inl (AuthorityError InvalidRequest)
          else Inr s)"

definition create_request :: "auth_request unknown \<Rightarrow> authority_error + auth_request" where
  "create_request v =
     (case v of
        None \<Rightarrow> Inl (AuthorityError InvalidRequest)
      | Some r \<Rightarrow>
          if \<not> permission_id (tr_permission r) \<or> \<not> scope_schema (tr_scope r) \<or> \<not> bounded_facts (tr_facts r)
          then Inl (AuthorityError InvalidRequest) else Inr r)"

subsection \<open>The authority of a subject\<close>

definition owner_key :: "owner \<Rightarrow> string" where
  "owner_key w = (case w of PlatformOwner \<Rightarrow> ''platform:system'' | ExtensionOwner x \<Rightarrow> ''extension:'' @ owner_key_of x)"

definition same_owner :: "owner \<Rightarrow> owner \<Rightarrow> bool" where
  "same_owner l r \<longleftrightarrow> owner_key l = owner_key r"

definition generation_current :: "owner \<Rightarrow> generation list \<Rightarrow> bool" where
  "generation_current w gs \<longleftrightarrow> w = PlatformOwner \<or>
     list_ex (\<lambda>g. ge_state g = CurrentGeneration \<and> same_owner w (ExtensionOwner (ge_owner g))) gs"

text \<open>
  \<open>localeCompare\<close> on the keys of owners, which consist of \<open>-\<close>, \<open>.\<close>, \<open>:\<close>, digits and lower-case
  letters: in the root collation \<open>-\<close> comes first, then \<open>:\<close>, \<open>.\<close>, the digits and the letters.
\<close>

definition collation_weight :: "char \<Rightarrow> nat" where
  "collation_weight c = (if c = CHR ''-'' then 0 else if c = CHR '':'' then 1 else if c = CHR ''.'' then 2 else of_char c)"

definition owner_weights :: "owner \<Rightarrow> nat list" where
  "owner_weights w = map collation_weight (owner_key w)"

type_synonym owner_map = "(string, owner list) js_map"

record cached_authority =
  ka_active :: nat
  ka_revoked :: nat
  ka_owners :: owner_map
  ka_ineffective :: owner_map

definition role_ids :: "role_assignment list \<Rightarrow> authz_role list \<Rightarrow> string set" where
  "role_ids assignments roles =
     as_role ` set (filter (\<lambda>a. as_state a = ActiveAssignment \<and> as_role a \<in> ro_id ` set roles) assignments)"

definition add_owner :: "role_grant \<Rightarrow> owner_map \<Rightarrow> owner_map" where
  "add_owner g m =
     (let known = map_get_or m (gt_permission g) []
      in AList.update (gt_permission g) (if list_ex (\<lambda>w. same_owner w (gt_owner g)) known then known else known @ [gt_owner g]) m)"

definition add_grant :: "string set \<Rightarrow> generation list \<Rightarrow> role_grant \<Rightarrow> owner_map \<times> owner_map \<Rightarrow> owner_map \<times> owner_map" where
  "add_grant roles gs g = (\<lambda>(owners, ineffective).
     if gt_role g \<notin> roles then (owners, ineffective)
     else if generation_current (gt_owner g) gs then (add_owner g owners, ineffective)
     else (owners, add_owner g ineffective))"

definition sort_owners :: "owner_map \<Rightarrow> owner_map" where
  "sort_owners m = map (\<lambda>(p, ws). (p, sort_key owner_weights ws)) m"

definition subject_authority :: "role_assignment list \<Rightarrow> authz_role list \<Rightarrow> role_grant list \<Rightarrow> generation list \<Rightarrow> cached_authority" where
  "subject_authority assignments roles grants gs =
     (case fold (add_grant (role_ids assignments roles) gs) grants ([], []) of
        (owners, ineffective) \<Rightarrow>
          \<lparr>ka_active = length (filter (\<lambda>a. as_state a = ActiveAssignment) assignments),
           ka_revoked = length (filter (\<lambda>a. as_state a = RevokedAssignment) assignments),
           ka_owners = sort_owners owners, ka_ineffective = sort_owners ineffective\<rparr>)"

definition intersect_authority :: "cached_authority \<Rightarrow> cached_authority \<Rightarrow> owner_map" where
  "intersect_authority l r =
     concat (map (\<lambda>(p, ws).
       let common = filter (\<lambda>w. list_ex (same_owner w) (map_get_or (ka_owners r) p [])) ws
       in if common = [] then [] else [(p, common)]) (ka_owners l))"

subsection \<open>Snapshots and their cache\<close>

text \<open>What a read transaction of the store returns for one revision.\<close>

record authority_data =
  ah_roles :: "authz_role list"
  ah_grants :: "role_grant list"
  ah_assignments :: "subject \<Rightarrow> role_assignment list"
  ah_generations :: "generation list"

record authority_snapshot =
  an_principal :: cached_authority
  an_actor :: cached_authority
  an_intersection :: owner_map

definition make_snapshot :: "authority_data \<Rightarrow> auth_session \<Rightarrow> authority_snapshot" where
  "make_snapshot d s =
     (let of_subject = (\<lambda>x. subject_authority (ah_assignments d x) (ah_roles d) (ah_grants d) (ah_generations d));
          principal = of_subject (ts_principal s);
          actor = (if ts_principal s = ts_actor s then principal else of_subject (ts_actor s))
      in \<lparr>an_principal = principal, an_actor = actor, an_intersection = intersect_authority principal actor\<rparr>)"

definition subject_json :: "subject \<Rightarrow> json" where
  "subject_json x =
     (case x of UserSubject i \<Rightarrow> JObj [(''kind'', JStr ''user''), (''id'', JStr i)]
      | ServiceSubject i \<Rightarrow> JObj [(''kind'', JStr ''service''), (''id'', JStr i)])"

definition authority_key_json :: "authorization_state \<Rightarrow> auth_session \<Rightarrow> json" where
  "authority_key_json e s =
     JObj [(''applicationId'', JStr (st_application e)), (''environment'', JStr (st_environment e)),
           (''principal'', subject_json (ts_principal s)), (''effectiveActor'', subject_json (ts_actor s)),
           (''delegationId'', (case ts_delegation s of None \<Rightarrow> JNull | Some d \<Rightarrow> JStr (de_id d))),
           (''authorizationRevision'', JNum (st_authorization e)), (''lifecycleRevision'', JNum (st_lifecycle e))]"

definition authority_key :: "authorization_state \<Rightarrow> auth_session \<Rightarrow> string" where
  "authority_key e s = canonical_text (authority_key_json e s)"

type_synonym authority_cache = "(string, authority_snapshot) js_map"

text \<open>A hit moves the entry to the end.\<close>

definition authority_lookup :: "authorization_state \<Rightarrow> auth_session \<Rightarrow> authority_cache \<Rightarrow>
    authority_snapshot option \<times> authority_cache" where
  "authority_lookup e s m =
     (case map_of m (authority_key e s) of
        None \<Rightarrow> (None, m)
      | Some snapshot \<Rightarrow> (Some snapshot, AList.update (authority_key e s) snapshot (AList.delete (authority_key e s) m)))"

fun evict_oldest :: "nat \<Rightarrow> authority_cache \<Rightarrow> authority_cache" where
  "evict_oldest limit [] = []"
| "evict_oldest limit (x # xs) = (if limit \<le> length (x # xs) then evict_oldest limit xs else x # xs)"

definition authority_insert :: "nat \<Rightarrow> authorization_state \<Rightarrow> auth_session \<Rightarrow> authority_snapshot \<Rightarrow> authority_cache \<Rightarrow> authority_cache" where
  "authority_insert limit e s snapshot m = AList.update (authority_key e s) snapshot (evict_oldest limit m)"

text \<open>The limit of a resolver; its default is 256.\<close>

definition cache_limit :: "int option \<Rightarrow> nat option" where
  "cache_limit option =
     (let n = (case option of None \<Rightarrow> 256 | Some k \<Rightarrow> k)
      in if \<not> is_safe_integer n \<or> n < 1 \<or> n > 4096 then None else Some (nat n))"

subsection \<open>The decision\<close>

definition owners_of :: "owner_map \<Rightarrow> string \<Rightarrow> owner list" where
  "owners_of m p = map_get_or m p []"

definition first_of :: "'a list \<Rightarrow> 'a option" where
  "first_of xs = (case xs of [] \<Rightarrow> None | x # _ \<Rightarrow> Some x)"

definition policy_input :: "authorization_state \<Rightarrow> auth_session \<Rightarrow> auth_request \<Rightarrow> evaluation_input" where
  "policy_input current s r =
     \<lparr>pe_application = ts_application s, pe_authorization = st_authorization current, pe_lifecycle = st_lifecycle current,
      pe_permission = tr_permission r, pe_scope = tr_scope r, pe_principal = ts_principal s, pe_actor = ts_actor s,
      pe_delegation = ts_delegation s, pe_facts = tr_facts r\<rparr>"

definition refusal_reason :: "auth_session \<Rightarrow> authority_snapshot \<Rightarrow> owner \<Rightarrow> string \<Rightarrow> decision_reason" where
  "refusal_reason s snapshot w p =
     (let candidates = owners_of (ka_owners (an_principal snapshot)) p;
          inactive = owners_of (ka_ineffective (an_principal snapshot)) p in
      if ts_delegation s \<noteq> None \<and> list_ex (\<lambda>c. same_owner c w) candidates then DelegationReduced
      else if candidates \<noteq> [] \<or> inactive \<noteq> [] then OwnerNotEffective
      else if ka_active (an_principal snapshot) = 0 \<and> 0 < ka_revoked (an_principal snapshot) then AssignmentRevoked
      else PermissionNotGranted)"

definition decide_outcome :: "authorization_state \<Rightarrow> authz_catalog \<Rightarrow> auth_session \<Rightarrow> auth_request \<Rightarrow> authority_snapshot \<Rightarrow>
    bool \<Rightarrow> policy_race \<Rightarrow> owner \<Rightarrow> decision_outcome \<times> decision_reason" where
  "decide_outcome current c s r snapshot aborted race w =
     (case find (\<lambda>(d, _). pm_id d = tr_permission r) (kt_permissions c) of
        None \<Rightarrow> (DenyAccess, refusal_reason s snapshot w (tr_permission r))
      | Some (d, _) \<Rightarrow>
          if \<not> list_ex (\<lambda>x. same_owner x w) (owners_of (an_intersection snapshot) (tr_permission r))
          then (DenyAccess, refusal_reason s snapshot w (tr_permission r))
          else if pm_scope d \<noteq> scope_kind (tr_scope r) \<or> pm_resource d \<noteq> sp_resource (tr_scope r) then (DenyAccess, PolicyDenied)
          else (case find (\<lambda>(b, x). bi_permission b = tr_permission r \<and> same_owner (ExtensionOwner x) w) (kt_bindings c) of
             None \<Rightarrow> if pm_scope d \<noteq> ApplicationScope then (DenyAccess, PolicyDenied) else (AllowAccess, Granted)
           | Some _ \<Rightarrow>
               if fst (catalog_execute c aborted race (Some (policy_input current s r))) = AllowAccess
               then (AllowAccess, Granted) else (DenyAccess, PolicyDenied)))"

definition decide :: "authorization_state \<Rightarrow> authz_catalog \<Rightarrow> auth_session \<Rightarrow> auth_request \<Rightarrow> authority_snapshot \<Rightarrow>
    bool \<Rightarrow> policy_race \<Rightarrow> authority_error + decision" where
  "decide current c s r snapshot aborted race =
     (let owner = (case find (\<lambda>(d, _). pm_id d = tr_permission r) (kt_permissions c) of
                     Some (_, w) \<Rightarrow> Some w
                   | None \<Rightarrow> first_of (owners_of (ka_owners (an_principal snapshot)) (tr_permission r))) in
      case owner of
        None \<Rightarrow> Inl (AuthorityError InvalidRequest)
      | Some w \<Rightarrow>
          (case decide_outcome current c s r snapshot aborted race w of
             (outcome, reason) \<Rightarrow>
               let x = \<lparr>dc_id = tr_decision r, dc_correlation = ts_correlation s, dc_application = st_application current,
                        dc_environment = st_environment current, dc_permission = tr_permission r, dc_owner = w,
                        dc_principal = ts_principal s, dc_actor = ts_actor s, dc_delegation = ts_delegation s,
                        dc_scope = tr_scope r, dc_authorization = st_authorization current, dc_lifecycle = st_lifecycle current,
                        dc_outcome = outcome, dc_reason = reason, dc_approval = NotRequired, dc_reauthentication = NotRequired\<rparr>
               in if decision_schema x then Inr x else Inl DecisionRejected))"

subsection \<open>\<open>authorize\<close>\<close>

record provided_catalog =
  pv_application :: string
  pv_lifecycle :: int
  pv_catalog :: "authz_catalog option"

text \<open>The answers of the host: the state, the provider, and the read transaction, which may fail.\<close>

record authority_host =
  ho_state :: "string \<Rightarrow> string \<Rightarrow> authorization_state option"
  ho_catalog :: "string \<Rightarrow> int \<Rightarrow> provided_catalog option"
  ho_read :: "authorization_state \<Rightarrow> authority_data option"

definition expected_revision :: "auth_session \<Rightarrow> authorization_state \<Rightarrow> authorization_state" where
  "expected_revision s current =
     \<lparr>st_application = ts_application s, st_environment = ts_environment s, st_authorization = st_authorization current,
      st_lifecycle = st_lifecycle current\<rparr>"

definition current_catalog :: "authority_host \<Rightarrow> auth_session \<Rightarrow> authorization_state \<Rightarrow> authority_error + authz_catalog" where
  "current_catalog host s current =
     (case ho_catalog host (ts_application s) (st_lifecycle current) of
        None \<Rightarrow> Inl (AuthorityError AuthorityUnavailable)
      | Some v \<Rightarrow>
          if pv_application v \<noteq> ts_application s \<or> pv_lifecycle v \<noteq> st_lifecycle current \<or>
             \<not> catalog_for_lifecycle (pv_catalog v) (ts_application s) (st_lifecycle current)
          then Inl (AuthorityError AuthorityUnavailable)
          else (case pv_catalog v of None \<Rightarrow> Inl (AuthorityError AuthorityUnavailable) | Some c \<Rightarrow> Inr c))"

definition resolve_authority :: "authority_host \<Rightarrow> nat \<Rightarrow> authorization_state \<Rightarrow> auth_session \<Rightarrow> authority_cache \<Rightarrow>
    (authority_error + authority_snapshot) \<times> authority_cache" where
  "resolve_authority host limit e s m =
     (case authority_lookup e s m of
        (Some snapshot, m') \<Rightarrow> (Inr snapshot, m')
      | (None, m') \<Rightarrow>
          (case ho_read host e of
             None \<Rightarrow> (Inl (AuthorityError AuthorityUnavailable), m')
           | Some d \<Rightarrow> (Inr (make_snapshot d s), authority_insert limit e s (make_snapshot d s) m')))"

definition authorize :: "authority_host \<Rightarrow> nat \<Rightarrow> auth_session option \<Rightarrow> auth_request option \<Rightarrow> bool \<Rightarrow> policy_race \<Rightarrow>
    authority_cache \<Rightarrow> (authority_error + decision) \<times> authority_cache" where
  "authorize host limit session request aborted race m =
     (case (session, request) of
        (None, _) \<Rightarrow> (Inl (AuthorityError UntrustedSession), m)
      | (Some s, None) \<Rightarrow> (Inl (AuthorityError InvalidRequest), m)
      | (Some s, Some r) \<Rightarrow>
          (case ho_state host (ts_application s) (ts_environment s) of
             None \<Rightarrow> (Inl (AuthorityError AuthorityUnavailable), m)
           | Some current \<Rightarrow>
               (case current_catalog host s current of
                  Inl e \<Rightarrow> (Inl e, m)
                | Inr c \<Rightarrow>
                    (case resolve_authority host limit (expected_revision s current) s m of
                       (Inl e, m') \<Rightarrow> (Inl e, m')
                     | (Inr snapshot, m') \<Rightarrow> (decide current c s r snapshot aborted race, m')))))"

end
