(* ===== verification/AuthorizationCatalogProperties.thy ===== *)
theory AuthorizationCatalogProperties
  imports AuthorizationCatalog
begin

text \<open>
  What a catalogue that \<open>createEffectiveAuthorizationCatalog\<close> made promises: permissions with one
  publisher each, none of which an extension takes from the platform; policies that only the code of the
  publisher of their permission decides.
\<close>

subsection \<open>Identifiers and namespaces\<close>

lemma split_on_chars: "c \<in> set s \<Longrightarrow> c \<noteq> d \<Longrightarrow> \<exists>p \<in> set (split_on d s). c \<in> set p"
  by (induction s) (auto split: list.splits)

lemma kebab_chars:
  assumes "kebab s" "c \<in> set s"
  shows "c = CHR ''-'' \<or> is_lower c \<or> is_digit c"
  using assms split_on_chars [of c s "CHR ''-''"] by (auto simp: kebab_def lower_or_digit_def list_all_iff)

lemma resource_id_chars:
  assumes "resource_id s" "c \<in> set s"
  shows "c = CHR ''.'' \<or> c = CHR ''-'' \<or> is_lower c \<or> is_digit c"
  using assms split_on_chars [of c s "CHR ''.''"] kebab_chars by (fastforce simp: resource_id_def list_all_iff)

lemma resource_id_no_colon: "resource_id s \<Longrightarrow> CHR '':'' \<notin> set s"
  using resource_id_chars [of s "CHR '':''"] by (auto simp: is_lower_def is_digit_def less_eq_char_def)

lemma starts_with_append: "starts_with p s \<longleftrightarrow> (\<exists>t. s = p @ t)"
  by (auto simp: starts_with_def) (metis append_take_drop_id)

text \<open>An identifier has one namespace of the form \<open>system\<close> or \<open>system.x\<close> only with the platform.\<close>

lemma system_prefix:
  assumes "starts_with ''system.'' i" "starts_with (n @ ''.'') i"
  shows "n = ''system'' \<or> starts_with ''system.'' n"
proof -
  obtain t where t: "i = ''system.'' @ t" using assms(1) unfolding starts_with_append by blast
  obtain u where u: "i = n @ ''.'' @ u" using assms(2) unfolding starts_with_append append_assoc by blast
  have "''system.'' @ t = n @ ''.'' @ u" by (rule trans [OF t [symmetric] u])
  then consider v where "''system.'' @ v = n" | v where "''system.'' = n @ v" "v @ t = ''.'' @ u"
    unfolding append_eq_append_conv2 [of "''system.''" t n "''.'' @ u"] by metis
  then show ?thesis
  proof cases
    case 1
    then show ?thesis by (auto simp: starts_with_append)
  next
    case 2
    then have "n @ v = ''system.''" by simp
    then show ?thesis using 2(2) by (auto simp: append_eq_Cons_conv starts_with_def)
  qed
qed

lemma extension_not_system:
  assumes "owned_by_publisher (ExtensionPublisher c x) i"
  shows "\<not> starts_with ''system.'' i"
  using assms system_prefix [of i "publisher_namespace (ExtensionPublisher c x)"]
  by (auto simp: owned_by_publisher_def reserved_system_namespace_def)

subsection \<open>The permissions of the platform\<close>

lemma platform_permissions_valid:
  "list_all (\<lambda>d. permission_schema d \<and> pm_publisher d = PlatformPublisher \<and> starts_with ''system.'' (pm_id d)) platform_permissions"
  by code_simp

lemma platform_permissions_distinct: "distinct (map pm_id platform_permissions)"
  by code_simp

subsection \<open>Contributions\<close>

lemma collect_descriptors_Inr: "collect_descriptors ds = Inr seen \<Longrightarrow> distinct (map pm_id ds) \<and> set seen = pm_id ` set ds"
proof -
  let ?f = "\<lambda>d seen. if pm_id d \<in> set seen then Inl (RegistryError DuplicateDescriptor) else Inr (set_add (pm_id d) seen)"
  have "res_fold ?f ds s = Inr t \<Longrightarrow> distinct (map pm_id ds) \<and> pm_id ` set ds \<inter> set s = {} \<and> set t = set s \<union> pm_id ` set ds" for s t
  proof (induction ds arbitrary: s)
    case (Cons d ds)
    then show ?case using Cons.IH [of "set_add (pm_id d) s"] by (auto split: if_splits)
  qed simp
  then show "collect_descriptors ds = Inr seen \<Longrightarrow> ?thesis" unfolding collect_descriptors_def by fastforce
qed

lemma collect_bindings_Inr:
  assumes "collect_bindings ds bs = Inr r"
  shows "distinct (map bi_id bs) \<and> distinct (map bi_permission bs) \<and>
     (\<forall>b \<in> set bs. \<exists>d \<in> set ds. pm_id d = bi_permission b \<and> pm_scope d = bi_scope b)"
proof -
  let ?f = "\<lambda>b (ids, permissions).
       if bi_id b \<in> set ids \<or> bi_permission b \<in> set permissions then Inl (RegistryError DuplicateBinding)
       else (case find (\<lambda>d. pm_id d = bi_permission b) ds of
               None \<Rightarrow> Inl (RegistryError InvalidBinding)
             | Some d \<Rightarrow>
                 if bi_scope b \<noteq> pm_scope d then Inl (RegistryError ScopeMismatch)
                 else Inr (set_add (bi_id b) ids, set_add (bi_permission b) permissions))"
  have "res_fold ?f bs (ids, ps) = Inr r \<Longrightarrow> distinct (map bi_id bs) \<and> distinct (map bi_permission bs) \<and>
      bi_id ` set bs \<inter> set ids = {} \<and> bi_permission ` set bs \<inter> set ps = {} \<and>
      (\<forall>b \<in> set bs. \<exists>d \<in> set ds. pm_id d = bi_permission b \<and> pm_scope d = bi_scope b)" for ids ps
  proof (induction bs arbitrary: ids ps)
    case (Cons b bs)
    from Cons.prems obtain d where d: "bi_id b \<notin> set ids" "bi_permission b \<notin> set ps" "find (\<lambda>d. pm_id d = bi_permission b) ds = Some d"
      "bi_scope b = pm_scope d" and rest: "res_fold ?f bs (set_add (bi_id b) ids, set_add (bi_permission b) ps) = Inr r"
      by (auto split: if_splits option.splits)
    have "d \<in> set ds" "pm_id d = bi_permission b" using d(3) by (auto simp: find_Some_iff)
    then show ?case using Cons.IH [OF rest] d(1,2,4) by auto
  qed simp
  then show ?thesis using assms unfolding collect_bindings_def by blast
qed

definition contribution_ok :: "parsed_contribution \<Rightarrow> bool" where
  "contribution_ok p \<longleftrightarrow> extension_owner_schema (kp_owner p) \<and> generation_schema (kp_generation p) \<and>
     owner_key_of (kp_owner p) = owner_key_of (ge_owner (kp_generation p)) \<and>
     kp_application p = ge_application (kp_generation p) \<and> kp_lifecycle p = ge_lifecycle (kp_generation p) \<and>
     (kp_active p \<longrightarrow> ge_state (kp_generation p) = CurrentGeneration) \<and>
     (\<forall>d \<in> set (kp_descriptors p). permission_schema d \<and> same_publisher (kp_owner p) (pm_publisher d)) \<and>
     (\<forall>b \<in> set (kp_bindings p). binding_schema b \<and> same_publisher (kp_owner p) (bi_publisher b) \<and>
        (\<exists>d \<in> set (kp_descriptors p). pm_id d = bi_permission b \<and> pm_scope d = bi_scope b)) \<and>
     (\<forall>t \<in> set (kp_templates p). template_schema t \<and> same_publisher (kp_owner p) (rt_publisher t) \<and>
        set (rt_permissions t) \<subseteq> pm_id ` set (kp_descriptors p))"

lemma parse_descriptor_Inr: "parse_descriptor v = Inr d \<Longrightarrow> permission_schema d"
  by (auto simp: parse_descriptor_def split: declared_permission.splits option.splits if_splits)

lemma parse_binding_Inr: "parse_binding v = Inr b \<Longrightarrow> binding_schema b"
  by (auto simp: parse_binding_def split: option.splits)

lemma parse_template_Inr: "parse_template v = Inr t \<Longrightarrow> template_schema t"
  by (auto simp: parse_template_def split: option.splits)

lemma res_map_all: "res_map f xs = Inr ys \<Longrightarrow> (\<And>x y. f x = Inr y \<Longrightarrow> P y) \<Longrightarrow> \<forall>y \<in> set ys. P y"
  by (induction xs arbitrary: ys) auto

lemma parse_contribution_Inr:
  assumes "parse_contribution k = Inr p"
  shows "contribution_ok p"
proof -
  from assms obtain x g flags ds bs ts declared r where p: "extension_owner_schema x" "generation_schema g"
    "owner_key_of x = owner_key_of (ge_owner g)" "res_map parse_descriptor (kb_descriptors k) = Inr ds"
    "res_map parse_binding (kb_bindings k) = Inr bs" "res_map parse_template (kb_templates k) = Inr ts"
    "list_all (\<lambda>d. same_publisher x (pm_publisher d)) ds" "list_all (\<lambda>b. same_publisher x (bi_publisher b)) bs"
    "list_all (\<lambda>t. same_publisher x (rt_publisher t)) ts" "collect_descriptors ds = Inr declared" "collect_bindings ds bs = Inr r"
    "check_templates declared ts = Inr ()"
    "kp_owner p = x \<and> kp_generation p = g \<and> kp_application p = ge_application g \<and> kp_lifecycle p = ge_lifecycle g \<and>
     (kp_active p \<longrightarrow> ge_state g = CurrentGeneration) \<and> kp_descriptors p = ds \<and> kp_bindings p = bs \<and> kp_templates p = ts"
    by (auto simp: parse_contribution_def split: option.splits if_splits)
  have "\<forall>d \<in> set ds. permission_schema d" "\<forall>b \<in> set bs. binding_schema b" "\<forall>t \<in> set ts. template_schema t"
    by (rule res_map_all [OF p(4)], erule parse_descriptor_Inr)
       (rule res_map_all [OF p(5)], erule parse_binding_Inr, rule res_map_all [OF p(6)], erule parse_template_Inr)
  moreover have "\<forall>t \<in> set ts. set (rt_permissions t) \<subseteq> pm_id ` set ds"
    using p(12) collect_descriptors_Inr [OF p(10)] by (auto simp: check_templates_def list_all_iff)
  ultimately show ?thesis
    using p(1-3,7-9) collect_bindings_Inr [OF p(11)] by (simp add: contribution_ok_def p(13) list_all_iff)
qed

subsection \<open>What the loop over the contributions saw\<close>

lemma set_add_new: "x \<notin> set xs \<Longrightarrow> set_add x xs = xs @ [x]"
  by (simp add: set_add_def)

lemma see_descriptors_Inr:
  "res_fold see_descriptor ds s = Inr t \<Longrightarrow> t = s\<lparr>sk_descriptors := sk_descriptors s @ map pm_id ds\<rparr> \<and>
     (distinct (sk_descriptors s) \<longrightarrow> distinct (sk_descriptors s @ map pm_id ds))"
  by (induction ds arbitrary: s) (fastforce simp: see_descriptor_def set_add_new split: if_splits)+

lemma see_bindings_Inr:
  "res_fold see_binding bs s = Inr t \<Longrightarrow>
     t = s\<lparr>sk_bindings := sk_bindings s @ map bi_id bs, sk_permissions := sk_permissions s @ map bi_permission bs\<rparr> \<and>
     (distinct (sk_bindings s) \<longrightarrow> distinct (sk_bindings s @ map bi_id bs)) \<and>
     (distinct (sk_permissions s) \<longrightarrow> distinct (sk_permissions s @ map bi_permission bs))"
  by (induction bs arbitrary: s) (fastforce simp: see_binding_def set_add_new split: if_splits)+

lemma see_templates_Inr:
  "res_fold see_template ts s = Inr t \<Longrightarrow> t = s\<lparr>sk_templates := sk_templates s @ map rt_id ts\<rparr> \<and>
     (distinct (sk_templates s) \<longrightarrow> distinct (sk_templates s @ map rt_id ts))"
  by (induction ts arbitrary: s) (fastforce simp: see_template_def set_add_new split: if_splits)+

text \<open>The identifiers of all contributions together.\<close>

definition all_descriptors :: "parsed_contribution list \<Rightarrow> permission_descriptor list" where
  "all_descriptors ps = concat (map kp_descriptors ps)"

definition all_bindings :: "parsed_contribution list \<Rightarrow> policy_binding list" where
  "all_bindings ps = concat (map kp_bindings ps)"

definition seen_once :: "seen_keys \<Rightarrow> bool" where
  "seen_once s \<longleftrightarrow> distinct (sk_owners s) \<and> distinct (sk_descriptors s) \<and> distinct (sk_bindings s) \<and> distinct (sk_permissions s)"

lemma see_contribution_Inr:
  assumes "see_contribution a p s = Inr t"
  shows "kp_application p = a \<and> sk_owners t = sk_owners s @ [owner_key_of (kp_owner p)] \<and>
     sk_descriptors t = sk_descriptors s @ map pm_id (kp_descriptors p) \<and> sk_bindings t = sk_bindings s @ map bi_id (kp_bindings p) \<and>
     sk_permissions t = sk_permissions s @ map bi_permission (kp_bindings p) \<and>
     (seen_once s \<longrightarrow> seen_once t)"
proof -
  let ?s = "s\<lparr>sk_owners := set_add (owner_key_of (kp_owner p)) (sk_owners s)\<rparr>"
  from assms obtain s1 s2 where a: "kp_application p = a" "owner_key_of (kp_owner p) \<notin> set (sk_owners s)"
    and folds: "res_fold see_descriptor (kp_descriptors p) ?s = Inr s1" "res_fold see_binding (kp_bindings p) s1 = Inr s2"
      "res_fold see_template (kp_templates p) s2 = Inr t"
    by (auto simp: see_contribution_def split: if_splits)
  show ?thesis
    using a see_descriptors_Inr [OF folds(1)] see_bindings_Inr [OF folds(2)] see_templates_Inr [OF folds(3)]
    by (auto simp: set_add_new seen_once_def)
qed

lemma see_contributions_Inr:
  "res_fold (see_contribution a) ps s = Inr t \<Longrightarrow>
     (\<forall>p \<in> set ps. kp_application p = a) \<and> sk_owners t = sk_owners s @ map (owner_key_of \<circ> kp_owner) ps \<and>
     sk_descriptors t = sk_descriptors s @ map pm_id (all_descriptors ps) \<and>
     sk_bindings t = sk_bindings s @ map bi_id (all_bindings ps) \<and>
     sk_permissions t = sk_permissions s @ map bi_permission (all_bindings ps) \<and>
     (seen_once s \<longrightarrow> seen_once t)"
proof (induction ps arbitrary: s)
  case (Cons p ps)
  then obtain u where u: "see_contribution a p s = Inr u" "res_fold (see_contribution a) ps u = Inr t" by auto
  show ?case using see_contribution_Inr [OF u(1)] Cons.IH [OF u(2)] by (simp add: all_descriptors_def all_bindings_def)
qed (simp add: all_descriptors_def all_bindings_def)

lemma seen_distinct:
  assumes "res_fold (see_contribution a) ps nothing_seen = Inr t"
  shows "distinct (map (owner_key_of \<circ> kp_owner) ps)" "distinct (map pm_id (all_descriptors ps))"
    "distinct (map bi_id (all_bindings ps))" "distinct (map bi_permission (all_bindings ps))"
  using see_contributions_Inr [OF assms] by (auto simp: nothing_seen_def seen_once_def)

subsection \<open>Bound executables\<close>

lemma execution_key_inject:
  assumes "resource_id i" "resource_id j" "execution_key p i = execution_key q j"
  shows "i = j"
proof -
  have last: "rev (takeWhile (\<lambda>c. c \<noteq> CHR '':'') (rev (execution_key p i))) = i" if "resource_id i" for p i
  proof -
    have "takeWhile (\<lambda>c. c \<noteq> CHR '':'') (rev i) = rev i"
      using resource_id_no_colon [OF that] by (intro takeWhile_eq_all_conv [THEN iffD2]) auto
    moreover have "takeWhile (\<lambda>c. c \<noteq> CHR '':'') (rev (execution_key p i)) = takeWhile (\<lambda>c. c \<noteq> CHR '':'') (rev i)"
      unfolding execution_key_def rev_append append_assoc rev.simps append_Cons append_Nil by (rule takeWhile_tail) simp
    ultimately show ?thesis by (simp only: rev_rev_ident)
  qed
  show ?thesis using last [OF assms(1), of p] last [OF assms(2), of q] assms(3) by simp
qed

text \<open>What the loop over the bindings accepts.\<close>

definition bound_ok :: "(policy_binding \<times> extension_owner) list \<Rightarrow> string \<Rightarrow> bound_executable \<Rightarrow> bool" where
  "bound_ok obs key x \<longleftrightarrow> (bx_binding x, bx_owner x) \<in> set obs \<and>
     key = execution_key (bi_publisher (bx_binding x)) (bi_id (bx_binding x)) \<and>
     same_publisher (bx_owner x) (el_publisher (bx_executable x)) \<and>
     el_reference (bx_executable x) = bi_reference (bx_binding x) \<and> el_class (bx_executable x) = xo_class (bx_owner x)"

lemma bind_executable_Inr:
  assumes "bind_executable xs indexed sources (b, w) bound = Inr bound'"
  shows "\<exists>x. bound' = AList.update (execution_key (bi_publisher b) (bi_id b)) \<lparr>bx_executable = x, bx_binding = b, bx_owner = w\<rparr> bound \<and>
     same_publisher w (el_publisher x) \<and> el_reference x = bi_reference b \<and> el_class x = xo_class w"
  using assms by (auto simp: bind_executable_def Let_def split: option.splits if_splits)

lemma bind_executables_Inr:
  assumes "res_fold (bind_executable xs indexed sources) obs [] = Inr bound"
  shows "(\<forall>key x. map_of bound key = Some x \<longrightarrow> bound_ok obs key x) \<and>
     (\<forall>(b, w) \<in> set obs. map_of bound (execution_key (bi_publisher b) (bi_id b)) \<noteq> None)"
proof
  show "\<forall>key x. map_of bound key = Some x \<longrightarrow> bound_ok obs key x"
  proof (rule res_fold_invariant [OF assms, where P = "\<lambda>m. \<forall>key x. map_of m key = Some x \<longrightarrow> bound_ok obs key x"])
    fix o' m m'
    assume "o' \<in> set obs" "\<forall>key x. map_of m key = Some x \<longrightarrow> bound_ok obs key x" "bind_executable xs indexed sources o' m = Inr m'"
    moreover obtain b w where "o' = (b, w)" by force
    ultimately show "\<forall>key x. map_of m' key = Some x \<longrightarrow> bound_ok obs key x"
      using bind_executable_Inr [of xs indexed sources b w m m'] by (auto simp: bound_ok_def split: if_splits)
  qed simp
  have "map_of bound (execution_key (bi_publisher b) (bi_id b)) \<noteq> None" (is "map_of bound ?key \<noteq> None") if "(b, w) \<in> set obs"
    for b :: policy_binding and w
  proof (rule res_fold_establishes [OF assms that, where Q = "\<lambda>m. map_of m ?key \<noteq> None"])
    show "map_of t ?key \<noteq> None" if "bind_executable xs indexed sources (b, w) s = Inr t" for s t
      using bind_executable_Inr [OF that] by auto
    show "map_of t ?key \<noteq> None" if "map_of s ?key \<noteq> None" "bind_executable xs indexed sources y s = Inr t" for y s t
      using bind_executable_Inr [of xs indexed sources "fst y" "snd y" s t] that by auto
  qed
  then show "\<forall>(b, w) \<in> set obs. map_of bound (execution_key (bi_publisher b) (bi_id b)) \<noteq> None" by blast
qed

text \<open>The executables by the permissions of the active bindings.\<close>

lemma executables_by_permission_Some:
  assumes "map_of (executables_by_permission bs bound) p = Some x"
  shows "\<exists>(b, w) \<in> set bs. bi_permission b = p \<and> map_of bound (execution_key (bi_publisher b) (bi_id b)) = Some x"
proof -
  let ?f = "\<lambda>(b, w) m. case map_of bound (execution_key (bi_publisher b) (bi_id b)) of
             None \<Rightarrow> m | Some x \<Rightarrow> AList.update (bi_permission b) x m"
  have "map_of (fold ?f bs m) p = Some x \<Longrightarrow> map_of m p = Some x \<or>
      (\<exists>(b, w) \<in> set bs. bi_permission b = p \<and> map_of bound (execution_key (bi_publisher b) (bi_id b)) = Some x)" for m
  proof (induction bs arbitrary: m)
    case (Cons o' bs)
    obtain b w where o': "o' = (b, w)" by force
    have "map_of (fold ?f bs (?f o' m)) p = Some x" using Cons.prems by simp
    from Cons.IH [OF this] show ?case
    proof
      assume "map_of (?f o' m) p = Some x"
      then show ?thesis using o' by (auto split: option.splits if_splits)
    qed auto
  qed simp
  then show ?thesis using assms unfolding executables_by_permission_def by fastforce
qed

lemma executables_by_permission_entry:
  assumes "(b, w) \<in> set bs" "map_of bound (execution_key (bi_publisher b) (bi_id b)) = Some x" "distinct (map (bi_permission \<circ> fst) bs)"
  shows "map_of (executables_by_permission bs bound) (bi_permission b) = Some x"
proof -
  let ?f = "\<lambda>(b, w) m. case map_of bound (execution_key (bi_publisher b) (bi_id b)) of
             None \<Rightarrow> m | Some x \<Rightarrow> AList.update (bi_permission b) x m"
  have keep: "p \<notin> (bi_permission \<circ> fst) ` set bs \<Longrightarrow> map_of (fold ?f bs m) p = map_of m p" for p m bs
  proof (induction bs arbitrary: m)
    case (Cons o' bs)
    then show ?case using Cons.IH [of "?f o' m"] by (cases o') (auto split: option.splits)
  qed simp
  have "map_of (fold ?f bs m) (bi_permission b) = Some x" for m
    using assms
  proof (induction bs arbitrary: m)
    case (Cons o' bs)
    show ?case
    proof (cases "o' = (b, w)")
      case True
      then have "bi_permission b \<notin> (bi_permission \<circ> fst) ` set bs" using Cons.prems(3) by simp
      from keep [OF this, of "?f o' m"] show ?thesis using Cons.prems(2) by (simp add: True)
    next
      case False
      then have "(b, w) \<in> set bs" using Cons.prems(1) by simp
      from Cons.IH [OF this Cons.prems(2), of "?f o' m"] show ?thesis using Cons.prems(3) by simp
    qed
  qed simp
  then show ?thesis by (simp add: executables_by_permission_def)
qed

subsection \<open>The assembled catalogue\<close>

lemma parse_extension_Inr: "parse_extension v = Inr q \<Longrightarrow> contribution_ok (fst q)"
  by (auto simp: parse_extension_def dest: parse_contribution_Inr split: option.splits)

lemma create_catalog_Inr:
  assumes "create_catalog v = Inr c"
  obtains i ps xs sources bound t where "v = CatalogRoot i" "\<forall>p \<in> set ps. contribution_ok p \<and> kp_lifecycle p \<le> ci_lifecycle i"
    "res_fold (see_contribution (ci_application i)) ps nothing_seen = Inr t" "bind_all xs sources ps = Inr bound"
    "c = assemble_catalog i ps bound"
proof -
  from assms obtain i parsed t xs bound where c: "v = CatalogRoot i" "res_map parse_extension (ci_extensions i) = Inr parsed"
    "res_fold (see_contribution (ci_application i)) (map fst parsed) nothing_seen = Inr t"
    "\<forall>p \<in> set (map fst parsed). \<not> kp_lifecycle p > ci_lifecycle i" "bind_all xs (hot_sources parsed) (map fst parsed) = Inr bound"
    "c = assemble_catalog i (map fst parsed) bound"
    by (auto simp: create_catalog_def parse_root_def Let_def split: root_value.splits if_splits)
  have "\<forall>q \<in> set parsed. contribution_ok (fst q)" by (rule res_map_all [OF c(2)], erule parse_extension_Inr)
  then show thesis using that [OF c(1) _ c(3,5,6)] c(4) by fastforce
qed

lemma distinct_map_sort_key [simp]: "distinct (map f (sort_key g xs)) = distinct (map f xs)"
  by (metis mset_eq_imp_distinct_iff mset_map mset_sort)

lemma distinct_concat_filter:
  "distinct (concat (map f xs)) \<Longrightarrow> distinct (concat (map f (filter P xs)))"
  by (induction xs) auto

lemma map_fst_owned: "map fst (owned_bindings ps) = all_bindings ps"
  by (induction ps) (simp_all add: owned_bindings_def all_bindings_def comp_def)

lemma map_owned: "map (f \<circ> fst) (owned_bindings ps) = map f (all_bindings ps)"
  by (simp add: map_fst_owned [symmetric])

lemma owned_bindings_member: "(b, w) \<in> set (owned_bindings ps) \<longleftrightarrow> (\<exists>p \<in> set ps. b \<in> set (kp_bindings p) \<and> w = kp_owner p)"
  by (auto simp: owned_bindings_def)

lemma owned_descriptors:
  "map (pm_id \<circ> fst) (concat (map (\<lambda>p. map (\<lambda>d. (d, ExtensionOwner (kp_owner p))) (kp_descriptors p)) ps)) = map pm_id (all_descriptors ps)"
  by (induction ps) (simp_all add: all_descriptors_def comp_def)

lemma same_publisher_owned:
  assumes "permission_schema d" "same_publisher x (pm_publisher d)"
  shows "owner_matches_publisher (ExtensionOwner x) (pm_publisher d) \<and> owned_by_owner (ExtensionOwner x) (pm_id d) \<and>
    \<not> starts_with ''system.'' (pm_id d)"
  using assms extension_not_system
  by (auto simp: same_publisher_def owner_matches_publisher_def same_extension_publisher_def owner_publisher_def
      owned_by_owner_def permission_schema_def)

lemma created_permissions:
  assumes "create_catalog v = Inr c"
  shows "distinct (map (pm_id \<circ> fst) (kt_permissions c)) \<and> sorted (map (pm_id \<circ> fst) (kt_permissions c)) \<and>
     (\<forall>d \<in> set platform_permissions. (d, PlatformOwner) \<in> set (kt_permissions c)) \<and>
     (\<forall>(d, w) \<in> set (kt_permissions c). permission_schema d \<and> owner_matches_publisher w (pm_publisher d) \<and>
        owned_by_owner w (pm_id d) \<and> (starts_with ''system.'' (pm_id d) \<longleftrightarrow> w = PlatformOwner))"
proof -
  from assms obtain i ps xs sources bound t where ps: "\<forall>p \<in> set ps. contribution_ok p \<and> kp_lifecycle p \<le> ci_lifecycle i"
    and seen: "res_fold (see_contribution (ci_application i)) ps nothing_seen = Inr t" and c: "c = assemble_catalog i ps bound"
    by (rule create_catalog_Inr)
  let ?active = "filter kp_active ps"
  let ?ext = "concat (map (\<lambda>p. map (\<lambda>d. (d, ExtensionOwner (kp_owner p))) (kp_descriptors p)) ?active)"
  let ?platform = "map (\<lambda>d. (d, PlatformOwner)) platform_permissions"
  have perms: "kt_permissions c = sort_key (pm_id \<circ> fst) (?platform @ ?ext)" by (simp add: c assemble_catalog_def Let_def)
  have platform: "\<forall>d \<in> set platform_permissions. permission_schema d \<and> pm_publisher d = PlatformPublisher \<and> starts_with ''system.'' (pm_id d)"
    using platform_permissions_valid by (simp add: list_all_iff)
  have ext: "permission_schema d \<and> owner_matches_publisher w (pm_publisher d) \<and> owned_by_owner w (pm_id d) \<and>
      \<not> starts_with ''system.'' (pm_id d) \<and> w \<noteq> PlatformOwner" if "(d, w) \<in> set ?ext" for d w
    using that ps same_publisher_owned by (fastforce simp: contribution_ok_def)
  have "distinct (map pm_id (all_descriptors ?active))"
    using seen_distinct(2) [OF seen] unfolding all_descriptors_def map_concat map_map by (rule distinct_concat_filter)
  then have "distinct (map (pm_id \<circ> fst) ?ext)" unfolding owned_descriptors .
  moreover have "(pm_id \<circ> fst) ` set ?platform \<inter> (pm_id \<circ> fst) ` set ?ext = {}"
    using platform ext by fastforce
  moreover have "distinct (map (pm_id \<circ> fst) ?platform)" using platform_permissions_distinct by (simp add: comp_def)
  ultimately have "distinct (map (pm_id \<circ> fst) (?platform @ ?ext))" unfolding map_append distinct_append set_map by blast
  moreover have "\<forall>(d, w) \<in> set ?platform. permission_schema d \<and> owner_matches_publisher w (pm_publisher d) \<and>
      owned_by_owner w (pm_id d) \<and> (starts_with ''system.'' (pm_id d) \<longleftrightarrow> w = PlatformOwner)"
    using platform by (auto simp: owner_matches_publisher_def owned_by_owner_def owner_publisher_def permission_schema_def)
  moreover have "\<forall>(d, w) \<in> set ?ext. permission_schema d \<and> owner_matches_publisher w (pm_publisher d) \<and>
      owned_by_owner w (pm_id d) \<and> (starts_with ''system.'' (pm_id d) \<longleftrightarrow> w = PlatformOwner)"
    using ext by blast
  ultimately show ?thesis unfolding perms set_sort distinct_map_sort_key set_append ball_Un by auto
qed

text \<open>In a catalogue a permission identifier has one definition and one owner: identifiers are distinct
  and sorted, every permission of the platform is there under the platform, every other one belongs to a
  current generation of the extension that publishes it, and no extension defines a permission under
  \<open>system.\<close>
\<close>

theorem catalog_permissions_owned:
  assumes "create_catalog v = Inr c"
  shows "distinct (map (pm_id \<circ> fst) (kt_permissions c)) \<and> sorted (map (pm_id \<circ> fst) (kt_permissions c)) \<and>
     (\<forall>d \<in> set platform_permissions. (d, PlatformOwner) \<in> set (kt_permissions c)) \<and>
     (\<forall>(d, w) \<in> set (kt_permissions c). permission_schema d \<and> owner_matches_publisher w (pm_publisher d) \<and>
        owned_by_owner w (pm_id d) \<and> (starts_with ''system.'' (pm_id d) \<longleftrightarrow> w = PlatformOwner))"
  by (rule created_permissions [OF assms])

text \<open>The executable that the catalogue runs for a binding of an active contribution.\<close>

lemma bound_binding:
  assumes "bind_all xs sources ps = Inr bound" "distinct (map bi_id (all_bindings ps))" "\<forall>p \<in> set ps. contribution_ok p"
    "(b, w) \<in> set (owned_bindings ps)"
  shows "\<exists>x. map_of bound (execution_key (bi_publisher b) (bi_id b)) = Some x \<and> bx_binding x = b \<and> bx_owner x = w \<and>
     same_publisher w (el_publisher (bx_executable x)) \<and> el_reference (bx_executable x) = bi_reference b \<and>
     el_class (bx_executable x) = xo_class w"
proof -
  let ?key = "execution_key (bi_publisher b) (bi_id b)"
  from assms(1) obtain indexed where fold: "res_fold (bind_executable xs indexed sources) (owned_bindings ps) [] = Inr bound"
    by (auto simp: bind_all_def split: if_splits)
  obtain x where x: "map_of bound ?key = Some x" using bind_executables_Inr [OF fold] assms(4) by fastforce
  then have ok: "bound_ok (owned_bindings ps) ?key x" using bind_executables_Inr [OF fold] by blast
  have id: "resource_id (bi_id b)" if "(b, w) \<in> set (owned_bindings ps)" for b w
    using that assms(3) by (auto simp: owned_bindings_member contribution_ok_def binding_schema_def)
  have member: "(bx_binding x, bx_owner x) \<in> set (owned_bindings ps)" using ok by (simp add: bound_ok_def)
  have "bi_id b = bi_id (bx_binding x)"
    using execution_key_inject [OF id [OF assms(4)] id [OF member]] ok unfolding bound_ok_def by blast
  moreover have "inj_on (bi_id \<circ> fst) (set (owned_bindings ps))"
    using assms(2) unfolding map_owned [of bi_id, symmetric] distinct_map by simp
  ultimately have "(b, w) = (bx_binding x, bx_owner x)"
    using assms(4) member by (intro inj_onD [of "bi_id \<circ> fst"]) simp_all
  then show ?thesis using x ok by (auto simp: bound_ok_def)
qed

lemma created_policies:
  assumes "create_catalog v = Inr c"
  shows "(\<forall>(b, w) \<in> set (kt_bindings c). \<exists>x. map_of (kt_executables c) (bi_permission b) = Some x \<and>
      bx_binding x = b \<and> bx_owner x = w \<and> el_publisher (bx_executable x) = bi_publisher b \<and>
      el_reference (bx_executable x) = bi_reference b \<and> el_class (bx_executable x) = xo_class w \<and>
      (\<exists>d. (d, ExtensionOwner w) \<in> set (kt_permissions c) \<and> pm_id d = bi_permission b \<and> pm_scope d = bi_scope b \<and>
         pm_publisher d = bi_publisher b)) \<and>
     (\<forall>p x. map_of (kt_executables c) p = Some x \<longrightarrow>
        (bx_binding x, bx_owner x) \<in> set (kt_bindings c) \<and> bi_permission (bx_binding x) = p)"
proof -
  from assms obtain i ps xs sources bound t where ps: "\<forall>p \<in> set ps. contribution_ok p \<and> kp_lifecycle p \<le> ci_lifecycle i"
    and seen: "res_fold (see_contribution (ci_application i)) ps nothing_seen = Inr t"
    and bound: "bind_all xs sources ps = Inr bound" and c: "c = assemble_catalog i ps bound"
    by (rule create_catalog_Inr)
  let ?active = "filter kp_active ps"
  have bindings: "set (kt_bindings c) = set (owned_bindings ?active)"
    and executables: "kt_executables c = executables_by_permission (kt_bindings c) bound"
    and perms: "set (kt_permissions c) = (\<lambda>d. (d, PlatformOwner)) ` set platform_permissions \<union>
      (\<Union>p \<in> set ?active. (\<lambda>d. (d, ExtensionOwner (kp_owner p))) ` set (kp_descriptors p))"
    by (simp_all add: c assemble_catalog_def Let_def)
  have "distinct (map (bi_permission \<circ> fst) (owned_bindings ?active))"
    using seen_distinct(4) [OF seen] unfolding map_owned all_bindings_def map_concat map_map by (rule distinct_concat_filter)
  then have once: "distinct (map (bi_permission \<circ> fst) (kt_bindings c))" by (simp add: c assemble_catalog_def Let_def)
  have sub: "(b, w) \<in> set (owned_bindings ps)" if "(b, w) \<in> set (kt_bindings c)" for b w
    using that by (auto simp: bindings owned_bindings_member)
  have valid: "\<forall>p \<in> set ps. contribution_ok p" using ps by blast
  note found = bound_binding [OF bound seen_distinct(3) [OF seen] valid sub]
  have permission: "\<exists>d. (d, ExtensionOwner w) \<in> set (kt_permissions c) \<and> pm_id d = bi_permission b \<and> pm_scope d = bi_scope b \<and>
      pm_publisher d = bi_publisher b \<and> same_publisher w (bi_publisher b)" if "(b, w) \<in> set (kt_bindings c)" for b w
  proof -
    obtain p where p: "p \<in> set ?active" "b \<in> set (kp_bindings p)" "w = kp_owner p"
      using \<open>(b, w) \<in> set (kt_bindings c)\<close> by (auto simp: bindings owned_bindings_member)
    then obtain d where "d \<in> set (kp_descriptors p)" "pm_id d = bi_permission b" "pm_scope d = bi_scope b"
      "same_publisher w (pm_publisher d)" "same_publisher w (bi_publisher b)"
      using valid by (fastforce simp: contribution_ok_def)
    then show ?thesis using p by (auto simp: perms same_publisher_def)
  qed
  have "\<exists>x. map_of (kt_executables c) (bi_permission b) = Some x \<and> bx_binding x = b \<and> bx_owner x = w \<and>
      el_publisher (bx_executable x) = bi_publisher b \<and> el_reference (bx_executable x) = bi_reference b \<and>
      el_class (bx_executable x) = xo_class w" if "(b, w) \<in> set (kt_bindings c)" for b w
  proof -
    obtain x where x: "map_of bound (execution_key (bi_publisher b) (bi_id b)) = Some x" "bx_binding x = b" "bx_owner x = w"
      "same_publisher w (el_publisher (bx_executable x))" "el_reference (bx_executable x) = bi_reference b"
      "el_class (bx_executable x) = xo_class w" using found [OF \<open>(b, w) \<in> set (kt_bindings c)\<close>] by blast
    show ?thesis
      using executables_by_permission_entry [OF \<open>(b, w) \<in> set (kt_bindings c)\<close> x(1) once] x(2-6) permission [OF \<open>(b, w) \<in> set (kt_bindings c)\<close>]
      by (auto simp: executables same_publisher_def)
  qed
  moreover have "(bx_binding x, bx_owner x) \<in> set (kt_bindings c) \<and> bi_permission (bx_binding x) = p"
    if entry: "map_of (kt_executables c) p = Some x" for p x
  proof -
    obtain b w where b: "(b, w) \<in> set (kt_bindings c)" "bi_permission b = p"
      "map_of bound (execution_key (bi_publisher b) (bi_id b)) = Some x"
      using executables_by_permission_Some [OF entry [unfolded executables]] by blast
    then show ?thesis using found [OF b(1)] by auto
  qed
  ultimately show ?thesis using permission by blast
qed


subsection \<open>Execution\<close>

lemma invoke_bound_allow:
  "invoke_bound aborted race x e = (AllowAccess, r) \<longleftrightarrow> \<not> aborted \<and> r = PolicyAllowed \<and> (\<exists>caller. race = ExecutorFirst caller False) \<and>
     el_evaluate (bx_executable x) (bx_owner x) (bx_binding x) e = ExecutorReturned (Some AllowAccess)"
  by (auto simp: invoke_bound_def split: policy_race.splits executor_result.splits option.splits decision_outcome.splits if_splits)

text \<open>A policy of a catalogue allows an access only where the code of the publisher of the permission
  said so: the request is valid and for the application of the catalogue, the executable bound to the
  permission was run for the generation that owns the permission, it answered before its timeout with
  neither signal raised, and the scope and the resource of the request are those of the permission.
\<close>

theorem policy_decided_by_publisher:
  assumes "create_catalog v = Inr c" "catalog_execute c aborted race u = (AllowAccess, r)"
  shows "\<exists>e x d caller. u = Some e \<and> evaluation_schema e \<and> pe_application e = kt_application c \<and> \<not> aborted \<and>
     map_of (kt_executables c) (pe_permission e) = Some x \<and> bi_permission (bx_binding x) = pe_permission e \<and>
     (d, ExtensionOwner (bx_owner x)) \<in> set (kt_permissions c) \<and> pm_id d = pe_permission e \<and>
     pm_publisher d = el_publisher (bx_executable x) \<and> scope_kind (pe_scope e) = pm_scope d \<and>
     sp_resource (pe_scope e) = pm_resource d \<and> race = ExecutorFirst caller False \<and> r = PolicyAllowed \<and>
     el_evaluate (bx_executable x) (bx_owner x) (bx_binding x) e = ExecutorReturned (Some AllowAccess)"
proof -
  from assms(2) obtain e x d w where e: "u = Some e" "evaluation_schema e" "pe_application e = kt_application c" "\<not> aborted"
    "map_of (kt_executables c) (pe_permission e) = Some x" "find (\<lambda>(d, _). pm_id d = pe_permission e) (kt_permissions c) = Some (d, w)"
    "scope_kind (pe_scope e) = pm_scope d" "sp_resource (pe_scope e) = pm_resource d" "invoke_bound aborted race x e = (AllowAccess, r)"
    by (auto simp: catalog_execute_def split: option.splits if_splits)
  have x: "(bx_binding x, bx_owner x) \<in> set (kt_bindings c)" "bi_permission (bx_binding x) = pe_permission e"
    using created_policies [OF assms(1)] e(5) by blast+
  obtain d' where d': "(d', ExtensionOwner (bx_owner x)) \<in> set (kt_permissions c)" "pm_id d' = pe_permission e"
    "pm_publisher d' = el_publisher (bx_executable x)"
    using created_policies [OF assms(1)] x e(5) by fastforce
  have "(d, w) \<in> set (kt_permissions c)" "pm_id d = pe_permission e" using e(6) by (auto simp: find_Some_iff) (metis nth_mem)
  moreover have "inj_on (pm_id \<circ> fst) (set (kt_permissions c))"
    using created_permissions [OF assms(1)] by (simp add: distinct_map)
  ultimately have "(d', ExtensionOwner (bx_owner x)) = (d, w)" using d'(1,2) by (intro inj_onD [of "pm_id \<circ> fst"]) simp_all
  then have "d' = d" by simp
  then show ?thesis using e(1-5,7,8) x d' e(9) [unfolded invoke_bound_allow] by blast
qed

subsection \<open>At concrete values\<close>

text \<open>A plugin with one permission on records and the policy that decides about it.\<close>

definition crm_publisher :: publisher where
  "crm_publisher = ExtensionPublisher PlatformPlugin ''module.crm''"

definition crm_owner :: extension_owner where
  "crm_owner = \<lparr>xo_class = PlatformPlugin, xo_extension = ''module.crm'', xo_generation = 1\<rparr>"

definition crm_generation :: generation where
  "crm_generation = \<lparr>ge_application = ''shop'', ge_owner = crm_owner, ge_runtime = [''crm-one''], ge_state = CurrentGeneration,
     ge_authorization = 3, ge_lifecycle = 8\<rparr>"

definition crm_permission :: permission_descriptor where
  "crm_permission = \<lparr>pm_id = ''crm.notes.read'', pm_publisher = crm_publisher, pm_title = ''Read notes'',
     pm_description = ''View notes.'', pm_audience = AuthenticatedActors, pm_resource = ''crm.notes'', pm_operation = ReadOp,
     pm_scope = RecordScope\<rparr>"

definition crm_binding :: policy_binding where
  "crm_binding = \<lparr>bi_id = ''crm.notes.policy'', bi_publisher = crm_publisher, bi_permission = ''crm.notes.read'',
     bi_reference = ''crm.notes.gate'', bi_scope = RecordScope, bi_timeout = 1000\<rparr>"

definition crm_executable :: executable where
  "crm_executable = \<lparr>el_class = PlatformPlugin, el_publisher = crm_publisher, el_binding = ''crm.notes.policy'',
     el_reference = ''crm.notes.gate'', el_evaluate = (\<lambda>_ _ _. ExecutorReturned (Some AllowAccess)), el_source = None\<rparr>"

definition crm_contribution :: authorization_contribution where
  "crm_contribution = \<lparr>kb_owner = Some crm_owner, kb_generation = Some crm_generation,
     kb_lifecycle = Some \<lparr>lf_enabled = True, lf_ready = True\<rparr>, kb_descriptors = [DeclaredPermission (Some crm_permission)],
     kb_bindings = [Some crm_binding], kb_templates = [], kb_source = None\<rparr>"

definition crm_parsed :: parsed_contribution where
  "crm_parsed = \<lparr>kp_application = ''shop'', kp_owner = crm_owner, kp_generation = crm_generation, kp_active = True, kp_lifecycle = 8,
     kp_descriptors = [crm_permission], kp_bindings = [crm_binding], kp_templates = []\<rparr>"

definition crm_bound :: bound_executable where
  "crm_bound = \<lparr>bx_executable = crm_executable, bx_binding = crm_binding, bx_owner = crm_owner\<rparr>"

definition crm_input :: catalog_input where
  "crm_input = \<lparr>ci_application = ''shop'', ci_lifecycle = 8, ci_extensions = [Some crm_contribution],
     ci_executables = [TrustedValue crm_executable]\<rparr>"

definition crm_catalog :: authz_catalog where
  "crm_catalog = assemble_catalog crm_input [crm_parsed] [(execution_key crm_publisher ''crm.notes.policy'', crm_bound)]"

lemma crm_contribution_parsed: "parse_contribution crm_contribution = Inr crm_parsed"
  by code_simp

lemma crm_seen: "\<exists>t. res_fold (see_contribution ''shop'') [crm_parsed] nothing_seen = Inr t"
  by (simp add: see_contribution_def see_descriptor_def see_binding_def nothing_seen_def crm_parsed_def)

lemma crm_bound_all: "bind_all [crm_executable] [] [crm_parsed] = Inr [(execution_key crm_publisher ''crm.notes.policy'', crm_bound)]"
  by (simp add: bind_all_def index_executables_def owned_bindings_def bind_executable_def crm_parsed_def crm_executable_def
      crm_binding_def crm_bound_def same_publisher_def crm_publisher_def crm_owner_def)

lemma crm_created: "create_catalog (CatalogRoot crm_input) = Inr crm_catalog"
proof -
  have "parse_root (CatalogRoot crm_input) = Inr crm_input"
    by (simp add: parse_root_def crm_input_def is_safe_integer_def max_safe_integer_def) code_simp
  moreover have "hot_sources [(crm_parsed, None)] = []" by (simp add: hot_sources_def)
  ultimately show ?thesis
    using crm_seen crm_bound_all crm_contribution_parsed
    by (auto simp: create_catalog_def crm_catalog_def crm_input_def parse_extension_def crm_contribution_def Let_def
        parse_executable_def crm_parsed_def simp del: res_fold.simps)
qed

lemma catalog_permissions_owned_witness:
  "create_catalog (CatalogRoot crm_input) = Inr crm_catalog \<and> distinct (map (pm_id \<circ> fst) (kt_permissions crm_catalog))"
  using crm_created catalog_permissions_owned [OF crm_created] by blast

lemma crm_member: "(crm_permission, ExtensionOwner crm_owner) \<in> set (kt_permissions crm_catalog)"
  "(crm_binding, crm_owner) \<in> set (kt_bindings crm_catalog)"
  "map_of (kt_executables crm_catalog) ''crm.notes.read'' = Some crm_bound"
  by (simp_all add: crm_catalog_def assemble_catalog_def Let_def crm_parsed_def owned_bindings_def
      executables_by_permission_def crm_binding_def)


definition crm_evaluation :: evaluation_input where
  "crm_evaluation = \<lparr>pe_application = ''shop'', pe_authorization = 3, pe_lifecycle = 8, pe_permission = ''crm.notes.read'',
     pe_scope = ScopeRecord ''crm.notes'' ''note-1'', pe_principal = UserSubject ''ada'', pe_actor = UserSubject ''ada'',
     pe_delegation = None, pe_facts = ([], JsNull)\<rparr>"

lemma find_distinct: "distinct (map f xs) \<Longrightarrow> x \<in> set xs \<Longrightarrow> find (\<lambda>y. f y = f x) xs = Some x"
  by (induction xs) auto

lemma null_facts: "bounded_json max_policy_facts_bytes max_policy_facts_depth ([], JsNull)"
  by (simp add: bounded_json_def canonical_json_def max_policy_facts_bytes_def read_json.simps canonical_text_def utf8_def utf8_char_def)

lemma crm_evaluation_valid: "evaluation_schema crm_evaluation"
proof -
  have "kebab ''shop'' \<and> permission_id ''crm.notes.read'' \<and> scope_schema (ScopeRecord ''crm.notes'' ''note-1'') \<and> subject_schema (UserSubject ''ada'')"
    by code_simp
  then show ?thesis
    using null_facts by (simp add: evaluation_schema_def crm_evaluation_def is_safe_integer_def max_safe_integer_def)
qed

lemma crm_found:
  "find (\<lambda>(d, _). pm_id d = ''crm.notes.read'') (kt_permissions crm_catalog) = Some (crm_permission, ExtensionOwner crm_owner)"
proof -
  have "distinct (map (pm_id \<circ> fst) (kt_permissions crm_catalog))" using created_permissions [OF crm_created] by blast
  from find_distinct [OF this crm_member(1)] show ?thesis by (simp add: crm_permission_def case_prod_unfold)
qed

lemma crm_executed: "catalog_execute crm_catalog False (ExecutorFirst False False) (Some crm_evaluation) = (AllowAccess, PolicyAllowed)"
  using crm_found crm_evaluation_valid crm_member(3)
  by (simp add: catalog_execute_def safe_parse_def invoke_bound_def crm_bound_def crm_executable_def crm_binding_def
      crm_permission_def crm_evaluation_def scope_kind_def)
     (simp add: crm_catalog_def assemble_catalog_def Let_def crm_input_def)

lemma policy_decided_by_publisher_witness:
  "\<exists>(x :: bound_executable) d. (d, ExtensionOwner (bx_owner x)) \<in> set (kt_permissions crm_catalog) \<and> pm_id d = ''crm.notes.read'' \<and>
     pm_publisher d = el_publisher (bx_executable x) \<and>
     el_evaluate (bx_executable x) (bx_owner x) (bx_binding x) crm_evaluation = ExecutorReturned (Some AllowAccess)"
proof -
  have "pe_permission crm_evaluation = ''crm.notes.read''" by (simp add: crm_evaluation_def)
  then show ?thesis using policy_decided_by_publisher [OF crm_created crm_executed] by fastforce
qed

end
