(* ===== verification/EffectiveAuthorityProperties.thy ===== *)
theory EffectiveAuthorityProperties
  imports EffectiveAuthority AuthorizationCatalogProperties AuthorizationHistory
begin

text \<open>
  What the resolver of effective authority promises: a decision allows exactly what roles, grants,
  generations and policies allow at the revision it names; its cache never changes a decision; and grants
  of a retired generation stay without effect.
\<close>

subsection \<open>Keys of owners\<close>

lemma split_at_first: "c \<notin> set a \<Longrightarrow> c \<notin> set b \<Longrightarrow> a @ c # x = b @ c # y \<longleftrightarrow> a = b \<and> x = y"
proof (induction a arbitrary: b)
  case Nil
  then show ?case by (cases b) auto
next
  case (Cons d a)
  then show ?case by (cases b) auto
qed

lemma class_text_no_colon: "CHR '':'' \<notin> set (class_text c)"
  by (cases c) (simp_all add: class_text_def)

lemma segments_no_colon: "list_all kebab (split_on CHR ''.'' s) \<Longrightarrow> CHR '':'' \<notin> set s"
  using split_on_chars [of "CHR '':''" s "CHR ''.''"] kebab_chars [of _ "CHR '':''"]
  by (auto simp: list_all_iff is_lower_def is_digit_def less_eq_char_def)

lemma extension_id_no_colon: "extension_id_of c x \<Longrightarrow> CHR '':'' \<notin> set x"
proof -
  assume x: "extension_id_of c x"
  then obtain k ks where parts: "split_on CHR ''.'' x = k # ks" "list_all kebab ks" "k \<in> set (''app'' # plugin_kinds)"
    by (cases c) (auto simp: extension_id_of_def plugin_id_def hot_application_id_def split: list.splits)
  have "list_all kebab (''app'' # plugin_kinds)" by code_simp
  then have "kebab k" using parts(3) by (auto simp: list_all_iff)
  then show ?thesis using segments_no_colon [of x] parts by simp
qed

lemma owner_key_of_inject:
  assumes "extension_owner_schema x" "extension_owner_schema y"
  shows "owner_key_of x = owner_key_of y \<longleftrightarrow> x = y"
proof
  assume "owner_key_of x = owner_key_of y"
  then have "xo_class x = xo_class y \<and> xo_extension x = xo_extension y \<and> xo_generation x = xo_generation y"
    using assms extension_id_no_colon [of "xo_class x" "xo_extension x"] extension_id_no_colon [of "xo_class y" "xo_extension y"]
    by (simp add: owner_key_of_def extension_owner_schema_def split_at_first class_text_no_colon int_text_inject)
  then show "x = y" by simp
qed simp

lemma same_owner_iff: "owner_schema v \<Longrightarrow> owner_schema w \<Longrightarrow> same_owner v w \<longleftrightarrow> v = w"
  by (cases v; cases w) (auto simp: same_owner_def owner_key_def owner_schema_def owner_key_of_inject)

lemma same_owner_refl [simp]: "same_owner w w"
  by (simp add: same_owner_def)

lemma same_owner_sym: "same_owner v w \<Longrightarrow> same_owner w v"
  by (simp add: same_owner_def)

lemma same_owner_trans: "same_owner u v \<Longrightarrow> same_owner v w \<Longrightarrow> same_owner u w"
  by (simp add: same_owner_def)

lemma same_owner_platform: "same_owner v w \<Longrightarrow> v = PlatformOwner \<longleftrightarrow> w = PlatformOwner"
  by (cases v; cases w) (auto simp: same_owner_def owner_key_def)

lemma generation_current_same: "same_owner v w \<Longrightarrow> generation_current v gs = generation_current w gs"
  using same_owner_platform [of v w] by (auto simp: generation_current_def list_ex_iff same_owner_def)

subsection \<open>The authority of a subject\<close>

lemma map_get_or_update_list: "map_get_or (AList.update k v m) j [] = (if j = k then v else map_get_or m j [])"
  by simp

definition named :: "owner_map \<Rightarrow> string \<Rightarrow> owner \<Rightarrow> bool" where
  "named m p w \<longleftrightarrow> list_ex (same_owner w) (owners_of m p)"

lemma named_add_owner: "named (add_owner g m) p w \<longleftrightarrow> named m p w \<or> gt_permission g = p \<and> same_owner w (gt_owner g)"
  by (auto simp: named_def owners_of_def add_owner_def Let_def list_ex_iff same_owner_def) metis

lemma named_add_grant:
  "named (fst (add_grant roles gs g m)) p w \<longleftrightarrow> named (fst m) p w \<or>
     gt_role g \<in> roles \<and> generation_current (gt_owner g) gs \<and> gt_permission g = p \<and> same_owner w (gt_owner g)"
  by (cases m) (auto simp: add_grant_def named_add_owner)

lemma keys_add_owner: "distinct (map fst m) \<Longrightarrow> distinct (map fst (add_owner g m))"
  by (simp add: add_owner_def Let_def)

lemma add_grants:
  "named (fst (fold (add_grant roles gs) grants m)) p w \<longleftrightarrow> named (fst m) p w \<or>
     (\<exists>g \<in> set grants. gt_role g \<in> roles \<and> generation_current (gt_owner g) gs \<and> gt_permission g = p \<and> same_owner w (gt_owner g))"
  by (induction grants arbitrary: m) (auto simp: named_add_grant)

lemma add_grants_keys:
  "distinct (map fst (fst m)) \<Longrightarrow> distinct (map fst (fst (fold (add_grant roles gs) grants m)))"
proof (induction grants arbitrary: m)
  case (Cons g grants)
  have "distinct (map fst (fst (add_grant roles gs g m)))" using Cons.prems by (cases m) (simp add: add_grant_def keys_add_owner)
  then show ?case by (simp add: Cons.IH)
qed simp

lemma owners_of_sort: "owners_of (sort_owners m) p = sort_key owner_weights (owners_of m p)"
  by (induction m) (auto simp: owners_of_def sort_owners_def map_get_or_def)

lemma named_sort [simp]: "named (sort_owners m) p w = named m p w"
  by (simp add: named_def owners_of_sort list_ex_iff)

lemma keys_sort [simp]: "map fst (sort_owners m) = map fst m"
  by (simp add: sort_owners_def comp_def case_prod_unfold)

text \<open>A subject holds a permission of an owner by an active assignment to a role with such a grant.\<close>

definition holds :: "authority_data \<Rightarrow> subject \<Rightarrow> string \<Rightarrow> owner \<Rightarrow> bool" where
  "holds d x p w \<longleftrightarrow> (\<exists>a \<in> set (ah_assignments d x). \<exists>role \<in> set (ah_roles d). \<exists>g \<in> set (ah_grants d).
     as_state a = ActiveAssignment \<and> as_role a = ro_id role \<and> gt_role g = as_role a \<and> gt_permission g = p \<and>
     same_owner w (gt_owner g) \<and> generation_current (gt_owner g) (ah_generations d))"

lemma subject_authority_named:
  "named (ka_owners (subject_authority (ah_assignments d x) (ah_roles d) (ah_grants d) (ah_generations d))) p w \<longleftrightarrow> holds d x p w"
proof -
  let ?roles = "role_ids (ah_assignments d x) (ah_roles d)"
  have "named ([] :: owner_map) p w = False" by (simp add: named_def owners_of_def)
  then have "named (ka_owners (subject_authority (ah_assignments d x) (ah_roles d) (ah_grants d) (ah_generations d))) p w \<longleftrightarrow>
      (\<exists>g \<in> set (ah_grants d). gt_role g \<in> ?roles \<and> generation_current (gt_owner g) (ah_generations d) \<and> gt_permission g = p \<and>
         same_owner w (gt_owner g))"
    using add_grants [of ?roles "ah_generations d" "ah_grants d" "([], [])" p w]
    by (simp add: subject_authority_def case_prod_unfold)
  then show ?thesis by (auto simp: holds_def role_ids_def)
qed

lemma subject_authority_keys: "distinct (map fst (ka_owners (subject_authority as roles grants gs)))"
  using add_grants_keys [of "([], [])" "role_ids as roles" gs grants] by (simp add: subject_authority_def case_prod_unfold)

lemma intersect_named:
  assumes "distinct (map fst (ka_owners l))"
  shows "named (intersect_authority l r) p w \<longleftrightarrow> named (ka_owners l) p w \<and> named (ka_owners r) p w"
proof -
  let ?common = "\<lambda>p ws. filter (\<lambda>w. list_ex (same_owner w) (map_get_or (ka_owners r) p [])) ws"
  let ?m = "\<lambda>xs. concat (map (\<lambda>(p, ws). let common = ?common p ws in if common = [] then [] else [(p, common)]) xs)"
  have keys: "fst ` set (?m xs) \<subseteq> fst ` set xs" for xs by (auto simp: Let_def split: if_splits) force
  have "owners_of (?m xs) p = ?common p (owners_of xs p)" if "distinct (map fst xs)" for xs
    using that
  proof (induction xs)
    case (Cons x xs)
    obtain q ws where x: "x = (q, ws)" by force
    have "p \<notin> fst ` set (?m xs)" if "p = q"
    proof -
      have "p \<notin> fst ` set xs" using Cons.prems x that by simp
      then show ?thesis using keys [of xs] by blast
    qed
    then have none: "owners_of (?m xs) p = []" if "p = q"
      using that unfolding owners_of_def map_get_or_def map_of_eq_None_iff [symmetric] by simp
    have step: "owners_of (?m (x # xs)) p = (if p = q \<and> ?common p ws \<noteq> [] then ?common p ws else owners_of (?m xs) p)"
      by (cases "p = q") (simp_all add: x owners_of_def map_get_or_def Let_def map_add_def)
    have rest: "owners_of (?m xs) p = ?common p (owners_of xs p)" using Cons.IH Cons.prems by simp
    have first: "owners_of (x # xs) p = (if p = q then ws else owners_of xs p)"
      by (simp add: x owners_of_def map_get_or_def)
    show ?case
    proof (cases "p = q")
      case True
      show ?thesis unfolding step first none [OF True] using True by simp
    next
      case False
      then show ?thesis unfolding step first rest by simp
    qed
  qed (simp add: owners_of_def)
  from this [OF assms] have "owners_of (intersect_authority l r) p = ?common p (owners_of (ka_owners l) p)"
    by (simp add: intersect_authority_def)
  then show ?thesis by (auto simp: named_def list_ex_iff owners_of_def same_owner_def) metis
qed

subsection \<open>The cache\<close>

text \<open>A table whose keys determine the answers that are stored under them.\<close>

locale memo_table =
  fixes key :: "'q \<Rightarrow> string" and answer :: "'w \<Rightarrow> 'q \<Rightarrow> 'v option"
  assumes key_answer: "key q = key r \<Longrightarrow> answer w q = answer w r"
begin

definition fresh :: "'w \<Rightarrow> (string, 'v) js_map \<Rightarrow> bool" where
  "fresh w m \<longleftrightarrow> distinct (map fst m) \<and> (\<forall>(k, v) \<in> set m. \<exists>q. key q = k \<and> answer w q = Some v)"

lemma fresh_Nil: "fresh w []"
  by (simp add: fresh_def)

lemma fresh_hit:
  assumes "fresh w m" "map_of m (key q) = Some v"
  shows "answer w q = Some v"
proof -
  obtain r where "key r = key q" "answer w r = Some v"
    using assms(1) map_of_SomeD [OF assms(2)] unfolding fresh_def by blast
  then show ?thesis using key_answer [of r q w] by simp
qed

lemma fresh_store:
  assumes "fresh w m" "answer w q = Some v"
  shows "fresh w (AList.update (key q) v m)"
proof -
  have "set (AList.update (key q) v m) \<subseteq> insert (key q, v) (set m)" by (induction m) auto
  then show ?thesis using assms by (fastforce simp: fresh_def)
qed

lemma fresh_forget: "fresh w m \<Longrightarrow> fresh w (AList.delete k m)"
  by (simp add: fresh_def) (auto simp: AList.delete_eq)

lemma fresh_tail: "fresh w (x # m) \<Longrightarrow> fresh w m"
  by (simp add: fresh_def)

end

lemma authority_key_inject:
  assumes "authority_key e s = authority_key e' s'"
  shows "e = e' \<and> ts_principal s = ts_principal s' \<and> ts_actor s = ts_actor s'"
proof -
  have "same_json (authority_key_json e s) (authority_key_json e' s')"
    using assms unfolding authority_key_def by (rule canonical_text_same)
  note entry = same_json_entry [OF this [unfolded authority_key_json_def]]
  have subject: "same_json (subject_json x) (subject_json y) \<Longrightarrow> x = y" for x y
    by (cases x; cases y) (auto simp: subject_json_def same_json_record)
  have "st_application e = st_application e'" "st_environment e = st_environment e'"
    "st_authorization e = st_authorization e'" "st_lifecycle e = st_lifecycle e'"
    using entry [of "''applicationId''"] entry [of "''environment''"] entry [of "''authorizationRevision''"]
      entry [of "''lifecycleRevision''"] by simp_all
  moreover have "same_json (subject_json (ts_principal s)) (subject_json (ts_principal s'))"
    using entry [of "''principal''" "subject_json (ts_principal s)"] by simp
  moreover have "same_json (subject_json (ts_actor s)) (subject_json (ts_actor s'))"
    using entry [of "''effectiveActor''" "subject_json (ts_actor s)"] by simp
  ultimately show ?thesis using subject by simp
qed

lemma make_snapshot_subjects:
  "ts_principal s = ts_principal s' \<Longrightarrow> ts_actor s = ts_actor s' \<Longrightarrow> make_snapshot d s = make_snapshot d s'"
  by (simp add: make_snapshot_def Let_def)

text \<open>What the store answers at a revision is a function of the revision.\<close>

type_synonym store_history = "authorization_state \<Rightarrow> authority_data option"

definition authority_question :: "authorization_state \<times> auth_session \<Rightarrow> string" where
  "authority_question = (\<lambda>(e, s). authority_key e s)"

definition authority_answer :: "store_history \<Rightarrow> authorization_state \<times> auth_session \<Rightarrow> authority_snapshot option" where
  "authority_answer history = (\<lambda>(e, s). map_option (\<lambda>d. make_snapshot d s) (history e))"

interpretation authority_memo: memo_table authority_question authority_answer
proof
  fix q r :: "authorization_state \<times> auth_session" and history
  assume "authority_question q = authority_question r"
  then show "authority_answer history q = authority_answer history r"
    using authority_key_inject [of "fst q" "snd q" "fst r" "snd r"] make_snapshot_subjects [of "snd q" "snd r"]
    by (simp add: authority_question_def authority_answer_def case_prod_unfold)
qed

text \<open>Calls interleave: a step is one run of code before or after the read of the store.\<close>

inductive authority_run :: "store_history \<Rightarrow> nat \<Rightarrow> authority_cache \<Rightarrow> bool" for history limit where
  empty: "authority_run history limit []"
| looked_up: "authority_run history limit m \<Longrightarrow> authority_run history limit (snd (authority_lookup e s m))"
| inserted: "authority_run history limit m \<Longrightarrow> history e = Some d \<Longrightarrow> authority_run history limit (authority_insert limit e s (make_snapshot d s) m)"

lemma evict_fresh: "authority_memo.fresh h m \<Longrightarrow> authority_memo.fresh h (evict_oldest limit m)"
  by (induction m) (auto dest: authority_memo.fresh_tail)

lemma evict_oldest_length: "0 < limit \<Longrightarrow> length (evict_oldest limit m) < limit"
  by (induction m) auto

lemma length_delete_present: "k \<in> fst ` set m \<Longrightarrow> Suc (length (AList.delete k m)) \<le> length m"
proof (induction m)
  case (Cons x m)
  then show ?case using length_delete_le [of k m] by (auto split: if_splits)
qed simp

lemma lookup_length: "length (snd (authority_lookup e s m)) \<le> length m"
proof (cases "map_of m (authority_key e s)")
  case (Some v)
  then have "authority_key e s \<in> fst ` set m" by (metis domI dom_map_of_conv_image_fst)
  from length_delete_present [OF this] show ?thesis by (simp add: authority_lookup_def Some length_update)
qed (simp add: authority_lookup_def)

lemma lookup_fresh: "authority_memo.fresh h m \<Longrightarrow> authority_memo.fresh h (snd (authority_lookup e s m))"
proof (cases "map_of m (authority_key e s)")
  case (Some v)
  assume fresh: "authority_memo.fresh h m"
  have key: "authority_question (e, s) = authority_key e s" by (simp add: authority_question_def)
  have "authority_answer h (e, s) = Some v" using authority_memo.fresh_hit [OF fresh, of "(e, s)" v] Some by (simp add: key)
  from authority_memo.fresh_store [OF authority_memo.fresh_forget [OF fresh] this]
  show ?thesis by (simp add: authority_lookup_def Some key)
qed (simp add: authority_lookup_def)

lemma insert_fresh:
  assumes "authority_memo.fresh h m" "h e = Some d"
  shows "authority_memo.fresh h (authority_insert limit e s (make_snapshot d s) m)"
proof -
  have "authority_answer h (e, s) = Some (make_snapshot d s)" using assms(2) by (simp add: authority_answer_def)
  from authority_memo.fresh_store [OF evict_fresh [OF assms(1)] this]
  show ?thesis by (simp add: authority_insert_def authority_question_def)
qed

lemma authority_run_fresh: "authority_run h limit m \<Longrightarrow> authority_memo.fresh h m"
  by (induction rule: authority_run.induct) (auto intro: authority_memo.fresh_Nil lookup_fresh insert_fresh)

lemma authority_run_length: "authority_run h limit m \<Longrightarrow> 0 < limit \<Longrightarrow> length m \<le> limit"
proof (induction rule: authority_run.induct)
  case (looked_up m e s)
  then show ?case using lookup_length [of e s m] by simp
next
  case (inserted m e d s)
  then show ?case using evict_oldest_length [of limit m] by (auto simp: authority_insert_def length_update)
qed simp

lemma fresh_lookup_hit:
  assumes "authority_memo.fresh h m" "authority_lookup e s m = (Some snapshot, m')"
  shows "\<exists>d. h e = Some d \<and> snapshot = make_snapshot d s"
proof -
  have "map_of m (authority_question (e, s)) = Some snapshot"
    using assms(2) by (simp add: authority_lookup_def authority_question_def split: option.splits)
  from authority_memo.fresh_hit [OF assms(1) this] show ?thesis by (auto simp: authority_answer_def)
qed

text \<open>C10: However calls interleave, the cache of a resolver changes no answer: a hit is the snapshot that the
  store's data at the very revision gives for the subjects of the session, as long as the store answers
  each revision with the same data. A hit becomes the entry that is evicted last, and the cache never
  holds more entries than its limit.
\<close>

theorem authority_cache_sound:
  assumes "authority_run history limit m" "0 < limit"
  shows "length m \<le> limit \<and>
     (\<forall>e s snapshot m'. authority_lookup e s m = (Some snapshot, m') \<longrightarrow>
        (\<exists>d. history e = Some d \<and> snapshot = make_snapshot d s) \<and>
        map_of m' = map_of m \<and> last m' = (authority_key e s, snapshot))"
proof -
  note fresh = authority_run_fresh [OF assms(1)]
  have absent: "k \<notin> fst ` set (AList.delete k m)" for k and m :: authority_cache
    by (simp add: dom_map_of_conv_image_fst [symmetric])
  have "map_of m' = map_of m \<and> last m' = (authority_key e s, snapshot)" if "authority_lookup e s m = (Some snapshot, m')" for e s snapshot m'
  proof -
    have hit: "map_of m (authority_key e s) = Some snapshot"
      and m': "m' = AList.update (authority_key e s) snapshot (AList.delete (authority_key e s) m)"
      using that by (auto simp: authority_lookup_def split: option.splits)
    have "last m' = (authority_key e s, snapshot)" unfolding m' update_absent [OF absent] by simp
    moreover have "map_of m' = map_of m" using hit by (auto simp: m' fun_eq_iff)
    ultimately show ?thesis by simp
  qed
  then show ?thesis using authority_run_length [OF assms] fresh_lookup_hit [OF fresh] by blast
qed

subsection \<open>Decisions\<close>

text \<open>What a decision has to be computed from: the data of the store, the catalogue and the policy.\<close>

definition entitled :: "authority_data \<Rightarrow> authz_catalog \<Rightarrow> authorization_state \<Rightarrow> auth_session \<Rightarrow> auth_request \<Rightarrow> bool \<Rightarrow>
    policy_race \<Rightarrow> bool" where
  "entitled d c current s r aborted race \<longleftrightarrow>
     (\<exists>(x, w) \<in> set (kt_permissions c). pm_id x = tr_permission r \<and> holds d (ts_principal s) (tr_permission r) w \<and>
        holds d (ts_actor s) (tr_permission r) w \<and> pm_scope x = scope_kind (tr_scope r) \<and> pm_resource x = sp_resource (tr_scope r) \<and>
        (if \<exists>(b, y) \<in> set (kt_bindings c). bi_permission b = tr_permission r \<and> same_owner (ExtensionOwner y) w
         then fst (catalog_execute c aborted race (Some (policy_input current s r))) = AllowAccess
         else pm_scope x = ApplicationScope))"

lemma intersection_holds:
  "list_ex (\<lambda>x. same_owner x w) (owners_of (an_intersection (make_snapshot d s)) p) \<longleftrightarrow>
     holds d (ts_principal s) p w \<and> holds d (ts_actor s) p w"
proof -
  have "(\<lambda>x. same_owner x w) = same_owner w" by (rule ext) (auto simp: same_owner_def)
  then have "list_ex (\<lambda>x. same_owner x w) (owners_of (an_intersection (make_snapshot d s)) p) \<longleftrightarrow> named (an_intersection (make_snapshot d s)) p w"
    by (simp add: named_def)
  then show ?thesis
    by (simp add: make_snapshot_def Let_def intersect_named subject_authority_keys subject_authority_named)
qed

lemma find_permission:
  assumes "distinct (map (pm_id \<circ> fst) (kt_permissions c))" "find (\<lambda>(d, _). pm_id d = p) (kt_permissions c) = Some (x, w)"
  shows "(y, v) \<in> set (kt_permissions c) \<and> pm_id y = p \<longleftrightarrow> y = x \<and> v = w"
proof -
  have x: "(x, w) \<in> set (kt_permissions c)" "pm_id x = p" using assms(2) by (auto simp: find_Some_iff) (metis nth_mem)
  have "inj_on (pm_id \<circ> fst) (set (kt_permissions c))" using assms(1) by (simp add: distinct_map)
  then have "(y, v) \<in> set (kt_permissions c) \<Longrightarrow> pm_id y = p \<Longrightarrow> (y, v) = (x, w)"
    using x by (intro inj_onD [of "pm_id \<circ> fst"]) simp_all
  then show ?thesis using x by blast
qed

lemma only_entry:
  assumes "\<And>y v. (y, v) \<in> S \<and> f y = p \<longleftrightarrow> y = x \<and> v = w"
  shows "(\<exists>(y, v) \<in> S. f y = p \<and> Q y v) \<longleftrightarrow> Q x w"
proof -
  have "(\<exists>(y, v) \<in> S. f y = p \<and> Q y v) \<longleftrightarrow> (\<exists>y v. ((y, v) \<in> S \<and> f y = p) \<and> Q y v)" by auto
  then show ?thesis unfolding assms by blast
qed

lemma decide_outcome_allow:
  assumes "distinct (map (pm_id \<circ> fst) (kt_permissions c))" "find (\<lambda>(d, _). pm_id d = tr_permission r) (kt_permissions c) = Some (x, w)"
  shows "fst (decide_outcome current c s r (make_snapshot d s) aborted race w) = AllowAccess \<longleftrightarrow> entitled d c current s r aborted race"
proof -
  let ?bound = "\<exists>(b, y) \<in> set (kt_bindings c). bi_permission b = tr_permission r \<and> same_owner (ExtensionOwner y) w"
  have "find (\<lambda>(b, y). bi_permission b = tr_permission r \<and> same_owner (ExtensionOwner y) w) (kt_bindings c) = None \<longleftrightarrow> \<not> ?bound"
    by (auto simp: find_None_iff)
  moreover have "entitled d c current s r aborted race \<longleftrightarrow> holds d (ts_principal s) (tr_permission r) w \<and>
      holds d (ts_actor s) (tr_permission r) w \<and> pm_scope x = scope_kind (tr_scope r) \<and> pm_resource x = sp_resource (tr_scope r) \<and>
      (if ?bound then fst (catalog_execute c aborted race (Some (policy_input current s r))) = AllowAccess else pm_scope x = ApplicationScope)"
    unfolding entitled_def by (rule only_entry) (rule find_permission [OF assms])
  ultimately show ?thesis
    by (auto simp: decide_outcome_def assms(2) intersection_holds split: option.splits)
qed

text \<open>A host whose provider hands out catalogues that the registry made.\<close>

definition created_catalogs :: "authority_host \<Rightarrow> bool" where
  "created_catalogs host \<longleftrightarrow> (\<forall>a n p c. ho_catalog host a n = Some p \<and> pv_catalog p = Some c \<longrightarrow> (\<exists>v. create_catalog v = Inr c))"

lemma resolve_authority_Inr:
  assumes "resolve_authority host limit e s m = (Inr snapshot, m')" "authority_run (ho_read host) limit m"
  shows "\<exists>d. ho_read host e = Some d \<and> snapshot = make_snapshot d s \<and> authority_run (ho_read host) limit m'"
proof (cases "fst (authority_lookup e s m)")
  case (Some v)
  then have "authority_lookup e s m = (Some snapshot, m')"
    using assms(1) by (auto simp: resolve_authority_def split: prod.splits option.splits)
  then show ?thesis
    using fresh_lookup_hit [OF authority_run_fresh [OF assms(2)]] authority_run.looked_up [OF assms(2), of e s] by auto
next
  case None
  then show ?thesis
    using assms authority_run.looked_up [OF assms(2), of e s] authority_run.inserted [of "ho_read host" limit _ e _ s]
    by (auto simp: resolve_authority_def split: prod.splits option.splits)
qed

lemma current_catalog_Inr:
  assumes "current_catalog host s current = Inr c" "created_catalogs host"
  shows "distinct (map (pm_id \<circ> fst) (kt_permissions c)) \<and> kt_application c = ts_application s \<and> kt_lifecycle c = st_lifecycle current"
proof -
  from assms(1) obtain p where p: "ho_catalog host (ts_application s) (st_lifecycle current) = Some p" "pv_catalog p = Some c"
    "catalog_for_lifecycle (Some c) (ts_application s) (st_lifecycle current)"
    by (auto simp: current_catalog_def split: option.splits if_splits)
  then obtain v where "create_catalog v = Inr c" using assms(2) unfolding created_catalogs_def by blast
  then show ?thesis
    using created_permissions p(3) by (auto simp: catalog_for_lifecycle_def catalog_for_application_def)
qed

lemma find_pm_None: "find (\<lambda>(d, _). pm_id d = p) xs = None \<longleftrightarrow> (\<forall>(d, w) \<in> set xs. pm_id d \<noteq> p)"
  by (auto simp: find_None_iff)

lemma decide_Inr:
  assumes "decide current c s r (make_snapshot d s) aborted race = Inr x" "distinct (map (pm_id \<circ> fst) (kt_permissions c))"
  shows "decision_schema x \<and> dc_permission x = tr_permission r \<and> dc_principal x = ts_principal s \<and> dc_actor x = ts_actor s \<and>
     dc_authorization x = st_authorization current \<and> dc_lifecycle x = st_lifecycle current \<and>
     (dc_outcome x = AllowAccess \<longleftrightarrow> entitled d c current s r aborted race)"
proof (cases "find (\<lambda>(d, _). pm_id d = tr_permission r) (kt_permissions c)")
  case None
  then have "\<not> entitled d c current s r aborted race" unfolding find_pm_None entitled_def by blast
  then show ?thesis using assms(1) None by (auto simp: decide_def decide_outcome_def Let_def split: option.splits if_splits)
next
  case (Some q)
  obtain y w where q: "q = (y, w)" by force
  note allow = decide_outcome_allow [OF assms(2) Some [unfolded q], of current s d aborted race]
  show ?thesis
    using assms(1) Some allow unfolding q by (auto simp: decide_def Let_def split: prod.splits if_splits)
qed

text \<open>C2: A resolver allows an access exactly when, at the revision that its decision names, the principal and
  the acting subject both hold the permission for its current owner by an active assignment to a role
  with such a grant, scope and resource are those of the permission, and the policy of the permission
  allows it or, where it has none, its scope is the whole application. The cache that served earlier calls
  makes no difference.
\<close>

theorem authorize_exact:
  assumes "authorize host limit (Some s) (Some r) aborted race m = (Inr x, m')"
    "authority_run (ho_read host) limit m" "created_catalogs host"
  shows "\<exists>current c d. ho_state host (ts_application s) (ts_environment s) = Some current \<and>
     current_catalog host s current = Inr c \<and> ho_read host (expected_revision s current) = Some d \<and>
     decision_schema x \<and> dc_permission x = tr_permission r \<and> dc_principal x = ts_principal s \<and> dc_actor x = ts_actor s \<and>
     dc_authorization x = st_authorization current \<and> dc_lifecycle x = st_lifecycle current \<and>
     (dc_outcome x = AllowAccess \<longleftrightarrow> entitled d c current s r aborted race) \<and> authority_run (ho_read host) limit m'"
proof -
  from assms(1) obtain current c snapshot where current: "ho_state host (ts_application s) (ts_environment s) = Some current"
    "current_catalog host s current = Inr c" "resolve_authority host limit (expected_revision s current) s m = (Inr snapshot, m')"
    "decide current c s r snapshot aborted race = Inr x"
    by (auto simp: authorize_def split: option.splits sum.splits prod.splits)
  then obtain d where d: "ho_read host (expected_revision s current) = Some d" "snapshot = make_snapshot d s"
    "authority_run (ho_read host) limit m'"
    using resolve_authority_Inr [OF _ assms(2)] by blast
  have "distinct (map (pm_id \<circ> fst) (kt_permissions c))" using current_catalog_Inr [OF current(2) assms(3)] by blast
  then show ?thesis using decide_Inr current(1,2,4) d by blast
qed

subsection \<open>Grants of retired generations\<close>

text \<open>C19: Once a generation of an extension is retired, no later plan lets a grant for it take effect again:
  whatever was planned and reserved since, no subject holds a permission for that generation in data
  whose rows of the extension are the planned ones.
\<close>

theorem retired_grants_stay_without_effect:
  assumes "plan_history rows stored" "numbered rows" "fences_of rows (xo_generation x) = Some (RetiredGeneration, ids)"
    "extension_owner_schema x"
    "list_all (\<lambda>g. extension_owner_schema (ge_owner g) \<and>
       (xo_class (ge_owner g) = xo_class x \<and> xo_extension (ge_owner g) = xo_extension x \<longrightarrow> g \<in> set stored)) (ah_generations d)"
  shows "\<not> holds d u p (ExtensionOwner x)"
proof
  assume "holds d u p (ExtensionOwner x)"
  then obtain g :: role_grant where "same_owner (ExtensionOwner x) (gt_owner g)" "generation_current (gt_owner g) (ah_generations d)"
    by (auto simp: holds_def)
  then have "generation_current (ExtensionOwner x) (ah_generations d)" using generation_current_same by blast
  then obtain q where q: "q \<in> set (ah_generations d)" "ge_state q = CurrentGeneration" "same_owner (ExtensionOwner x) (ExtensionOwner (ge_owner q))"
    by (auto simp: generation_current_def list_ex_iff)
  have "extension_owner_schema (ge_owner q)" using assms(5) q(1) by (simp add: list_all_iff)
  then have x: "ge_owner q = x" using same_owner_iff q(3) assms(4) by (simp add: owner_schema_def)
  then have "q \<in> set stored" using assms(5) q(1) by (auto simp: list_all_iff)
  moreover have steps: "numbered stored" "fence_steps (fences_of rows) (fences_of stored)"
    using plan_history_steps [OF assms(1,2)] by simp_all
  ultimately have "fences_of stored (xo_generation x) = Some (CurrentGeneration, ge_runtime q)"
    using x q(2) by (auto simp: fences_of_Some fence_def row_number_def)
  then show False using fence_steps_retired [OF steps(2) assms(3)] by simp
qed

subsection \<open>At concrete values\<close>

text \<open>A user whose role has a grant for the permission of the plugin.\<close>

definition ada_session :: auth_session where
  "ada_session = \<lparr>ts_application = ''shop'', ts_environment = ''prod'', ts_correlation = ''request-1'',
     ts_principal = UserSubject ''ada'', ts_actor = UserSubject ''ada'', ts_delegation = None\<rparr>"

definition read_note :: auth_request where
  "read_note = \<lparr>tr_decision = ''decision-1'', tr_permission = ''crm.notes.read'', tr_scope = ScopeRecord ''crm.notes'' ''note-1'',
     tr_facts = ([], JsNull)\<rparr>"

definition clerk_data :: authority_data where
  "clerk_data = \<lparr>ah_roles = [\<lparr>ro_id = ''clerk'', ro_application = ''shop'', ro_label = ''Clerk'', ro_description = None,
       ro_protected = None, ro_revision = 1\<rparr>],
     ah_grants = [\<lparr>gt_id = ''grant-1'', gt_application = ''shop'', gt_role = ''clerk'', gt_permission = ''crm.notes.read'',
       gt_owner = ExtensionOwner crm_owner, gt_revision = 1\<rparr>],
     ah_assignments = (\<lambda>x. [\<lparr>as_id = ''assignment-1'', as_application = ''shop'', as_role = ''clerk'', as_principal = x,
       as_state = ActiveAssignment, as_revision = 1\<rparr>]),
     ah_generations = [crm_generation]\<rparr>"

definition prod_state :: authorization_state where
  "prod_state = \<lparr>st_application = ''shop'', st_environment = ''prod'', st_authorization = 3, st_lifecycle = 8\<rparr>"

definition shop_host :: authority_host where
  "shop_host = \<lparr>ho_state = (\<lambda>_ _. Some prod_state),
     ho_catalog = (\<lambda>_ _. Some \<lparr>pv_application = ''shop'', pv_lifecycle = 8, pv_catalog = Some crm_catalog\<rparr>),
     ho_read = (\<lambda>_. Some clerk_data)\<rparr>"

lemma authority_cache_sound_witness:
  "length (authority_insert 2 prod_state ada_session (make_snapshot clerk_data ada_session) []) \<le> 2"
proof -
  have "authority_run (\<lambda>_. Some clerk_data) 2 (authority_insert 2 prod_state ada_session (make_snapshot clerk_data ada_session) [])"
    by (rule authority_run.inserted [OF authority_run.empty refl])
  from authority_cache_sound [OF this] show ?thesis by simp
qed

lemma ada_holds: "holds clerk_data (UserSubject ''ada'') ''crm.notes.read'' (ExtensionOwner crm_owner)"
  by (simp add: holds_def clerk_data_def generation_current_def crm_generation_def)

definition ada_decision :: decision where
  "ada_decision = \<lparr>dc_id = ''decision-1'', dc_correlation = ''request-1'', dc_application = ''shop'', dc_environment = ''prod'',
     dc_permission = ''crm.notes.read'', dc_owner = ExtensionOwner crm_owner, dc_principal = UserSubject ''ada'',
     dc_actor = UserSubject ''ada'', dc_delegation = None, dc_scope = ScopeRecord ''crm.notes'' ''note-1'', dc_authorization = 3,
     dc_lifecycle = 8, dc_outcome = AllowAccess, dc_reason = Granted, dc_approval = NotRequired, dc_reauthentication = NotRequired\<rparr>"

lemma ada_decided: "\<exists>m. authorize shop_host 256 (Some ada_session) (Some read_note) False (ExecutorFirst False False) [] = (Inr ada_decision, m)"
proof -
  have catalog: "kt_application crm_catalog = ''shop''" "kt_lifecycle crm_catalog = 8" "kt_bindings crm_catalog = [(crm_binding, crm_owner)]"
    by (simp_all add: crm_catalog_def assemble_catalog_def Let_def crm_input_def owned_bindings_def crm_parsed_def)
  have "policy_input prod_state ada_session read_note = crm_evaluation"
    by (simp add: policy_input_def prod_state_def ada_session_def read_note_def crm_evaluation_def)
  then have "decide_outcome prod_state crm_catalog ada_session read_note (make_snapshot clerk_data ada_session) False
      (ExecutorFirst False False) (ExtensionOwner crm_owner) = (AllowAccess, Granted)"
    using crm_found crm_executed ada_holds
    by (simp add: decide_outcome_def intersection_holds catalog read_note_def ada_session_def crm_permission_def scope_kind_def crm_binding_def)
  moreover have "decision_schema (ada_decision)" by code_simp
  ultimately have "decide prod_state crm_catalog ada_session read_note (make_snapshot clerk_data ada_session) False
      (ExecutorFirst False False) = Inr ada_decision"
    using crm_found by (simp add: decide_def read_note_def ada_decision_def Let_def prod_state_def ada_session_def)
  moreover have "current_catalog shop_host ada_session prod_state = Inr crm_catalog"
    by (simp add: current_catalog_def shop_host_def ada_session_def prod_state_def catalog_for_lifecycle_def
        catalog_for_application_def catalog)
  ultimately show ?thesis
    by (simp add: authorize_def shop_host_def resolve_authority_def authority_lookup_def)
qed

lemma shop_catalogs: "created_catalogs shop_host"
  using crm_created by (auto simp: created_catalogs_def shop_host_def)

lemma authorize_exact_witness:
  "\<exists>current c d. ho_state shop_host ''shop'' ''prod'' = Some current \<and> current_catalog shop_host ada_session current = Inr c \<and>
     entitled d c current ada_session read_note False (ExecutorFirst False False)"
proof -
  obtain m where "authorize shop_host 256 (Some ada_session) (Some read_note) False (ExecutorFirst False False) [] = (Inr ada_decision, m)"
    using ada_decided by blast
  from authorize_exact [OF this authority_run.empty shop_catalogs]
  show ?thesis by (auto simp: ada_session_def ada_decision_def)
qed

lemma retired_grants_stay_without_effect_witness:
  "\<not> holds (clerk_data\<lparr>ah_generations := [crm_generation\<lparr>ge_state := RetiredGeneration\<rparr>]\<rparr>) (UserSubject ''ada'') ''crm.notes.read''
     (ExtensionOwner crm_owner)"
proof -
  let ?row = "crm_generation\<lparr>ge_state := RetiredGeneration\<rparr>"
  have "extension_owner_schema crm_owner" by code_simp
  moreover have "fences_of [?row] (xo_generation crm_owner) = Some (RetiredGeneration, [''crm-one''])" by code_simp
  moreover have "numbered [?row]" by simp
  ultimately show ?thesis
    using retired_grants_stay_without_effect [OF plan_history.start, of "[?row]" crm_owner "[''crm-one'']"]
    by (simp add: crm_generation_def)
qed

end
