(* ===== verification/SemverPrecedence.thy ===== *)
theory SemverPrecedence
  imports Identity "HOL-Library.Product_Lexorder"
begin

text \<open>
  Exact versions and their precedence, \<open>packages/contracts/src/identity.ts\<close>. The code compares
  numeric identifiers as texts, so that no identifier loses digits as a JavaScript number; the
  reference is the order of the version triples and pre-release identifiers by value.
\<close>

subsection \<open>Exact versions\<close>

definition is_label :: "string \<Rightarrow> bool" where
  "is_label s \<longleftrightarrow> s \<noteq> [] \<and> list_all (\<lambda>c. is_alnum c \<or> c = CHR ''-'') s"

definition all_digits :: "string \<Rightarrow> bool" where
  "all_digits s \<longleftrightarrow> s \<noteq> [] \<and> list_all is_digit s"

definition numeric_identifier :: "string \<Rightarrow> bool" where
  "numeric_identifier s \<longleftrightarrow> all_digits s \<and> (s = ''0'' \<or> hd s \<noteq> CHR ''0'')"

definition prerelease_identifier :: "string \<Rightarrow> bool" where
  "prerelease_identifier s \<longleftrightarrow> numeric_identifier s \<or> (is_label s \<and> \<not> all_digits s)"

text \<open>The part before the first occurrence of a character, and the part after it if there is one.\<close>

definition before_first :: "char \<Rightarrow> string \<Rightarrow> string" where
  "before_first c s = takeWhile (\<lambda>d. d \<noteq> c) s"

definition after_first :: "char \<Rightarrow> string \<Rightarrow> string option" where
  "after_first c s = (case dropWhile (\<lambda>d. d \<noteq> c) s of [] \<Rightarrow> None | _ # rest \<Rightarrow> Some rest)"

text \<open>\<open>ExactSemverSchema\<close>. No \<open>+\<close> precedes the build metadata and no \<open>-\<close> the pre-release, so the
  expression splits a version where \<open>parseExactSemver\<close> does.\<close>

definition exact_semver :: "string \<Rightarrow> bool" where
  "exact_semver s \<longleftrightarrow> length s \<le> 64 \<and>
     (let version = before_first CHR ''+'' s; core = split_on CHR ''.'' (before_first CHR ''-'' version)
      in length core = 3 \<and> list_all numeric_identifier core
       \<and> (case after_first CHR ''-'' version of None \<Rightarrow> True | Some p \<Rightarrow> list_all prerelease_identifier (split_on CHR ''.'' p))
       \<and> (case after_first CHR ''+'' s of None \<Rightarrow> True | Some b \<Rightarrow> list_all is_label (split_on CHR ''.'' b)))"

record semver =
  sv_core :: "string list"
  sv_prerelease :: "string list"

text \<open>A version that the schema refuses is a \<open>TypeError\<close>.\<close>

datatype semver_error = SemverTypeError

definition parse_semver :: "string \<Rightarrow> semver_error + semver" where
  "parse_semver s =
     (if \<not> exact_semver s then Inl SemverTypeError
      else let version = before_first CHR ''+'' s
           in Inr \<lparr>sv_core = take 3 (split_on CHR ''.'' (before_first CHR ''-'' version)),
                sv_prerelease = (case after_first CHR ''-'' version of None \<Rightarrow> [] | Some p \<Rightarrow> split_on CHR ''.'' p)\<rparr>)"

subsection \<open>Precedence\<close>

text \<open>\<open>value.replace(/^0+(?=\d)/u, "")\<close>\<close>

fun strip_zeros :: "string \<Rightarrow> string" where
  "strip_zeros (c # d # cs) = (if c = CHR ''0'' \<and> is_digit d then strip_zeros (d # cs) else c # d # cs)"
| "strip_zeros s = s"

definition compare_numeric :: "string \<Rightarrow> string \<Rightarrow> int" where
  "compare_numeric l r =
     (let x = strip_zeros l; y = strip_zeros r
      in if length x \<noteq> length y then (if length x < length y then -1 else 1)
         else if x = y then 0 else if x < y then -1 else 1)"

fun compare_core :: "string list \<Rightarrow> string list \<Rightarrow> int" where
  "compare_core (x # xs) (y # ys) = (let c = compare_numeric x y in if c \<noteq> 0 then c else compare_core xs ys)"
| "compare_core xs ys = 0"

fun compare_identifiers :: "string list \<Rightarrow> string list \<Rightarrow> int" where
  "compare_identifiers [] [] = 0"
| "compare_identifiers [] (y # ys) = -1"
| "compare_identifiers (x # xs) [] = 1"
| "compare_identifiers (x # xs) (y # ys) =
     (if x = y then compare_identifiers xs ys
      else if all_digits x \<and> all_digits y then compare_numeric x y
      else if all_digits x \<noteq> all_digits y then (if all_digits x then -1 else 1)
      else if x < y then -1 else 1)"

definition compare_parsed :: "semver \<Rightarrow> semver \<Rightarrow> int" where
  "compare_parsed l r =
     (let c = compare_core (sv_core l) (sv_core r); p = sv_prerelease l; q = sv_prerelease r
      in if c \<noteq> 0 then c
         else if p = [] \<or> q = [] then (if length p = length q then 0 else if p = [] then 1 else -1)
         else compare_identifiers p q)"

definition compare_precedence :: "string \<Rightarrow> string \<Rightarrow> semver_error + int" where
  "compare_precedence l r =
     res_bind (parse_semver l) (\<lambda>first. res_bind (parse_semver r) (\<lambda>second. Inr (compare_parsed first second)))"

subsection \<open>The reference order\<close>

text \<open>Numeric identifiers come before the others and are ordered by value.\<close>

datatype version_identifier = Numeric nat | Alphanumeric string

instantiation version_identifier :: linorder
begin

fun less_version_identifier :: "version_identifier \<Rightarrow> version_identifier \<Rightarrow> bool" where
  "less_version_identifier (Numeric m) (Numeric n) \<longleftrightarrow> m < n"
| "less_version_identifier (Numeric m) (Alphanumeric t) \<longleftrightarrow> True"
| "less_version_identifier (Alphanumeric s) (Numeric n) \<longleftrightarrow> False"
| "less_version_identifier (Alphanumeric s) (Alphanumeric t) \<longleftrightarrow> s < t"

definition less_eq_version_identifier :: "version_identifier \<Rightarrow> version_identifier \<Rightarrow> bool" where
  "less_eq_version_identifier x y \<longleftrightarrow> x = y \<or> x < y"

instance
proof
  fix x y z :: version_identifier
  have trans: "x < z" if "x < y" "y < z" for x y z :: version_identifier
    using that by (cases x; cases y; cases z) auto
  have irrefl: "\<not> x < x" for x :: version_identifier
    by (cases x) auto
  show "x < y \<longleftrightarrow> x \<le> y \<and> \<not> y \<le> x" using trans [of x y x] irrefl by (auto simp: less_eq_version_identifier_def)
  show "x \<le> x" by (simp add: less_eq_version_identifier_def)
  show "x \<le> y \<Longrightarrow> y \<le> z \<Longrightarrow> x \<le> z" using trans [of x y z] by (auto simp: less_eq_version_identifier_def)
  show "x \<le> y \<Longrightarrow> y \<le> x \<Longrightarrow> x = y" using trans [of x y x] irrefl by (auto simp: less_eq_version_identifier_def)
  show "x \<le> y \<or> y \<le> x" by (cases x; cases y) (auto simp: less_eq_version_identifier_def)
qed

end

definition digit_number :: "char \<Rightarrow> nat" where
  "digit_number c = of_char c - 48"

definition digits_nat :: "string \<Rightarrow> nat" where
  "digits_nat s = foldl (\<lambda>n c. 10 * n + digit_number c) 0 s"

definition identifier_of :: "string \<Rightarrow> version_identifier" where
  "identifier_of s = (if all_digits s then Numeric (digits_nat s) else Alphanumeric s)"

text \<open>A version without a pre-release comes after those with one.\<close>

definition precedence :: "semver \<Rightarrow> nat list \<times> bool \<times> version_identifier list" where
  "precedence v = (map digits_nat (sv_core v), sv_prerelease v = [], map identifier_of (sv_prerelease v))"

definition order_sign :: "'a :: linorder \<Rightarrow> 'a \<Rightarrow> int" where
  "order_sign x y = (if x < y then -1 else if x = y then 0 else 1)"

subsection \<open>Texts of digits\<close>

lemma digit_number: "is_digit c \<Longrightarrow> digit_number c \<le> 9 \<and> of_char c = digit_number c + 48"
  by (auto simp: is_digit_def less_eq_char_def digit_number_def)

lemma digit_number_order:
  assumes "is_digit c" "is_digit d"
  shows "(c < d \<longleftrightarrow> digit_number c < digit_number d) \<and> (c = d \<longleftrightarrow> digit_number c = digit_number d)"
proof -
  have "c = d \<longleftrightarrow> (of_char c :: nat) = of_char d" by simp
  then show ?thesis using digit_number [OF assms(1)] digit_number [OF assms(2)] by (simp add: less_char_def)
qed

lemma digits_foldl: "foldl (\<lambda>n c. 10 * n + digit_number c) m s = m * 10 ^ length s + digits_nat s"
proof (induction s arbitrary: m)
  case (Cons c s)
  show ?case
    using Cons.IH [of "10 * m + digit_number c"] Cons.IH [of "digit_number c"] by (simp add: digits_nat_def algebra_simps)
qed (simp add: digits_nat_def)

lemma digits_nat_Cons: "digits_nat (c # s) = digit_number c * 10 ^ length s + digits_nat s"
  using digits_foldl [of "digit_number c" s] by (simp add: digits_nat_def)

text \<open>A smaller leading digit decides.\<close>

lemma leading_digit_less:
  assumes "a < b" "m < 10 ^ k"
  shows "a * 10 ^ k + m < b * 10 ^ k + (n :: nat)"
proof -
  have "(a + 1) * 10 ^ k \<le> b * 10 ^ k" using assms(1) by (intro mult_right_mono) simp_all
  then show ?thesis using assms(2) by simp
qed

lemma digits_nat_bound: "list_all is_digit s \<Longrightarrow> digits_nat s < 10 ^ length s"
proof (induction s)
  case (Cons c s)
  then have "digit_number c * 10 ^ length s + digits_nat s < 10 * 10 ^ length s + 0"
    using digit_number [of c] by (intro leading_digit_less) simp_all
  then show ?case by (simp add: digits_nat_Cons)
qed (simp add: digits_nat_def)

lemma digits_nat_less:
  assumes "list_all is_digit s" "list_all is_digit t" "length s = length t"
  shows "(s < t \<longleftrightarrow> digits_nat s < digits_nat t) \<and> (s = t \<longleftrightarrow> digits_nat s = digits_nat t)"
  using assms(3,1,2)
proof (induction rule: list_induct2)
  case (Cons c s d t)
  have bounds: "digits_nat s < 10 ^ length t" "digits_nat t < 10 ^ length t"
    using Cons.prems Cons.hyps digits_nat_bound [of s] digits_nat_bound [of t] by simp_all
  have order: "(c < d \<longleftrightarrow> digit_number c < digit_number d) \<and> (c = d \<longleftrightarrow> digit_number c = digit_number d)"
    using Cons.prems digit_number_order by simp
  note less = leading_digit_less [OF _ bounds(1), of "digit_number c" "digit_number d" "digits_nat t"]
  note greater = leading_digit_less [OF _ bounds(2), of "digit_number d" "digit_number c" "digits_nat s"]
  consider "digit_number c < digit_number d" | "digit_number c = digit_number d" | "digit_number d < digit_number c"
    by linarith
  then show ?case
  proof cases
    case 2
    then show ?thesis using order Cons by (simp add: digits_nat_Cons)
  qed (use order less greater Cons.hyps in \<open>simp_all add: digits_nat_Cons\<close>)
qed (simp add: digits_nat_def)

lemma strip_zeros_digits:
  "all_digits s \<Longrightarrow> all_digits (strip_zeros s) \<and> digits_nat (strip_zeros s) = digits_nat s
     \<and> (length (strip_zeros s) = 1 \<or> hd (strip_zeros s) \<noteq> CHR ''0'')"
proof (induction s rule: strip_zeros.induct)
  case (1 c d cs)
  then show ?case by (auto simp: all_digits_def digits_nat_Cons digit_number_def)
qed (simp_all add: all_digits_def)

lemma leading_digit:
  assumes "all_digits s" "length s = 1 \<or> hd s \<noteq> CHR ''0''" "1 < length s"
  shows "10 ^ (length s - 1) \<le> digits_nat s"
proof -
  obtain c cs where s: "s = c # cs" using assms(3) by (cases s) simp_all
  have "is_digit c" "c \<noteq> CHR ''0''" using assms by (auto simp: s all_digits_def)
  then have "digit_number c \<noteq> digit_number CHR ''0''" using digit_number_order [of c "CHR ''0''"] by (simp add: is_digit_def less_eq_char_def)
  then have "1 \<le> digit_number c" by (simp add: digit_number_def)
  then obtain k where "digit_number c = Suc k" by (metis Suc_le_D One_nat_def)
  then show ?thesis by (simp add: s digits_nat_Cons)
qed

lemma shorter_is_less:
  assumes "all_digits s" "all_digits t" "length t = 1 \<or> hd t \<noteq> CHR ''0''" "length s < length t"
  shows "digits_nat s < digits_nat t"
proof -
  have "1 < length t" using assms(1,4) by (cases s) (auto simp: all_digits_def)
  then have "10 ^ (length t - 1) \<le> digits_nat t" using leading_digit assms(2,3) by blast
  moreover have "digits_nat s < 10 ^ length s" using assms(1) digits_nat_bound by (simp add: all_digits_def)
  moreover have "(10 ^ length s :: nat) \<le> 10 ^ (length t - 1)" using assms(4) by (intro power_increasing) simp_all
  ultimately show ?thesis by linarith
qed

lemma compare_numeric_value:
  assumes "all_digits l" "all_digits r"
  shows "compare_numeric l r = order_sign (digits_nat l) (digits_nat r)"
proof -
  define x y where xy: "x = strip_zeros l" "y = strip_zeros r"
  have x: "all_digits x" "digits_nat x = digits_nat l" "length x = 1 \<or> hd x \<noteq> CHR ''0''"
    and y: "all_digits y" "digits_nat y = digits_nat r" "length y = 1 \<or> hd y \<noteq> CHR ''0''"
    using strip_zeros_digits assms by (simp_all add: xy)
  have same: "(x < y \<longleftrightarrow> digits_nat x < digits_nat y) \<and> (x = y \<longleftrightarrow> digits_nat x = digits_nat y)" if "length x = length y"
    using digits_nat_less that x(1) y(1) by (simp add: all_digits_def)
  show ?thesis
    using same shorter_is_less [OF x(1) y(1,3)] shorter_is_less [OF y(1) x(1,3)]
    unfolding compare_numeric_def xy [symmetric] Let_def order_sign_def x(2) [symmetric] y(2) [symmetric] by auto
qed

subsection \<open>The order of versions\<close>

lemma order_sign_Cons:
  "order_sign (x # xs) (y # ys) = (let c = order_sign x y in if c \<noteq> 0 then c else order_sign xs ys)"
  by (auto simp: order_sign_def Let_def)

lemma order_sign_Pair:
  "order_sign (x, p) (y, q) = (let c = order_sign x y in if c \<noteq> 0 then c else order_sign p q)"
  by (auto simp: order_sign_def Let_def less_prod_def')

lemma numeric_identifier_value:
  assumes "numeric_identifier x" "numeric_identifier y" "digits_nat x = digits_nat y"
  shows "x = y"
proof -
  have lead: "length z = 1 \<or> hd z \<noteq> CHR ''0''" if "numeric_identifier z" for z
    using that by (auto simp: numeric_identifier_def)
  have "length x = length y"
    using shorter_is_less [of x y] shorter_is_less [of y x] lead [OF assms(1)] lead [OF assms(2)] assms
    by (cases rule: linorder_cases [of "length x" "length y"]) (simp_all add: numeric_identifier_def)
  then show ?thesis using digits_nat_less [of x y] assms by (simp add: numeric_identifier_def all_digits_def)
qed

lemma identifier_of_eq:
  "prerelease_identifier x \<Longrightarrow> prerelease_identifier y \<Longrightarrow> identifier_of x = identifier_of y \<longleftrightarrow> x = y"
  using numeric_identifier_value [of x y] by (auto simp: identifier_of_def prerelease_identifier_def)

lemma compare_identifiers_order:
  "list_all prerelease_identifier xs \<Longrightarrow> list_all prerelease_identifier ys \<Longrightarrow>
   compare_identifiers xs ys = order_sign (map identifier_of xs) (map identifier_of ys)"
proof (induction xs ys rule: compare_identifiers.induct)
  case (4 x xs y ys)
  have eq: "identifier_of x = identifier_of y \<longleftrightarrow> x = y" using 4(2,3) identifier_of_eq by simp
  have "order_sign (identifier_of x) (identifier_of y) =
     (if x = y then 0 else if all_digits x \<and> all_digits y then compare_numeric x y
      else if all_digits x \<noteq> all_digits y then (if all_digits x then -1 else 1) else if x < y then -1 else 1)"
    using eq compare_numeric_value [of x y] by (auto simp: order_sign_def identifier_of_def)
  moreover have "compare_numeric x y \<noteq> 0" if "x \<noteq> y" "all_digits x" "all_digits y"
    using eq that by (simp add: compare_numeric_value identifier_of_def order_sign_def)
  ultimately show ?case using 4 by (simp add: order_sign_Cons Let_def)
qed (simp_all add: order_sign_def)

lemma compare_core_order:
  "length xs = length ys \<Longrightarrow> list_all all_digits xs \<Longrightarrow> list_all all_digits ys \<Longrightarrow>
   compare_core xs ys = order_sign (map digits_nat xs) (map digits_nat ys)"
proof (induction xs ys rule: list_induct2)
  case (Cons x xs y ys)
  then show ?case by (simp add: order_sign_Cons compare_numeric_value Let_def)
qed (simp add: order_sign_def)

definition parsed_ok :: "semver \<Rightarrow> bool" where
  "parsed_ok v \<longleftrightarrow> length (sv_core v) = 3 \<and> list_all numeric_identifier (sv_core v)
     \<and> list_all prerelease_identifier (sv_prerelease v)"

lemma parse_semver_ok: "parse_semver s = Inr v \<Longrightarrow> parsed_ok v"
  by (auto simp: parse_semver_def exact_semver_def parsed_ok_def Let_def split: if_splits option.splits)

lemma compare_parsed_order:
  assumes "parsed_ok l" "parsed_ok r"
  shows "compare_parsed l r = order_sign (precedence l) (precedence r)"
proof -
  have core: "compare_core (sv_core l) (sv_core r) = order_sign (map digits_nat (sv_core l)) (map digits_nat (sv_core r))"
    using assms by (intro compare_core_order) (auto simp: parsed_ok_def numeric_identifier_def list_all_iff)
  have pre: "compare_identifiers (sv_prerelease l) (sv_prerelease r) =
      order_sign (map identifier_of (sv_prerelease l)) (map identifier_of (sv_prerelease r))"
    using assms by (intro compare_identifiers_order) (auto simp: parsed_ok_def)
  show ?thesis unfolding compare_parsed_def precedence_def order_sign_Pair core pre Let_def
    by (auto simp: order_sign_def)
qed

text \<open>C29: For exact versions the comparison by texts never fails and gives the order of the version
  triples and pre-release identifiers by value: a version precedes, equals in precedence, or follows
  another exactly as their keys in the reference order do, so the comparison is a total preorder. Every
  other text is a \<open>TypeError\<close>.\<close>

theorem semver_precedence_exact:
  "compare_precedence l r =
     (case (parse_semver l, parse_semver r) of
        (Inr v, Inr w) \<Rightarrow> Inr (order_sign (precedence v) (precedence w))
      | _ \<Rightarrow> Inl SemverTypeError)
   \<and> ((\<exists>v. parse_semver l = Inr v) \<longleftrightarrow> exact_semver l)"
proof -
  have error: "e = SemverTypeError" for e by (cases e)
  have "compare_precedence l r =
     (case (parse_semver l, parse_semver r) of
        (Inr v, Inr w) \<Rightarrow> Inr (order_sign (precedence v) (precedence w)) | _ \<Rightarrow> Inl SemverTypeError)"
    using parse_semver_ok [of l] parse_semver_ok [of r] compare_parsed_order error
    by (auto simp: compare_precedence_def split: sum.splits)
  then show ?thesis by (simp add: parse_semver_def Let_def)
qed

text \<open>Precedence is a total preorder on exact versions.\<close>

definition precedes :: "string \<Rightarrow> string \<Rightarrow> bool" where
  "precedes l r \<longleftrightarrow> (case compare_precedence l r of Inr c \<Rightarrow> c < 0 | Inl _ \<Rightarrow> False)"

lemma compare_precedence_order:
  "compare_precedence l r = Inr c \<longleftrightarrow>
     (\<exists>v w. parse_semver l = Inr v \<and> parse_semver r = Inr w \<and> c = order_sign (precedence v) (precedence w))"
proof -
  have "compare_precedence l r = Inr c \<longleftrightarrow> (\<exists>v w. parse_semver l = Inr v \<and> parse_semver r = Inr w \<and> c = compare_parsed v w)"
    by (auto simp: compare_precedence_def)
  then show ?thesis using compare_parsed_order parse_semver_ok by metis
qed

lemma precedes_order:
  "precedes l r \<longleftrightarrow> (\<exists>v w. parse_semver l = Inr v \<and> parse_semver r = Inr w \<and> precedence v < precedence w)"
proof -
  have "precedes l r \<longleftrightarrow> (\<exists>c. compare_precedence l r = Inr c \<and> c < 0)"
    by (auto simp: precedes_def split: sum.splits)
  moreover have "order_sign x y < 0 \<longleftrightarrow> x < y" for x y :: "nat list \<times> bool \<times> version_identifier list"
    by (auto simp: order_sign_def)
  ultimately show ?thesis unfolding compare_precedence_order by metis
qed

lemma precedes_trans: "precedes s t \<Longrightarrow> precedes t u \<Longrightarrow> precedes s u"
  unfolding precedes_order by (auto intro: less_trans)

lemma precedes_irrefl: "\<not> precedes s s"
  by (auto simp: precedes_order)

end
