(* ===== verification/PluginManager.thy ===== *)
theory PluginManager
  imports AuthorizationLifecycle SemverPrecedence Effects
begin

text \<open>
  The plugin manager, \<open>packages/runtime/src/plugin-manager.ts\<close>: the operations that install, update,
  disable, roll back and remove extensions over a durable store.

  The store, the authorizer, the planner, the artifact pipeline, the composition authority, the
  deployment client and the generation runtime are functions of the host over a world \<open>'w\<close> that may
  throw. Every call of one is an event of a log with its arguments and its outcome. What the manager only
  hands on is a JSON tree. A point in time is the number that \<open>Date.parse\<close> or \<open>valueOf\<close> gives, or
  \<^const>\<open>None\<close> for \<open>NaN\<close>.
\<close>

subsection \<open>Requests, plans and operations\<close>

datatype manager_code =
    InvalidChangeRequest | PlanMismatch | OperationNotFound | WrongExecutionClass | InvalidOperationState
  | ArtifactAuthorityRejected

text \<open>Anything thrown: an error of the manager, an error whose \<open>code\<close> is \<open>VERSION_DOWNGRADE\<close>, or another.\<close>

datatype manager_error = ManagerError manager_code | VersionDowngrade | OtherThrown

datatype authorization_operation = LifecycleOperation operation_kind | EnableOperation | PlanOperation

record change_request =
  chg_application :: string
  chg_environment :: string
  chg_class :: event_class
  chg_extension :: string
  chg_operation :: operation_kind
  chg_version :: string
  chg_expected :: int
  chg_key :: string
  chg_correlation :: string

datatype operation_actor = TrustedAutomation string | NamedActor (actor_id: string) (actor_approval: string)

record authorization_call =
  ask_request :: change_request
  ask_operation :: authorization_operation
  ask_digest :: string

record operation_decision =
  odc_actor :: operation_actor
  odc_id :: string

record extension_install_plan =
  ins_class :: event_class
  ins_extension :: string
  ins_operation_id :: string
  ins_operation :: operation_kind
  ins_version :: string
  ins_expected :: int
  ins_current :: "string option"
  ins_target :: "string option"
  ins_rest :: json

record generation_authority =
  gau_application :: string
  gau_environment :: string
  gau_class :: event_class
  gau_extension :: string
  gau_generation :: string
  gau_commit :: string
  gau_artifact :: string
  gau_manifest :: string
  gau_catalog :: string
  gau_provenance :: string
  gau_sbom :: string

record authority_owner =
  own_application :: string
  own_environment :: string
  own_class :: event_class
  own_extension :: string

record static_generation =
  sgn_generation :: string
  sgn_version :: string
  sgn_commit :: string
  sgn_plan_digest :: string
  sgn_evidence :: string
  sgn_application :: string
  sgn_image :: string
  sgn_migration :: int
  sgn_fencing :: int
  sgn_receipt :: string

record retained_generation = static_generation +
  sgn_host_inventory :: string

record source_change =
  sch_plan_digest :: string
  sch_commit :: string
  sch_change :: json

record deployment_request =
  dpl_digest :: string
  dpl_commit :: string

text \<open>The six shapes of a stored plan. The flag of a static plan is \<open>quarantineRecovery\<close>.\<close>

datatype manager_preparation =
    LiveGeneration | LiveRetained retained_generation | ImpactOnly bool | SourceReady source_change bool
  | Prepared source_change deployment_request bool

record manager_plan =
  pln_preparation :: manager_preparation
  pln_operation :: string
  pln_plan :: extension_install_plan
  pln_commit :: string
  pln_generation :: string

record readiness_lease =
  rdy_generation :: string
  rdy_ready_at :: "int option"
  rdy_expires_at :: "int option"
  rdy_server :: string
  rdy_ui :: string
  rdy_storage :: string

record staged_activation =
  sta_authority :: generation_authority
  sta_version :: string
  sta_readiness :: readiness_lease
  sta_rest :: json

datatype static_operation = PromoteStatic | RollbackStatic | ReserveRetirement | CloseRollback

record static_receipt =
  srt_application :: string
  srt_environment :: string
  srt_operation :: static_operation
  srt_active :: string
  srt_previous :: "string option"
  srt_commit :: string
  srt_plan_digest :: string
  srt_rest :: "(string \<times> json) list"

record plain_receipt =
  prc_operation :: operation_kind
  prc_body :: json

datatype manager_receipt =
    ActivationReceipt plain_receipt | DispositionReceipt plain_receipt | EnableReceipt plain_receipt | StaticReceipt static_receipt

record extension_operation =
  opn_id :: string
  opn_request :: change_request
  opn_digest :: string
  opn_authorization :: operation_decision
  opn_phase :: operation_phase
  opn_lease :: string
  opn_plan :: "manager_plan option"
  opn_authority :: "generation_authority option"
  opn_result :: "manager_receipt option"

datatype operation_claim = Claimed extension_operation | Replayed extension_operation

subsection \<open>The inventory\<close>

datatype retained_disposition = DisabledDisposition | QuarantinedDisposition | RetirementPending

datatype 'g runtime_entry =
    ActiveEntry int 'g "'g option" | RetainedEntry retained_disposition int "'g option" | RemovedEntry int

record dynamic_generation =
  dgn_authority :: generation_authority
  dgn_version :: string

record runtime_inventory =
  rin_host_digest :: string
  rin_plugins :: "(string \<times> static_generation runtime_entry) list"
  rin_hot :: "(string \<times> dynamic_generation runtime_entry) list"
  rin_skins :: "(string \<times> dynamic_generation runtime_entry) list"

datatype inventory_disposition = FreshExtension | ActiveInventory | RetainedInventory retained_disposition | RemovedInventory

record inventory_state =
  ins_revision :: int
  ins_disposition :: inventory_disposition
  ins_current_generation :: "string option"
  ins_rollback_generation :: "string option"
  ins_current_version :: "string option"

definition inventory_entry_state :: "('g \<Rightarrow> string) \<Rightarrow> ('g \<Rightarrow> string) \<Rightarrow> 'g runtime_entry option \<Rightarrow> inventory_state" where
  "inventory_entry_state gen ver entry =
     (case entry of
        None \<Rightarrow> \<lparr>ins_revision = 0, ins_disposition = FreshExtension, ins_current_generation = None,
                 ins_rollback_generation = None, ins_current_version = None\<rparr>
      | Some (RemovedEntry n) \<Rightarrow> \<lparr>ins_revision = n, ins_disposition = RemovedInventory, ins_current_generation = None,
                 ins_rollback_generation = None, ins_current_version = None\<rparr>
      | Some (RetainedEntry d n g) \<Rightarrow> \<lparr>ins_revision = n, ins_disposition = RetainedInventory d,
                 ins_current_generation = map_option gen g, ins_rollback_generation = None, ins_current_version = map_option ver g\<rparr>
      | Some (ActiveEntry n g r) \<Rightarrow> \<lparr>ins_revision = n, ins_disposition = ActiveInventory, ins_current_generation = Some (gen g),
                 ins_rollback_generation = map_option gen r, ins_current_version = Some (ver g)\<rparr>)"

definition dynamic_entries :: "runtime_inventory \<Rightarrow> event_class \<Rightarrow> (string \<times> dynamic_generation runtime_entry) list" where
  "dynamic_entries st c = (if c = HotEvent then rin_hot st else rin_skins st)"

definition extension_inventory_state :: "runtime_inventory \<Rightarrow> event_class \<Rightarrow> string \<Rightarrow> inventory_state" where
  "extension_inventory_state st c i =
     (if c = PluginEvent then inventory_entry_state sgn_generation sgn_version (map_of (rin_plugins st) i)
      else inventory_entry_state (gau_generation \<circ> dgn_authority) dgn_version (map_of (dynamic_entries st c) i))"

definition request_inventory_state :: "runtime_inventory \<Rightarrow> change_request \<Rightarrow> inventory_state" where
  "request_inventory_state st r = extension_inventory_state st (chg_class r) (chg_extension r)"

subsection \<open>Admission\<close>

fun operation_admission :: "inventory_disposition \<Rightarrow> operation_kind \<Rightarrow> authorization_operation option" where
  "operation_admission FreshExtension k = (if k = InstallKind then Some (LifecycleOperation InstallKind) else None)"
| "operation_admission RemovedInventory k = (if k = InstallKind then Some (LifecycleOperation InstallKind) else None)"
| "operation_admission ActiveInventory k =
     (if k \<in> {UpdateKind, DisableKind, RollbackKind, UninstallKind} then Some (LifecycleOperation k) else None)"
| "operation_admission (RetainedInventory DisabledDisposition) k =
     (if k = InstallKind then Some EnableOperation else if k = UninstallKind then Some (LifecycleOperation k) else None)"
| "operation_admission (RetainedInventory QuarantinedDisposition) k =
     (if k \<in> {UpdateKind, UninstallKind} then Some (LifecycleOperation k) else None)"
| "operation_admission (RetainedInventory RetirementPending) k = None"

definition admitted_operations :: "inventory_disposition \<Rightarrow> operation_kind list" where
  "admitted_operations d =
     filter (\<lambda>k. operation_admission d k \<noteq> None) [InstallKind, UpdateKind, DisableKind, RollbackKind, UninstallKind]"

definition admitted_operation :: "change_request \<Rightarrow> inventory_state \<Rightarrow> manager_error + authorization_operation" where
  "admitted_operation r st =
     (case operation_admission (ins_disposition st) (chg_operation r) of
        None \<Rightarrow> Inl (ManagerError InvalidOperationState) | Some k \<Rightarrow> Inr k)"

text \<open>\<open>!generationId\<close>: absent or the empty text.\<close>

definition missing :: "string option \<Rightarrow> bool" where
  "missing g \<longleftrightarrow> g = None \<or> g = Some []"

definition no_active_downgrade :: "change_request \<Rightarrow> inventory_state \<Rightarrow> manager_error + unit" where
  "no_active_downgrade r st =
     (case ins_current_version st of
        None \<Rightarrow> Inr ()
      | Some v \<Rightarrow>
          (case compare_precedence (chg_version r) v of
             Inl _ \<Rightarrow> Inl OtherThrown
           | Inr c \<Rightarrow>
               if (chg_operation r = InstallKind \<and> c < 0)
                \<or> (ins_disposition st \<in> {ActiveInventory, RetainedInventory QuarantinedDisposition} \<and> chg_operation r = UpdateKind
                   \<and> (c < 0 \<or> (c = 0 \<and> \<not> (chg_class r = PluginEvent \<and> ins_disposition st = ActiveInventory))))
               then Inl (ManagerError PlanMismatch) else Inr ()))"

definition retained_reenable :: "change_request \<Rightarrow> inventory_state \<Rightarrow> bool" where
  "retained_reenable r st \<longleftrightarrow> ins_disposition st = RetainedInventory DisabledDisposition \<and> chg_operation r = InstallKind"

definition assert_retained_release :: "change_request \<Rightarrow> inventory_state \<Rightarrow> manager_error + unit" where
  "assert_retained_release r st =
     guard_that (\<not> (retained_reenable r st \<and> Some (chg_version r) \<noteq> ins_current_version st)) (ManagerError PlanMismatch)"

definition assert_can_plan :: "change_request \<Rightarrow> inventory_state \<Rightarrow> manager_error + unit" where
  "assert_can_plan r st =
     res_bind (no_active_downgrade r st) (\<lambda>_.
       guard_that (\<not> (chg_operation r = RollbackKind \<and> (missing (ins_current_generation st) \<or> missing (ins_rollback_generation st))))
         (ManagerError PlanMismatch))"

definition assert_plan_matches :: "change_request \<Rightarrow> extension_install_plan \<Rightarrow> string \<Rightarrow> string \<Rightarrow> inventory_state \<Rightarrow> manager_error + unit" where
  "assert_plan_matches r p operation generation st =
     (if ins_class p \<noteq> chg_class r \<or> ins_extension p \<noteq> chg_extension r \<or> ins_operation p \<noteq> chg_operation r
       \<or> ins_version p \<noteq> chg_version r \<or> ins_expected p \<noteq> chg_expected r \<or> ins_operation_id p \<noteq> operation
       \<or> ins_current p \<noteq> ins_current_generation st \<or> ins_target p \<noteq> Some generation \<or> ins_revision st \<noteq> chg_expected r
      then Inl (ManagerError PlanMismatch)
      else if missing (ins_target p) then Inl (ManagerError PlanMismatch)
      else if retained_reenable r st
      then guard_that (ins_target p = ins_current_generation st) (ManagerError PlanMismatch)
      else if chg_operation r \<in> {InstallKind, UpdateKind}
      then (if ins_target p = ins_current_generation st \<or> ins_target p = ins_rollback_generation st
            then Inl (ManagerError PlanMismatch) else assert_can_plan r st)
      else if chg_operation r = RollbackKind
      then guard_that (\<not> missing (ins_current_generation st) \<and> ins_target p = ins_rollback_generation st) (ManagerError PlanMismatch)
      else if chg_class r = PluginEvent \<and> chg_operation r = UninstallKind
      then guard_that (\<not> missing (ins_current_generation st) \<and> ins_target p \<noteq> ins_current_generation st
             \<and> ins_target p \<noteq> ins_rollback_generation st) (ManagerError PlanMismatch)
      else guard_that (ins_target p = ins_current_generation st) (ManagerError PlanMismatch))"

subsection \<open>Requests, digests and owners\<close>

definition idempotency_text :: "string \<Rightarrow> bool" where
  "idempotency_text s \<longleftrightarrow> 8 \<le> length s \<and> length s \<le> 160 \<and> is_alnum (hd s)
     \<and> list_all (\<lambda>c. is_alnum c \<or> c \<in> set ''._:-'') s"

definition extension_identity :: "event_class \<Rightarrow> string \<Rightarrow> bool" where
  "extension_identity c i \<longleftrightarrow> (case c of PluginEvent \<Rightarrow> plugin_id i | HotEvent \<Rightarrow> hot_application_id i | SkinEvent \<Rightarrow> theme_skin_id i)"

definition manager_environment :: "string \<Rightarrow> bool" where
  "manager_environment s \<longleftrightarrow> 2 \<le> length s \<and> length s \<le> 64 \<and> is_lower (hd s) \<and> list_all lower_digit_dash s"

definition valid_change_request :: "change_request \<Rightarrow> bool" where
  "valid_change_request r \<longleftrightarrow>
     event_record_id (chg_application r) \<and> manager_environment (chg_environment r)
     \<and> extension_identity (chg_class r) (chg_extension r) \<and> exact_semver (chg_version r)
     \<and> is_safe_integer (chg_expected r) \<and> 0 \<le> chg_expected r
     \<and> idempotency_text (chg_key r) \<and> event_record_id (chg_correlation r)"

definition event_class_text :: "event_class \<Rightarrow> string" where
  "event_class_text c = (case c of PluginEvent \<Rightarrow> ''platform-plugin'' | HotEvent \<Rightarrow> ''hot-application'' | SkinEvent \<Rightarrow> ''theme-skin'')"

definition operation_kind_text :: "operation_kind \<Rightarrow> string" where
  "operation_kind_text k = (case k of InstallKind \<Rightarrow> ''install'' | UpdateKind \<Rightarrow> ''update'' | DisableKind \<Rightarrow> ''disable''
     | RollbackKind \<Rightarrow> ''rollback'' | UninstallKind \<Rightarrow> ''uninstall'')"

definition request_json :: "change_request \<Rightarrow> json" where
  "request_json r = JObj
     [(''applicationId'', JStr (chg_application r)), (''environment'', JStr (chg_environment r)),
      (''extension'', JObj [(''deliveryClass'', JStr (event_class_text (chg_class r))), (''id'', JStr (chg_extension r))]),
      (''operation'', JStr (operation_kind_text (chg_operation r))), (''targetVersion'', JStr (chg_version r)),
      (''expectedRevision'', JNum (chg_expected r)), (''idempotencyKey'', JStr (chg_key r)),
      (''correlationId'', JStr (chg_correlation r))]"

definition request_digest :: "change_request \<Rightarrow> manager_error + string" where
  "request_digest r = (if valid_change_request r then Inr (sha256_text (canonical_text (request_json r))) else Inl OtherThrown)"

definition actor_json :: "operation_actor \<Rightarrow> json" where
  "actor_json a = (case a of
       TrustedAutomation i \<Rightarrow> JObj [(''kind'', JStr ''trusted-automation''), (''identity'', JStr i)]
     | NamedActor i p \<Rightarrow> JObj [(''kind'', JStr ''actor''), (''id'', JStr i), (''approvalId'', JStr p)])"

definition actor_matches :: "operation_actor \<Rightarrow> operation_actor \<Rightarrow> bool" where
  "actor_matches l r \<longleftrightarrow> canonical_text (actor_json l) = canonical_text (actor_json r)"

definition authority_json :: "generation_authority \<Rightarrow> json" where
  "authority_json a = JObj
     [(''applicationId'', JStr (gau_application a)), (''environment'', JStr (gau_environment a)),
      (''deliveryClass'', JStr (event_class_text (gau_class a))), (''extensionId'', JStr (gau_extension a)),
      (''generationId'', JStr (gau_generation a)), (''sourceCommit'', JStr (gau_commit a)),
      (''artifactDigest'', JStr (gau_artifact a)), (''manifestDigest'', JStr (gau_manifest a)),
      (''catalogDigest'', JStr (gau_catalog a)), (''provenanceDigest'', JStr (gau_provenance a)),
      (''sbomDigest'', JStr (gau_sbom a))]"

text \<open>The manager makes an owner only of a delivery class with live generations.\<close>

definition authority_owner_of :: "change_request \<Rightarrow> manager_error + authority_owner" where
  "authority_owner_of r =
     (if chg_class r = PluginEvent then Inl (ManagerError WrongExecutionClass)
      else Inr \<lparr>own_application = chg_application r, own_environment = chg_environment r,
             own_class = chg_class r, own_extension = chg_extension r\<rparr>)"

definition assert_owner :: "generation_authority \<Rightarrow> authority_owner \<Rightarrow> manager_error + unit" where
  "assert_owner a w =
     guard_that (gau_application a = own_application w \<and> gau_environment a = own_environment w
       \<and> gau_class a = own_class w \<and> gau_extension a = own_extension w) (ManagerError ArtifactAuthorityRejected)"

definition assert_fresh_readiness :: "staged_activation \<Rightarrow> generation_authority \<Rightarrow> string \<Rightarrow> int option \<Rightarrow> manager_error + unit" where
  "assert_fresh_readiness s a version now =
     (let lease = sta_readiness s
      in guard_that (canonical_text (authority_json (sta_authority s)) = canonical_text (authority_json a) \<and> sta_version s = version
           \<and> rdy_generation lease = gau_generation a \<and> rdy_server lease = gau_generation a
           \<and> rdy_ui lease = gau_generation a \<and> rdy_storage lease = gau_generation a
           \<and> rdy_ready_at lease \<noteq> None
           \<and> (case (now, rdy_expires_at lease) of (Some n, Some e) \<Rightarrow> n < e | _ \<Rightarrow> False))
         (ManagerError ArtifactAuthorityRejected))"

definition is_static :: "manager_plan \<Rightarrow> bool" where
  "is_static p \<longleftrightarrow> (case pln_preparation p of LiveGeneration \<Rightarrow> False | LiveRetained _ \<Rightarrow> False | _ \<Rightarrow> True)"

definition retains_static :: "manager_plan \<Rightarrow> bool" where
  "retains_static p \<longleftrightarrow> (case pln_preparation p of LiveRetained _ \<Rightarrow> True | _ \<Rightarrow> False)"

definition prepared_change :: "manager_plan option \<Rightarrow> source_change option" where
  "prepared_change p = (case p of None \<Rightarrow> None | Some q \<Rightarrow> (case pln_preparation q of Prepared change _ _ \<Rightarrow> Some change | _ \<Rightarrow> None))"

definition is_prepared :: "manager_plan option \<Rightarrow> bool" where
  "is_prepared p \<longleftrightarrow> prepared_change p \<noteq> None"

definition assert_static_receipt :: "extension_operation \<Rightarrow> static_receipt \<Rightarrow> manager_error + unit" where
  "assert_static_receipt current receipt =
     (case (opn_plan current, prepared_change (opn_plan current)) of
        (Some p, Some change) \<Rightarrow>
          guard_that (srt_application receipt = chg_application (opn_request current)
            \<and> srt_environment receipt = chg_environment (opn_request current)
            \<and> srt_active receipt = pln_generation p \<and> srt_commit receipt = sch_commit change
            \<and> srt_plan_digest receipt = sch_plan_digest change
            \<and> srt_operation receipt = (if chg_operation (opn_request current) = RollbackKind then RollbackStatic else PromoteStatic)
            \<and> \<not> (chg_operation (opn_request current) = UninstallKind
                  \<and> (srt_previous receipt \<noteq> ins_current (pln_plan p) \<or> Some (srt_active receipt) = srt_previous receipt)))
            (ManagerError PlanMismatch)
      | _ \<Rightarrow> Inl (ManagerError PlanMismatch))"

definition static_operation_text :: "static_operation \<Rightarrow> string" where
  "static_operation_text k = (case k of PromoteStatic \<Rightarrow> ''promote'' | RollbackStatic \<Rightarrow> ''rollback''
     | ReserveRetirement \<Rightarrow> ''reserve-rollback-retirement'' | CloseRollback \<Rightarrow> ''close-rollback'')"

definition static_receipt_json :: "static_receipt \<Rightarrow> json" where
  "static_receipt_json t = JObj
     ([(''applicationId'', JStr (srt_application t)), (''environment'', JStr (srt_environment t)),
       (''operation'', JStr (static_operation_text (srt_operation t))), (''activeGenerationId'', JStr (srt_active t)),
       (''sourceCommit'', JStr (srt_commit t)), (''compositionChangePlanDigest'', JStr (srt_plan_digest t))]
      @ (case srt_previous t of None \<Rightarrow> [] | Some g \<Rightarrow> [(''previousGenerationId'', JStr g)]) @ srt_rest t)"

definition receipt_operation_text :: "manager_receipt \<Rightarrow> string" where
  "receipt_operation_text t = (case t of
       ActivationReceipt p \<Rightarrow> operation_kind_text (prc_operation p) | DispositionReceipt p \<Rightarrow> operation_kind_text (prc_operation p)
     | EnableReceipt p \<Rightarrow> operation_kind_text (prc_operation p) | StaticReceipt s \<Rightarrow> static_operation_text (srt_operation s))"

definition dynamic_plan :: "manager_plan \<Rightarrow> manager_error + manager_plan" where
  "dynamic_plan p =
     (if is_static p \<or> ins_class (pln_plan p) = PluginEvent then Inl (ManagerError WrongExecutionClass) else Inr p)"

definition retained_static_generation :: "runtime_inventory \<Rightarrow> string \<Rightarrow> manager_error + retained_generation" where
  "retained_static_generation stock i =
     (case map_of (rin_plugins stock) i of
        Some (RetainedEntry DisabledDisposition _ (Some g)) \<Rightarrow> Inr (static_generation.extend g \<lparr>sgn_host_inventory = rin_host_digest stock\<rparr>)
      | _ \<Rightarrow> Inl (ManagerError PlanMismatch))"

subsection \<open>The host and the log of its calls\<close>

datatype manager_mutation =
    SavePlan string string manager_plan | SaveStatic string string manager_plan
  | Transition string string operation_phase operation_phase "generation_authority option"
  | StageGeneration string string staged_activation | RefreshReadiness string string staged_activation
  | Activate string string | Enable string string | RollBack string string staged_activation
  | CompleteStatic string string static_receipt | Disable string string | Uninstall string string

record planning_request =
  pnr_request :: change_request
  pnr_operation :: string
  pnr_current :: "string option"
  pnr_rollback :: "string option"

record planned_change =
  pnd_plan :: "extension_install_plan unknown"
  pnd_commit :: string
  pnd_generation :: string

text \<open>Every event has the outcome of its call, \<^const>\<open>None\<close> where it threw.\<close>

datatype manager_event =
    InventoryRead string string "runtime_inventory option"
  | Authorized authorization_call "operation_decision option"
  | PlanValidated change_request "unit option"
  | ExpiredReconciled "int option"
  | ClaimMade change_request "operation_claim option"
  | OperationResumed string "extension_operation option"
  | OperationRead string "extension_operation option option"
  | ChangePlanned planning_request "planned_change option"
  | SourceChanged string "source_change option"
  | DeploymentRequested string "deployment_request option"
  | ArtifactStaged extension_install_plan "generation_authority option"
  | ArtifactVerified generation_authority "bool option"
  | StaticVerified static_generation "bool option"
  | GenerationPrepared generation_authority "staged_activation option"
  | Mutated manager_mutation "extension_operation option"
  | Finished manager_mutation "manager_receipt option"

type_synonym ('w, 'a) manager_effect = "'w \<Rightarrow> (manager_error + 'a) \<times> 'w"

record 'w manager_host =
  mho_worker :: string
  mho_inventory :: "string \<Rightarrow> string \<Rightarrow> ('w, runtime_inventory) manager_effect"
  mho_authorize :: "authorization_call \<Rightarrow> ('w, operation_decision) manager_effect"
  mho_validate :: "change_request \<Rightarrow> ('w, unit) manager_effect"
  mho_reconcile :: "string \<Rightarrow> string \<Rightarrow> ('w, int) manager_effect"
  mho_claim :: "change_request \<Rightarrow> string \<Rightarrow> operation_decision \<Rightarrow> string \<Rightarrow> ('w, operation_claim) manager_effect"
  mho_resume :: "string \<Rightarrow> string \<Rightarrow> ('w, extension_operation) manager_effect"
  mho_read :: "string \<Rightarrow> ('w, extension_operation option) manager_effect"
  mho_plan :: "planning_request \<Rightarrow> ('w, planned_change) manager_effect"
  mho_source_change :: "extension_operation \<Rightarrow> operation_decision \<Rightarrow> ('w, source_change) manager_effect"
  mho_deploy :: "source_change \<Rightarrow> operation_decision \<Rightarrow> string \<Rightarrow> ('w, deployment_request) manager_effect"
  mho_stage_artifact :: "extension_install_plan \<Rightarrow> authority_owner \<Rightarrow> ('w, generation_authority) manager_effect"
  mho_verify :: "generation_authority \<Rightarrow> authority_owner \<Rightarrow> ('w, bool) manager_effect"
  mho_verify_static :: "static_generation \<Rightarrow> ('w, bool) manager_effect"
  mho_prepare :: "(change_request \<Rightarrow> manager_plan \<Rightarrow> generation_authority \<Rightarrow> ('w, staged_activation) manager_effect) option"
  mho_mutate :: "manager_mutation \<Rightarrow> ('w, extension_operation) manager_effect"
  mho_finish :: "manager_mutation \<Rightarrow> ('w, manager_receipt) manager_effect"
  mho_now :: "'w \<Rightarrow> int option"

record 'w manager_run =
  mrn_world :: 'w
  mrn_log :: "manager_event list"

type_synonym ('w, 'a) manager_step = "('w manager_run, manager_error, 'a) throwing_step"

definition call_host :: "('a option \<Rightarrow> manager_event) \<Rightarrow> ('w, 'a) manager_effect \<Rightarrow> ('w, 'a) manager_step" where
  "call_host event f s =
     (case f (mrn_world s) of (r, w) \<Rightarrow>
        (r, s\<lparr>mrn_world := w, mrn_log := mrn_log s @ [event (case r of Inl _ \<Rightarrow> None | Inr a \<Rightarrow> Some a)]\<rparr>))"

definition require :: "bool \<Rightarrow> manager_code \<Rightarrow> ('w, unit) manager_step" where
  "require b code = step_of (guard_that b (ManagerError code))"

definition read_inventory :: "'w manager_host \<Rightarrow> string \<Rightarrow> string \<Rightarrow> ('w, runtime_inventory) manager_step" where
  "read_inventory h a e = call_host (InventoryRead a e) (mho_inventory h a e)"

definition ask :: "'w manager_host \<Rightarrow> authorization_call \<Rightarrow> ('w, operation_decision) manager_step" where
  "ask h c = call_host (Authorized c) (mho_authorize h c)"

definition resume :: "'w manager_host \<Rightarrow> string \<Rightarrow> ('w, extension_operation) manager_step" where
  "resume h i = call_host (OperationResumed i) (mho_resume h i (mho_worker h))"

definition read_operation :: "'w manager_host \<Rightarrow> string \<Rightarrow> ('w, extension_operation option) manager_step" where
  "read_operation h i = call_host (OperationRead i) (mho_read h i)"

definition mutate :: "'w manager_host \<Rightarrow> manager_mutation \<Rightarrow> ('w, extension_operation) manager_step" where
  "mutate h m = call_host (Mutated m) (mho_mutate h m)"

definition finish_operation :: "'w manager_host \<Rightarrow> manager_mutation \<Rightarrow> ('w, manager_receipt) manager_step" where
  "finish_operation h m = call_host (Finished m) (mho_finish h m)"

definition verify_artifact :: "'w manager_host \<Rightarrow> generation_authority \<Rightarrow> authority_owner \<Rightarrow> ('w, unit) manager_step" where
  "verify_artifact h a w =
     step_bind (call_host (ArtifactVerified a) (mho_verify h a w)) (\<lambda>ok. require ok ArtifactAuthorityRejected)"

subsection \<open>Authority of an operation\<close>

text \<open>\<open>reauthorize\<close>: every error between the inventory and the answer of the authorizer becomes one.\<close>

definition reauthorize :: "'w manager_host \<Rightarrow> extension_operation \<Rightarrow> ('w, operation_decision) manager_step" where
  "reauthorize h current =
     (let r = opn_request current in
      step_bind (step_of (request_digest r)) (\<lambda>digest.
      step_bind (require (digest = opn_digest current) InvalidOperationState) (\<lambda>_.
      step_bind
        (step_catch
          (step_bind (read_inventory h (chg_application r) (chg_environment r)) (\<lambda>stock.
           step_bind (step_of (admitted_operation r (request_inventory_state stock r))) (\<lambda>k.
           ask h \<lparr>ask_request = r, ask_operation = k, ask_digest = digest\<rparr>)))
          (\<lambda>_. step_throw (ManagerError InvalidOperationState))) (\<lambda>decision.
      step_bind (require (actor_matches (odc_actor decision) (odc_actor (opn_authorization current))) InvalidOperationState) (\<lambda>_.
      step_return decision)))))"

definition completed_receipt :: "'w manager_host \<Rightarrow> string \<Rightarrow> operation_kind list \<Rightarrow> ('w, manager_receipt option) manager_step" where
  "completed_receipt h i kinds =
     step_bind (read_operation h i) (\<lambda>found.
     case found of
       None \<Rightarrow> step_throw (ManagerError OperationNotFound)
     | Some current \<Rightarrow>
         if opn_phase current \<noteq> PhaseCompleted then step_return None
         else (case opn_result current of
                 Some t \<Rightarrow>
                   step_bind (require (chg_operation (opn_request current) \<in> set kinds
                       \<and> receipt_operation_text t = operation_kind_text (chg_operation (opn_request current))) InvalidOperationState) (\<lambda>_.
                   step_return (Some t))
               | None \<Rightarrow> step_throw (ManagerError InvalidOperationState)))"

subsection \<open>\<open>plan\<close>\<close>

definition claim_operation :: "'w manager_host \<Rightarrow> change_request \<Rightarrow> string \<Rightarrow> operation_decision \<Rightarrow> ('w, operation_claim) manager_step" where
  "claim_operation h r digest decision =
     step_catch (call_host (ClaimMade r) (mho_claim h r digest decision (mho_worker h)))
       (\<lambda>e. step_throw (if e = VersionDowngrade then ManagerError PlanMismatch else e))"

definition planning_of :: "change_request \<Rightarrow> string \<Rightarrow> inventory_state \<Rightarrow> planning_request" where
  "planning_of r operation st =
     \<lparr>pnr_request = r, pnr_operation = operation,
      pnr_current = (if missing (ins_current_generation st) then None else ins_current_generation st),
      pnr_rollback = (if missing (ins_rollback_generation st) then None else ins_rollback_generation st)\<rparr>"

definition commit_text :: "string \<Rightarrow> bool" where
  "commit_text s \<longleftrightarrow> length s = 40 \<and> list_all (\<lambda>c. c \<in> set ''0123456789abcdef'') s"

definition checked_plan :: "change_request \<Rightarrow> string \<Rightarrow> inventory_state \<Rightarrow> planned_change \<Rightarrow> manager_error + extension_install_plan" where
  "checked_plan r operation st d =
     (case pnd_plan d of
        None \<Rightarrow> Inl OtherThrown
      | Some p \<Rightarrow>
          res_bind (guard_that (commit_text (pnd_commit d) \<and> event_record_id (pnd_generation d)) (ManagerError PlanMismatch)) (\<lambda>_.
          res_bind (assert_plan_matches r p operation (pnd_generation d) st) (\<lambda>_. Inr p)))"

definition plan_preparation :: "change_request \<Rightarrow> runtime_inventory \<Rightarrow> extension_install_plan \<Rightarrow> planned_change \<Rightarrow> manager_error + manager_preparation" where
  "plan_preparation r stock p d =
     (let st = request_inventory_state stock r in
      if ins_class p \<noteq> PluginEvent then Inr LiveGeneration
      else if ins_operation p = DisableKind then Inr LiveGeneration
      else if ins_operation p = InstallKind \<and> ins_disposition st = RetainedInventory DisabledDisposition
      then res_bind (retained_static_generation stock (chg_extension r)) (\<lambda>g.
           if pnd_commit d \<noteq> sgn_commit g \<or> pnd_generation d \<noteq> sgn_generation g then Inl (ManagerError PlanMismatch)
           else Inr (LiveRetained g))
      else Inr (ImpactOnly (chg_operation r = UpdateKind \<and> ins_disposition st = RetainedInventory QuarantinedDisposition)))"

definition finish_planning :: "'w manager_host \<Rightarrow> change_request \<Rightarrow> runtime_inventory \<Rightarrow> extension_operation \<Rightarrow> ('w, manager_plan) manager_step" where
  "finish_planning h r stock current =
     (let st = request_inventory_state stock r in
      step_bind (step_of (assert_can_plan r st)) (\<lambda>_.
      step_bind (call_host (ChangePlanned (planning_of r (opn_id current) st)) (mho_plan h (planning_of r (opn_id current) st))) (\<lambda>d.
      step_bind (step_of (checked_plan r (opn_id current) st d)) (\<lambda>p.
      step_bind (step_of (plan_preparation r stock p d)) (\<lambda>k.
      let result = \<lparr>pln_preparation = k, pln_operation = opn_id current, pln_plan = p, pln_commit = pnd_commit d,
             pln_generation = pnd_generation d\<rparr> in
      step_bind (mutate h (SavePlan (opn_id current) (opn_lease current) result)) (\<lambda>_. step_return result))))))"

definition resume_claim :: "'w manager_host \<Rightarrow> operation_claim \<Rightarrow> ('w, extension_operation) manager_step" where
  "resume_claim h claim = (case claim of Claimed current \<Rightarrow> step_return current | Replayed current \<Rightarrow> resume h (opn_id current))"

definition planned_already :: "operation_claim \<Rightarrow> manager_plan option" where
  "planned_already claim = (case claim of Claimed _ \<Rightarrow> None | Replayed current \<Rightarrow> opn_plan current)"

definition claim_over :: "operation_claim \<Rightarrow> bool" where
  "claim_over claim \<longleftrightarrow> (case claim of Claimed _ \<Rightarrow> False | Replayed current \<Rightarrow> opn_phase current \<in> {PhaseCompleted, PhaseFailed})"

definition plan_change :: "'w manager_host \<Rightarrow> change_request \<Rightarrow> ('w, manager_plan) manager_step" where
  "plan_change h r =
     step_bind (require (valid_change_request r) InvalidChangeRequest) (\<lambda>_.
     step_bind (step_of (request_digest r)) (\<lambda>digest.
     step_bind (read_inventory h (chg_application r) (chg_environment r)) (\<lambda>stock.
     step_bind (step_of (assert_retained_release r (request_inventory_state stock r))) (\<lambda>_.
     step_bind (step_of (admitted_operation r (request_inventory_state stock r))) (\<lambda>_.
     step_bind (ask h \<lparr>ask_request = r, ask_operation = PlanOperation, ask_digest = digest\<rparr>) (\<lambda>decision.
     step_bind (call_host (PlanValidated r) (mho_validate h r)) (\<lambda>_.
     step_bind (call_host ExpiredReconciled (mho_reconcile h (chg_application r) (chg_environment r))) (\<lambda>_.
     step_bind (claim_operation h r digest decision) (\<lambda>claim.
     case planned_already claim of
       Some p \<Rightarrow> step_return p
     | None \<Rightarrow>
         step_bind (require (\<not> claim_over claim) InvalidOperationState) (\<lambda>_.
         step_bind (resume_claim h claim) (\<lambda>current.
         finish_planning h r stock current)))))))))))"

subsection \<open>Static releases\<close>

definition request_source_change :: "'w manager_host \<Rightarrow> extension_operation \<Rightarrow> manager_plan \<Rightarrow> ('w, extension_operation) manager_step" where
  "request_source_change h current p =
     (case pln_preparation p of
        ImpactOnly q \<Rightarrow>
          step_bind (reauthorize h current) (\<lambda>decision.
          step_bind (call_host (SourceChanged (opn_id current)) (mho_source_change h current decision)) (\<lambda>change.
          mutate h (SaveStatic (opn_id current) (opn_lease current) (p\<lparr>pln_preparation := SourceReady change q\<rparr>))))
      | _ \<Rightarrow> step_return current)"

definition request_deployment :: "'w manager_host \<Rightarrow> extension_operation \<Rightarrow> ('w, extension_operation) manager_step" where
  "request_deployment h current =
     (case opn_plan current of
        None \<Rightarrow> step_return current
      | Some p \<Rightarrow>
          (case pln_preparation p of
             SourceReady change q \<Rightarrow>
               step_bind (reauthorize h current) (\<lambda>decision.
               step_bind (call_host (DeploymentRequested (opn_id current)) (mho_deploy h change decision (opn_id current))) (\<lambda>d.
               mutate h (SaveStatic (opn_id current) (opn_lease current) (p\<lparr>pln_preparation := Prepared change d q\<rparr>))))
           | _ \<Rightarrow> step_return current))"

definition transition_to :: "'w manager_host \<Rightarrow> extension_operation \<Rightarrow> string \<Rightarrow> operation_phase \<Rightarrow> operation_phase \<Rightarrow>
    generation_authority option \<Rightarrow> ('w, extension_operation) manager_step" where
  "transition_to h current i from_phase to_phase a =
     step_bind (reauthorize h current) (\<lambda>_. mutate h (Transition i (opn_lease current) from_phase to_phase a))"

definition checkpoint_static :: "'w manager_host \<Rightarrow> extension_operation \<Rightarrow> ('w, extension_operation) manager_step" where
  "checkpoint_static h stored =
     (if \<not> is_prepared (opn_plan stored) \<or> opn_phase stored \<notin> {PhasePlanning, PhaseSourceChangeRequired} then step_return stored
      else
        step_bind (resume h (opn_id stored)) (\<lambda>current.
        step_bind
          (if opn_phase current = PhasePlanning
           then transition_to h current (opn_id current) PhasePlanning PhaseSourceChangeRequired None else step_return current) (\<lambda>current.
        if opn_phase current = PhaseSourceChangeRequired
        then transition_to h current (opn_id current) PhaseSourceChangeRequired PhaseSourceChangeReady None else step_return current)))"

definition prepare_static :: "'w manager_host \<Rightarrow> string \<Rightarrow> ('w, extension_operation) manager_step" where
  "prepare_static h i =
     step_bind (resume h i) (\<lambda>current.
     case opn_plan current of
       None \<Rightarrow> step_throw (ManagerError WrongExecutionClass)
     | Some p \<Rightarrow>
         step_bind (require (is_static p \<and> chg_operation (opn_request current) \<noteq> DisableKind) WrongExecutionClass) (\<lambda>_.
         if opn_phase current = PhaseCompleted then step_return current
         else
           step_bind (require (opn_phase current \<in> {PhasePlanning, PhaseSourceChangeRequired, PhaseSourceChangeReady})
             InvalidOperationState) (\<lambda>_.
           step_bind (request_source_change h current p) (\<lambda>current.
           step_bind (request_deployment h current) (checkpoint_static h)))))"

definition complete_static :: "'w manager_host \<Rightarrow> string \<Rightarrow> static_receipt \<Rightarrow> ('w, manager_receipt) manager_step" where
  "complete_static h i receipt =
     step_bind (read_operation h i) (\<lambda>found.
     case found of
       None \<Rightarrow> step_throw (ManagerError OperationNotFound)
     | Some persisted \<Rightarrow>
         if opn_phase persisted = PhaseCompleted
         then (case (opn_plan persisted, opn_result persisted) of
                 (Some p, Some (StaticReceipt t)) \<Rightarrow>
                   step_bind (require (is_static p \<and> canonical_text (static_receipt_json t) = canonical_text (static_receipt_json receipt))
                     InvalidOperationState) (\<lambda>_. step_return (StaticReceipt t))
               | _ \<Rightarrow> step_throw (ManagerError InvalidOperationState))
         else
           step_bind (reauthorize h persisted) (\<lambda>_.
           step_bind (resume h i) (\<lambda>current.
           step_bind (require ((case opn_plan current of None \<Rightarrow> False | Some p \<Rightarrow> is_static p)
               \<and> opn_phase current \<in> {PhaseSourceChangeReady, PhaseBuildAttested, PhaseZeroDowntimeEligible, PhaseRollbackWindowOpen})
             InvalidOperationState) (\<lambda>_.
           step_bind (step_of (assert_static_receipt current receipt)) (\<lambda>_.
           step_bind (reauthorize h current) (\<lambda>_.
           finish_operation h (CompleteStatic i (opn_lease current) receipt)))))))"

subsection \<open>Live generations\<close>

definition stage_artifact :: "'w manager_host \<Rightarrow> extension_operation \<Rightarrow> manager_plan \<Rightarrow> authority_owner \<Rightarrow> ('w, generation_authority) manager_step" where
  "stage_artifact h current p w =
     (case opn_authority current of
        Some a \<Rightarrow> step_return a
      | None \<Rightarrow>
          step_bind (reauthorize h current) (\<lambda>_.
          call_host (ArtifactStaged (pln_plan p)) (mho_stage_artifact h (pln_plan p) w)))"

definition stage_operation :: "'w manager_host \<Rightarrow> string \<Rightarrow> ('w, generation_authority) manager_step" where
  "stage_operation h i =
     step_bind (resume h i) (\<lambda>stored.
     case opn_plan stored of
       None \<Rightarrow> step_throw (ManagerError OperationNotFound)
     | Some p \<Rightarrow>
         step_bind (require (\<not> is_static p) WrongExecutionClass) (\<lambda>_.
         step_bind (require (chg_operation (opn_request stored) \<in> {InstallKind, UpdateKind}) InvalidOperationState) (\<lambda>_.
         step_bind (require (opn_phase stored \<in> {PhasePlanning, PhaseDownloading, PhaseVerified, PhaseStaged}) InvalidOperationState) (\<lambda>_.
         step_bind (reauthorize h stored) (\<lambda>_.
         step_bind (step_of (dynamic_plan p)) (\<lambda>live.
         step_bind
           (if opn_phase stored = PhasePlanning then transition_to h stored i PhasePlanning PhaseDownloading None
            else step_return stored) (\<lambda>current.
         step_bind (step_of (authority_owner_of (opn_request current))) (\<lambda>w.
         step_bind (stage_artifact h current live w) (\<lambda>a.
         step_bind (step_of (assert_owner a w)) (\<lambda>_.
         step_bind
           (if opn_phase current = PhaseDownloading then transition_to h current i PhaseDownloading PhaseVerified (Some a)
            else step_return current) (\<lambda>current.
         step_bind (verify_artifact h a w) (\<lambda>_.
         step_bind
           (if opn_phase current = PhaseVerified
            then step_bind (transition_to h current i PhaseVerified PhaseStaged (Some a)) (\<lambda>_. step_return ()) else step_return ()) (\<lambda>_.
         step_return a)))))))))))))"

definition prepare_generation :: "'w manager_host \<Rightarrow> extension_operation \<Rightarrow> manager_plan \<Rightarrow> generation_authority \<Rightarrow> ('w, staged_activation) manager_step" where
  "prepare_generation h current p a =
     (case mho_prepare h of
        None \<Rightarrow> step_throw (ManagerError InvalidOperationState)
      | Some prepare \<Rightarrow> call_host (GenerationPrepared a) (prepare (opn_request current) p a))"

definition warm_generation :: "'w manager_host \<Rightarrow> string \<Rightarrow> extension_operation \<Rightarrow> manager_plan \<Rightarrow> generation_authority \<Rightarrow>
    authority_owner \<Rightarrow> (string \<Rightarrow> string \<Rightarrow> staged_activation \<Rightarrow> manager_mutation) \<Rightarrow> ('w, extension_operation) manager_step" where
  "warm_generation h i current p a w mutation =
     step_bind (verify_artifact h a w) (\<lambda>_.
     step_bind (reauthorize h current) (\<lambda>_.
     step_bind (prepare_generation h current p a) (\<lambda>stage.
     step_bind (reauthorize h current) (\<lambda>_.
     mutate h (mutation i (opn_lease current) stage)))))"

definition activate_live :: "'w manager_host \<Rightarrow> string \<Rightarrow> extension_operation \<Rightarrow> manager_plan \<Rightarrow> generation_authority \<Rightarrow> ('w, manager_receipt) manager_step" where
  "activate_live h i stored p a =
     step_bind (require (mho_prepare h \<noteq> None) InvalidOperationState) (\<lambda>_.
     step_bind (require (chg_class (opn_request stored) \<noteq> PluginEvent) WrongExecutionClass) (\<lambda>_.
     step_bind (reauthorize h stored) (\<lambda>_.
     step_bind (step_of (dynamic_plan p)) (\<lambda>live.
     step_bind (step_of (authority_owner_of (opn_request stored))) (\<lambda>w.
     step_bind (step_of (assert_owner a w)) (\<lambda>_.
     step_bind
       (if opn_phase stored = PhaseStaged then warm_generation h i stored live a w StageGeneration
        else if opn_phase stored = PhaseWarming then warm_generation h i stored live a w RefreshReadiness
        else step_return stored) (\<lambda>current.
     step_bind (require (opn_phase current = PhaseWarming) InvalidOperationState) (\<lambda>_.
     step_bind (reauthorize h current) (\<lambda>_.
     finish_operation h (Activate i (opn_lease current)))))))))))"

definition activate_operation :: "'w manager_host \<Rightarrow> string \<Rightarrow> ('w, manager_receipt) manager_step" where
  "activate_operation h i =
     step_bind (completed_receipt h i [InstallKind, UpdateKind]) (\<lambda>replay.
     case replay of
       Some t \<Rightarrow> step_return t
     | None \<Rightarrow>
         step_bind (resume h i) (\<lambda>current.
         if (case opn_plan current of None \<Rightarrow> False | Some p \<Rightarrow> retains_static p) \<and> chg_class (opn_request current) = PluginEvent
            \<and> chg_operation (opn_request current) = InstallKind \<and> opn_phase current = PhasePlanning
         then step_bind (reauthorize h current) (\<lambda>_. finish_operation h (Enable i (opn_lease current)))
         else (case (opn_plan current, opn_authority current) of
                 (Some p, Some a) \<Rightarrow>
                   step_bind (require (\<not> is_static p \<and> chg_operation (opn_request current) \<in> {InstallKind, UpdateKind})
                     InvalidOperationState) (\<lambda>_. activate_live h i current p a)
               | _ \<Rightarrow> step_throw (ManagerError InvalidOperationState))))"

definition rollback_target :: "runtime_inventory \<Rightarrow> change_request \<Rightarrow> manager_error + generation_authority" where
  "rollback_target stock r =
     (case map_of (dynamic_entries stock (chg_class r)) (chg_extension r) of
        Some (ActiveEntry _ _ (Some g)) \<Rightarrow> Inr (dgn_authority g)
      | _ \<Rightarrow> Inl (ManagerError ArtifactAuthorityRejected))"

definition rollback_live :: "'w manager_host \<Rightarrow> string \<Rightarrow> extension_operation \<Rightarrow> manager_plan \<Rightarrow> ('w, manager_receipt) manager_step" where
  "rollback_live h i current p =
     step_bind (require (mho_prepare h \<noteq> None) InvalidOperationState) (\<lambda>_.
     step_bind (reauthorize h current) (\<lambda>_.
     step_bind (step_of (dynamic_plan p)) (\<lambda>live.
     step_bind (step_of (authority_owner_of (opn_request current))) (\<lambda>w.
     step_bind (read_inventory h (chg_application (opn_request current)) (chg_environment (opn_request current))) (\<lambda>stock.
     step_bind (step_of (rollback_target stock (opn_request current))) (\<lambda>a.
     step_bind (step_of (assert_owner a w)) (\<lambda>_.
     step_bind (require (gau_generation a = pln_generation p) ArtifactAuthorityRejected) (\<lambda>_.
     step_bind (verify_artifact h a w) (\<lambda>_.
     step_bind (reauthorize h current) (\<lambda>_.
     step_bind (prepare_generation h current live a) (\<lambda>stage.
     step_bind (\<lambda>s. (assert_fresh_readiness stage a (ins_version (pln_plan p)) (mho_now h (mrn_world s)), s)) (\<lambda>_.
     step_bind (reauthorize h current) (\<lambda>_.
     finish_operation h (RollBack i (opn_lease current) stage))))))))))))))"

definition rollback_operation :: "'w manager_host \<Rightarrow> string \<Rightarrow> ('w, manager_receipt) manager_step" where
  "rollback_operation h i =
     step_bind (completed_receipt h i [RollbackKind]) (\<lambda>replay.
     case replay of
       Some t \<Rightarrow> step_return t
     | None \<Rightarrow>
         step_bind (resume h i) (\<lambda>current.
         case opn_plan current of
           None \<Rightarrow> step_throw (ManagerError InvalidOperationState)
         | Some p \<Rightarrow>
             step_bind (require (\<not> is_static p \<and> chg_operation (opn_request current) = RollbackKind \<and> opn_phase current = PhasePlanning)
               InvalidOperationState) (\<lambda>_. rollback_live h i current p)))"

subsection \<open>Disabling, removing and reading\<close>

definition disposition_operation :: "'w manager_host \<Rightarrow> string \<Rightarrow> operation_kind \<Rightarrow> ('w, extension_operation) manager_step" where
  "disposition_operation h i k =
     step_bind (resume h i) (\<lambda>current.
     step_bind (require ((case opn_plan current of None \<Rightarrow> False | Some p \<Rightarrow> \<not> is_static p)
         \<and> chg_operation (opn_request current) = k \<and> opn_phase current = PhasePlanning) InvalidOperationState) (\<lambda>_.
     step_bind (require (\<not> (chg_class (opn_request current) = PluginEvent \<and> k = UninstallKind)) WrongExecutionClass) (\<lambda>_.
     step_bind (reauthorize h current) (\<lambda>_. step_return current))))"

definition dispose :: "'w manager_host \<Rightarrow> string \<Rightarrow> operation_kind \<Rightarrow> (string \<Rightarrow> string \<Rightarrow> manager_mutation) \<Rightarrow> ('w, manager_receipt) manager_step" where
  "dispose h i k mutation =
     step_bind (completed_receipt h i [k]) (\<lambda>replay.
     case replay of
       Some t \<Rightarrow> step_return t
     | None \<Rightarrow>
         step_bind (disposition_operation h i k) (\<lambda>current.
         step_bind (reauthorize h current) (\<lambda>_. finish_operation h (mutation i (opn_lease current)))))"

definition disable_operation :: "'w manager_host \<Rightarrow> string \<Rightarrow> ('w, manager_receipt) manager_step" where
  "disable_operation h i = dispose h i DisableKind Disable"

definition uninstall_operation :: "'w manager_host \<Rightarrow> string \<Rightarrow> ('w, manager_receipt) manager_step" where
  "uninstall_operation h i = dispose h i UninstallKind Uninstall"

record validation_report =
  vrp_operation :: string
  vrp_phase :: operation_phase
  vrp_valid :: bool
  vrp_checks :: "string list"

definition validate_operation :: "'w manager_host \<Rightarrow> string \<Rightarrow> ('w, validation_report) manager_step" where
  "validate_operation h i =
     step_bind (read_operation h i) (\<lambda>found.
     case found of
       None \<Rightarrow> step_throw (ManagerError OperationNotFound)
     | Some current \<Rightarrow>
         (case opn_plan current of
            None \<Rightarrow> step_throw (ManagerError OperationNotFound)
          | Some p \<Rightarrow>
              step_bind (reauthorize h current) (\<lambda>_.
              step_bind (require (\<not> is_static p) WrongExecutionClass) (\<lambda>_.
              if chg_class (opn_request current) = PluginEvent \<and> chg_operation (opn_request current) = InstallKind
                \<and> retains_static p \<and> opn_phase current \<in> {PhasePlanning, PhaseCompleted}
              then step_return \<lparr>vrp_operation = i, vrp_phase = opn_phase current, vrp_valid = True,
                     vrp_checks = [''retained-static-generation'', ''host-inventory-binding'']\<rparr>
              else
                step_bind (step_of (authority_owner_of (opn_request current))) (\<lambda>w.
                step_bind
                  (case opn_authority current of
                     None \<Rightarrow> step_return False
                   | Some a \<Rightarrow>
                       step_bind (step_of (assert_owner a w)) (\<lambda>_. call_host (ArtifactVerified a) (mho_verify h a w))) (\<lambda>ok.
                step_return \<lparr>vrp_operation = i, vrp_phase = opn_phase current, vrp_valid = ok,
                  vrp_checks = (if ok then [''verified-bundle'', ''generation-authority''] else [])\<rparr>))))))"

text \<open>The status of an operation has neither its lease nor the decision that authorized it.\<close>

record operation_view =
  opv_id :: string
  opv_request :: change_request
  opv_digest :: string
  opv_actor :: operation_actor
  opv_phase :: operation_phase
  opv_plan :: "manager_plan option"
  opv_result :: "manager_receipt option"

definition operation_status :: "'w manager_host \<Rightarrow> string \<Rightarrow> ('w, operation_view) manager_step" where
  "operation_status h i =
     step_bind (read_operation h i) (\<lambda>found.
     case found of
       None \<Rightarrow> step_throw (ManagerError OperationNotFound)
     | Some current \<Rightarrow>
         step_return \<lparr>opv_id = opn_id current, opv_request = opn_request current, opv_digest = opn_digest current,
           opv_actor = odc_actor (opn_authorization current), opv_phase = opn_phase current, opv_plan = opn_plan current,
           opv_result = opn_result current\<rparr>)"

fun assert_dynamic_entries :: "'w manager_host \<Rightarrow> string \<Rightarrow> string \<Rightarrow> event_class \<Rightarrow>
    (string \<times> dynamic_generation runtime_entry) list \<Rightarrow> ('w, unit) manager_step" where
  "assert_dynamic_entries h a e c [] = step_return ()"
| "assert_dynamic_entries h a e c ((i, entry) # entries) =
     (case entry of
        ActiveEntry _ g _ \<Rightarrow>
          (let w = \<lparr>own_application = a, own_environment = e, own_class = c, own_extension = i\<rparr> in
           step_bind (step_of (assert_owner (dgn_authority g) w)) (\<lambda>_.
           step_bind (verify_artifact h (dgn_authority g) w) (\<lambda>_. assert_dynamic_entries h a e c entries)))
      | _ \<Rightarrow> assert_dynamic_entries h a e c entries)"

fun assert_static_entries :: "'w manager_host \<Rightarrow> (string \<times> static_generation runtime_entry) list \<Rightarrow> ('w, unit) manager_step" where
  "assert_static_entries h [] = step_return ()"
| "assert_static_entries h ((i, entry) # entries) =
     (case entry of
        ActiveEntry _ g _ \<Rightarrow>
          step_bind (call_host (StaticVerified g) (mho_verify_static h g)) (\<lambda>ok.
          step_bind (require ok ArtifactAuthorityRejected) (\<lambda>_. assert_static_entries h entries))
      | _ \<Rightarrow> assert_static_entries h entries)"

definition verified_inventory :: "'w manager_host \<Rightarrow> string \<Rightarrow> string \<Rightarrow> ('w, runtime_inventory) manager_step" where
  "verified_inventory h a e =
     step_bind (read_inventory h a e) (\<lambda>stock.
     step_bind (assert_dynamic_entries h a e HotEvent (rin_hot stock)) (\<lambda>_.
     step_bind (assert_dynamic_entries h a e SkinEvent (rin_skins stock)) (\<lambda>_.
     step_bind (assert_static_entries h (rin_plugins stock)) (\<lambda>_. step_return stock))))"

text \<open>The identity of a worker, \<open>/^[A-Za-z0-9][A-Za-z0-9._:-]{2,159}$/\<close>, and of trusted automation.\<close>

definition worker_id :: "string \<Rightarrow> bool" where
  "worker_id s \<longleftrightarrow> 3 \<le> length s \<and> length s \<le> 160 \<and> is_alnum (hd s) \<and> list_all (\<lambda>c. is_alnum c \<or> c \<in> set ''._:-'') s"

definition new_manager :: "'w manager_host \<Rightarrow> manager_error + 'w manager_host" where
  "new_manager h = (if worker_id (mho_worker h) then Inr h else Inl OtherThrown)"

definition authorization_operation_text :: "authorization_operation \<Rightarrow> string" where
  "authorization_operation_text k = (case k of LifecycleOperation m \<Rightarrow> operation_kind_text m | EnableOperation \<Rightarrow> ''enable'' | PlanOperation \<Rightarrow> ''plan'')"

text \<open>The caller spreads the whole request into the argument of \<open>authorize\<close>.\<close>

definition authorization_json :: "authorization_call \<Rightarrow> json" where
  "authorization_json c =
     (let r = ask_request c in JObj
       [(''applicationId'', JStr (chg_application r)), (''environment'', JStr (chg_environment r)),
        (''extension'', JObj [(''deliveryClass'', JStr (event_class_text (chg_class r))), (''id'', JStr (chg_extension r))]),
        (''operation'', JStr (authorization_operation_text (ask_operation c))), (''targetVersion'', JStr (chg_version r)),
        (''expectedRevision'', JNum (chg_expected r)), (''idempotencyKey'', JStr (chg_key r)),
        (''correlationId'', JStr (chg_correlation r)), (''requestDigest'', JStr (ask_digest c))])"

definition trusted_automation :: "string \<Rightarrow> manager_error + (authorization_call \<Rightarrow> operation_decision)" where
  "trusted_automation identity =
     (if length identity < 1 \<or> length identity > 512 then Inl OtherThrown
      else Inr (\<lambda>c. \<lparr>odc_actor = TrustedAutomation identity,
             odc_id = sha256_text (canonical_text (JObj [(''authority'', JStr identity), (''request'', authorization_json c)]))\<rparr>))"

subsection \<open>Calls\<close>

datatype manager_call =
    CallPlan change_request | CallPrepareStatic string | CallStage string | CallActivate string | CallRollback string
  | CallCompleteStatic string static_receipt | CallDisable string | CallUninstall string | CallValidate string
  | CallOperation string | CallInventory string string

definition new_run :: "'w \<Rightarrow> 'w manager_run" where
  "new_run w = \<lparr>mrn_world = w, mrn_log = []\<rparr>"

text \<open>What a call of a public method does to the world and which calls of the host it makes.\<close>

definition manager_call_run :: "'w manager_host \<Rightarrow> manager_call \<Rightarrow> 'w \<Rightarrow> 'w manager_run" where
  "manager_call_run h c w =
     (case c of
        CallPlan r \<Rightarrow> snd (plan_change h r (new_run w))
      | CallPrepareStatic i \<Rightarrow> snd (prepare_static h i (new_run w))
      | CallStage i \<Rightarrow> snd (stage_operation h i (new_run w))
      | CallActivate i \<Rightarrow> snd (activate_operation h i (new_run w))
      | CallRollback i \<Rightarrow> snd (rollback_operation h i (new_run w))
      | CallCompleteStatic i t \<Rightarrow> snd (complete_static h i t (new_run w))
      | CallDisable i \<Rightarrow> snd (disable_operation h i (new_run w))
      | CallUninstall i \<Rightarrow> snd (uninstall_operation h i (new_run w))
      | CallValidate i \<Rightarrow> snd (validate_operation h i (new_run w))
      | CallOperation i \<Rightarrow> snd (operation_status h i (new_run w))
      | CallInventory a e \<Rightarrow> snd (verified_inventory h a e (new_run w)))"

end
