(* ===== verification/PluginManagerProperties.thy ===== *)
theory PluginManagerProperties
  imports PluginManager CanonicalJsonProperties
begin

text \<open>
  What the plugin manager promises for arbitrary hosts: no claim, plan or change is written to the store
  without a decision of the authorizer, which for every change of an operation directly precedes it, a saved plan is the one that was asked for, and a completed operation is
  only read.
\<close>

subsection \<open>Guarded logs\<close>

text \<open>The operations that the store handed out.\<close>

fun event_operations :: "manager_event \<Rightarrow> extension_operation set" where
  "event_operations (OperationResumed _ (Some u)) = {u}"
| "event_operations (OperationRead _ (Some (Some u))) = {u}"
| "event_operations (Mutated _ (Some u)) = {u}"
| "event_operations (ClaimMade _ (Some (Claimed u))) = {u}"
| "event_operations (ClaimMade _ (Some (Replayed u))) = {u}"
| "event_operations _ = {}"

definition known_operations :: "manager_event list \<Rightarrow> extension_operation set" where
  "known_operations log = \<Union> (event_operations ` set log)"

text \<open>
  The last two calls read the inventory and asked the authorizer for an operation that this inventory
  admits, under the digest that was stored with the request, and the actor of the decision is the actor
  that the operation was planned by.
\<close>

definition reauthorized :: "extension_operation \<Rightarrow> manager_event list \<Rightarrow> bool" where
  "reauthorized u log \<longleftrightarrow>
     (\<exists>pre stock k d. log = pre @ [InventoryRead (chg_application (opn_request u)) (chg_environment (opn_request u)) (Some stock),
          Authorized \<lparr>ask_request = opn_request u, ask_operation = k, ask_digest = opn_digest u\<rparr> (Some d)]
        \<and> operation_admission (ins_disposition (request_inventory_state stock (opn_request u))) (chg_operation (opn_request u)) = Some k
        \<and> request_digest (opn_request u) = Inr (opn_digest u)
        \<and> odc_actor d = odc_actor (opn_authorization u))"

fun mutation_lease :: "manager_mutation \<Rightarrow> string" where
  "mutation_lease (SavePlan _ l _) = l"
| "mutation_lease (SaveStatic _ l _) = l"
| "mutation_lease (Transition _ l _ _ _) = l"
| "mutation_lease (StageGeneration _ l _) = l"
| "mutation_lease (RefreshReadiness _ l _) = l"
| "mutation_lease (Activate _ l) = l"
| "mutation_lease (Enable _ l) = l"
| "mutation_lease (RollBack _ l _) = l"
| "mutation_lease (CompleteStatic _ l _) = l"
| "mutation_lease (Disable _ l) = l"
| "mutation_lease (Uninstall _ l) = l"

text \<open>A static plan is saved after the change or the deployment that was requested under the authority.\<close>

fun requested :: "manager_event \<Rightarrow> bool" where
  "requested (SourceChanged _ (Some _)) = True"
| "requested (DeploymentRequested _ (Some _)) = True"
| "requested _ = False"

text \<open>
  How a call of \<open>plan\<close> begins: the inventory was read, it admits the requested operation, and the authorizer
  allowed the planning of this very request by its digest. Then the planner validated it.
\<close>

definition planning_authorized :: "change_request \<Rightarrow> manager_event list \<Rightarrow> bool" where
  "planning_authorized r log \<longleftrightarrow>
     (\<exists>stock d digest k. log = [InventoryRead (chg_application r) (chg_environment r) (Some stock),
          Authorized \<lparr>ask_request = r, ask_operation = PlanOperation, ask_digest = digest\<rparr> (Some d), PlanValidated r (Some ())]
        \<and> request_digest r = Inr digest
        \<and> operation_admission (ins_disposition (request_inventory_state stock r)) (chg_operation r) = Some k)"

text \<open>
  After the reconciliation of expired operations and nothing else the operation \<open>u\<close> was handed out by the
  claim, or by resuming the unfinished operation that the claim found.
\<close>

definition claimed_under :: "change_request \<Rightarrow> extension_operation \<Rightarrow> manager_event list \<Rightarrow> bool" where
  "claimed_under r u log \<longleftrightarrow>
     (\<exists>before n. planning_authorized r before \<and>
        (log = before @ [ExpiredReconciled (Some n), ClaimMade r (Some (Claimed u))]
         \<or> (\<exists>v. log = before @ [ExpiredReconciled (Some n), ClaimMade r (Some (Replayed v)), OperationResumed (opn_id v) (Some u)])))"

definition mutation_guarded :: "manager_event list \<Rightarrow> manager_mutation \<Rightarrow> bool" where
  "mutation_guarded pre m \<longleftrightarrow>
     (case m of
        SavePlan i l _ \<Rightarrow> (\<exists>u before q c. pre = before @ [ChangePlanned q (Some c)] \<and> claimed_under (pnr_request q) u before
                             \<and> i = opn_id u \<and> l = opn_lease u)
      | SaveStatic _ l _ \<Rightarrow> (\<exists>u before e. u \<in> known_operations before \<and> opn_lease u = l \<and> pre = before @ [e] \<and> requested e \<and> reauthorized u before)
      | _ \<Rightarrow> (\<exists>u \<in> known_operations pre. opn_lease u = mutation_lease m \<and> reauthorized u pre))"

text \<open>The writes are the mutations of an operation, the reconciliation and the claim.\<close>

fun event_guarded :: "manager_event list \<Rightarrow> manager_event \<Rightarrow> bool" where
  "event_guarded pre (Mutated m _) = mutation_guarded pre m"
| "event_guarded pre (Finished m _) = mutation_guarded pre m"
| "event_guarded pre (ExpiredReconciled _) = (\<exists>r. planning_authorized r pre)"
| "event_guarded pre (ClaimMade r _) = (\<exists>before n. pre = before @ [ExpiredReconciled (Some n)] \<and> planning_authorized r before)"
| "event_guarded pre _ = True"

definition log_guarded :: "manager_event list \<Rightarrow> bool" where
  "log_guarded log \<longleftrightarrow> (\<forall>n < length log. event_guarded (take n log) (log ! n))"

lemma log_guarded_Nil [simp]: "log_guarded []"
  by (simp add: log_guarded_def)

lemma log_guarded_snoc [simp]: "log_guarded (log @ [e]) \<longleftrightarrow> log_guarded log \<and> event_guarded log e"
  by (auto simp: log_guarded_def less_Suc_eq nth_append)

lemma known_operations_snoc [simp]: "known_operations (log @ [e]) = event_operations e \<union> known_operations log"
  by (auto simp: known_operations_def)

subsection \<open>Triples\<close>

abbreviation guarded_run :: "'w manager_run \<Rightarrow> bool" where
  "guarded_run s \<equiv> log_guarded (mrn_log s)"

definition knows :: "extension_operation set \<Rightarrow> 'w manager_run \<Rightarrow> bool" where
  "knows us s \<longleftrightarrow> guarded_run s \<and> us \<subseteq> known_operations (mrn_log s)"

definition allowed :: "extension_operation \<Rightarrow> extension_operation set \<Rightarrow> 'w manager_run \<Rightarrow> bool" where
  "allowed u us s \<longleftrightarrow> knows us s \<and> reauthorized u (mrn_log s)"

lemma knows_guarded: "knows us s \<Longrightarrow> guarded_run s"
  by (simp add: knows_def)

lemma allowed_knows: "allowed u us s \<Longrightarrow> knows us s"
  by (simp add: allowed_def)

lemma valid_allowed: "valid (knows us) m Q E \<Longrightarrow> valid (allowed u us) m Q E"
  by (rule valid_weaken [of "knows us" _ Q E]) (auto simp: allowed_def)

lemma valid_call:
  assumes "\<And>s w r. P s \<Longrightarrow> (case r of None \<Rightarrow> E | Some a \<Rightarrow> Q a) (s\<lparr>mrn_world := w, mrn_log := mrn_log s @ [event r]\<rparr>)"
  shows "valid P (call_host event f) Q E"
  unfolding valid_def call_host_def
proof (intro allI impI)
  fix s assume "P s"
  then show "case (case f (mrn_world s) of (r, w) \<Rightarrow>
      (r, s\<lparr>mrn_world := w, mrn_log := mrn_log s @ [event (case r of Inl _ \<Rightarrow> None | Inr a \<Rightarrow> Some a)]\<rparr>))
    of (Inl e, s') \<Rightarrow> E s' | (Inr a, s') \<Rightarrow> Q a s'"
    using assms [of s None] assms [of s "Some _"] by (auto split: prod.splits sum.splits)
qed

lemma valid_step_of: "(\<And>a s. r = Inr a \<Longrightarrow> P s \<Longrightarrow> Q a s) \<Longrightarrow> (\<And>s. P s \<Longrightarrow> E s) \<Longrightarrow> valid P (step_of r) Q E"
  by (auto simp: valid_def step_of_def split: sum.splits)

lemma valid_bind_of:
  assumes "\<And>s. P s \<Longrightarrow> E s" "\<And>a. r = Inr a \<Longrightarrow> valid P (f a) Q E"
  shows "valid P (step_bind (step_of r) f) Q E"
  using assms by (auto simp: valid_def step_bind_def step_of_def split: sum.splits)

lemma valid_bind_require:
  assumes "\<And>s. P s \<Longrightarrow> E s" "b \<Longrightarrow> valid P (f ()) Q E"
  shows "valid P (step_bind (require b c) f) Q E"
  unfolding require_def by (rule valid_bind_of) (use assms in auto)

lemma valid_if: "(b \<Longrightarrow> valid P m Q E) \<Longrightarrow> (\<not> b \<Longrightarrow> valid P n Q E) \<Longrightarrow> valid P (if b then m else n) Q E"
  by simp

lemma valid_option:
  "(v = None \<Longrightarrow> valid P m Q E) \<Longrightarrow> (\<And>a. v = Some a \<Longrightarrow> valid P (f a) Q E) \<Longrightarrow>
   valid P (case v of None \<Rightarrow> m | Some a \<Rightarrow> f a) Q E"
  by (cases v) auto

lemma valid_neutral:
  assumes "\<And>r pre. event_guarded pre (event r)"
  shows "valid (knows us) (call_host event f) (\<lambda>_. knows us) guarded_run"
  by (rule valid_call) (use assms in \<open>auto simp: knows_def split: option.splits\<close>)

lemma actor_matches_eq: "actor_matches l r \<longleftrightarrow> l = r"
proof
  assume "actor_matches l r"
  then have "same_json (actor_json l) (actor_json r)" unfolding actor_matches_def by (rule canonical_text_same)
  then show "l = r"
    using same_json_entry [of _ _ "''kind''"]
    by (cases l; cases r) (auto simp: actor_json_def same_json_record, fastforce+)
qed (simp add: actor_matches_def)

lemma knows_snoc:
  "knows us s \<Longrightarrow> event_guarded (mrn_log s) e \<Longrightarrow> ws \<subseteq> event_operations e \<union> us \<Longrightarrow>
   knows ws (s\<lparr>mrn_world := w, mrn_log := mrn_log s @ [e]\<rparr>)"
  by (auto simp: knows_def)

lemma valid_resume: "valid (knows us) (resume h i) (\<lambda>u. knows (insert u us)) guarded_run"
  unfolding resume_def by (rule valid_call) (auto intro: knows_snoc intro!: knows_guarded split: option.splits)

lemma valid_read: "valid (knows us) (read_operation h i) (\<lambda>found. knows (set_option found \<union> us)) guarded_run"
  unfolding read_operation_def
  by (rule valid_call) (auto intro!: knows_snoc dest: knows_guarded split: option.splits)

lemma valid_return_knows: "u \<in> us \<Longrightarrow> valid (knows us) (step_return u) (\<lambda>u. knows (insert u us)) guarded_run"
  by (auto simp: valid_def step_return_def insert_absorb)

lemma valid_return_guarded: "valid (knows us) (step_return a) (\<lambda>_. guarded_run) guarded_run"
  by (rule valid_return) (rule knows_guarded)

lemma valid_throw_guarded: "valid (knows us) (step_throw e) Q guarded_run"
  by (rule valid_throw) (rule knows_guarded)

lemma guarded_mutation:
  assumes "allowed u us s" "u \<in> us" "mutation_lease m = opn_lease u" "\<forall>i l p. m \<noteq> SavePlan i l p \<and> m \<noteq> SaveStatic i l p"
  shows "mutation_guarded (mrn_log s) m"
proof -
  have "\<exists>u \<in> known_operations (mrn_log s). opn_lease u = mutation_lease m \<and> reauthorized u (mrn_log s)"
    using assms(1-3) by (auto simp: allowed_def knows_def)
  then show ?thesis using assms(4) by (cases m) (simp_all add: mutation_guarded_def)
qed

lemma valid_mutate:
  assumes "u \<in> us" "mutation_lease m = opn_lease u" "\<forall>i l p. m \<noteq> SavePlan i l p \<and> m \<noteq> SaveStatic i l p"
  shows "valid (allowed u us) (mutate h m) (\<lambda>v. knows (insert v us)) guarded_run"
  unfolding mutate_def
proof (rule valid_call)
  fix s :: "'a manager_run" and w r assume s: "allowed u us s"
  then have "event_guarded (mrn_log s) (Mutated m r)" for r using guarded_mutation [OF s assms] by simp
  then show "(case r of None \<Rightarrow> guarded_run | Some v \<Rightarrow> knows (insert v us)) (s\<lparr>mrn_world := w, mrn_log := mrn_log s @ [Mutated m r]\<rparr>)"
    using knows_snoc [OF allowed_knows [OF s], of "Mutated m r"] knows_guarded [OF allowed_knows [OF s]] by (auto split: option.splits)
qed

lemma valid_finish:
  assumes "u \<in> us" "mutation_lease m = opn_lease u" "\<forall>i l p. m \<noteq> SavePlan i l p \<and> m \<noteq> SaveStatic i l p"
  shows "valid (allowed u us) (finish_operation h m) (\<lambda>_. guarded_run) guarded_run"
  unfolding finish_operation_def
proof (rule valid_call)
  fix s :: "'a manager_run" and w r assume s: "allowed u us s"
  then show "(case r of None \<Rightarrow> guarded_run | Some v \<Rightarrow> guarded_run) (s\<lparr>mrn_world := w, mrn_log := mrn_log s @ [Finished m r]\<rparr>)"
    using guarded_mutation [OF s assms] knows_guarded [OF allowed_knows [OF s]] by (simp split: option.splits)
qed

lemma allowed_guarded: "allowed u us s \<Longrightarrow> guarded_run s"
  by (simp add: allowed_def knows_def)

lemma valid_guards:
  "(\<And>a. r = Inr a \<Longrightarrow> valid (knows us) (f a) Q guarded_run) \<Longrightarrow> valid (knows us) (step_bind (step_of r) f) Q guarded_run"
  "(\<And>a. r = Inr a \<Longrightarrow> valid (allowed u us) (f a) Q guarded_run) \<Longrightarrow> valid (allowed u us) (step_bind (step_of r) f) Q guarded_run"
  by (auto intro: valid_bind_of dest: knows_guarded allowed_guarded)

lemma valid_requirements:
  "(b \<Longrightarrow> valid (knows us) (g ()) Q guarded_run) \<Longrightarrow> valid (knows us) (step_bind (require b c) g) Q guarded_run"
  "(b \<Longrightarrow> valid (allowed u us) (g ()) Q guarded_run) \<Longrightarrow> valid (allowed u us) (step_bind (require b c) g) Q guarded_run"
  by (auto intro: valid_bind_require dest: knows_guarded allowed_guarded)

lemma valid_reauthorize: "valid (knows us) (reauthorize (h :: 'w manager_host) u) (\<lambda>_. allowed u us) guarded_run"
proof -
  define r where "r = opn_request u"
  define asked where "asked digest d s \<longleftrightarrow> knows us s \<and>
     (\<exists>pre stock k. mrn_log s = pre @ [InventoryRead (chg_application r) (chg_environment r) (Some stock),
          Authorized \<lparr>ask_request = r, ask_operation = k, ask_digest = digest\<rparr> (Some d)]
        \<and> operation_admission (ins_disposition (request_inventory_state stock r)) (chg_operation r) = Some k)"
    for digest d and s :: "'w manager_run"
  have inventory: "valid (knows us) (read_inventory h (chg_application r) (chg_environment r))
      (\<lambda>stock s. knows us s \<and> (\<exists>pre. mrn_log s = pre @ [InventoryRead (chg_application r) (chg_environment r) (Some stock)]))
      guarded_run" for h :: "'w manager_host"
    unfolding read_inventory_def by (rule valid_call) (auto simp: knows_def split: option.splits)
  have answer: "valid (\<lambda>s. knows us s \<and> (\<exists>pre. mrn_log s = pre @ [InventoryRead (chg_application r) (chg_environment r) (Some stock)]))
      (ask h \<lparr>ask_request = r, ask_operation = k, ask_digest = digest\<rparr>) (asked digest) guarded_run"
    if "admitted_operation r (request_inventory_state stock r) = Inr k" for stock k digest and h :: "'w manager_host"
    unfolding ask_def
    by (rule valid_call) (use that in \<open>auto simp: knows_def asked_def admitted_operation_def split: option.splits\<close>)
  have body: "valid (knows us)
     (step_catch
       (step_bind (read_inventory h (chg_application r) (chg_environment r)) (\<lambda>stock.
        step_bind (step_of (admitted_operation r (request_inventory_state stock r))) (\<lambda>k.
        ask h \<lparr>ask_request = r, ask_operation = k, ask_digest = digest\<rparr>)))
       (\<lambda>_. step_throw (ManagerError InvalidOperationState))) (asked digest) guarded_run" for h :: "'w manager_host" and digest
    by (rule valid_catch [OF valid_bind [OF inventory valid_bind_of [OF _ answer]] valid_throw]) (auto dest: knows_guarded)
  have conclude: "allowed u us s" if "asked (opn_digest u) d s" "request_digest r = Inr (opn_digest u)" "odc_actor d = odc_actor (opn_authorization u)" for d and s :: "'w manager_run"
    using that unfolding asked_def allowed_def reauthorized_def r_def by blast
  have decided: "valid (asked (opn_digest u) d) (step_bind (require (actor_matches (odc_actor d) (odc_actor (opn_authorization u))) InvalidOperationState)
      (\<lambda>_. step_return d)) (\<lambda>_. allowed u us) guarded_run" if "request_digest r = Inr (opn_digest u)" for d
  proof (rule valid_bind_require)
    show "guarded_run s" if "asked (opn_digest u) d s" for s :: "'w manager_run" using that by (auto simp: asked_def dest: knows_guarded)
    assume "actor_matches (odc_actor d) (odc_actor (opn_authorization u))"
    then show "valid (asked (opn_digest u) d) (step_return d) (\<lambda>_. allowed u us) guarded_run"
      using that by (intro valid_return conclude [of d]) (simp_all add: actor_matches_eq)
  qed
  show ?thesis
    unfolding reauthorize_def Let_def r_def [symmetric]
  proof (rule valid_bind_of)
    show "guarded_run s" if "knows us s" for s :: "'w manager_run" using that by (rule knows_guarded)
    fix digest assume digest: "request_digest r = Inr digest"
    show "valid (knows us) (step_bind (require (digest = opn_digest u) InvalidOperationState) (\<lambda>_. step_bind
       (step_catch
         (step_bind (read_inventory h (chg_application r) (chg_environment r)) (\<lambda>stock.
          step_bind (step_of (admitted_operation r (request_inventory_state stock r))) (\<lambda>k.
          ask h \<lparr>ask_request = r, ask_operation = k, ask_digest = digest\<rparr>)))
         (\<lambda>_. step_throw (ManagerError InvalidOperationState)))
       (\<lambda>decision. step_bind (require (actor_matches (odc_actor decision) (odc_actor (opn_authorization u))) InvalidOperationState)
         (\<lambda>_. step_return decision)))) (\<lambda>_. allowed u us) guarded_run"
      by (rule valid_requirements(1), rule valid_bind [OF body]) (use decided digest in auto)
  qed
qed

subsection \<open>The operations\<close>

text \<open>Rules are tried in the order of \<open>manager_rules\<close>; those for a bound test come before the general
  rule for a sequence, and a call that needs no authority is tried with and without it.\<close>

lemma valid_neutral_calls:
  "valid (knows us) (read_inventory h a e) (\<lambda>_. knows us) guarded_run"
  "valid (knows us) (ask h c) (\<lambda>_. knows us) guarded_run"
  "valid (knows us) (call_host (PlanValidated r) f1) (\<lambda>_. knows us) guarded_run"
  "valid (knows us) (call_host (ChangePlanned q) f3) (\<lambda>_. knows us) guarded_run"
  "valid (knows us) (call_host (ArtifactStaged p) f4) (\<lambda>_. knows us) guarded_run"
  "valid (knows us) (call_host (ArtifactVerified ga) f5) (\<lambda>_. knows us) guarded_run"
  "valid (knows us) (call_host (StaticVerified g) f6) (\<lambda>_. knows us) guarded_run"
  "valid (knows us) (call_host (GenerationPrepared ga) f7) (\<lambda>_. knows us) guarded_run"
  unfolding read_inventory_def ask_def by (rule valid_neutral, simp)+

lemma valid_verify: "valid (knows us) (verify_artifact h a w) (\<lambda>_. knows us) guarded_run"
  unfolding verify_artifact_def require_def
  by (rule valid_bind [OF valid_neutral_calls(6) valid_step_of]) (auto dest: knows_guarded)

lemma valid_prepare: "valid (knows us) (prepare_generation h u p a) (\<lambda>_. knows us) guarded_run"
  unfolding prepare_generation_def
  by (cases "mho_prepare h") (simp_all add: valid_throw_guarded valid_neutral_calls)

lemma valid_transition: "u \<in> us \<Longrightarrow> valid (knows us) (transition_to h u i x y a) (\<lambda>v. knows (insert v us)) guarded_run"
  unfolding transition_to_def by (rule valid_bind [OF valid_reauthorize valid_mutate]) simp_all

lemma valid_stage_artifact: "valid (knows us) (stage_artifact h u p w) (\<lambda>_. knows us) guarded_run"
  unfolding stage_artifact_def
  by (cases "opn_authority u")
     (auto intro: valid_return valid_bind [OF valid_reauthorize valid_allowed [OF valid_neutral_calls(5)]])

lemma valid_completed_receipt: "valid (knows us) (completed_receipt h i kinds) (\<lambda>_. knows us) guarded_run"
proof -
  have "valid (knows (set_option found \<union> us))
     (case found of
       None \<Rightarrow> step_throw (ManagerError OperationNotFound)
     | Some current \<Rightarrow>
         if opn_phase current \<noteq> PhaseCompleted then step_return None
         else (case opn_result current of
                 Some t \<Rightarrow>
                   step_bind (require (chg_operation (opn_request current) \<in> set kinds
                       \<and> receipt_operation_text t = operation_kind_text (chg_operation (opn_request current))) InvalidOperationState) (\<lambda>_.
                   step_return (Some t))
               | None \<Rightarrow> step_throw (ManagerError InvalidOperationState)))
     (\<lambda>_. knows us) guarded_run" for found
    by (auto intro!: valid_throw_guarded valid_return valid_bind_require dest: knows_guarded simp: knows_def split: option.split)
  then show ?thesis unfolding completed_receipt_def by (rule valid_bind [OF valid_read])
qed

lemmas manager_rules = valid_guards valid_requirements valid_bind valid_if valid_option
  valid_resume valid_reauthorize valid_mutate valid_finish valid_transition valid_verify valid_prepare
  valid_stage_artifact valid_completed_receipt valid_neutral_calls valid_return_knows valid_return_guarded valid_throw_guarded

lemma valid_warm:
  assumes "u \<in> us" "\<And>x. mutation_lease (mutation i (opn_lease u) x) = opn_lease u"
    "\<And>x. \<forall>j l p. mutation i (opn_lease u) x \<noteq> SavePlan j l p \<and> mutation i (opn_lease u) x \<noteq> SaveStatic j l p"
  shows "valid (knows us) (warm_generation h i u p a w mutation) (\<lambda>v. knows (insert v us)) guarded_run"
  unfolding warm_generation_def
  by (rule valid_bind [OF valid_verify valid_bind [OF valid_reauthorize valid_bind [OF valid_allowed [OF valid_prepare]
        valid_bind [OF valid_reauthorize valid_mutate]]]]) (use assms in auto)

lemma valid_warm_stage: "u \<in> us \<Longrightarrow> valid (knows us) (warm_generation h i u p a w StageGeneration) (\<lambda>v. knows (insert v us)) guarded_run"
  by (rule valid_warm) simp_all

lemma valid_warm_refresh: "u \<in> us \<Longrightarrow> valid (knows us) (warm_generation h i u p a w RefreshReadiness) (\<lambda>v. knows (insert v us)) guarded_run"
  by (rule valid_warm) simp_all

lemma valid_activate_live:
  assumes "u \<in> us"
  shows "valid (knows us) (activate_live h i u p a) (\<lambda>_. guarded_run) guarded_run"
  unfolding activate_live_def
  by (rule manager_rules valid_warm_stage valid_warm_refresh valid_allowed | simp (no_asm_simp) only: assms insertI1 mutation_lease.simps
      | simp; fail)+

text \<open>What is left of a goal after the rules is that an operation is known or that a mutation has its lease.\<close>

lemma valid_activate:
  "valid (knows us) (activate_operation h i) (\<lambda>_. guarded_run) guarded_run"
proof -
  have live: "valid (knows (insert u us)) (activate_live h i u p a) (\<lambda>_. guarded_run) guarded_run" for u p a and us and h :: "'w manager_host"
    by (rule valid_activate_live) simp
  have resumed: "valid (knows (insert u us))
     (if (case opn_plan u of None \<Rightarrow> False | Some p \<Rightarrow> retains_static p) \<and> chg_class (opn_request u) = PluginEvent
            \<and> chg_operation (opn_request u) = InstallKind \<and> opn_phase u = PhasePlanning
         then step_bind (reauthorize h u) (\<lambda>_. finish_operation h (Enable i (opn_lease u)))
         else (case (opn_plan u, opn_authority u) of
                 (Some p, Some a) \<Rightarrow>
                   step_bind (require (\<not> is_static p \<and> chg_operation (opn_request u) \<in> {InstallKind, UpdateKind})
                     InvalidOperationState) (\<lambda>_. activate_live h i u p a)
               | _ \<Rightarrow> step_throw (ManagerError InvalidOperationState)))
     (\<lambda>_. guarded_run) guarded_run" for u
    by (cases "opn_plan u"; cases "opn_authority u")
       (auto intro!: valid_throw_guarded valid_requirements live valid_bind [OF valid_reauthorize valid_finish])
  show ?thesis unfolding activate_operation_def
    by (rule valid_bind [OF valid_completed_receipt valid_option [OF valid_bind [OF valid_resume resumed] valid_return_guarded]])
qed

lemma valid_rollback_live:
  assumes "u \<in> us"
  shows "valid (knows us) (rollback_live h i u p) (\<lambda>_. guarded_run) guarded_run"
proof -
  have fresh: "valid (knows us) (\<lambda>s. (assert_fresh_readiness stage a v (mho_now h (mrn_world s)), s)) (\<lambda>_. knows us) guarded_run"
    for stage a v
    by (auto simp: valid_def knows_guarded split: sum.splits)
  show ?thesis unfolding rollback_live_def
    by (rule manager_rules fresh valid_allowed | simp (no_asm_simp) only: assms insertI1 mutation_lease.simps | simp; fail)+
qed

lemma valid_rollback: "valid (knows us) (rollback_operation h i) (\<lambda>_. guarded_run) guarded_run"
  unfolding rollback_operation_def by (rule manager_rules valid_rollback_live valid_allowed | simp; fail)+

lemma valid_dispose:
  assumes "\<And>x. mutation_lease (mutation i x) = x" "\<And>x. \<forall>j l p. mutation i x \<noteq> SavePlan j l p \<and> mutation i x \<noteq> SaveStatic j l p"
  shows "valid (knows us) (dispose h i k mutation) (\<lambda>_. guarded_run) guarded_run"
proof -
  have "valid (knows us) (disposition_operation h i k) (\<lambda>u. knows (insert u us)) guarded_run" for us and h :: "'w manager_host"
    unfolding disposition_operation_def
    by (intro valid_bind [OF valid_resume valid_requirements(1) [OF valid_requirements(1) [OF valid_bind [OF valid_reauthorize valid_return]]]])
       (simp add: allowed_knows)
  note disposed = valid_bind [OF this valid_bind [OF valid_reauthorize valid_finish]]
  show ?thesis unfolding dispose_def
    by (intro valid_bind [OF valid_completed_receipt] valid_option valid_return_guarded disposed) (use assms in auto)
qed

lemma valid_last_transition:
  assumes "u \<in> us"
  shows "valid (knows us) (if b then step_bind (transition_to h u i x y a) (\<lambda>_. step_return ()) else step_return ()) (\<lambda>_. knows us) guarded_run"
  using assms by (auto intro!: valid_return valid_bind [OF valid_transition] simp: knows_def)

lemma valid_stage: "valid (knows us) (stage_operation h i) (\<lambda>_. guarded_run) guarded_run"
  unfolding stage_operation_def
  by (rule valid_guards valid_requirements valid_bind valid_last_transition manager_rules valid_allowed | simp (no_asm_simp) only: insertI1 | simp; fail)+

text \<open>A change or a deployment was requested under the authority, and nothing happened since.\<close>

definition just_requested :: "extension_operation \<Rightarrow> extension_operation set \<Rightarrow> 'w manager_run \<Rightarrow> bool" where
  "just_requested u us s \<longleftrightarrow> knows us s \<and>
     (\<exists>before e. mrn_log s = before @ [e] \<and> u \<in> known_operations before \<and> requested e \<and> reauthorized u before)"

lemma valid_request:
  assumes "u \<in> us" "\<And>a. requested (event (Some a))" "\<And>r pre. event_guarded pre (event r)"
  shows "valid (allowed u us) (call_host event f) (\<lambda>_. just_requested u us) guarded_run"
  by (rule valid_call) (use assms in \<open>auto simp: allowed_def just_requested_def knows_def split: option.splits\<close>)

lemma valid_save_static:
  "valid (just_requested u us) (mutate h (SaveStatic i (opn_lease u) p)) (\<lambda>v. knows (insert v us)) guarded_run"
  unfolding mutate_def
proof (rule valid_call)
  fix s :: "'a manager_run" and w r assume s: "just_requested u us s"
  then have "mutation_guarded (mrn_log s) (SaveStatic i (opn_lease u) p)" by (auto simp: just_requested_def mutation_guarded_def)
  then show "(case r of None \<Rightarrow> guarded_run | Some v \<Rightarrow> knows (insert v us))
      (s\<lparr>mrn_world := w, mrn_log := mrn_log s @ [Mutated (SaveStatic i (opn_lease u) p) r]\<rparr>)"
    using s by (auto simp: just_requested_def knows_def split: option.splits)
qed

lemma valid_source_change: "u \<in> us \<Longrightarrow> valid (knows us) (request_source_change h u p) (\<lambda>v. knows (insert v us)) guarded_run"
  unfolding request_source_change_def
  by (cases "pln_preparation p")
     (auto intro!: valid_return_knows valid_bind [OF valid_reauthorize valid_bind [OF valid_request valid_save_static]])

lemma valid_deployment: "u \<in> us \<Longrightarrow> valid (knows us) (request_deployment h u) (\<lambda>v. knows (insert v us)) guarded_run"
  unfolding request_deployment_def
  by (auto intro!: valid_return_knows valid_bind [OF valid_reauthorize valid_bind [OF valid_request valid_save_static]]
      split: option.split manager_preparation.split)

lemma valid_checkpoint: "u \<in> us \<Longrightarrow> valid (knows us) (checkpoint_static h u) (\<lambda>_. guarded_run) guarded_run"
proof -
  have last: "valid (knows (insert v us)) (if b then transition_to h v i x y a else step_return v) (\<lambda>_. guarded_run) guarded_run"
    for v us b i x y a and h :: "'w manager_host"
    using valid_weaken [OF valid_transition [of v "insert v us" h i x y a]] by (auto simp: knows_guarded valid_return_guarded)
  have first: "valid (knows (insert v us)) (if b then transition_to h v i x y a else step_return v)
      (\<lambda>w. knows (insert w (insert v us))) guarded_run" for v us b i x y a and h :: "'w manager_host"
    by (simp add: valid_transition valid_return_knows)
  show ?thesis unfolding checkpoint_static_def
    by (intro valid_if valid_return_guarded valid_bind [OF valid_resume valid_bind [OF first last]])
qed

lemma valid_prepare_static: "valid (knows us) (prepare_static h i) (\<lambda>_. guarded_run) guarded_run"
  unfolding prepare_static_def
  by (rule manager_rules valid_source_change valid_deployment valid_checkpoint | simp; fail)+

lemma valid_complete_static: "valid (knows us) (complete_static h i t) (\<lambda>_. guarded_run) guarded_run"
proof -
  have persisted: "valid (knows us) (case (p, t') of
        (Some q, Some (StaticReceipt x)) \<Rightarrow> step_bind (require (b q x) InvalidOperationState) (\<lambda>_. step_return (StaticReceipt x))
      | _ \<Rightarrow> step_throw (ManagerError InvalidOperationState)) (\<lambda>_. guarded_run) guarded_run"
    for p t' b us and s :: "'w manager_run"
    by (auto intro!: valid_throw_guarded valid_requirements valid_return_guarded split: option.split manager_receipt.split)
  show ?thesis unfolding complete_static_def
    by (rule manager_rules valid_read persisted valid_allowed | simp; fail)+
qed

lemma valid_validate: "valid (knows us) (validate_operation h i) (\<lambda>_. guarded_run) guarded_run"
proof -
  have owned: "valid (knows us) (case a of None \<Rightarrow> step_return False
      | Some a \<Rightarrow> step_bind (step_of (assert_owner a w)) (\<lambda>_. call_host (ArtifactVerified a) (mho_verify h a w))) (\<lambda>_. knows us) guarded_run"
    for a w us and h :: "'w manager_host"
    by (auto intro!: valid_return valid_guards valid_neutral_calls split: option.split)
  show ?thesis unfolding validate_operation_def
    by (rule valid_guards valid_requirements valid_bind owned valid_if valid_option valid_read manager_rules valid_allowed | simp; fail)+
qed

lemma valid_status: "valid (knows us) (operation_status h i) (\<lambda>_. guarded_run) guarded_run"
  unfolding operation_status_def by (rule manager_rules valid_read | simp; fail)+

lemma valid_dynamic_entries: "valid (knows us) (assert_dynamic_entries h a e c entries) (\<lambda>_. knows us) guarded_run"
proof (induction entries)
  case (Cons x entries)
  then show ?case
    by (cases x) (auto intro!: valid_guards valid_bind [OF valid_verify] simp: Let_def split: runtime_entry.split)
qed (auto intro: valid_return)

lemma valid_static_entries: "valid (knows us) (assert_static_entries h entries) (\<lambda>_. knows us) guarded_run"
proof (induction entries)
  case (Cons x entries)
  then show ?case
    by (cases x) (auto intro!: valid_requirements valid_bind [OF valid_neutral_calls(7)] split: runtime_entry.split)
qed (auto intro: valid_return)

lemma valid_inventory: "valid (knows us) (verified_inventory h a e) (\<lambda>_. guarded_run) guarded_run"
  unfolding verified_inventory_def
  by (intro valid_bind [OF valid_neutral_calls(1)] valid_bind [OF valid_dynamic_entries] valid_bind [OF valid_static_entries] valid_return_guarded)

text \<open>The log of \<open>plan\<close> is pinned call by call.\<close>

definition logged :: "manager_event list \<Rightarrow> 'w manager_run \<Rightarrow> bool" where
  "logged es s \<longleftrightarrow> guarded_run s \<and> mrn_log s = es"

lemma logged_guarded: "logged es s \<Longrightarrow> guarded_run s"
  unfolding logged_def by (rule conjunct1)

lemma valid_logged:
  assumes "\<And>x. event_guarded es (event x)"
  shows "valid (logged es) (call_host event f) (\<lambda>a. logged (es @ [event (Some a)])) guarded_run"
  by (rule valid_call) (use assms in \<open>auto simp: logged_def split: option.split\<close>)

lemma valid_logged_guard:
  "(\<And>a. v = Inr a \<Longrightarrow> valid (logged es) (g a) Q guarded_run) \<Longrightarrow> valid (logged es) (step_bind (step_of v) g) Q guarded_run"
  "(b \<Longrightarrow> valid (logged es) (k ()) Q guarded_run) \<Longrightarrow> valid (logged es) (step_bind (require b c) k) Q guarded_run"
  by (auto intro: valid_bind_of valid_bind_require dest: logged_guarded)

lemma valid_logged_return: "valid (logged es) (step_return a) (\<lambda>_. guarded_run) guarded_run"
  by (rule valid_return) (rule logged_guarded)

lemma valid_finish_guarded:
  assumes "claimed_under r u es"
  shows "valid (logged es) (finish_planning h r stock u) (\<lambda>_. guarded_run) guarded_run"
proof -
  have save: "valid (logged (es @ [ChangePlanned (planning_of r (opn_id u) st) (Some c)]))
      (step_bind (mutate h (SavePlan (opn_id u) (opn_lease u) p)) (\<lambda>_. step_return p)) (\<lambda>_. guarded_run) guarded_run"
    for st c p and h :: "'w manager_host"
    unfolding mutate_def
    by (rule valid_bind [OF valid_logged valid_logged_return])
       (use assms in \<open>auto simp: mutation_guarded_def planning_of_def\<close>)
  show ?thesis unfolding finish_planning_def Let_def
    by (intro valid_logged_guard valid_bind [OF valid_logged] save) simp_all
qed

lemma valid_plan_change: "valid (logged []) (plan_change h r) (\<lambda>_. guarded_run) guarded_run"
proof -
  have finished: "valid (logged (es @ [ExpiredReconciled (Some n), ClaimMade r (Some claim)]))
      (step_bind (resume_claim h claim) (finish_planning h r stock)) (\<lambda>_. guarded_run) guarded_run"
    if "planning_authorized r es" for es n claim stock and h :: "'w manager_host"
  proof (cases claim)
    case (Claimed u)
    have "claimed_under r u (es @ [ExpiredReconciled (Some n), ClaimMade r (Some claim)])"
      using that unfolding claimed_under_def Claimed by blast
    then have "valid (logged (es @ [ExpiredReconciled (Some n), ClaimMade r (Some claim)])) (finish_planning h r stock u) (\<lambda>_. guarded_run) guarded_run"
      by (rule valid_finish_guarded)
    then show ?thesis by (simp add: resume_claim_def Claimed valid_def step_bind_def step_return_def)
  next
    case (Replayed v)
    have "claimed_under r u ((es @ [ExpiredReconciled (Some n), ClaimMade r (Some claim)]) @ [OperationResumed (opn_id v) (Some u)])" for u
      using that unfolding claimed_under_def Replayed by auto
    then show ?thesis unfolding resume_claim_def resume_def Replayed operation_claim.simps
      by (intro valid_bind [OF valid_logged] valid_finish_guarded) simp_all
  qed
  have claimed: "valid (logged (es @ [ExpiredReconciled (Some n)])) (claim_operation h r digest d)
      (\<lambda>claim. logged (es @ [ExpiredReconciled (Some n), ClaimMade r (Some claim)])) guarded_run"
    if "planning_authorized r es" for es n digest d and h :: "'w manager_host"
  proof -
    have "valid (logged (es @ [ExpiredReconciled (Some n)])) (call_host (ClaimMade r) f)
        (\<lambda>claim. logged ((es @ [ExpiredReconciled (Some n)]) @ [ClaimMade r (Some claim)])) guarded_run" for f :: "('w, operation_claim) manager_effect"
      by (rule valid_logged) (use that in auto)
    then show ?thesis unfolding claim_operation_def by (intro valid_catch [OF _ valid_throw]) simp_all
  qed
  have authorized: "valid (logged es)
      (step_bind (call_host ExpiredReconciled f) (\<lambda>_. step_bind (claim_operation h r digest d) (\<lambda>claim.
         case planned_already claim of Some p \<Rightarrow> step_return p
         | None \<Rightarrow> step_bind (require (\<not> claim_over claim) InvalidOperationState) (\<lambda>_.
             step_bind (resume_claim h claim) (finish_planning h r stock))))) (\<lambda>_. guarded_run) guarded_run"
    if "planning_authorized r es" for es f digest d stock and h :: "'w manager_host"
  proof (rule valid_bind [OF valid_logged])
    show "event_guarded es (ExpiredReconciled n)" for n using that by auto
    show "valid (logged (es @ [ExpiredReconciled (Some n)])) (step_bind (claim_operation h r digest d) (\<lambda>claim.
         case planned_already claim of Some p \<Rightarrow> step_return p
         | None \<Rightarrow> step_bind (require (\<not> claim_over claim) InvalidOperationState) (\<lambda>_.
             step_bind (resume_claim h claim) (finish_planning h r stock)))) (\<lambda>_. guarded_run) guarded_run" for n
      by (rule valid_bind [OF claimed [OF that]], rule valid_option, rule valid_logged_guard(2), rule finished [OF that],
          rule valid_logged_return)
  qed
  show ?thesis unfolding plan_change_def read_inventory_def ask_def
    by (intro valid_logged_guard valid_bind [OF valid_logged] authorized)
       (auto simp: planning_authorized_def admitted_operation_def split: option.splits)
qed

lemma guarded_plan: "guarded_run (snd (plan_change h r (new_run w)))"
  using validD_Inl [OF valid_plan_change, of "new_run w" h r] validD_Inr [OF valid_plan_change, of "new_run w" h r]
  by (cases "plan_change h r (new_run w)"; cases "fst (plan_change h r (new_run w))") (fastforce simp: logged_def new_run_def)+

lemma guarded_result: "valid (knows {}) m (\<lambda>_. guarded_run) guarded_run \<Longrightarrow> guarded_run (snd (m (new_run w)))"
  using validD_Inl [of _ m _ guarded_run "new_run w"] validD_Inr [of _ m _ guarded_run "new_run w"]
  by (cases "m (new_run w)"; cases "fst (m (new_run w))") (fastforce simp: knows_def new_run_def)+

text \<open>C3: Whatever the host answers, in every call of a public method of the manager a decision of the authorizer
  comes before the claims and changes that it writes to the store. Each transition, staging, refreshed
  readiness, activation, enabling, rollback, completion, disabling and removal directly follows a reading of
  the inventory and an answer that allowed, for the stored request and its digest, the operation that this
  inventory admits, to the actor that planned the operation; and it is written with the lease of an operation
  that the store handed out in this call. A static plan is saved after exactly one more call, the request of
  the change or of the deployment that was made under such an answer. Expired operations are reconciled, an
  operation is claimed and a plan is saved only by a call of \<open>plan\<close>, after the inventory admitted the request
  and the authorizer allowed its planning by its digest: between them lie only the validation, the earlier of
  these writes, for a replayed claim its resumption, and the planner, and the plan is saved under the identity
  and the lease of the operation that this claim or resumption handed out. Resuming an operation, by
  which the store renews the lease of the worker, is asked before the decision and is not covered.\<close>

theorem store_writes_reauthorized:
  "log_guarded (mrn_log (manager_call_run h c w))"
proof (cases c)
  case (CallDisable i)
  then show ?thesis
    by (simp add: manager_call_run_def disable_operation_def) (rule guarded_result, rule valid_dispose; simp)
next
  case (CallUninstall i)
  then show ?thesis
    by (simp add: manager_call_run_def uninstall_operation_def) (rule guarded_result, rule valid_dispose; simp)
qed (simp_all add: manager_call_run_def guarded_result guarded_plan valid_prepare_static valid_stage valid_activate
       valid_rollback valid_complete_static valid_validate valid_status valid_inventory)

subsection \<open>Saved plans\<close>

text \<open>What the code checks of the generation that a plan aims at, by operation.\<close>

definition target_admissible :: "change_request \<Rightarrow> inventory_state \<Rightarrow> string \<Rightarrow> bool" where
  "target_admissible r st g \<longleftrightarrow>
     (let fresh = Some g \<noteq> ins_current_generation st \<and> Some g \<noteq> ins_rollback_generation st in
      case chg_operation r of
        InstallKind \<Rightarrow> if ins_disposition st = RetainedInventory DisabledDisposition
                       then Some g = ins_current_generation st \<and> Some (chg_version r) = ins_current_version st else fresh
      | UpdateKind \<Rightarrow> fresh
      | RollbackKind \<Rightarrow> ins_current_generation st \<noteq> None \<and> Some g = ins_rollback_generation st
      | UninstallKind \<Rightarrow> if chg_class r = PluginEvent then ins_current_generation st \<noteq> None \<and> fresh else Some g = ins_current_generation st
      | DisableKind \<Rightarrow> Some g = ins_current_generation st)"

text \<open>
  No version is installed that precedes the current one; an update of an active platform plugin has no version
  that precedes the current one, and every other update has a version that the current one precedes. The
  versions of disabling, rolling back and uninstalling are not compared with the current one.
\<close>

definition version_admissible :: "change_request \<Rightarrow> inventory_state \<Rightarrow> bool" where
  "version_admissible r st \<longleftrightarrow>
     (case ins_current_version st of
        None \<Rightarrow> True
      | Some v \<Rightarrow>
          (chg_operation r = InstallKind \<longrightarrow> \<not> precedes (chg_version r) v)
        \<and> (chg_operation r = UpdateKind \<longrightarrow> (if chg_class r = PluginEvent \<and> ins_disposition st = ActiveInventory
             then \<not> precedes (chg_version r) v else precedes v (chg_version r))))"

definition plan_bound :: "change_request \<Rightarrow> manager_event list \<Rightarrow> string \<Rightarrow> manager_plan \<Rightarrow> bool" where
  "plan_bound r log i p \<longleftrightarrow> valid_change_request r \<and>
     (\<exists>stock d digest.
        InventoryRead (chg_application r) (chg_environment r) (Some stock) \<in> set log
        \<and> Authorized \<lparr>ask_request = r, ask_operation = PlanOperation, ask_digest = digest\<rparr> (Some d) \<in> set log
        \<and> request_digest r = Inr digest
        \<and> chg_operation r \<in> set (admitted_operations (ins_disposition (request_inventory_state stock r)))
        \<and> ins_revision (request_inventory_state stock r) = chg_expected r
        \<and> target_admissible r (request_inventory_state stock r) (pln_generation p)
        \<and> version_admissible r (request_inventory_state stock r)
        \<and> ins_class (pln_plan p) = chg_class r \<and> ins_extension (pln_plan p) = chg_extension r
        \<and> ins_operation (pln_plan p) = chg_operation r \<and> ins_version (pln_plan p) = chg_version r
        \<and> ins_operation_id (pln_plan p) = i \<and> pln_operation p = i
        \<and> (is_static p \<longleftrightarrow> chg_class r = PluginEvent \<and> chg_operation r \<noteq> DisableKind
              \<and> \<not> retained_reenable r (request_inventory_state stock r)))"

definition saved_bound :: "change_request \<Rightarrow> manager_event list \<Rightarrow> bool" where
  "saved_bound r log \<longleftrightarrow> (\<forall>i l p x. Mutated (SavePlan i l p) x \<in> set log \<longrightarrow> plan_bound r log i p)"

lemma compare_precedence_negative:
  assumes "compare_precedence l r = Inr c"
  shows "(precedes l r \<longleftrightarrow> c < 0) \<and> (precedes r l \<longleftrightarrow> c > 0)"
  using assms by (auto simp: precedes_order compare_precedence_order order_sign_def split: if_splits)

lemma update_disposition:
  "operation_admission d UpdateKind = Some k \<Longrightarrow> d \<in> {ActiveInventory, RetainedInventory QuarantinedDisposition}"
proof (cases d)
  case (RetainedInventory e)
  then show "operation_admission d UpdateKind = Some k \<Longrightarrow> ?thesis" by (cases e) simp_all
qed simp_all

lemma no_downgrade_admissible:
  assumes "no_active_downgrade r st = Inr ()" "operation_admission (ins_disposition st) (chg_operation r) = Some k"
  shows "version_admissible r st"
proof (cases "ins_current_version st")
  case (Some v)
  then obtain c where c: "compare_precedence (chg_version r) v = Inr c"
    using assms(1) by (auto simp: no_active_downgrade_def split: sum.splits)
  have disposition: "ins_disposition st \<in> {ActiveInventory, RetainedInventory QuarantinedDisposition}" if "chg_operation r = UpdateKind"
    using update_disposition assms(2) that by simp
  show ?thesis
    using assms(1) Some c disposition compare_precedence_negative [OF c]
    by (auto simp: no_active_downgrade_def version_admissible_def split: if_splits)
qed (simp add: version_admissible_def)

lemma plan_admissible:
  assumes "assert_plan_matches r p i g st = Inr ()" "operation_admission (ins_disposition st) (chg_operation r) = Some k"
    "assert_can_plan r st = Inr ()" "assert_retained_release r st = Inr ()"
  shows "ins_revision st = chg_expected r \<and> target_admissible r st g \<and> version_admissible r st \<and> ins_class p = chg_class r
    \<and> ins_extension p = chg_extension r \<and> ins_operation p = chg_operation r \<and> ins_version p = chg_version r \<and> ins_operation_id p = i"
proof -
  have fields: "ins_revision st = chg_expected r" "ins_class p = chg_class r" "ins_extension p = chg_extension r"
    "ins_operation p = chg_operation r" "ins_version p = chg_version r" "ins_operation_id p = i" "ins_target p = Some g"
    using assms(1) by (auto simp: assert_plan_matches_def split: if_splits)
  have release: "retained_reenable r st \<Longrightarrow> Some (chg_version r) = ins_current_version st"
    using assms(4) by (auto simp: assert_retained_release_def)
  have "target_admissible r st g"
    using assms(1) release fields(7)
    by (cases "chg_operation r")
       (auto simp: assert_plan_matches_def target_admissible_def retained_reenable_def missing_def Let_def split: if_splits)
  moreover have "version_admissible r st"
    using assms(2,3) by (intro no_downgrade_admissible) (auto simp: assert_can_plan_def)
  ultimately show ?thesis using fields by simp
qed

lemma plan_preparation_static:
  assumes "plan_preparation r stock p d = Inr k" "ins_class p = chg_class r" "ins_operation p = chg_operation r"
  shows "is_static \<lparr>pln_preparation = k, pln_operation = i, pln_plan = p, pln_commit = c, pln_generation = g\<rparr> \<longleftrightarrow>
    chg_class r = PluginEvent \<and> chg_operation r \<noteq> DisableKind \<and> \<not> retained_reenable r (request_inventory_state stock r)"
  using assms by (auto simp: plan_preparation_def Let_def is_static_def retained_reenable_def split: if_splits)

lemma admitted_in: "operation_admission d k = Some x \<Longrightarrow> k \<in> set (admitted_operations d)"
  by (cases k) (simp_all add: admitted_operations_def)

text \<open>Before the save no plan is saved, and the facts are in the log.\<close>

definition unsaved :: "manager_event list \<Rightarrow> bool" where
  "unsaved log \<longleftrightarrow> (\<forall>i l p x. Mutated (SavePlan i l p) x \<notin> set log)"

definition noted :: "manager_event set \<Rightarrow> 'w manager_run \<Rightarrow> bool" where
  "noted fs s \<longleftrightarrow> unsaved (mrn_log s) \<and> fs \<subseteq> set (mrn_log s)"

lemma noted_saved: "noted fs s \<Longrightarrow> saved_bound r (mrn_log s)"
  by (simp add: noted_def unsaved_def saved_bound_def)

lemma valid_note:
  fixes f :: "('w, 'a) manager_effect"
  assumes "\<And>x i l p y. event x \<noteq> Mutated (SavePlan i l p) y"
  shows "valid (noted fs) (call_host event f) (\<lambda>a. noted (insert (event (Some a)) fs)) (\<lambda>s. saved_bound r (mrn_log s))"
proof (rule valid_call)
  fix s :: "'w manager_run" and w x assume "noted fs s"
  then have "noted fs (s\<lparr>mrn_world := w, mrn_log := mrn_log s @ [event x]\<rparr>)"
    using assms by (auto simp: noted_def unsaved_def) metis
  then show "(case x of None \<Rightarrow> \<lambda>s. saved_bound r (mrn_log s) | Some a \<Rightarrow> noted (insert (event (Some a)) fs))
      (s\<lparr>mrn_world := w, mrn_log := mrn_log s @ [event x]\<rparr>)"
    using noted_saved [of fs "s\<lparr>mrn_world := w, mrn_log := mrn_log s @ [event x]\<rparr>" r] by (auto simp: noted_def split: option.split)
qed

lemma valid_note_drop:
  assumes "\<And>x i l p y. event x \<noteq> Mutated (SavePlan i l p) y"
  shows "valid (noted fs) (call_host event f) (\<lambda>_. noted fs) (\<lambda>s. saved_bound r (mrn_log s))"
  by (rule valid_weaken [OF valid_note [OF assms, where fs = fs and r = r]]) (auto simp: noted_def)

lemma valid_note_guard:
  "(\<And>a. v = Inr a \<Longrightarrow> valid (noted fs) (f a) Q (\<lambda>s. saved_bound r (mrn_log s))) \<Longrightarrow>
   valid (noted fs) (step_bind (step_of v) f) Q (\<lambda>s. saved_bound r (mrn_log s))"
  by (auto intro: valid_bind_of dest: noted_saved)

lemma valid_note_require:
  "(b \<Longrightarrow> valid (noted fs) (g ()) Q (\<lambda>s. saved_bound r (mrn_log s))) \<Longrightarrow>
   valid (noted fs) (step_bind (require b c) g) Q (\<lambda>s. saved_bound r (mrn_log s))"
  by (auto intro: valid_bind_require dest: noted_saved)

lemma valid_save:
  assumes "\<And>log. fs \<subseteq> set log \<Longrightarrow> plan_bound r log i p"
  shows "valid (noted fs) (mutate h (SavePlan i l p)) (\<lambda>_ s. saved_bound r (mrn_log s)) (\<lambda>s. saved_bound r (mrn_log s))"
  unfolding mutate_def
proof (rule valid_call)
  fix s :: "'a manager_run" and w x assume s: "noted fs s"
  then have "saved_bound r (mrn_log s @ [Mutated (SavePlan i l p) y])" for y
    using assms [of "mrn_log s @ [Mutated (SavePlan i l p) y]"] s
    by (auto simp: saved_bound_def noted_def unsaved_def subset_insertI2)
  then show "(case x of None \<Rightarrow> \<lambda>s. saved_bound r (mrn_log s) | Some v \<Rightarrow> \<lambda>s. saved_bound r (mrn_log s))
      (s\<lparr>mrn_world := w, mrn_log := mrn_log s @ [Mutated (SavePlan i l p) x]\<rparr>)"
    by (simp split: option.split)
qed

lemma valid_finish_planning:
  assumes "valid_change_request r" "request_digest r = Inr digest"
    "InventoryRead (chg_application r) (chg_environment r) (Some stock) \<in> fs"
    "Authorized \<lparr>ask_request = r, ask_operation = PlanOperation, ask_digest = digest\<rparr> (Some d) \<in> fs"
    "admitted_operation r (request_inventory_state stock r) = Inr k" "assert_retained_release r (request_inventory_state stock r) = Inr ()"
  shows "valid (noted fs) (finish_planning h r stock u) (\<lambda>_ s. saved_bound r (mrn_log s)) (\<lambda>s. saved_bound r (mrn_log s))"
  unfolding finish_planning_def Let_def
proof (rule valid_note_guard, rule valid_bind [OF valid_note], simp, rule valid_note_guard, rule valid_note_guard)
  fix c p k' x and y :: unit
  assume can: "assert_can_plan r (request_inventory_state stock r) = Inr y"
    and checked: "checked_plan r (opn_id u) (request_inventory_state stock r) c = Inr p"
    and prep: "plan_preparation r stock p c = Inr k'"
  let ?st = "request_inventory_state stock r"
  let ?p = "\<lparr>pln_preparation = k', pln_operation = opn_id u, pln_plan = p, pln_commit = pnd_commit c, pln_generation = pnd_generation c\<rparr>"
  have admission: "operation_admission (ins_disposition ?st) (chg_operation r) = Some k"
    using assms(5) by (auto simp: admitted_operation_def split: option.splits)
  have "assert_plan_matches r p (opn_id u) (pnd_generation c) ?st = Inr ()"
    using checked by (auto simp: checked_plan_def split: option.splits)
  note admissible = plan_admissible [OF this admission _ assms(6)]
  have static: "is_static ?p \<longleftrightarrow> chg_class r = PluginEvent \<and> chg_operation r \<noteq> DisableKind \<and> \<not> retained_reenable r ?st"
    using plan_preparation_static [OF prep] admissible can by simp
  have bound: "plan_bound r log (opn_id u) ?p" if "fs \<subseteq> set log" for log
    unfolding plan_bound_def
    by (rule conjI [OF assms(1)], rule exI [of _ stock], rule exI [of _ d], rule exI [of _ digest])
       (use that assms(2-4) static admissible can admitted_in [OF admission] in auto)
  show "valid (noted (insert (ChangePlanned (planning_of r (opn_id u) ?st) (Some c)) fs))
      (step_bind (mutate h (SavePlan (opn_id u) (opn_lease u) ?p)) (\<lambda>_. step_return ?p))
      (\<lambda>_ s. saved_bound r (mrn_log s)) (\<lambda>s. saved_bound r (mrn_log s))"
    by (rule valid_bind [OF valid_save valid_return]) (use bound in auto)
qed

lemma valid_plan_saved:
  "valid (\<lambda>s. mrn_log s = []) (plan_change h r) (\<lambda>_ s. saved_bound r (mrn_log s)) (\<lambda>s. saved_bound r (mrn_log s))"
proof (rule valid_weaken [of "noted {}"])
  have resumed: "valid (noted fs) (resume_claim h claim) (\<lambda>_. noted fs) (\<lambda>s. saved_bound r (mrn_log s))" for fs claim
    unfolding resume_claim_def resume_def by (auto intro!: valid_return valid_note_drop split: operation_claim.split)
  have claimed: "valid (noted fs) (claim_operation h r x y) (\<lambda>_. noted fs) (\<lambda>s. saved_bound r (mrn_log s))" for fs x y
    unfolding claim_operation_def by (rule valid_catch [OF valid_note_drop valid_throw]) simp_all
  have returned: "valid (noted fs) (step_return p) (\<lambda>_ s. saved_bound r (mrn_log s)) (\<lambda>s. saved_bound r (mrn_log s))"
    for fs and p :: manager_plan by (rule valid_return) (rule noted_saved)
  show "valid (noted {}) (plan_change h r) (\<lambda>_ s. saved_bound r (mrn_log s)) (\<lambda>s. saved_bound r (mrn_log s))"
    unfolding plan_change_def read_inventory_def ask_def
    by (rule valid_note_require valid_note_guard valid_bind valid_option returned claimed resumed valid_finish_planning valid_note
        | simp (no_asm_simp) | assumption)+
qed (auto simp: noted_def unsaved_def)

text \<open>C12: A plan that a call of \<open>plan\<close> saves is bound to its request and to the inventory of the call: the request is
  valid and admitted by the state of the extension at the expected revision, the authorizer allowed the
  planning of this very request by its digest, the plan names the extension, operation and version that were
  asked for, its generation is fresh, retained or current as the operation demands, an installation has no version
  below the current one of the extension, an update of an active platform plugin neither, and any other
  update a version above it (for disabling, rolling back and uninstalling the code compares no versions);
  and exactly the changes of a platform plugin other than disabling and enabling again become static
  releases.\<close>

theorem saved_plan_bound:
  assumes "Mutated (SavePlan i l p) x \<in> set (mrn_log (manager_call_run h (CallPlan r) w))"
  shows "plan_bound r (mrn_log (manager_call_run h (CallPlan r) w)) i p"
proof -
  have "saved_bound r (mrn_log (snd (plan_change h r (new_run w))))"
    using validD_Inl [OF valid_plan_saved, of "new_run w" h r] validD_Inr [OF valid_plan_saved, of "new_run w" h r]
    by (cases "plan_change h r (new_run w)"; cases "fst (plan_change h r (new_run w))") (auto simp: new_run_def)
  then show ?thesis using assms by (auto simp: manager_call_run_def saved_bound_def)
qed

subsection \<open>Completed operations\<close>

text \<open>A completed operation is only read: the stored receipt is the answer of the method of its operation and
  an error of the others, and nothing else happens.\<close>

lemma completed_operations_replay:
  assumes "mho_read h i w = (Inr (Some u), w')" "opn_phase u = PhaseCompleted"
    "(kinds, call) \<in> {([InstallKind, UpdateKind], activate_operation h i), ([RollbackKind], rollback_operation h i),
       ([DisableKind], disable_operation h i), ([UninstallKind], uninstall_operation h i)}"
  shows "call (new_run w) =
    ((case opn_result u of
        None \<Rightarrow> Inl (ManagerError InvalidOperationState)
      | Some t \<Rightarrow> if chg_operation (opn_request u) \<in> set kinds \<and> receipt_operation_text t = operation_kind_text (chg_operation (opn_request u))
                  then Inr t else Inl (ManagerError InvalidOperationState)),
     \<lparr>mrn_world = w', mrn_log = [OperationRead i (Some (Some u))]\<rparr>)"
proof -
  have "completed_receipt h i kinds (new_run w) =
    ((case opn_result u of
        None \<Rightarrow> Inl (ManagerError InvalidOperationState)
      | Some t \<Rightarrow> if chg_operation (opn_request u) \<in> set kinds \<and> receipt_operation_text t = operation_kind_text (chg_operation (opn_request u))
                  then Inr (Some t) else Inl (ManagerError InvalidOperationState)),
     \<lparr>mrn_world = w', mrn_log = [OperationRead i (Some (Some u))]\<rparr>)" for kinds
    using assms(1,2)
    by (simp add: completed_receipt_def read_operation_def step_bind_def call_host_def new_run_def require_def step_of_def guard_that_def
        step_return_def step_throw_def split: option.split)
  then show ?thesis using assms(3)
    by (auto simp: activate_operation_def rollback_operation_def disable_operation_def uninstall_operation_def dispose_def
        step_bind_def step_return_def split: option.split)
qed

subsection \<open>At a concrete host\<close>

text \<open>A host with a fresh inventory that plans the installation of a hot application.\<close>

definition crm_change :: change_request where
  "crm_change = \<lparr>chg_application = ''shop'', chg_environment = ''prod'', chg_class = HotEvent, chg_extension = ''app.crm'',
     chg_operation = InstallKind, chg_version = ''1.0.0'', chg_expected = 0, chg_key = ''install-crm-1'', chg_correlation = ''crm-setup''\<rparr>"

definition crm_plan :: extension_install_plan where
  "crm_plan = \<lparr>ins_class = HotEvent, ins_extension = ''app.crm'', ins_operation_id = ''op-one'', ins_operation = InstallKind,
     ins_version = ''1.0.0'', ins_expected = 0, ins_current = None, ins_target = Some ''crm-one'', ins_rest = JNull\<rparr>"

definition crm_commit :: string where
  "crm_commit = replicate 40 CHR ''a''"

definition crm_decision :: operation_decision where
  "crm_decision = \<lparr>odc_actor = TrustedAutomation ''bot'', odc_id = ''d''\<rparr>"

definition crm_operation :: "string \<Rightarrow> extension_operation" where
  "crm_operation digest = \<lparr>opn_id = ''op-one'', opn_request = crm_change, opn_digest = digest, opn_authorization = crm_decision,
     opn_phase = PhasePlanning, opn_lease = ''lease'', opn_plan = None, opn_authority = None, opn_result = None\<rparr>"

definition crm_host :: "unit manager_host" where
  "crm_host = \<lparr>mho_worker = ''worker-1'',
     mho_inventory = \<lambda>_ _ w. (Inr \<lparr>rin_host_digest = ''h'', rin_plugins = [], rin_hot = [], rin_skins = []\<rparr>, w),
     mho_authorize = \<lambda>_ w. (Inr crm_decision, w), mho_validate = \<lambda>_ w. (Inr (), w), mho_reconcile = \<lambda>_ _ w. (Inr 0, w),
     mho_claim = \<lambda>_ digest _ _ w. (Inr (Claimed (crm_operation digest)), w), mho_resume = \<lambda>_ _ w. (Inl OtherThrown, w),
     mho_read = \<lambda>_ w. (Inr None, w),
     mho_plan = \<lambda>_ w. (Inr \<lparr>pnd_plan = Some crm_plan, pnd_commit = crm_commit, pnd_generation = ''crm-one''\<rparr>, w),
     mho_source_change = \<lambda>_ _ w. (Inl OtherThrown, w), mho_deploy = \<lambda>_ _ _ w. (Inl OtherThrown, w),
     mho_stage_artifact = \<lambda>_ _ w. (Inl OtherThrown, w), mho_verify = \<lambda>_ _ w. (Inr True, w), mho_verify_static = \<lambda>_ w. (Inr True, w),
     mho_prepare = None, mho_mutate = \<lambda>_ w. (Inr (crm_operation ''x''), w), mho_finish = \<lambda>_ w. (Inl OtherThrown, w), mho_now = \<lambda>_. None\<rparr>"

definition crm_saved :: manager_plan where
  "crm_saved = \<lparr>pln_preparation = LiveGeneration, pln_operation = ''op-one'', pln_plan = crm_plan, pln_commit = crm_commit,
     pln_generation = ''crm-one''\<rparr>"

lemma crm_checks:
  "valid_change_request crm_change" "commit_text crm_commit" "event_record_id ''crm-one''"
  by code_simp+

lemma crm_saves:
  "Mutated (SavePlan ''op-one'' ''lease'' crm_saved) (Some (crm_operation ''x'')) \<in> set (mrn_log (manager_call_run crm_host (CallPlan crm_change) ()))"
proof -
  have fields: "chg_application crm_change = ''shop''" "chg_environment crm_change = ''prod''" "chg_class crm_change = HotEvent"
    "chg_extension crm_change = ''app.crm''" "chg_operation crm_change = InstallKind" "chg_version crm_change = ''1.0.0''"
    "chg_expected crm_change = 0"
    by (simp_all add: crm_change_def)
  show ?thesis
    by (simp add: manager_call_run_def plan_change_def step_bind_def require_def step_of_def guard_that_def crm_checks request_digest_def
        read_inventory_def ask_def call_host_def new_run_def crm_host_def fields request_inventory_state_def extension_inventory_state_def
        dynamic_entries_def inventory_entry_state_def assert_retained_release_def retained_reenable_def admitted_operation_def claim_operation_def
        step_catch_def planned_already_def claim_over_def resume_claim_def step_return_def finish_planning_def assert_can_plan_def
        no_active_downgrade_def checked_plan_def assert_plan_matches_def crm_plan_def missing_def plan_preparation_def
        mutate_def crm_operation_def crm_saved_def Let_def)
qed

text \<open>In the log of this call the plan is saved, and its save is guarded.\<close>

lemma store_writes_reauthorized_witness:
  "\<exists>n. n < length (mrn_log (manager_call_run crm_host (CallPlan crm_change) ()))
     \<and> mrn_log (manager_call_run crm_host (CallPlan crm_change) ()) ! n
         = Mutated (SavePlan ''op-one'' ''lease'' crm_saved) (Some (crm_operation ''x''))
     \<and> mutation_guarded (take n (mrn_log (manager_call_run crm_host (CallPlan crm_change) ()))) (SavePlan ''op-one'' ''lease'' crm_saved)"
proof -
  let ?log = "mrn_log (manager_call_run crm_host (CallPlan crm_change) ())"
  obtain n where n: "n < length ?log" "?log ! n = Mutated (SavePlan ''op-one'' ''lease'' crm_saved) (Some (crm_operation ''x''))"
    using crm_saves by (auto simp: in_set_conv_nth)
  moreover have "event_guarded (take n ?log) (?log ! n)"
    using store_writes_reauthorized [of crm_host "CallPlan crm_change" "()"] n(1) unfolding log_guarded_def by blast
  ultimately show ?thesis by (intro exI [of _ n]) simp
qed

lemma saved_plan_bound_witness:
  "plan_bound crm_change (mrn_log (manager_call_run crm_host (CallPlan crm_change) ())) ''op-one'' crm_saved"
  by (rule saved_plan_bound [OF crm_saves])

end
