(* ===== verification/UpgradePlanner.thy ===== *)
theory UpgradePlanner
  imports SemverPrecedence CanonicalJson AuthorizationContracts
begin

text \<open>
  Plans of plugin upgrades: \<open>packages/runtime/src/upgrade-planner.ts\<close>, with the schema of release
  manifests in \<open>packages/contracts/src/package-release-manifest.ts\<close>. The package \<open>semver\<close> is the
  parameter \<open>semver_calls\<close>; handlers of migrations are functions that may throw. The freezing of
  the result is left out: a value of HOL is immutable.
\<close>

subsection \<open>Release manifests\<close>

record framework_tuple =
  fw_core :: string
  fw_payload :: string
  fw_node :: string
  fw_pnpm :: string
  fw_adapter :: string

definition valid_framework :: "framework_tuple \<Rightarrow> bool" where
  "valid_framework t \<longleftrightarrow> exact_semver (fw_core t) \<and> exact_semver (fw_payload t) \<and> exact_semver (fw_node t)
     \<and> exact_semver (fw_pnpm t) \<and> fw_adapter t = ''postgres''"

record release_package =
  rp_package :: string
  rp_version :: string
  rp_role :: string
  rp_integrity :: string
  rp_peer :: framework_tuple

definition package_name_part :: "string \<Rightarrow> bool" where
  "package_name_part s \<longleftrightarrow> s \<noteq> [] \<and> (is_lower (hd s) \<or> is_digit (hd s))
     \<and> list_all (\<lambda>c. is_lower c \<or> is_digit c \<or> c \<in> set ''._-'') s"

definition package_name :: "string \<Rightarrow> bool" where
  "package_name s \<longleftrightarrow>
     (case split_on CHR ''/'' (case s of c # cs \<Rightarrow> if c = CHR ''@'' then cs else s | [] \<Rightarrow> s) of
        [p] \<Rightarrow> package_name_part p | [p, q] \<Rightarrow> package_name_part p \<and> package_name_part q | _ \<Rightarrow> False)"

definition package_integrity :: "string \<Rightarrow> bool" where
  "package_integrity s \<longleftrightarrow> take 7 s = ''sha512-'' \<and> length s = 95 \<and> drop 93 s = ''==''
     \<and> list_all (\<lambda>c. is_alnum c \<or> c \<in> set ''+/'') (take 86 (drop 7 s))"

definition package_roles :: "string list" where
  "package_roles = [''core'', ''plugin'', ''provider'', ''builder'', ''theme'', ''tooling'']"

definition valid_release_package :: "release_package \<Rightarrow> bool" where
  "valid_release_package p \<longleftrightarrow> package_name (rp_package p) \<and> exact_semver (rp_version p) \<and> rp_role p \<in> set package_roles
     \<and> package_integrity (rp_integrity p) \<and> valid_framework (rp_peer p)"

record lock_template =
  lt_preset :: string
  lt_theme :: string
  lt_digest :: string

definition valid_lock_template :: "string \<Rightarrow> lock_template \<Rightarrow> bool" where
  "valid_lock_template theme t \<longleftrightarrow> lt_preset t = ''sales-reference'' \<and> lt_theme t = theme \<and> digest_text (lt_digest t)"

record release_manifest =
  rm_schema :: int
  rm_version :: string
  rm_channel :: string
  rm_versioning :: string
  rm_compatibility :: string
  rm_framework :: framework_tuple
  rm_packages :: "release_package list"
  rm_minimal :: lock_template
  rm_neobrutalism :: lock_template
  rm_policy :: string
  rm_supported :: "string list"
  rm_security :: string

text \<open>The schema with its refinement; the parsed fields come in the order of the schema, so the texts of two
  framework tuples are equal when the tuples are.\<close>

definition valid_manifest :: "release_manifest \<Rightarrow> bool" where
  "valid_manifest m \<longleftrightarrow> rm_schema m = 1 \<and> exact_semver (rm_version m) \<and> rm_channel m = ''current''
     \<and> rm_versioning m = ''semver-v1'' \<and> rm_compatibility m = ''exact-framework-tuple'' \<and> valid_framework (rm_framework m)
     \<and> rm_packages m \<noteq> [] \<and> list_all valid_release_package (rm_packages m)
     \<and> valid_lock_template ''minimal'' (rm_minimal m) \<and> valid_lock_template ''neobrutalism'' (rm_neobrutalism m)
     \<and> rm_policy m = ''single-current-release'' \<and> distinct (rm_supported m) \<and> length (rm_supported m) = 1
     \<and> list_all exact_semver (rm_supported m) \<and> rm_security m = ''all-supported-releases''
     \<and> distinct (map rp_package (rm_packages m)) \<and> list_all (\<lambda>p. rp_peer p = rm_framework m) (rm_packages m)
     \<and> hd (rm_supported m) = rm_version m"

definition parse_manifest :: "release_manifest unknown \<Rightarrow> release_manifest option" where
  "parse_manifest u = (case u of None \<Rightarrow> None | Some m \<Rightarrow> if valid_manifest m then Some m else None)"

subsection \<open>Targets, migrations and plans\<close>

text \<open>Kinds arrive as texts; \<open>kindOrder\<close> is the position in the list of the known ones.\<close>

definition artifact_kinds :: "string list" where
  "artifact_kinds = [''customer-schema'', ''source'', ''action'', ''tool'', ''block'', ''theme'', ''template'', ''settings'']"

fun kind_index :: "'a \<Rightarrow> 'a list \<Rightarrow> nat" where
  "kind_index x [] = 0"
| "kind_index x (y # ys) = (if x = y then 0 else Suc (kind_index x ys))"

definition kind_rank :: "string \<Rightarrow> nat" where
  "kind_rank k = kind_index k artifact_kinds"

record upgrade_target =
  ut_artifact :: string
  ut_kind :: string
  ut_current :: int
  ut_target :: int

text \<open>What a handler returns: a tree of data, which \<open>structuredClone\<close> copies, or a value that it refuses.\<close>

datatype handled = Cloneable json | NotCloneable

record upgrade_migration =
  um_id :: string
  um_artifact :: string
  um_kind :: string
  um_from :: int
  um_to :: int
  um_predecessors :: "int list"
  um_depends :: "string list option"
  um_migrate :: "(json \<Rightarrow> handled option) unknown"
  um_validate :: "(handled \<Rightarrow> bool option) unknown"

record upgrade_step = upgrade_migration +
  us_key :: string

datatype upgrade_severity = UpgradeError | UpgradeInfo

datatype upgrade_code =
    UpgradeCycle | UpgradeDuplicate | UpgradeGap | UpgradeInvalid | MigrationFailed | UpgradeReady | RevisionMismatch | UnsupportedRelease

record upgrade_diagnostic =
  ud_severity :: upgrade_severity
  ud_code :: upgrade_code
  ud_artifact :: "string option"
  ud_message :: string

record upgrade_input =
  ui_plugin :: string
  ui_current_version :: string
  ui_target_version :: string
  ui_current_release :: string
  ui_target_release :: string
  ui_current_manifest :: "release_manifest unknown"
  ui_target_manifest :: "release_manifest unknown"
  ui_package :: string
  ui_targets :: "upgrade_target list"
  ui_migrations :: "upgrade_migration list"

record upgrade_plan =
  up_plugin :: string
  up_current_version :: string
  up_target_version :: string
  up_current_release :: string
  up_target_release :: string
  up_ready :: bool
  up_steps :: "upgrade_step list"
  up_diagnostics :: "upgrade_diagnostic list"

record upgrade_dry_run =
  udr_ready :: bool
  udr_diagnostics :: "upgrade_diagnostic list"
  udr_artifacts :: "(string \<times> json) list"

record semver_calls =
  svc_valid :: "string \<Rightarrow> bool"
  svc_compare :: "string \<Rightarrow> string \<Rightarrow> int"

definition upgrade_error :: "upgrade_code \<Rightarrow> string \<Rightarrow> string option \<Rightarrow> upgrade_diagnostic" where
  "upgrade_error code message artifact =
     \<lparr>ud_severity = UpgradeError, ud_code = code, ud_artifact = artifact, ud_message = message\<rparr>"

definition upgrade_info :: "string \<Rightarrow> upgrade_diagnostic" where
  "upgrade_info message = \<lparr>ud_severity = UpgradeInfo, ud_code = UpgradeReady, ud_artifact = None, ud_message = message\<rparr>"

definition no_errors :: "upgrade_diagnostic list \<Rightarrow> bool" where
  "no_errors ds \<longleftrightarrow> list_all (\<lambda>d. ud_severity d \<noteq> UpgradeError) ds"

text \<open>\<open>/^[a-z][a-z0-9]*(?:[.-][a-z0-9]+)+$/u\<close>\<close>

definition valid_upgrade_id :: "string \<Rightarrow> bool" where
  "valid_upgrade_id s \<longleftrightarrow>
     (let parts = split_on CHR ''.'' (map (\<lambda>c. if c = CHR ''-'' then CHR ''.'' else c) s)
      in s \<noteq> [] \<and> is_lower (hd s) \<and> 2 \<le> length parts \<and> list_all lower_or_digit parts)"

definition upgrade_revision :: "int \<Rightarrow> bool" where
  "upgrade_revision n \<longleftrightarrow> is_safe_integer n \<and> 0 \<le> n"

definition revision_key :: "string \<Rightarrow> int \<Rightarrow> string" where
  "revision_key artifact revision = artifact @ CHR ''@'' # int_text revision"

subsection \<open>Checks of the release and the versions\<close>

definition release_diagnostics :: "upgrade_input \<Rightarrow> upgrade_diagnostic list" where
  "release_diagnostics i =
     (case (parse_manifest (ui_current_manifest i), parse_manifest (ui_target_manifest i)) of
        (Some c, Some t) \<Rightarrow>
          if ui_current_release i \<noteq> rm_version c \<or> ui_target_release i \<noteq> rm_version t
             \<or> ui_current_release i \<notin> set (rm_supported t)
          then [upgrade_error UnsupportedRelease ''Platform upgrade source and target must belong to the declared support window.'' None]
          else
            (case (find (\<lambda>p. rp_package p = ui_package i) (rm_packages c), find (\<lambda>p. rp_package p = ui_package i) (rm_packages t)) of
               (Some p, Some q) \<Rightarrow>
                 if rp_version p \<noteq> ui_current_version i \<or> rp_version q \<noteq> ui_target_version i \<or> rp_integrity p = rp_integrity q
                 then [upgrade_error UnsupportedRelease ''Plugin source and target must be distinct trusted release artifacts.'' None]
                 else []
             | _ \<Rightarrow> [upgrade_error UnsupportedRelease ''Plugin source and target must be distinct trusted release artifacts.'' None])
      | _ \<Rightarrow> [upgrade_error UnsupportedRelease ''Platform release manifests are invalid.'' None])"

definition version_diagnostics :: "semver_calls \<Rightarrow> upgrade_input \<Rightarrow> upgrade_diagnostic list" where
  "version_diagnostics v i =
     (if \<not> valid_upgrade_id (ui_plugin i) \<or> \<not> svc_valid v (ui_current_version i) \<or> \<not> svc_valid v (ui_target_version i)
      then [upgrade_error UpgradeInvalid ''Plugin identity and release versions must be valid.'' None]
      else if svc_compare v (ui_target_version i) (ui_current_version i) < 0
      then [upgrade_error UpgradeInvalid ''Upgrade target version cannot precede the installed version.'' None]
      else [])"

subsection \<open>Acceptance of targets and migrations\<close>

definition valid_target :: "upgrade_target \<Rightarrow> bool" where
  "valid_target t \<longleftrightarrow> valid_upgrade_id (ut_artifact t) \<and> ut_kind t \<in> set artifact_kinds \<and> upgrade_revision (ut_current t)
     \<and> upgrade_revision (ut_target t) \<and> ut_current t \<le> ut_target t"

type_synonym target_map = "(string, upgrade_target) js_map"

definition accept_target :: "upgrade_target \<Rightarrow> target_map \<times> upgrade_diagnostic list \<Rightarrow> target_map \<times> upgrade_diagnostic list" where
  "accept_target t = (\<lambda>(ts, ds).
     if \<not> valid_target t then (ts, ds @ [upgrade_error UpgradeInvalid ''Upgrade target is invalid.'' (Some (ut_artifact t))])
     else if map_of ts (ut_artifact t) \<noteq> None
     then (ts, ds @ [upgrade_error UpgradeDuplicate ''Upgrade target is declared more than once.'' (Some (ut_artifact t))])
     else (AList.update (ut_artifact t) t ts, ds))"

definition valid_migration :: "target_map \<Rightarrow> upgrade_migration \<Rightarrow> bool" where
  "valid_migration ts m \<longleftrightarrow> valid_upgrade_id (um_id m)
     \<and> (case map_of ts (um_artifact m) of None \<Rightarrow> False | Some t \<Rightarrow> um_kind m = ut_kind t)
     \<and> upgrade_revision (um_from m) \<and> um_to m = um_from m + 1 \<and> um_from m \<in> set (um_predecessors m)
     \<and> um_migrate m \<noteq> None \<and> um_validate m \<noteq> None"

type_synonym migration_map = "(string, upgrade_migration) js_map"

definition accept_migration ::
  "target_map \<Rightarrow> upgrade_migration \<Rightarrow> migration_map \<times> upgrade_diagnostic list \<Rightarrow> migration_map \<times> upgrade_diagnostic list" where
  "accept_migration ts m = (\<lambda>(ms, ds).
     let key = revision_key (um_artifact m) (um_from m)
     in if \<not> valid_migration ts m
        then (ms, ds @ [upgrade_error UpgradeInvalid ''Upgrade migration identity, kind, revisions, or handlers are invalid.''
               (Some (um_artifact m))])
        else if map_of ms key \<noteq> None
        then (ms, ds @ [upgrade_error UpgradeDuplicate ''Upgrade migration revision is declared more than once.'' (Some (um_artifact m))])
        else (AList.update key m ms, ds))"

subsection \<open>Pending steps\<close>

text \<open>The map \<open>pending\<close> is keyed by the key of its steps, so it is the list of the steps.\<close>

definition put_step :: "upgrade_step \<Rightarrow> upgrade_step list \<Rightarrow> upgrade_step list" where
  "put_step s ps = (if us_key s \<in> us_key ` set ps then map (\<lambda>p. if us_key p = us_key s then s else p) ps else ps @ [s])"

definition has_step :: "upgrade_step list \<Rightarrow> string \<Rightarrow> bool" where
  "has_step ps k \<longleftrightarrow> list_ex (\<lambda>p. us_key p = k) ps"

definition step_of_migration :: "upgrade_migration \<Rightarrow> upgrade_step" where
  "step_of_migration m = upgrade_migration.extend m \<lparr>us_key = revision_key (um_artifact m) (um_to m)\<rparr>"

function pending_steps :: "migration_map \<Rightarrow> upgrade_target \<Rightarrow> int \<Rightarrow> upgrade_step list \<times> upgrade_diagnostic list \<Rightarrow>
    upgrade_step list \<times> upgrade_diagnostic list" where
  "pending_steps ms t current (ps, ds) =
     (if current < ut_target t
      then (case map_of ms (revision_key (ut_artifact t) current) of
              None \<Rightarrow> (ps, ds @ [upgrade_error UpgradeGap (''Migration '' @ int_text current @ '' -> '' @ int_text (current + 1) @ '' is missing.'')
                         (Some (ut_artifact t))])
            | Some m \<Rightarrow> pending_steps ms t (current + 1) (put_step (step_of_migration m) ps, ds))
      else (ps, ds))"
  by pat_completeness auto
termination by (relation "measure (\<lambda>(ms, t, current, _). nat (ut_target t - current))") auto

declare pending_steps.simps [simp del]

definition depends_on :: "'a upgrade_migration_scheme \<Rightarrow> string list" where
  "depends_on m = (case um_depends m of None \<Rightarrow> [] | Some ds \<Rightarrow> ds)"

definition dependency_diagnostics :: "upgrade_step list \<Rightarrow> upgrade_diagnostic list" where
  "dependency_diagnostics ps =
     concat (map (\<lambda>s. map (\<lambda>d. upgrade_error UpgradeInvalid (''Dependency '' @ d @ '' is not part of the upgrade graph.'') (Some (um_artifact s)))
                        (filter (\<lambda>d. \<not> has_step ps d) (depends_on s))) ps)"

subsection \<open>The order of the steps\<close>

text \<open>
  \<open>localeCompare\<close> on keys, which consist of lower-case letters, digits, \<open>-\<close>, \<open>.\<close> and \<open>@\<close>: in the root
  collation \<open>-\<close> comes first, then \<open>.\<close>, \<open>@\<close>, the digits and the letters.
\<close>

definition key_weight :: "char \<Rightarrow> nat" where
  "key_weight c = (if c = CHR ''-'' then 0 else if c = CHR ''.'' then 1 else if c = CHR ''@'' then 2 else of_char c)"

definition step_rank :: "upgrade_step \<Rightarrow> nat \<times> nat list" where
  "step_rank s = (kind_rank (um_kind s), map key_weight (us_key s))"

definition step_dependencies :: "target_map \<Rightarrow> upgrade_step \<Rightarrow> string list" where
  "step_dependencies ts s = depends_on s @
     (if map_option ut_current (map_of ts (um_artifact s)) = Some (um_from s) then []
      else [revision_key (um_artifact s) (um_from s)])"

definition step_candidates :: "target_map \<Rightarrow> upgrade_step list \<Rightarrow> upgrade_step list" where
  "step_candidates ts ps = sort_key step_rank (filter (\<lambda>s. list_all (\<lambda>d. \<not> has_step ps d) (step_dependencies ts s)) ps)"

definition without_steps :: "upgrade_step list \<Rightarrow> upgrade_step list \<Rightarrow> upgrade_step list" where
  "without_steps cs ps = fold (\<lambda>c. filter (\<lambda>p. us_key p \<noteq> us_key c)) cs ps"

lemma without_steps_filter: "without_steps cs ps = filter (\<lambda>p. us_key p \<notin> us_key ` set cs) ps"
  unfolding without_steps_def by (induction cs arbitrary: ps) (auto intro!: filter_cong)

lemma set_step_candidates: "set (step_candidates ts ps) = {s \<in> set ps. \<forall>d \<in> set (step_dependencies ts s). \<not> has_step ps d}"
  by (auto simp: step_candidates_def list_all_iff)

function order_steps :: "target_map \<Rightarrow> upgrade_step list \<Rightarrow> upgrade_step list \<Rightarrow> upgrade_step list \<times> upgrade_diagnostic list" where
  "order_steps ts ps done_steps =
     (if ps = [] then (done_steps, [])
      else let cs = step_candidates ts ps
           in if cs = []
              then (done_steps, [upgrade_error UpgradeCycle ''Upgrade migration dependencies contain a cycle or unknown future step.'' None])
              else order_steps ts (without_steps cs ps) (done_steps @ cs))"
  by pat_completeness auto
termination
proof (relation "measure (\<lambda>(ts, ps, _). length ps)", goal_cases)
  case (2 ts ps done_steps cs)
  then have "hd (step_candidates ts ps) \<in> set (step_candidates ts ps)" by simp
  moreover from this have "hd (step_candidates ts ps) \<in> set ps" by (simp add: set_step_candidates)
  ultimately show ?case using 2 by (auto simp: without_steps_filter intro!: length_filter_less)
qed simp

declare order_steps.simps [simp del]

subsection \<open>\<open>planPluginUpgrade\<close>\<close>

definition plan_upgrade :: "semver_calls \<Rightarrow> upgrade_input \<Rightarrow> upgrade_plan" where
  "plan_upgrade v i =
     (let (ts, ds1) = fold accept_target (ui_targets i) ([], release_diagnostics i @ version_diagnostics v i);
          (ms, ds2) = fold (accept_migration ts) (ui_migrations i) ([], ds1);
          (pending, ds3) = fold (\<lambda>t. pending_steps ms t (ut_current t)) (map snd ts) ([], ds2);
          ds4 = ds3 @ dependency_diagnostics pending;
          (ordered, cycle) = order_steps ts pending [];
          ds5 = ds4 @ cycle;
          ready = no_errors ds5
      in \<lparr>up_plugin = ui_plugin i, up_current_version = ui_current_version i, up_target_version = ui_target_version i,
          up_current_release = ui_current_release i, up_target_release = ui_target_release i, up_ready = ready, up_steps = ordered,
          up_diagnostics = (if ready then ds5 @ [upgrade_info (''Upgrade plan contains '' @ int_text (int (length ordered)) @ '' ordered step(s).'')]
                            else ds5)\<rparr>)"

subsection \<open>\<open>dryRunPluginUpgrade\<close>\<close>

text \<open>\<open>structuredClone\<close> of the artifacts throws when one of them cannot be cloned.\<close>

fun clone_artifacts :: "(string \<times> handled) list \<Rightarrow> (string \<times> json) list option" where
  "clone_artifacts [] = Some []"
| "clone_artifacts ((k, Cloneable j) # xs) = map_option (\<lambda>ys. (k, j) # ys) (clone_artifacts xs)"
| "clone_artifacts ((k, NotCloneable) # xs) = None"

definition has_revision :: "int \<Rightarrow> json \<Rightarrow> bool" where
  "has_revision n j = (case j of JObj kvs \<Rightarrow> map_of kvs ''revision'' = Some (JNum n) | _ \<Rightarrow> False)"

text \<open>The body of the \<open>try\<close>: any exception is \<open>None\<close>.\<close>

definition run_migration :: "'a upgrade_migration_scheme \<Rightarrow> json \<Rightarrow> json option" where
  "run_migration s j =
     Option.bind (um_migrate s) (\<lambda>migrate.
     Option.bind (migrate j) (\<lambda>migrated.
     Option.bind (um_validate s) (\<lambda>validate.
     Option.bind (validate migrated) (\<lambda>valid.
     if \<not> valid then None else (case migrated of Cloneable w \<Rightarrow> Some w | NotCloneable \<Rightarrow> None)))))"

definition dry_run_step :: "'a upgrade_migration_scheme \<Rightarrow> (string \<times> json) list \<Rightarrow> upgrade_diagnostic + (string \<times> json) list" where
  "dry_run_step s artifacts =
     (case map_of artifacts (um_artifact s) of
        None \<Rightarrow> Inl (upgrade_error RevisionMismatch ''Dry-run input is missing the migration artifact.'' (Some (um_artifact s)))
      | Some current \<Rightarrow>
          if \<not> has_revision (um_from s) current
          then Inl (upgrade_error RevisionMismatch (''Dry-run artifact does not match predecessor revision '' @ int_text (um_from s) @ ''.'')
                 (Some (um_artifact s)))
          else (case run_migration s current of
                  None \<Rightarrow> Inl (upgrade_error MigrationFailed (''Dry-run migration '' @ um_id s @ '' failed.'') (Some (um_artifact s)))
                | Some migrated \<Rightarrow> Inr (AList.update (um_artifact s) migrated artifacts)))"

fun dry_run_steps :: "upgrade_step list \<Rightarrow> (string \<times> json) list \<times> upgrade_diagnostic list \<Rightarrow> (string \<times> json) list \<times> upgrade_diagnostic list" where
  "dry_run_steps [] (artifacts, ds) = (artifacts, ds)"
| "dry_run_steps (s # ss) (artifacts, ds) =
     (case dry_run_step s artifacts of
        Inl d \<Rightarrow> (artifacts, ds @ [d])
      | Inr next \<Rightarrow> dry_run_steps ss (next, ds))"

definition dry_run_upgrade :: "upgrade_plan \<Rightarrow> (string \<times> handled) list \<Rightarrow> upgrade_dry_run option" where
  "dry_run_upgrade p inputs =
     (case clone_artifacts inputs of
        None \<Rightarrow> None
      | Some artifacts \<Rightarrow>
          if \<not> up_ready p then Some \<lparr>udr_ready = False, udr_diagnostics = up_diagnostics p, udr_artifacts = artifacts\<rparr>
          else let (final, ds) = dry_run_steps (up_steps p) (artifacts, up_diagnostics p); ready = no_errors ds
               in Some \<lparr>udr_ready = ready,
                    udr_diagnostics = (if ready then ds @ [upgrade_info ''Upgrade dry-run completed without mutating source artifacts.''] else ds),
                    udr_artifacts = final\<rparr>)"

end
