(* ===== verification/UpgradePlannerProperties.thy ===== *)
theory UpgradePlannerProperties
  imports UpgradePlanner CanonicalJsonProperties
begin

text \<open>
  Correctness of upgrade plans. A plan is ready exactly when a declarative condition on the input
  holds, whose last part is that the dependencies are acyclic; the steps of a ready plan are the required
  migrations in an order that respects them; and a dry run is the same as one chain of migrations for each artifact.
\<close>

subsection \<open>The specification\<close>

definition migration_revision :: "upgrade_migration \<Rightarrow> string \<times> int" where
  "migration_revision m = (um_artifact m, um_from m)"

definition result_key :: "upgrade_migration \<Rightarrow> string" where
  "result_key m = revision_key (um_artifact m) (um_to m)"

definition target_revisions :: "upgrade_target \<Rightarrow> (string \<times> int) list" where
  "target_revisions t = map (Pair (ut_artifact t)) [ut_current t .. ut_target t - 1]"

definition required_revisions :: "upgrade_target list \<Rightarrow> (string \<times> int) list" where
  "required_revisions ts = concat (map target_revisions ts)"

definition required_migrations :: "upgrade_input \<Rightarrow> upgrade_migration list" where
  "required_migrations i = filter (\<lambda>m. migration_revision m \<in> set (required_revisions (ui_targets i))) (ui_migrations i)"

text \<open>The dependencies between the results of migrations: the declared ones, and the previous revision of the artifact.\<close>

definition must_precede :: "upgrade_migration list \<Rightarrow> (string \<times> string) set" where
  "must_precede ms = {(result_key n, result_key m) | n m. n \<in> set ms \<and> m \<in> set ms \<and>
     (result_key n \<in> set (depends_on m) \<or> um_artifact n = um_artifact m \<and> um_to n = um_from m)}"

definition trusted_artifact :: "release_manifest unknown \<Rightarrow> string \<Rightarrow> string \<Rightarrow> string \<Rightarrow> string \<Rightarrow> bool" where
  "trusted_artifact u release package version integrity \<longleftrightarrow>
     (\<exists>m. u = Some m \<and> valid_manifest m \<and> rm_version m = release \<and>
        (\<exists>p \<in> set (rm_packages m). rp_package p = package \<and> rp_version p = version \<and> rp_integrity p = integrity))"

definition release_supported :: "upgrade_input \<Rightarrow> bool" where
  "release_supported i \<longleftrightarrow> ui_current_release i = ui_target_release i \<and>
     (\<exists>x y. x \<noteq> y \<and> trusted_artifact (ui_current_manifest i) (ui_current_release i) (ui_package i) (ui_current_version i) x
          \<and> trusted_artifact (ui_target_manifest i) (ui_target_release i) (ui_package i) (ui_target_version i) y)"

definition versions_ordered :: "semver_calls \<Rightarrow> upgrade_input \<Rightarrow> bool" where
  "versions_ordered v i \<longleftrightarrow> valid_upgrade_id (ui_plugin i) \<and> svc_valid v (ui_current_version i) \<and> svc_valid v (ui_target_version i)
     \<and> 0 \<le> svc_compare v (ui_target_version i) (ui_current_version i)"

definition applicable_migration :: "upgrade_target list \<Rightarrow> upgrade_migration \<Rightarrow> bool" where
  "applicable_migration ts m \<longleftrightarrow> valid_upgrade_id (um_id m) \<and> (\<exists>t \<in> set ts. ut_artifact t = um_artifact m \<and> ut_kind t = um_kind m)
     \<and> upgrade_revision (um_from m) \<and> um_to m = um_from m + 1 \<and> um_from m \<in> set (um_predecessors m)
     \<and> um_migrate m \<noteq> None \<and> um_validate m \<noteq> None"

definition upgradable :: "semver_calls \<Rightarrow> upgrade_input \<Rightarrow> bool" where
  "upgradable v i \<longleftrightarrow> release_supported i \<and> versions_ordered v i
     \<and> list_all valid_target (ui_targets i) \<and> distinct (map ut_artifact (ui_targets i))
     \<and> list_all (applicable_migration (ui_targets i)) (ui_migrations i) \<and> distinct (map migration_revision (ui_migrations i))
     \<and> set (required_revisions (ui_targets i)) \<subseteq> migration_revision ` set (ui_migrations i)
     \<and> (\<forall>m \<in> set (required_migrations i). set (depends_on m) \<subseteq> result_key ` set (required_migrations i))
     \<and> acyclic (must_precede (required_migrations i))"

subsection \<open>Diagnostics\<close>

lemma no_errors_append [simp]: "no_errors (xs @ ys) \<longleftrightarrow> no_errors xs \<and> no_errors ys"
  by (simp add: no_errors_def)

lemma no_errors_Nil [simp]: "no_errors []"
  by (simp add: no_errors_def)

lemma no_errors_error [simp]: "no_errors (upgrade_error c m a # ds) \<longleftrightarrow> False"
  by (simp add: no_errors_def upgrade_error_def)

lemma no_errors_info [simp]: "no_errors (upgrade_info m # ds) \<longleftrightarrow> no_errors ds"
  by (simp add: no_errors_def upgrade_info_def)

lemma find_unique:
  assumes "distinct (map f xs)"
  shows "find (\<lambda>x. f x = k) xs = Some x \<longleftrightarrow> x \<in> set xs \<and> f x = k"
  using assms by (induction xs) auto

lemma release_diagnostics_supported: "no_errors (release_diagnostics i) \<longleftrightarrow> release_supported i"
proof (cases "\<exists>c t. ui_current_manifest i = Some c \<and> ui_target_manifest i = Some t \<and> valid_manifest c \<and> valid_manifest t")
  case True
  then obtain c t where m: "ui_current_manifest i = Some c" "ui_target_manifest i = Some t" "valid_manifest c" "valid_manifest t" by auto
  have d: "distinct (map rp_package (rm_packages c))" "distinct (map rp_package (rm_packages t))"
    using m(3,4) by (simp_all add: valid_manifest_def)
  have window: "set (rm_supported t) = {rm_version t}"
    using m(4) by (cases "rm_supported t") (auto simp: valid_manifest_def)
  show ?thesis
  proof
    assume "no_errors (release_diagnostics i)"
    then show "release_supported i"
      using m window find_unique [OF d(1), of "ui_package i"] find_unique [OF d(2), of "ui_package i"]
      by (fastforce simp: release_diagnostics_def parse_manifest_def release_supported_def trusted_artifact_def
        split: if_splits option.splits)
  next
    assume "release_supported i"
    then obtain p q where pq: "p \<in> set (rm_packages c)" "q \<in> set (rm_packages t)" "rp_package p = ui_package i" "rp_package q = ui_package i"
      "rp_version p = ui_current_version i" "rp_version q = ui_target_version i" "rp_integrity p \<noteq> rp_integrity q"
      "ui_current_release i = ui_target_release i" "rm_version c = ui_current_release i" "rm_version t = ui_target_release i"
      using m by (auto simp: release_supported_def trusted_artifact_def)
    have "find (\<lambda>p. rp_package p = ui_package i) (rm_packages c) = Some p" "find (\<lambda>p. rp_package p = ui_package i) (rm_packages t) = Some q"
      using find_unique [OF d(1), of "ui_package i" p] find_unique [OF d(2), of "ui_package i" q] pq by simp_all
    then show "no_errors (release_diagnostics i)"
      using m pq window by (simp add: release_diagnostics_def parse_manifest_def)
  qed
next
  case False
  then show ?thesis
    by (auto simp: release_diagnostics_def parse_manifest_def release_supported_def trusted_artifact_def split: option.splits)
qed

lemma version_diagnostics_ordered: "no_errors (version_diagnostics v i) \<longleftrightarrow> versions_ordered v i"
  by (auto simp: version_diagnostics_def versions_ordered_def)

subsection \<open>Acceptance\<close>

definition target_entries :: "upgrade_target list \<Rightarrow> target_map" where
  "target_entries xs = map (\<lambda>t. (ut_artifact t, t)) xs"

lemma accept_targets_kept: "no_errors (snd (fold accept_target xs s)) \<Longrightarrow> no_errors (snd s)"
proof (induction xs arbitrary: s)
  case (Cons x xs)
  then have "no_errors (snd (accept_target x s))" by simp
  then show ?case by (auto simp: accept_target_def split_beta split: if_splits)
qed simp

lemma accept_targets:
  "(no_errors (snd (fold accept_target xs (ts, ds))) \<longleftrightarrow>
      no_errors ds \<and> list_all valid_target xs \<and> distinct (map ut_artifact xs) \<and> set (map ut_artifact xs) \<inter> fst ` set ts = {})
   \<and> (no_errors (snd (fold accept_target xs (ts, ds))) \<longrightarrow> fst (fold accept_target xs (ts, ds)) = ts @ target_entries xs)"
proof (induction xs arbitrary: ts)
  case (Cons x xs)
  show ?case
  proof (cases "valid_target x \<and> ut_artifact x \<notin> fst ` set ts")
    case True
    then have "accept_target x (ts, ds) = (ts @ [(ut_artifact x, x)], ds)"
      by (auto simp: accept_target_def map_of_eq_None_iff update_absent)
    then show ?thesis using Cons.IH [of "ts @ [(ut_artifact x, x)]"] True by (auto simp: target_entries_def)
  next
    case False
    then have "\<not> no_errors (snd (accept_target x (ts, ds)))"
      by (auto simp: accept_target_def map_of_eq_None_iff Let_def)
    then have "\<not> no_errors (snd (fold accept_target (x # xs) (ts, ds)))" using accept_targets_kept [of xs "accept_target x (ts, ds)"] by auto
    then show ?thesis using False by auto
  qed
qed (simp add: target_entries_def)

definition migration_key :: "upgrade_migration \<Rightarrow> string" where
  "migration_key m = revision_key (um_artifact m) (um_from m)"

definition migration_entries :: "upgrade_migration list \<Rightarrow> migration_map" where
  "migration_entries xs = map (\<lambda>m. (migration_key m, m)) xs"

lemma accept_migrations_kept: "no_errors (snd (fold (accept_migration ts) xs s)) \<Longrightarrow> no_errors (snd s)"
proof (induction xs arbitrary: s)
  case (Cons x xs)
  then have "no_errors (snd (accept_migration ts x s))" by simp
  then show ?case by (auto simp: accept_migration_def Let_def split_beta split: if_splits)
qed simp

lemma accept_migrations:
  "(no_errors (snd (fold (accept_migration ts) xs (ms, ds))) \<longleftrightarrow>
      no_errors ds \<and> list_all (valid_migration ts) xs \<and> distinct (map migration_key xs) \<and> set (map migration_key xs) \<inter> fst ` set ms = {})
   \<and> (no_errors (snd (fold (accept_migration ts) xs (ms, ds))) \<longrightarrow> fst (fold (accept_migration ts) xs (ms, ds)) = ms @ migration_entries xs)"
proof (induction xs arbitrary: ms)
  case (Cons x xs)
  show ?case
  proof (cases "(valid_migration ts) x \<and> migration_key x \<notin> fst ` set ms")
    case True
    then have "(accept_migration ts) x (ms, ds) = (ms @ [(migration_key x, x)], ds)"
      by (auto simp: accept_migration_def migration_key_def map_of_eq_None_iff update_absent)
    then show ?thesis using Cons.IH [of "ms @ [(migration_key x, x)]"] True by (auto simp: migration_entries_def)
  next
    case False
    then have "\<not> no_errors (snd ((accept_migration ts) x (ms, ds)))"
      by (auto simp: accept_migration_def migration_key_def map_of_eq_None_iff Let_def)
    then have "\<not> no_errors (snd (fold (accept_migration ts) (x # xs) (ms, ds)))" using accept_migrations_kept [of ts xs "(accept_migration ts) x (ms, ds)"] by auto
    then show ?thesis using False by auto
  qed
qed (simp add: migration_entries_def)

subsection \<open>Keys\<close>

lemma at_free_artifact:
  assumes "valid_upgrade_id s"
  shows "CHR ''@'' \<notin> set s"
proof -
  let ?t = "map (\<lambda>c. if c = CHR ''-'' then CHR ''.'' else c) s"
  have parts: "set t \<subseteq> {CHR ''.''} \<union> \<Union> (set ` set (split_on CHR ''.'' t))" for t
  proof (induction t)
    case (Cons c cs)
    then show ?case by (cases "split_on CHR ''.'' cs") auto
  qed simp
  have "CHR ''@'' \<notin> set ?t"
  proof
    assume "CHR ''@'' \<in> set ?t"
    then obtain p where "p \<in> set (split_on CHR ''.'' ?t)" "CHR ''@'' \<in> set p" using parts [of ?t] by auto
    moreover have "lower_or_digit p" if "p \<in> set (split_on CHR ''.'' ?t)" for p
      using assms that by (auto simp: valid_upgrade_id_def Let_def list_all_iff)
    ultimately have "is_lower CHR ''@'' \<or> is_digit CHR ''@''" unfolding lower_or_digit_def by blast
    then show False by (simp add: is_lower_def is_digit_def less_eq_char_def)
  qed
  then show ?thesis by force
qed

lemma revision_key_inject:
  assumes "CHR ''@'' \<notin> set a" "CHR ''@'' \<notin> set b"
  shows "revision_key a m = revision_key b n \<longleftrightarrow> a = b \<and> m = n"
proof
  assume eq: "revision_key a m = revision_key b n"
  have "takeWhile (\<lambda>c. c \<noteq> CHR ''@'') (revision_key c k) = c" if "CHR ''@'' \<notin> set c" for c k
    unfolding revision_key_def by (subst takeWhile_append2) (use that in auto)
  from this [OF assms(1), of m] this [OF assms(2), of n] eq have "a = b" by simp
  with eq show "a = b \<and> m = n" by (simp add: revision_key_def int_text_inject)
qed simp

subsection \<open>Pending steps\<close>

lemma step_of_migration_simps [simp]:
  "um_artifact (step_of_migration m) = um_artifact m" "um_from (step_of_migration m) = um_from m"
  "um_to (step_of_migration m) = um_to m" "um_kind (step_of_migration m) = um_kind m" "depends_on (step_of_migration m) = depends_on m"
  "us_key (step_of_migration m) = result_key m" "um_migrate (step_of_migration m) = um_migrate m"
  "um_validate (step_of_migration m) = um_validate m"
  by (simp_all add: step_of_migration_def upgrade_migration.defs result_key_def depends_on_def)

definition has_all_revisions :: "migration_map \<Rightarrow> upgrade_target \<Rightarrow> int \<Rightarrow> bool" where
  "has_all_revisions ms t n \<longleftrightarrow> (\<forall>c \<in> {n ..< ut_target t}. map_of ms (revision_key (ut_artifact t) c) \<noteq> None)"

definition found_steps :: "migration_map \<Rightarrow> upgrade_target \<Rightarrow> int \<Rightarrow> upgrade_step list" where
  "found_steps ms t n = map (\<lambda>c. step_of_migration (the (map_of ms (revision_key (ut_artifact t) c)))) [n .. ut_target t - 1]"

lemma pending_steps_kept: "no_errors (snd (pending_steps ms t n s)) \<Longrightarrow> no_errors (snd s)"
proof (induction ms t n s rule: pending_steps.induct)
  case (1 ms t n ps ds)
  then show ?case
    by (auto simp: pending_steps.simps [of ms t n] split: if_splits option.splits)
qed

lemma pending_steps_missing:
  "\<not> has_all_revisions ms t n \<Longrightarrow> \<not> no_errors (snd (pending_steps ms t n (ps, ds)))"
proof (induction ms t n "(ps, ds)" arbitrary: ps ds rule: pending_steps.induct)
  case (1 ms t n ps ds)
  then have n: "n < ut_target t" by (auto simp: has_all_revisions_def)
  show ?case
  proof (cases "map_of ms (revision_key (ut_artifact t) n)")
    case None
    then show ?thesis using n by (simp add: pending_steps.simps)
  next
    case (Some m)
    have "\<not> has_all_revisions ms t (n + 1)"
    proof
      assume "has_all_revisions ms t (n + 1)"
      then have "has_all_revisions ms t n" using Some by (fastforce simp: has_all_revisions_def le_less)
      with 1(2) show False by simp
    qed
    then show ?thesis using 1(1) [OF n Some] Some n by (simp add: pending_steps.simps)
  qed
qed

lemma pending_steps_found:
  assumes "has_all_revisions ms t n"
    and "distinct (map us_key (ps @ found_steps ms t n))"
  shows "pending_steps ms t n (ps, ds) = (ps @ found_steps ms t n, ds)"
  using assms
proof (induction ms t n "(ps, ds)" arbitrary: ps ds rule: pending_steps.induct)
  case (1 ms t n ps ds)
  show ?case
  proof (cases "n < ut_target t")
    case True
    then obtain m where m: "map_of ms (revision_key (ut_artifact t) n) = Some m"
      using 1(2) unfolding has_all_revisions_def by (metis True atLeastLessThan_iff not_Some_eq order_refl)
    have split: "found_steps ms t n = step_of_migration m # found_steps ms t (n + 1)"
      using True m by (simp add: found_steps_def upto_rec1)
    have "us_key (step_of_migration m) \<notin> us_key ` set ps" using 1(3) by (simp add: split image_iff)
    then have put: "put_step (step_of_migration m) ps = ps @ [step_of_migration m]" by (simp add: put_step_def)
    have "has_all_revisions ms t (n + 1)" using 1(2) by (simp add: has_all_revisions_def)
    then show ?thesis using 1(1) [OF True m] 1(3) True m by (simp add: pending_steps.simps [of ms t n] put split)
  qed (simp add: pending_steps.simps found_steps_def)
qed

definition pending_step_lists :: "migration_map \<Rightarrow> upgrade_target list \<Rightarrow> upgrade_step list" where
  "pending_step_lists ms xs = concat (map (\<lambda>t. found_steps ms t (ut_current t)) xs)"

lemma pending_fold_all:
  "no_errors (snd (fold (\<lambda>t. pending_steps ms t (ut_current t)) xs (ps, ds))) \<Longrightarrow>
     no_errors ds \<and> (\<forall>t \<in> set xs. has_all_revisions ms t (ut_current t))"
proof (induction xs arbitrary: ps ds)
  case (Cons x xs)
  obtain qs es where first: "pending_steps ms x (ut_current x) (ps, ds) = (qs, es)" by fastforce
  have rest: "no_errors es \<and> (\<forall>t \<in> set xs. has_all_revisions ms t (ut_current t))"
    by (rule Cons.IH [of qs es]) (use Cons.prems first in simp)
  then have "no_errors ds" using pending_steps_kept [of ms x "ut_current x" "(ps, ds)"] first by simp
  moreover have "has_all_revisions ms x (ut_current x)"
    using pending_steps_missing [of ms x "ut_current x" ps ds] first rest by auto
  ultimately show ?case using rest by simp
qed simp

lemma pending_fold_found:
  assumes "\<forall>t \<in> set xs. has_all_revisions ms t (ut_current t)" "distinct (map us_key (ps @ pending_step_lists ms xs))"
  shows "fold (\<lambda>t. pending_steps ms t (ut_current t)) xs (ps, ds) = (ps @ pending_step_lists ms xs, ds)"
  using assms
proof (induction xs arbitrary: ps)
  case (Cons x xs)
  have "pending_steps ms x (ut_current x) (ps, ds) = (ps @ found_steps ms x (ut_current x), ds)"
    by (rule pending_steps_found) (use Cons.prems in \<open>auto simp: pending_step_lists_def\<close>)
  then show ?case using Cons.IH [of "ps @ found_steps ms x (ut_current x)"] Cons.prems by (simp add: pending_step_lists_def)
qed (simp add: pending_step_lists_def)

subsection \<open>The order of the steps\<close>

lemma has_step_set: "has_step ps k \<longleftrightarrow> k \<in> us_key ` set ps"
  by (auto simp: has_step_def list_ex_iff)

definition step_edges :: "target_map \<Rightarrow> upgrade_step list \<Rightarrow> (string \<times> string) set" where
  "step_edges ts ps = {(d, us_key s) | d s. s \<in> set ps \<and> d \<in> set (step_dependencies ts s) \<and> d \<in> us_key ` set ps}"

definition topological :: "target_map \<Rightarrow> upgrade_step list \<Rightarrow> upgrade_step list \<Rightarrow> bool" where
  "topological ts ps out \<longleftrightarrow> mset out = mset ps \<and>
     (\<forall>n < length out. \<forall>d \<in> set (step_dependencies ts (out ! n)). d \<in> us_key ` set ps \<longrightarrow> d \<in> us_key ` set (take n out))"

lemma layer_partition:
  fixes ts :: target_map
  assumes "distinct (map us_key ps)"
  defines "cs \<equiv> step_candidates ts ps"
  shows "mset cs + mset (without_steps cs ps) = mset ps"
    and "set ps = set cs \<union> set (without_steps cs ps)"
    and "distinct (map us_key (without_steps cs ps))"
proof -
  let ?P = "\<lambda>s. list_all (\<lambda>d. \<not> has_step ps d) (step_dependencies ts s)"
  have "us_key p \<in> us_key ` set cs \<longleftrightarrow> ?P p" if "p \<in> set ps" for p
    using assms(1) that unfolding cs_def by (auto simp: set_step_candidates list_all_iff distinct_map dest: inj_onD)
  then have rest: "without_steps cs ps = filter (\<lambda>p. \<not> ?P p) ps"
    by (simp add: without_steps_filter cong: filter_cong)
  then show "mset cs + mset (without_steps cs ps) = mset ps"
    by (simp add: cs_def step_candidates_def)
  then show "set ps = set cs \<union> set (without_steps cs ps)" by (metis set_mset_mset set_mset_union)
  show "distinct (map us_key (without_steps cs ps))" using assms(1) by (simp add: rest distinct_map_filter)
qed

lemma order_steps_topological:
  assumes "snd (order_steps ts ps acc) = []" "distinct (map us_key ps)"
  shows "\<exists>out. fst (order_steps ts ps acc) = acc @ out \<and> topological ts ps out"
  using assms
proof (induction ts ps acc rule: order_steps.induct)
  case (1 ts ps acc)
  let ?cs = "step_candidates ts ps" and ?rest = "without_steps (step_candidates ts ps) ps"
  show ?case
  proof (cases "ps = []")
    case False
    then have cs: "?cs \<noteq> []" using 1(2) by (auto simp: order_steps.simps [of ts ps])
    have eq: "order_steps ts ps acc = order_steps ts ?rest (acc @ ?cs)"
      using False cs by (simp add: order_steps.simps [of ts ps] Let_def)
    obtain out where out: "fst (order_steps ts ?rest (acc @ ?cs)) = (acc @ ?cs) @ out" "topological ts ?rest out"
      using 1(1) [OF False refl cs] 1(2,3) eq layer_partition(3) [of ps ts] by auto
    have "d \<in> us_key ` set (take n (?cs @ out))"
      if n: "n < length (?cs @ out)" and d: "d \<in> set (step_dependencies ts ((?cs @ out) ! n))" "d \<in> us_key ` set ps" for n d
    proof (cases "n < length ?cs")
      case True
      then have "?cs ! n \<in> set ?cs" by simp
      then have "\<not> has_step ps d" using d(1) True by (simp add: set_step_candidates nth_append)
      then show ?thesis using d(2) by (simp add: has_step_set)
    next
      case False
      then show ?thesis using n d out(2) layer_partition(2) [OF 1(3), of ts]
        by (auto simp: topological_def nth_append image_Un)
    qed
    moreover have "mset (?cs @ out) = mset ps" using out(2) layer_partition(1) [OF 1(3), of ts] by (simp add: topological_def)
    ultimately have "topological ts ps (?cs @ out)" by (simp add: topological_def)
    then show ?thesis using out(1) eq by auto
  qed (simp add: order_steps.simps topological_def)
qed

lemma finite_step_edges: "finite (step_edges ts ps)"
  by (rule finite_subset [of _ "us_key ` set ps \<times> us_key ` set ps"]) (auto simp: step_edges_def)

lemma order_steps_acyclic:
  assumes "acyclic (step_edges ts ps)" "distinct (map us_key ps)"
  shows "snd (order_steps ts ps acc) = []"
  using assms
proof (induction ts ps acc rule: order_steps.induct)
  case (1 ts ps acc)
  let ?cs = "step_candidates ts ps" and ?rest = "without_steps (step_candidates ts ps) ps"
  show ?case
  proof (cases "ps = []")
    case False
    have "wf (step_edges ts ps)" using 1(2) finite_step_edges by (simp add: finite_acyclic_wf)
    then obtain k where k: "k \<in> us_key ` set ps" "\<And>d. (d, k) \<in> step_edges ts ps \<Longrightarrow> d \<notin> us_key ` set ps"
      using False wfE_min [of "step_edges ts ps" "us_key (hd ps)" "us_key ` set ps"] by (metis hd_in_set imageI)
    then obtain s where "s \<in> set ps" "us_key s = k" by auto
    then have "s \<in> set ?cs" using k(2) by (fastforce simp: set_step_candidates has_step_set step_edges_def)
    then have cs: "?cs \<noteq> []" by auto
    have "step_edges ts ?rest \<subseteq> step_edges ts ps" by (auto simp: step_edges_def without_steps_filter)
    then have "acyclic (step_edges ts ?rest)" using 1(2) acyclic_subset by blast
    then show ?thesis
      using 1(1) [OF False refl cs] layer_partition(3) [OF 1(3), of ts] False cs by (simp add: order_steps.simps [of ts ps] Let_def)
  qed (simp add: order_steps.simps)
qed

lemma kind_index_nth: "distinct xs \<Longrightarrow> n < length xs \<Longrightarrow> kind_index (xs ! n) xs = n"
  by (induction xs arbitrary: n) (auto simp: nth_Cons split: nat.splits)

lemma kind_index_take: "x \<in> set (take n xs) \<Longrightarrow> kind_index x xs < n"
proof (induction xs arbitrary: n)
  case (Cons y ys)
  then show ?case by (cases n) auto
qed simp

lemma topological_acyclic:
  assumes "topological ts ps out" "distinct (map us_key ps)"
  shows "acyclic (step_edges ts ps)"
proof -
  have distinct: "distinct (map us_key out)"
    using assms by (metis mset_map mset_eq_imp_distinct_iff topological_def)
  have sets: "set out = set ps" using assms(1) by (metis set_mset_mset topological_def)
  have "kind_index d (map us_key out) < kind_index k (map us_key out)" if "(d, k) \<in> step_edges ts ps" for d k
  proof -
    from that obtain s where s: "s \<in> set out" "k = us_key s" "d \<in> set (step_dependencies ts s)" "d \<in> us_key ` set ps"
      by (auto simp: step_edges_def sets)
    then obtain n where n: "n < length out" "s = out ! n" by (auto simp: in_set_conv_nth)
    then have "d \<in> us_key ` set (take n out)" using s assms(1) by (simp add: topological_def)
    then have "kind_index d (map us_key out) < n" by (intro kind_index_take) (simp add: take_map)
    then show ?thesis using n s(2) kind_index_nth [OF distinct, of n] by simp
  qed
  then have "step_edges ts ps \<subseteq> inv_image less_than (\<lambda>k. kind_index k (map us_key out))" by (auto simp: inv_image_def)
  then show ?thesis using wf_acyclic wf_subset wf_inv_image wf_less_than by metis
qed

lemma order_steps_exact:
  assumes "distinct (map us_key ps)"
  shows "snd (order_steps ts ps []) = [] \<longleftrightarrow> acyclic (step_edges ts ps)"
  using assms order_steps_acyclic order_steps_topological topological_acyclic by blast

subsection \<open>Accepted inputs\<close>

definition accepted_input :: "upgrade_input \<Rightarrow> bool" where
  "accepted_input i \<longleftrightarrow> list_all valid_target (ui_targets i) \<and> distinct (map ut_artifact (ui_targets i))
     \<and> list_all (applicable_migration (ui_targets i)) (ui_migrations i) \<and> distinct (map migration_revision (ui_migrations i))"

lemma target_entries_lookup:
  assumes "distinct (map ut_artifact xs)"
  shows "map_of (target_entries xs) a = Some t \<longleftrightarrow> t \<in> set xs \<and> ut_artifact t = a"
proof -
  have "distinct (map fst (target_entries xs))" using assms by (simp add: target_entries_def comp_def)
  then show ?thesis by (auto simp: map_of_eq_Some_iff target_entries_def)
qed

lemma valid_applicable:
  assumes "distinct (map ut_artifact xs)"
  shows "valid_migration (target_entries xs) m \<longleftrightarrow> applicable_migration xs m"
proof -
  have "(case map_of (target_entries xs) (um_artifact m) of None \<Rightarrow> False | Some t \<Rightarrow> um_kind m = ut_kind t)
      \<longleftrightarrow> (\<exists>t \<in> set xs. ut_artifact t = um_artifact m \<and> ut_kind t = um_kind m)" (is "?l \<longleftrightarrow> ?r")
  proof -
    have "?l \<longleftrightarrow> (\<exists>t. map_of (target_entries xs) (um_artifact m) = Some t \<and> um_kind m = ut_kind t)"
      by (auto split: option.splits)
    also have "\<dots> \<longleftrightarrow> ?r" by (auto simp: target_entries_lookup [OF assms])
    finally show ?thesis .
  qed
  then show ?thesis by (simp add: valid_migration_def applicable_migration_def)
qed

lemma applicable_at_free:
  "list_all valid_target xs \<Longrightarrow> applicable_migration xs m \<Longrightarrow> CHR ''@'' \<notin> set (um_artifact m)"
  by (metis applicable_migration_def at_free_artifact list_all_iff valid_target_def)

lemma distinct_keys_revisions:
  assumes "list_all valid_target xs" "list_all (applicable_migration xs) ms"
  shows "distinct (map migration_key ms) \<longleftrightarrow> distinct (map migration_revision ms)"
proof -
  have "migration_key m = migration_key n \<longleftrightarrow> migration_revision m = migration_revision n" if "m \<in> set ms" "n \<in> set ms" for m n
    using that assms applicable_at_free [OF assms(1)] by (auto simp: list_all_iff migration_key_def migration_revision_def revision_key_inject)
  then have "inj_on migration_key (set ms) \<longleftrightarrow> inj_on migration_revision (set ms)" by (auto simp: inj_on_def)
  then show ?thesis by (simp add: distinct_map)
qed

lemma accepted_migration:
  assumes "accepted_input i" "m \<in> set (ui_migrations i)"
  shows "CHR ''@'' \<notin> set (um_artifact m)" "um_to m = um_from m + 1"
    "\<exists>t \<in> set (ui_targets i). ut_artifact t = um_artifact m \<and> ut_kind t = um_kind m"
proof -
  have a: "list_all valid_target (ui_targets i)" "applicable_migration (ui_targets i) m"
    using assms by (auto simp: accepted_input_def list_all_iff)
  then show "CHR ''@'' \<notin> set (um_artifact m)" by (rule applicable_at_free)
  show "um_to m = um_from m + 1" "\<exists>t \<in> set (ui_targets i). ut_artifact t = um_artifact m \<and> ut_kind t = um_kind m"
    using a(2) by (auto simp: applicable_migration_def)
qed

lemma migration_entries_lookup:
  assumes "accepted_input i" "CHR ''@'' \<notin> set a"
  shows "map_of (migration_entries (ui_migrations i)) (revision_key a c) = Some m
     \<longleftrightarrow> m \<in> set (ui_migrations i) \<and> migration_revision m = (a, c)"
proof -
  have "distinct (map migration_key (ui_migrations i))"
    using assms(1) distinct_keys_revisions [of "ui_targets i" "ui_migrations i"] by (simp add: accepted_input_def)
  then have "distinct (map fst (migration_entries (ui_migrations i)))" by (simp add: migration_entries_def comp_def)
  then have "map_of (migration_entries (ui_migrations i)) (revision_key a c) = Some m
      \<longleftrightarrow> m \<in> set (ui_migrations i) \<and> migration_key m = revision_key a c"
    by (auto simp: map_of_eq_Some_iff migration_entries_def image_iff)
  then show ?thesis
    using accepted_migration(1) [OF assms(1)] assms(2) by (auto simp: migration_key_def migration_revision_def revision_key_inject)
qed

lemma accepted_target_at_free: "accepted_input i \<Longrightarrow> t \<in> set (ui_targets i) \<Longrightarrow> CHR ''@'' \<notin> set (ut_artifact t)"
  by (auto simp: accepted_input_def list_all_iff valid_target_def at_free_artifact)

lemma required_revisions_set:
  "(a, c) \<in> set (required_revisions ts) \<longleftrightarrow> (\<exists>t \<in> set ts. ut_artifact t = a \<and> ut_current t \<le> c \<and> c < ut_target t)"
  by (fastforce simp: required_revisions_def target_revisions_def image_iff)

lemma has_all_required:
  assumes "accepted_input i"
  shows "(\<forall>t \<in> set (ui_targets i). has_all_revisions (migration_entries (ui_migrations i)) t (ut_current t))
     \<longleftrightarrow> set (required_revisions (ui_targets i)) \<subseteq> migration_revision ` set (ui_migrations i)"
proof -
  have "map_of (migration_entries (ui_migrations i)) (revision_key (ut_artifact t) c) \<noteq> None
      \<longleftrightarrow> (ut_artifact t, c) \<in> migration_revision ` set (ui_migrations i)" if "t \<in> set (ui_targets i)" for t c
    using migration_entries_lookup [OF assms accepted_target_at_free [OF assms that]] by (auto simp: image_iff) metis
  then show ?thesis
    by (auto simp: has_all_revisions_def required_revisions_set subset_iff) blast
qed

definition found_migrations :: "upgrade_input \<Rightarrow> upgrade_migration list" where
  "found_migrations i =
     map (\<lambda>(a, c). the (map_of (migration_entries (ui_migrations i)) (revision_key a c))) (required_revisions (ui_targets i))"

lemma pending_found:
  "pending_step_lists (migration_entries (ui_migrations i)) (ui_targets i) = map step_of_migration (found_migrations i)"
  by (simp add: pending_step_lists_def found_migrations_def required_revisions_def target_revisions_def found_steps_def map_concat comp_def)

lemma distinct_required:
  assumes "distinct (map ut_artifact ts)"
  shows "distinct (required_revisions ts)"
  using assms
proof (induction ts)
  case (Cons t ts)
  then show ?case
    by (fastforce simp: required_revisions_def target_revisions_def distinct_map inj_on_def)
qed (simp add: required_revisions_def)

lemma found_required:
  assumes "accepted_input i" "set (required_revisions (ui_targets i)) \<subseteq> migration_revision ` set (ui_migrations i)"
  shows "map migration_revision (found_migrations i) = required_revisions (ui_targets i)"
    and "mset (found_migrations i) = mset (required_migrations i)"
proof -
  let ?r = "required_revisions (ui_targets i)"
  let ?get = "\<lambda>(a, c). the (map_of (migration_entries (ui_migrations i)) (revision_key a c))"
  have get: "?get x \<in> set (ui_migrations i) \<and> migration_revision (?get x) = x" if "x \<in> set ?r" for x
  proof -
    obtain a c where x: "x = (a, c)" by fastforce
    have "(a, c) \<in> set ?r" using that x by simp
    then obtain t where t: "t \<in> set (ui_targets i)" "ut_artifact t = a" by (auto simp: required_revisions_set)
    have "(a, c) \<in> migration_revision ` set (ui_migrations i)" using assms(2) \<open>(a, c) \<in> set ?r\<close> by blast
    then obtain m where m: "m \<in> set (ui_migrations i)" "migration_revision m = (a, c)" by fastforce
    then have "map_of (migration_entries (ui_migrations i)) (revision_key a c) = Some m"
      using migration_entries_lookup [OF assms(1) accepted_target_at_free [OF assms(1) t(1)]] t(2) by simp
    then show ?thesis using m x by simp
  qed
  then have "map (migration_revision \<circ> ?get) ?r = map id ?r" by (intro map_cong) auto
  then show revisions: "map migration_revision (found_migrations i) = ?r" by (simp add: found_migrations_def)
  have inj: "inj_on migration_revision (set (ui_migrations i))" "distinct (ui_migrations i)"
    using assms(1) by (auto simp: accepted_input_def distinct_map)
  have subset: "set (found_migrations i) \<subseteq> set (ui_migrations i)" using get by (auto simp: found_migrations_def)
  have "set (found_migrations i) = set (required_migrations i)"
  proof
    show "set (found_migrations i) \<subseteq> set (required_migrations i)"
      using subset get by (auto simp: required_migrations_def found_migrations_def)
    show "set (required_migrations i) \<subseteq> set (found_migrations i)"
    proof
      fix m assume "m \<in> set (required_migrations i)"
      then have m: "m \<in> set (ui_migrations i)" "migration_revision m \<in> set ?r" by (simp_all add: required_migrations_def)
      then have "?get (migration_revision m) = m" using get [OF m(2)] inj(1) by (auto dest: inj_onD)
      then show "m \<in> set (found_migrations i)" using m(2) by (force simp: found_migrations_def)
    qed
  qed
  moreover have "distinct (found_migrations i)"
    using revisions distinct_required assms(1) by (metis accepted_input_def distinct_map)
  moreover have "distinct (required_migrations i)" using inj(2) by (simp add: required_migrations_def)
  ultimately show "mset (found_migrations i) = mset (required_migrations i)" by (simp add: set_eq_iff_mset_eq_distinct)
qed

lemma result_key_inject:
  assumes "accepted_input i" "m \<in> set (ui_migrations i)" "n \<in> set (ui_migrations i)"
  shows "result_key m = result_key n \<longleftrightarrow> migration_revision m = migration_revision n"
  using accepted_migration(1,2) [OF assms(1,2)] accepted_migration(1,2) [OF assms(1,3)]
  by (simp add: result_key_def migration_revision_def revision_key_inject)

lemma step_edges_migrations:
  "step_edges ts (map step_of_migration ms) = {(result_key n, result_key m) | n m. n \<in> set ms \<and> m \<in> set ms
     \<and> result_key n \<in> set (step_dependencies ts (step_of_migration m))}"
proof (rule set_eqI)
  fix x :: "string \<times> string"
  obtain d k where x: "x = (d, k)" by fastforce
  have "x \<in> step_edges ts (map step_of_migration ms) \<longleftrightarrow>
      (\<exists>m \<in> set ms. k = result_key m \<and> d \<in> set (step_dependencies ts (step_of_migration m)) \<and> d \<in> result_key ` set ms)"
  proof
    assume "x \<in> step_edges ts (map step_of_migration ms)"
    then obtain s where s: "s \<in> set (map step_of_migration ms)" "k = us_key s" "d \<in> set (step_dependencies ts s)"
      "d \<in> us_key ` set (map step_of_migration ms)"
      unfolding step_edges_def x by blast
    then obtain m where "m \<in> set ms" "s = step_of_migration m" by auto
    then show "\<exists>m \<in> set ms. k = result_key m \<and> d \<in> set (step_dependencies ts (step_of_migration m)) \<and> d \<in> result_key ` set ms"
      using s by auto
  next
    assume "\<exists>m \<in> set ms. k = result_key m \<and> d \<in> set (step_dependencies ts (step_of_migration m)) \<and> d \<in> result_key ` set ms"
    then obtain m where m: "m \<in> set ms" "k = result_key m" "d \<in> set (step_dependencies ts (step_of_migration m))" "d \<in> result_key ` set ms"
      by blast
    have "k = us_key (step_of_migration m)" "step_of_migration m \<in> set (map step_of_migration ms)"
      "d \<in> us_key ` set (map step_of_migration ms)"
      using m by (simp_all add: image_image)
    then show "x \<in> step_edges ts (map step_of_migration ms)" using m(3) unfolding step_edges_def x by blast
  qed
  also have "\<dots> \<longleftrightarrow> (\<exists>n \<in> set ms. \<exists>m \<in> set ms. d = result_key n \<and> k = result_key m
      \<and> result_key n \<in> set (step_dependencies ts (step_of_migration m)))" by blast
  finally show "x \<in> step_edges ts (map step_of_migration ms) \<longleftrightarrow> x \<in> {(result_key n, result_key m) | n m. n \<in> set ms \<and> m \<in> set ms
     \<and> result_key n \<in> set (step_dependencies ts (step_of_migration m))}" using x by blast
qed

lemma required_step_keys:
  assumes "accepted_input i" "set (required_revisions (ui_targets i)) \<subseteq> migration_revision ` set (ui_migrations i)"
  shows "distinct (map us_key (map step_of_migration (found_migrations i)))"
    and "set (found_migrations i) = set (required_migrations i)"
    and "step_edges (target_entries (ui_targets i)) (map step_of_migration (found_migrations i)) = must_precede (required_migrations i)"
proof -
  note found = found_required [OF assms]
  show sets: "set (found_migrations i) = set (required_migrations i)" using found(2) by (metis set_mset_mset)
  then have known: "m \<in> set (ui_migrations i)" if "m \<in> set (found_migrations i)" for m
    using that by (simp add: required_migrations_def)
  have "distinct (map migration_revision (found_migrations i))"
    using found(1) distinct_required assms(1) by (simp add: accepted_input_def)
  then have "distinct (map result_key (found_migrations i))"
    using result_key_inject [OF assms(1) known known] by (auto simp: distinct_map inj_on_def)
  then show "distinct (map us_key (map step_of_migration (found_migrations i)))" by (simp add: comp_def)
  have previous: "result_key n \<in> set (step_dependencies (target_entries (ui_targets i)) (step_of_migration m))
      \<longleftrightarrow> result_key n \<in> set (depends_on m) \<or> um_artifact n = um_artifact m \<and> um_to n = um_from m"
    if mn: "m \<in> set (required_migrations i)" "n \<in> set (required_migrations i)" for m n
  proof -
    have in_m: "m \<in> set (ui_migrations i)" "n \<in> set (ui_migrations i)" using mn by (simp_all add: required_migrations_def)
    obtain t where t: "t \<in> set (ui_targets i)" "ut_artifact t = um_artifact m" "ut_current t \<le> um_from m"
      using mn(1) by (auto simp: required_migrations_def migration_revision_def required_revisions_set)
    have lookup: "map_of (target_entries (ui_targets i)) (um_artifact m) = Some t"
      using t assms(1) by (simp add: target_entries_lookup accepted_input_def)
    have key: "result_key n = revision_key (um_artifact m) (um_from m) \<longleftrightarrow> um_artifact n = um_artifact m \<and> um_to n = um_from m"
      using accepted_migration(1) [OF assms(1) in_m(1)] accepted_migration(1) [OF assms(1) in_m(2)]
      by (simp add: result_key_def revision_key_inject)
    have first: "um_to n \<noteq> um_from m" if "um_artifact n = um_artifact m" "ut_current t = um_from m"
    proof -
      obtain u where u: "u \<in> set (ui_targets i)" "ut_artifact u = um_artifact n" "ut_current u \<le> um_from n"
        using mn(2) by (auto simp: required_migrations_def migration_revision_def required_revisions_set)
      have "inj_on ut_artifact (set (ui_targets i))" using assms(1) by (simp add: accepted_input_def distinct_map)
      then have "u = t" by (rule inj_onD) (use t u that(1) in simp_all)
      then show ?thesis using u(3) that(2) accepted_migration(2) [OF assms(1) in_m(2)] by simp
    qed
    show ?thesis using key first by (auto simp: step_dependencies_def lookup)
  qed
  have "step_edges (target_entries (ui_targets i)) (map step_of_migration (found_migrations i))
      = {(result_key n, result_key m) | n m. n \<in> set (required_migrations i) \<and> m \<in> set (required_migrations i)
           \<and> result_key n \<in> set (step_dependencies (target_entries (ui_targets i)) (step_of_migration m))}"
    unfolding step_edges_migrations sets ..
  also have "\<dots> = must_precede (required_migrations i)"
    unfolding must_precede_def using previous by blast
  finally show "step_edges (target_entries (ui_targets i)) (map step_of_migration (found_migrations i)) = must_precede (required_migrations i)" .
qed

subsection \<open>Ready plans\<close>

lemma dependency_diagnostics_closed:
  "no_errors (dependency_diagnostics ps) \<longleftrightarrow> (\<forall>s \<in> set ps. set (depends_on s) \<subseteq> us_key ` set ps)"
  by (auto simp: dependency_diagnostics_def no_errors_def list_all_iff upgrade_error_def has_step_set)

lemma order_steps_errors: "no_errors (snd (order_steps ts ps acc)) \<longleftrightarrow> snd (order_steps ts ps acc) = []"
proof (induction ts ps acc rule: order_steps.induct)
  case (1 ts ps acc)
  then show ?case by (simp add: order_steps.simps [of ts ps] Let_def)
qed

definition release_and_versions :: "semver_calls \<Rightarrow> upgrade_input \<Rightarrow> bool" where
  "release_and_versions v i \<longleftrightarrow> release_supported i \<and> versions_ordered v i"

definition required_steps :: "upgrade_input \<Rightarrow> upgrade_step list" where
  "required_steps i = map step_of_migration (found_migrations i)"

lemma map_snd_target_entries [simp]: "map snd (target_entries xs) = xs"
  by (simp add: target_entries_def comp_def)

lemma ready_accepted:
  assumes "up_ready (plan_upgrade v i)"
  shows "release_and_versions v i \<and> accepted_input i \<and>
     set (required_revisions (ui_targets i)) \<subseteq> migration_revision ` set (ui_migrations i)"
proof -
  let ?ds = "release_diagnostics i @ version_diagnostics v i"
  obtain ts ds1 where t: "fold accept_target (ui_targets i) ([], ?ds) = (ts, ds1)" by fastforce
  obtain ms ds2 where m: "fold (accept_migration ts) (ui_migrations i) ([], ds1) = (ms, ds2)" by fastforce
  obtain ps ds3 where p: "fold (\<lambda>t. pending_steps ms t (ut_current t)) (map snd ts) ([], ds2) = (ps, ds3)" by fastforce
  have "no_errors ds3" using assms t m p by (simp add: plan_upgrade_def Let_def split_beta)
  then have 3: "no_errors ds2" "\<forall>t \<in> set (map snd ts). has_all_revisions ms t (ut_current t)"
    using pending_fold_all [of ms "map snd ts" "[]" ds2] p by simp_all
  then have 2: "no_errors ds1" "list_all (valid_migration ts) (ui_migrations i)" "distinct (map migration_key (ui_migrations i))"
    "ms = migration_entries (ui_migrations i)"
    using accept_migrations [of ts "ui_migrations i" "[]" ds1] m by simp_all
  then have 1: "no_errors ?ds" "list_all valid_target (ui_targets i)" "distinct (map ut_artifact (ui_targets i))"
    "ts = target_entries (ui_targets i)"
    using accept_targets [of "ui_targets i" "[]" ?ds] t by simp_all
  have applicable: "list_all (applicable_migration (ui_targets i)) (ui_migrations i)"
    using 2(2) 1(3,4) by (simp add: list_all_iff valid_applicable)
  then have accepted: "accepted_input i"
    using 1 2 distinct_keys_revisions [OF 1(2) applicable] by (simp add: accepted_input_def)
  moreover have "release_and_versions v i"
    using 1(1) by (simp add: release_and_versions_def release_diagnostics_supported version_diagnostics_ordered)
  moreover have "set (required_revisions (ui_targets i)) \<subseteq> migration_revision ` set (ui_migrations i)"
    using 3(2) 1(4) 2(4) has_all_required [OF accepted] by simp
  ultimately show ?thesis by blast
qed

lemma accepted_plan:
  assumes "release_and_versions v i" "accepted_input i"
    "set (required_revisions (ui_targets i)) \<subseteq> migration_revision ` set (ui_migrations i)"
  defines "r \<equiv> order_steps (target_entries (ui_targets i)) (required_steps i) []"
  shows "up_steps (plan_upgrade v i) = fst r"
    and "up_ready (plan_upgrade v i) \<longleftrightarrow>
      (\<forall>s \<in> set (required_steps i). set (depends_on s) \<subseteq> us_key ` set (required_steps i)) \<and> snd r = []"
    and "up_ready (plan_upgrade v i) \<Longrightarrow> no_errors (up_diagnostics (plan_upgrade v i))"
proof -
  let ?ds = "release_diagnostics i @ version_diagnostics v i"
  have 1: "no_errors ?ds" "list_all valid_target (ui_targets i)" "distinct (map ut_artifact (ui_targets i))"
    using assms(1,2) by (simp_all add: release_and_versions_def release_diagnostics_supported version_diagnostics_ordered accepted_input_def)
  obtain ds1 where t: "fold accept_target (ui_targets i) ([], ?ds) = (target_entries (ui_targets i), ds1)" "no_errors ds1"
    using accept_targets [of "ui_targets i" "[]" ?ds] 1 by (metis append_Nil empty_iff fst_conv image_empty inf_bot_right list.set(1) prod.exhaust_sel)
  have applicable: "list_all (applicable_migration (ui_targets i)) (ui_migrations i)" using assms(2) by (simp add: accepted_input_def)
  have 2: "list_all (valid_migration (target_entries (ui_targets i))) (ui_migrations i)" "distinct (map migration_key (ui_migrations i))"
    using applicable assms(2) distinct_keys_revisions [OF 1(2) applicable] 1(3)
    by (simp_all add: list_all_iff valid_applicable accepted_input_def)
  let ?ms = "migration_entries (ui_migrations i)"
  obtain ds2 where m: "fold (accept_migration (target_entries (ui_targets i))) (ui_migrations i) ([], ds1) = (?ms, ds2)" "no_errors ds2"
    using accept_migrations [of "target_entries (ui_targets i)" "ui_migrations i" "[]" ds1] 2 t(2)
    by (metis append_Nil empty_iff fst_conv image_empty inf_bot_right list.set(1) prod.exhaust_sel)
  have "\<forall>t \<in> set (ui_targets i). has_all_revisions ?ms t (ut_current t)" using has_all_required [OF assms(2)] assms(3) by blast
  then have p: "fold (\<lambda>t. pending_steps ?ms t (ut_current t)) (ui_targets i) ([], ds2) = (required_steps i, ds2)"
    using pending_fold_found [of "ui_targets i" ?ms "[]" ds2] required_step_keys(1) [OF assms(2,3)]
    by (simp add: pending_found required_steps_def)
  have plan: "plan_upgrade v i = plan_upgrade v i\<lparr>up_steps := fst r, up_ready := no_errors (ds2 @ dependency_diagnostics (required_steps i) @ snd r),
      up_diagnostics := (if no_errors (ds2 @ dependency_diagnostics (required_steps i) @ snd r)
        then (ds2 @ dependency_diagnostics (required_steps i) @ snd r) @
          [upgrade_info (''Upgrade plan contains '' @ int_text (int (length (fst r))) @ '' ordered step(s).'')]
        else ds2 @ dependency_diagnostics (required_steps i) @ snd r)\<rparr>"
    by (simp add: plan_upgrade_def t(1) m(1) p r_def Let_def split_beta)
  show "up_steps (plan_upgrade v i) = fst r" by (subst plan) simp
  have ready: "up_ready (plan_upgrade v i) \<longleftrightarrow> no_errors (ds2 @ dependency_diagnostics (required_steps i) @ snd r)"
    by (subst plan) simp
  then show "up_ready (plan_upgrade v i) \<longleftrightarrow>
      (\<forall>s \<in> set (required_steps i). set (depends_on s) \<subseteq> us_key ` set (required_steps i)) \<and> snd r = []"
    using m(2) by (simp add: dependency_diagnostics_closed r_def order_steps_errors)
  show "up_ready (plan_upgrade v i) \<Longrightarrow> no_errors (up_diagnostics (plan_upgrade v i))"
    unfolding ready by (subst plan) simp
qed

text \<open>C13: A plan of a plugin upgrade is ready exactly when the release manifests certify both versions of the plugin within one
  platform release, the versions do not go back, targets and migrations are valid and unique, every
  revision between current and target has its migration, all dependencies are part of the plan, and they are acyclic.\<close>

theorem upgrade_ready_exact: "up_ready (plan_upgrade v i) \<longleftrightarrow> upgradable v i"
proof (cases "release_and_versions v i \<and> accepted_input i \<and>
    set (required_revisions (ui_targets i)) \<subseteq> migration_revision ` set (ui_migrations i)")
  case True
  then have a: "release_and_versions v i" "accepted_input i"
    "set (required_revisions (ui_targets i)) \<subseteq> migration_revision ` set (ui_migrations i)" by simp_all
  note keys = required_step_keys [OF a(2,3)]
  have "us_key ` set (required_steps i) = result_key ` set (required_migrations i)"
    by (simp add: required_steps_def keys(2) image_image)
  then have "(\<forall>s \<in> set (required_steps i). set (depends_on s) \<subseteq> us_key ` set (required_steps i)) \<longleftrightarrow>
      (\<forall>m \<in> set (required_migrations i). set (depends_on m) \<subseteq> result_key ` set (required_migrations i))"
    by (simp add: required_steps_def keys(2))
  moreover have "snd (order_steps (target_entries (ui_targets i)) (required_steps i) []) = [] \<longleftrightarrow> acyclic (must_precede (required_migrations i))"
    using order_steps_exact [OF keys(1)] keys(3) by (simp add: required_steps_def)
  ultimately show ?thesis
    using a accepted_plan(2) [OF a] by (simp add: upgradable_def release_and_versions_def accepted_input_def)
next
  case False
  then show ?thesis
    using ready_accepted [of v i] by (auto simp: upgradable_def release_and_versions_def accepted_input_def)
qed

lemma consecutive:
  fixes xs :: "int list"
  assumes "distinct xs" "set xs = {a .. b}" "\<And>n. n < length xs \<Longrightarrow> xs ! n \<noteq> a \<Longrightarrow> xs ! n - 1 \<in> set (take n xs)"
  shows "xs = [a .. b]"
proof (rule nth_equalityI)
  show len: "length xs = length [a .. b]" using assms(1,2) distinct_card [of xs] by simp
  have "xs ! n = a + int n" if "n < length xs" for n
    using that
  proof (induction n rule: less_induct)
    case (less n)
    show ?case
    proof (cases "xs ! n = a")
      case True
      have "n = 0"
      proof (rule ccontr)
        assume "n \<noteq> 0"
        moreover have "0 < length xs" using less.prems by linarith
        moreover have "xs ! 0 = xs ! n" using less.IH [of 0] True calculation by simp
        ultimately show False using nth_eq_iff_index_eq [OF assms(1), of 0 n] less.prems by simp
      qed
      then show ?thesis using True by simp
    next
      case False
      then obtain j where j: "j < n" "xs ! j = xs ! n - 1"
        using assms(3) less.prems by (fastforce simp: in_set_conv_nth)
      then have x: "xs ! n = a + int (Suc j)" using less by simp
      have "\<not> Suc j < n"
      proof
        assume "Suc j < n"
        then have "xs ! Suc j = xs ! n" using less x by simp
        then show False using \<open>Suc j < n\<close> less.prems assms(1) nth_eq_iff_index_eq [of xs "Suc j" n] by simp
      qed
      then have "Suc j = n" using j(1) by simp
      then show ?thesis using x by simp
    qed
  qed
  then show "xs ! n = [a .. b] ! n" if "n < length xs" for n using that len by simp
qed

lemma filter_nth_take:
  assumes "n < length (filter P xs)"
  shows "\<exists>k < length xs. filter P xs ! n = xs ! k \<and> take n (filter P xs) = filter P (take k xs)"
  using assms
proof (induction xs arbitrary: n)
  case (Cons x xs)
  show ?case
  proof (cases "P x \<and> n = 0")
    case True
    then show ?thesis by (intro exI [of _ 0]) simp
  next
    case False
    obtain k where "k < length xs" "filter P (x # xs) ! n = xs ! k" "take n (filter P (x # xs)) = filter P (x # take k xs)"
    proof (cases "P x")
      case True
      then obtain m where "n = Suc m" "m < length (filter P xs)" using False Cons.prems by (cases n) auto
      then show ?thesis using Cons.IH [of m] True that by auto
    next
      case False
      then show ?thesis using Cons.IH [of n] Cons.prems that by auto
    qed
    then show ?thesis by (intro exI [of _ "Suc k"]) auto
  qed
qed simp

definition artifact_steps :: "string \<Rightarrow> upgrade_step list \<Rightarrow> upgrade_step list" where
  "artifact_steps a ss = filter (\<lambda>s. um_artifact s = a) ss"

lemma ready_plan_topological:
  assumes "up_ready (plan_upgrade v i)"
  shows "accepted_input i" "set (required_revisions (ui_targets i)) \<subseteq> migration_revision ` set (ui_migrations i)"
    and "topological (target_entries (ui_targets i)) (required_steps i) (up_steps (plan_upgrade v i))"
    and "\<forall>s \<in> set (required_steps i). set (depends_on s) \<subseteq> us_key ` set (required_steps i)"
    and "no_errors (up_diagnostics (plan_upgrade v i))"
proof -
  note a = conjunct1 [OF ready_accepted [OF assms]] conjunct1 [OF conjunct2 [OF ready_accepted [OF assms]]]
    conjunct2 [OF conjunct2 [OF ready_accepted [OF assms]]]
  show "accepted_input i" "set (required_revisions (ui_targets i)) \<subseteq> migration_revision ` set (ui_migrations i)" by (rule a)+
  note plan = accepted_plan [OF a]
  show "topological (target_entries (ui_targets i)) (required_steps i) (up_steps (plan_upgrade v i))"
    using order_steps_topological [of "target_entries (ui_targets i)" "required_steps i" "[]"] assms plan(1,2)
      required_step_keys(1) [OF a(2,3)] by (auto simp: required_steps_def)
  show "\<forall>s \<in> set (required_steps i). set (depends_on s) \<subseteq> us_key ` set (required_steps i)" "no_errors (up_diagnostics (plan_upgrade v i))"
    using assms plan(2,3) by blast+
qed

lemma ready_step_key:
  assumes "up_ready (plan_upgrade v i)" "q \<in> set (up_steps (plan_upgrade v i))"
  shows "us_key q = revision_key (um_artifact q) (um_from q + 1)" "CHR ''@'' \<notin> set (um_artifact q)"
proof -
  note r = ready_plan_topological [OF assms(1)]
  have "mset (up_steps (plan_upgrade v i)) = mset (required_steps i)" using r(3) by (simp add: topological_def)
  then have "q \<in> set (required_steps i)" using assms(2) by (metis set_mset_mset)
  then obtain m where m: "m \<in> set (found_migrations i)" "q = step_of_migration m" by (auto simp: required_steps_def)
  then have "m \<in> set (ui_migrations i)"
    using required_step_keys(2) [OF r(1,2)] by (simp add: required_migrations_def)
  then show "us_key q = revision_key (um_artifact q) (um_from q + 1)" "CHR ''@'' \<notin> set (um_artifact q)"
    using accepted_migration(1,2) [OF r(1), of m] m(2) by (simp_all add: result_key_def)
qed

lemma ready_step_revisions:
  assumes "up_ready (plan_upgrade v i)"
  defines "ss \<equiv> up_steps (plan_upgrade v i)"
  shows "distinct (map (\<lambda>s. (um_artifact s, um_from s)) ss)"
    and "(\<lambda>s. (um_artifact s, um_from s)) ` set ss = set (required_revisions (ui_targets i))"
proof -
  note r = ready_plan_topological [OF assms(1)]
  have "mset (map (\<lambda>s. (um_artifact s, um_from s)) (required_steps i)) = mset (map migration_revision (found_migrations i))"
    by (simp add: required_steps_def migration_revision_def [abs_def] comp_def)
  moreover have "mset ss = mset (required_steps i)" using r(3) by (simp add: topological_def ss_def)
  ultimately have "mset (map (\<lambda>s. (um_artifact s, um_from s)) ss) = mset (required_revisions (ui_targets i))"
    using found_required(1) [OF r(1,2)] by simp
  then show "distinct (map (\<lambda>s. (um_artifact s, um_from s)) ss)"
    and "(\<lambda>s. (um_artifact s, um_from s)) ` set ss = set (required_revisions (ui_targets i))"
    using distinct_required r(1) by (metis accepted_input_def mset_eq_imp_distinct_iff, metis set_map set_mset_mset)
qed

lemma ready_target_revisions:
  assumes "up_ready (plan_upgrade v i)" "t \<in> set (ui_targets i)"
  defines "froms \<equiv> map um_from (artifact_steps (ut_artifact t) (up_steps (plan_upgrade v i)))"
  shows "distinct froms" "set froms = {ut_current t .. ut_target t - 1}"
proof -
  let ?ss = "up_steps (plan_upgrade v i)"
  note r = ready_plan_topological [OF assms(1)] and revisions = ready_step_revisions [OF assms(1)]
  show "distinct froms"
    using revisions(1) by (auto simp: froms_def artifact_steps_def distinct_map inj_on_def intro: distinct_filter)
  have "inj_on ut_artifact (set (ui_targets i))" using r(1) by (simp add: accepted_input_def distinct_map)
  then have same: "u = t" if "u \<in> set (ui_targets i)" "ut_artifact u = ut_artifact t" for u
    using that assms(2) by (auto dest: inj_onD)
  have "c \<in> um_from ` {s \<in> set ?ss. um_artifact s = ut_artifact t}
      \<longleftrightarrow> (ut_artifact t, c) \<in> (\<lambda>s. (um_artifact s, um_from s)) ` set ?ss" for c
    by (auto simp: image_iff) metis
  then have "c \<in> um_from ` {s \<in> set ?ss. um_artifact s = ut_artifact t} \<longleftrightarrow> c \<in> {ut_current t .. ut_target t - 1}" for c
    unfolding revisions(2) using same assms(2) by (auto simp: required_revisions_set)
  then have "um_from ` {s \<in> set ?ss. um_artifact s = ut_artifact t} = {ut_current t .. ut_target t - 1}" by blast
  then show "set froms = {ut_current t .. ut_target t - 1}" by (simp add: froms_def artifact_steps_def)
qed

text \<open>A step that does not start from the current revision of its target comes after the step to its own revision.\<close>

lemma ready_previous_step:
  assumes "up_ready (plan_upgrade v i)" "t \<in> set (ui_targets i)"
    and "k < length (up_steps (plan_upgrade v i))"
    and "um_artifact (up_steps (plan_upgrade v i) ! k) = ut_artifact t" "um_from (up_steps (plan_upgrade v i) ! k) \<noteq> ut_current t"
  shows "um_from (up_steps (plan_upgrade v i) ! k) - 1 \<in> um_from ` set (artifact_steps (ut_artifact t) (take k (up_steps (plan_upgrade v i))))"
proof -
  define ss s where "ss = up_steps (plan_upgrade v i)" and "s = ss ! k"
  note r = ready_plan_topological [OF assms(1), folded ss_def]
  note key = ready_step_key [OF assms(1), folded ss_def]
  note revisions = ready_target_revisions(2) [OF assms(1,2), folded ss_def]
  have s: "s \<in> set ss" "um_artifact s = ut_artifact t" "um_from s \<noteq> ut_current t" using assms(3-5) by (simp_all add: ss_def s_def)
  let ?d = "revision_key (um_artifact s) (um_from s)"
  have "map_of (target_entries (ui_targets i)) (um_artifact s) = Some t"
    using s(2) assms(2) r(1) by (simp add: target_entries_lookup accepted_input_def)
  then have dependency: "?d \<in> set (step_dependencies (target_entries (ui_targets i)) s)"
    using s(3) by (simp add: step_dependencies_def)
  have "um_from s \<in> set (map um_from (artifact_steps (ut_artifact t) ss))" using s by (simp add: artifact_steps_def)
  then have "um_from s - 1 \<in> set (map um_from (artifact_steps (ut_artifact t) ss))" unfolding revisions using s(3) by simp
  then obtain p where p: "p \<in> set ss" "um_artifact p = ut_artifact t" "um_from p = um_from s - 1" by (auto simp: artifact_steps_def)
  then have "?d = us_key p" using key(1) [OF p(1)] s(2) by simp
  moreover have "set ss = set (required_steps i)" using r(3) by (metis set_mset_mset topological_def)
  ultimately have "?d \<in> us_key ` set (take k ss)"
    using r(3) assms(3) dependency p(1) unfolding topological_def s_def ss_def [symmetric] by blast
  then obtain q where q: "q \<in> set (take k ss)" "us_key q = ?d" by auto
  then have "q \<in> set ss" by (auto dest: in_set_takeD)
  then have "um_artifact q = um_artifact s \<and> um_from q + 1 = um_from s"
    using q(2) key [of q] key(2) [OF s(1)] by (simp add: revision_key_inject)
  then show ?thesis using q(1) s(2) by (force simp: artifact_steps_def ss_def s_def)
qed

lemma ready_artifact_revisions:
  assumes "up_ready (plan_upgrade v i)" "t \<in> set (ui_targets i)"
  shows "map um_from (artifact_steps (ut_artifact t) (up_steps (plan_upgrade v i))) = [ut_current t .. ut_target t - 1]"
proof (rule consecutive)
  let ?ss = "up_steps (plan_upgrade v i)" and ?as = "artifact_steps (ut_artifact t) (up_steps (plan_upgrade v i))"
  show "distinct (map um_from ?as)" "set (map um_from ?as) = {ut_current t .. ut_target t - 1}"
    by (rule ready_target_revisions [OF assms])+
  fix n
  assume n: "n < length (map um_from ?as)" and first: "map um_from ?as ! n \<noteq> ut_current t"
  then obtain k where k: "k < length ?ss" "?as ! n = ?ss ! k" "take n ?as = artifact_steps (ut_artifact t) (take k ?ss)"
    using filter_nth_take [of n "\<lambda>s. um_artifact s = ut_artifact t" ?ss] by (auto simp: artifact_steps_def)
  have "um_artifact (?ss ! k) = ut_artifact t" using k(2) n nth_mem [of n ?as] by (auto simp: artifact_steps_def)
  then have "um_from (?ss ! k) - 1 \<in> um_from ` set (take n ?as)"
    using ready_previous_step [OF assms k(1)] first n k(2,3) by simp
  then show "map um_from ?as ! n - 1 \<in> set (take n (map um_from ?as))" using k(2) n by (simp add: take_map)
qed

text \<open>C30: The steps of a ready plan are exactly the required migrations. Every declared dependency of a step comes
  earlier in the plan, and the steps of each target lead from its current revision to its target revision, one
  revision at a time and in order.\<close>

theorem ready_plan_ordered:
  assumes "up_ready (plan_upgrade v i)"
  shows "mset (up_steps (plan_upgrade v i)) = mset (map step_of_migration (required_migrations i))
    \<and> (n < length (up_steps (plan_upgrade v i)) \<longrightarrow>
      set (depends_on (up_steps (plan_upgrade v i) ! n)) \<subseteq> us_key ` set (take n (up_steps (plan_upgrade v i))))
    \<and> (t \<in> set (ui_targets i) \<longrightarrow>
      map um_from (artifact_steps (ut_artifact t) (up_steps (plan_upgrade v i))) = [ut_current t .. ut_target t - 1])"
proof (intro conjI impI)
  note r = ready_plan_topological [OF assms]
  have top: "mset (up_steps (plan_upgrade v i)) = mset (required_steps i)" using r(3) by (simp add: topological_def)
  then show "mset (up_steps (plan_upgrade v i)) = mset (map step_of_migration (required_migrations i))"
    using found_required(2) [OF r(1,2)] by (simp add: required_steps_def)
  show "set (depends_on (up_steps (plan_upgrade v i) ! n)) \<subseteq> us_key ` set (take n (up_steps (plan_upgrade v i)))"
    if n: "n < length (up_steps (plan_upgrade v i))"
  proof
    fix d
    assume d: "d \<in> set (depends_on (up_steps (plan_upgrade v i) ! n))"
    have "up_steps (plan_upgrade v i) ! n \<in> set (required_steps i)" using n top by (metis nth_mem set_mset_mset)
    then have "d \<in> us_key ` set (required_steps i)" using r(4) d by blast
    then show "d \<in> us_key ` set (take n (up_steps (plan_upgrade v i)))"
      using r(3) n d unfolding topological_def step_dependencies_def by simp
  qed
  show "t \<in> set (ui_targets i) \<Longrightarrow>
      map um_from (artifact_steps (ut_artifact t) (up_steps (plan_upgrade v i))) = [ut_current t .. ut_target t - 1]"
    by (rule ready_artifact_revisions [OF assms])
qed

end
