(* ===== verification/UpgradeDryRunProperties.thy ===== *)
theory UpgradeDryRunProperties
  imports UpgradePlannerProperties
begin

text \<open>
  Dry runs of upgrade plans. The reference runs, for each artifact by itself, the chain of its migrations;
  the code runs the steps of all artifacts in the order of the plan. A concrete plan shows that the
  hypotheses of the theorems hold together.
\<close>

subsection \<open>One chain for each artifact\<close>

fun migrate_chain :: "upgrade_step list \<Rightarrow> json \<Rightarrow> json option" where
  "migrate_chain [] j = Some j"
| "migrate_chain (s # ss) j =
     (if has_revision (um_from s) j then Option.bind (run_migration s j) (migrate_chain ss) else None)"

lemma migrate_chain_Nil: "migrate_chain [] = Some"
  by (rule ext) simp

definition migrated_artifact :: "upgrade_step list \<Rightarrow> (string \<times> json) list \<Rightarrow> string \<Rightarrow> json option" where
  "migrated_artifact ss artifacts a = Option.bind (map_of artifacts a) (migrate_chain (artifact_steps a ss))"

lemma migrated_artifact_step:
  assumes "dry_run_step s artifacts = Inr following"
  shows "migrated_artifact (s # ss) artifacts a = migrated_artifact ss following a"
  using assms by (auto simp: dry_run_step_def migrated_artifact_def artifact_steps_def split: option.splits if_splits)

lemma dry_run_step_failure:
  assumes "dry_run_step s artifacts = Inl d"
  shows "migrated_artifact (s # ss) artifacts (um_artifact s) = None" "\<not> no_errors [d]"
  using assms
  by (auto simp: dry_run_step_def migrated_artifact_def artifact_steps_def split: option.splits if_splits)

lemma dry_run_steps_chains:
  assumes "dry_run_steps ss (artifacts, ds) = (final, es)" "no_errors ds"
  shows "no_errors es \<longleftrightarrow> (\<forall>s \<in> set ss. migrated_artifact ss artifacts (um_artifact s) \<noteq> None)"
    and "no_errors es \<Longrightarrow> map_of final a = migrated_artifact ss artifacts a"
proof -
  have "(no_errors es \<longleftrightarrow> (\<forall>s \<in> set ss. migrated_artifact ss artifacts (um_artifact s) \<noteq> None)) \<and>
      (no_errors es \<longrightarrow> (\<forall>a. map_of final a = migrated_artifact ss artifacts a))"
    using assms(1)
  proof (induction ss arbitrary: artifacts)
    case Nil
    then show ?case using assms(2) by (auto simp: migrated_artifact_def artifact_steps_def migrate_chain_Nil)
  next
    case (Cons s ss)
    show ?case
    proof (cases "dry_run_step s artifacts")
      case (Inl d)
      then show ?thesis using dry_run_step_failure [OF Inl] Cons.prems by auto
    next
      case (Inr following)
      note chain = migrated_artifact_step [OF Inr]
      have run: "dry_run_steps ss (following, ds) = (final, es)" using Cons.prems Inr by simp
      have "migrated_artifact ss following (um_artifact s) \<noteq> None" if "no_errors es"
      proof (cases "um_artifact s \<in> um_artifact ` set ss")
        case True
        then show ?thesis using Cons.IH [OF run] that by auto
      next
        case False
        then have "artifact_steps (um_artifact s) ss = []" unfolding artifact_steps_def filter_empty_conv by (metis image_eqI)
        moreover have "map_of following (um_artifact s) \<noteq> None"
          using Inr by (auto simp: dry_run_step_def split: option.splits if_splits)
        ultimately show ?thesis by (auto simp: migrated_artifact_def)
      qed
      then show ?thesis using Cons.IH [OF run] by (auto simp: chain)
    qed
  qed
  then show "no_errors es \<longleftrightarrow> (\<forall>s \<in> set ss. migrated_artifact ss artifacts (um_artifact s) \<noteq> None)"
    and "no_errors es \<Longrightarrow> map_of final a = migrated_artifact ss artifacts a" by blast+
qed

text \<open>C31: A dry run of a planned upgrade is ready exactly when the plan is ready and, for every artifact with a step, the chain of
  its own migrations succeeds, each on a value of the revision it starts from and with a result that its validator
  accepts; then it returns the results of these chains and leaves every other artifact as it was.\<close>

theorem dry_run_exact:
  fixes v :: semver_calls and i :: upgrade_input
  defines "ss \<equiv> up_steps (plan_upgrade v i)"
  assumes "clone_artifacts inputs = Some artifacts"
  shows "\<exists>r. dry_run_upgrade (plan_upgrade v i) inputs = Some r
     \<and> udr_ready r = (up_ready (plan_upgrade v i) \<and> list_all (\<lambda>s. migrated_artifact ss artifacts (um_artifact s) \<noteq> None) ss)
     \<and> (udr_ready r \<longrightarrow> map_of (udr_artifacts r) a = migrated_artifact ss artifacts a)
     \<and> (\<not> up_ready (plan_upgrade v i) \<longrightarrow> udr_artifacts r = artifacts)"
proof (cases "up_ready (plan_upgrade v i)")
  case True
  obtain final es where run: "dry_run_steps ss (artifacts, up_diagnostics (plan_upgrade v i)) = (final, es)" by fastforce
  note chains = dry_run_steps_chains [OF run ready_plan_topological(5) [OF True]]
  have ready: "no_errors es \<longleftrightarrow> list_all (\<lambda>s. migrated_artifact ss artifacts (um_artifact s) \<noteq> None) ss"
    using chains(1) by (simp add: list_all_iff)
  show ?thesis using True assms(2) run ready chains(2) by (simp add: dry_run_upgrade_def ss_def [symmetric] Let_def)
next
  case False
  then show ?thesis using assms(2) by (simp add: dry_run_upgrade_def)
qed

subsection \<open>A concrete upgrade\<close>

text \<open>A customer schema whose migration depends on that of a source, which is listed last and has two revisions to go.\<close>

definition sample_framework :: framework_tuple where
  "sample_framework = \<lparr>fw_core = ''1.1.0'', fw_payload = ''3.88.0'', fw_node = ''24.19.0'', fw_pnpm = ''11.9.0'', fw_adapter = ''postgres''\<rparr>"

definition upgrade_manifest :: "string \<Rightarrow> char \<Rightarrow> release_manifest" where
  "upgrade_manifest version c =
     (let digest = ''sha256:'' @ replicate 64 CHR ''1'' in
      \<lparr>rm_schema = 1, rm_version = ''1.0.0'', rm_channel = ''current'', rm_versioning = ''semver-v1'',
       rm_compatibility = ''exact-framework-tuple'', rm_framework = sample_framework,
       rm_packages = [\<lparr>rp_package = ''@fixture/module-upgrade'', rp_version = version, rp_role = ''plugin'',
         rp_integrity = ''sha512-'' @ replicate 86 c @ ''=='', rp_peer = sample_framework\<rparr>],
       rm_minimal = \<lparr>lt_preset = ''sales-reference'', lt_theme = ''minimal'', lt_digest = digest\<rparr>,
       rm_neobrutalism = \<lparr>lt_preset = ''sales-reference'', lt_theme = ''neobrutalism'', lt_digest = digest\<rparr>,
       rm_policy = ''single-current-release'', rm_supported = [''1.0.0''], rm_security = ''all-supported-releases''\<rparr>)"

definition sample_migration :: "string \<Rightarrow> string \<Rightarrow> int \<Rightarrow> string list \<Rightarrow> upgrade_migration" where
  "sample_migration artifact kind n dependencies =
     \<lparr>um_id = ''fixture.step'', um_artifact = artifact, um_kind = kind, um_from = n, um_to = n + 1, um_predecessors = [n],
      um_depends = Some dependencies,
      um_migrate = Some (\<lambda>_. Some (Cloneable (JObj [(''revision'', JNum (n + 1))]))),
      um_validate = Some (\<lambda>w. Some (case w of Cloneable j \<Rightarrow> has_revision (n + 1) j | NotCloneable \<Rightarrow> False))\<rparr>"

definition sample_upgrade :: upgrade_input where
  "sample_upgrade =
     \<lparr>ui_plugin = ''module.fixture'', ui_current_version = ''0.9.0'', ui_target_version = ''1.0.1'',
      ui_current_release = ''1.0.0'', ui_target_release = ''1.0.0'',
      ui_current_manifest = Some (upgrade_manifest ''0.9.0'' CHR ''b''), ui_target_manifest = Some (upgrade_manifest ''1.0.1'' CHR ''a''),
      ui_package = ''@fixture/module-upgrade'',
      ui_targets = [\<lparr>ut_artifact = ''fixture.db'', ut_kind = ''customer-schema'', ut_current = 1, ut_target = 2\<rparr>,
                    \<lparr>ut_artifact = ''fixture.src'', ut_kind = ''source'', ut_current = 0, ut_target = 2\<rparr>],
      ui_migrations = [sample_migration ''fixture.db'' ''customer-schema'' 1 [''fixture.src@2''],
        sample_migration ''fixture.src'' ''source'' 1 [], sample_migration ''fixture.src'' ''source'' 0 []]\<rparr>"

definition upgrade_semver :: semver_calls where
  "upgrade_semver = \<lparr>svc_valid = exact_semver, svc_compare = (\<lambda>x y. case compare_precedence x y of Inl _ \<Rightarrow> 0 | Inr c \<Rightarrow> c)\<rparr>"

lemma sample_upgrade_ready: "up_ready (plan_upgrade upgrade_semver sample_upgrade)"
  by code_simp

lemma sample_upgrade_keys:
  "map us_key (up_steps (plan_upgrade upgrade_semver sample_upgrade)) = [''fixture.src@1'', ''fixture.src@2'', ''fixture.db@2'']"
  by code_simp

theorem ready_plan_ordered_witness:
  "up_ready (plan_upgrade upgrade_semver sample_upgrade)
   \<and> 2 < length (up_steps (plan_upgrade upgrade_semver sample_upgrade))
   \<and> {''fixture.src@2''} - us_key ` set (take 2 (up_steps (plan_upgrade upgrade_semver sample_upgrade))) = {}
   \<and> map um_from (artifact_steps ''fixture.src'' (up_steps (plan_upgrade upgrade_semver sample_upgrade))) = [0, 1]"
proof -
  have third: "2 < length (up_steps (plan_upgrade upgrade_semver sample_upgrade))"
    using sample_upgrade_keys by (metis length_map length_Cons list.size(3) lessI numeral_2_eq_2)
  have "depends_on (up_steps (plan_upgrade upgrade_semver sample_upgrade) ! 2) = [''fixture.src@2'']" by code_simp
  then have "{''fixture.src@2''} - us_key ` set (take 2 (up_steps (plan_upgrade upgrade_semver sample_upgrade))) = {}"
    using ready_plan_ordered [OF sample_upgrade_ready, where n = 2] third by simp
  moreover have "map um_from (artifact_steps ''fixture.src'' (up_steps (plan_upgrade upgrade_semver sample_upgrade))) = [0, 1]"
    using ready_plan_ordered [OF sample_upgrade_ready, where t = "ui_targets sample_upgrade ! 1"]
    by (simp add: sample_upgrade_def upto.simps)
  ultimately show ?thesis using third sample_upgrade_ready by simp
qed

theorem dry_run_exact_witness:
  "clone_artifacts [(''other'', Cloneable JNull), (''fixture.db'', Cloneable (JObj [(''revision'', JNum 1)])),
     (''fixture.src'', Cloneable (JObj [(''revision'', JNum 0)]))]
     = Some [(''other'', JNull), (''fixture.db'', JObj [(''revision'', JNum 1)]), (''fixture.src'', JObj [(''revision'', JNum 0)])]
   \<and> map_option (\<lambda>r. (udr_ready r, map_of (udr_artifacts r) ''fixture.src''))
       (dry_run_upgrade (plan_upgrade upgrade_semver sample_upgrade)
         [(''other'', Cloneable JNull), (''fixture.db'', Cloneable (JObj [(''revision'', JNum 1)])),
          (''fixture.src'', Cloneable (JObj [(''revision'', JNum 0)]))])
     = Some (True, Some (JObj [(''revision'', JNum 2)]))"
proof -
  let ?in = "[(''other'', Cloneable JNull), (''fixture.db'', Cloneable (JObj [(''revision'', JNum 1)])),
     (''fixture.src'', Cloneable (JObj [(''revision'', JNum 0)]))]"
  let ?a = "[(''other'', JNull), (''fixture.db'', JObj [(''revision'', JNum 1)]), (''fixture.src'', JObj [(''revision'', JNum 0)])]"
  let ?ss = "up_steps (plan_upgrade upgrade_semver sample_upgrade)"
  have clone: "clone_artifacts ?in = Some ?a" by simp
  have chains: "list_all (\<lambda>s. migrated_artifact ?ss ?a (um_artifact s) \<noteq> None) ?ss
      \<and> migrated_artifact ?ss ?a ''fixture.src'' = Some (JObj [(''revision'', JNum 2)])" by code_simp
  show ?thesis
    using dry_run_exact [OF clone, of upgrade_semver sample_upgrade "''fixture.src''"] chains sample_upgrade_ready clone by auto
qed

end
