(* ===== verification/RevisionConsumers.thy ===== *)
theory RevisionConsumers
  imports Prelude
begin

text \<open>
  The consumers of revisions: \<open>authorization-revision-consumer.ts\<close>, \<open>settings-revision-consumer.ts\<close> and
  \<open>runtime-extension-consumer.ts\<close> with \<open>extension-revision-tracker.ts\<close>. Each keeps a snapshot of a store that it polls;
  the three classes share the code of the polling loop and differ in what they admit and what an invalidation does.

  A consumer is a machine whose events are the calls from outside, the ends of its awaits and its timers, in any order. A loop
  (\<open>pollAndSchedule\<close>) waits for the poll, then resumes and arms a timer, and runs again when the timer fires. The field
  \<open>polling\<close> is cleared by the first caller of \<open>poll\<close> once the poll has settled.
\<close>

subsection \<open>What a consumer admits\<close>

text \<open>The end of \<open>observe\<close>: nothing, an immediate commit with the result of the poll, or an advance that \<open>onAdvance\<close> applies first.\<close>

datatype 'o admission = Ignore | Commit bool 'o | Advance 'o

record ('d, 'o, 'i) consumer_calls =
  cc_admit :: "'d \<Rightarrow> 'o option \<Rightarrow> 'o admission"
  cc_commit :: "'d \<Rightarrow> 'o \<Rightarrow> 'd"
  cc_invalidate :: "'i \<Rightarrow> 'd \<Rightarrow> bool \<times> 'd"

subsubsection \<open>Authorization\<close>

record revision_state =
  rvs_application :: string
  rvs_environment :: string
  rvs_authorization :: int
  rvs_lifecycle :: int

datatype invalidation_scope = WholeApplication | OneEnvironment

record revision_invalidation =
  rvi_application :: string
  rvi_environment :: string
  rvi_scope :: invalidation_scope
  rvi_authorization :: int
  rvi_lifecycle :: int

record authorization_view =
  avw_current :: "revision_state option"
  avw_minimum :: "revision_state option"

definition is_revision :: "int \<Rightarrow> int \<Rightarrow> bool" where
  "is_revision a l \<longleftrightarrow> is_safe_integer a \<and> 0 \<le> a \<and> is_safe_integer l \<and> 0 \<le> l"

definition is_at_least :: "revision_state \<Rightarrow> revision_state option \<Rightarrow> bool" where
  "is_at_least s m = (case m of None \<Rightarrow> True | Some m \<Rightarrow> rvs_authorization m \<le> rvs_authorization s \<and> rvs_lifecycle m \<le> rvs_lifecycle s)"

definition same_revision :: "revision_state option \<Rightarrow> revision_state \<Rightarrow> bool" where
  "same_revision l r = (case l of None \<Rightarrow> False | Some l \<Rightarrow> rvs_authorization l = rvs_authorization r \<and> rvs_lifecycle l = rvs_lifecycle r)"

definition owns_state :: "string \<Rightarrow> string \<Rightarrow> revision_state \<Rightarrow> bool" where
  "owns_state app env s \<longleftrightarrow> rvs_application s = app \<and> rvs_environment s = env"

definition owns_invalidation :: "string \<Rightarrow> string \<Rightarrow> revision_invalidation \<Rightarrow> bool" where
  "owns_invalidation app env i \<longleftrightarrow> rvi_application i = app \<and> (rvi_scope i = WholeApplication \<or> rvi_scope i = OneEnvironment \<and> rvi_environment i = env)"

definition authorization_invalidate :: "string \<Rightarrow> string \<Rightarrow> revision_invalidation \<Rightarrow> authorization_view \<Rightarrow> bool \<times> authorization_view" where
  "authorization_invalidate app env i d =
     (if \<not> owns_invalidation app env i \<or> \<not> is_revision (rvi_authorization i) (rvi_lifecycle i) then (False, d)
      else let minimum = (case avw_minimum d of None \<Rightarrow> avw_current d | Some m \<Rightarrow> Some m);
               next = \<lparr>rvs_application = app, rvs_environment = env,
                 rvs_authorization = max (case minimum of None \<Rightarrow> 0 | Some m \<Rightarrow> rvs_authorization m) (rvi_authorization i),
                 rvs_lifecycle = max (case minimum of None \<Rightarrow> 0 | Some m \<Rightarrow> rvs_lifecycle m) (rvi_lifecycle i)\<rparr>
           in if same_revision minimum next then (False, d) else (True, d\<lparr>avw_minimum := Some next\<rparr>))"

definition authorization_admit :: "string \<Rightarrow> string \<Rightarrow> authorization_view \<Rightarrow> revision_state option \<Rightarrow> revision_state admission" where
  "authorization_admit app env d x =
     (case x of
        None \<Rightarrow> Ignore
      | Some s \<Rightarrow>
          if \<not> owns_state app env s \<or> \<not> is_revision (rvs_authorization s) (rvs_lifecycle s)
             \<or> \<not> is_at_least s (avw_current d) \<or> \<not> is_at_least s (avw_minimum d) then Ignore
          else if same_revision (avw_current d) s then Commit False s else Advance s)"

definition authorization_commit :: "authorization_view \<Rightarrow> revision_state \<Rightarrow> authorization_view" where
  "authorization_commit d s =
     \<lparr>avw_current = Some s, avw_minimum = (if avw_minimum d \<noteq> None \<and> is_at_least s (avw_minimum d) then None else avw_minimum d)\<rparr>"

definition authorization_calls :: "string \<Rightarrow> string \<Rightarrow> (authorization_view, revision_state, revision_invalidation) consumer_calls" where
  "authorization_calls app env =
     \<lparr>cc_admit = authorization_admit app env, cc_commit = authorization_commit, cc_invalidate = authorization_invalidate app env\<rparr>"

subsubsection \<open>Settings\<close>

record settings_revision =
  stg_schema :: int
  stg_application :: string
  stg_environment :: string
  stg_revision :: int

record settings_invalidation =
  sti_application :: string
  sti_environment :: string
  sti_revision :: int

record settings_view =
  svw_current :: "settings_revision option"
  svw_minimum :: int

definition current_settings_revision :: "settings_view \<Rightarrow> int" where
  "current_settings_revision d = (case svw_current d of None \<Rightarrow> 0 | Some s \<Rightarrow> stg_revision s)"

definition settings_invalidate :: "string \<Rightarrow> string \<Rightarrow> settings_invalidation \<Rightarrow> settings_view \<Rightarrow> bool \<times> settings_view" where
  "settings_invalidate app env i d =
     (if sti_application i \<noteq> app \<or> sti_environment i \<noteq> env \<or> \<not> is_safe_integer (sti_revision i) \<or> sti_revision i < 1 then (False, d)
      else let next = max (max (svw_minimum d) (current_settings_revision d)) (sti_revision i)
           in if next = svw_minimum d \<or> Some next = map_option stg_revision (svw_current d) then (False, d)
              else (True, d\<lparr>svw_minimum := next\<rparr>))"

definition settings_admit :: "string \<Rightarrow> string \<Rightarrow> settings_view \<Rightarrow> settings_revision option \<Rightarrow> settings_revision admission" where
  "settings_admit app env d x =
     (case x of
        None \<Rightarrow> Ignore
      | Some s \<Rightarrow>
          if stg_schema s \<noteq> 1 \<or> stg_application s \<noteq> app \<or> stg_environment s \<noteq> env \<or> \<not> is_safe_integer (stg_revision s) \<or> stg_revision s < 0
             \<or> stg_revision s < current_settings_revision d \<or> stg_revision s < svw_minimum d then Ignore
          else if Some (stg_revision s) = map_option stg_revision (svw_current d) then Commit False s else Advance s)"

definition settings_commit :: "settings_view \<Rightarrow> settings_revision \<Rightarrow> settings_view" where
  "settings_commit d s = \<lparr>svw_current = Some s, svw_minimum = (if svw_minimum d \<le> stg_revision s then 0 else svw_minimum d)\<rparr>"

definition settings_calls :: "string \<Rightarrow> string \<Rightarrow> (settings_view, settings_revision, settings_invalidation) consumer_calls" where
  "settings_calls app env = \<lparr>cc_admit = settings_admit app env, cc_commit = settings_commit, cc_invalidate = settings_invalidate app env\<rparr>"

text \<open>\<open>validIdentity\<close>\<close>

definition dashed_name :: "nat \<Rightarrow> nat \<Rightarrow> string \<Rightarrow> bool" where
  "dashed_name low high s \<longleftrightarrow> low \<le> length s \<and> length s \<le> high \<and> s \<noteq> [] \<and> is_lower (hd s)
     \<and> list_all (\<lambda>c. is_lower c \<or> is_digit c \<or> c = CHR ''-'') s"

definition valid_settings_identity :: "string \<Rightarrow> string \<Rightarrow> bool" where
  "valid_settings_identity app env \<longleftrightarrow> dashed_name 3 128 app \<and> dashed_name 2 64 env"

subsubsection \<open>Extensions\<close>

record generation_observation =
  gob_revision :: int
  gob_inventory :: int
  gob_generation :: "string option"

record extension_invalidation =
  exi_application :: string
  exi_environment :: string
  exi_class :: string
  exi_extension :: string
  exi_inventory :: int

type_synonym extension_view = "generation_observation option"

definition tracker_observe :: "extension_view \<Rightarrow> generation_observation option \<Rightarrow> generation_observation admission" where
  "tracker_observe d x =
     (case x of
        None \<Rightarrow> Ignore
      | Some g \<Rightarrow> (case d of Some c \<Rightarrow> if gob_inventory g \<le> gob_inventory c then Ignore else Commit True g | None \<Rightarrow> Commit True g))"

definition tracker_invalidate :: "extension_view \<Rightarrow> int \<Rightarrow> bool" where
  "tracker_invalidate d n = (case d of None \<Rightarrow> True | Some c \<Rightarrow> gob_inventory c < n)"

definition extension_invalidate ::
  "string \<Rightarrow> string \<Rightarrow> string \<times> string \<Rightarrow> extension_invalidation \<Rightarrow> extension_view \<Rightarrow> bool \<times> extension_view" where
  "extension_invalidate app env e i d =
     (if exi_application i \<noteq> app \<or> exi_environment i \<noteq> env \<or> (exi_class i, exi_extension i) \<noteq> e then (False, d)
      else (tracker_invalidate d (exi_inventory i), d))"

definition extension_calls ::
  "string \<Rightarrow> string \<Rightarrow> string \<times> string \<Rightarrow> (extension_view, generation_observation, extension_invalidation) consumer_calls" where
  "extension_calls app env e =
     \<lparr>cc_admit = tracker_observe, cc_commit = (\<lambda>_ g. Some g), cc_invalidate = extension_invalidate app env e\<rparr>"

subsection \<open>The polling loop\<close>

text \<open>The poll in flight: reading the store, applying an advance, or settled with its result or rejected (\<open>None\<close>).\<close>

datatype 'o poll_phase = Reading | Advancing 'o | Settled "bool option"

text \<open>
  \<open>csm_waiting\<close> and \<open>csm_resuming\<close> are the loops before and after the end of the poll they wait for, named by the lifecycle
  they captured; a resuming loop knows whether its poll was rejected. \<open>csm_timers\<close> are the armed timers with the lifecycle
  of their callback and \<open>csm_timer\<close> is the handle in the field \<open>timer\<close>. \<open>csm_errors\<close> counts the calls of \<open>onError\<close>.
\<close>

record ('d, 'o) consumer =
  csm_data :: 'd
  csm_poll :: "'o poll_phase option"
  csm_waiting :: "nat list"
  csm_resuming :: "(nat \<times> bool) list"
  csm_timers :: "(nat \<times> nat) list"
  csm_timer :: "nat option"
  csm_handle :: nat
  csm_running :: bool
  csm_lifecycle :: nat
  csm_errors :: nat

definition valid_interval :: "int \<Rightarrow> bool" where
  "valid_interval ms \<longleftrightarrow> is_safe_integer ms \<and> 50 \<le> ms \<and> ms \<le> 300000"

text \<open>The constructors; \<open>None\<close> is the \<open>TypeError\<close>.\<close>

definition new_consumer :: "'d \<Rightarrow> int option \<Rightarrow> ('d, 'o) consumer option" where
  "new_consumer d interval =
     (if \<not> valid_interval (case interval of None \<Rightarrow> 30000 | Some ms \<Rightarrow> ms) then None
      else Some \<lparr>csm_data = d, csm_poll = None, csm_waiting = [], csm_resuming = [], csm_timers = [], csm_timer = None,
                 csm_handle = 0, csm_running = False, csm_lifecycle = 0, csm_errors = 0\<rparr>)"

definition new_authorization_consumer :: "int option \<Rightarrow> (authorization_view, revision_state) consumer option" where
  "new_authorization_consumer interval = new_consumer \<lparr>avw_current = None, avw_minimum = None\<rparr> interval"

definition new_settings_consumer :: "string \<Rightarrow> string \<Rightarrow> int option \<Rightarrow> (settings_view, settings_revision) consumer option" where
  "new_settings_consumer app env interval =
     (if \<not> valid_settings_identity app env then None else new_consumer \<lparr>svw_current = None, svw_minimum = 0\<rparr> interval)"

definition new_extension_consumer :: "int option \<Rightarrow> (extension_view, generation_observation) consumer option" where
  "new_extension_consumer interval = new_consumer None interval"

definition begin_poll :: "('d, 'o) consumer \<Rightarrow> ('d, 'o) consumer" where
  "begin_poll s = (case csm_poll s of None \<Rightarrow> s\<lparr>csm_poll := Some Reading\<rparr> | Some _ \<Rightarrow> s)"

text \<open>\<open>pollAndSchedule\<close> up to its \<open>await\<close>; a poll that has settled already resumes the loop.\<close>

definition enter_loop :: "nat \<Rightarrow> ('d, 'o) consumer \<Rightarrow> ('d, 'o) consumer" where
  "enter_loop l s =
     (let t = begin_poll s
      in case csm_poll t of
           Some (Settled r) \<Rightarrow> t\<lparr>csm_resuming := csm_resuming t @ [(l, r = None)]\<rparr>
         | _ \<Rightarrow> t\<lparr>csm_waiting := csm_waiting t @ [l]\<rparr>)"

definition start_consumer :: "('d, 'o) consumer \<Rightarrow> ('d, 'o) consumer" where
  "start_consumer s =
     (if csm_running s then s
      else enter_loop (Suc (csm_lifecycle s)) (s\<lparr>csm_running := True, csm_lifecycle := Suc (csm_lifecycle s)\<rparr>))"

definition stop_consumer :: "('d, 'o) consumer \<Rightarrow> ('d, 'o) consumer" where
  "stop_consumer s =
     s\<lparr>csm_running := False, csm_lifecycle := Suc (csm_lifecycle s),
       csm_timers := (case csm_timer s of None \<Rightarrow> csm_timers s | Some h \<Rightarrow> filter (\<lambda>(g, _). g \<noteq> h) (csm_timers s)),
       csm_timer := None\<rparr>"

definition settle_poll :: "bool option \<Rightarrow> ('d, 'o) consumer \<Rightarrow> ('d, 'o) consumer" where
  "settle_poll r s =
     s\<lparr>csm_poll := Some (Settled r), csm_resuming := csm_resuming s @ map (\<lambda>l. (l, r = None)) (csm_waiting s), csm_waiting := []\<rparr>"

definition commit_snapshot :: "('d, 'o, 'i) consumer_calls \<Rightarrow> bool \<Rightarrow> 'o \<Rightarrow> ('d, 'o) consumer \<Rightarrow> ('d, 'o) consumer" where
  "commit_snapshot c changed x s = settle_poll (Some changed) (s\<lparr>csm_data := cc_commit c (csm_data s) x\<rparr>)"

definition read_returns :: "('d, 'o, 'i) consumer_calls \<Rightarrow> 'o option \<Rightarrow> ('d, 'o) consumer \<Rightarrow> ('d, 'o) consumer" where
  "read_returns c x s =
     (case cc_admit c (csm_data s) x of
        Ignore \<Rightarrow> settle_poll (Some False) s
      | Commit changed y \<Rightarrow> commit_snapshot c changed y s
      | Advance y \<Rightarrow> s\<lparr>csm_poll := Some (Advancing y)\<rparr>)"

text \<open>The rest of \<open>pollAndSchedule\<close>.\<close>

definition resume_loop :: "nat \<times> bool \<Rightarrow> ('d, 'o) consumer \<Rightarrow> ('d, 'o) consumer" where
  "resume_loop = (\<lambda>(l, rejected) s.
     let t = (if rejected then s\<lparr>csm_errors := Suc (csm_errors s)\<rparr> else s)
     in if \<not> csm_running t \<or> csm_lifecycle t \<noteq> l then t
        else t\<lparr>csm_timer := Some (csm_handle t), csm_timers := csm_timers t @ [(csm_handle t, l)], csm_handle := Suc (csm_handle t)\<rparr>)"

datatype ('o, 'i) consumer_event =
    Start | Stop | Poll | Invalidate 'i | ReadReturns "'o option" | ReadFails | AdvanceReturns | AdvanceFails
  | ClearPoll | ResumeLoop nat | TimerFires nat

text \<open>One event; \<open>None\<close> when it cannot happen.\<close>

fun consumer_step :: "('d, 'o, 'i) consumer_calls \<Rightarrow> ('o, 'i) consumer_event \<Rightarrow> ('d, 'o) consumer \<Rightarrow> ('d, 'o) consumer option" where
  "consumer_step c Start s = Some (start_consumer s)"
| "consumer_step c Stop s = Some (stop_consumer s)"
| "consumer_step c Poll s = Some (begin_poll s)"
| "consumer_step c (Invalidate i) s = Some (s\<lparr>csm_data := snd (cc_invalidate c i (csm_data s))\<rparr>)"
| "consumer_step c (ReadReturns x) s = (case csm_poll s of Some Reading \<Rightarrow> Some (read_returns c x s) | _ \<Rightarrow> None)"
| "consumer_step c ReadFails s = (case csm_poll s of Some Reading \<Rightarrow> Some (settle_poll None s) | _ \<Rightarrow> None)"
| "consumer_step c AdvanceReturns s = (case csm_poll s of Some (Advancing x) \<Rightarrow> Some (commit_snapshot c True x s) | _ \<Rightarrow> None)"
| "consumer_step c AdvanceFails s = (case csm_poll s of Some (Advancing x) \<Rightarrow> Some (settle_poll None s) | _ \<Rightarrow> None)"
| "consumer_step c ClearPoll s = (case csm_poll s of Some (Settled r) \<Rightarrow> Some (s\<lparr>csm_poll := None\<rparr>) | _ \<Rightarrow> None)"
| "consumer_step c (ResumeLoop n) s =
     (if n < length (csm_resuming s)
      then Some (resume_loop (csm_resuming s ! n) (s\<lparr>csm_resuming := take n (csm_resuming s) @ drop (Suc n) (csm_resuming s)\<rparr>)) else None)"
| "consumer_step c (TimerFires h) s =
     (case map_of (csm_timers s) h of
        None \<Rightarrow> None
      | Some l \<Rightarrow> Some (enter_loop l (s\<lparr>csm_timers := filter (\<lambda>(g, _). g \<noteq> h) (csm_timers s), csm_timer := None\<rparr>)))"

fun consumer_run :: "('d, 'o, 'i) consumer_calls \<Rightarrow> ('o, 'i) consumer_event list \<Rightarrow> ('d, 'o) consumer \<Rightarrow> ('d, 'o) consumer option" where
  "consumer_run c [] s = Some s"
| "consumer_run c (e # es) s = Option.bind (consumer_step c e s) (consumer_run c es)"

end
