(* ===== verification/RevisionConsumersProperties.thy ===== *)
theory RevisionConsumersProperties
  imports RevisionConsumers
begin

text \<open>
  Two properties of the consumers of revisions under every interleaving of their events. The locale
  \<open>revision_contract\<close> is what a consumer's \<open>observe\<close> and \<open>invalidate\<close> promise about the revisions that its snapshot and
  its floor have reached; inside it, no revision that was reached is ever lost and no read publishes an older snapshot. All three
  consumers interpret it. The polling loop has one owner: a running consumer has exactly one loop.
\<close>

subsection \<open>Runs\<close>

lemma consumer_run_append:
  "consumer_run c (es @ fs) s = Option.bind (consumer_run c es s) (consumer_run c fs)"
  by (induction es arbitrary: s) (simp_all split: Option.bind_split)

lemma consumer_run_invariant:
  assumes "consumer_run c es s = Some t" "P s"
    and "\<And>e s t. P s \<Longrightarrow> consumer_step c e s = Some t \<Longrightarrow> P t"
  shows "P t"
  using assms(1,2)
proof (induction es arbitrary: s)
  case (Cons e es)
  then obtain u where "consumer_step c e s = Some u" "consumer_run c es u = Some t" by (auto split: Option.bind_splits)
  then show ?case using Cons.IH assms(3) Cons.prems(2) by blast
qed simp

text \<open>What the operations leave alone.\<close>

lemma enter_loop_frame [simp]:
  "csm_data (enter_loop l s) = csm_data s" "csm_lifecycle (enter_loop l s) = csm_lifecycle s" "csm_running (enter_loop l s) = csm_running s"
  "csm_timers (enter_loop l s) = csm_timers s" "csm_timer (enter_loop l s) = csm_timer s"
  by (simp_all add: enter_loop_def begin_poll_def Let_def split: option.splits poll_phase.splits)

lemma enter_loop_poll: "csm_poll (enter_loop l s) = Some (Advancing x) \<longleftrightarrow> csm_poll s = Some (Advancing x)"
  by (auto simp: enter_loop_def begin_poll_def Let_def split: option.splits poll_phase.splits)

lemma resume_loop_frame [simp]:
  "csm_data (resume_loop r s) = csm_data s" "csm_poll (resume_loop r s) = csm_poll s" "csm_waiting (resume_loop r s) = csm_waiting s"
  "csm_lifecycle (resume_loop r s) = csm_lifecycle s" "csm_running (resume_loop r s) = csm_running s"
  "csm_resuming (resume_loop r s) = csm_resuming s"
  by (simp_all add: resume_loop_def Let_def split_beta)

lemma settle_poll_frame [simp]:
  "csm_data (settle_poll r s) = csm_data s" "csm_poll (settle_poll r s) = Some (Settled r)" "csm_waiting (settle_poll r s) = []"
  "csm_resuming (settle_poll r s) = csm_resuming s @ map (\<lambda>l. (l, r = None)) (csm_waiting s)"
  "csm_lifecycle (settle_poll r s) = csm_lifecycle s" "csm_running (settle_poll r s) = csm_running s"
  "csm_timers (settle_poll r s) = csm_timers s" "csm_timer (settle_poll r s) = csm_timer s"
  by (simp_all add: settle_poll_def)

fun quiet :: "('o, 'i) consumer_event \<Rightarrow> bool" where
  "quiet (Invalidate i) = False"
| "quiet (ReadReturns x) = False"
| "quiet AdvanceReturns = False"
| "quiet e = True"

lemma begin_poll_frame:
  "csm_data (begin_poll s) = csm_data s" "csm_poll (begin_poll s) = Some (Advancing x) \<longleftrightarrow> csm_poll s = Some (Advancing x)"
  by (simp_all add: begin_poll_def split: option.splits)

lemma start_stop_frame:
  "csm_data (start_consumer s) = csm_data s" "csm_poll (start_consumer s) = Some (Advancing x) \<longleftrightarrow> csm_poll s = Some (Advancing x)"
  "csm_data (stop_consumer s) = csm_data s" "csm_poll (stop_consumer s) = csm_poll s"
  by (simp_all add: start_consumer_def stop_consumer_def enter_loop_poll)

lemma quiet_step:
  assumes "consumer_step c e s = Some t" "quiet e"
  shows "csm_data t = csm_data s \<and> (csm_poll t = Some (Advancing x) \<longrightarrow> csm_poll s = Some (Advancing x))"
  using assms
  by (cases e) (auto simp: begin_poll_frame start_stop_frame enter_loop_poll split: option.splits poll_phase.splits if_splits)

text \<open>The data change only by an invalidation or a commit, and an advance starts only where a read returns.\<close>

lemma consumer_step_data:
  assumes "consumer_step c e s = Some t"
  obtains (invalidated) i where "csm_data t = snd (cc_invalidate c i (csm_data s))" "csm_poll t = csm_poll s"
  | (committed) b x y where "cc_admit c (csm_data s) x = Commit b y" "csm_data t = cc_commit c (csm_data s) y" "csm_poll t = Some (Settled (Some b))"
  | (advancing) x y where "cc_admit c (csm_data s) x = Advance y" "csm_data t = csm_data s" "csm_poll t = Some (Advancing y)"
  | (advanced) y where "csm_poll s = Some (Advancing y)" "csm_data t = cc_commit c (csm_data s) y" "csm_poll t = Some (Settled (Some True))"
  | (same) "csm_data t = csm_data s" "\<And>y. csm_poll t = Some (Advancing y) \<Longrightarrow> csm_poll s = Some (Advancing y)"
proof (cases "quiet e")
  case True
  show ?thesis by (rule same) (use quiet_step [OF assms True] in blast)+
next
  case False
  then consider i where "e = Invalidate i" | x where "e = ReadReturns x" | "e = AdvanceReturns" by (cases e) simp_all
  then show ?thesis
  proof cases
    case (1 i)
    then show ?thesis using assms invalidated by auto
  next
    case (2 x)
    then have t: "t = read_returns c x s" using assms by (simp split: option.splits poll_phase.splits)
    show ?thesis
    proof (cases "cc_admit c (csm_data s) x")
      case Ignore
      then show ?thesis using same t by (simp add: read_returns_def)
    next
      case (Commit b y)
      then show ?thesis using committed t by (simp add: read_returns_def commit_snapshot_def)
    next
      case (Advance y)
      then show ?thesis using advancing t by (simp add: read_returns_def)
    qed
  next
    case 3
    then obtain y where "csm_poll s = Some (Advancing y)" "t = commit_snapshot c True y s"
      using assms by (auto split: option.splits poll_phase.splits)
    then show ?thesis using advanced by (simp add: commit_snapshot_def)
  qed
qed

subsection \<open>The contract of a consumer\<close>

text \<open>
  \<open>at_least r x\<close>: the snapshot \<open>x\<close> has reached revision \<open>r\<close>. \<open>reached r d\<close>: the snapshot of \<open>d\<close> or the floor of its
  invalidations has.
\<close>

locale revision_contract =
  fixes calls :: "('d, 'o, 'i) consumer_calls"
    and snapshot :: "'d \<Rightarrow> 'o option"
    and at_least :: "'r \<Rightarrow> 'o \<Rightarrow> bool"
    and reached :: "'r \<Rightarrow> 'd \<Rightarrow> bool"
  assumes snapshot_reached: "snapshot d = Some x \<Longrightarrow> at_least r x \<Longrightarrow> reached r d"
    and admit_reached: "cc_admit calls d z = Commit b y \<or> cc_admit calls d z = Advance y \<Longrightarrow> reached r d \<Longrightarrow> at_least r y"
    and commit_snapshot: "snapshot (cc_commit calls d y) = Some y"
    and commit_reached: "reached r d \<Longrightarrow> (\<And>c q. snapshot d = Some c \<Longrightarrow> at_least q c \<Longrightarrow> at_least q y) \<Longrightarrow> reached r (cc_commit calls d y)"
    and invalidate_snapshot: "snapshot (snd (cc_invalidate calls i d)) = snapshot d"
    and invalidate_reached: "reached r d \<Longrightarrow> reached r (snd (cc_invalidate calls i d))"
begin

definition rises :: "'o option \<Rightarrow> 'o \<Rightarrow> bool" where
  "rises c y \<longleftrightarrow> (\<forall>x r. c = Some x \<longrightarrow> at_least r x \<longrightarrow> at_least r y)"

text \<open>An advance in flight is above the snapshot it is going to replace.\<close>

definition sound :: "('d, 'o) consumer \<Rightarrow> bool" where
  "sound s \<longleftrightarrow> (\<forall>y. csm_poll s = Some (Advancing y) \<longrightarrow> rises (snapshot (csm_data s)) y)"

lemma admit_rises: "cc_admit calls d z = Commit b y \<or> cc_admit calls d z = Advance y \<Longrightarrow> rises (snapshot d) y"
  using admit_reached snapshot_reached unfolding rises_def by blast

lemma commits_rise: "cc_admit calls d z = Commit b y \<Longrightarrow> rises (snapshot d) y"
  using admit_rises [of d z b y] by simp

lemma advances_rise: "cc_admit calls d z = Advance y \<Longrightarrow> rises (snapshot d) y"
  using admit_rises [of d z _ y] by simp

lemma step_sound: "sound s \<Longrightarrow> consumer_step calls e s = Some t \<Longrightarrow> sound t"
  by (erule consumer_step_data) (auto simp: sound_def invalidate_snapshot dest: advances_rise)

lemma commit_rises: "rises (snapshot d) y \<Longrightarrow> reached r d \<Longrightarrow> reached r (cc_commit calls d y)"
  by (rule commit_reached) (auto simp: rises_def)

lemma step_reached: "sound s \<Longrightarrow> reached r (csm_data s) \<Longrightarrow> consumer_step calls e s = Some t \<Longrightarrow> reached r (csm_data t)"
  by (erule consumer_step_data) (auto simp: sound_def intro: invalidate_reached commit_rises commits_rise)

lemma step_rises:
  assumes "sound s" "consumer_step calls e s = Some t" "snapshot (csm_data s) = Some x"
  shows "\<exists>y. snapshot (csm_data t) = Some y \<and> (\<forall>r. at_least r x \<longrightarrow> at_least r y)"
  using assms(2)
proof (cases rule: consumer_step_data)
  case (committed b z y)
  then have "rises (snapshot (csm_data s)) y" using admit_rises by blast
  then show ?thesis using assms(3) committed by (simp add: rises_def commit_snapshot)
next
  case (advanced y)
  then show ?thesis using assms by (simp add: sound_def rises_def commit_snapshot)
qed (use assms(3) in \<open>simp_all add: invalidate_snapshot\<close>)

text \<open>No revision that was reached is lost, and the snapshot never goes back.\<close>

lemma run_reached:
  assumes "consumer_run calls es s = Some t" "sound s" "reached r (csm_data s)"
  shows "reached r (csm_data t)"
  using consumer_run_invariant [OF assms(1), of "\<lambda>s. sound s \<and> reached r (csm_data s)"] assms(2,3) step_sound step_reached by blast

lemma run_sound: "consumer_run calls es s = Some t \<Longrightarrow> sound s \<Longrightarrow> sound t"
  using consumer_run_invariant [of calls es s t sound] step_sound by blast

lemma run_rises:
  assumes "consumer_run calls es s = Some t" "sound s" "snapshot (csm_data s) = Some x"
  shows "\<exists>y. snapshot (csm_data t) = Some y \<and> (\<forall>r. at_least r x \<longrightarrow> at_least r y)"
proof -
  let ?P = "\<lambda>s. sound s \<and> (\<exists>y. snapshot (csm_data s) = Some y \<and> (\<forall>r. at_least r x \<longrightarrow> at_least r y))"
  have "?P t"
  proof (rule consumer_run_invariant [OF assms(1)])
    show "?P v" if "?P u" "consumer_step calls e u = Some v" for e u v
      using that step_sound step_rises by (metis (no_types, lifting))
  qed (use assms(2,3) in blast)
  then show ?thesis by blast
qed

text \<open>
  What is published after a revision was reached has it, except the snapshot that was being applied at that
  moment, if there is one: \<open>onAdvance\<close> was called before, and its snapshot is committed when it returns.
\<close>

lemma run_publishes:
  assumes "consumer_run calls es s = Some t" "sound s" "reached r (csm_data s)"
    and "snapshot (csm_data t) = Some x" "snapshot (csm_data s) \<noteq> Some x"
  shows "at_least r x \<or> csm_poll s = Some (Advancing x)"
proof -
  let ?P = "\<lambda>u. reached r (csm_data u) \<and> sound u
    \<and> (\<forall>y. csm_poll u = Some (Advancing y) \<longrightarrow> at_least r y \<or> csm_poll s = Some (Advancing y))
    \<and> (\<forall>x. snapshot (csm_data u) = Some x \<longrightarrow> snapshot (csm_data s) = Some x \<or> at_least r x \<or> csm_poll s = Some (Advancing x))"
  have "?P t"
  proof (rule consumer_run_invariant [OF assms(1)])
    show "?P v" if u: "?P u" and step: "consumer_step calls e u = Some v" for e u v
    proof -
      have "reached r (csm_data v)" "sound v" using u step step_reached step_sound by blast+
      moreover from step have "(\<forall>y. csm_poll v = Some (Advancing y) \<longrightarrow> at_least r y \<or> csm_poll s = Some (Advancing y))
          \<and> (\<forall>x. snapshot (csm_data v) = Some x \<longrightarrow> snapshot (csm_data s) = Some x \<or> at_least r x \<or> csm_poll s = Some (Advancing x))"
        by (cases rule: consumer_step_data) (use u admit_reached [of "csm_data u"] in \<open>auto simp: invalidate_snapshot commit_snapshot\<close>)
      ultimately show ?thesis by blast
    qed
  qed (use assms(2,3) in simp)
  then show ?thesis using assms(4,5) by blast
qed

end

subsection \<open>The three consumers keep the contract\<close>

fun authorization_at_least :: "int \<times> int \<Rightarrow> revision_state \<Rightarrow> bool" where
  "authorization_at_least (a, l) s \<longleftrightarrow> a \<le> rvs_authorization s \<and> l \<le> rvs_lifecycle s"

definition part_reached :: "(revision_state \<Rightarrow> int) \<Rightarrow> int \<Rightarrow> authorization_view \<Rightarrow> bool" where
  "part_reached f n d \<longleftrightarrow> (\<exists>s \<in> set_option (avw_current d) \<union> set_option (avw_minimum d). n \<le> f s)"

fun authorization_reached :: "int \<times> int \<Rightarrow> authorization_view \<Rightarrow> bool" where
  "authorization_reached (a, l) d \<longleftrightarrow> part_reached rvs_authorization a d \<and> part_reached rvs_lifecycle l d"

lemma authorization_contract:
  "revision_contract (authorization_calls app env) avw_current authorization_at_least authorization_reached"
proof
  fix d x and r :: "int \<times> int"
  show "avw_current d = Some x \<Longrightarrow> authorization_at_least r x \<Longrightarrow> authorization_reached r d"
    by (cases r) (auto simp: part_reached_def)
next
  fix d :: authorization_view and x b y and r :: "int \<times> int"
  assume "cc_admit (authorization_calls app env) d x = Commit b y \<or> cc_admit (authorization_calls app env) d x = Advance y"
  then have "is_at_least y (avw_current d)" "is_at_least y (avw_minimum d)"
    by (auto simp: authorization_calls_def authorization_admit_def split: option.splits if_splits)
  then show "authorization_reached r d \<Longrightarrow> authorization_at_least r y"
    by (cases r) (fastforce simp: part_reached_def is_at_least_def split: option.splits)
next
  fix d :: authorization_view and y
  show "avw_current (cc_commit (authorization_calls app env) d y) = Some y"
    by (simp add: authorization_calls_def authorization_commit_def)
next
  fix d :: authorization_view and y and r :: "int \<times> int"
  assume r: "authorization_reached r d"
    and above: "\<And>c q. avw_current d = Some c \<Longrightarrow> authorization_at_least q c \<Longrightarrow> authorization_at_least q y"
  have "rvs_authorization c \<le> rvs_authorization y \<and> rvs_lifecycle c \<le> rvs_lifecycle y" if "avw_current d = Some c" for c
    using above [OF that, of "(rvs_authorization c, rvs_lifecycle c)"] by simp
  then show "authorization_reached r (cc_commit (authorization_calls app env) d y)"
    using r by (cases r) (fastforce simp: authorization_calls_def authorization_commit_def part_reached_def is_at_least_def split: option.splits)
next
  fix i d
  show "avw_current (snd (cc_invalidate (authorization_calls app env) i d)) = avw_current d"
    by (simp add: authorization_calls_def authorization_invalidate_def Let_def)
next
  fix i d and r :: "int \<times> int"
  show "authorization_reached r d \<Longrightarrow> authorization_reached r (snd (cc_invalidate (authorization_calls app env) i d))"
    by (cases r) (auto simp: authorization_calls_def authorization_invalidate_def Let_def part_reached_def split: option.splits)
qed

definition settings_at_least :: "int \<Rightarrow> settings_revision \<Rightarrow> bool" where
  "settings_at_least n s \<longleftrightarrow> n \<le> stg_revision s"

definition settings_reached :: "int \<Rightarrow> settings_view \<Rightarrow> bool" where
  "settings_reached n d \<longleftrightarrow> (\<exists>s. svw_current d = Some s \<and> n \<le> stg_revision s) \<or> n \<le> svw_minimum d \<and> 0 < svw_minimum d"

lemma settings_contract: "revision_contract (settings_calls app env) svw_current settings_at_least settings_reached"
proof
  fix d :: settings_view and y and r :: int
  assume r: "settings_reached r d"
    and above: "\<And>c q. svw_current d = Some c \<Longrightarrow> settings_at_least q c \<Longrightarrow> settings_at_least q y"
  then have "stg_revision c \<le> stg_revision y" if "svw_current d = Some c" for c
    using above [OF that, of "stg_revision c"] by (simp add: settings_at_least_def)
  then show "settings_reached r (cc_commit (settings_calls app env) d y)"
    using r by (fastforce simp: settings_calls_def settings_commit_def settings_reached_def)
qed (auto simp: settings_calls_def settings_admit_def settings_commit_def settings_invalidate_def settings_at_least_def settings_reached_def
       current_settings_revision_def Let_def split: option.splits if_splits)

definition extension_at_least :: "int \<Rightarrow> generation_observation \<Rightarrow> bool" where
  "extension_at_least n g \<longleftrightarrow> n \<le> gob_inventory g"

definition extension_reached :: "int \<Rightarrow> extension_view \<Rightarrow> bool" where
  "extension_reached n d \<longleftrightarrow> (\<exists>g. d = Some g \<and> n \<le> gob_inventory g)"

lemma extension_contract: "revision_contract (extension_calls app env e) (\<lambda>d. d) extension_at_least extension_reached"
proof
  fix d :: extension_view and y and r :: int
  assume "extension_reached r d"
    and "\<And>c q. d = Some c \<Longrightarrow> extension_at_least q c \<Longrightarrow> extension_at_least q y"
  then show "extension_reached r (cc_commit (extension_calls app env e) d y)"
    by (auto simp: extension_calls_def extension_reached_def extension_at_least_def)
qed (auto simp: extension_calls_def tracker_observe_def extension_invalidate_def extension_at_least_def extension_reached_def
       split: option.splits if_splits)

interpretation authorization_consumer: revision_contract "authorization_calls app env" avw_current authorization_at_least authorization_reached
  for app env
  by (rule authorization_contract)

interpretation settings_consumer: revision_contract "settings_calls app env" svw_current settings_at_least settings_reached
  for app env
  by (rule settings_contract)

interpretation extension_consumer: revision_contract "extension_calls app env e" "\<lambda>d. d" extension_at_least extension_reached
  for app env e
  by (rule extension_contract)

lemma authorization_invalidated:
  assumes "owns_invalidation app env i" "is_revision (rvi_authorization i) (rvi_lifecycle i)"
  shows "authorization_reached (rvi_authorization i, rvi_lifecycle i) (snd (authorization_invalidate app env i d))"
proof -
  define m where "m = (case avw_minimum d of None \<Rightarrow> avw_current d | Some m \<Rightarrow> Some m)"
  have "set_option m \<subseteq> set_option (avw_current d) \<union> set_option (avw_minimum d)" by (auto simp: m_def split: option.splits)
  moreover have "rvi_authorization i \<le> rvs_authorization x \<and> rvi_lifecycle i \<le> rvs_lifecycle x"
    if "m = Some x" "rvs_authorization x = max (rvs_authorization x) (rvi_authorization i)" "rvs_lifecycle x = max (rvs_lifecycle x) (rvi_lifecycle i)"
    for x using that by (simp add: max_def split: if_splits)
  ultimately show ?thesis
    using assms unfolding authorization_invalidate_def m_def [symmetric] Let_def
    by (cases m) (auto simp: same_revision_def part_reached_def)
qed

text \<open>C14: Under every interleaving of invalidations, polls and their awaits, the snapshot of the authorization consumer never goes
  back in either revision. Once an invalidation of its application has arrived, every snapshot that is published later has at least
  the revisions of the invalidation, except that a snapshot which \<open>onAdvance\<close> was already applying when the invalidation
  arrived is still published when it returns; and the revisions of the invalidation are never lost: at any later moment the
  snapshot or the floor below which no read is accepted has reached each of them.\<close>

theorem authorization_invalidation_not_lost:
  assumes "new_authorization_consumer interval = Some start"
    and "consumer_run (authorization_calls app env) es start = Some s"
    and "consumer_run (authorization_calls app env) (Invalidate i # fs) s = Some t"
  shows "(avw_current (csm_data s) = Some x \<longrightarrow>
      (\<exists>y. avw_current (csm_data t) = Some y \<and> rvs_authorization x \<le> rvs_authorization y \<and> rvs_lifecycle x \<le> rvs_lifecycle y))
    \<and> (owns_invalidation app env i \<and> is_revision (rvi_authorization i) (rvi_lifecycle i) \<longrightarrow>
      (avw_current (csm_data t) = Some z \<and> avw_current (csm_data s) \<noteq> Some z \<longrightarrow>
        rvi_authorization i \<le> rvs_authorization z \<and> rvi_lifecycle i \<le> rvs_lifecycle z \<or> csm_poll s = Some (Advancing z))
      \<and> (\<exists>y. (avw_current (csm_data t) = Some y \<or> avw_minimum (csm_data t) = Some y) \<and> rvi_authorization i \<le> rvs_authorization y)
      \<and> (\<exists>y. (avw_current (csm_data t) = Some y \<or> avw_minimum (csm_data t) = Some y) \<and> rvi_lifecycle i \<le> rvs_lifecycle y))"
proof (intro conjI impI)
  have "authorization_consumer.sound start"
    using assms(1) by (auto simp: authorization_consumer.sound_def new_authorization_consumer_def new_consumer_def split: if_splits)
  then have sound: "authorization_consumer.sound s" using authorization_consumer.run_sound assms(2) by blast
  show "\<exists>y. avw_current (csm_data t) = Some y \<and> rvs_authorization x \<le> rvs_authorization y \<and> rvs_lifecycle x \<le> rvs_lifecycle y"
    if "avw_current (csm_data s) = Some x"
    using authorization_consumer.run_rises [OF assms(3) sound that]
    by (metis authorization_at_least.simps order_refl)
  define u where "u = s\<lparr>csm_data := snd (authorization_invalidate app env i (csm_data s))\<rparr>"
  have u: "consumer_step (authorization_calls app env) (Invalidate i) s = Some u" by (simp add: u_def authorization_calls_def)
  then have run: "consumer_run (authorization_calls app env) fs u = Some t" using assms(3) by simp
  have sound_u: "authorization_consumer.sound u" using authorization_consumer.step_sound sound u by blast
  assume "owns_invalidation app env i \<and> is_revision (rvi_authorization i) (rvi_lifecycle i)"
  then have reached: "authorization_reached (rvi_authorization i, rvi_lifecycle i) (csm_data u)"
    using authorization_invalidated by (simp add: u_def)
  have same: "avw_current (csm_data u) = avw_current (csm_data s)" "csm_poll u = csm_poll s"
    using authorization_consumer.invalidate_snapshot [of app env i "csm_data s"] by (simp_all add: u_def authorization_calls_def)
  show "rvi_authorization i \<le> rvs_authorization z \<and> rvi_lifecycle i \<le> rvs_lifecycle z \<or> csm_poll s = Some (Advancing z)"
    if "avw_current (csm_data t) = Some z \<and> avw_current (csm_data s) \<noteq> Some z"
    using authorization_consumer.run_publishes [OF run sound_u reached] that same by simp
  have "authorization_reached (rvi_authorization i, rvi_lifecycle i) (csm_data t)"
    by (rule authorization_consumer.run_reached [OF run sound_u reached])
  then show "\<exists>y. (avw_current (csm_data t) = Some y \<or> avw_minimum (csm_data t) = Some y) \<and> rvi_authorization i \<le> rvs_authorization y"
    "\<exists>y. (avw_current (csm_data t) = Some y \<or> avw_minimum (csm_data t) = Some y) \<and> rvi_lifecycle i \<le> rvs_lifecycle y"
    by (auto simp: part_reached_def)
qed

text \<open>The same for the other two consumers.\<close>

lemma settings_invalidation_not_lost:
  assumes "consumer_run (settings_calls app env) fs s = Some t" "settings_consumer.sound s" "settings_reached n (csm_data s)"
    and "svw_current (csm_data t) = Some z" "svw_current (csm_data s) \<noteq> Some z"
  shows "n \<le> stg_revision z \<or> csm_poll s = Some (Advancing z)"
  using settings_consumer.run_publishes [OF assms] by (simp add: settings_at_least_def)

lemma settings_invalidated:
  assumes "sti_application i = app" "sti_environment i = env" "is_safe_integer (sti_revision i)" "1 \<le> sti_revision i"
  shows "settings_reached (sti_revision i) (snd (settings_invalidate app env i d))"
  using assms by (auto simp: settings_invalidate_def settings_reached_def current_settings_revision_def Let_def split: option.splits)

lemma extension_inventory_rises:
  assumes "consumer_run (extension_calls app env e) fs s = Some t" "extension_consumer.sound s" "csm_data s = Some g"
  shows "\<exists>k. csm_data t = Some k \<and> gob_inventory g \<le> gob_inventory k"
  using extension_consumer.run_rises [OF assms(1,2), of g] assms(3) by (auto simp: extension_at_least_def)

subsection \<open>One loop\<close>

definition consumer_loops :: "('d, 'o) consumer \<Rightarrow> nat multiset" where
  "consumer_loops s = mset (csm_waiting s) + mset (map fst (csm_resuming s)) + mset (map snd (csm_timers s))"

definition poll_busy :: "('d, 'o) consumer \<Rightarrow> bool" where
  "poll_busy s \<longleftrightarrow> (case csm_poll s of Some Reading \<Rightarrow> True | Some (Advancing _) \<Rightarrow> True | _ \<Rightarrow> False)"

fun own_timer :: "nat option \<Rightarrow> nat \<Rightarrow> (nat \<times> nat) list" where
  "own_timer None l = []"
| "own_timer (Some h) l = [(h, l)]"

lemma own_timer_Cons: "own_timer h l = x # xs \<longleftrightarrow> h = Some (fst x) \<and> l = snd x \<and> xs = []"
  by (cases h) auto

definition one_loop :: "('d, 'o) consumer \<Rightarrow> bool" where
  "one_loop s \<longleftrightarrow> count (consumer_loops s) (csm_lifecycle s) = (if csm_running s then 1 else 0)
     \<and> (\<forall>l \<in># consumer_loops s. l \<le> csm_lifecycle s)
     \<and> csm_timers s = own_timer (csm_timer s) (csm_lifecycle s)
     \<and> (csm_waiting s = [] \<or> poll_busy s)"

lemma enter_loop_loops:
  "consumer_loops (enter_loop l s) = add_mset l (consumer_loops s)"
  by (simp add: consumer_loops_def enter_loop_def begin_poll_def Let_def split: option.splits poll_phase.splits)

lemma enter_loop_busy: "csm_waiting s = [] \<or> poll_busy s \<Longrightarrow> csm_waiting (enter_loop l s) = [] \<or> poll_busy (enter_loop l s)"
  by (simp add: poll_busy_def enter_loop_def begin_poll_def Let_def split: option.splits poll_phase.splits)

lemma settle_poll_loops [simp]: "consumer_loops (settle_poll r s) = consumer_loops s"
  by (simp add: consumer_loops_def comp_def)

lemma settle_poll_one_loop: "one_loop s \<Longrightarrow> one_loop (settle_poll r s)"
  by (simp add: one_loop_def)

lemma start_one_loop:
  assumes "one_loop s"
  shows "one_loop (start_consumer s)"
proof (cases "csm_running s")
  case False
  let ?u = "s\<lparr>csm_running := True, csm_lifecycle := Suc (csm_lifecycle s)\<rparr>"
  have loops: "consumer_loops ?u = consumer_loops s" by (simp add: consumer_loops_def)
  have "csm_timer s = None"
  proof (rule ccontr)
    assume "csm_timer s \<noteq> None"
    then have "csm_lifecycle s \<in># consumer_loops s" using assms by (auto simp: one_loop_def consumer_loops_def)
    moreover have "count (consumer_loops s) (csm_lifecycle s) = 0" using assms False by (simp add: one_loop_def)
    ultimately show False by (simp add: count_eq_zero_iff)
  qed
  moreover have "Suc (csm_lifecycle s) \<notin># consumer_loops s" using assms by (auto simp: one_loop_def)
  then have "count (consumer_loops s) (Suc (csm_lifecycle s)) = 0" by (simp add: not_in_iff)
  moreover have "\<forall>l \<in># consumer_loops s. l \<le> Suc (csm_lifecycle s)" using assms by (auto simp: one_loop_def)
  moreover have "csm_waiting ?u = [] \<or> poll_busy ?u" using assms by (simp add: one_loop_def poll_busy_def)
  ultimately show ?thesis
    using assms False enter_loop_busy [of ?u] by (simp add: start_consumer_def one_loop_def enter_loop_loops loops)
qed (use assms in \<open>simp add: start_consumer_def\<close>)

lemma stop_one_loop:
  assumes "one_loop s"
  shows "one_loop (stop_consumer s)"
proof -
  have timers: "csm_timers (stop_consumer s) = []"
    using assms by (cases "csm_timer s") (auto simp: stop_consumer_def one_loop_def)
  have "set_mset (consumer_loops (stop_consumer s)) \<subseteq> set_mset (consumer_loops s)"
    unfolding consumer_loops_def timers by (auto simp: stop_consumer_def)
  then have "\<forall>l \<in># consumer_loops (stop_consumer s). l \<le> csm_lifecycle s" using assms by (auto simp: one_loop_def)
  moreover from this have "Suc (csm_lifecycle s) \<notin># consumer_loops (stop_consumer s)" by auto
  ultimately show ?thesis
    using assms timers by (auto simp: one_loop_def stop_consumer_def poll_busy_def not_in_iff)
qed

lemma resume_one_loop:
  assumes "one_loop s" "n < length (csm_resuming s)"
  shows "one_loop (resume_loop (csm_resuming s ! n) (s\<lparr>csm_resuming := take n (csm_resuming s) @ drop (Suc n) (csm_resuming s)\<rparr>))"
proof -
  let ?u = "s\<lparr>csm_resuming := take n (csm_resuming s) @ drop (Suc n) (csm_resuming s)\<rparr>"
  obtain l rejected where r: "csm_resuming s ! n = (l, rejected)" by fastforce
  have "mset (csm_resuming s) = add_mset (l, rejected) (mset (take n (csm_resuming s) @ drop (Suc n) (csm_resuming s)))"
    using id_take_nth_drop [OF assms(2)] r by (metis mset.simps(2) mset_append union_mset_add_mset_right)
  then have loops: "consumer_loops s = add_mset l (consumer_loops ?u)" by (simp add: consumer_loops_def)
  show ?thesis
  proof (cases "csm_running s \<and> l = csm_lifecycle s")
    case True
    then have "count (consumer_loops ?u) l = 0" using assms(1) loops by (simp add: one_loop_def)
    then have "csm_timer s = None"
      using assms(1) True by (cases "csm_timer s") (auto simp: one_loop_def consumer_loops_def)
    then have none: "csm_timers s = []" using assms(1) by (simp add: one_loop_def)
    have "consumer_loops (resume_loop (l, rejected) ?u) = consumer_loops s"
      using True by (simp add: loops) (simp add: resume_loop_def consumer_loops_def Let_def)
    moreover have "csm_timers (resume_loop (l, rejected) ?u)
        = own_timer (csm_timer (resume_loop (l, rejected) ?u)) (csm_lifecycle (resume_loop (l, rejected) ?u))"
      using True none by (simp add: resume_loop_def Let_def)
    ultimately show ?thesis using assms(1) r by (simp add: one_loop_def poll_busy_def)
  next
    case False
    then have "consumer_loops (resume_loop (l, rejected) ?u) = consumer_loops ?u"
      by (auto simp: resume_loop_def consumer_loops_def Let_def)
    moreover have "csm_timers (resume_loop (l, rejected) ?u) = csm_timers s" "csm_timer (resume_loop (l, rejected) ?u) = csm_timer s"
      using False by (auto simp: resume_loop_def Let_def)
    moreover have "count (consumer_loops ?u) (csm_lifecycle s) = (if csm_running s then 1 else 0)"
      using assms(1) False loops by (auto simp: one_loop_def split: if_splits)
    moreover have "\<forall>k \<in># consumer_loops ?u. k \<le> csm_lifecycle s" using assms(1) loops by (simp add: one_loop_def)
    ultimately show ?thesis using assms(1) r by (simp add: one_loop_def poll_busy_def)
  qed
qed

lemma timer_one_loop:
  assumes "one_loop s" "map_of (csm_timers s) h = Some l"
  shows "one_loop (enter_loop l (s\<lparr>csm_timers := filter (\<lambda>(g, _). g \<noteq> h) (csm_timers s), csm_timer := None\<rparr>))"
proof -
  let ?u = "s\<lparr>csm_timers := filter (\<lambda>(g, _). g \<noteq> h) (csm_timers s), csm_timer := None\<rparr>"
  have timers: "csm_timers s = [(h, csm_lifecycle s)]" "l = csm_lifecycle s"
    using assms by (cases "csm_timer s"; auto simp: one_loop_def split: if_splits)+
  then have "consumer_loops s = add_mset l (consumer_loops ?u)" by (simp add: consumer_loops_def)
  then have loops: "consumer_loops (enter_loop l ?u) = consumer_loops s" by (simp add: enter_loop_loops)
  have "csm_waiting ?u = [] \<or> poll_busy ?u" using assms(1) by (simp add: one_loop_def poll_busy_def)
  then have "csm_waiting (enter_loop l ?u) = [] \<or> poll_busy (enter_loop l ?u)" by (rule enter_loop_busy)
  moreover have "csm_timers (enter_loop l ?u) = own_timer (csm_timer (enter_loop l ?u)) (csm_lifecycle (enter_loop l ?u))"
    by (simp add: timers)
  moreover have "count (consumer_loops s) (csm_lifecycle s) = (if csm_running s then 1 else 0)"
    "\<forall>k \<in># consumer_loops s. k \<le> csm_lifecycle s"
    using assms(1) by (simp_all add: one_loop_def)
  ultimately show ?thesis unfolding one_loop_def loops by simp
qed

text \<open>The events that touch only the data or the poll.\<close>

lemma one_loop_same:
  assumes "one_loop s" "csm_waiting s = [] \<or> poll_busy (s\<lparr>csm_poll := p, csm_data := d\<rparr>)"
  shows "one_loop (s\<lparr>csm_poll := p, csm_data := d\<rparr>)"
proof -
  have "consumer_loops (s\<lparr>csm_poll := p, csm_data := d\<rparr>) = consumer_loops s" by (simp add: consumer_loops_def)
  then show ?thesis using assms by (simp add: one_loop_def)
qed

lemma one_loop_data:
  assumes "one_loop s"
  shows "one_loop (s\<lparr>csm_data := d\<rparr>)"
  using one_loop_same [of s, where p = "csm_poll s" and d = d] assms by (simp add: one_loop_def poll_busy_def)

lemma one_loop_poll:
  assumes "one_loop s" "csm_waiting s = [] \<or> poll_busy (s\<lparr>csm_poll := p\<rparr>)"
  shows "one_loop (s\<lparr>csm_poll := p\<rparr>)"
  using one_loop_same [of s, where p = p and d = "csm_data s"] assms by simp

lemma step_one_loop:
  assumes "one_loop s" "consumer_step c e s = Some t"
  shows "one_loop t"
proof (cases e)
  case Start
  then have "t = start_consumer s" using assms(2) by simp
  then show ?thesis using start_one_loop [OF assms(1)] by simp
next
  case Stop
  then have "t = stop_consumer s" using assms(2) by simp
  then show ?thesis using stop_one_loop [OF assms(1)] by simp
next
  case Poll
  then show ?thesis
    using assms one_loop_poll [OF assms(1), of "Some Reading"] by (auto simp: begin_poll_def poll_busy_def split: option.splits)
next
  case (Invalidate i)
  then show ?thesis using assms one_loop_data [OF assms(1)] by auto
next
  case (ReadReturns x)
  have "one_loop (s\<lparr>csm_poll := Some (Advancing y)\<rparr>)" for y
    using one_loop_poll [OF assms(1)] by (simp add: poll_busy_def)
  then show ?thesis
    using ReadReturns assms one_loop_data [OF assms(1)]
    by (auto simp: read_returns_def commit_snapshot_def settle_poll_one_loop split: option.splits poll_phase.splits admission.splits)
next
  case AdvanceReturns
  then show ?thesis
    using assms one_loop_data [OF assms(1)]
    by (auto simp: commit_snapshot_def settle_poll_one_loop split: option.splits poll_phase.splits)
next
  case ReadFails
  then show ?thesis using assms settle_poll_one_loop by (auto split: option.splits poll_phase.splits)
next
  case AdvanceFails
  then show ?thesis using assms settle_poll_one_loop by (auto split: option.splits poll_phase.splits)
next
  case ClearPoll
  then obtain r where "csm_poll s = Some (Settled r)" "t = s\<lparr>csm_poll := None\<rparr>"
    using assms(2) by (auto split: option.splits poll_phase.splits)
  moreover from this have "csm_waiting s = []" using assms(1) by (auto simp: one_loop_def poll_busy_def)
  ultimately show ?thesis using one_loop_poll [OF assms(1)] by simp
next
  case (ResumeLoop n)
  then show ?thesis using assms resume_one_loop by (auto split: if_splits)
next
  case (TimerFires h)
  then show ?thesis using assms timer_one_loop by (auto split: option.splits)
qed

text \<open>C33: Under every interleaving of its events a running consumer has exactly one polling loop of its own and a stopped one has none;
  no timer is armed beside the one in its field, so \<open>stop\<close> leaves no timer behind; and the loop of a running
  consumer is never stuck: it waits for a poll that is in flight, is about to resume, or has its timer armed.\<close>

theorem consumer_single_loop:
  assumes "new_consumer d interval = Some start" "consumer_run c es start = Some s"
  shows "count (consumer_loops s) (csm_lifecycle s) = (if csm_running s then 1 else 0)
    \<and> csm_timers s = own_timer (csm_timer s) (csm_lifecycle s)
    \<and> (csm_running s \<or> csm_timers s = [])
    \<and> (csm_running s \<longrightarrow> csm_lifecycle s \<in> set (csm_waiting s) \<and> poll_busy s
      \<or> csm_lifecycle s \<in> fst ` set (csm_resuming s) \<or> csm_timer s \<noteq> None)"
proof (intro conjI impI)
  have "one_loop start"
    using assms(1) by (auto simp: new_consumer_def one_loop_def consumer_loops_def split: if_splits)
  then have inv_loop: "one_loop s" using consumer_run_invariant [OF assms(2), of one_loop] step_one_loop by blast
  then show count: "count (consumer_loops s) (csm_lifecycle s) = (if csm_running s then 1 else 0)"
    and timers: "csm_timers s = own_timer (csm_timer s) (csm_lifecycle s)"
    by (simp_all add: one_loop_def)
  show "csm_running s \<or> csm_timers s = []"
    using count timers by (cases "csm_timer s") (auto simp: consumer_loops_def split: if_splits)
  assume "csm_running s"
  then have "csm_lifecycle s \<in># consumer_loops s" using count by (metis count_eq_zero_iff zero_neq_one)
  then show "csm_lifecycle s \<in> set (csm_waiting s) \<and> poll_busy s
      \<or> csm_lifecycle s \<in> fst ` set (csm_resuming s) \<or> csm_timer s \<noteq> None"
    using inv_loop timers by (cases "csm_timer s") (auto simp: consumer_loops_def one_loop_def)
qed

subsection \<open>A concrete consumer\<close>

definition revision_at :: "int \<Rightarrow> int \<Rightarrow> revision_state" where
  "revision_at a l = \<lparr>rvs_application = ''shop'', rvs_environment = ''prod'', rvs_authorization = a, rvs_lifecycle = l\<rparr>"

definition sample_invalidation :: revision_invalidation where
  "sample_invalidation = \<lparr>rvi_application = ''shop'', rvi_environment = ''test'', rvi_scope = WholeApplication,
     rvi_authorization = 4, rvi_lifecycle = 2\<rparr>"

definition idle_consumer :: "(authorization_view, revision_state) consumer" where
  "idle_consumer = \<lparr>csm_data = \<lparr>avw_current = None, avw_minimum = None\<rparr>, csm_poll = None, csm_waiting = [], csm_resuming = [], csm_timers = [],
     csm_timer = None, csm_handle = 0, csm_running = False, csm_lifecycle = 0, csm_errors = 0\<rparr>"

text \<open>A first snapshot, then an invalidation; a stale read is ignored and a later one is published.\<close>

definition first_events :: "(revision_state, revision_invalidation) consumer_event list" where
  "first_events = [Start, ReadReturns (Some (revision_at 3 1)), AdvanceReturns, ClearPoll, ResumeLoop 0]"

definition later_events :: "(revision_state, revision_invalidation) consumer_event list" where
  "later_events = [TimerFires 0, ReadReturns (Some (revision_at 5 1)), ClearPoll, ResumeLoop 0, TimerFires 1,
     ReadReturns (Some (revision_at 5 2)), AdvanceReturns]"

definition first_consumer :: "(authorization_view, revision_state) consumer" where
  "first_consumer = \<lparr>csm_data = \<lparr>avw_current = Some (revision_at 3 1), avw_minimum = None\<rparr>, csm_poll = None, csm_waiting = [],
     csm_resuming = [], csm_timers = [(0, 1)], csm_timer = Some 0, csm_handle = 1, csm_running = True, csm_lifecycle = 1, csm_errors = 0\<rparr>"

definition later_consumer :: "(authorization_view, revision_state) consumer" where
  "later_consumer = \<lparr>csm_data = \<lparr>avw_current = Some (revision_at 5 2), avw_minimum = None\<rparr>, csm_poll = Some (Settled (Some True)),
     csm_waiting = [], csm_resuming = [(1, False)], csm_timers = [], csm_timer = None, csm_handle = 2, csm_running = True,
     csm_lifecycle = 1, csm_errors = 0\<rparr>"

lemma sample_runs:
  "new_authorization_consumer None = Some idle_consumer"
  "consumer_run (authorization_calls ''shop'' ''prod'') first_events idle_consumer = Some first_consumer"
  "consumer_run (authorization_calls ''shop'' ''prod'') (Invalidate sample_invalidation # later_events) first_consumer = Some later_consumer"
  by code_simp+

text \<open>An invalidation that arrives while the first snapshot is applied: that snapshot is published below it, and the floor stays.\<close>

definition applying_events :: "(revision_state, revision_invalidation) consumer_event list" where
  "applying_events = [Start, ReadReturns (Some (revision_at 3 1))]"

definition applying_consumer :: "(authorization_view, revision_state) consumer" where
  "applying_consumer = \<lparr>csm_data = \<lparr>avw_current = None, avw_minimum = None\<rparr>, csm_poll = Some (Advancing (revision_at 3 1)), csm_waiting = [1],
     csm_resuming = [], csm_timers = [], csm_timer = None, csm_handle = 0, csm_running = True, csm_lifecycle = 1, csm_errors = 0\<rparr>"

definition applied_consumer :: "(authorization_view, revision_state) consumer" where
  "applied_consumer = \<lparr>csm_data = \<lparr>avw_current = Some (revision_at 3 1), avw_minimum = Some (revision_at 4 2)\<rparr>,
     csm_poll = Some (Settled (Some True)), csm_waiting = [], csm_resuming = [(1, False)], csm_timers = [], csm_timer = None, csm_handle = 0,
     csm_running = True, csm_lifecycle = 1, csm_errors = 0\<rparr>"

lemma applying_runs:
  "consumer_run (authorization_calls ''shop'' ''prod'') applying_events idle_consumer = Some applying_consumer"
  "consumer_run (authorization_calls ''shop'' ''prod'') [Invalidate sample_invalidation, AdvanceReturns] applying_consumer = Some applied_consumer"
  by code_simp+

theorem authorization_invalidation_not_lost_witness:
  "avw_current (csm_data first_consumer) = Some (revision_at 3 1) \<and> owns_invalidation ''shop'' ''prod'' sample_invalidation
   \<and> is_revision 4 2 \<and> csm_poll first_consumer = None \<and> avw_current (csm_data later_consumer) = Some (revision_at 5 2)
   \<and> (4::int) \<le> 5 \<and> (2::int) \<le> 2
   \<and> avw_current (csm_data applied_consumer) = Some (revision_at 3 1) \<and> csm_poll applying_consumer = Some (Advancing (revision_at 3 1))
   \<and> (\<exists>y. (avw_current (csm_data applied_consumer) = Some y \<or> avw_minimum (csm_data applied_consumer) = Some y) \<and> 4 \<le> rvs_authorization y)"
proof -
  have facts: "avw_current (csm_data first_consumer) = Some (revision_at 3 1)" "owns_invalidation ''shop'' ''prod'' sample_invalidation"
    "is_revision (rvi_authorization sample_invalidation) (rvi_lifecycle sample_invalidation)" "csm_poll first_consumer = None"
    "avw_current (csm_data later_consumer) = Some (revision_at 5 2)" "avw_current (csm_data first_consumer) \<noteq> Some (revision_at 5 2)"
    by code_simp+
  have applied: "avw_current (csm_data applied_consumer) = Some (revision_at 3 1)" "csm_poll applying_consumer = Some (Advancing (revision_at 3 1))"
    "rvi_authorization sample_invalidation = 4" "rvi_lifecycle sample_invalidation = 2"
    by code_simp+
  have "rvi_authorization sample_invalidation \<le> rvs_authorization (revision_at 5 2) \<and> rvi_lifecycle sample_invalidation \<le> rvs_lifecycle (revision_at 5 2)"
    using authorization_invalidation_not_lost [OF sample_runs, where x = "revision_at 3 1" and z = "revision_at 5 2"] facts by simp
  moreover have "\<exists>y. (avw_current (csm_data applied_consumer) = Some y \<or> avw_minimum (csm_data applied_consumer) = Some y)
      \<and> rvi_authorization sample_invalidation \<le> rvs_authorization y"
    using authorization_invalidation_not_lost [OF sample_runs(1) applying_runs] facts(2,3) by blast
  ultimately show ?thesis using facts applied by (simp add: revision_at_def)
qed

theorem consumer_single_loop_witness:
  "new_consumer \<lparr>avw_current = None, avw_minimum = None\<rparr> None = Some idle_consumer
   \<and> consumer_run (authorization_calls ''shop'' ''prod'') first_events idle_consumer = Some first_consumer
   \<and> count (consumer_loops first_consumer) 1 = 1 \<and> csm_timers first_consumer = [(0, 1)]"
proof -
  have start: "new_consumer \<lparr>avw_current = None, avw_minimum = None\<rparr> None = Some idle_consumer" by code_simp
  show ?thesis
    using consumer_single_loop [OF start sample_runs(2)] start sample_runs(2) by (simp add: first_consumer_def)
qed

end
