(* ===== verification/MigrationFence.thy ===== *)
theory MigrationFence
  imports Effects "HOL-Library.Word"
begin

text \<open>
  The fence around database migrations: \<open>packages/runtime/src/migration-fence.ts\<close>. The pool and its
  session are parameters that answer the queries of the code; the log holds every query with its
  answer, or \<open>None\<close> when it threw.
\<close>

unbundle bit_operations_syntax

datatype migration_code =
    InvalidInput | LockUnavailable | RevisionMismatch | StaleArtifact | ReleaseMismatch | MigrationSetMismatch | LedgerMismatch

datatype migration_error = MigrationFenceError migration_code | OtherMigrationError

subsection \<open>Lock keys\<close>

text \<open>\<open>hash ^= charCodeAt; hash = Math.imul(hash, 0x01000193)\<close>; the result is read as a signed number.\<close>

definition hash_char :: "char \<Rightarrow> 32 word \<Rightarrow> 32 word" where
  "hash_char c h = (h XOR word_of_int (of_char c)) * 0x01000193"

definition hash32 :: "string \<Rightarrow> 32 word \<Rightarrow> int" where
  "hash32 s seed = sint (fold hash_char s seed)"

text \<open>\<open>/^[a-z][a-z0-9.-]{2,127}$/u\<close>\<close>

definition migration_application :: "string \<Rightarrow> bool" where
  "migration_application s \<longleftrightarrow> 3 \<le> length s \<and> length s \<le> 128 \<and> is_lower (hd s)
     \<and> list_all (\<lambda>c. is_lower c \<or> is_digit c \<or> c \<in> set ''.-'') s"

definition database_identity :: "string \<Rightarrow> bool" where
  "database_identity s \<longleftrightarrow> s \<noteq> [] \<and> list_all is_digit s"

definition derive_lock_key :: "string \<Rightarrow> string \<Rightarrow> migration_error + int \<times> int" where
  "derive_lock_key app database =
     (if \<not> migration_application app \<or> \<not> database_identity database then Inl (MigrationFenceError InvalidInput)
      else let identity = app @ nul # database
           in Inr (hash32 identity 0x811c9dc5, hash32 identity 0x6d2b79f5))"

subsection \<open>\<open>executeMigrationJob\<close>\<close>

record migration_job =
  mj_application :: string
  mj_predecessor :: int
  mj_target :: int
  mj_release :: string

record migration_receipt =
  mc_application :: string
  mc_predecessor :: int
  mc_revision :: int
  mc_release :: string

text \<open>\<open>/^[a-zA-Z0-9][a-zA-Z0-9._:+/-]{0,127}$/u\<close>\<close>

definition release_revision_text :: "string \<Rightarrow> bool" where
  "release_revision_text s \<longleftrightarrow> s \<noteq> [] \<and> length s \<le> 128 \<and> is_alnum (hd s) \<and> list_all (\<lambda>c. is_alnum c \<or> c \<in> set ''._:+/-'') s"

definition platform_release_receipt :: "string \<Rightarrow> bool" where
  "platform_release_receipt s \<longleftrightarrow> take 9 s = ''platform-''"

definition validate_job :: "migration_job \<Rightarrow> migration_error + unit" where
  "validate_job j =
     (if \<not> migration_application (mj_application j) then Inl (MigrationFenceError InvalidInput)
      else if \<not> is_safe_integer (mj_predecessor j) \<or> mj_predecessor j < 0 \<or> mj_target j \<noteq> mj_predecessor j + 1
              \<or> \<not> release_revision_text (mj_release j) then Inl (MigrationFenceError InvalidInput)
      else if platform_release_receipt (mj_release j) then Inl (MigrationFenceError InvalidInput)
      else Inr ())"

datatype migration_event =
    Connected "unit option"
  | DatabaseRead "string list option"
  | LockTried "int \<times> int" "bool list option"
  | TransactionBegun "unit option"
  | RevisionRead string "int list option"
  | Migrated "unit option"
  | RevisionUpdated migration_job "migration_receipt list option"
  | Committed "unit option"
  | RolledBack "unit option"
  | Unlocked "int \<times> int" "unit option"
  | SessionReleased "unit option"

type_synonym ('w, 'a) migration_effect = "'w \<Rightarrow> (migration_error + 'a) \<times> 'w"

record 'w migration_host =
  mh_connect :: "('w, unit) migration_effect"
  mh_database :: "('w, string list) migration_effect"
  mh_lock :: "int \<times> int \<Rightarrow> ('w, bool list) migration_effect"
  mh_begin :: "('w, unit) migration_effect"
  mh_revision :: "string \<Rightarrow> ('w, int list) migration_effect"
  mh_migrate :: "('w, unit) migration_effect"
  mh_update :: "migration_job \<Rightarrow> ('w, migration_receipt list) migration_effect"
  mh_commit :: "('w, unit) migration_effect"
  mh_rollback :: "('w, unit) migration_effect"
  mh_unlock :: "int \<times> int \<Rightarrow> ('w, unit) migration_effect"
  mh_release :: "('w, unit) migration_effect"

text \<open>The local variables of the job that its \<open>catch\<close> and \<open>finally\<close> read.\<close>

record 'w migration_run = "('w, migration_event) recording" +
  mr_keys :: "int \<times> int"
  mr_locked :: bool
  mr_transaction :: bool

type_synonym ('w, 'a) migration_step = "('w migration_run, migration_error, 'a) throwing_step"

definition fence_check :: "bool \<Rightarrow> migration_code \<Rightarrow> ('w, unit) migration_step" where
  "fence_check b code = step_of (guard_that b (MigrationFenceError code))"

definition migration_body :: "'w migration_host \<Rightarrow> migration_job \<Rightarrow> ('w, migration_receipt) migration_step" where
  "migration_body h j =
     step_bind (call_out DatabaseRead (mh_database h)) (\<lambda>databases.
     step_bind (fence_check (length databases = 1) InvalidInput) (\<lambda>_.
     step_bind (step_of (derive_lock_key (mj_application j) (hd databases))) (\<lambda>keys.
     step_bind (step_modify (\<lambda>s. s\<lparr>mr_keys := keys\<rparr>)) (\<lambda>_.
     step_bind (call_out (LockTried keys) (mh_lock h keys)) (\<lambda>locks.
     step_bind (step_modify (\<lambda>s. s\<lparr>mr_locked := (case locks of [] \<Rightarrow> False | l # _ \<Rightarrow> l)\<rparr>)) (\<lambda>_.
     step_bind (fence_check (case locks of [] \<Rightarrow> False | l # _ \<Rightarrow> l) LockUnavailable) (\<lambda>_.
     step_bind (call_out TransactionBegun (mh_begin h)) (\<lambda>_.
     step_bind (step_modify (\<lambda>s. s\<lparr>mr_transaction := True\<rparr>)) (\<lambda>_.
     step_bind (call_out (RevisionRead (mj_application j)) (mh_revision h (mj_application j))) (\<lambda>current.
     step_bind (fence_check (current = [mj_predecessor j]) RevisionMismatch) (\<lambda>_.
     step_bind (call_out Migrated (mh_migrate h)) (\<lambda>_.
     step_bind (call_out (RevisionUpdated j) (mh_update h j)) (\<lambda>rows.
     step_bind (fence_check (length rows = 1) RevisionMismatch) (\<lambda>_.
     step_bind (call_out Committed (mh_commit h)) (\<lambda>_.
     step_bind (step_modify (\<lambda>s. s\<lparr>mr_transaction := False\<rparr>)) (\<lambda>_.
     step_return (hd rows)))))))))))))))))"

definition migration_catch :: "'w migration_host \<Rightarrow> migration_error \<Rightarrow> ('w, 'a) migration_step" where
  "migration_catch h e s = (Inl e, if mr_transaction s then ignoring (call_out RolledBack (mh_rollback h)) s else s)"

definition migration_finally :: "'w migration_host \<Rightarrow> ('w, unit) migration_step" where
  "migration_finally h s =
     call_out SessionReleased (mh_release h) (if mr_locked s then ignoring (call_out (Unlocked (mr_keys s)) (mh_unlock h (mr_keys s))) s else s)"

definition execute_migration :: "'w migration_host \<Rightarrow> migration_job \<Rightarrow> ('w, migration_receipt) migration_step" where
  "execute_migration h j =
     step_bind (step_of (validate_job j)) (\<lambda>_.
     step_bind (call_out Connected (mh_connect h)) (\<lambda>_.
     step_finally (step_catch (migration_body h j) (migration_catch h)) (migration_finally h)))"

definition migration_start :: "'w \<Rightarrow> 'w migration_run" where
  "migration_start w = \<lparr>rc_world = w, rc_events = [], mr_keys = (0, 0), mr_locked = False, mr_transaction = False\<rparr>"

subsection \<open>Readiness\<close>

record release_request =
  rlq_application :: string
  rlq_predecessor :: int
  rlq_revision :: int
  rlq_release :: string
  rlq_digest :: string
  rlq_closure :: "string option"
  rlq_declared :: "string list"

record release_row =
  rlr_application :: string
  rlr_predecessor :: int
  rlr_revision :: int
  rlr_release :: string
  rlr_digest :: "string option"
  rlr_closure :: "string option"
  rlr_applied :: "string list option"

record platform_receipt = migration_receipt +
  pr_digest :: string
  pr_closure :: "string option"
  pr_applied :: "string list"

definition hex64 :: "string \<Rightarrow> bool" where
  "hex64 s \<longleftrightarrow> length s = 64 \<and> list_all (\<lambda>c. c \<in> set ''0123456789abcdef'') s"

definition check_release_request :: "release_request \<Rightarrow> migration_error + unit" where
  "check_release_request q =
     (if \<not> is_safe_integer (rlq_revision q) \<or> rlq_revision q < 0 \<or> \<not> is_safe_integer (rlq_predecessor q) \<or> rlq_predecessor q < 0
         \<or> \<not> hex64 (rlq_digest q)
         \<or> (case rlq_closure q of None \<Rightarrow> False | Some c \<Rightarrow> take 7 c \<noteq> ''sha256:'' \<or> \<not> hex64 (drop 7 c))
         \<or> rlq_declared q = []
      then Inl (MigrationFenceError InvalidInput) else Inr ())"

definition check_release_rows :: "release_request \<Rightarrow> release_row list \<Rightarrow> migration_error + platform_receipt" where
  "check_release_rows q rows =
     (case rows of
        [row] \<Rightarrow>
          if rlq_revision q < rlr_revision row then Inl (MigrationFenceError StaleArtifact)
          else if rlr_revision row \<noteq> rlq_revision q \<or> rlr_predecessor row \<noteq> rlq_predecessor q then Inl (MigrationFenceError RevisionMismatch)
          else if rlr_release row \<noteq> rlq_release q then Inl (MigrationFenceError ReleaseMismatch)
          else if rlr_digest row \<noteq> Some (rlq_digest q) then Inl (MigrationFenceError MigrationSetMismatch)
          else if rlr_closure row \<noteq> rlq_closure q then Inl (MigrationFenceError ReleaseMismatch)
          else let applied = (case rlr_applied row of None \<Rightarrow> [] | Some names \<Rightarrow> names)
               in if length applied \<noteq> length (rlq_declared q) \<or> list_ex (\<lambda>(name, declared). name \<noteq> declared) (zip applied (rlq_declared q))
                  then Inl (MigrationFenceError LedgerMismatch)
                  else Inr \<lparr>mc_application = rlr_application row, mc_predecessor = rlr_predecessor row, mc_revision = rlr_revision row,
                         mc_release = rlr_release row, pr_digest = rlq_digest q, pr_closure = rlq_closure q, pr_applied = applied\<rparr>
      | _ \<Rightarrow> Inl (MigrationFenceError RevisionMismatch))"

definition assert_release_readiness :: "(string \<Rightarrow> 'w \<Rightarrow> (migration_error + release_row list) \<times> 'w) \<Rightarrow> release_request \<Rightarrow> 'w \<Rightarrow>
    (migration_error + platform_receipt) \<times> 'w" where
  "assert_release_readiness query q =
     step_bind (step_of (check_release_request q)) (\<lambda>_.
     step_bind (query (rlq_application q)) (\<lambda>rows. step_of (check_release_rows q rows)))"

definition check_migration_rows :: "int \<Rightarrow> string \<Rightarrow> migration_receipt list \<Rightarrow> migration_error + migration_receipt" where
  "check_migration_rows revision release rows =
     (case rows of
        [row] \<Rightarrow>
          if revision < mc_revision row then Inl (MigrationFenceError StaleArtifact)
          else if mc_revision row \<noteq> revision then Inl (MigrationFenceError RevisionMismatch)
          else if mc_release row \<noteq> release then Inl (MigrationFenceError ReleaseMismatch)
          else Inr row
      | _ \<Rightarrow> Inl (MigrationFenceError RevisionMismatch))"

definition assert_migration_readiness :: "(string \<Rightarrow> 'w \<Rightarrow> (migration_error + migration_receipt list) \<times> 'w) \<Rightarrow> string \<Rightarrow> int \<Rightarrow> string \<Rightarrow>
    'w \<Rightarrow> (migration_error + migration_receipt) \<times> 'w" where
  "assert_migration_readiness query app revision release =
     step_bind (step_of (if is_safe_integer revision \<and> 0 \<le> revision then Inr () else Inl (MigrationFenceError InvalidInput))) (\<lambda>_.
     step_bind (query app) (\<lambda>rows. step_of (check_migration_rows revision release rows)))"

end
