(* ===== verification/MigrationFenceProperties.thy ===== *)
theory MigrationFenceProperties
  imports MigrationFence
begin

text \<open>
  The migration fence is correct: the lock keys of one application on two databases that differ in one digit differ;
  a migration runs only behind the lock, inside a transaction and on the expected revision; whatever was acquired is given back;
  and the readiness checks accept exactly the recorded state.
\<close>

subsection \<open>Lock keys\<close>

lemma hash_multiplier_invertible: "(0x01000193 :: 32 word) * 899433627 = 1"
  by simp

lemma xor_cancel: "(h :: 32 word) XOR x = k XOR x \<longleftrightarrow> h = k"
proof
  assume "h XOR x = k XOR x"
  then have "(h XOR x) XOR x = (k XOR x) XOR x" by simp
  then show "h = k" by (simp add: xor.assoc)
qed simp

lemma hash_multiplier_cancel: "(x :: 32 word) * 0x01000193 = y * 0x01000193 \<longleftrightarrow> x = y"
proof
  assume "x * 0x01000193 = y * 0x01000193"
  then have "x * (0x01000193 * 899433627) = y * (0x01000193 * 899433627)" by (simp only: mult.assoc [symmetric])
  then show "x = y" by (simp only: hash_multiplier_invertible mult_1_right)
qed simp

lemma hash_char_inject [simp]: "hash_char c h = hash_char c k \<longleftrightarrow> h = k"
  by (simp only: hash_char_def hash_multiplier_cancel xor_cancel)

lemma char_word_inject: "(word_of_int (of_char c) :: 32 word) = word_of_int (of_char d) \<longleftrightarrow> c = d"
proof
  have small: "uint (word_of_int (of_char x) :: 32 word) = of_char x" for x :: char
  proof -
    have "(of_char x :: int) mod 256 = of_char x" by (rule of_char_mod_256)
    then have "0 \<le> (of_char x :: int)" "(of_char x :: int) < 256"
      using pos_mod_sign [of 256 "of_char x :: int"] pos_mod_bound [of 256 "of_char x :: int"] by simp_all
    then show ?thesis by (simp add: uint_word_of_int)
  qed
  assume "(word_of_int (of_char c) :: 32 word) = word_of_int (of_char d)"
  then have "(of_char c :: int) = of_char d" by (metis small)
  then show "c = d" by simp
qed simp

lemma hash_char_differs: "hash_char c h = hash_char d h \<longleftrightarrow> c = d"
proof -
  have "hash_char c h = hash_char d h \<longleftrightarrow> word_of_int (of_char c) XOR h = word_of_int (of_char d) XOR h"
    unfolding hash_char_def hash_multiplier_cancel by (simp only: xor.commute)
  then show ?thesis by (simp only: xor_cancel char_word_inject)
qed

lemma hash_fold_inject: "fold hash_char s h = fold hash_char s k \<longleftrightarrow> h = k"
  by (induction s arbitrary: h k) simp_all

lemma hash32_differs:
  assumes "c \<noteq> d"
  shows "hash32 (xs @ c # ys) seed \<noteq> hash32 (xs @ d # ys) seed"
proof
  assume "hash32 (xs @ c # ys) seed = hash32 (xs @ d # ys) seed"
  then have "fold hash_char (xs @ c # ys) seed = fold hash_char (xs @ d # ys) seed"
    by (simp only: hash32_def signed_word_eqI)
  then have "hash_char c (fold hash_char xs seed) = hash_char d (fold hash_char xs seed)"
    by (simp only: fold_append fold.simps comp_apply hash_fold_inject)
  then show False using assms by (simp only: hash_char_differs)
qed

lemma hash32_range: "- 2147483648 \<le> hash32 s seed" "hash32 s seed \<le> 2147483647"
  unfolding hash32_def using sint_greater_eq [of "fold hash_char s seed"] sint_less [of "fold hash_char s seed"] by simp_all

lemma lock_keys_exist: "(\<exists>k. derive_lock_key app database = Inr k) \<longleftrightarrow> migration_application app \<and> database_identity database"
  by (simp add: derive_lock_key_def Let_def)

text \<open>C32: A lock key exists exactly for valid identities and is a pair of signed 32-bit numbers, as the advisory locks of the database take
  them. For one application, two database identities that differ in one digit never share either half of the key.\<close>

theorem lock_keys_separate_databases:
  "((\<exists>k. derive_lock_key app database = Inr k) \<longleftrightarrow> migration_application app \<and> database_identity database)
   \<and> (derive_lock_key app database = Inr k \<longrightarrow> fst k \<in> {- 2147483648 .. 2147483647} \<and> snd k \<in> {- 2147483648 .. 2147483647})
   \<and> (c \<noteq> d \<and> derive_lock_key app (xs @ c # ys) = Inr k \<and> derive_lock_key app (xs @ d # ys) = Inr l \<longrightarrow>
      fst k \<noteq> fst l \<and> snd k \<noteq> snd l)"
proof (intro conjI impI)
  show "(\<exists>k. derive_lock_key app database = Inr k) \<longleftrightarrow> migration_application app \<and> database_identity database"
    by (rule lock_keys_exist)
next
  assume "derive_lock_key app database = Inr k"
  then show "fst k \<in> {- 2147483648 .. 2147483647}" "snd k \<in> {- 2147483648 .. 2147483647}"
    using hash32_range [of "app @ nul # database"] by (auto simp: derive_lock_key_def Let_def split: if_splits)
next
  assume "c \<noteq> d \<and> derive_lock_key app (xs @ c # ys) = Inr k \<and> derive_lock_key app (xs @ d # ys) = Inr l"
  then show "fst k \<noteq> fst l" "snd k \<noteq> snd l"
    using hash32_differs [of c d "app @ nul # xs" ys] by (auto simp: derive_lock_key_def Let_def split: if_splits)
qed

subsection \<open>The trace of a job\<close>

definition fenced_prefix :: "migration_job \<Rightarrow> string \<Rightarrow> int \<times> int \<Rightarrow> bool list \<Rightarrow> migration_event list" where
  "fenced_prefix j d k ls =
     [Connected (Some ()), DatabaseRead (Some [d]), LockTried k (Some (True # ls)), TransactionBegun (Some ()),
      RevisionRead (mj_application j) (Some [mj_predecessor j])]"

text \<open>What a body that threw leaves: the flags tell what has to be given back, and a migration stands behind the fence.\<close>

definition interrupted :: "migration_job \<Rightarrow> 'w migration_run \<Rightarrow> bool" where
  "interrupted j s \<longleftrightarrow>
     (\<forall>a. Migrated a \<in> set (rc_events s) \<longrightarrow> (\<exists>d k ls rest. derive_lock_key (mj_application j) d = Inr k
        \<and> rc_events s = fenced_prefix j d k ls @ Migrated a # rest))
     \<and> (TransactionBegun (Some ()) \<in> set (rc_events s) \<longleftrightarrow> mr_transaction s)
     \<and> (\<forall>k ls. LockTried k (Some (True # ls)) \<in> set (rc_events s) \<longrightarrow> mr_locked s \<and> mr_keys s = k)
     \<and> list_all (\<lambda>e. case e of SessionReleased _ \<Rightarrow> False | Unlocked _ _ \<Rightarrow> False | RolledBack _ \<Rightarrow> False | Committed (Some _) \<Rightarrow> False | _ \<Rightarrow> True)
         (rc_events s)"

definition completed :: "migration_job \<Rightarrow> migration_receipt \<Rightarrow> 'w migration_run \<Rightarrow> bool" where
  "completed j receipt s \<longleftrightarrow> mr_locked s \<and> \<not> mr_transaction s
     \<and> (\<exists>d ls. derive_lock_key (mj_application j) d = Inr (mr_keys s)
        \<and> rc_events s = fenced_prefix j d (mr_keys s) ls
            @ [Migrated (Some ()), RevisionUpdated j (Some [receipt]), Committed (Some ())])"

fun traced :: "migration_job \<Rightarrow> (migration_error + migration_receipt) \<times> 'w migration_run \<Rightarrow> bool" where
  "traced j (Inr r, s) = completed j r s"
| "traced j (Inl e, s) = interrupted j s"

lemma run_fence_check:
  assumes "b \<Longrightarrow> R (k () s)" "\<not> b \<Longrightarrow> R (Inl (MigrationFenceError code), s)"
  shows "R (step_bind (fence_check b code) k s)"
  using assms by (cases b) (simp_all add: step_bind_def fence_check_def step_of_def guard_that_def)

lemma first_is_true: "(case xs of [] \<Rightarrow> False | x # _ \<Rightarrow> x) \<longleftrightarrow> (\<exists>ls. xs = True # ls)"
  by (cases xs) simp_all

lemma migration_body_trace:
  fixes s :: "'w migration_run"
  assumes "rc_events s = [Connected (Some ())]" "\<not> mr_locked s" "\<not> mr_transaction s"
  shows "traced j (migration_body h j s)"
  unfolding migration_body_def
  apply (rule run_call_out [where R = "traced j"] run_fence_check [where R = "traced j"] run_of_result [where R = "traced j"]
      run_modify [where R = "traced j"] run_return [where R = "traced j"])+
  by (use assms in \<open>auto simp: interrupted_def completed_def fenced_prefix_def length_Suc_conv first_is_true\<close>)

text \<open>What the whole job leaves behind, with everything it acquired given back.\<close>

definition given_back :: "migration_event list \<Rightarrow> bool" where
  "given_back es \<longleftrightarrow>
     (\<exists>before v. es = before @ [SessionReleased v] \<and> (\<forall>u. SessionReleased u \<notin> set before))
     \<and> (TransactionBegun (Some ()) \<in> set es \<longrightarrow> (Committed (Some ()) \<in> set es \<longleftrightarrow> (\<forall>u. RolledBack u \<notin> set es)))
     \<and> (\<forall>k ls. LockTried k (Some (True # ls)) \<in> set es \<longrightarrow> (\<exists>u. Unlocked k u \<in> set es))"

definition fenced :: "migration_job \<Rightarrow> migration_event list \<Rightarrow> bool" where
  "fenced j es \<longleftrightarrow> (\<forall>a. Migrated a \<in> set es \<longrightarrow> (\<exists>d k ls rest. derive_lock_key (mj_application j) d = Inr k
     \<and> es = fenced_prefix j d k ls @ Migrated a # rest))"

lemma fenced_append: "fenced j es \<Longrightarrow> (\<And>a. Migrated a \<notin> set fs) \<Longrightarrow> fenced j (es @ fs)"
  unfolding fenced_def by fastforce

lemma cleanup_events:
  "\<exists>w v. migration_finally h s = (fst (migration_finally h s), snd (migration_finally h s))
     \<and> rc_events (snd (migration_finally h s)) = rc_events s @ (if mr_locked s then [Unlocked (mr_keys s) w] else []) @ [SessionReleased v]
     \<and> (fst (migration_finally h s) = Inr () \<longrightarrow> v = Some ())"
  by (auto simp: migration_finally_def call_out_def ignoring_def split: sum.splits prod.splits)

lemma catch_events:
  "\<exists>u. fst (migration_catch h e s) = Inl e
     \<and> rc_events (snd (migration_catch h e s)) = rc_events s @ (if mr_transaction s then [RolledBack u] else [])
     \<and> mr_locked (snd (migration_catch h e s)) = mr_locked s \<and> mr_keys (snd (migration_catch h e s)) = mr_keys s"
  by (auto simp: migration_catch_def call_out_def ignoring_def split: sum.splits prod.splits)

definition job_result :: "migration_job \<Rightarrow> migration_error + migration_receipt \<Rightarrow> migration_event list \<Rightarrow> bool" where
  "job_result j r es \<longleftrightarrow> (\<forall>receipt. r = Inr receipt \<longrightarrow> (\<exists>d k ls u. derive_lock_key (mj_application j) d = Inr k
     \<and> es = fenced_prefix j d k ls @
         [Migrated (Some ()), RevisionUpdated j (Some [receipt]), Committed (Some ()), Unlocked k u, SessionReleased (Some ())]))"

lemma session_trace:
  fixes s :: "'w migration_run"
  assumes "rc_events s = [Connected (Some ())]" "\<not> mr_locked s" "\<not> mr_transaction s"
    and "step_finally (step_catch (migration_body h j) (migration_catch h)) (migration_finally h) s = (r, t)"
  shows "fenced j (rc_events t) \<and> given_back (rc_events t) \<and> job_result j r (rc_events t)"
proof -
  obtain b u where body: "migration_body h j s = (b, u)" by fastforce
  have traced: "traced j (b, u)" using migration_body_trace [OF assms(1-3), of j h] body by simp
  show ?thesis
  proof (cases b)
    case (Inr receipt)
    then have done_u: "completed j receipt u" using traced by simp
    obtain w v where final: "rc_events (snd (migration_finally h u)) = rc_events u @ [Unlocked (mr_keys u) w, SessionReleased v]"
      "fst (migration_finally h u) = Inr () \<longrightarrow> v = Some ()"
      using cleanup_events [of h u] done_u by (auto simp: completed_def)
    have t: "t = snd (migration_finally h u)" "\<And>x. r = Inr x \<Longrightarrow> x = receipt \<and> fst (migration_finally h u) = Inr ()"
      using assms(4) body Inr by (auto simp: step_finally_def step_catch_def split: prod.splits sum.splits)
    show ?thesis
      using done_u final t by (auto simp: completed_def fenced_def given_back_def job_result_def fenced_prefix_def)
  next
    case (Inl e)
    then have stopped: "interrupted j u" using traced by simp
    define caught where "caught = (migration_catch h e u :: (migration_error + migration_receipt) \<times> 'w migration_run)"
    obtain x where c: "rc_events (snd caught) = rc_events u @ (if mr_transaction u then [RolledBack x] else [])"
      "fst caught = Inl e" "mr_locked (snd caught) = mr_locked u" "mr_keys (snd caught) = mr_keys u"
      unfolding caught_def using catch_events [of h e u] by blast
    obtain w v where final: "rc_events (snd (migration_finally h (snd caught))) = rc_events u
        @ (if mr_transaction u then [RolledBack x] else []) @ (if mr_locked u then [Unlocked (mr_keys u) w] else []) @ [SessionReleased v]"
      using cleanup_events [of h "snd caught"] unfolding c(1,3,4) append_assoc by blast
    have "(migration_catch h e u :: (migration_error + migration_receipt) \<times> 'w migration_run) = (Inl e, snd caught)"
      using c(2) unfolding caught_def by (simp add: prod_eq_iff)
    then have t: "t = snd (migration_finally h (snd caught))" "\<And>y. r \<noteq> Inr y"
      using assms(4) body Inl by (auto simp: step_finally_def step_catch_def split: prod.splits sum.splits)
    have "fenced j (rc_events u)" using stopped by (simp add: interrupted_def fenced_def)
    then have "fenced j (rc_events t)" unfolding t(1) final by (rule fenced_append) simp
    moreover have "given_back (rc_events t)"
      using stopped unfolding t(1) final given_back_def interrupted_def by (fastforce simp: list_all_iff)
    ultimately show ?thesis using t(2) by (simp add: job_result_def)
  qed
qed

text \<open>C11: Whatever the database answers or throws, a migration runs only on a valid job, behind the advisory lock of its application and
  database, inside a transaction and on the expected revision; a receipt is returned only after update and commit;
  and on every path the lock is released if it was taken, the transaction is rolled back unless it was committed, and the
  session is released exactly once, at the end.\<close>

theorem migration_fenced:
  assumes "execute_migration h j (migration_start w) = (r, s)"
  shows "(Migrated a \<in> set (rc_events s) \<longrightarrow> validate_job j = Inr () \<and> (\<exists>d k ls rest. derive_lock_key (mj_application j) d = Inr k
        \<and> rc_events s = fenced_prefix j d k ls @ Migrated a # rest))
    \<and> (r = Inr receipt \<longrightarrow> (\<exists>d k ls u. derive_lock_key (mj_application j) d = Inr k \<and> rc_events s = fenced_prefix j d k ls @
        [Migrated (Some ()), RevisionUpdated j (Some [receipt]), Committed (Some ()), Unlocked k u, SessionReleased (Some ())]))
    \<and> (Connected (Some ()) \<in> set (rc_events s) \<longrightarrow> given_back (rc_events s))"
proof (cases "validate_job j")
  case (Inl e)
  then show ?thesis using assms by (auto simp: execute_migration_def step_bind_def step_of_def migration_start_def)
next
  case (Inr u)
  let ?start = "migration_start w"
  show ?thesis
  proof (cases "mh_connect h w")
    case (Pair c w')
    show ?thesis
    proof (cases c)
      case (Inl e)
      then show ?thesis using assms Inr Pair
        by (auto simp: execute_migration_def step_bind_def step_of_def call_out_def migration_start_def)
    next
      case (Inr v)
      define t where "t = ?start\<lparr>rc_world := w', rc_events := [Connected (Some ())]\<rparr>"
      have run: "step_finally (step_catch (migration_body h j) (migration_catch h)) (migration_finally h) t = (r, s)"
        using assms \<open>validate_job j = Inr u\<close> Pair Inr
        by (simp add: execute_migration_def step_bind_def step_of_def call_out_def t_def) (simp add: migration_start_def)
      have "rc_events t = [Connected (Some ())]" "\<not> mr_locked t" "\<not> mr_transaction t" by (simp_all add: t_def migration_start_def)
      from session_trace [OF this run] show ?thesis
        using \<open>validate_job j = Inr u\<close> unfolding fenced_def job_result_def by auto
    qed
  qed
qed

subsection \<open>Readiness\<close>

text \<open>The readiness check of a platform release returns a receipt exactly when the request is well-formed and the database answers
  one row that carries the requested revisions, release, migration set and closure and whose ledger is the declared list
  of migrations; the receipt repeats that row.\<close>

lemma release_readiness_exact:
  "fst (assert_release_readiness query q w) = Inr receipt \<longleftrightarrow>
     check_release_request q = Inr ()
     \<and> (\<exists>row. fst (query (rlq_application q) w) = Inr [row]
          \<and> rlr_revision row = rlq_revision q \<and> rlr_predecessor row = rlq_predecessor q \<and> rlr_release row = rlq_release q
          \<and> rlr_digest row = Some (rlq_digest q) \<and> rlr_closure row = rlq_closure q \<and> rlr_applied row = Some (rlq_declared q)
          \<and> receipt = \<lparr>mc_application = rlr_application row, mc_predecessor = rlq_predecessor q, mc_revision = rlq_revision q,
              mc_release = rlq_release q, pr_digest = rlq_digest q, pr_closure = rlq_closure q, pr_applied = rlq_declared q\<rparr>)"
proof -
  have ledger: "length xs = length ys \<and> \<not> list_ex (\<lambda>(x, y). x \<noteq> y) (zip xs ys) \<longleftrightarrow> xs = ys" for xs ys :: "string list"
    by (induction xs ys rule: list_induct2') auto
  have declared: "check_release_request q = Inr () \<Longrightarrow> rlq_declared q \<noteq> []" by (auto simp: check_release_request_def split: if_splits)
  have applied: "(case a of None \<Rightarrow> [] | Some names \<Rightarrow> names) = rlq_declared q \<longleftrightarrow> a = Some (rlq_declared q)"
    if "check_release_request q = Inr ()" for a
    using declared [OF that] by (auto split: option.splits)
  have rows: "check_release_rows q rows = Inr receipt \<longleftrightarrow> (\<exists>row. rows = [row] \<and> rlr_revision row = rlq_revision q
      \<and> rlr_predecessor row = rlq_predecessor q \<and> rlr_release row = rlq_release q
      \<and> rlr_digest row = Some (rlq_digest q) \<and> rlr_closure row = rlq_closure q \<and> rlr_applied row = Some (rlq_declared q)
      \<and> receipt = \<lparr>mc_application = rlr_application row, mc_predecessor = rlq_predecessor q, mc_revision = rlq_revision q,
          mc_release = rlq_release q, pr_digest = rlq_digest q, pr_closure = rlq_closure q, pr_applied = rlq_declared q\<rparr>)"
    if "check_release_request q = Inr ()" for rows
    using ledger applied [OF that] by (auto simp: check_release_rows_def Let_def split: list.splits if_splits)
  show ?thesis
    using rows by (auto simp: assert_release_readiness_def step_bind_def step_of_def split: sum.splits prod.splits)
qed

subsection \<open>A concrete job\<close>

theorem lock_keys_separate_databases_witness:
  "migration_application ''shop'' \<and> database_identity ''16384'' \<and> CHR ''4'' \<noteq> CHR ''5''
   \<and> derive_lock_key ''shop'' ''16384'' \<noteq> derive_lock_key ''shop'' ''16385''"
proof -
  have valid: "migration_application ''shop''" "database_identity ''16384''" "database_identity ''16385''" by code_simp+
  then obtain k l where "derive_lock_key ''shop'' (''1638'' @ CHR ''4'' # []) = Inr k" "derive_lock_key ''shop'' (''1638'' @ CHR ''5'' # []) = Inr l"
    by (auto simp: derive_lock_key_def Let_def)
  moreover from this have "fst k \<noteq> fst l"
    using lock_keys_separate_databases [where app = "''shop''" and c = "CHR ''4''" and d = "CHR ''5''" and xs = "''1638''" and ys = "[]"] by simp
  ultimately show ?thesis using valid by auto
qed

definition sample_job :: migration_job where
  "sample_job = \<lparr>mj_application = ''shop'', mj_predecessor = 3, mj_target = 4, mj_release = ''sales-4''\<rparr>"

definition sample_receipt :: migration_receipt where
  "sample_receipt = \<lparr>mc_application = ''shop'', mc_predecessor = 3, mc_revision = 4, mc_release = ''sales-4''\<rparr>"

definition sample_database :: "unit migration_host" where
  "sample_database = \<lparr>mh_connect = \<lambda>w. (Inr (), w), mh_database = \<lambda>w. (Inr [''16384''], w), mh_lock = \<lambda>_ w. (Inr [True], w),
     mh_begin = \<lambda>w. (Inr (), w), mh_revision = \<lambda>_ w. (Inr [3], w), mh_migrate = \<lambda>w. (Inr (), w),
     mh_update = \<lambda>_ w. (Inr [sample_receipt], w), mh_commit = \<lambda>w. (Inr (), w), mh_rollback = \<lambda>w. (Inr (), w),
     mh_unlock = \<lambda>_ w. (Inl OtherMigrationError, w), mh_release = \<lambda>w. (Inr (), w)\<rparr>"

lemma sample_job_returns: "fst (execute_migration sample_database sample_job (migration_start ())) = Inr sample_receipt"
proof -
  have "validate_job sample_job = Inr ()" by code_simp
  moreover obtain k where "derive_lock_key ''shop'' ''16384'' = Inr k" proof -
    have "migration_application ''shop'' \<and> database_identity ''16384''" by code_simp
    then show ?thesis using lock_keys_exist [of "''shop''" "''16384''"] that by blast
  qed
  ultimately show ?thesis
    by (simp add: execute_migration_def migration_body_def migration_finally_def step_finally_def step_catch_def step_bind_def step_of_def
        call_out_def fence_check_def guard_that_def step_modify_def step_return_def ignoring_def sample_database_def sample_job_def
        migration_start_def)
qed

theorem migration_fenced_witness:
  "fst (execute_migration sample_database sample_job (migration_start ())) = Inr sample_receipt
   \<and> Migrated (Some ()) \<in> set (rc_events (snd (execute_migration sample_database sample_job (migration_start ()))))
   \<and> Committed (Some ()) \<in> set (rc_events (snd (execute_migration sample_database sample_job (migration_start ()))))"
proof -
  obtain r s where run: "execute_migration sample_database sample_job (migration_start ()) = (r, s)" by fastforce
  then have "r = Inr sample_receipt" using sample_job_returns by simp
  then show ?thesis using migration_fenced [OF run, where receipt = sample_receipt and a = "Some ()"] run by auto
qed

end
