(* ===== verification/Spec2Isabelle.thy ===== *)
theory Spec2Isabelle
  imports PluginGraphExamples CanonicalJsonProperties ToolIdempotencyProperties ToolApprovalProperties
    ToolBudgetProperties ToolDelegationProperties ToolAudit ToolCatalogProperties ToolGatewayProperties
    ToolStagesProperties DataSourceGatewayProperties PluginLifecycleProperties DataSourceBudgetProperties
    DataSourceCacheProperties AuthorizationReplay EffectiveAuthorityProperties
    PluginManagerProperties UpgradeDryRunProperties RevisionConsumersProperties MigrationFenceProperties
begin

text \<open>
  Verification of the k-nex platform core: the TypeScript packages \<open>contracts\<close>, \<open>composition\<close> and
  \<open>runtime\<close> under \<open>src/packages\<close>. Files are named relative to \<open>src/packages/runtime/src\<close> unless another
  package is named.

  \<^bold>\<open>The program.\<close> An application is composed of plugins. The composition step resolves the requested plugins
  to a graph and a registration order; at run time the plugins register their contributions, a lifecycle
  says which plugins are installed, enabled and ready, and a registration is scoped to the contributions
  that may run. Two gateways execute what is registered: the tool gateway runs actions and queries for
  people and agents, the data-source gateway runs table queries for pages. Both compose stages for
  identity, authorization, budgets, caching, audit and redaction. The effective authority decides what a
  session may do from roles and grants of the store, the catalogue of permissions and policies that the
  plugins contribute, and the generations of extensions that are current; a planner moves these
  generations when an extension is installed, updated, disabled or removed.

  \<^bold>\<open>Conventions\<close> (\<open>Prelude\<close>). Records, enumerations and unions of the code are records and datatypes with the
  constructors of the code. An operation is a function from its state to its result and new state; a
  thrown error is the left summand of a sum. Maps and sets of JavaScript are association lists and lists in insertion
  order. A string is a list of code units below 256. Numbers are integers wherever the code tests
  them to be safe integers, words where it computes with bit operations, and rationals for the tokens of rate limits, where the code has
  doubles. A value of unknown type is an option or a small datatype of the shapes that the code tells apart. Objects that a
  \<open>WeakSet\<close> guards are options as well: the guard is the test for \<open>Some\<close>. A function with suspensions is
  split into one operation for each run of code between two suspensions where calls can interleave;
  otherwise its awaits are calls of stages that return or throw (\<open>Effects\<close>). There is no fuel: every loop is
  structural or has a measure, so totality of the functions is the termination of the loops.

  \<^bold>\<open>Theories.\<close>
  \<^item> \<open>PluginGraph\<close>, \<open>PluginGraphSearch\<close>, \<open>PluginGraphOrder\<close>, \<open>PluginGraphSelection\<close>, \<open>PluginGraphResolution\<close>,
    \<open>PluginGraphProperties\<close>, \<open>PluginGraphExamples\<close>: the resolver \<open>deterministic-resolver.ts\<close> of package \<open>composition\<close>.
    Lemmas: the registration order is a topological order of the active plugins, required capabilities are served by one compatible
    provider, the cycle that an error reports is a shortest one, and the result does not depend on the order of the
    input. The package \<open>semver\<close> is the parameter \<open>semver_ops\<close>.
  \<^item> \<open>CanonicalJson\<close>, \<open>CanonicalJsonProperties\<close>: \<open>canonical-json.ts\<close> of package \<open>contracts\<close>, from object graphs
    with sharing and cycles to the text that is hashed. Lemmas: the assertion accepts exactly the finite trees and the text
    determines the tree up to the order of keys.
  \<^item> \<open>Identity\<close>: identifier patterns of \<open>identity.ts\<close> and \<open>table-records.ts\<close> of package \<open>contracts\<close>.
  \<^item> \<open>PluginLifecycle\<close>, \<open>PluginLifecycleProperties\<close>: \<open>plugin-lifecycle.ts\<close> and \<open>registration-lifecycle-authority.ts\<close>;
    states, plans, availability and the scoping of a registration, with the fixed point that hides dependants.
  \<^item> \<open>ToolTypes\<close>, \<open>ActorContext\<close>, \<open>Effects\<close>: what the stages of the gateways share, and steps over a world with a log,
    with triples that have one postcondition for a return and one for a throw. The locale \<open>expiring_records\<close> is
    the contract of tables whose records expire; idempotency and approval interpret it.
  \<^item> \<open>ToolGateway\<close>, \<open>ToolGatewayProperties\<close>: \<open>tool-gateway.ts\<close> over arbitrary stages. Lemmas: the handler runs
    only after all gates, in order; the lease is released once; claims are settled; answers are bounded.
  \<^item> \<open>ToolIdempotency\<close>, \<open>ToolApproval\<close>, \<open>ToolBudget\<close>, \<open>ToolDelegation\<close>, \<open>ToolAudit\<close>, \<open>ToolCatalog\<close>, \<open>ToolSchema\<close>,
    \<open>ToolStages\<close> and their \<open>Properties\<close>: the stages \<open>tool-*.ts\<close> and \<open>registered-tool-stages.ts\<close>, each with the invariant of
    its table under sequences of operations, interleaved where the code suspends: a claim of an idempotency key is three segments, and
    none that checks the table after the insertion of another executes while that key is held.
  \<^item> \<open>DataSourceGateway\<close>, \<open>DataSourceFields\<close>, \<open>DataSourceBudget\<close>, \<open>DataSourceCache\<close> and their \<open>Properties\<close>:
    \<open>data-source-*.ts\<close>; fields and filters that the policy allows, redaction of tables, query controls, the
    cache key as an injective function of the request, and the life of a lease.
  \<^item> \<open>AuthorizationContracts\<close>, \<open>AuthorizationStore\<close>: the schemas of \<open>authorization.ts\<close> of package \<open>contracts\<close> and
    the parsers of \<open>authorization-store.ts\<close>.
  \<^item> \<open>AuthorizationLifecycle\<close>, \<open>AuthorizationLifecycleProperties\<close>, \<open>AuthorizationHistory\<close>, \<open>AuthorizationReplay\<close>:
    the planner \<open>authorization-lifecycle.ts\<close>, its refinement of a small machine on fences, histories of plans and replays.
  \<^item> \<open>AuthorizationCatalog\<close>, \<open>AuthorizationCatalogProperties\<close>: \<open>authorization-registry.ts\<close>; ownership of permissions and
    binding of policies to the code of their publisher.
  \<^item> \<open>EffectiveAuthority\<close>, \<open>EffectiveAuthorityProperties\<close>: \<open>effective-authority.ts\<close>; decisions are exact, and the
    cache, an instance of the locale \<open>memo_table\<close>, changes no answer under any interleaving of its operations.
  \<^item> \<open>SemverPrecedence\<close>: exact versions and their precedence in \<open>identity.ts\<close> of package \<open>contracts\<close>, the arithmetic on
    digit strings included; precedence is the linear order of semantic versions on the parsed identifiers, of
    which the theory makes an instance of class \<open>linorder\<close>.
  \<^item> \<open>PluginManager\<close>, \<open>PluginManagerProperties\<close>: the whole of \<open>plugin-manager.ts\<close> over a host whose stores, authority and
    artifacts are parameters. Lemmas: every change of an operation directly follows a renewed decision on its stored request, and a
    claim and a saved plan the decision on planning; a saved plan is bound to its request, inventory and target release; a completed
    operation replays its receipt.
  \<^item> \<open>UpgradePlanner\<close>, \<open>UpgradePlannerProperties\<close>, \<open>UpgradeDryRunProperties\<close>: \<open>upgrade-planner.ts\<close> and the schema of release manifests.
    Lemmas: a plan is ready exactly under a declarative condition that ends with the acyclicity of the dependencies, its steps
    respect them and take every target revision by revision, and a dry run is one chain of migrations for each artifact.
  \<^item> \<open>RevisionConsumers\<close>, \<open>RevisionConsumersProperties\<close>: the consumers of authorization, settings and extension revisions as
    machines of events. The locale \<open>revision_contract\<close> is what they promise about the revisions they have reached; all three
    interpret it. Lemmas: no reached revision is lost under any interleaving, what is published after an invalidation is not below it
    unless it was being applied already, and a running consumer has one polling loop.
  \<^item> \<open>MigrationFence\<close>, \<open>MigrationFenceProperties\<close>: \<open>migration-fence.ts\<close>; lock keys as 32-bit words, the job with its
    transaction and cleanup over a database that may answer or throw anything, and the readiness checks.
  \<^bold>\<open>Interaction.\<close> The scoped registration of \<open>PluginLifecycle\<close> is what the tool catalogue and the stages look targets up
  in; tool catalogue, delegation, budget, approval, idempotency and audit are the stages that \<open>ToolGateway\<close> takes as arguments, and the
  field, budget and cache theories those of \<open>DataSourceGateway\<close>. Generations that the lifecycle planner
  returned are the input of \<open>EffectiveAuthority\<close>, and the theorem on retired grants crosses the two. Canonical texts and digests
  are the keys of the caches, the idempotency table and approvals.

  \<^bold>\<open>Where the code departs from its intention.\<close> Concurrent claims of one idempotency key can both execute; accepted approvals are never purged and
  fill the table; redaction of array elements shifts later paths; a data-source handler that rejects after an abort may be
  an unhandled rejection; the availability of a plugin outside the lifecycle hides nothing; the same build installed again
  after its removal leaves generations that every later plan refuses; a quarantine is not stable under replay. An
  upgrade of a plugin across platform releases can never be planned, because a manifest's support window is its own release only.

  \<^bold>\<open>Not modelled.\<close> Registration phases (\<open>registration-runtime.ts\<close>), protected roles and their templates,
  checks of operations against the current authority, settings of plugins, the action gateway,
  retention of plugin data, fleet and deployments, hot applications and their
  gateways, realtime: core logic of the runtime on top of what is modelled here. The Payload adapter, the extension bundler and runner,
  the processes of static deployments: input and output on a database, files, archives and child processes. The
  generators of package \<open>composition\<close>: templates of source files. The user interface packages and the sales module: browser state,
  tables and forms on top of the platform. System administration: texts and form schemas.
\<close>

end
